(* ===== verification/Prelude.thy ===== *)
theory Prelude
  imports Main
begin

text \<open>
  Shared vocabulary of the development.

  \<^item> Transactions: a program that reads and writes the project database and may throw is a
    function from the state to an error or a result with the new state (\<open>tx\<close>). A thrown
    error carries no state, because the surrounding SQLite transaction is rolled back.
    \<open>commit\<close> turns a transaction into an operation of the running system, which keeps the
    old state on an error and the new one on success.
  \<^item> Tables: a table is the list of its rows in insertion order, read and written through
    \<open>row_find\<close>, \<open>rows_where\<close>, \<open>rows_set\<close>, \<open>rows_delete\<close> and \<open>rows_insert\<close>.
  \<^item> Proof rules: \<open>tx_ok\<close> collects inversion rules for successful runs, \<open>tx_valid\<close> is partial
    correctness and \<open>tx_inv\<close> preservation of a state predicate.
\<close>

section \<open>Collections of facts\<close>

named_theorems tx_ok \<open>inversion of successful runs of transactions\<close>
named_theorems tx_wp \<open>introduction rules for preservation of a state predicate\<close>
named_theorems model_defs \<open>definitions unfolded when a concrete run is evaluated\<close>

section \<open>Transactions\<close>

type_synonym ('e, 's, 'a) tx = "'s \<Rightarrow> 'e + ('a \<times> 's)"

definition tx_return :: "'a \<Rightarrow> ('e, 's, 'a) tx" where
  "tx_return a = (\<lambda>s. Inr (a, s))"

definition tx_throw :: "'e \<Rightarrow> ('e, 's, 'a) tx" where
  "tx_throw e = (\<lambda>s. Inl e)"

definition tx_bind :: "('e, 's, 'a) tx \<Rightarrow> ('a \<Rightarrow> ('e, 's, 'b) tx) \<Rightarrow> ('e, 's, 'b) tx" where
  "tx_bind m k = (\<lambda>s. case m s of Inl e \<Rightarrow> Inl e | Inr (a, s') \<Rightarrow> k a s')"

definition tx_seq :: "('e, 's, 'a) tx \<Rightarrow> ('e, 's, 'b) tx \<Rightarrow> ('e, 's, 'b) tx" where
  "tx_seq m n = tx_bind m (\<lambda>_. n)"

definition tx_read :: "('s \<Rightarrow> 'a) \<Rightarrow> ('e, 's, 'a) tx" where
  "tx_read f = (\<lambda>s. Inr (f s, s))"

definition tx_write :: "('s \<Rightarrow> 's) \<Rightarrow> ('e, 's, unit) tx" where
  "tx_write f = (\<lambda>s. Inr ((), f s))"

text \<open>\<open>tx_guard b e\<close> throws \<open>e\<close> unless \<open>b\<close>; \<open>tx_lift\<close> runs a pure function that may throw.\<close>

definition tx_guard :: "bool \<Rightarrow> 'e \<Rightarrow> ('e, 's, unit) tx" where
  "tx_guard b e = (if b then tx_return () else tx_throw e)"

definition tx_when :: "bool \<Rightarrow> ('e, 's, unit) tx \<Rightarrow> ('e, 's, unit) tx" where
  "tx_when b m = (if b then m else tx_return ())"

definition tx_lift :: "'e + 'a \<Rightarrow> ('e, 's, 'a) tx" where
  "tx_lift r = (\<lambda>s. case r of Inl e \<Rightarrow> Inl e | Inr a \<Rightarrow> Inr (a, s))"

text \<open>\<open>for (const x of xs) body(x)\<close>.\<close>

fun tx_for :: "'x list \<Rightarrow> ('x \<Rightarrow> ('e, 's, unit) tx) \<Rightarrow> ('e, 's, unit) tx" where
  "tx_for [] f = tx_return ()"
| "tx_for (x # xs) f = tx_seq (f x) (tx_for xs f)"

text \<open>\<open>try { m } catch (e) { h(e) }\<close>: the writes of \<open>m\<close> before the throw are discarded with it,
  which is faithful where the handler always throws again.\<close>

definition tx_rethrow :: "('e, 's, 'a) tx \<Rightarrow> ('e \<Rightarrow> 's \<Rightarrow> 'e) \<Rightarrow> ('e, 's, 'a) tx" where
  "tx_rethrow m h = (\<lambda>s. case m s of Inl e \<Rightarrow> Inl (h e s) | Inr r \<Rightarrow> Inr r)"

text \<open>\<open>db.transaction(m)\<close>: all or nothing.\<close>

definition commit :: "('e, 's, 'a) tx \<Rightarrow> 's \<Rightarrow> 's \<times> ('e + 'a)" where
  "commit m s = (case m s of Inl e \<Rightarrow> (s, Inl e) | Inr (a, s') \<Rightarrow> (s', Inr a))"

subsection \<open>Inversion of successful runs\<close>

lemma tx_return_ok [simp]: "tx_return a s = Inr (b, s') \<longleftrightarrow> b = a \<and> s' = s"
  by (auto simp: tx_return_def)

lemma tx_throw_ok [simp]: "tx_throw e s \<noteq> Inr r"
  by (simp add: tx_throw_def)

lemma tx_read_ok [simp]: "tx_read f s = Inr (b, s') \<longleftrightarrow> b = f s \<and> s' = s"
  by (auto simp: tx_read_def)

lemma tx_write_ok [simp]: "tx_write f s = Inr (b, s') \<longleftrightarrow> s' = f s"
  by (auto simp: tx_write_def)

lemma tx_guard_ok [simp]: "tx_guard b e s = Inr (u, s') \<longleftrightarrow> b \<and> s' = s"
  by (auto simp: tx_guard_def)

lemma tx_lift_ok [simp]: "tx_lift r s = Inr (a, s') \<longleftrightarrow> r = Inr a \<and> s' = s"
  by (auto simp: tx_lift_def split: sum.splits)

lemma tx_bind_ok:
  "tx_bind m k s = Inr (b, s') \<longleftrightarrow> (\<exists>a s1. m s = Inr (a, s1) \<and> k a s1 = Inr (b, s'))"
  by (auto simp: tx_bind_def split: sum.splits)

lemma tx_seq_ok:
  "tx_seq m n s = Inr (b, s') \<longleftrightarrow> (\<exists>a s1. m s = Inr (a, s1) \<and> n s1 = Inr (b, s'))"
  by (simp add: tx_seq_def tx_bind_ok)

lemma tx_when_ok:
  "tx_when b m s = Inr (u, s') \<longleftrightarrow> (if b then m s = Inr (u, s') else s' = s)"
  by (auto simp: tx_when_def)

lemma tx_rethrow_ok: "tx_rethrow m h s = Inr r \<longleftrightarrow> m s = Inr r"
  by (auto simp: tx_rethrow_def split: sum.splits)

lemmas tx_run = tx_bind_ok tx_seq_ok tx_when_ok tx_rethrow_ok

lemma commit_ok: "commit m s = (s', Inr a) \<longleftrightarrow> m s = Inr (a, s')"
  by (auto simp: commit_def split: sum.splits)

lemma commit_error: "commit m s = (s', Inl e) \<longleftrightarrow> m s = Inl e \<and> s' = s"
  by (auto simp: commit_def split: sum.splits)

text \<open>Evaluation of a run, read left to right.\<close>

lemma tx_bind_run [simp]:
  "m s = Inr (a, s1) \<Longrightarrow> tx_bind m k s = k a s1"
  "m s = Inl e \<Longrightarrow> tx_bind m k s = Inl e"
  by (simp_all add: tx_bind_def)

lemma tx_seq_run [simp]:
  "m s = Inr (a, s1) \<Longrightarrow> tx_seq m n s = n s1"
  "m s = Inl e \<Longrightarrow> tx_seq m n s = Inl e"
  by (simp_all add: tx_seq_def)

lemmas tx_eval = tx_return_def tx_throw_def tx_bind_def tx_seq_def tx_read_def tx_write_def
  tx_guard_def tx_when_def tx_lift_def tx_rethrow_def commit_def

subsection \<open>Partial correctness and preservation\<close>

definition tx_valid :: "('s \<Rightarrow> bool) \<Rightarrow> ('e, 's, 'a) tx \<Rightarrow> ('a \<Rightarrow> 's \<Rightarrow> bool) \<Rightarrow> bool" where
  "tx_valid P m Q \<longleftrightarrow> (\<forall>s a s'. P s \<longrightarrow> m s = Inr (a, s') \<longrightarrow> Q a s')"

abbreviation tx_inv :: "('s \<Rightarrow> bool) \<Rightarrow> ('e, 's, 'a) tx \<Rightarrow> bool" where
  "tx_inv I m \<equiv> tx_valid I m (\<lambda>_. I)"

lemma tx_validI: "(\<And>s a s'. P s \<Longrightarrow> m s = Inr (a, s') \<Longrightarrow> Q a s') \<Longrightarrow> tx_valid P m Q"
  by (auto simp: tx_valid_def)

lemma tx_validD: "tx_valid P m Q \<Longrightarrow> P s \<Longrightarrow> m s = Inr (a, s') \<Longrightarrow> Q a s'"
  by (auto simp: tx_valid_def)

lemma tx_inv_return [tx_wp]: "tx_inv I (tx_return a)"
  by (simp add: tx_valid_def)

lemma tx_inv_throw [tx_wp]: "tx_inv I (tx_throw e)"
  by (simp add: tx_valid_def)

lemma tx_inv_read [tx_wp]: "tx_inv I (tx_read f)"
  by (simp add: tx_valid_def)

lemma tx_inv_guard [tx_wp]: "tx_inv I (tx_guard b e)"
  by (simp add: tx_valid_def)

lemma tx_inv_lift [tx_wp]: "tx_inv I (tx_lift r)"
  by (simp add: tx_valid_def)

lemma tx_inv_write: "(\<And>s. I s \<Longrightarrow> I (f s)) \<Longrightarrow> tx_inv I (tx_write f)"
  by (simp add: tx_valid_def)

lemma tx_inv_bind [tx_wp]: "tx_inv I m \<Longrightarrow> (\<And>a. tx_inv I (k a)) \<Longrightarrow> tx_inv I (tx_bind m k)"
  unfolding tx_valid_def tx_bind_ok by blast

lemma tx_inv_seq [tx_wp]: "tx_inv I m \<Longrightarrow> tx_inv I n \<Longrightarrow> tx_inv I (tx_seq m n)"
  unfolding tx_valid_def tx_seq_ok by blast

lemma tx_inv_when [tx_wp]: "tx_inv I m \<Longrightarrow> tx_inv I (tx_when b m)"
  by (simp add: tx_valid_def tx_when_ok)

lemma tx_inv_if [tx_wp]: "tx_inv I m \<Longrightarrow> tx_inv I n \<Longrightarrow> tx_inv I (if b then m else n)"
  by simp

lemma tx_inv_option [tx_wp]:
  "tx_inv I m \<Longrightarrow> (\<And>x. tx_inv I (k x)) \<Longrightarrow> tx_inv I (case r of None \<Rightarrow> m | Some x \<Rightarrow> k x)"
  by (cases r) simp_all

lemma tx_inv_rethrow [tx_wp]: "tx_inv I m \<Longrightarrow> tx_inv I (tx_rethrow m h)"
  by (simp add: tx_valid_def tx_rethrow_ok)

lemma tx_inv_for [tx_wp]: "(\<And>x. tx_inv I (f x)) \<Longrightarrow> tx_inv I (tx_for xs f)"
  by (induction xs) (simp_all add: tx_inv_return tx_inv_seq)

text \<open>A transaction that leaves a projection of the state alone.\<close>

abbreviation tx_frame :: "('s \<Rightarrow> 'p) \<Rightarrow> ('e, 's, 'a) tx \<Rightarrow> bool" where
  "tx_frame p m \<equiv> (\<forall>v. tx_inv (\<lambda>s. p s = v) m)"

lemma tx_frameD: "tx_frame p m \<Longrightarrow> m s = Inr (a, s') \<Longrightarrow> p s' = p s"
  unfolding tx_valid_def by blast

section \<open>Tables\<close>

definition row_find :: "('r \<Rightarrow> bool) \<Rightarrow> 'r list \<Rightarrow> 'r option" where
  "row_find p t = List.find p t"

definition rows_set :: "('r \<Rightarrow> bool) \<Rightarrow> ('r \<Rightarrow> 'r) \<Rightarrow> 'r list \<Rightarrow> 'r list" where
  "rows_set p f t = map (\<lambda>r. if p r then f r else r) t"

definition rows_delete :: "('r \<Rightarrow> bool) \<Rightarrow> 'r list \<Rightarrow> 'r list" where
  "rows_delete p t = filter (\<lambda>r. \<not> p r) t"

lemma row_find_Nil [simp]: "row_find p [] = None"
  by (simp add: row_find_def)

lemma row_find_Cons: "row_find p (r # t) = (if p r then Some r else row_find p t)"
  by (simp add: row_find_def)

lemma row_find_append:
  "row_find p (t @ u) = (case row_find p t of None \<Rightarrow> row_find p u | Some r \<Rightarrow> Some r)"
  by (induction t) (simp_all add: row_find_Cons)

lemma row_find_Some: "row_find p t = Some r \<Longrightarrow> r \<in> set t \<and> p r"
  by (simp add: row_find_def find_Some_iff) (metis nth_mem)

lemma row_find_None: "row_find p t = None \<longleftrightarrow> (\<forall>r \<in> set t. \<not> p r)"
  by (auto simp: row_find_def find_None_iff)

lemma row_find_rows_delete:
  "row_find p (rows_delete q t) = row_find (\<lambda>r. p r \<and> \<not> q r) t"
  by (induction t) (simp_all add: rows_delete_def row_find_Cons)

lemma rows_set_Nil [simp]: "rows_set p f [] = []"
  by (simp add: rows_set_def)

lemma rows_delete_Nil [simp]: "rows_delete p [] = []"
  by (simp add: rows_delete_def)

lemma set_rows_set: "set (rows_set p f t) = (\<lambda>r. if p r then f r else r) ` set t"
  by (simp add: rows_set_def)

lemma set_rows_delete [simp]: "set (rows_delete p t) = {r \<in> set t. \<not> p r}"
  by (auto simp: rows_delete_def)

lemma map_rows_set: "(\<And>r. k (f r) = k r) \<Longrightarrow> map k (rows_set p f t) = map k t"
  by (simp add: rows_set_def)

lemma distinct_map_delete: "distinct (map k t) \<Longrightarrow> distinct (map k (rows_delete p t))"
  unfolding rows_delete_def by (rule distinct_map_filter)

text \<open>Rows found by a unique key.\<close>

definition by_key :: "('r \<Rightarrow> 'k) \<Rightarrow> 'k \<Rightarrow> 'r list \<Rightarrow> 'r option" where
  "by_key k x t = row_find (\<lambda>r. k r = x) t"

lemma by_key_Some: "by_key k x t = Some r \<Longrightarrow> r \<in> set t \<and> k r = x"
  unfolding by_key_def by (drule row_find_Some) simp

lemma by_key_None: "by_key k x t = None \<longleftrightarrow> x \<notin> k ` set t"
  by (auto simp: by_key_def row_find_None)

lemma by_key_Nil [simp]: "by_key k x [] = None"
  by (simp add: by_key_def)

lemma by_key_Cons: "by_key k x (r # t) = (if k r = x then Some r else by_key k x t)"
  by (simp add: by_key_def row_find_Cons)

lemma by_key_append:
  "by_key k x (t @ u) = (case by_key k x t of None \<Rightarrow> by_key k x u | Some r \<Rightarrow> Some r)"
  by (simp add: by_key_def row_find_append cong: option.case_cong)

lemma by_key_unique: "distinct (map k t) \<Longrightarrow> r \<in> set t \<Longrightarrow> by_key k (k r) t = Some r"
  by (induction t) (auto simp: by_key_Cons image_iff)

lemma by_key_set:
  "(\<And>r. k (f r) = k r) \<Longrightarrow>
   by_key k x (rows_set p f t) = map_option (\<lambda>r. if p r then f r else r) (by_key k x t)"
  by (induction t) (simp_all add: rows_set_def by_key_Cons)

lemma by_key_delete_key: "by_key k x (rows_delete (\<lambda>r. k r = y) t) =
    (if x = y then None else by_key k x t)"
  by (induction t) (auto simp: rows_delete_def by_key_Cons)

text \<open>\<open>INSERT ... ON CONFLICT(key) DO UPDATE\<close>.\<close>

definition rows_upsert :: "('r \<Rightarrow> 'k) \<Rightarrow> 'r \<Rightarrow> ('r \<Rightarrow> 'r) \<Rightarrow> 'r list \<Rightarrow> 'r list" where
  "rows_upsert k r f t =
     (if k r \<in> k ` set t then rows_set (\<lambda>x. k x = k r) f t else t @ [r])"

lemma by_key_upsert:
  assumes "\<And>r. k (f r) = k r"
  shows "by_key k x (rows_upsert k r f t) =
    (if x = k r then Some (case by_key k x t of None \<Rightarrow> r | Some y \<Rightarrow> f y) else by_key k x t)"
proof (cases "by_key k (k r) t")
  case None
  then have "k r \<notin> k ` set t" by (simp add: by_key_None)
  with None show ?thesis
    by (simp add: rows_upsert_def by_key_append by_key_Cons split: option.split)
next
  case (Some y)
  then have "k r \<in> k ` set t" by (metis by_key_None option.distinct(1))
  with Some show ?thesis
    by (cases "by_key k x t") (auto simp: rows_upsert_def by_key_set assms dest: by_key_Some)
qed

text \<open>Insertion of a row under a primary key.\<close>

definition rows_insert :: "('r \<Rightarrow> 'k) \<Rightarrow> 'r \<Rightarrow> 'r list \<Rightarrow> 'r list option" where
  "rows_insert k r t = (if k r \<in> k ` set t then None else Some (t @ [r]))"

lemma rows_insert_Some:
  "rows_insert k r t = Some t' \<longleftrightarrow> k r \<notin> k ` set t \<and> t' = t @ [r]"
  by (auto simp: rows_insert_def)

section \<open>Records that settle once\<close>

text \<open>The contract of gates, work attempts and questions: under a state invariant, a record that has
  settled is never changed again by any step.\<close>

locale settled_records =
  fixes step :: "'s \<Rightarrow> 's \<Rightarrow> bool"
    and inv :: "'s \<Rightarrow> bool"
    and get :: "'s \<Rightarrow> 'k \<Rightarrow> 'r option"
    and settled :: "'r \<Rightarrow> bool"
  assumes inv_step: "inv s \<Longrightarrow> step s t \<Longrightarrow> inv t"
    and settled_step: "inv s \<Longrightarrow> step s t \<Longrightarrow> get s k = Some r \<Longrightarrow> settled r \<Longrightarrow> get t k = Some r"
begin

lemma inv_steps: "step\<^sup>*\<^sup>* s t \<Longrightarrow> inv s \<Longrightarrow> inv t"
  by (induction rule: rtranclp_induct) (auto intro: inv_step)

lemma frozen: "step\<^sup>*\<^sup>* s t \<Longrightarrow> inv s \<Longrightarrow> get s k = Some r \<Longrightarrow> settled r \<Longrightarrow> get t k = Some r"
  by (induction rule: rtranclp_induct) (auto intro: settled_step inv_steps)

lemma settles_once:
  "inv s \<Longrightarrow> step\<^sup>*\<^sup>* s t \<Longrightarrow> step\<^sup>*\<^sup>* t u \<Longrightarrow> get t k = Some r \<Longrightarrow> settled r \<Longrightarrow> get u k = Some r' \<Longrightarrow> r' = r"
  using frozen [of t u k r] inv_steps [of s t] by simp

end

end
