(* ===== verification/Json.thy ===== *)
theory Json
  imports Prelude "HOL-Library.List_Lexorder" "HOL-Library.Char_ord"
begin

text \<open>
  JSON values as the program handles them, \<open>JSON.stringify\<close>, and the canonical form of
  \<^verbatim>\<open>packages/schemas/src/record.ts\<close> (\<open>canonicalJson\<close>, \<open>sortKeysDeep\<close>), with the helpers of
  \<^verbatim>\<open>task-data.ts\<close>, \<^verbatim>\<open>presentation.ts\<close> and \<^verbatim>\<open>tags.ts\<close> that read task data.

  Strings are byte lists: a JavaScript string is represented by its UTF-8 encoding, so that
  \<open>length\<close> is the byte length that \<open>TextEncoder\<close> reports. Numbers are integers; fractional
  numbers and strings with unpaired surrogates are outside the model. An object is the list
  of its entries in insertion order. \<open>None\<close> is \<open>undefined\<close>, which is different from \<open>JNull\<close>.
\<close>

section \<open>Values and objects\<close>

datatype json =
    JNull
  | JBool bool
  | JNum int
  | JStr string
  | JArr "json list"
  | JObj "(string \<times> json) list"

type_synonym jobj = "(string \<times> json) list"

text \<open>\<open>o[k]\<close>, \<open>Object.hasOwn(o, k)\<close>, \<open>o[k] = v\<close> and \<open>{ ...a, ...b }\<close>.\<close>

definition obj_get :: "string \<Rightarrow> jobj \<Rightarrow> json option" where
  "obj_get k ob = map_of ob k"

definition obj_has :: "string \<Rightarrow> jobj \<Rightarrow> bool" where
  "obj_has k ob = (k \<in> fst ` set ob)"

fun obj_set :: "string \<Rightarrow> json \<Rightarrow> jobj \<Rightarrow> jobj" where
  "obj_set k v [] = [(k, v)]"
| "obj_set k v ((k', v') # ob) = (if k = k' then (k, v) # ob else (k', v') # obj_set k v ob)"

fun obj_merge :: "jobj \<Rightarrow> jobj \<Rightarrow> jobj" where
  "obj_merge a [] = a"
| "obj_merge a ((k, v) # b) = obj_merge (obj_set k v a) b"

text \<open>An optional field of an object literal: left out when \<open>undefined\<close>.\<close>

definition opt_field :: "string \<Rightarrow> json option \<Rightarrow> jobj" where
  "opt_field k v = (case v of None \<Rightarrow> [] | Some j \<Rightarrow> [(k, j)])"

text \<open>\<open>v ?? null\<close> for the nullable columns.\<close>

definition jnullable :: "('a \<Rightarrow> json) \<Rightarrow> 'a option \<Rightarrow> json" where
  "jnullable f v = (case v of None \<Rightarrow> JNull | Some a \<Rightarrow> f a)"

definition as_string :: "json option \<Rightarrow> string option" where
  "as_string v = (case v of Some (JStr s) \<Rightarrow> Some s | _ \<Rightarrow> None)"

lemma obj_get_Nil [simp]: "obj_get k [] = None"
  by (simp add: obj_get_def)

lemma obj_get_Cons [simp]: "obj_get k ((k', v) # ob) = (if k = k' then Some v else obj_get k ob)"
  by (simp add: obj_get_def)

lemma obj_set_fresh: "k \<notin> fst ` set ob \<Longrightarrow> obj_set k v ob = ob @ [(k, v)]"
  by (induction k v ob rule: obj_set.induct) auto

lemma obj_get_set [simp]: "obj_get k (obj_set k' v ob) = (if k = k' then Some v else obj_get k ob)"
  by (induction k' v ob rule: obj_set.induct) auto

lemma obj_get_None: "obj_get k ob = None \<longleftrightarrow> k \<notin> fst ` set ob"
  by (simp add: obj_get_def map_of_eq_None_iff)

lemma obj_get_merge:
  "distinct (map fst b) \<Longrightarrow>
   obj_get k (obj_merge a b) = (case obj_get k b of None \<Rightarrow> obj_get k a | Some v \<Rightarrow> Some v)"
proof (induction a b rule: obj_merge.induct)
  case (1 a)
  then show ?case by simp
next
  case (2 a k' v b)
  then have "obj_get k' b = None" by (simp add: obj_get_None)
  with 2 show ?case by (auto split: option.splits)
qed

lemma obj_has_iff: "obj_has k ob \<longleftrightarrow> obj_get k ob \<noteq> None"
  by (simp add: obj_has_def obj_get_def map_of_eq_None_iff)

section \<open>JSON.stringify\<close>

definition quote_char :: char where "quote_char = CHR 0x22"
definition backslash :: char where "backslash = CHR 0x5C"

fun nat_str :: "nat \<Rightarrow> string" where
  "nat_str n = (if n < 10 then [char_of (48 + n)] else nat_str (n div 10) @ [char_of (48 + n mod 10)])"

declare nat_str.simps [simp del]

definition int_str :: "int \<Rightarrow> string" where
  "int_str i = (if i < 0 then CHR ''-'' # nat_str (nat (- i)) else nat_str (nat i))"

definition hex_digit :: "nat \<Rightarrow> char" where
  "hex_digit n = (if n < 10 then char_of (48 + n) else char_of (87 + n))"

definition escape_char :: "char \<Rightarrow> string" where
  "escape_char c =
    (let n = (of_char c :: nat) in
     if n = 0x22 then [backslash, quote_char]
     else if n = 0x5C then [backslash, backslash]
     else if n = 0x08 then [backslash, CHR ''b'']
     else if n = 0x0C then [backslash, CHR ''f'']
     else if n = 0x0A then [backslash, CHR ''n'']
     else if n = 0x0D then [backslash, CHR ''r'']
     else if n = 0x09 then [backslash, CHR ''t'']
     else if n < 0x20 then backslash # ''u00'' @ [hex_digit (n div 16), hex_digit (n mod 16)]
     else [c])"

definition quote_str :: "string \<Rightarrow> string" where
  "quote_str s = quote_char # concat (map escape_char s) @ [quote_char]"

fun join_with :: "char \<Rightarrow> string list \<Rightarrow> string" where
  "join_with c [] = []"
| "join_with c [x] = x"
| "join_with c (x # y # ys) = x @ c # join_with c (y # ys)"

fun stringify :: "json \<Rightarrow> string" where
  "stringify JNull = ''null''"
| "stringify (JBool b) = (if b then ''true'' else ''false'')"
| "stringify (JNum i) = int_str i"
| "stringify (JStr s) = quote_str s"
| "stringify (JArr xs) = CHR ''['' # join_with CHR '','' (map stringify xs) @ '']''"
| "stringify (JObj kvs) =
     CHR ''{'' # join_with CHR '','' (map (\<lambda>(k, v). quote_str k @ CHR '':'' # stringify v) kvs) @ ''}''"

text \<open>\<open>sortKeysDeep\<close> and \<open>canonicalJson\<close>.\<close>

fun sortKeysDeep :: "json \<Rightarrow> json" where
  "sortKeysDeep (JArr xs) = JArr (map sortKeysDeep xs)"
| "sortKeysDeep (JObj kvs) = JObj (sort_key fst (map (\<lambda>(k, v). (k, sortKeysDeep v)) kvs))"
| "sortKeysDeep v = v"

definition canonicalJson :: "json \<Rightarrow> string" where
  "canonicalJson v = stringify (sortKeysDeep v)"

subsection \<open>Serialisation is injective\<close>

definition digit :: "char \<Rightarrow> bool" where
  "digit c \<longleftrightarrow> 48 \<le> (of_char c :: nat) \<and> (of_char c :: nat) < 58"

definition digits_value :: "string \<Rightarrow> nat" where
  "digits_value s = foldl (\<lambda>n c. n * 10 + (of_char c - 48)) 0 s"

lemma digits_value_snoc: "digits_value (s @ [c]) = digits_value s * 10 + (of_char c - 48)"
  by (simp add: digits_value_def)

lemma nat_str_value: "digits_value (nat_str n) = n"
proof (induction n rule: nat_str.induct)
  case (1 n)
  then show ?case
    by (subst nat_str.simps) (auto simp: digits_value_snoc digits_value_def)
qed

lemma nat_str_digits: "\<forall>c \<in> set (nat_str n). digit c"
proof (induction n rule: nat_str.induct)
  case (1 n)
  then show ?case by (subst nat_str.simps) (auto simp: digit_def)
qed

lemma nat_str_not_Nil: "nat_str n \<noteq> []"
  by (subst nat_str.simps) simp

text \<open>What may follow a value: the end of the text, a comma or a closing bracket.\<close>

definition delim :: "string \<Rightarrow> bool" where
  "delim x \<longleftrightarrow> x = [] \<or> hd x = CHR '','' \<or> hd x = CHR '']'' \<or> hd x = CHR ''}''"

lemma delim_not_digit: "delim x \<Longrightarrow> x = [] \<or> \<not> digit (hd x)"
  by (auto simp: delim_def digit_def)

lemma takeWhile_digits:
  assumes "\<forall>c \<in> set s. digit c" and "delim x"
  shows "takeWhile digit (s @ x) = s"
  using assms delim_not_digit [of x] by (cases x) (auto simp: takeWhile_append)

lemma nat_str_prefix:
  assumes eq: "nat_str n @ x = nat_str m @ y" and "delim x" and "delim y"
  shows "n = m \<and> x = y"
proof -
  have "nat_str n = takeWhile digit (nat_str n @ x)"
    using takeWhile_digits [OF nat_str_digits \<open>delim x\<close>] by simp
  also have "\<dots> = nat_str m"
    using takeWhile_digits [OF nat_str_digits \<open>delim y\<close>] by (simp add: eq)
  finally have "nat_str n = nat_str m" .
  with eq show ?thesis by (metis nat_str_value same_append_eq)
qed

lemma hd_nat_str: "digit (hd (nat_str n @ x))"
  using nat_str_digits [of n] nat_str_not_Nil [of n] by (cases "nat_str n") auto

lemma int_str_prefix:
  assumes eq: "int_str i @ x = int_str j @ y" and "delim x" and "delim y"
  shows "i = j \<and> x = y"
proof (cases "i < 0 \<longleftrightarrow> j < 0")
  case True
  with assms show ?thesis
    by (auto simp: int_str_def dest!: nat_str_prefix split: if_splits)
next
  case False
  then have "digit CHR ''-''"
    using eq hd_nat_str [of "nat i" x] hd_nat_str [of "nat j" y]
    by (auto simp: int_str_def split: if_splits) (metis list.sel(1))+
  then show ?thesis by (simp add: digit_def)
qed

text \<open>Reading one escaped character back, as its code and the rest of the text.\<close>

definition hex_value :: "char \<Rightarrow> nat" where
  "hex_value c = (if (of_char c :: nat) < 58 then of_char c - 48 else of_char c - 87)"

definition unescape :: "string \<Rightarrow> nat \<times> string" where
  "unescape s = (case s of
      c # d # r \<Rightarrow>
        if c \<noteq> CHR 0x5C then (of_char c, d # r)
        else if d = CHR ''b'' then (0x08, r)
        else if d = CHR ''f'' then (0x0C, r)
        else if d = CHR ''n'' then (0x0A, r)
        else if d = CHR ''r'' then (0x0D, r)
        else if d = CHR ''t'' then (0x09, r)
        else if d = CHR ''u'' then (16 * hex_value (r ! 2) + hex_value (r ! 3), drop 4 r)
        else (of_char d, r)
    | [c] \<Rightarrow> (of_char c, [])
    | [] \<Rightarrow> (0, []))"

lemma hex_value_digit: "n < 16 \<Longrightarrow> hex_value (hex_digit n) = n"
  by (auto simp: hex_value_def hex_digit_def)

lemma unescape_escape: "unescape (escape_char c @ x) = (of_char c, x)"
proof -
  have bs: "(of_char (CHR 0x5C) :: nat) = 0x5C" by simp
  then have "(of_char c :: nat) \<noteq> 0x5C \<Longrightarrow> c \<noteq> CHR 0x5C" by auto
  then show ?thesis
    by (auto simp: escape_char_def Let_def unescape_def backslash_def quote_char_def
        hex_value_digit split: list.split)
qed

lemma escape_char_prefix: "escape_char c @ x = escape_char d @ y \<Longrightarrow> c = d \<and> x = y"
  by (metis of_char_eq_iff prod.inject unescape_escape)

lemma escape_char_not_quote:
  "escape_char c \<noteq> [] \<and> hd (escape_char c) \<noteq> quote_char"
proof -
  have "(of_char (CHR 0x22) :: nat) = 0x22" by simp
  then have "c = CHR 0x22 \<longleftrightarrow> (of_char c :: nat) = 0x22" by (metis of_char_eq_iff)
  then show ?thesis
    by (auto simp: escape_char_def Let_def backslash_def quote_char_def)
qed

lemma escapes_prefix:
  "concat (map escape_char s) @ quote_char # x = concat (map escape_char t) @ quote_char # y
    \<Longrightarrow> s = t \<and> x = y"
proof (induction s arbitrary: t)
  case Nil
  then show ?case using escape_char_not_quote by (cases t) (auto, (metis append_is_Nil_conv hd_append2 list.sel(1))+)
next
  case (Cons c s)
  show ?case
  proof (cases t)
    case Nil
    with Cons.prems show ?thesis
      using escape_char_not_quote [of c] by (cases "escape_char c") auto
  next
    case (Cons d t')
    with Cons.prems have "escape_char c @ (concat (map escape_char s) @ quote_char # x) =
        escape_char d @ (concat (map escape_char t') @ quote_char # y)" by simp
    from escape_char_prefix [OF this] Cons.IH Cons show ?thesis by blast
  qed
qed

lemma quote_str_prefix: "quote_str s @ x = quote_str t @ y \<Longrightarrow> s = t \<and> x = y"
  using escapes_prefix [of s x t y] by (simp add: quote_str_def)

definition first_kind :: "char \<Rightarrow> nat" where
  "first_kind c = (if c = CHR ''n'' then 0 else if c = CHR ''t'' then 1 else if c = CHR ''f'' then 2
     else if c = quote_char then 3 else if c = CHR ''['' then 4 else if c = CHR ''{'' then 5
     else if digit c \<or> c = CHR ''-'' then 6 else 7)"

fun json_kind :: "json \<Rightarrow> nat" where
  "json_kind JNull = 0"
| "json_kind (JBool b) = (if b then 1 else 2)"
| "json_kind (JStr s) = 3"
| "json_kind (JArr xs) = 4"
| "json_kind (JObj kvs) = 5"
| "json_kind (JNum i) = 6"

lemma digit_first_kind: "digit c \<Longrightarrow> first_kind c = 6"
  by (auto simp: first_kind_def digit_def quote_char_def)

lemma int_str_Cons: "\<exists>c cs. int_str i = c # cs \<and> first_kind c = 6"
proof (cases "i < 0")
  case True
  then show ?thesis by (simp add: int_str_def first_kind_def quote_char_def)
next
  case False
  with hd_nat_str [of "nat i" "[]"] nat_str_not_Nil [of "nat i"] show ?thesis
    by (cases "nat_str (nat i)") (auto simp: int_str_def digit_first_kind)
qed

lemma stringify_Cons: "\<exists>c cs. stringify v = c # cs \<and> first_kind c = json_kind v"
  using int_str_Cons by (cases v) (auto simp: quote_str_def first_kind_def quote_char_def)

lemma stringify_kind: "stringify v @ x = stringify w @ y \<Longrightarrow> json_kind v = json_kind w"
  using stringify_Cons [of v] stringify_Cons [of w] by auto

lemma join_with_Cons: "join_with c (x # xs) = x @ concat (map (\<lambda>y. c # y) xs)"
  by (induction xs arbitrary: x) simp_all

definition closes :: "char \<Rightarrow> bool" where
  "closes c \<longleftrightarrow> c = CHR '']'' \<or> c = CHR ''}''"

definition prefix_free :: "('a \<Rightarrow> string) \<Rightarrow> 'a \<Rightarrow> bool" where
  "prefix_free f a \<longleftrightarrow>
     (\<forall>b x y. f a @ x = f b @ y \<longrightarrow> delim x \<longrightarrow> delim y \<longrightarrow> a = b \<and> x = y)"

lemma delim_tail: "closes c \<Longrightarrow> delim (concat (map (\<lambda>a. CHR '','' # f a) as) @ c # x)"
  by (cases as) (auto simp: delim_def closes_def)

lemma tail_prefix:
  assumes "\<forall>a \<in> set as. prefix_free f a" and c: "closes c"
    and "concat (map (\<lambda>a. CHR '','' # f a) as) @ c # x = concat (map (\<lambda>a. CHR '','' # f a) bs) @ c # y"
  shows "as = bs \<and> x = y"
  using assms(1,3)
proof (induction as arbitrary: bs)
  case Nil
  with c show ?case by (cases bs) (auto simp: closes_def)
next
  case (Cons a as)
  from c Cons.prems obtain b bs' where bs: "bs = b # bs'"
    by (cases bs) (auto simp: closes_def)
  let ?t = "\<lambda>as z. concat (map (\<lambda>a. CHR '','' # f a) as) @ c # z"
  from Cons.prems bs have eq: "f a @ ?t as x = f b @ ?t bs' y" by simp
  have pf: "prefix_free f a" using Cons.prems by simp
  have "a = b \<and> ?t as x = ?t bs' y"
    using pf eq delim_tail [OF c] unfolding prefix_free_def by blast
  with Cons bs show ?case by auto
qed

lemma join_prefix:
  assumes elem: "\<forall>a \<in> set as. prefix_free f a" and c: "closes c"
    and first: "\<And>a. \<exists>d ds. f a = d # ds \<and> \<not> closes d"
    and eq: "join_with CHR '','' (map f as) @ c # x = join_with CHR '','' (map f bs) @ c # y"
  shows "as = bs \<and> x = y"
proof (cases as)
  case Nil
  with eq c first show ?thesis
    by (cases bs) (auto simp: join_with_Cons, metis append_Cons list.inject)
next
  case (Cons a as')
  with eq c first [of a] obtain b bs' where bs: "bs = b # bs'"
    by (cases bs) (auto simp: join_with_Cons)
  let ?t = "\<lambda>as z. concat (map (\<lambda>a. CHR '','' # f a) as) @ c # z"
  from eq Cons bs have "f a @ ?t as' x = f b @ ?t bs' y"
    by (simp add: join_with_Cons comp_def)
  moreover have "prefix_free f a" using elem Cons by simp
  ultimately have "a = b \<and> ?t as' x = ?t bs' y"
    using delim_tail [OF c] unfolding prefix_free_def by blast
  with tail_prefix [of as' f c x bs' y] elem c Cons bs show ?thesis by simp
qed

lemma stringify_opens: "\<exists>d ds. stringify v = d # ds \<and> \<not> closes d"
proof -
  obtain c cs where "stringify v = c # cs" "first_kind c = json_kind v"
    using stringify_Cons by blast
  moreover have "json_kind v \<noteq> 7" by (cases v) auto
  moreover have "closes c \<Longrightarrow> first_kind c = 7"
    by (auto simp: closes_def first_kind_def digit_def quote_char_def)
  ultimately show ?thesis by metis
qed

definition member_str :: "string \<times> json \<Rightarrow> string" where
  "member_str kv = (case kv of (k, v) \<Rightarrow> quote_str k @ CHR '':'' # stringify v)"

lemma member_opens: "\<exists>d ds. member_str kv = d # ds \<and> \<not> closes d"
  by (cases kv) (auto simp: member_str_def quote_str_def closes_def quote_char_def)

lemma member_prefix_free:
  assumes "prefix_free stringify (snd kv)"
  shows "prefix_free member_str kv"
  unfolding prefix_free_def
proof (intro allI impI)
  fix kv' x y
  assume eq: "member_str kv @ x = member_str kv' @ y" and d: "delim x" "delim y"
  obtain k v k' v' where kv: "kv = (k, v)" "kv' = (k', v')" by fastforce
  from eq kv have "quote_str k @ (CHR '':'' # stringify v @ x) =
      quote_str k' @ (CHR '':'' # stringify v' @ y)" by (simp add: member_str_def)
  from quote_str_prefix [OF this] have "k = k'" "stringify v @ x = stringify v' @ y" by auto
  with assms d kv show "kv = kv' \<and> x = y" unfolding prefix_free_def by auto
qed

lemma stringify_JObj: "stringify (JObj kvs) = CHR ''{'' # join_with CHR '','' (map member_str kvs) @ ''}''"
  by (simp add: member_str_def [abs_def])

lemma json_kind_inv:
  "json_kind v = 0 \<Longrightarrow> v = JNull"
  "json_kind v = 1 \<Longrightarrow> v = JBool True"
  "json_kind v = 2 \<Longrightarrow> v = JBool False"
  "json_kind v = 3 \<Longrightarrow> \<exists>s. v = JStr s"
  "json_kind v = 4 \<Longrightarrow> \<exists>xs. v = JArr xs"
  "json_kind v = 5 \<Longrightarrow> \<exists>kvs. v = JObj kvs"
  "json_kind v = 6 \<Longrightarrow> \<exists>i. v = JNum i"
  by (cases v; simp split: if_splits)+

lemma stringify_prefix_free: "prefix_free stringify v"
proof (induction v)
  case (JArr as)
  show ?case unfolding prefix_free_def
  proof (intro allI impI)
    fix w x y
    assume eq: "stringify (JArr as) @ x = stringify w @ y"
    obtain bs where w: "w = JArr bs"
      using json_kind_inv(5) [of w] stringify_kind [OF eq] by auto
    have eq': "join_with CHR '','' (map stringify as) @ CHR '']'' # x =
        join_with CHR '','' (map stringify bs) @ CHR '']'' # y" using eq w by simp
    have elems: "\<forall>a \<in> set as. prefix_free stringify a" using JArr by blast
    have "as = bs \<and> x = y"
      by (rule join_prefix [OF elems _ stringify_opens eq']) (simp add: closes_def)
    with w show "JArr as = w \<and> x = y" by simp
  qed
next
  case (JObj as)
  have members: "\<forall>kv \<in> set as. prefix_free member_str kv"
    using JObj by (force intro: member_prefix_free)
  show ?case unfolding prefix_free_def
  proof (intro allI impI)
    fix w x y
    assume eq: "stringify (JObj as) @ x = stringify w @ y"
    obtain bs where w: "w = JObj bs"
      using json_kind_inv(6) [of w] stringify_kind [OF eq] by auto
    have eq': "join_with CHR '','' (map member_str as) @ CHR ''}'' # x =
        join_with CHR '','' (map member_str bs) @ CHR ''}'' # y"
      using eq w by (simp add: stringify_JObj del: stringify.simps)
    have "as = bs \<and> x = y"
      by (rule join_prefix [OF members _ member_opens eq']) (simp add: closes_def)
    with w show "JObj as = w \<and> x = y" by simp
  qed
next
  case (JNum i)
  show ?case unfolding prefix_free_def
  proof (intro allI impI)
    fix w x y
    assume eq: "stringify (JNum i) @ x = stringify w @ y" and d: "delim x" "delim y"
    obtain j where "w = JNum j"
      using json_kind_inv(7) [of w] stringify_kind [OF eq] by auto
    with eq d int_str_prefix [of i x j y] show "JNum i = w \<and> x = y" by simp
  qed
next
  case (JStr t)
  show ?case unfolding prefix_free_def
  proof (intro allI impI)
    fix w x y
    assume eq: "stringify (JStr t) @ x = stringify w @ y"
    obtain u where "w = JStr u"
      using json_kind_inv(4) [of w] stringify_kind [OF eq] by auto
    with eq quote_str_prefix [of t x u y] show "JStr t = w \<and> x = y" by simp
  qed
next
  case JNull
  show ?case unfolding prefix_free_def
  proof (intro allI impI)
    fix w x y
    assume eq: "stringify JNull @ x = stringify w @ y"
    have "w = JNull" using json_kind_inv(1) stringify_kind [OF eq] by (metis json_kind.simps(1))
    with eq show "JNull = w \<and> x = y" by simp
  qed
next
  case (JBool b)
  show ?case unfolding prefix_free_def
  proof (intro allI impI)
    fix w x y
    assume eq: "stringify (JBool b) @ x = stringify w @ y"
    have "w = JBool b" using json_kind_inv(2,3) stringify_kind [OF eq] by (metis json_kind.simps(2))
    with eq show "JBool b = w \<and> x = y" by simp
  qed
qed

lemma stringify_inj: "stringify v = stringify w \<Longrightarrow> v = w"
  using stringify_prefix_free [of v] unfolding prefix_free_def delim_def by (metis append_Nil2)

section \<open>Task data: size bound, title, tags\<close>

definition MAX_TASK_DATA_BYTES :: nat where
  "MAX_TASK_DATA_BYTES = 256 * 1024"

definition taskDataBytes :: "jobj \<Rightarrow> nat" where
  "taskDataBytes d = length (stringify (JObj d))"

text \<open>\<open>value.trim().length > 0\<close>, for the ASCII white space characters.\<close>

definition is_space :: "char \<Rightarrow> bool" where
  "is_space c \<longleftrightarrow> (let n = (of_char c :: nat) in n = 0x20 \<or> (0x09 \<le> n \<and> n \<le> 0x0D))"

definition nonEmptyString :: "json option \<Rightarrow> string option" where
  "nonEmptyString v = (case as_string v of
      Some s \<Rightarrow> if list_ex (\<lambda>c. \<not> is_space c) s then Some s else None
    | None \<Rightarrow> None)"

definition presentedTitle :: "jobj \<Rightarrow> string option \<Rightarrow> string option" where
  "presentedTitle d title = (case title of
      Some (c # cs) \<Rightarrow> nonEmptyString (obj_get (c # cs) d)
    | _ \<Rightarrow> (case nonEmptyString (obj_get ''title'' d) of
          Some t \<Rightarrow> Some t
        | None \<Rightarrow> nonEmptyString (obj_get ''name'' d)))"

text \<open>\<open>TagSchema\<close>: \<^verbatim>\<open>/^[a-zA-Z0-9][a-zA-Z0-9_:.-]{0,63}$/\<close>.\<close>

definition is_alnum :: "char \<Rightarrow> bool" where
  "is_alnum c \<longleftrightarrow> (let n = (of_char c :: nat) in
     (48 \<le> n \<and> n \<le> 57) \<or> (65 \<le> n \<and> n \<le> 90) \<or> (97 \<le> n \<and> n \<le> 122))"

definition TagSchema :: "string \<Rightarrow> bool" where
  "TagSchema t = (case t of
      [] \<Rightarrow> False
    | c # cs \<Rightarrow> is_alnum c \<and> list_all (\<lambda>d. is_alnum d \<or> d \<in> set ''_:.-'') cs \<and> length cs \<le> 63)"

definition lower_char :: "char \<Rightarrow> char" where
  "lower_char c = (let n = (of_char c :: nat) in if 65 \<le> n \<and> n \<le> 90 then char_of (n + 32) else c)"

definition toLowerCase :: "string \<Rightarrow> string" where
  "toLowerCase = map lower_char"

text \<open>The loop of \<open>TagsSchema\<close>: lower case, first occurrences only.\<close>

fun dedupe_tags :: "string list \<Rightarrow> string list \<Rightarrow> string list" where
  "dedupe_tags seen [] = []"
| "dedupe_tags seen (t # ts) =
     (let l = toLowerCase t in
      if l \<in> set seen then dedupe_tags seen ts else l # dedupe_tags (l # seen) ts)"

definition TagsSchema :: "string list \<Rightarrow> string list option" where
  "TagsSchema tags =
    (if list_all TagSchema tags \<and> length (dedupe_tags [] tags) \<le> 20
     then Some (dedupe_tags [] tags) else None)"

lemma dedupe_tags_facts:
  "distinct (dedupe_tags seen ts) \<and> set (dedupe_tags seen ts) = toLowerCase ` set ts - set seen"
  by (induction ts arbitrary: seen) (auto simp: Let_def)

lemma lower_char_idem [simp]: "lower_char (lower_char c) = lower_char c"
  by (auto simp: lower_char_def Let_def)

lemma toLowerCase_idem [simp]: "toLowerCase (toLowerCase s) = toLowerCase s"
  by (simp add: toLowerCase_def)

lemma is_alnum_lower [simp]: "is_alnum (lower_char c) = is_alnum c"
  by (auto simp: is_alnum_def lower_char_def Let_def)

lemma lower_char_other [simp]:
  "lower_char CHR ''_'' = CHR ''_''" "lower_char CHR '':'' = CHR '':''"
  "lower_char CHR ''.'' = CHR ''.''" "lower_char CHR ''-'' = CHR ''-''"
  by (simp_all add: lower_char_def)

lemma TagSchema_lower: "TagSchema t \<Longrightarrow> TagSchema (toLowerCase t)"
  by (cases t) (auto simp: TagSchema_def toLowerCase_def list_all_iff)

lemma dedupe_tags_fixed:
  "distinct ts \<Longrightarrow> set ts \<inter> set seen = {} \<Longrightarrow> \<forall>t \<in> set ts. toLowerCase t = t \<Longrightarrow> dedupe_tags seen ts = ts"
  by (induction ts arbitrary: seen) (auto simp: Let_def)

lemma TagsSchema_fixed:
  assumes "TagsSchema tags = Some ts"
  shows "TagsSchema ts = Some ts"
proof -
  from assms have ts: "ts = dedupe_tags [] tags" "list_all TagSchema tags" "length ts \<le> 20"
    by (auto simp: TagsSchema_def split: if_splits)
  have low: "set ts = toLowerCase ` set tags" "distinct ts"
    using dedupe_tags_facts [of "[]" tags] ts(1) by auto
  have "dedupe_tags [] ts = ts" by (rule dedupe_tags_fixed) (use low in auto)
  moreover have "list_all TagSchema ts"
    using ts(2) low(1) by (auto simp: list_all_iff TagSchema_lower)
  ultimately show ?thesis using ts(3) by (simp add: TagsSchema_def)
qed

end
