(* ===== verification/Definitions.thy ===== *)
theory Definitions
  imports Json
begin

text \<open>
  Project definitions: the parsed \<^verbatim>\<open>tila.schema.toml\<close> of \<^verbatim>\<open>packages/schemas/src/config.ts\<close>,
  the refinement every work unit passes, the constraint checks of
  \<^verbatim>\<open>packages/ops-sqlite/src/constraint-ops.ts\<close> that read a definition only, and the tolerant
  read and validated write of \<^verbatim>\<open>packages/core/src/schema-evolution.ts\<close>.

  A table of the definition (\<open>Record<string, T>\<close>) is an association list in declaration order.
  Check messages are kept as the data they mention, not as text.
\<close>

section \<open>Definition types\<close>

record field_decl =
  fd_type :: string
  fd_required :: bool
  fd_default :: "json option"
  fd_default_for_legacy :: "json option"
  fd_name :: "string option"
  fd_values :: "string list option"

datatype lifecycle_outcome = O_success | O_failure | O_cancelled | O_abandoned

record outcome_states =
  os_success :: "string option"
  os_failure :: "string option"
  os_cancelled :: "string option"
  os_abandoned :: "string option"

record work_lifecycle =
  lc_field :: string
  lc_dispatchable :: "string list"
  lc_terminal :: "string list"
  lc_dependency_satisfied :: "string list"
  lc_on_start :: "string option"
  lc_outcomes :: "outcome_states option"

record reference_slot =
  rs_require_trusted_for_statuses :: "string list option"
  rs_name :: string
  rs_multiple :: bool
  rs_kinds :: "string list"

record work_presentation =
  wp_title :: "string option"
  wp_summary :: "string option"
  wp_description :: "string option"

record work_unit =
  wu_lifecycle :: "work_lifecycle option"
  wu_fields :: "(string \<times> field_decl) list"
  wu_parents :: "string list"
  wu_required_parent :: bool
  wu_references :: "reference_slot list option"
  wu_presentation :: "work_presentation option"

datatype search_mode = Search_none | Search_full_text

record artifact_kind =
  ak_mime_types :: "string list"
  ak_retention_days :: int
  ak_requires_reference_to :: "string list option"
  ak_searchable :: bool
  ak_search_mode :: search_mode
  ak_auto_supersedes :: bool

text \<open>The sections of a definition that the modelled code reads. Templates, record field lists
  and the slots of \<^verbatim>\<open>entity_artifact_references\<close> are not read by it.\<close>

record tila_schema =
  ts_schema_version :: int
  ts_work_units :: "(string \<times> work_unit) list"
  ts_hierarchy_levels :: "string list option"
  ts_artifacts :: "(string \<times> artifact_kind) list option"
  ts_artifact_relationship_types :: "string list option"
  ts_record_types :: "string list"

definition work_unit_of :: "tila_schema \<Rightarrow> string \<Rightarrow> work_unit option" where
  "work_unit_of sch ty = map_of (ts_work_units sch) ty"

text \<open>\<open>schema?.work_units[type]?.lifecycle\<close>.\<close>

definition lifecycle_of :: "tila_schema option \<Rightarrow> string \<Rightarrow> work_lifecycle option" where
  "lifecycle_of sch ty =
     Option.bind sch (\<lambda>s. Option.bind (work_unit_of s ty) wu_lifecycle)"

fun outcome_state :: "outcome_states \<Rightarrow> lifecycle_outcome \<Rightarrow> string option" where
  "outcome_state o' O_success = os_success o'"
| "outcome_state o' O_failure = os_failure o'"
| "outcome_state o' O_cancelled = os_cancelled o'"
| "outcome_state o' O_abandoned = os_abandoned o'"

text \<open>\<open>Object.values(lifecycle.outcomes ?? {})\<close>.\<close>

definition outcome_values :: "work_lifecycle \<Rightarrow> string list" where
  "outcome_values lc = (case lc_outcomes lc of
      None \<Rightarrow> []
    | Some o' \<Rightarrow> List.map_filter (outcome_state o') [O_success, O_failure, O_cancelled, O_abandoned])"

section \<open>The refinement of work units\<close>

datatype unit_issue =
    Bad_presentation string
  | Bad_lifecycle_field
  | Dispatchable_terminal_overlap
  | Dependency_satisfied_not_terminal
  | Start_state_terminal
  | State_not_in_values

definition presentable_type :: "string \<Rightarrow> bool" where
  "presentable_type t = (t \<in> {''string'', ''text'', ''enum''})"

definition checkPresentationFields ::
    "(string \<times> string option) list \<Rightarrow> (string \<times> field_decl) list \<Rightarrow> unit_issue list" where
  "checkPresentationFields slots decls =
     [Bad_presentation slot. (slot, name) \<leftarrow> slots,
        (case name of None \<Rightarrow> False
         | Some n \<Rightarrow> (case map_of decls n of None \<Rightarrow> True | Some f \<Rightarrow> \<not> presentable_type (fd_type f)))]"

definition lifecycle_states :: "work_lifecycle \<Rightarrow> string list" where
  "lifecycle_states lc = lc_dispatchable lc @ lc_terminal lc @ lc_dependency_satisfied lc @
     outcome_values lc @ (case lc_on_start lc of None \<Rightarrow> [] | Some s \<Rightarrow> [s])"

definition lifecycle_issues :: "(string \<times> field_decl) list \<Rightarrow> work_lifecycle \<Rightarrow> unit_issue list" where
  "lifecycle_issues decls lc =
    (let field = map_of decls (lc_field lc) in
     (if (case field of None \<Rightarrow> True | Some f \<Rightarrow> \<not> presentable_type (fd_type f))
      then [Bad_lifecycle_field] else []) @
     (if list_ex (\<lambda>s. s \<in> set (lc_terminal lc)) (lc_dispatchable lc)
      then [Dispatchable_terminal_overlap] else []) @
     (if list_ex (\<lambda>s. s \<notin> set (lc_terminal lc)) (lc_dependency_satisfied lc)
      then [Dependency_satisfied_not_terminal] else []) @
     (case lc_on_start lc of
        Some s \<Rightarrow> if s \<in> set (lc_terminal lc) then [Start_state_terminal] else []
      | None \<Rightarrow> []) @
     (case Option.bind field fd_values of
        Some vs \<Rightarrow> if list_ex (\<lambda>s. s \<notin> set vs) (lifecycle_states lc) then [State_not_in_values] else []
      | None \<Rightarrow> []))"

definition work_unit_issues :: "work_unit \<Rightarrow> unit_issue list" where
  "work_unit_issues u =
     (case wu_presentation u of
        None \<Rightarrow> []
      | Some p \<Rightarrow> checkPresentationFields
          [(''title'', wp_title p), (''summary'', wp_summary p), (''description'', wp_description p)]
          (wu_fields u)) @
     (case wu_lifecycle u of None \<Rightarrow> [] | Some lc \<Rightarrow> lifecycle_issues (wu_fields u) lc)"

definition schema_refined :: "tila_schema \<Rightarrow> bool" where
  "schema_refined sch = list_all (\<lambda>(t, u). work_unit_issues u = []) (ts_work_units sch)"

lemma work_unit_of_refined:
  "schema_refined sch \<Longrightarrow> work_unit_of sch ty = Some u \<Longrightarrow> work_unit_issues u = []"
  unfolding schema_refined_def work_unit_of_def
  by (drule map_of_SomeD) (auto simp: list_all_iff)

lemma refined_lifecycle:
  assumes "schema_refined sch" and "lifecycle_of (Some sch) ty = Some lc"
  shows "set (lc_dispatchable lc) \<inter> set (lc_terminal lc) = {}"
    and "set (lc_dependency_satisfied lc) \<subseteq> set (lc_terminal lc)"
    and "lc_on_start lc = Some s \<Longrightarrow> s \<notin> set (lc_terminal lc)"
proof -
  obtain u where u: "work_unit_of sch ty = Some u" "wu_lifecycle u = Some lc"
    using assms(2) by (auto simp: lifecycle_of_def bind_eq_Some_conv)
  with work_unit_of_refined [OF assms(1) u(1)] have "lifecycle_issues (wu_fields u) lc = []"
    by (simp add: work_unit_issues_def)
  then show "set (lc_dispatchable lc) \<inter> set (lc_terminal lc) = {}"
    and "set (lc_dependency_satisfied lc) \<subseteq> set (lc_terminal lc)"
    and "lc_on_start lc = Some s \<Longrightarrow> s \<notin> set (lc_terminal lc)"
    by (auto simp: lifecycle_issues_def Let_def list_ex_iff split: if_splits option.splits)
qed

section \<open>Constraint checks\<close>

datatype constraint_result = Constraint_ok | Constraint_violation

definition checkEntityTypeDeclared :: "tila_schema \<Rightarrow> string \<Rightarrow> constraint_result" where
  "checkEntityTypeDeclared sch ty =
     (if ty \<in> fst ` set (ts_work_units sch) then Constraint_ok else Constraint_violation)"

definition checkLeafRejection :: "tila_schema \<Rightarrow> string \<Rightarrow> constraint_result" where
  "checkLeafRejection sch parent = (case ts_hierarchy_levels sch of
      None \<Rightarrow> Constraint_ok
    | Some [] \<Rightarrow> Constraint_ok
    | Some levels \<Rightarrow> if parent = last levels then Constraint_violation else Constraint_ok)"

definition checkArtifactKindDeclared :: "tila_schema \<Rightarrow> string \<Rightarrow> constraint_result" where
  "checkArtifactKindDeclared sch kind =
    (if kind = ''record-snapshot-canonical'' \<or> kind = ''record-snapshot-source'' then Constraint_ok
     else case ts_artifacts sch of
        None \<Rightarrow> Constraint_ok
      | Some ks \<Rightarrow> if kind \<in> fst ` set ks then Constraint_ok else Constraint_violation)"

definition artifact_kind_of :: "tila_schema \<Rightarrow> string \<Rightarrow> artifact_kind option" where
  "artifact_kind_of sch kind = Option.bind (ts_artifacts sch) (\<lambda>ks. map_of ks kind)"

definition checkArtifactKindSearchable :: "tila_schema \<Rightarrow> string \<Rightarrow> bool \<times> search_mode" where
  "checkArtifactKindSearchable sch kind = (case artifact_kind_of sch kind of
      None \<Rightarrow> (False, Search_none)
    | Some k \<Rightarrow> (ak_searchable k, ak_search_mode k))"

definition getArtifactKindRetention :: "tila_schema \<Rightarrow> string \<Rightarrow> int" where
  "getArtifactKindRetention sch kind =
     (case artifact_kind_of sch kind of None \<Rightarrow> 0 | Some k \<Rightarrow> ak_retention_days k)"

definition getAutoSupersedes :: "tila_schema \<Rightarrow> string \<Rightarrow> bool" where
  "getAutoSupersedes sch kind =
     (case artifact_kind_of sch kind of None \<Rightarrow> False | Some k \<Rightarrow> ak_auto_supersedes k)"

definition checkArtifactRelationshipTypeDeclared :: "tila_schema \<Rightarrow> string \<Rightarrow> constraint_result" where
  "checkArtifactRelationshipTypeDeclared sch ty = (case ts_artifact_relationship_types sch of
      None \<Rightarrow> Constraint_ok
    | Some types \<Rightarrow> if types = [] \<or> ty \<in> set types then Constraint_ok else Constraint_violation)"

definition checkRecordTypeDeclared :: "tila_schema \<Rightarrow> string \<Rightarrow> constraint_result" where
  "checkRecordTypeDeclared sch ty =
     (if ty \<in> set (ts_record_types sch) then Constraint_ok else Constraint_violation)"

definition checkReferenceSlotDeclared :: "tila_schema \<Rightarrow> string \<Rightarrow> string \<Rightarrow> constraint_result" where
  "checkReferenceSlotDeclared sch ty slot = (case work_unit_of sch ty of
      None \<Rightarrow> Constraint_ok
    | Some u \<Rightarrow> (case wu_references u of
        None \<Rightarrow> Constraint_ok
      | Some refs \<Rightarrow> if refs = [] \<or> slot \<in> rs_name ` set refs then Constraint_ok
                     else Constraint_violation))"

section \<open>Tolerant read, validated write, legacy defaults\<close>

datatype validation_error = Unknown_entity_type string | Missing_required string

definition tolerantRead :: "jobj \<Rightarrow> tila_schema \<Rightarrow> string \<Rightarrow> validation_error list" where
  "tolerantRead data sch ty = (case work_unit_of sch ty of
      None \<Rightarrow> [Unknown_entity_type ty]
    | Some u \<Rightarrow> [Missing_required f. (f, d) \<leftarrow> wu_fields u,
        fd_required d, \<not> obj_has f data, fd_default_for_legacy d = None])"

definition validatedWrite :: "jobj \<Rightarrow> tila_schema \<Rightarrow> string \<Rightarrow> validation_error list" where
  "validatedWrite data sch ty = (case work_unit_of sch ty of
      None \<Rightarrow> [Unknown_entity_type ty]
    | Some u \<Rightarrow> [Missing_required f. (f, d) \<leftarrow> wu_fields u, fd_required d, \<not> obj_has f data])"

text \<open>The copy-on-write loop of \<open>applyLegacyDefaults\<close>: membership is tested in the original data,
  defaults are written to the copy.\<close>

fun legacy_fill :: "jobj \<Rightarrow> (string \<times> field_decl) list \<Rightarrow> jobj \<Rightarrow> jobj" where
  "legacy_fill data [] enriched = enriched"
| "legacy_fill data ((f, d) # fs) enriched =
     legacy_fill data fs (case fd_default_for_legacy d of
        Some v \<Rightarrow> if obj_has f data then enriched else obj_set f v enriched
      | None \<Rightarrow> enriched)"

definition applyLegacyDefaults :: "jobj \<Rightarrow> tila_schema \<Rightarrow> string \<Rightarrow> jobj" where
  "applyLegacyDefaults data sch ty = (case work_unit_of sch ty of
      None \<Rightarrow> data
    | Some u \<Rightarrow> legacy_fill data (wu_fields u) data)"

lemma legacy_fill_keeps:
  "obj_has k data \<Longrightarrow> obj_get k (legacy_fill data fs e) = obj_get k e"
  by (induction data fs e rule: legacy_fill.induct) (auto split: option.splits)

lemma legacy_fill_mono: "obj_get k e = Some v \<Longrightarrow> \<exists>w. obj_get k (legacy_fill data fs e) = Some w"
proof (induction data fs e arbitrary: v rule: legacy_fill.induct)
  case (2 data f d fs e)
  then show ?case by (cases "k = f") (auto split: option.splits)
qed simp

lemma legacy_fill_provides:
  "(f, d) \<in> set fs \<Longrightarrow> fd_default_for_legacy d \<noteq> None \<Longrightarrow> \<not> obj_has f data
    \<Longrightarrow> obj_get f (legacy_fill data fs e) \<noteq> None"
proof (induction data fs e rule: legacy_fill.induct)
  case (1 data e)
  then show ?case by simp
next
  case (2 data f' d' fs e)
  show ?case
  proof (cases "(f', d') = (f, d)")
    case True
    with 2(3,4) obtain v where "fd_default_for_legacy d' = Some v" "\<not> obj_has f' data" by auto
    with True legacy_fill_mono [of f "obj_set f v e" v data fs] show ?thesis by auto
  next
    case False
    with 2 show ?thesis by auto
  qed
qed

end
