(* ===== verification/Store.thy ===== *)
theory Store
  imports Definitions
begin

text \<open>
  The project database of \<^verbatim>\<open>packages/ops-sqlite/src/schema.ts\<close>: one record per table row, one
  record for the database, the errors the operations throw, the request origin and the
  host (clock, identifiers, TOML parser), and \<open>appendJournal\<close> of \<^verbatim>\<open>journal-ops.ts\<close>.

  A column declared \<open>notNull\<close> is a plain field, a nullable one an option. JSON columns hold the
  parsed value. Times and fences are integers. Row order is insertion order. Column and
  index constraints of the live schema (\<^verbatim>\<open>migrations-sql.ts\<close>) are checked by the statement that
  can violate them; foreign keys are not, since the code does not rely on them being enabled.
\<close>

section \<open>Rows\<close>

record entity_row =
  en_id :: string
  en_type :: string
  en_schema_version :: int
  en_data :: jobj
  en_archived :: bool
  en_created_at :: int
  en_updated_at :: int
  en_created_by :: string

record entity_relationship_row =
  er_from_id :: string
  er_to_id :: string
  er_type :: string
  er_schema_version :: int
  er_created_at :: int

record entity_tag_row =
  et_entity_id :: string
  et_tag :: string

record entity_search_doc_row =
  es_entity_id :: string
  es_entity_type :: string
  es_name :: "string option"
  es_indexed_at :: int

record entity_artifact_reference_row =
  ea_entity_id :: string
  ea_artifact_key :: string
  ea_slot :: string
  ea_metadata :: jobj
  ea_created_at :: int

record artifact_pointer_row =
  ap_r2_key :: string
  ap_resource :: "string option"
  ap_kind :: string
  ap_sha256 :: string
  ap_bytes :: int
  ap_fence :: "int option"
  ap_mime_type :: string
  ap_produced_at :: int
  ap_produced_by :: string
  ap_expires_at :: "int option"
  ap_tombstoned :: bool
  ap_tombstoned_at :: "int option"
  ap_blob_deleted_at :: "int option"
  ap_content_inline :: "string option"
  ap_lineage_id :: "string option"
  ap_revision :: "int option"
  ap_restored_from :: "string option"
  ap_provenance :: "json option"
  ap_revision_creation :: "json option"

text \<open>An archived revision, with the two fields of its metadata that the modelled code reads.\<close>

record artifact_revision_row =
  rx_r2_key :: string
  rx_lineage_id :: string
  rx_revision :: int
  rx_provenance :: "json option"
  rx_revision_creation :: "json option"

record artifact_relationship_row =
  rl_from_key :: string
  rl_to_key :: "string option"
  rl_to_uri :: "string option"
  rl_type :: string
  rl_target :: string
  rl_metadata :: jobj
  rl_created_at :: int

datatype review_decision = Trusted | Rejected | Superseded | Revoked

record artifact_review_row =
  av_artifact_key :: string
  av_review_revision :: int
  av_principal_id :: string
  av_participant_id :: string
  av_created_at :: int
  av_decision :: review_decision
  av_reason :: "string option"
  av_operation_id :: string
  av_request_json :: string

datatype claim_mode = Exclusive | Owner | Presence

record claim_row =
  cl_resource :: string
  cl_principal_id :: string
  cl_participant_id :: string
  cl_environment :: jobj
  cl_mode :: claim_mode
  cl_fence :: int
  cl_acquired_at :: int
  cl_expires_at :: int
  cl_metadata :: jobj

record fence_row =
  fe_resource :: string
  fe_current_fence :: int

record presence_row =
  pr_principal_id :: string
  pr_participant_id :: string
  pr_environment :: jobj
  pr_last_seen :: int
  pr_info :: jobj

datatype gate_status = Pending | Resolved | Cancelled_gate | Timed_out

record gate_row =
  ga_id :: string
  ga_resource :: string
  ga_await_type :: string
  ga_status :: gate_status
  ga_fence :: int
  ga_timeout_at :: "int option"
  ga_resolved_at :: "int option"
  ga_resolution :: "string option"
  ga_created_at :: int
  ga_created_by :: string
  ga_token_id :: "string option"
  ga_data :: jobj

text \<open>The identity columns are nullable in the live table: rows inserted by the raw statements of
  \<^verbatim>\<open>relationship-ops.ts\<close> leave them out.\<close>

record journal_row =
  jo_seq :: int
  jo_t :: int
  jo_kind :: string
  jo_resource :: string
  jo_principal_id :: "string option"
  jo_participant_id :: "string option"
  jo_environment :: jobj
  jo_actor :: string
  jo_token_id :: "string option"
  jo_fence :: "int option"
  jo_data :: jobj
  jo_source :: "string option"
  jo_source_version :: "string option"

record schema_history_row =
  sh_version :: int
  sh_definition :: string
  sh_applied_at :: int
  sh_applied_by :: string
  sh_change_summary :: "string option"
  sh_strategy :: "string option"

record do_idempotency_row =
  di_key :: string
  di_request_hash :: "string option"
  di_status_code :: int
  di_response_json :: json
  di_created_at :: int

subsection \<open>Managed work\<close>

record queue_policy_row =
  qp_revision_required :: bool
  qp_enabled :: bool
  qp_paused :: bool
  qp_execution_limit :: "int option"
  qp_wip_limit :: "int option"
  qp_lease_ms :: int
  qp_revision :: int

record queue_retry_policy =
  rp_retry_safe :: bool
  rp_max_attempts :: int
  rp_initial_backoff_ms :: int
  rp_max_backoff_ms :: int

datatype entry_state = Queued | Admitted | Finished | Withdrawn

record queue_entry =
  qe_id :: string
  qe_task_id :: string
  qe_state :: entry_state
  qe_priority :: int
  qe_enqueue_order :: int
  qe_required_capabilities :: "string list"
  qe_target_principal :: "string option"
  qe_retry_policy :: queue_retry_policy
  qe_revision :: int
  qe_available_at :: int
  qe_created_at :: int
  qe_updated_at :: int
  qe_enrolled_by_principal :: "string option"
  qe_enrolled_by_participant :: "string option"

datatype attempt_state =
  Reserved | Starting | Running | Suspended | Resume_pending | Uncertain | Terminal

record attempt_session =
  se_provider :: string
  se_id :: string
  se_host_id :: "string option"
  se_worktree :: "string option"
  se_url :: "string option"

record attempt_outcome =
  oc_status :: lifecycle_outcome
  oc_reason :: "string option"
  oc_evidence :: "string list"
  oc_execution_stopped :: bool
  oc_unresolved_external_execution :: bool

record revision_snapshot =
  rv_definition_version :: "int option"
  rv_policy_revision :: int
  rv_at :: int

record attempt_revisions =
  ar_reserved :: "revision_snapshot option"
  ar_authorized :: "revision_snapshot option"
  ar_finished :: "revision_snapshot option"

record work_attempt =
  wa_id :: string
  wa_entry_id :: string
  wa_task_id :: string
  wa_resource :: string
  wa_principal_id :: string
  wa_participant_id :: string
  wa_state :: attempt_state
  wa_revision :: int
  wa_fence :: int
  wa_lease_expires_at :: "int option"
  wa_accepted_at :: "int option"
  wa_session :: "attempt_session option"
  wa_checkpoint :: "jobj option"
  wa_cancellation_requested :: bool
  wa_suspension_requested :: bool
  wa_predecessor_id :: "string option"
  wa_outcome :: "attempt_outcome option"
  wa_created_at :: int
  wa_updated_at :: int
  wa_finished_at :: "int option"
  wa_revisions :: "attempt_revisions option"

record attempt_correction =
  ac_id :: string
  ac_attempt_id :: string
  ac_task_id :: string
  ac_reason :: string
  ac_principal_id :: string
  ac_participant_id :: string
  ac_created_at :: int

record execution_reservation =
  xr_task_id :: string
  xr_entry_id :: string
  xr_attempt_id :: string
  xr_execution_held :: bool
  xr_wip_held :: bool
  xr_updated_at :: int

record queue_receipt =
  qr_key :: string
  qr_request :: string
  qr_result :: jobj
  qr_entry_id :: "string option"
  qr_attempt_id :: "string option"
  qr_created_at :: int

subsection \<open>Questions\<close>

datatype question_state = Q_open | Q_answered | Q_cancelled | Q_superseded

record question_actor =
  qa_principal_id :: string
  qa_participant_id :: string

record question_discussion =
  qd_room_id :: string
  qd_message_id :: string

record question_routing =
  qt_responder_principal_id :: string
  qt_escalated :: bool
  qt_reason :: "string option"
  qt_actor :: question_actor
  qt_revision :: int
  qt_at :: int

record question_answer =
  qw_text :: string
  qw_actor :: question_actor
  qw_revision :: int
  qw_at :: int

record question_binding =
  qb_agent_id :: string
  qb_consumer_binding_id :: string
  qb_binding_epoch :: int

record question =
  qu_id :: string
  qu_text :: string
  qu_task_id :: string
  qu_attempt_id :: string
  qu_attempt_revision :: int
  qu_attempt_fence :: int
  qu_requester :: question_actor
  qu_session :: "(string \<times> string) option"
  qu_requester_binding :: "question_binding option"
  qu_responder_principal_id :: string
  qu_escalated :: bool
  qu_state :: question_state
  qu_revision :: int
  qu_answer :: "question_answer option"
  qu_routing :: "question_routing list"
  qu_discussion :: "question_discussion list"
  qu_predecessor_id :: "string option"
  qu_invalidation_reason :: "string option"
  qu_created_at :: int
  qu_updated_at :: int

record work_question_row =
  wq_id :: string
  wq_task_id :: string
  wq_attempt_id :: string
  wq_requester_principal_id :: string
  wq_responder_principal_id :: string
  wq_state :: question_state
  wq_snapshot :: question

record question_receipt =
  qc_key :: string
  qc_request :: string
  qc_question_id :: string
  qc_result :: question
  qc_created_at :: int

subsection \<open>Agents, rooms and messages\<close>

record bind_grant =
  bg_principal_id :: string
  bg_agent_id :: string

record profile_selection =
  ps_profile_id :: string
  ps_host_ref :: "string option"
  ps_account_ref :: "string option"

record agent_row =
  ag_id :: string
  ag_name :: string
  ag_owner_principal_id :: string
  ag_bind_policy :: "bind_grant list"
  ag_binding_epoch :: int
  ag_archived :: bool
  ag_revision :: int
  ag_profile_selection :: "profile_selection option"
  ag_created_at :: int
  ag_updated_at :: int

datatype mechanism = M_poll | M_native_peer | M_native_queue | M_terminal

datatype verification = Declared | Unknown

record native_session_ref =
  ns_host_ref :: string
  ns_harness :: string
  ns_profile_id :: string
  ns_session_id :: string

record profile_evidence =
  pe_profile_id :: string
  pe_profile_revision :: int
  pe_account_ref :: string
  pe_verification :: verification

record capability_report =
  cr_adapter_version :: string
  cr_harness_version :: "string option"
  cr_runtime_version :: "string option"
  cr_capabilities :: "(string \<times> bool) list"

text \<open>What an attached run reports; the column \<open>attachment_json\<close> holds its canonical text.\<close>

record attachment =
  at_harness :: string
  at_native_session_ref :: "native_session_ref option"
  at_profile :: "profile_evidence option"
  at_capability_report :: capability_report
  at_mechanism :: mechanism
  at_attended :: bool
  at_allow_idle_start :: bool

datatype binding_state = B_active | B_replaced | B_released | B_expired

record agent_binding =
  ab_consumer_binding_id :: string
  ab_agent_id :: string
  ab_run_id :: string
  ab_binding_epoch :: int
  ab_enrollment_id :: "string option"
  ab_workload_binding_id :: "string option"
  ab_principal_id :: string
  ab_participant_id :: string
  ab_state :: binding_state
  ab_attachment :: attachment
  ab_lease_expires_at :: int
  ab_created_at :: int
  ab_updated_at :: int

datatype history_policy = H_members | H_project

record room_budgets =
  rb_max_hops :: int
  rb_pair_exchanges :: int
  rb_agent_wakes :: int
  rb_room_wakes :: int

record room_row =
  ro_id :: string
  ro_name :: string
  ro_history_policy :: history_policy
  ro_delivery_ttl_seconds :: int
  ro_budgets :: room_budgets
  ro_archived :: bool
  ro_revision :: int
  ro_next_seq :: int
  ro_created_at :: int
  ro_updated_at :: int

record room_member =
  rk_room_id :: string
  rk_member :: string
  rk_wake :: bool
  rk_joined_at :: int

record thread_row =
  th_id :: string
  th_room_id :: string
  th_title :: string
  th_created_at :: int

record message_provenance =
  mp_agent_id :: "string option"
  mp_principal_id :: string
  mp_participant_id :: string
  mp_consumer_binding_id :: "string option"
  mp_binding_epoch :: "int option"

text \<open>The author of a message is an agent exactly when \<open>mp_agent_id\<close> is present.\<close>

record message =
  me_id :: string
  me_room_id :: string
  me_seq :: int
  me_client_op_id :: string
  me_thread_id :: "string option"
  me_body :: string
  me_artifact_refs :: "string list"
  me_reply_expected :: bool
  me_task_id :: "string option"
  me_attempt_id :: "string option"
  me_correlation_id :: "string option"
  me_chain_id :: string
  me_hop :: int
  me_created_at :: int
  me_provenance :: message_provenance

record message_row =
  mw_ordinal :: int
  mw_author_key :: string
  mw_request_hash :: string
  mw_message :: message
  mw_author_agent :: "string option"

datatype recipient_state = R_pending | R_acked | R_expired

datatype disposition = Accepted | Declined

datatype suppression = S_hop | S_pair | S_agent | S_room | S_stalled

record recipient_row =
  mr_ordinal :: int
  mr_id :: string
  mr_message_id :: string
  mr_agent_id :: string
  mr_target_binding_id :: "string option"
  mr_target_epoch :: "int option"
  mr_state :: recipient_state
  mr_fetched_at :: "int option"
  mr_fetched_binding_id :: "string option"
  mr_fetched_epoch :: "int option"
  mr_acked_at :: "int option"
  mr_acked_binding_id :: "string option"
  mr_acked_epoch :: "int option"
  mr_disposition :: "disposition option"
  mr_wake_suppressed :: "suppression option"
  mr_rewakes :: int
  mr_created_at :: int
  mr_expires_at :: int

record outbox_row =
  ob_agent_id :: string
  ob_quiet :: bool
  ob_publish_gen :: int
  ob_lease_token :: "string option"
  ob_lease_until :: "int option"
  ob_lease_gen :: "int option"
  ob_lease_binding_id :: "string option"
  ob_lease_epoch :: "int option"
  ob_next_attempt_at :: int
  ob_attempt_count :: int
  ob_updated_at :: int

datatype dispatch_outcome = D_leased | D_accepted | D_rejected | D_deferred | D_unknown

record dispatch_attempt =
  da_room_ids :: "string list"
  da_delivery_ids :: "string list"
  da_id :: string
  da_agent_id :: string
  da_lease_token :: string
  da_consumer_binding_id :: string
  da_binding_epoch :: int
  da_publish_gen :: int
  da_outcome :: dispatch_outcome
  da_created_at :: int
  da_reported_at :: "int option"

record context_row =
  cx_consumer_binding_id :: string
  cx_delivery_id :: string
  cx_opened_at :: int

datatype signal_target =
    T_participant string string
  | T_principal string
  | T_group string
  | T_broadcast

datatype signal_kind = Sg_conflict | Sg_ready | Sg_info | Sg_request

record signal_identity =
  si_principal_id :: string
  si_participant_id :: string
  si_display_name :: "string option"
  si_environment :: jobj

record signal_row =
  sg_id :: string
  sg_target :: signal_target
  sg_kind :: signal_kind
  sg_resource :: "string option"
  sg_payload :: json
  sg_sender :: signal_identity
  sg_created_at :: int
  sg_expires_at :: int

text \<open>The acknowledging identity of a delivery is present when every column it needs is.\<close>

record signal_delivery_row =
  sd_signal_id :: string
  sd_recipient :: signal_identity
  sd_acknowledged_at :: "int option"
  sd_acknowledged_by :: "signal_identity option"

record signal_group_row =
  gr_id :: string
  gr_name :: string
  gr_revision :: int
  gr_created_at :: int
  gr_updated_at :: int
  gr_created_by_principal_id :: string
  gr_created_by_participant_id :: string
  gr_updated_by_principal_id :: string
  gr_updated_by_participant_id :: string

record signal_group_member_row =
  gm_group_id :: string
  gm_principal_id :: string
  gm_added_at :: int
  gm_added_by_principal_id :: string
  gm_added_by_participant_id :: string

text \<open>The part of the transfer state that a restore keeps for agents.\<close>

record transfer_state =
  tr_applying :: int
  tr_agent_epochs :: "(string \<times> int) list"

text \<open>The tables of agents and conversations. \<open>tk_config_revision\<close> is the one row of the settings
  revision counter, \<open>tk_generation\<close> the one row of the conversation state.\<close>

record talk =
  tk_config_revision :: "int option"
  tk_agents :: "agent_row list"
  tk_bindings :: "agent_binding list"
  tk_rooms :: "room_row list"
  tk_members :: "room_member list"
  tk_threads :: "thread_row list"
  tk_messages :: "message_row list"
  tk_recipients :: "recipient_row list"
  tk_outbox :: "outbox_row list"
  tk_dispatch :: "dispatch_attempt list"
  tk_context :: "context_row list"
  tk_generation :: "string option"
  tk_signals :: "signal_row list"
  tk_signal_deliveries :: "signal_delivery_row list"
  tk_signal_groups :: "signal_group_row list"
  tk_signal_group_members :: "signal_group_member_row list"
  tk_transfer :: "transfer_state option"

definition empty_talk :: talk where
  "empty_talk = \<lparr>tk_config_revision = None, tk_agents = [], tk_bindings = [], tk_rooms = [], tk_members = [],
     tk_threads = [], tk_messages = [], tk_recipients = [], tk_outbox = [], tk_dispatch = [],
     tk_context = [], tk_generation = None, tk_signals = [], tk_signal_deliveries = [],
     tk_signal_groups = [], tk_signal_group_members = [], tk_transfer = None\<rparr>"

section \<open>Records\<close>

text \<open>The JSON columns hold the canonical text of a value; the model has the value itself, with its keys sorted.\<close>

record record_row =
  rd_type :: string
  rd_key :: string
  rd_schema_version :: int
  rd_value :: jobj
  rd_value_sha256 :: string
  rd_revision :: int
  rd_archived :: bool
  rd_created_at :: int
  rd_updated_at :: int
  rd_updated_by :: string

datatype record_operation = RO_created | RO_set | RO_patch | RO_archived | RO_unarchived

record record_revision_row =
  rv_type :: string
  rv_key :: string
  rv_revision :: int
  rv_operation :: record_operation
  rv_schema_version :: int
  rv_value :: jobj
  rv_value_sha256 :: string
  rv_canonical_artifact_key :: "string option"
  rv_source_artifact_key :: "string option"
  rv_actor :: string
  rv_created_at :: int
  rv_message :: "string option"
  rv_token_id :: "string option"
  rv_source :: "string option"
  rv_source_version :: "string option"
  rv_principal_id :: "string option"

record record_tag_row =
  rg_type :: string
  rg_key :: string
  rg_tag :: string

record record_search_doc_row =
  rsd_type :: string
  rsd_key :: string
  rsd_body_text :: string
  rsd_indexed_at :: int
  rsd_value_sha256 :: string
  rsd_tombstoned :: bool

record library =
  lb_records :: "record_row list"
  lb_revisions :: "record_revision_row list"
  lb_tags :: "record_tag_row list"
  lb_search_docs :: "record_search_doc_row list"

definition empty_library :: library where
  "empty_library = \<lparr>lb_records = [], lb_revisions = [], lb_tags = [], lb_search_docs = []\<rparr>"

section \<open>The database\<close>

record db =
  db_entities :: "entity_row list"
  db_entity_relationships :: "entity_relationship_row list"
  db_entity_tags :: "entity_tag_row list"
  db_entity_search_docs :: "entity_search_doc_row list"
  db_entity_artifact_references :: "entity_artifact_reference_row list"
  db_artifact_pointers :: "artifact_pointer_row list"
  db_artifact_reviews :: "artifact_review_row list"
  db_claims :: "claim_row list"
  db_fences :: "fence_row list"
  db_presence :: "presence_row list"
  db_gates :: "gate_row list"
  db_journal :: "journal_row list"
  db_journal_seq :: int
  db_schema_history :: "schema_history_row list"
  db_do_idempotency :: "do_idempotency_row list"
  db_queue_policy :: "queue_policy_row option"
  db_queue_entries :: "queue_entry list"
  db_work_attempts :: "work_attempt list"
  db_execution_reservations :: "execution_reservation list"
  db_queue_operation_receipts :: "queue_receipt list"
  db_attempt_corrections :: "attempt_correction list"
  db_work_questions :: "work_question_row list"
  db_question_receipts :: "question_receipt list"
  db_artifact_revisions :: "artifact_revision_row list"
  db_artifact_relationships :: "artifact_relationship_row list"
  db_talk :: talk
  db_library :: library

definition empty_db :: db where
  "empty_db = \<lparr>db_entities = [], db_entity_relationships = [], db_entity_tags = [],
     db_entity_search_docs = [], db_entity_artifact_references = [], db_artifact_pointers = [],
     db_artifact_reviews = [], db_claims = [], db_fences = [], db_presence = [], db_gates = [],
     db_journal = [], db_journal_seq = 0, db_schema_history = [], db_do_idempotency = [],
     db_queue_policy = None, db_queue_entries = [], db_work_attempts = [],
     db_execution_reservations = [], db_queue_operation_receipts = [],
     db_attempt_corrections = [], db_work_questions = [], db_question_receipts = [],
     db_artifact_revisions = [], db_artifact_relationships = [], db_talk = empty_talk, db_library = empty_library\<rparr>"

definition set_talk :: "(talk \<Rightarrow> talk) \<Rightarrow> db \<Rightarrow> db" where
  "set_talk f s = s\<lparr>db_talk := f (db_talk s)\<rparr>"

definition set_library :: "(library \<Rightarrow> library) \<Rightarrow> db \<Rightarrow> db" where
  "set_library f s = s\<lparr>db_library := f (db_library s)\<rparr>"

section \<open>Errors\<close>

datatype queue_code =
    Queue_managed_work | Queue_not_found | Queue_conflict | Queue_authority_lost
  | Queue_precondition | Queue_invalid_state | Queue_idempotency_conflict

datatype error =
    QueueError queue_code jobj
  | FenceError int int
  | FenceNotFoundError string
  | ClaimOwnershipError string
  | ExpiredClaimError string
  | GateNotFoundError string
  | GateAlreadySettledError string gate_status
  | GateBlockedError string "string list"
  | EntityNotFoundError string
  | EntityAlreadyExistsError string
  | TaskDataTooLargeError nat "nat option"
  | SchemaWriteError "validation_error list"
  | SchemaCorruptError int
  | ArtifactReviewError nat string "(string \<times> (string \<times> string) list) list"
  | DoIdempotencyConflictError string
  | RevisionConflictError string "int option"
  | QuestionError string nat
  | AgentBindingError string nat
  | ConversationError string nat
  | SignalGroupNotFoundError string
  | NoActiveRecipientsError
  | RecordAlreadyExistsError string string
  | RecordNotFoundError string string
  | RecordInvalidStateError string string string
  | RevisionNotFoundError string string int
  | InvalidCursorError
  | ArtifactResourceError
  | ZodError
  | SqliteError string
  | JsError

abbreviation queue_error :: "queue_code \<Rightarrow> error" where
  "queue_error c \<equiv> QueueError c []"

type_synonym 'a ptx = "(error, db, 'a) tx"

text \<open>The result of an operation of the running system: the database it leaves and the value
  returned or the error thrown.\<close>

type_synonym 'a op = "db \<Rightarrow> db \<times> (error + 'a)"

section \<open>Request origin and host\<close>

record request_origin =
  or_principalId :: string
  or_participantId :: string
  or_environment :: jobj
  or_actor :: string
  or_tokenId :: "string option"
  or_source :: "string option"
  or_sourceVersion :: "string option"

definition system_origin :: "string \<Rightarrow> request_origin" where
  "system_origin name = \<lparr>or_principalId = name, or_participantId = name, or_environment = [],
     or_actor = name, or_tokenId = None, or_source = None, or_sourceVersion = None\<rparr>"

text \<open>
  What an operation takes from its host: \<open>date_now\<close> is the reading of \<open>Date.now()\<close> during one
  operation (the clock of a Durable Object does not advance inside one), \<open>random_uuid\<close> the result
  of its one call of \<open>crypto.randomUUID()\<close>, and \<open>parse_toml\<close> the TOML library with the structural
  validation that turns a definition text into a definition, \<open>None\<close> when it is rejected, and
  \<open>valid_url\<close> the URL check of the validation library.
\<close>

record host =
  date_now :: int
  random_uuid :: string
  parse_toml :: "string \<Rightarrow> tila_schema option"
  valid_url :: "string \<Rightarrow> bool"

section \<open>Journal\<close>

definition appendJournal ::
    "host \<Rightarrow> string \<Rightarrow> string \<Rightarrow> request_origin \<Rightarrow> int option \<Rightarrow> jobj \<Rightarrow> unit ptx" where
  "appendJournal h kind resource orig fence data = tx_write (\<lambda>s. s\<lparr>
     db_journal_seq := db_journal_seq s + 1,
     db_journal := db_journal s @ [\<lparr>jo_seq = db_journal_seq s + 1, jo_t = date_now h, jo_kind = kind,
       jo_resource = resource, jo_principal_id = Some (or_principalId orig),
       jo_participant_id = Some (or_participantId orig), jo_environment = or_environment orig,
       jo_actor = '''', jo_token_id = or_tokenId orig, jo_fence = fence, jo_data = data,
       jo_source = None, jo_source_version = None\<rparr>]\<rparr>)"

text \<open>The journal is append-only: what a transaction may do to it.\<close>

definition journal_extends :: "db \<Rightarrow> db \<Rightarrow> bool" where
  "journal_extends s s' \<longleftrightarrow> (\<exists>js. db_journal s' = db_journal s @ js)"

definition journal_grows :: "'a ptx \<Rightarrow> bool" where
  "journal_grows m \<longleftrightarrow> (\<forall>s a s'. m s = Inr (a, s') \<longrightarrow> journal_extends s s')"

lemma journal_extends_refl [simp]: "journal_extends s s"
  by (simp add: journal_extends_def)

lemma journal_extends_trans: "journal_extends s t \<Longrightarrow> journal_extends t u \<Longrightarrow> journal_extends s u"
  by (auto simp: journal_extends_def)

text \<open>Journal entries touch nothing else.\<close>

lemma tx_inv_appendJournal [tx_wp]:
  "(\<And>s js n. I s \<Longrightarrow> I (s\<lparr>db_journal_seq := n, db_journal := js\<rparr>)) \<Longrightarrow>
   tx_inv I (appendJournal h kind res orig fence data)"
  unfolding appendJournal_def by (rule tx_inv_write) blast

section \<open>A host for concrete runs\<close>

definition sample_host :: "int \<Rightarrow> string \<Rightarrow> host" where
  "sample_host t u = \<lparr>date_now = t, random_uuid = u, parse_toml = (\<lambda>_. None), valid_url = (\<lambda>_. True)\<rparr>"

text \<open>A project with one kind of task, whose completion needs a trusted report.\<close>

definition sample_lifecycle :: work_lifecycle where
  "sample_lifecycle = \<lparr>lc_field = ''status'', lc_dispatchable = [''todo''], lc_terminal = [''done'', ''dropped''],
     lc_dependency_satisfied = [''done''], lc_on_start = Some ''doing'',
     lc_outcomes = Some \<lparr>os_success = Some ''done'', os_failure = Some ''todo'', os_cancelled = Some ''dropped'',
       os_abandoned = Some ''todo''\<rparr>\<rparr>"

definition sample_schema :: tila_schema where
  "sample_schema = \<lparr>ts_schema_version = 1,
     ts_work_units = [(''task'', \<lparr>wu_lifecycle = Some sample_lifecycle,
       wu_fields = [(''status'', \<lparr>fd_type = ''string'', fd_required = True, fd_default = None,
         fd_default_for_legacy = None, fd_name = None, fd_values = None\<rparr>)],
       wu_parents = [], wu_required_parent = False,
       wu_references = Some [\<lparr>rs_require_trusted_for_statuses = Some [''done''], rs_name = ''report'',
         rs_multiple = False, rs_kinds = []\<rparr>],
       wu_presentation = None\<rparr>)],
     ts_hierarchy_levels = None, ts_artifacts = None, ts_artifact_relationship_types = None,
     ts_record_types = []\<rparr>"

definition project_host :: "int \<Rightarrow> string \<Rightarrow> host" where
  "project_host t u = \<lparr>date_now = t, random_uuid = u, parse_toml = (\<lambda>_. Some sample_schema),
     valid_url = (\<lambda>_. True)\<rparr>"

definition sample_history :: "schema_history_row list" where
  "sample_history = [\<lparr>sh_version = 1, sh_definition = ''toml'', sh_applied_at = 0, sh_applied_by = ''a'',
     sh_change_summary = None, sh_strategy = None\<rparr>]"

lemmas sample_defs = sample_host_def system_origin_def empty_db_def project_host_def
  sample_history_def sample_schema_def sample_lifecycle_def

end
