(* ===== verification/Fences.thy ===== *)
theory Fences
  imports Store
begin

text \<open>
  Resource names and fences: \<^verbatim>\<open>packages/core/src/fence.ts\<close>,
  \<^verbatim>\<open>packages/ops-sqlite/src/fence-ops.ts\<close>, the record resource names of
  \<^verbatim>\<open>packages/schemas/src/record.ts\<close> and the lookup of the current definition
  (\<open>getCurrentSchema\<close>, \<open>resolveCurrentSchema\<close>).

  The lemmas say when a bare entity id and its typed form \<^verbatim>\<open>type:id\<close> reach the same fence row.
\<close>

section \<open>The current definition\<close>

fun latest_row :: "schema_history_row list \<Rightarrow> schema_history_row option" where
  "latest_row [] = None"
| "latest_row (r # rs) = (case latest_row rs of
      None \<Rightarrow> Some r
    | Some b \<Rightarrow> if sh_version b > sh_version r then Some b else Some r)"

definition getCurrentSchema :: "db \<Rightarrow> schema_history_row option" where
  "getCurrentSchema s = latest_row (db_schema_history s)"

definition resolveCurrentSchema :: "host \<Rightarrow> db \<Rightarrow> error + tila_schema option" where
  "resolveCurrentSchema h s = (case getCurrentSchema s of
      None \<Rightarrow> Inr None
    | Some row \<Rightarrow> (case parse_toml h (sh_definition row) of
        None \<Rightarrow> Inl (SchemaCorruptError (sh_version row))
      | Some sch \<Rightarrow> Inr (Some sch)))"

lemma latest_row_max:
  "latest_row rs = Some b \<Longrightarrow> b \<in> set rs \<and> (\<forall>r \<in> set rs. sh_version r \<le> sh_version b)"
proof (induction rs arbitrary: b)
  case (Cons r rs)
  show ?case
  proof (cases "latest_row rs")
    case None
    then have "rs = []" by (cases rs) (auto split: option.splits if_splits)
    with Cons.prems show ?thesis by simp
  next
    case (Some c)
    with Cons.IH [OF Some] Cons.prems show ?thesis by (auto split: if_splits)
  qed
qed simp

section \<open>Lookups\<close>

definition entity_by_id :: "db \<Rightarrow> string \<Rightarrow> entity_row option" where
  "entity_by_id s i = by_key en_id i (db_entities s)"

definition lookupFence :: "db \<Rightarrow> string \<Rightarrow> fence_row option" where
  "lookupFence s resource = by_key fe_resource resource (db_fences s)"

definition lookupClaim :: "db \<Rightarrow> string \<Rightarrow> claim_row option" where
  "lookupClaim s resource = by_key cl_resource resource (db_claims s)"

definition resolveEntityResourceDirect :: "string \<Rightarrow> string \<Rightarrow> string" where
  "resolveEntityResourceDirect ty i = ty @ '':'' @ i"

text \<open>\<open>s.slice(0, s.indexOf(c))\<close> and \<open>s.slice(s.indexOf(c) + 1)\<close>, \<open>None\<close> when \<open>c\<close> is absent.\<close>

fun split_at :: "char \<Rightarrow> string \<Rightarrow> (string \<times> string) option" where
  "split_at c [] = None"
| "split_at c (x # s) = (if x = c then Some ([], s)
     else (case split_at c s of None \<Rightarrow> None | Some (a, b) \<Rightarrow> Some (x # a, b)))"

definition resolveEntityReference :: "db \<Rightarrow> string \<Rightarrow> (string \<times> string) option" where
  "resolveEntityReference s resource = (case entity_by_id s resource of
      Some e \<Rightarrow> Some (resource, en_type e @ '':'' @ resource)
    | None \<Rightarrow> (case split_at CHR '':'' resource of
        Some (_ # _, possibleId) \<Rightarrow> (case entity_by_id s possibleId of
            Some e \<Rightarrow> if en_type e @ '':'' @ possibleId = resource
                      then Some (possibleId, resource) else None
          | None \<Rightarrow> None)
      | _ \<Rightarrow> None))"

definition resolveEntityResource :: "db \<Rightarrow> string \<Rightarrow> string option" where
  "resolveEntityResource s resource = map_option snd (resolveEntityReference s resource)"

text \<open>\<open>resolveEntityResource(tx, resource) ?? resource\<close>.\<close>

definition canonicalResource :: "db \<Rightarrow> string \<Rightarrow> string" where
  "canonicalResource s resource = (case resolveEntityResource s resource of
      None \<Rightarrow> resource | Some c \<Rightarrow> c)"

section \<open>Fence checks\<close>

definition validateFence :: "int \<Rightarrow> int \<Rightarrow> bool" where
  "validateFence currentFence claimedFence = (claimedFence = currentFence)"

definition assertFence :: "int \<Rightarrow> int \<Rightarrow> error + unit" where
  "assertFence currentFence claimedFence =
     (if validateFence currentFence claimedFence then Inr ()
      else Inl (FenceError currentFence claimedFence))"

definition check_live_claim :: "db \<Rightarrow> string \<Rightarrow> string \<Rightarrow> int \<Rightarrow> error + unit" where
  "check_live_claim s canonical shown now = (case lookupClaim s canonical of
      None \<Rightarrow> Inl (ExpiredClaimError shown)
    | Some c \<Rightarrow> if cl_expires_at c \<le> now then Inl (ExpiredClaimError shown) else Inr ())"

text \<open>\<open>now\<close> is the caller's option or the host clock; the payload of the canonical variant is the
  part of the name after the first colon.\<close>

definition assertResourceFenceWithCanonical ::
    "db \<Rightarrow> string \<Rightarrow> int \<Rightarrow> int \<Rightarrow> bool \<Rightarrow> error + unit" where
  "assertResourceFenceWithCanonical s canonical fence now requireLiveClaim =
    (let bareId = (case split_at CHR '':'' canonical of Some (_, r) \<Rightarrow> r | None \<Rightarrow> canonical) in
     case lookupFence s canonical of
       None \<Rightarrow> Inl (FenceNotFoundError bareId)
     | Some f \<Rightarrow> (case assertFence (fe_current_fence f) fence of
         Inl e \<Rightarrow> Inl e
       | Inr _ \<Rightarrow> if requireLiveClaim then check_live_claim s canonical bareId now else Inr ()))"

definition assertResourceFence :: "db \<Rightarrow> string \<Rightarrow> int \<Rightarrow> int \<Rightarrow> bool \<Rightarrow> error + unit" where
  "assertResourceFence s resource fence now requireLiveClaim =
    (case resolveEntityResource s resource of
       Some canonical \<Rightarrow> (case lookupFence s canonical of
           None \<Rightarrow> Inl (FenceNotFoundError resource)
         | Some f \<Rightarrow> (case assertFence (fe_current_fence f) fence of
             Inl e \<Rightarrow> Inl e
           | Inr _ \<Rightarrow> if requireLiveClaim then check_live_claim s canonical resource now else Inr ()))
     | None \<Rightarrow> (case lookupFence s resource of
           Some f \<Rightarrow> assertFence (fe_current_fence f) fence
         | None \<Rightarrow> Inl (FenceNotFoundError resource)))"

section \<open>Record resource names\<close>

definition formatRecordResource :: "string \<Rightarrow> string \<Rightarrow> string" where
  "formatRecordResource ty key = ''record:'' @ ty @ ''/'' @ key"

definition parseRecordResource :: "string \<Rightarrow> (string \<times> string) option" where
  "parseRecordResource resource =
     (if take 7 resource = ''record:'' then split_at CHR ''/'' (drop 7 resource) else None)"

section \<open>Facts\<close>

lemma split_at_append: "c \<notin> set a \<Longrightarrow> split_at c (a @ c # b) = Some (a, b)"
  by (induction a) auto

lemma split_at_Some: "split_at c s = Some (a, b) \<Longrightarrow> s = a @ c # b \<and> c \<notin> set a"
  by (induction s arbitrary: a) (auto split: if_splits option.splits)

lemma assertFence_run [simp]: "assertFence c c = Inr ()"
  "f \<noteq> c \<Longrightarrow> assertFence c f = Inl (FenceError c f)"
  by (simp_all add: assertFence_def validateFence_def)

lemma assertFence_ok [simp]: "assertFence c f = Inr u \<longleftrightarrow> f = c"
  by (simp add: assertFence_def validateFence_def)

lemma check_live_claim_ok:
  "check_live_claim s c shown now = Inr u \<longleftrightarrow>
     (\<exists>k. lookupClaim s c = Some k \<and> now < cl_expires_at k)"
  by (auto simp: check_live_claim_def split: option.splits if_splits)

lemma assertResourceFenceWithCanonical_ok:
  "assertResourceFenceWithCanonical s c fence now live = Inr u \<longleftrightarrow>
     (\<exists>f. lookupFence s c = Some f \<and> fe_current_fence f = fence) \<and>
     (live \<longrightarrow> (\<exists>k. lookupClaim s c = Some k \<and> now < cl_expires_at k))"
  by (auto simp: assertResourceFenceWithCanonical_def Let_def check_live_claim_ok
      split: option.splits sum.splits if_splits)

text \<open>Entity ids and types in which no colon can be mistaken for the separator.\<close>

definition plain_names :: "db \<Rightarrow> bool" where
  "plain_names s \<longleftrightarrow> list_all (\<lambda>e. CHR '':'' \<notin> set (en_id e) \<and> CHR '':'' \<notin> set (en_type e)
     \<and> en_type e \<noteq> []) (db_entities s)"

lemma entity_by_id_Some: "entity_by_id s i = Some e \<Longrightarrow> e \<in> set (db_entities s) \<and> en_id e = i"
  unfolding entity_by_id_def by (rule by_key_Some)

lemma entity_by_id_typed:
  assumes "plain_names s" shows "entity_by_id s (t @ '':'' @ i) = None"
proof (cases "entity_by_id s (t @ '':'' @ i)")
  case (Some e)
  with entity_by_id_Some assms have "CHR '':'' \<notin> set (t @ '':'' @ i)"
    by (fastforce simp: plain_names_def list_all_iff)
  then show ?thesis by simp
qed

lemma canonical_of_bare:
  "entity_by_id s i = Some e \<Longrightarrow> canonicalResource s i = en_type e @ '':'' @ i"
  by (simp add: canonicalResource_def resolveEntityResource_def resolveEntityReference_def)

lemma resolve_typed:
  assumes "plain_names s" and "entity_by_id s i = Some e"
  shows "resolveEntityReference s (en_type e @ '':'' @ i) = Some (i, en_type e @ '':'' @ i)"
proof -
  have e: "CHR '':'' \<notin> set (en_type e)" "en_type e \<noteq> []"
    using assms entity_by_id_Some by (fastforce simp: plain_names_def list_all_iff)+
  then obtain t ts where t: "en_type e = t # ts" by (cases "en_type e") auto
  with e have "split_at CHR '':'' ((t # ts) @ CHR '':'' # i) = Some (t # ts, i)"
    by (intro split_at_append) simp
  with assms t entity_by_id_typed [OF assms(1), of "t # ts" i] show ?thesis
    by (simp add: resolveEntityReference_def)
qed

lemma canonical_idem:
  assumes "plain_names s" shows "canonicalResource s (canonicalResource s r) = canonicalResource s r"
proof (cases "entity_by_id s r")
  case (Some e)
  with assms show ?thesis
    by (simp add: canonical_of_bare [OF Some])
      (simp add: canonicalResource_def resolveEntityResource_def resolve_typed [OF assms Some, simplified])
next
  case None
  then have "canonicalResource s r = r"
    by (auto simp: canonicalResource_def resolveEntityResource_def resolveEntityReference_def
        split: option.splits list.splits)
  then show ?thesis by simp
qed

section \<open>Properties\<close>

text \<open>The bare id of an entity and its typed name are one resource: in a database whose entity
  ids and types contain no colon, a fenced write is accepted under the one name exactly when it
  is accepted under the other, and canonicalisation is idempotent.\<close>

theorem bare_and_typed_agree:
  assumes "plain_names s" and "entity_by_id s i = Some e"
  shows "(assertResourceFence s i fence now live = Inr ()) =
      (assertResourceFence s (resolveEntityResourceDirect (en_type e) i) fence now live = Inr ())
    \<and> canonicalResource s (resolveEntityResourceDirect (en_type e) i) = canonicalResource s i
    \<and> (\<forall>r. canonicalResource s (canonicalResource s r) = canonicalResource s r)"
proof -
  have bare: "resolveEntityResource s i = Some (en_type e @ '':'' @ i)"
    using assms(2) by (simp add: resolveEntityResource_def resolveEntityReference_def)
  have typed: "resolveEntityResource s (en_type e @ '':'' @ i) = Some (en_type e @ '':'' @ i)"
    using resolve_typed [OF assms] by (simp add: resolveEntityResource_def)
  have "assertResourceFence s i fence now live = Inr () \<longleftrightarrow>
      assertResourceFence s (en_type e @ '':'' @ i) fence now live = Inr ()"
    unfolding assertResourceFence_def bare typed
    by (auto simp: check_live_claim_ok split: option.splits sum.splits)
  moreover have "canonicalResource s (en_type e @ '':'' @ i) = canonicalResource s i"
    using bare typed by (simp add: canonicalResource_def)
  ultimately show ?thesis using canonical_idem [OF assms(1)]
    by (simp add: resolveEntityResourceDirect_def)
qed

definition sample_entity :: "string \<Rightarrow> string \<Rightarrow> jobj \<Rightarrow> entity_row" where
  "sample_entity ty i d = \<lparr>en_id = i, en_type = ty, en_schema_version = 1, en_data = d,
     en_archived = False, en_created_at = 0, en_updated_at = 0, en_created_by = ''a''\<rparr>"

theorem bare_and_typed_agree_witness:
  "canonicalResource (empty_db\<lparr>db_entities := [sample_entity ''task'' ''t1'' []]\<rparr>) ''task:t1'' = ''task:t1''"
proof -
  let ?s = "empty_db\<lparr>db_entities := [sample_entity ''task'' ''t1'' []]\<rparr>"
  have "plain_names ?s" "entity_by_id ?s ''t1'' = Some (sample_entity ''task'' ''t1'' [])"
    by (simp_all add: plain_names_def entity_by_id_def sample_entity_def by_key_Cons)
  from bare_and_typed_agree [OF this, of 0 0 False] show ?thesis
    by (simp add: resolveEntityResourceDirect_def canonicalResource_def resolveEntityResource_def
        resolveEntityReference_def entity_by_id_def by_key_Cons sample_entity_def)
qed

text \<open>Without that condition names can collide: when one task has the id \<^verbatim>\<open>x\<close> and another the
  id \<^verbatim>\<open>task:x\<close>, the typed name of the first resolves to the second, so a lease taken on
  \<^verbatim>\<open>task:x\<close> is recorded on another resource than the one a write to \<^verbatim>\<open>x\<close> checks.\<close>

theorem typed_name_collision:
  "\<exists>s. distinct (map en_id (db_entities s)) \<and> entity_by_id s ''x'' \<noteq> None
    \<and> canonicalResource s ''x'' = ''task:x''
    \<and> canonicalResource s (canonicalResource s ''x'') = ''task:task:x''"
  by (rule exI [of _ "empty_db\<lparr>db_entities :=
        [sample_entity ''task'' ''x'' [], sample_entity ''task'' ''task:x'' []]\<rparr>"])
    (simp add: canonicalResource_def resolveEntityResource_def resolveEntityReference_def
      entity_by_id_def by_key_Cons sample_entity_def)

text \<open>Record resource names round trip: formatting and parsing are inverse on every record type
  without a slash, whatever the key, and parsing accepts formatted names only.\<close>

theorem record_resource_roundtrip:
  "parseRecordResource r = Some (ty, key) \<longleftrightarrow>
     r = formatRecordResource ty key \<and> CHR ''/'' \<notin> set ty"
proof
  assume "parseRecordResource r = Some (ty, key)"
  then have "take 7 r = ''record:''" and "split_at CHR ''/'' (drop 7 r) = Some (ty, key)"
    by (auto simp: parseRecordResource_def split: if_splits)
  with split_at_Some [OF this(2)] append_take_drop_id [of 7 r]
  show "r = formatRecordResource ty key \<and> CHR ''/'' \<notin> set ty"
    by (simp add: formatRecordResource_def)
next
  assume "r = formatRecordResource ty key \<and> CHR ''/'' \<notin> set ty"
  then show "parseRecordResource r = Some (ty, key)"
    using split_at_append [of "CHR ''/''" ty key]
    by (simp add: parseRecordResource_def formatRecordResource_def)
qed

end
