(* ===== verification/Idempotency.thy ===== *)
theory Idempotency
  imports Fences
begin

text \<open>
  Receipts: the interface every deduplicated write relies on, and the first of its three
  implementations, \<open>withDoIdempotency\<close> of \<^verbatim>\<open>packages/ops-sqlite/src/do-idempotency-ops.ts\<close>.
  The others are the command receipts of \<^verbatim>\<open>queue-internals.ts\<close> and of \<^verbatim>\<open>question-ops.ts\<close>.

  The locale states what a receipt store promises (a receipt with the same request is answered
  from the store, one with another request is refused, a miss runs the write and stores its
  result in the same transaction) and proves exactly-once execution from it.
\<close>

section \<open>The receipt interface\<close>

locale receipt_store =
  fixes run :: "'k \<Rightarrow> 'q \<Rightarrow> ('e, 's, 'v) tx \<Rightarrow> ('e, 's, 'v) tx"
    and lookup :: "'s \<Rightarrow> 'k \<Rightarrow> ('q \<times> 'v) option"
    and agrees :: "'q \<Rightarrow> 'q \<Rightarrow> bool"
    and clash :: "'k \<Rightarrow> 'e"
    and stored :: "'v \<Rightarrow> bool"
  assumes hit: "lookup s k = Some (p, v) \<Longrightarrow> agrees p q \<Longrightarrow> run k q m s = Inr (v, s)"
    and differs: "lookup s k = Some (p, v) \<Longrightarrow> \<not> agrees p q \<Longrightarrow> run k q m s = Inl (clash k)"
    and miss_error: "lookup s k = None \<Longrightarrow> m s = Inl e \<Longrightarrow> run k q m s = Inl e"
    and miss_stored: "lookup s k = None \<Longrightarrow> m s = Inr (v, s1) \<Longrightarrow> lookup s1 k = None \<Longrightarrow> stored v \<Longrightarrow>
        \<exists>s2. run k q m s = Inr (v, s2) \<and> lookup s2 k = Some (q, v)"
    and miss_unstored: "lookup s k = None \<Longrightarrow> m s = Inr (v, s1) \<Longrightarrow> \<not> stored v \<Longrightarrow>
        run k q m s = Inr (v, s1)"
    and agrees_refl: "agrees q q"
begin

definition misses :: "'k \<Rightarrow> ('e, 's, 'v) tx \<Rightarrow> bool" where
  "misses k m \<longleftrightarrow> (\<forall>s v s1. lookup s k = None \<longrightarrow> m s = Inr (v, s1) \<longrightarrow> lookup s1 k = None)"

lemma receipt_written:
  assumes "lookup s k = None" and "run k q m s = Inr (v, s1)" and "misses k m" and "stored v"
  shows "lookup s1 k = Some (q, v)"
proof (cases "m s")
  case (Inl e)
  with assms miss_error show ?thesis by fastforce
next
  case (Inr r)
  obtain w s0 where r: "r = (w, s0)" by (cases r)
  with Inr assms(1,3) have none: "lookup s0 k = None" by (auto simp: misses_def)
  note out = Inr [unfolded r]
  show ?thesis
  proof (cases "stored w")
    case True
    with miss_stored [of s k m w s0 q, OF assms(1) out none] assms(2) show ?thesis by fastforce
  next
    case False
    with miss_unstored [of s k m w s0 q, OF assms(1) out] assms(2,4) show ?thesis by fastforce
  qed
qed

text \<open>A receipt answers every later call with the same request, whatever happened in between, as
  long as the receipt is kept, and the answer changes nothing.\<close>

lemma replay:
  assumes "lookup s k = None" and "run k q m s = Inr (v, s1)" and "misses k m" and "stored v"
    and "lookup t k = lookup s1 k"
  shows "run k q m' t = Inr (v, t)"
  using receipt_written [OF assms(1-4)] assms(5) agrees_refl by (intro hit) auto

lemma conflict:
  assumes "lookup s k = None" and "run k q m s = Inr (v, s1)" and "misses k m" and "stored v"
    and "lookup t k = lookup s1 k" and "\<not> agrees q q'"
  shows "run k q' m' t = Inl (clash k)"
  using receipt_written [OF assms(1-4)] assms(5,6) by (intro differs) auto

text \<open>Exactly once: any number of retries leaves the state of the first run.\<close>

fun retries :: "nat \<Rightarrow> 'k \<Rightarrow> 'q \<Rightarrow> ('e, 's, 'v) tx \<Rightarrow> 's \<Rightarrow> 'e + ('v \<times> 's)" where
  "retries 0 k q m s = run k q m s"
| "retries (Suc n) k q m s =
    (case run k q m s of Inl e \<Rightarrow> Inl e | Inr (_, t) \<Rightarrow> retries n k q m t)"

lemma hit_retries:
  "lookup s k = Some (q, v) \<Longrightarrow> retries n k q m s = Inr (v, s)"
  by (induction n) (simp_all add: hit agrees_refl)

lemma exactly_once:
  assumes "lookup s k = None" and "run k q m s = Inr (v, s1)" and "misses k m" and "stored v"
  shows "retries n k q m s = Inr (v, s1)"
proof (cases n)
  case (Suc n')
  with assms hit_retries [OF receipt_written [OF assms]] show ?thesis by simp
qed (simp add: assms)

end

section \<open>Deduplication inside a Durable Object transaction\<close>

record 'a do_idempotency =
  ido_key :: string
  ido_request_hash :: "string option"
  ido_encode :: "'a \<Rightarrow> json"
  ido_decode :: "json \<Rightarrow> 'a"
  ido_shouldStore :: "'a \<Rightarrow> bool"

text \<open>\<open>ido_encode\<close> is \<open>JSON.stringify(serialize(result))\<close> and \<open>ido_decode\<close> the \<open>JSON.parse\<close> of a replay.
  A null stored hash matches every request.\<close>

definition hash_agrees :: "string option \<Rightarrow> string option \<Rightarrow> bool" where
  "hash_agrees stored requested = (stored = None \<or> stored = requested)"

definition di_lookup :: "db \<Rightarrow> string \<Rightarrow> do_idempotency_row option" where
  "di_lookup s key = by_key di_key key (db_do_idempotency s)"

definition di_insert :: "host \<Rightarrow> string \<Rightarrow> string option \<Rightarrow> json \<Rightarrow> db \<Rightarrow> db" where
  "di_insert h key requestHash serialized s =
    (case rows_insert di_key \<lparr>di_key = key, di_request_hash = requestHash, di_status_code = 200,
        di_response_json = serialized, di_created_at = date_now h\<rparr> (db_do_idempotency s) of
       None \<Rightarrow> s
     | Some t \<Rightarrow> s\<lparr>db_do_idempotency := t\<rparr>)"

definition withDoIdempotency ::
    "host \<Rightarrow> 'a do_idempotency option \<Rightarrow> 'a ptx \<Rightarrow> ('a \<times> bool) ptx" where
  "withDoIdempotency h idempotency compute = (case idempotency of
      None \<Rightarrow> tx_bind compute (\<lambda>result. tx_return (result, False))
    | Some i \<Rightarrow> tx_bind (tx_read (\<lambda>s. di_lookup s (ido_key i))) (\<lambda>existing. case existing of
          Some row \<Rightarrow>
            if hash_agrees (di_request_hash row) (ido_request_hash i)
            then tx_return (ido_decode i (di_response_json row), True)
            else tx_throw (DoIdempotencyConflictError (ido_key i))
        | None \<Rightarrow> tx_bind compute (\<lambda>result.
            if \<not> ido_shouldStore i result then tx_return (result, False)
            else tx_seq (tx_write (di_insert h (ido_key i) (ido_request_hash i) (ido_encode i result)))
              (tx_return (result, False)))))"

text \<open>The deduplicated write with its result alone, as the callers use it.\<close>

definition do_once :: "host \<Rightarrow> 'a do_idempotency option \<Rightarrow> 'a ptx \<Rightarrow> 'a ptx" where
  "do_once h idempotency compute =
     tx_bind (withDoIdempotency h idempotency compute) (\<lambda>r. tx_return (fst r))"

subsection \<open>It is a receipt store\<close>

definition di_receipt :: "(json \<Rightarrow> 'a) \<Rightarrow> db \<Rightarrow> string \<Rightarrow> (string option \<times> 'a) option" where
  "di_receipt dec s key =
     map_option (\<lambda>row. (di_request_hash row, dec (di_response_json row))) (di_lookup s key)"

definition do_ctx :: "('a \<Rightarrow> json) \<Rightarrow> (json \<Rightarrow> 'a) \<Rightarrow> ('a \<Rightarrow> bool) \<Rightarrow> string \<Rightarrow> string option \<Rightarrow>
    'a do_idempotency" where
  "do_ctx enc dec keep key hash = \<lparr>ido_key = key, ido_request_hash = hash, ido_encode = enc,
     ido_decode = dec, ido_shouldStore = keep\<rparr>"

lemma di_lookup_insert: "di_lookup s key = None \<Longrightarrow>
    di_lookup (di_insert h key hash j s) key =
      Some \<lparr>di_key = key, di_request_hash = hash, di_status_code = 200, di_response_json = j,
        di_created_at = date_now h\<rparr>"
proof -
  assume none: "di_lookup s key = None"
  then have "key \<notin> di_key ` set (db_do_idempotency s)" by (simp add: di_lookup_def by_key_None)
  with none show ?thesis
    by (simp add: di_lookup_def di_insert_def rows_insert_def by_key_append by_key_Cons)
qed

text \<open>The laws, for every codec whose decoder inverts its encoder: what the instances below use.\<close>

lemma do_once_hit:
  "di_receipt dec s k = Some (p, v) \<Longrightarrow> hash_agrees p q
    \<Longrightarrow> do_once h (Some (do_ctx enc dec keep k q)) m s = Inr (v, s)"
  by (auto simp: di_receipt_def do_once_def withDoIdempotency_def do_ctx_def tx_eval)

lemma do_once_differs:
  "di_receipt dec s k = Some (p, v) \<Longrightarrow> \<not> hash_agrees p q
    \<Longrightarrow> do_once h (Some (do_ctx enc dec keep k q)) m s = Inl (DoIdempotencyConflictError k)"
  by (auto simp: di_receipt_def do_once_def withDoIdempotency_def do_ctx_def tx_eval)

lemma do_once_error:
  "di_receipt dec s k = None \<Longrightarrow> m s = Inl e
    \<Longrightarrow> do_once h (Some (do_ctx enc dec keep k q)) m s = Inl e"
  by (auto simp: di_receipt_def do_once_def withDoIdempotency_def do_ctx_def tx_eval)

lemma do_once_unstored:
  "di_receipt dec s k = None \<Longrightarrow> m s = Inr (v, s1) \<Longrightarrow> \<not> keep v
    \<Longrightarrow> do_once h (Some (do_ctx enc dec keep k q)) m s = Inr (v, s1)"
  by (auto simp: di_receipt_def do_once_def withDoIdempotency_def do_ctx_def tx_eval)

lemma do_once_stored:
  assumes "\<And>v. dec (enc v) = v" "di_receipt dec s k = None" "m s = Inr (v, s1)"
    "di_receipt dec s1 k = None" "keep v"
  shows "\<exists>s2. do_once h (Some (do_ctx enc dec keep k q)) m s = Inr (v, s2)
    \<and> di_receipt dec s2 k = Some (q, v)"
  using assms
  by (simp add: di_receipt_def do_once_def withDoIdempotency_def do_ctx_def tx_eval di_lookup_insert)

lemma hash_agrees_refl: "hash_agrees q q"
  by (simp add: hash_agrees_def)

lemmas do_once_laws = do_once_hit do_once_differs do_once_error do_once_unstored do_once_stored
  hash_agrees_refl

lemma do_once_None [simp]: "do_once h None m = m"
  by (rule ext) (auto simp: do_once_def withDoIdempotency_def tx_eval split: sum.splits)

text \<open>What deduplication adds to a write: the dedup row and nothing else.\<close>

lemma tx_inv_do_once [tx_wp]:
  assumes "tx_inv I m" and "\<And>s t. I s \<Longrightarrow> I (s\<lparr>db_do_idempotency := t\<rparr>)"
  shows "tx_inv I (do_once h i m)"
proof -
  have w: "tx_inv I (tx_write (di_insert h k q j))" for k q j
    by (rule tx_inv_write) (auto simp: di_insert_def assms(2) split: option.split)
  show ?thesis
    unfolding do_once_def withDoIdempotency_def
    by (intro tx_wp assms(1) w)
qed

text \<open>A key that has been answered before, and the answer that a replay gives.\<close>

definition answered_before :: "'a do_idempotency option \<Rightarrow> db \<Rightarrow> bool" where
  "answered_before idem s = (case idem of None \<Rightarrow> False | Some i \<Rightarrow> di_lookup s (ido_key i) \<noteq> None)"

definition replays :: "'a do_idempotency option \<Rightarrow> db \<Rightarrow> 'a \<Rightarrow> bool" where
  "replays idem s x = (case idem of None \<Rightarrow> False
     | Some i \<Rightarrow> (case di_lookup s (ido_key i) of None \<Rightarrow> False
         | Some row \<Rightarrow> hash_agrees (di_request_hash row) (ido_request_hash i) \<and> x = ido_decode i (di_response_json row)))"

lemma do_once_once:
  assumes "do_once h idem m s = Inr (x, s')"
  obtains (replayed) "answered_before idem s" "replays idem s x" "s' = s"
    | (fresh) s1 t where "\<not> answered_before idem s" "m s = Inr (x, s1)" "s' = s1\<lparr>db_do_idempotency := t\<rparr>"
proof (cases "answered_before idem s")
  case True
  with assms show thesis
    by (intro replayed) (auto simp: answered_before_def replays_def do_once_def withDoIdempotency_def tx_run
        split: option.splits if_splits)
next
  case False
  have ins: "\<exists>t. di_insert h k q j s1 = s1\<lparr>db_do_idempotency := t\<rparr>" for k q j and s1 :: db
    by (auto simp: di_insert_def intro: exI [of _ "db_do_idempotency s1"] split: option.split)
  have "\<exists>s1. m s = Inr (x, s1) \<and> (s' = s1\<lparr>db_do_idempotency := db_do_idempotency s1\<rparr>
      \<or> (\<exists>k q j. s' = di_insert h k q j s1))"
    using False assms unfolding answered_before_def do_once_def withDoIdempotency_def
    by (auto simp: tx_run split: option.splits if_splits)
  with ins False show thesis by (metis fresh)
qed

end
