(* ===== verification/Managed_Work.thy ===== *)
theory Managed_Work
  imports Idempotency
begin

text \<open>
  \<^verbatim>\<open>packages/ops-sqlite/src/managed-work.ts\<close>: while a task is enrolled in the queue its claim,
  its archival and its lifecycle field are out of reach of ordinary writers. The lemmas give the
  exact conditions under which each guard lets an operation through.
\<close>

section \<open>Comparison of JSON values as JavaScript does it\<close>

text \<open>\<open>a === b\<close> on two parsed documents: objects and arrays are never the same reference.\<close>

fun js_identical :: "json \<Rightarrow> json option \<Rightarrow> bool" where
  "js_identical JNull w = (w = Some JNull)"
| "js_identical (JBool b) w = (w = Some (JBool b))"
| "js_identical (JNum n) w = (w = Some (JNum n))"
| "js_identical (JStr s) w = (w = Some (JStr s))"
| "js_identical (JArr xs) w = False"
| "js_identical (JObj ob) w = False"

text \<open>\<open>String(v)\<close>; an array prints its elements joined by commas, a null element as nothing.\<close>

fun js_string :: "json \<Rightarrow> string" where
  "js_string JNull = ''null''"
| "js_string (JBool b) = (if b then ''true'' else ''false'')"
| "js_string (JNum n) = int_str n"
| "js_string (JStr s) = s"
| "js_string (JArr xs) = join_with CHR '','' (map (\<lambda>x. if x = JNull then [] else js_string x) xs)"
| "js_string (JObj ob) = ''[object Object]''"

lemma js_identical_iff: "js_identical v w \<Longrightarrow> w = Some v"
  by (cases v) auto

section \<open>Guards\<close>

definition live_entry :: "queue_entry \<Rightarrow> bool" where
  "live_entry e = (qe_state e = Queued \<or> qe_state e = Admitted)"

definition isManagedTask :: "db \<Rightarrow> string \<Rightarrow> bool" where
  "isManagedTask s i =
     (row_find (\<lambda>e. qe_task_id e = i \<and> live_entry e) (db_queue_entries s) \<noteq> None)"

definition assertUnmanagedClaim :: "string \<Rightarrow> unit ptx" where
  "assertUnmanagedClaim resource = tx_bind (tx_read (\<lambda>s. resolveEntityReference s resource)) (\<lambda>task.
     case task of
       None \<Rightarrow> tx_return ()
     | Some (i, _) \<Rightarrow> tx_bind (tx_read (\<lambda>s. isManagedTask s i)) (\<lambda>managed.
         tx_guard (\<not> managed) (queue_error Queue_managed_work)))"

definition assertUnmanagedArchive :: "string \<Rightarrow> unit ptx" where
  "assertUnmanagedArchive i = tx_bind (tx_read (\<lambda>s. isManagedTask s i)) (\<lambda>managed.
     tx_guard (\<not> managed) (queue_error Queue_managed_work))"

definition working_attempt :: "db \<Rightarrow> string \<Rightarrow> work_attempt option" where
  "working_attempt s i =
     row_find (\<lambda>a. wa_task_id a = i \<and> wa_state a \<in> {Reserved, Starting, Running}) (db_work_attempts s)"

definition owned_by :: "request_origin \<Rightarrow> int \<Rightarrow> int \<Rightarrow> work_attempt \<Rightarrow> claim_row \<Rightarrow> bool" where
  "owned_by orig fence now a c =
    (wa_fence a = fence \<and> wa_principal_id a = or_principalId orig
     \<and> wa_participant_id a = or_participantId orig
     \<and> (case wa_lease_expires_at a of None \<Rightarrow> False | Some t \<Rightarrow> now < t)
     \<and> cl_fence c = fence \<and> now < cl_expires_at c
     \<and> cl_principal_id c = or_principalId orig \<and> cl_participant_id c = or_participantId orig)"

definition checkManagedWrite ::
    "host \<Rightarrow> string \<Rightarrow> jobj \<Rightarrow> int \<Rightarrow> request_origin \<Rightarrow> int \<Rightarrow> string option \<Rightarrow> db \<Rightarrow> error + bool" where
  "checkManagedWrite h i data fence orig now internalAttemptId s =
    (if \<not> isManagedTask s i then Inr False
     else case entity_by_id s i of
       None \<Rightarrow> Inl (queue_error Queue_managed_work)
     | Some task \<Rightarrow> (case resolveCurrentSchema h s of
         Inl e \<Rightarrow> Inl e
       | Inr sch \<Rightarrow> (case lifecycle_of sch (en_type task) of
           None \<Rightarrow> Inl (queue_error Queue_managed_work)
         | Some lc \<Rightarrow> (case obj_get (lc_field lc) data of
             None \<Rightarrow> Inr (fence = 0)
           | Some v \<Rightarrow>
             if js_identical v (obj_get (lc_field lc) (en_data task)) then Inr (fence = 0)
             else
               (case (working_attempt s i, lookupClaim s (en_type task @ '':'' @ i)) of
                 (Some a, Some c) \<Rightarrow>
                   if owned_by orig fence now a c
                      \<and> (internalAttemptId = Some (wa_id a)
                         \<or> wa_accepted_at a \<noteq> None \<and> js_string v \<notin> set (lc_terminal lc))
                   then Inr False else Inl (queue_error Queue_managed_work)
               | _ \<Rightarrow> Inl (queue_error Queue_managed_work))))))"

section \<open>Facts\<close>

lemma isManagedTask_iff:
  "isManagedTask s i \<longleftrightarrow> (\<exists>e \<in> set (db_queue_entries s). qe_task_id e = i \<and> live_entry e)"
  unfolding isManagedTask_def row_find_None by blast

lemma assertUnmanagedClaim_ok [simp]:
  "assertUnmanagedClaim resource s = Inr (u, s') \<longleftrightarrow> s' = s \<and>
     (\<forall>i c. resolveEntityReference s resource = Some (i, c) \<longrightarrow> \<not> isManagedTask s i)"
  by (auto simp: assertUnmanagedClaim_def tx_bind_ok split: option.splits)

lemma assertUnmanagedArchive_ok [simp]:
  "assertUnmanagedArchive i s = Inr (u, s') \<longleftrightarrow> s' = s \<and> \<not> isManagedTask s i"
  by (auto simp: assertUnmanagedArchive_def tx_bind_ok)

lemma tx_inv_assertUnmanagedClaim [tx_wp]: "tx_inv I (assertUnmanagedClaim r)"
  by (rule tx_validI) simp

lemma tx_inv_assertUnmanagedArchive [tx_wp]: "tx_inv I (assertUnmanagedArchive i)"
  by (rule tx_validI) simp

lemma working_attempt_Some: "working_attempt s i = Some a \<Longrightarrow>
    a \<in> set (db_work_attempts s) \<and> wa_task_id a = i \<and> wa_state a \<in> {Reserved, Starting, Running}"
  unfolding working_attempt_def by (drule row_find_Some) simp

text \<open>A lifecycle change of a managed task passes only under a live attempt, lease and claim of the
  writer at the given fence; a terminal state never passes from outside the runtime.\<close>

lemma checkManagedWrite_change:
  assumes "checkManagedWrite h i data fence orig now internal s = Inr b"
    and "isManagedTask s i" and "entity_by_id s i = Some task"
    and "resolveCurrentSchema h s = Inr sch" and "lifecycle_of sch (en_type task) = Some lc"
    and "obj_get (lc_field lc) data = Some v"
    and "\<not> js_identical v (obj_get (lc_field lc) (en_data task))"
  shows "\<exists>a c. working_attempt s i = Some a \<and> lookupClaim s (en_type task @ '':'' @ i) = Some c \<and>
    owned_by orig fence now a c \<and> (internal \<noteq> Some (wa_id a) \<longrightarrow>
      wa_accepted_at a \<noteq> None \<and> js_string v \<notin> set (lc_terminal lc))"
  using assms by (auto simp: checkManagedWrite_def split: option.splits if_splits)

end
