(* ===== verification/Coordination.thy ===== *)
theory Coordination
  imports Managed_Work
begin

text \<open>
  Leases: \<^verbatim>\<open>packages/ops-sqlite/src/coordination-ops.ts\<close>. A claim is the lease one participant
  holds on a resource, a fence the counter that invalidates the writers of earlier leases.

  The lemmas give the outcome of every branch of \<open>acquireInTransaction\<close>, \<open>doRenew\<close> and
  \<open>doRelease\<close>; the locale \<open>fence_authority\<close> states what fenced writers rely on (fences never
  fall, only the current fence is admitted) and proves that a fence once passed is dead for good.
  \<open>coord_step\<close> is the relation of all coordination operations, at any time and by anyone.
\<close>

section \<open>Operations\<close>

record acquire_result =
  aq_acquired :: bool
  aq_fence :: int
  aq_expires_at :: int
  aq_participant_id :: string

definition refused :: "claim_row \<Rightarrow> request_origin \<Rightarrow> acquire_result" where
  "refused existing orig = \<lparr>aq_acquired = False, aq_fence = cl_fence existing, aq_expires_at = 0,
     aq_participant_id = or_participantId orig\<rparr>"

definition held_by :: "request_origin \<Rightarrow> claim_row \<Rightarrow> bool" where
  "held_by orig c = (cl_principal_id c = or_principalId orig
     \<and> cl_participant_id c = or_participantId orig)"

text \<open>\<open>INSERT INTO fences ... ON CONFLICT DO UPDATE SET current_fence = current_fence + 1\<close>.\<close>

definition bump_fence :: "string \<Rightarrow> db \<Rightarrow> db" where
  "bump_fence resource s = s\<lparr>db_fences := rows_upsert fe_resource
     \<lparr>fe_resource = resource, fe_current_fence = 1\<rparr>
     (\<lambda>f. f\<lparr>fe_current_fence := fe_current_fence f + 1\<rparr>) (db_fences s)\<rparr>"

definition set_expiry :: "string \<Rightarrow> int \<Rightarrow> db \<Rightarrow> db" where
  "set_expiry resource t s = s\<lparr>db_claims := rows_set (\<lambda>c. cl_resource c = resource)
     (\<lambda>c. c\<lparr>cl_expires_at := t\<rparr>) (db_claims s)\<rparr>"

definition drop_claim :: "string \<Rightarrow> db \<Rightarrow> db" where
  "drop_claim resource s =
     s\<lparr>db_claims := rows_delete (\<lambda>c. cl_resource c = resource) (db_claims s)\<rparr>"

definition add_claim :: "claim_row \<Rightarrow> db \<Rightarrow> db" where
  "add_claim c s = s\<lparr>db_claims := db_claims s @ [c]\<rparr>"

definition fresh_claim ::
    "host \<Rightarrow> string \<Rightarrow> request_origin \<Rightarrow> claim_mode \<Rightarrow> int \<Rightarrow> jobj \<Rightarrow> int \<Rightarrow> acquire_result ptx" where
  "fresh_claim h resource orig mode ttlMs metadata now =
     tx_seq (tx_write (bump_fence resource))
     (tx_bind (tx_read (\<lambda>s. case lookupFence s resource of
          Some f \<Rightarrow> fe_current_fence f | None \<Rightarrow> 1)) (\<lambda>newFence.
      tx_seq (tx_write (drop_claim resource))
     (tx_seq (tx_write (add_claim \<lparr>cl_resource = resource, cl_principal_id = or_principalId orig,
          cl_participant_id = or_participantId orig, cl_environment = or_environment orig,
          cl_mode = mode, cl_fence = newFence, cl_acquired_at = now, cl_expires_at = now + ttlMs,
          cl_metadata = metadata\<rparr>))
     (tx_seq (appendJournal h ''claim.acquired'' resource orig (Some newFence) [])
     (tx_return \<lparr>aq_acquired = True, aq_fence = newFence, aq_expires_at = now + ttlMs,
          aq_participant_id = or_participantId orig\<rparr>)))))"

definition acquireInTransaction ::
    "host \<Rightarrow> string \<Rightarrow> request_origin \<Rightarrow> claim_mode \<Rightarrow> int \<Rightarrow> jobj \<Rightarrow> int \<Rightarrow> acquire_result ptx" where
  "acquireInTransaction h resource orig mode ttlMs metadata now =
    tx_bind (tx_read (\<lambda>s. canonicalResource s resource)) (\<lambda>canonical.
    tx_bind (tx_read (\<lambda>s. lookupClaim s canonical)) (\<lambda>existing.
      case existing of
        Some e \<Rightarrow>
          if now < cl_expires_at e then
            (if held_by orig e then
               tx_seq (tx_write (set_expiry canonical (now + ttlMs)))
                 (tx_return \<lparr>aq_acquired = True, aq_fence = cl_fence e,
                    aq_expires_at = now + ttlMs, aq_participant_id = or_participantId orig\<rparr>)
             else if cl_mode e = Exclusive \<or> mode = Exclusive then tx_return (refused e orig)
             else if mode = Owner \<and> cl_principal_id e \<noteq> or_principalId orig
               then tx_return (refused e orig)
             else fresh_claim h canonical orig mode ttlMs metadata now)
          else fresh_claim h canonical orig mode ttlMs metadata now
      | None \<Rightarrow> fresh_claim h canonical orig mode ttlMs metadata now))"

definition acquire ::
    "host \<Rightarrow> string \<Rightarrow> request_origin \<Rightarrow> claim_mode \<Rightarrow> int \<Rightarrow> jobj \<Rightarrow> int
      \<Rightarrow> acquire_result do_idempotency option \<Rightarrow> acquire_result op" where
  "acquire h resource orig mode ttlMs metadata now idempotency = commit
     (tx_seq (assertUnmanagedClaim resource)
       (do_once h (map_option (\<lambda>i. i\<lparr>ido_shouldStore := aq_acquired\<rparr>) idempotency)
         (acquireInTransaction h resource orig mode ttlMs metadata now)))"

record renew_result =
  rn_renewed :: bool
  rn_expires_at :: int

definition doRenew :: "host \<Rightarrow> string \<Rightarrow> request_origin \<Rightarrow> int \<Rightarrow> int \<Rightarrow> int \<Rightarrow> renew_result ptx" where
  "doRenew h resource orig fence ttlMs now =
    tx_bind (tx_read (\<lambda>s. canonicalResource s resource)) (\<lambda>canonical.
    tx_bind (tx_read (\<lambda>s. lookupClaim s canonical)) (\<lambda>claim.
      case claim of
        None \<Rightarrow> tx_return \<lparr>rn_renewed = False, rn_expires_at = 0\<rparr>
      | Some c \<Rightarrow>
          if cl_expires_at c \<le> now \<or> \<not> held_by orig c
          then tx_return \<lparr>rn_renewed = False, rn_expires_at = 0\<rparr>
          else tx_bind (tx_read (\<lambda>s. lookupFence s canonical)) (\<lambda>fenceRow.
            case fenceRow of
              None \<Rightarrow> tx_throw (FenceNotFoundError resource)
            | Some f \<Rightarrow>
                tx_seq (tx_lift (assertFence (fe_current_fence f) fence))
               (tx_seq (tx_write (set_expiry canonical (now + ttlMs)))
               (tx_seq (appendJournal h ''claim.renewed'' canonical orig (Some fence) [])
               (tx_return \<lparr>rn_renewed = True, rn_expires_at = now + ttlMs\<rparr>))))))"

definition renew ::
    "host \<Rightarrow> string \<Rightarrow> request_origin \<Rightarrow> int \<Rightarrow> int \<Rightarrow> int \<Rightarrow> renew_result do_idempotency option
      \<Rightarrow> renew_result op" where
  "renew h resource orig fence ttlMs now idempotency = commit
     (tx_seq (assertUnmanagedClaim resource)
       (do_once h (map_option (\<lambda>i. i\<lparr>ido_shouldStore := rn_renewed\<rparr>) idempotency)
         (doRenew h resource orig fence ttlMs now)))"

definition doRelease :: "host \<Rightarrow> string \<Rightarrow> int \<Rightarrow> request_origin \<Rightarrow> bool ptx" where
  "doRelease h resource fence orig =
    tx_bind (tx_read (\<lambda>s. canonicalResource s resource)) (\<lambda>canonical.
    tx_bind (tx_read (\<lambda>s. lookupClaim s canonical)) (\<lambda>claimRow.
      case claimRow of
        None \<Rightarrow> tx_return False
      | Some c \<Rightarrow>
          tx_seq (tx_guard (held_by orig c) (ClaimOwnershipError resource))
         (tx_bind (tx_read (\<lambda>s. lookupFence s canonical)) (\<lambda>fenceRow.
            case fenceRow of
              None \<Rightarrow> tx_return False
            | Some f \<Rightarrow>
                tx_seq (tx_lift (assertFence (fe_current_fence f) fence))
               (tx_seq (tx_write (drop_claim canonical))
               (tx_seq (appendJournal h ''claim.released'' canonical orig (Some fence) [])
               (tx_return True)))))))"

definition release ::
    "host \<Rightarrow> string \<Rightarrow> int \<Rightarrow> request_origin \<Rightarrow> bool do_idempotency option \<Rightarrow> unit op" where
  "release h resource fence orig idempotency = commit
     (tx_seq (assertUnmanagedClaim resource)
       (tx_bind (do_once h (map_option (\<lambda>i. i\<lparr>ido_shouldStore := (\<lambda>r. r)\<rparr>) idempotency)
         (doRelease h resource fence orig)) (\<lambda>_. tx_return ())))"

definition claim_state :: "db \<Rightarrow> string \<Rightarrow> int \<Rightarrow> claim_row option" where
  "claim_state s resource now = (case lookupClaim s (canonicalResource s resource) of
      None \<Rightarrow> None
    | Some c \<Rightarrow> if cl_expires_at c \<le> now then None else Some c)"

definition listClaims :: "db \<Rightarrow> int \<Rightarrow> claim_row list" where
  "listClaims s now = filter (\<lambda>c. now < cl_expires_at c) (db_claims s)"

definition countExpiredClaims :: "db \<Rightarrow> int \<Rightarrow> nat" where
  "countExpiredClaims s now = length (filter (\<lambda>c. cl_expires_at c \<le> now) (db_claims s))"

definition presence_key :: "presence_row \<Rightarrow> string \<times> string" where
  "presence_key p = (pr_principal_id p, pr_participant_id p)"

definition heartbeat :: "request_origin \<Rightarrow> jobj \<Rightarrow> int \<Rightarrow> db \<Rightarrow> db" where
  "heartbeat orig info now s = s\<lparr>db_presence := rows_upsert presence_key
     \<lparr>pr_principal_id = or_principalId orig, pr_participant_id = or_participantId orig,
       pr_environment = or_environment orig, pr_last_seen = now, pr_info = info\<rparr>
     (\<lambda>p. p\<lparr>pr_environment := or_environment orig, pr_last_seen := now, pr_info := info\<rparr>)
     (db_presence s)\<rparr>"

definition listPresence :: "db \<Rightarrow> int \<Rightarrow> int \<Rightarrow> presence_row list" where
  "listPresence s ttlMs now = filter (\<lambda>p. now - ttlMs < pr_last_seen p) (db_presence s)"

definition listAllPresence :: "db \<Rightarrow> int \<Rightarrow> int \<Rightarrow> (presence_row \<times> bool) list" where
  "listAllPresence s ttlMs now = map (\<lambda>p. (p, now - ttlMs < pr_last_seen p)) (db_presence s)"

section \<open>Fences never fall\<close>

definition fence_of :: "db \<Rightarrow> string \<Rightarrow> int" where
  "fence_of s resource = (case lookupFence s resource of None \<Rightarrow> 0 | Some f \<Rightarrow> fe_current_fence f)"

text \<open>What a fenced writer relies on: an admission test that accepts the current fence only, and
  steps of the system that never lower a fence. Then a fence that was once passed stays dead.\<close>

locale fence_authority =
  fixes step :: "'s \<Rightarrow> 's \<Rightarrow> bool"
    and fence :: "'s \<Rightarrow> 'r \<Rightarrow> int"
    and admits :: "'s \<Rightarrow> 'r \<Rightarrow> int \<Rightarrow> bool"
  assumes step_mono: "step s t \<Longrightarrow> fence s r \<le> fence t r"
    and admits_current: "admits s r f \<Longrightarrow> f = fence s r"
begin

lemma steps_mono: "step\<^sup>*\<^sup>* s t \<Longrightarrow> fence s r \<le> fence t r"
  by (induction rule: rtranclp_induct) (auto intro: order_trans step_mono)

lemma passed_fence_dead:
  assumes "step\<^sup>*\<^sup>* s t" and "f < fence s r"
  shows "\<not> admits t r f"
  using assms(2) steps_mono [OF assms(1), of r] by (auto dest: admits_current)

lemma admitted_bounds:
  assumes "step\<^sup>*\<^sup>* s t" and "admits s r f" and "admits t r g"
  shows "f \<le> g"
  using steps_mono [OF assms(1), of r] assms(2,3) by (auto dest: admits_current)

end

lemma lookupFence_bump: "lookupFence (bump_fence c s) r =
    (if r = c then Some (case lookupFence s c of
        None \<Rightarrow> \<lparr>fe_resource = c, fe_current_fence = 1\<rparr>
      | Some f \<Rightarrow> f\<lparr>fe_current_fence := fe_current_fence f + 1\<rparr>) else lookupFence s r)"
  by (simp add: lookupFence_def bump_fence_def by_key_upsert)

lemma fence_of_bump: "fence_of (bump_fence c s) r = (if r = c then fence_of s c + 1 else fence_of s r)"
  by (simp add: fence_of_def lookupFence_bump split: option.split)

lemma fence_of_frame [simp]:
  "fence_of (set_expiry c t s) r = fence_of s r"
  "fence_of (drop_claim c s) r = fence_of s r"
  "fence_of (add_claim k s) r = fence_of s r"
  "fence_of (s\<lparr>db_journal_seq := n, db_journal := js\<rparr>) r = fence_of s r"
  "fence_of (s\<lparr>db_do_idempotency := t'\<rparr>) r = fence_of s r"
  by (simp_all add: fence_of_def lookupFence_def set_expiry_def drop_claim_def add_claim_def)

lemma lookupClaim_set_expiry: "lookupClaim (set_expiry c t s) r =
    (if r = c then map_option (\<lambda>k. k\<lparr>cl_expires_at := t\<rparr>) (lookupClaim s r) else lookupClaim s r)"
  by (cases "by_key cl_resource r (db_claims s)")
    (auto simp: lookupClaim_def set_expiry_def by_key_set dest: by_key_Some)

lemma lookupClaim_ops:
  "lookupClaim (bump_fence c s) r = lookupClaim s r"
  "lookupClaim (drop_claim c s) r = (if r = c then None else lookupClaim s r)"
  "lookupClaim (add_claim k s) r = (case lookupClaim s r of
      None \<Rightarrow> if cl_resource k = r then Some k else None | Some y \<Rightarrow> Some y)"
  "lookupClaim (s\<lparr>db_journal_seq := n, db_journal := js\<rparr>) r = lookupClaim s r"
  "lookupClaim (s\<lparr>db_do_idempotency := t'\<rparr>) r = lookupClaim s r"
  by (simp_all add: lookupClaim_def bump_fence_def drop_claim_def add_claim_def
      by_key_delete_key by_key_append by_key_Cons split: option.split)

text \<open>The result and effect of a fresh acquisition.\<close>

lemma fresh_claim_run:
  assumes "fresh_claim h c orig mode ttlMs md now s = Inr (r, s')"
  shows "aq_acquired r" and "aq_fence r = fence_of s c + 1" and "aq_expires_at r = now + ttlMs"
    and "fence_of s' x = (if x = c then fence_of s c + 1 else fence_of s x)"
    and "lookupClaim s' x = (if x = c then Some \<lparr>cl_resource = c,
          cl_principal_id = or_principalId orig, cl_participant_id = or_participantId orig,
          cl_environment = or_environment orig, cl_mode = mode, cl_fence = fence_of s c + 1,
          cl_acquired_at = now, cl_expires_at = now + ttlMs, cl_metadata = md\<rparr>
        else lookupClaim s x)"
proof -
  have "(case lookupFence (bump_fence c s) c of Some f \<Rightarrow> fe_current_fence f | None \<Rightarrow> 1)
      = fence_of s c + 1"
    by (simp add: lookupFence_bump fence_of_def split: option.split)
  with assms show "aq_acquired r" "aq_fence r = fence_of s c + 1" "aq_expires_at r = now + ttlMs"
    "fence_of s' x = (if x = c then fence_of s c + 1 else fence_of s x)"
    "lookupClaim s' x = (if x = c then Some \<lparr>cl_resource = c,
          cl_principal_id = or_principalId orig, cl_participant_id = or_participantId orig,
          cl_environment = or_environment orig, cl_mode = mode, cl_fence = fence_of s c + 1,
          cl_acquired_at = now, cl_expires_at = now + ttlMs, cl_metadata = md\<rparr>
        else lookupClaim s x)"
    by (auto simp: fresh_claim_def tx_run appendJournal_def fence_of_bump lookupClaim_ops
        split: option.split)
qed

section \<open>Outcomes of the operations\<close>

lemma acquire_cases:
  assumes "acquireInTransaction h resource orig mode ttlMs md now s = Inr (r, s')"
    and "c = canonicalResource s resource"
  obtains (refused) e where "lookupClaim s c = Some e" "now < cl_expires_at e" "\<not> held_by orig e"
      "r = refused e orig" "s' = s"
    | (reacquired) e where "lookupClaim s c = Some e" "now < cl_expires_at e" "held_by orig e"
      "s' = set_expiry c (now + ttlMs) s" "aq_acquired r" "aq_fence r = cl_fence e"
      "aq_expires_at r = now + ttlMs"
    | (fresh) "fresh_claim h c orig mode ttlMs md now s = Inr (r, s')"
      "\<And>e. lookupClaim s c = Some e \<Longrightarrow> now < cl_expires_at e \<Longrightarrow>
         \<not> held_by orig e \<and> cl_mode e \<noteq> Exclusive \<and> mode \<noteq> Exclusive"
  using assms by (auto simp: acquireInTransaction_def tx_run split: option.splits if_splits)

lemma doRenew_cases:
  assumes "doRenew h resource orig fence ttlMs now s = Inr (r, s')"
    and "c = canonicalResource s resource"
  obtains (idle) "s' = s" "\<not> rn_renewed r"
    | (renewed) k js n where "lookupClaim s c = Some k" "now < cl_expires_at k" "held_by orig k"
      "fence_of s c = fence" "lookupFence s c \<noteq> None" "rn_renewed r"
      "s' = (set_expiry c (now + ttlMs) s)\<lparr>db_journal_seq := n, db_journal := js\<rparr>"
proof -
  consider "s' = s \<and> \<not> rn_renewed r" | k f where "lookupClaim s c = Some k" "now < cl_expires_at k"
      "held_by orig k" "lookupFence s c = Some f" "fe_current_fence f = fence" "rn_renewed r"
      "appendJournal h ''claim.renewed'' c orig (Some fence) [] (set_expiry c (now + ttlMs) s)
        = Inr ((), s')"
    using assms by (auto simp: doRenew_def tx_run split: option.splits if_splits)
  then show thesis
  proof cases
    case 1
    then show thesis by (intro idle) simp_all
  next
    case 2
    then show thesis by (intro renewed) (auto simp: fence_of_def appendJournal_def)
  qed
qed

lemma doRelease_cases:
  assumes "doRelease h resource fence orig s = Inr (r, s')" and "c = canonicalResource s resource"
  obtains (idle) "s' = s" "\<not> r"
    | (released) k js n where "lookupClaim s c = Some k" "held_by orig k" "fence_of s c = fence"
      "lookupFence s c \<noteq> None" "r" "s' = (drop_claim c s)\<lparr>db_journal_seq := n, db_journal := js\<rparr>"
proof -
  consider "s' = s \<and> \<not> r" | k f where "lookupClaim s c = Some k"
      "held_by orig k" "lookupFence s c = Some f" "fe_current_fence f = fence" "r"
      "appendJournal h ''claim.released'' c orig (Some fence) [] (drop_claim c s) = Inr ((), s')"
    using assms by (auto simp: doRelease_def tx_run split: option.splits if_splits)
  then show thesis
  proof cases
    case 1
    then show thesis by (intro idle) simp_all
  next
    case 2
    then show thesis by (intro released) (auto simp: fence_of_def appendJournal_def)
  qed
qed

text \<open>What a deduplicated write leaves: the state of the write, of the replay, and the dedup row.\<close>

lemma do_once_cases:
  assumes "do_once h i m s = Inr (r, s')"
  obtains (replay) "s' = s" | (ran) s1 where "m s = Inr (r, s1)" "s' = s1"
    | (stored) s1 t where "m s = Inr (r, s1)" "s' = s1\<lparr>db_do_idempotency := t\<rparr>"
proof -
  have ins: "\<exists>t. di_insert h k q j s1 = s1\<lparr>db_do_idempotency := t\<rparr>" for k q j and s1 :: db
    by (cases "rows_insert di_key \<lparr>di_key = k, di_request_hash = q, di_status_code = 200,
        di_response_json = j, di_created_at = date_now h\<rparr> (db_do_idempotency s1)")
      (auto simp: di_insert_def intro: exI [of _ "db_do_idempotency s1"])
  have "s' = s \<or> (\<exists>s1. m s = Inr (r, s1) \<and>
      (s' = s1 \<or> (\<exists>k q j. s' = di_insert h k q j s1)))"
    using assms unfolding do_once_def withDoIdempotency_def
    by (auto simp: tx_run split: option.splits if_splits)
  with ins show thesis by (metis replay ran stored)
qed

lemma commit_unmanaged:
  assumes "\<And>i c. resolveEntityReference s resource = Some (i, c) \<Longrightarrow> \<not> isManagedTask s i"
  shows "commit (tx_seq (assertUnmanagedClaim resource) m) s = commit m s"
proof -
  have "assertUnmanagedClaim resource s = Inr ((), s)" using assms by simp
  then show ?thesis by (simp add: commit_def)
qed

lemma unmanaged_run:
  assumes "\<And>i c. resolveEntityReference s resource = Some (i, c) \<Longrightarrow> \<not> isManagedTask s i"
  shows "acquire h resource orig mode ttlMs md now None s =
      commit (acquireInTransaction h resource orig mode ttlMs md now) s"
    and "renew h resource orig fence ttlMs now None s = commit (doRenew h resource orig fence ttlMs now) s"
  using assms by (simp_all add: acquire_def renew_def commit_unmanaged)

section \<open>All coordination steps\<close>

inductive coord_step :: "int \<Rightarrow> request_origin \<Rightarrow> db \<Rightarrow> db \<Rightarrow> bool" for now orig where
  step_acquire: "acquire h resource orig mode ttlMs md now i s = (s', r) \<Longrightarrow> coord_step now orig s s'"
| step_renew: "renew h resource orig fence ttlMs now i s = (s', r) \<Longrightarrow> coord_step now orig s s'"
| step_release: "release h resource fence orig i s = (s', r') \<Longrightarrow> coord_step now orig s s'"
| step_heartbeat: "coord_step now orig s (heartbeat orig info now s)"

text \<open>The effect of a step on claims and fences: nothing, or one of the primitive writes at one
  resource. Every property of the steps rests on this case distinction.\<close>

inductive lease_effect :: "int \<Rightarrow> request_origin \<Rightarrow> string \<Rightarrow> db \<Rightarrow> db \<Rightarrow> bool" for now orig c s where
  keep: "lease_effect now orig c s s"
| extend_own: "lookupClaim s c = Some k \<Longrightarrow> held_by orig k \<Longrightarrow> now < cl_expires_at k \<Longrightarrow>
    lease_effect now orig c s (set_expiry c t s)"
| drop_own: "lookupClaim s c = Some k \<Longrightarrow> held_by orig k \<Longrightarrow>
    lease_effect now orig c s (drop_claim c s)"
| take: "fresh_claim h c orig mode ttlMs md now s = Inr (r, s') \<Longrightarrow>
    (\<And>e. lookupClaim s c = Some e \<Longrightarrow> now < cl_expires_at e \<Longrightarrow> cl_mode e \<noteq> Exclusive) \<Longrightarrow>
    lease_effect now orig c s s'"

definition same_leases :: "db \<Rightarrow> db \<Rightarrow> bool" where
  "same_leases s t \<longleftrightarrow> db_claims s = db_claims t \<and> db_fences s = db_fences t"

lemma same_leases_lookup:
  "same_leases s t \<Longrightarrow> lookupClaim s r = lookupClaim t r"
  "same_leases s t \<Longrightarrow> lookupFence s r = lookupFence t r"
  "same_leases s t \<Longrightarrow> fence_of s r = fence_of t r"
  by (simp_all add: same_leases_def lookupClaim_def lookupFence_def fence_of_def)

lemma same_leases_simps [simp]:
  "same_leases s s"
  "same_leases (s\<lparr>db_journal_seq := n, db_journal := js\<rparr>) s"
  "same_leases (s\<lparr>db_do_idempotency := t\<rparr>) s"
  "same_leases (s\<lparr>db_journal_seq := n, db_journal := js, db_do_idempotency := t\<rparr>) s"
  "same_leases (s\<lparr>db_presence := ps\<rparr>) s"
  by (simp_all add: same_leases_def)

definition effects :: "int \<Rightarrow> request_origin \<Rightarrow> db \<Rightarrow> db \<Rightarrow> bool" where
  "effects now orig s s' \<longleftrightarrow> (\<exists>c t. lease_effect now orig c s t \<and> same_leases s' t)"

lemma effects_keep [intro]: "same_leases s' s \<Longrightarrow> effects now orig s s'"
  by (auto simp: effects_def intro: lease_effect.keep)

lemma acquire_effects:
  assumes "acquireInTransaction h resource orig mode ttlMs md now s = Inr (r, s')"
  shows "effects now orig s s'"
  using assms
proof (rule acquire_cases [OF _ refl])
  assume "fresh_claim h (canonicalResource s resource) orig mode ttlMs md now s = Inr (r, s')"
    and "\<And>e. lookupClaim s (canonicalResource s resource) = Some e \<Longrightarrow> now < cl_expires_at e \<Longrightarrow>
         \<not> held_by orig e \<and> cl_mode e \<noteq> Exclusive \<and> mode \<noteq> Exclusive"
  then show ?thesis unfolding effects_def by (blast intro: lease_effect.take same_leases_simps(1))
qed (auto simp: effects_def intro: lease_effect.extend_own lease_effect.keep same_leases_simps(1))

lemma doRenew_effects:
  assumes "doRenew h resource orig fence ttlMs now s = Inr (r, s')"
  shows "effects now orig s s'"
  using assms
  by (rule doRenew_cases [OF _ refl])
    (auto simp: effects_def intro: lease_effect.extend_own lease_effect.keep same_leases_simps)

lemma doRelease_effects:
  assumes "doRelease h resource fence orig s = Inr (r, s')"
  shows "effects now orig s s'"
  using assms
  by (rule doRelease_cases [OF _ refl])
    (auto simp: effects_def intro: lease_effect.drop_own lease_effect.keep same_leases_simps)

lemma do_once_effects:
  assumes "do_once h i m s = Inr (r, s')" and "\<And>r s1. m s = Inr (r, s1) \<Longrightarrow> effects now orig s s1"
  shows "effects now orig s s'"
  using assms(1)
proof (rule do_once_cases)
  fix s1 t assume "m s = Inr (r, s1)" and s': "s' = s1\<lparr>db_do_idempotency := t\<rparr>"
  with assms(2) obtain c u where "lease_effect now orig c s u" "same_leases s1 u"
    by (auto simp: effects_def)
  with s' show ?thesis by (auto simp: effects_def same_leases_def)
qed (auto intro: assms(2))

lemma commit_effects:
  assumes "commit (tx_seq (assertUnmanagedClaim resource) m) s = (s', r)"
    and "\<And>r s1. m s = Inr (r, s1) \<Longrightarrow> effects now orig s s1"
  shows "effects now orig s s'"
proof (cases r)
  case (Inl e)
  with assms(1) show ?thesis by (auto simp: commit_error)
next
  case (Inr a)
  with assms show ?thesis by (auto simp: commit_ok tx_seq_ok)
qed

lemma coord_step_effects: "coord_step now orig s s' \<Longrightarrow> effects now orig s s'"
proof (induction rule: coord_step.induct)
  case (step_acquire h resource mode ttlMs md i s s' r)
  then show ?case unfolding acquire_def
    by (rule commit_effects) (erule do_once_effects, erule acquire_effects)
next
  case (step_renew h resource fence ttlMs i s s' r)
  then show ?case unfolding renew_def
    by (rule commit_effects) (erule do_once_effects, erule doRenew_effects)
next
  case (step_release h resource fence i s s' r')
  then show ?case unfolding release_def
    by (rule commit_effects)
      (auto simp: tx_bind_ok elim!: do_once_effects intro: doRelease_effects)
next
  case (step_heartbeat s info)
  show ?case by (rule effects_keep) (simp add: heartbeat_def)
qed

lemma lease_effect_mono:
  "lease_effect now orig c s t \<Longrightarrow> fence_of s r \<le> fence_of t r"
  by (induction rule: lease_effect.induct) (auto simp: fresh_claim_run(4))

lemma coord_step_mono: "coord_step now orig s s' \<Longrightarrow> fence_of s r \<le> fence_of s' r"
  by (drule coord_step_effects) (auto simp: effects_def same_leases_lookup dest: lease_effect_mono)

definition coord_any :: "db \<Rightarrow> db \<Rightarrow> bool" where
  "coord_any s s' \<longleftrightarrow> (\<exists>now orig. coord_step now orig s s')"

definition fence_admitted :: "db \<Rightarrow> string \<Rightarrow> int \<Rightarrow> bool" where
  "fence_admitted s canonical fence \<longleftrightarrow>
     (\<exists>now live. assertResourceFenceWithCanonical s canonical fence now live = Inr ())"

lemma fence_admitted_current: "fence_admitted s c f \<Longrightarrow> f = fence_of s c"
  by (auto simp: fence_admitted_def assertResourceFenceWithCanonical_ok fence_of_def)

interpretation coord: fence_authority coord_any fence_of fence_admitted
  by unfold_locales (auto simp: coord_any_def coord_step_mono fence_admitted_current)

section \<open>Claims carry the current fence\<close>

definition claims_current :: "db \<Rightarrow> bool" where
  "claims_current s \<longleftrightarrow> (\<forall>c k. lookupClaim s c = Some k \<longrightarrow> cl_fence k = fence_of s c)"

lemma claims_current_same: "same_leases s t \<Longrightarrow> claims_current s = claims_current t"
  by (simp add: claims_current_def same_leases_lookup)

lemma lease_effect_current:
  assumes "lease_effect now orig c s t" and "claims_current s" shows "claims_current t"
  using assms(1)
proof (induction rule: lease_effect.induct)
  case keep
  show ?case by (rule assms(2))
next
  case (extend_own k e)
  then show ?case using assms(2)
    by (auto simp: claims_current_def lookupClaim_set_expiry split: if_splits)
next
  case (drop_own k)
  then show ?case using assms(2) by (auto simp: claims_current_def lookupClaim_ops split: if_splits)
next
  case (take h mode ttlMs md r s')
  then show ?case using assms(2)
    by (auto simp: claims_current_def fresh_claim_run(4,5) split: if_splits)
qed

lemma coord_step_current: "coord_step now orig s t \<Longrightarrow> claims_current s \<Longrightarrow> claims_current t"
  by (drule coord_step_effects) (auto simp: effects_def claims_current_same dest: lease_effect_current)

text \<open>A run of coordination steps none of which is taken by the holder of claim \<open>k\<close> and all of which
  happen before it expires.\<close>

inductive foreign_run :: "claim_row \<Rightarrow> db \<Rightarrow> db \<Rightarrow> bool" for k s where
  foreign_refl: "foreign_run k s s"
| foreign_step: "foreign_run k s t \<Longrightarrow> coord_step now orig t u \<Longrightarrow> now < cl_expires_at k \<Longrightarrow>
    \<not> held_by orig k \<Longrightarrow> foreign_run k s u"

lemma lease_effect_foreign:
  assumes "lease_effect now orig x s t" and "lookupClaim s c = Some k" and "cl_mode k = Exclusive"
    and "now < cl_expires_at k" and "\<not> held_by orig k"
  shows "lookupClaim t c = Some k \<and> fence_of t c = fence_of s c"
  using assms
proof (induction rule: lease_effect.induct)
  case (take h mode ttlMs md r s')
  then show ?case by (cases "c = x") (auto simp: fresh_claim_run(4,5))
qed (auto simp: lookupClaim_set_expiry lookupClaim_ops)

lemma foreign_run_keeps:
  assumes "foreign_run k s t" and "lookupClaim s c = Some k" and "cl_mode k = Exclusive"
  shows "lookupClaim t c = Some k \<and> fence_of t c = fence_of s c"
  using assms(1)
proof (induction rule: foreign_run.induct)
  case foreign_refl
  with assms show ?case by simp
next
  case (foreign_step t now orig u)
  then obtain r v where eff: "lease_effect now orig r t v" and same: "same_leases u v"
    by (auto simp: effects_def dest!: coord_step_effects)
  from lease_effect_foreign [OF eff _ assms(3) foreign_step.hyps(3,4)] foreign_step.IH
  show ?case by (simp add: same_leases_lookup [OF same])
qed

section \<open>Properties\<close>

lemma acquire_once_same [simp]:
  "answered_before (map_option (\<lambda>i. i\<lparr>ido_shouldStore := f\<rparr>) idem) s = answered_before idem s"
  "replays (map_option (\<lambda>i. i\<lparr>ido_shouldStore := f\<rparr>) idem) s r = replays idem s r"
  by (simp_all add: answered_before_def replays_def split: option.split)

lemma fresh_claim_fences_out:
  assumes fresh: "fresh_claim h c orig mode ttlMs md now s = Inr (r, s1)" and s': "s' = s1\<lparr>db_do_idempotency := u\<rparr>"
  shows "aq_fence r = fence_of s c + 1 \<and> fence_admitted s' c (aq_fence r)
    \<and> (\<forall>x. x \<noteq> c \<longrightarrow> fence_of s' x = fence_of s x)
    \<and> (\<forall>t f. coord_any\<^sup>*\<^sup>* s' t \<longrightarrow> f \<le> fence_of s c \<longrightarrow> \<not> fence_admitted t c f)"
proof -
  note facts = fresh_claim_run [OF fresh]
  have same: "fence_of s' x = fence_of s1 x" "lookupFence s' x = lookupFence s1 x" for x
    by (simp_all add: s' fence_of_def lookupFence_def)
  obtain f where f: "lookupFence s1 c = Some f"
    using facts(4) [of c] fresh by (auto simp: fresh_claim_def tx_run appendJournal_def
        lookupFence_def add_claim_def drop_claim_def lookupFence_bump [unfolded lookupFence_def])
  moreover have cur: "fence_of s' c = aq_fence r" using facts(2) facts(4) [of c] by (simp add: same)
  ultimately have "fence_admitted s' c (aq_fence r)"
    by (auto simp: fence_admitted_def assertResourceFenceWithCanonical_ok fence_of_def same(2))
  moreover have "\<not> fence_admitted t c g" if "coord_any\<^sup>*\<^sup>* s' t" "g \<le> fence_of s c" for t g
    using that facts(4) [of c] by (intro coord.passed_fence_dead) (auto simp: same)
  ultimately show ?thesis using facts by (auto simp: same)
qed

text \<open>C1. Taking over a lease: whenever \<open>acquire\<close> succeeds for a caller that did not hold a live
  claim, and is not the retry of a request that was answered before, the fence it returns is one above the
  resource's old fence and is admitted, no other resource's fence moves, and every fence issued before is
  refused in every later state of the coordination service, however the operations interleave. A retry under
  the idempotency key of an earlier request changes nothing and gives the earlier answer again.\<close>

theorem acquire_fences_out:
  assumes "acquire h resource orig mode ttlMs md now idempotency s = (s', Inr r)" and "aq_acquired r"
    and "c = canonicalResource s resource"
    and "\<And>k. lookupClaim s c = Some k \<Longrightarrow> now < cl_expires_at k \<Longrightarrow> \<not> held_by orig k"
  shows "if answered_before idempotency s then s' = s \<and> replays idempotency s r
    else aq_fence r = fence_of s c + 1 \<and> fence_admitted s' c (aq_fence r)
      \<and> (\<forall>x. x \<noteq> c \<longrightarrow> fence_of s' x = fence_of s x)
      \<and> (\<forall>t f. coord_any\<^sup>*\<^sup>* s' t \<longrightarrow> f \<le> fence_of s c \<longrightarrow> \<not> fence_admitted t c f)"
proof -
  from assms(1) have "do_once h (map_option (\<lambda>i. i\<lparr>ido_shouldStore := aq_acquired\<rparr>) idempotency)
      (acquireInTransaction h resource orig mode ttlMs md now) s = Inr (r, s')"
    by (auto simp: acquire_def commit_ok tx_seq_ok)
  then show ?thesis
  proof (cases rule: do_once_once)
    case (fresh s1 u)
    have "fresh_claim h c orig mode ttlMs md now s = Inr (r, s1)"
      using fresh(2) assms(2-4) by (cases rule: acquire_cases [OF _ assms(3)]) (auto simp: refused_def)
    from fresh_claim_fences_out [OF this fresh(3)] show ?thesis
      unfolding if_not_P [OF fresh(1) [unfolded acquire_once_same(1)]] .
  qed simp
qed

text \<open>Exclusive leases are exclusive: as long as only other participants act and the lease has
  not expired, an exclusive claim and its fence survive every run of coordination operations, and
  a further attempt to acquire the resource is refused with the holder's fence.\<close>

theorem exclusive_lease_safe:
  assumes "foreign_run k s t" and "lookupClaim s c = Some k" and "cl_mode k = Exclusive"
    and "canonicalResource t resource = c" and "now < cl_expires_at k" and "\<not> held_by orig k"
  shows "lookupClaim t c = Some k \<and> fence_of t c = fence_of s c
    \<and> acquireInTransaction h resource orig mode ttlMs md now t = Inr (refused k orig, t)"
  using foreign_run_keeps [OF assms(1-3)] assms(3-6)
  by (simp add: acquireInTransaction_def tx_eval)

text \<open>C2. Every claim carries the current fence of its resource, in every state that coordination
  operations reach from the empty database.\<close>

theorem claim_carries_current_fence:
  assumes "coord_any\<^sup>*\<^sup>* empty_db s" and "lookupClaim s c = Some k"
  shows "cl_fence k = fence_of s c"
proof -
  from assms(1) have "claims_current s"
  proof (induction rule: rtranclp_induct)
    case base
    show ?case by (simp add: claims_current_def lookupClaim_def empty_db_def)
  next
    case (step t u)
    then show ?case by (auto simp: coord_any_def dest: coord_step_current)
  qed
  with assms(2) show ?thesis by (simp add: claims_current_def)
qed

text \<open>Re-acquiring a lease one already holds is a renewal: it always succeeds, returns the
  unchanged fence, moves the expiry of this claim only, and leaves every fence as it was.\<close>

theorem reacquire_keeps_fence:
  assumes "lookupClaim s c = Some k" and "c = canonicalResource s resource"
    and "now < cl_expires_at k" and "held_by orig k"
    and "\<And>i x. resolveEntityReference s resource = Some (i, x) \<Longrightarrow> \<not> isManagedTask s i"
  shows "\<exists>s' r. acquire h resource orig mode ttlMs md now None s = (s', Inr r)
    \<and> aq_acquired r \<and> aq_fence r = cl_fence k \<and> aq_expires_at r = now + ttlMs
    \<and> lookupClaim s' c = Some (k\<lparr>cl_expires_at := now + ttlMs\<rparr>)
    \<and> (\<forall>x. x \<noteq> c \<longrightarrow> lookupClaim s' x = lookupClaim s x) \<and> db_fences s' = db_fences s"
proof -
  have "db_fences (set_expiry c t s) = db_fences s" for t by (simp add: set_expiry_def)
  with assms(1-4) show ?thesis
    by (simp add: unmanaged_run(1) [OF assms(5)] acquireInTransaction_def tx_eval
        lookupClaim_set_expiry)
qed

text \<open>Renewal is exact: on a task outside managed work it reports success precisely when the
  caller holds a live claim; holding it with a fence other than the current one is an error, and
  in every other case nothing is written.\<close>

theorem renew_exact:
  assumes "c = canonicalResource s resource" and "lookupFence s c = Some f"
    and "\<And>i x. resolveEntityReference s resource = Some (i, x) \<Longrightarrow> \<not> isManagedTask s i"
  shows "(case lookupClaim s c of
      Some k \<Rightarrow>
        if now < cl_expires_at k \<and> held_by orig k then
          (if fence = fe_current_fence f
           then (\<exists>s'. renew h resource orig fence ttlMs now None s =
               (s', Inr \<lparr>rn_renewed = True, rn_expires_at = now + ttlMs\<rparr>)
             \<and> lookupClaim s' c = Some (k\<lparr>cl_expires_at := now + ttlMs\<rparr>)
             \<and> db_fences s' = db_fences s)
           else renew h resource orig fence ttlMs now None s =
               (s, Inl (FenceError (fe_current_fence f) fence)))
        else renew h resource orig fence ttlMs now None s =
          (s, Inr \<lparr>rn_renewed = False, rn_expires_at = 0\<rparr>)
    | None \<Rightarrow> renew h resource orig fence ttlMs now None s =
          (s, Inr \<lparr>rn_renewed = False, rn_expires_at = 0\<rparr>))"
proof -
  have [simp]: "db_fences (set_expiry x t s) = db_fences s" for x t by (simp add: set_expiry_def)
  show ?thesis using assms(1,2)
    by (auto simp: unmanaged_run(2) [OF assms(3)] doRenew_def tx_eval appendJournal_def
        lookupClaim_set_expiry lookupClaim_ops split: option.split)
qed

subsection \<open>Exactly-once acquisition\<close>

text \<open>The stored result of an acquisition and its parse on a replay.\<close>

definition acquire_json :: "acquire_result \<Rightarrow> json" where
  "acquire_json r = JObj [(''acquired'', JBool (aq_acquired r)), (''fence'', JNum (aq_fence r)),
     (''expires_at'', JNum (aq_expires_at r)), (''participant_id'', JStr (aq_participant_id r))]"

fun acquire_of_json :: "json \<Rightarrow> acquire_result" where
  "acquire_of_json (JObj [(_, JBool b), (_, JNum f), (_, JNum e), (_, JStr p)]) =
     \<lparr>aq_acquired = b, aq_fence = f, aq_expires_at = e, aq_participant_id = p\<rparr>"
| "acquire_of_json _ =
     \<lparr>aq_acquired = False, aq_fence = 0, aq_expires_at = 0, aq_participant_id = []\<rparr>"

lemma acquire_of_json_inverse: "acquire_of_json (acquire_json r) = r"
  by (simp add: acquire_json_def)

definition acquire_ctx :: "string \<Rightarrow> string option \<Rightarrow> acquire_result do_idempotency" where
  "acquire_ctx = do_ctx acquire_json acquire_of_json aq_acquired"

definition acquire_once :: "host \<Rightarrow> string \<Rightarrow> string option \<Rightarrow> acquire_result ptx \<Rightarrow> acquire_result ptx" where
  "acquire_once h key hash m = do_once h (Some (acquire_ctx key hash)) m"

interpretation acquire_receipts: receipt_store "acquire_once h" "di_receipt acquire_of_json"
  hash_agrees DoIdempotencyConflictError aq_acquired for h
  unfolding acquire_once_def acquire_ctx_def
  by unfold_locales (rule do_once_laws acquire_of_json_inverse; assumption?)+

lemma acquireInTransaction_receipts:
  "acquireInTransaction h resource orig mode ttlMs md now s = Inr (r, s') \<Longrightarrow>
     db_do_idempotency s' = db_do_idempotency s"
  by (erule acquire_cases [OF _ refl])
    (auto simp: set_expiry_def fresh_claim_def tx_run appendJournal_def add_claim_def drop_claim_def
      bump_fence_def)

lemma acquire_misses: "acquire_receipts.misses k (acquireInTransaction h resource orig mode ttlMs md now)"
  unfolding acquire_receipts.misses_def
  by (auto simp: di_receipt_def di_lookup_def dest: acquireInTransaction_receipts)

text \<open>Exactly-once acquisition: a successful acquisition stored under an idempotency key is
  answered, for the same request hash, from every later state that still holds the receipt, with
  the fence of the first run and without touching the database; a different hash is refused.\<close>

theorem acquire_exactly_once:
  assumes "acquire h resource orig mode ttlMs md now (Some (acquire_ctx key (Some hash))) s = (s1, Inr r)"
    and "di_lookup s key = None" and "aq_acquired r"
    and "di_lookup t key = di_lookup s1 key"
    and "\<And>i c. resolveEntityReference t resource' = Some (i, c) \<Longrightarrow> \<not> isManagedTask t i"
  shows "acquire h' resource' orig' mode' ttlMs' md' now' (Some (acquire_ctx key (Some hash))) t
      = (t, Inr r)
    \<and> (hash' \<noteq> hash \<longrightarrow>
      acquire h' resource' orig' mode' ttlMs' md' now' (Some (acquire_ctx key (Some hash'))) t
      = (t, Inl (DoIdempotencyConflictError key)))"
proof -
  have ctx: "acquire_ctx k q\<lparr>ido_shouldStore := aq_acquired\<rparr> = acquire_ctx k q" for k q
    by (simp add: acquire_ctx_def do_ctx_def)
  have "acquire_once h key (Some hash) (acquireInTransaction h resource orig mode ttlMs md now) s
      = Inr (r, s1)"
    using assms(1) by (auto simp: acquire_def commit_ok tx_seq_ok acquire_once_def ctx)
  from acquire_receipts.receipt_written [OF _ this acquire_misses assms(3)] assms(2,4)
  have stored: "di_receipt acquire_of_json t key = Some (Some hash, r)"
    by (simp add: di_receipt_def)
  have "acquire_once h' key (Some hash) m t = Inr (r, t)" for m
    using acquire_receipts.hit [OF stored] by (simp add: hash_agrees_def)
  moreover have "hash' \<noteq> hash \<Longrightarrow>
      acquire_once h' key (Some hash') m t = Inl (DoIdempotencyConflictError key)" for m
    using acquire_receipts.differs [OF stored] by (simp add: hash_agrees_def)
  ultimately show ?thesis
    by (simp add: acquire_def commit_unmanaged [OF assms(5)] ctx acquire_once_def commit_ok commit_error)
qed

subsection \<open>Witnesses\<close>

lemmas lease_run = acquire_def acquireInTransaction_def assertUnmanagedClaim_def fresh_claim_def
  bump_fence_def drop_claim_def add_claim_def set_expiry_def rows_upsert_def appendJournal_def
  lookupClaim_def lookupFence_def by_key_Cons by_key_append canonicalResource_def
  resolveEntityResource_def resolveEntityReference_def entity_by_id_def held_by_def refused_def
  tx_eval

definition held_db :: db where
  "held_db = fst (acquire (sample_host 5 ''u'') ''lock'' (system_origin ''a'') Exclusive 10 [] 5 None empty_db)"

lemma held_db_claim: "\<exists>k. lookupClaim held_db ''lock'' = Some k \<and> cl_mode k = Exclusive
    \<and> cl_expires_at k = 15 \<and> cl_fence k = 1 \<and> held_by (system_origin ''a'') k
    \<and> \<not> held_by (system_origin ''b'') k"
  by (simp add: held_db_def lease_run sample_defs)

lemma held_db_facts: "lookupFence held_db ''lock'' = Some \<lparr>fe_resource = ''lock'', fe_current_fence = 1\<rparr>"
  "resolveEntityReference held_db ''lock'' = None" "canonicalResource held_db ''lock'' = ''lock''"
  "fence_of held_db ''lock'' = 1" "coord_any\<^sup>*\<^sup>* empty_db held_db"
proof -
  have "coord_any empty_db held_db"
    unfolding coord_any_def held_db_def by (metis coord_step.step_acquire prod.collapse)
  then show "coord_any\<^sup>*\<^sup>* empty_db held_db" by (rule r_into_rtranclp)
qed (simp_all add: held_db_def lease_run sample_defs fence_of_def)

theorem acquire_fences_out_witness:
  "\<exists>s' r. acquire (sample_host 20 ''u'') ''lock'' (system_origin ''b'') Exclusive 10 [] 20 None held_db
      = (s', Inr r) \<and> aq_fence r = 2 \<and> \<not> fence_admitted s' ''lock'' 1"
proof -
  obtain k where k: "lookupClaim held_db ''lock'' = Some k" "cl_expires_at k = 15"
    using held_db_claim by blast
  obtain s' r where run: "acquire (sample_host 20 ''u'') ''lock'' (system_origin ''b'') Exclusive 10 [] 20
      None held_db = (s', Inr r)" and ok: "aq_acquired r"
    by (simp add: held_db_def lease_run sample_defs)
  have "\<not> answered_before (None :: acquire_result do_idempotency option) held_db" by (simp add: answered_before_def)
  with acquire_fences_out [OF run ok held_db_facts(3) [symmetric]] k
  have "aq_fence r = fence_of held_db ''lock'' + 1"
    and "\<And>t f. coord_any\<^sup>*\<^sup>* s' t \<Longrightarrow> f \<le> fence_of held_db ''lock'' \<Longrightarrow> \<not> fence_admitted t ''lock'' f"
    by auto
  with run show ?thesis by (auto simp: held_db_facts)
qed

theorem exclusive_lease_safe_witness:
  "\<exists>k t. foreign_run k held_db t \<and> lookupClaim t ''lock'' = Some k
    \<and> acquireInTransaction (sample_host 9 ''u'') ''lock'' (system_origin ''b'') Presence 5 [] 9 t
        = Inr (refused k (system_origin ''b''), t)"
proof -
  obtain k where k: "lookupClaim held_db ''lock'' = Some k" "cl_mode k = Exclusive"
      "cl_expires_at k = 15" "\<not> held_by (system_origin ''b'') k"
    using held_db_claim by blast
  define t where "t = heartbeat (system_origin ''b'') [] 8 held_db"
  have run: "foreign_run k held_db t" unfolding t_def
    by (rule foreign_step [OF foreign_refl step_heartbeat]) (simp_all add: k)
  have "canonicalResource t ''lock'' = ''lock''"
    by (simp add: t_def held_db_def heartbeat_def lease_run sample_defs)
  from exclusive_lease_safe [OF run k(1,2) this, of 9 "system_origin ''b''"] k run
  show ?thesis by (intro exI [of _ k] exI [of _ t]) simp
qed

theorem claim_carries_current_fence_witness:
  "\<exists>k. lookupClaim held_db ''lock'' = Some k \<and> cl_fence k = fence_of held_db ''lock''"
  using held_db_claim claim_carries_current_fence [OF held_db_facts(5)] by blast

theorem reacquire_keeps_fence_witness:
  "\<exists>s' r. acquire (sample_host 9 ''u'') ''lock'' (system_origin ''a'') Exclusive 10 [] 9 None held_db
      = (s', Inr r) \<and> aq_acquired r \<and> aq_fence r = 1 \<and> aq_expires_at r = 19"
proof -
  obtain k where k: "lookupClaim held_db ''lock'' = Some k" "cl_expires_at k = 15"
      "cl_fence k = 1" "held_by (system_origin ''a'') k"
    using held_db_claim by blast
  with reacquire_keeps_fence [of held_db "''lock''" k "''lock''" 9 "system_origin ''a''"
      "sample_host 9 ''u''" Exclusive 10 "[]"] held_db_facts(2,3)
  show ?thesis by auto
qed

theorem renew_exact_witness:
  "\<exists>s'. renew (sample_host 9 ''u'') ''lock'' (system_origin ''a'') 1 10 9 None held_db
      = (s', Inr \<lparr>rn_renewed = True, rn_expires_at = 19\<rparr>)"
proof -
  obtain k where k: "lookupClaim held_db ''lock'' = Some k" "cl_expires_at k = 15"
      "held_by (system_origin ''a'') k"
    using held_db_claim by blast
  with renew_exact [OF held_db_facts(3) [symmetric] held_db_facts(1),
      where now = 9 and orig = "system_origin ''a''" and fence = 1 and ttlMs = 10
        and h = "sample_host 9 ''u''"] held_db_facts(2)
  show ?thesis by auto
qed

theorem acquire_exactly_once_witness:
  "\<exists>s1 r. acquire (sample_host 5 ''u'') ''lock'' (system_origin ''a'') Exclusive 10 [] 5
        (Some (acquire_ctx ''k'' (Some ''h''))) empty_db = (s1, Inr r) \<and> aq_fence r = 1
    \<and> acquire (sample_host 99 ''u'') ''lock'' (system_origin ''a'') Exclusive 10 [] 99
        (Some (acquire_ctx ''k'' (Some ''h''))) s1 = (s1, Inr r)"
proof -
  obtain s1 r where run: "acquire (sample_host 5 ''u'') ''lock'' (system_origin ''a'') Exclusive 10 [] 5
        (Some (acquire_ctx ''k'' (Some ''h''))) empty_db = (s1, Inr r)"
      and ok: "aq_acquired r" "aq_fence r = 1" and res: "resolveEntityReference s1 ''lock'' = None"
    by (simp add: lease_run sample_defs do_once_def withDoIdempotency_def di_lookup_def di_insert_def
        acquire_ctx_def do_ctx_def rows_insert_def)
  from acquire_exactly_once [OF run _ ok(1) refl, of "''lock''"] run ok res show ?thesis
    by (simp add: di_lookup_def empty_db_def)
qed

end
