(* ===== verification/Gates.thy ===== *)
theory Gates
  imports Coordination
begin

text \<open>
  Gates: \<^verbatim>\<open>packages/ops-sqlite/src/gate-ops.ts\<close>. A gate is a pending decision on a resource that
  blocks its terminal transitions; it settles once, by resolution, cancellation or time-out.
\<close>

section \<open>Operations\<close>

definition settle_gate :: "string \<Rightarrow> gate_status \<Rightarrow> int \<Rightarrow> (string option \<Rightarrow> string option) \<Rightarrow> db \<Rightarrow> db" where
  "settle_gate i st now res s = s\<lparr>db_gates := rows_set (\<lambda>g. ga_id g = i)
     (\<lambda>g. g\<lparr>ga_status := st, ga_resolved_at := Some now, ga_resolution := res (ga_resolution g)\<rparr>)
     (db_gates s)\<rparr>"

definition gate_expired :: "int \<Rightarrow> gate_row \<Rightarrow> bool" where
  "gate_expired now g = (ga_resolved_at g = None
     \<and> (case ga_timeout_at g of None \<Rightarrow> False | Some t \<Rightarrow> t \<le> now))"

definition gate_pending :: "int \<Rightarrow> gate_row \<Rightarrow> bool" where
  "gate_pending now g = (ga_resolved_at g = None
     \<and> (case ga_timeout_at g of None \<Rightarrow> True | Some t \<Rightarrow> now < t))"

definition time_out_gate :: "host \<Rightarrow> int \<Rightarrow> string \<Rightarrow> gate_row \<Rightarrow> unit ptx" where
  "time_out_gate h now resource g =
     tx_seq (tx_write (settle_gate (ga_id g) Timed_out now (\<lambda>r. r)))
       (appendJournal h ''gate.timed_out'' resource (system_origin ''system:gate-timeout'')
         (Some (ga_fence g)) [(''gate_id'', JStr (ga_id g))])"

definition checkPendingGates :: "host \<Rightarrow> string \<Rightarrow> int \<Rightarrow> unit ptx" where
  "checkPendingGates h resource now =
    tx_bind (tx_read (\<lambda>s. filter (\<lambda>g. ga_resource g = resource \<and> gate_expired now g) (db_gates s)))
      (\<lambda>expired. tx_seq (tx_for expired (time_out_gate h now resource))
    (tx_bind (tx_read (\<lambda>s. filter (\<lambda>g. ga_resource g = resource \<and> gate_pending now g) (db_gates s)))
      (\<lambda>pending. tx_guard (pending = []) (GateBlockedError resource (map ga_id pending)))))"

definition createGate ::
    "host \<Rightarrow> string \<Rightarrow> string \<Rightarrow> string \<Rightarrow> int \<Rightarrow> int option \<Rightarrow> jobj \<Rightarrow> request_origin \<Rightarrow> int \<Rightarrow> gate_row op" where
  "createGate h i resource await_type fence timeout_at data orig now = commit
    (let row = \<lparr>ga_id = i, ga_resource = resource, ga_await_type = await_type, ga_status = Pending,
        ga_fence = fence, ga_timeout_at = timeout_at, ga_resolved_at = None, ga_resolution = None,
        ga_created_at = now, ga_created_by = or_actor orig, ga_token_id = or_tokenId orig,
        ga_data = data\<rparr> in
     tx_bind (tx_read (\<lambda>s. assertResourceFence s resource fence now True)) (\<lambda>checked.
     tx_seq (tx_lift checked)
    (tx_bind (tx_read (\<lambda>s. rows_insert ga_id row (db_gates s))) (\<lambda>inserted.
      case inserted of
        None \<Rightarrow> tx_throw (SqliteError ''UNIQUE constraint failed: gates.id'')
      | Some t \<Rightarrow>
          tx_seq (tx_write (\<lambda>s. s\<lparr>db_gates := t\<rparr>))
         (tx_seq (appendJournal h ''gate.created'' resource orig (Some fence)
            [(''gate_id'', JStr i), (''await_type'', JStr await_type)])
         (tx_return row))))))"

definition require_pending :: "string \<Rightarrow> (gate_row \<Rightarrow> 'a ptx) \<Rightarrow> 'a ptx" where
  "require_pending i body = tx_bind (tx_read (\<lambda>s. by_key ga_id i (db_gates s))) (\<lambda>found.
     case found of
       None \<Rightarrow> tx_throw (GateNotFoundError i)
     | Some g \<Rightarrow> if ga_status g \<noteq> Pending then tx_throw (GateAlreadySettledError i (ga_status g))
                 else body g)"

definition resolveGate :: "host \<Rightarrow> string \<Rightarrow> string option \<Rightarrow> request_origin option \<Rightarrow> int \<Rightarrow> unit op" where
  "resolveGate h i resolution orig now = commit (require_pending i (\<lambda>g.
     tx_seq (tx_write (settle_gate i Resolved now (\<lambda>_. resolution)))
       (appendJournal h ''gate.resolved'' (ga_resource g)
         (case orig of None \<Rightarrow> system_origin ''system:gate-resolution'' | Some r \<Rightarrow> r)
         (Some (ga_fence g))
         [(''gate_id'', JStr i), (''resolution'', jnullable JStr resolution)])))"

definition cancelGate :: "host \<Rightarrow> string \<Rightarrow> request_origin \<Rightarrow> int \<Rightarrow> unit op" where
  "cancelGate h i orig now = commit (require_pending i (\<lambda>g.
     tx_seq (tx_write (settle_gate i Cancelled_gate now (\<lambda>r. r)))
       (appendJournal h ''gate.cancelled'' (ga_resource g) orig (Some (ga_fence g))
         [(''gate_id'', JStr i)])))"

definition gate_query :: "string option \<Rightarrow> gate_status option \<Rightarrow> gate_row \<Rightarrow> bool" where
  "gate_query resource status g =
    ((case resource of None \<Rightarrow> True | Some r \<Rightarrow> r = [] \<or> ga_resource g = r)
     \<and> (case status of None \<Rightarrow> True | Some st \<Rightarrow> ga_status g = st))"

definition listGates :: "host \<Rightarrow> string option \<Rightarrow> gate_status option \<Rightarrow> nat option \<Rightarrow> int
    \<Rightarrow> gate_row list op" where
  "listGates h resource status lim now = commit
    (tx_bind (tx_read (\<lambda>s. filter (gate_expired now) (db_gates s))) (\<lambda>expired.
     tx_seq (tx_for expired (\<lambda>g. time_out_gate h now (ga_resource g) g))
       (tx_read (\<lambda>s. take (case lim of None \<Rightarrow> 100 | Some n \<Rightarrow> n)
          (filter (gate_query resource status) (db_gates s))))))"

section \<open>Facts\<close>

definition gates_wf :: "db \<Rightarrow> bool" where
  "gates_wf s \<longleftrightarrow> distinct (map ga_id (db_gates s))
     \<and> (\<forall>g \<in> set (db_gates s). ga_status g = Pending \<longleftrightarrow> ga_resolved_at g = None)"

definition gate_of :: "db \<Rightarrow> string \<Rightarrow> gate_row option" where
  "gate_of s i = by_key ga_id i (db_gates s)"

definition gate_settled :: "gate_row \<Rightarrow> bool" where
  "gate_settled g = (ga_status g \<noteq> Pending)"

lemma gates_wf_gate_of: "gates_wf s \<Longrightarrow> g \<in> set (db_gates s) \<Longrightarrow> gate_of s (ga_id g) = Some g"
  unfolding gates_wf_def gate_of_def by (rule by_key_unique) auto

lemma gate_of_settle: "gate_of (settle_gate i st now res s) k =
    (if k = i then map_option (\<lambda>g. g\<lparr>ga_status := st, ga_resolved_at := Some now,
        ga_resolution := res (ga_resolution g)\<rparr>) (gate_of s k) else gate_of s k)"
  by (cases "gate_of s k")
    (auto simp: gate_of_def settle_gate_def by_key_set dest: by_key_Some)

lemma gates_wf_settle:
  "gates_wf s \<Longrightarrow> st \<noteq> Pending \<Longrightarrow> gates_wf (settle_gate i st now res s)"
  by (auto simp: gates_wf_def settle_gate_def set_rows_set map_rows_set)

text \<open>What one settlement does to the table, and what a loop of time-outs does.\<close>

definition settles :: "db \<Rightarrow> db \<Rightarrow> bool" where
  "settles s t \<longleftrightarrow> gates_wf t \<and> (\<forall>k g. gate_of s k = Some g \<longrightarrow> gate_settled g \<longrightarrow> gate_of t k = Some g)"

lemma settles_refl: "gates_wf s \<Longrightarrow> settles s s"
  by (simp add: settles_def)

lemma settles_trans: "settles s t \<Longrightarrow> settles t u \<Longrightarrow> settles s u"
  by (auto simp: settles_def)

lemma settles_settle:
  assumes "gates_wf s" and "st \<noteq> Pending" and "\<And>g. gate_of s i = Some g \<Longrightarrow> \<not> gate_settled g"
  shows "settles s (settle_gate i st now res s)"
  using assms by (auto simp: settles_def gates_wf_settle gate_of_settle)

lemma gates_frame [simp]:
  "gate_of (s\<lparr>db_journal_seq := n, db_journal := js\<rparr>) k = gate_of s k"
  "gates_wf (s\<lparr>db_journal_seq := n, db_journal := js\<rparr>) = gates_wf s"
  "settles s (t\<lparr>db_journal_seq := n, db_journal := js\<rparr>) = settles s t"
  by (simp_all add: gate_of_def gates_wf_def settles_def)

lemma time_out_run:
  "time_out_gate h now resource g s = Inr (u, t) \<longleftrightarrow>
    (\<exists>js. t = (settle_gate (ga_id g) Timed_out now (\<lambda>r. r) s)
        \<lparr>db_journal_seq := db_journal_seq s + 1, db_journal := db_journal s @ [js]\<rparr>
     \<and> jo_kind js = ''gate.timed_out'' \<and> jo_resource js = resource
     \<and> obj_get ''gate_id'' (jo_data js) = Some (JStr (ga_id g)) \<and> js = \<lparr>jo_seq = db_journal_seq s + 1,
       jo_t = date_now h, jo_kind = ''gate.timed_out'', jo_resource = resource,
       jo_principal_id = Some ''system:gate-timeout'', jo_participant_id = Some ''system:gate-timeout'',
       jo_environment = [], jo_actor = '''', jo_token_id = None, jo_fence = Some (ga_fence g),
       jo_data = [(''gate_id'', JStr (ga_id g))], jo_source = None, jo_source_version = None\<rparr>)"
  by (auto simp: time_out_gate_def tx_run appendJournal_def settle_gate_def system_origin_def)

text \<open>The loop times out exactly the listed gates and journals each of them.\<close>

definition timed_out :: "int \<Rightarrow> string set \<Rightarrow> gate_row \<Rightarrow> gate_row" where
  "timed_out now ids g = (if ga_id g \<in> ids
     then g\<lparr>ga_status := Timed_out, ga_resolved_at := Some now\<rparr> else g)"

definition time_out_entry :: "(gate_row \<Rightarrow> string) \<Rightarrow> gate_row \<Rightarrow> string \<times> string \<times> jobj" where
  "time_out_entry rf g = (''gate.timed_out'', rf g, [(''gate_id'', JStr (ga_id g))])"

definition entry_of :: "journal_row \<Rightarrow> string \<times> string \<times> jobj" where
  "entry_of j = (jo_kind j, jo_resource j, jo_data j)"

lemma time_out_gates_row: "db_gates (settle_gate i Timed_out now (\<lambda>r. r) s) = map (timed_out now {i}) (db_gates s)"
  by (simp add: settle_gate_def rows_set_def timed_out_def)

lemma timed_out_resource [simp]: "ga_resource (timed_out now A g) = ga_resource g"
  by (simp add: timed_out_def)

lemma timed_out_compose: "timed_out now B (timed_out now A g) = timed_out now (A \<union> B) g"
  by (simp add: timed_out_def)

lemma time_out_loop:
  assumes "tx_for gs (\<lambda>g. time_out_gate h now (rf g) g) s = Inr (u, t)"
  shows "\<exists>js. t = s\<lparr>db_gates := map (timed_out now (ga_id ` set gs)) (db_gates s),
      db_journal_seq := db_journal_seq t, db_journal := db_journal s @ js\<rparr>
    \<and> map entry_of js = map (time_out_entry rf) gs"
  using assms
proof (induction gs arbitrary: s)
  case Nil
  have "timed_out now {} = (\<lambda>g. g)" by (simp add: timed_out_def fun_eq_iff)
  with Nil show ?case by (auto intro!: exI [of _ "[]"])
next
  case (Cons g gs)
  then obtain s1 where one: "time_out_gate h now (rf g) g s = Inr ((), s1)"
      and rest: "tx_for gs (\<lambda>g. time_out_gate h now (rf g) g) s1 = Inr (u, t)"
    by (auto simp: tx_seq_ok)
  from one obtain j where s1: "s1 = (settle_gate (ga_id g) Timed_out now (\<lambda>r. r) s)
        \<lparr>db_journal_seq := db_journal_seq s + 1, db_journal := db_journal s @ [j]\<rparr>"
      and j: "entry_of j = time_out_entry rf g"
    by (auto simp: time_out_run entry_of_def time_out_entry_def)
  from Cons.IH [OF rest] obtain js where
      t: "t = s1\<lparr>db_gates := map (timed_out now (ga_id ` set gs)) (db_gates s1),
        db_journal_seq := db_journal_seq t, db_journal := db_journal s1 @ js\<rparr>"
      and js: "map entry_of js = map (time_out_entry rf) gs" by blast
  have "db_gates s1 = map (timed_out now {ga_id g}) (db_gates s)"
    using time_out_gates_row [of "ga_id g" now s] by (simp add: s1)
  then have "db_gates t = map (timed_out now (ga_id ` set (g # gs))) (db_gates s)"
    by (subst t) (simp add: timed_out_compose fun_eq_iff)
  moreover have "t = s\<lparr>db_gates := db_gates t, db_journal_seq := db_journal_seq t,
      db_journal := db_journal s @ j # js\<rparr>"
    by (subst t, subst (2) t) (simp add: s1 settle_gate_def)
  ultimately show ?case using j js by (intro exI [of _ "j # js"]) simp
qed

lemma timed_out_keeps:
  assumes "gates_wf s" and "\<And>g. g \<in> set gs \<Longrightarrow> g \<in> set (db_gates s) \<and> ga_resolved_at g = None"
    and "db_gates t = map (timed_out now (ga_id ` set gs)) (db_gates s)"
  shows "settles s t"
proof -
  have ids: "map ga_id (db_gates t) = map ga_id (db_gates s)"
    using assms(3) by (simp add: timed_out_def)
  have open_only: "ga_resolved_at g = None"
    if "g \<in> set (db_gates s)" "ga_id g \<in> ga_id ` set gs" for g
  proof -
    from that(2) obtain g' where g': "g' \<in> set gs" "ga_id g' = ga_id g" by auto
    with assms(2) that(1) have "g' = g"
      using gates_wf_gate_of [OF assms(1)] by (metis option.inject)
    with g' assms(2) show ?thesis by blast
  qed
  have "distinct (map ga_id (db_gates t))" using assms(1) unfolding ids by (simp add: gates_wf_def)
  moreover have "\<forall>g \<in> set (db_gates t). ga_status g = Pending \<longleftrightarrow> ga_resolved_at g = None"
    using assms(1) unfolding gates_wf_def assms(3) by (auto simp: timed_out_def)
  ultimately have "gates_wf t" by (simp add: gates_wf_def)
  have "gate_of t k = Some g" if "gate_of s k = Some g" "gate_settled g" for k g
  proof -
    from that(1) have g: "g \<in> set (db_gates s)" "ga_id g = k"
      unfolding gate_of_def by (auto dest: by_key_Some)
    with that(2) assms(1) have "ga_resolved_at g \<noteq> None" by (auto simp: gates_wf_def gate_settled_def)
    with open_only g have "timed_out now (ga_id ` set gs) g = g" by (auto simp: timed_out_def)
    with g(1) have "g \<in> set (db_gates t)" unfolding assms(3) by (metis image_eqI image_set)
    from gates_wf_gate_of [OF \<open>gates_wf t\<close> this] g(2) show ?thesis by simp
  qed
  with \<open>gates_wf t\<close> show ?thesis by (simp add: settles_def)
qed

section \<open>Gate steps\<close>

text \<open>The last rule stands for the operations of the other components between gate operations:
  whatever they do to the rest of the database, they leave the gate table alone.\<close>

inductive gate_step :: "db \<Rightarrow> db \<Rightarrow> bool" where
  gate_create: "createGate h i res aw fence tmo data orig now s = (t, r) \<Longrightarrow> gate_step s t"
| gate_resolve: "resolveGate h i resol orig' now s = (t, r') \<Longrightarrow> gate_step s t"
| gate_cancel: "cancelGate h i orig now s = (t, r') \<Longrightarrow> gate_step s t"
| gate_list: "listGates h q st lim now s = (t, r'') \<Longrightarrow> gate_step s t"
| gate_check: "commit (checkPendingGates h res now) s = (t, r') \<Longrightarrow> gate_step s t"
| gate_other: "db_gates t = db_gates s \<Longrightarrow> gate_step s t"

lemma settles_commit:
  assumes "commit m s = (t, r)" and "gates_wf s" and "\<And>a t. m s = Inr (a, t) \<Longrightarrow> settles s t"
  shows "settles s t"
  using assms by (cases r) (auto simp: commit_ok commit_error settles_refl)

lemma settles_create:
  assumes "gates_wf s" and "createGate h i res aw fence tmo data orig now s = (t, r)"
  shows "settles s t"
  using assms(2,1) unfolding createGate_def Let_def
proof (rule settles_commit)
  fix a t
  let ?row = "\<lparr>ga_id = i, ga_resource = res, ga_await_type = aw, ga_status = Pending,
    ga_fence = fence, ga_timeout_at = tmo, ga_resolved_at = None, ga_resolution = None,
    ga_created_at = now, ga_created_by = or_actor orig, ga_token_id = or_tokenId orig, ga_data = data\<rparr>"
  assume "tx_bind (tx_read (\<lambda>s. assertResourceFence s res fence now True)) (\<lambda>checked.
      tx_seq (tx_lift checked) (tx_bind (tx_read (\<lambda>s. rows_insert ga_id ?row (db_gates s)))
       (\<lambda>inserted. case inserted of
          None \<Rightarrow> tx_throw (SqliteError ''UNIQUE constraint failed: gates.id'')
        | Some t \<Rightarrow> tx_seq (tx_write (\<lambda>s. s\<lparr>db_gates := t\<rparr>))
           (tx_seq (appendJournal h ''gate.created'' res orig (Some fence)
              [(''gate_id'', JStr i), (''await_type'', JStr aw)]) (tx_return ?row))))) s = Inr (a, t)"
  then have new: "i \<notin> ga_id ` set (db_gates s)" and t: "db_gates t = db_gates s @ [?row]"
    by (auto simp: tx_run appendJournal_def rows_insert_Some split: option.splits)
  have "gate_of t k = Some g" if "gate_of s k = Some g" for k g
    using that by (simp add: gate_of_def t by_key_append)
  with assms(1) new show "settles s t" by (auto simp: settles_def gates_wf_def t)
qed

lemma settles_require:
  assumes "gates_wf s" and "st \<noteq> Pending"
    and "require_pending i (\<lambda>g. tx_seq (tx_write (settle_gate i st now res)) (appendJournal h k (rf g) (orig g) (f g) (d g))) s
      = Inr (a, t)"
  shows "settles s t"
proof -
  from assms(3) obtain g where g: "gate_of s i = Some g" "\<not> gate_settled g"
      and t: "\<exists>n js. t = (settle_gate i st now res s)\<lparr>db_journal_seq := n, db_journal := js\<rparr>"
    by (auto simp: require_pending_def tx_run appendJournal_def gate_of_def gate_settled_def
        split: option.splits if_splits)
  have "settles s (settle_gate i st now res s)"
    using assms(1,2) g by (intro settles_settle) auto
  with t show ?thesis by auto
qed

lemma settles_time_out:
  assumes "gates_wf s" and "tx_for (filter (\<lambda>g. p g \<and> gate_expired now g) (db_gates s))
      (\<lambda>g. time_out_gate h now (rf g) g) s = Inr (u, t)"
  shows "settles s t"
proof -
  from time_out_loop [OF assms(2)] obtain js where "db_gates t = map (timed_out now
      (ga_id ` set (filter (\<lambda>g. p g \<and> gate_expired now g) (db_gates s)))) (db_gates s)"
    by (metis (no_types, lifting) db.select_convs(11) db.surjective db.update_convs(11-13))
  then show ?thesis
    by (rule timed_out_keeps [OF assms(1), rotated]) (auto simp: gate_expired_def)
qed

text \<open>The exact outcome of the check before a terminal transition.\<close>

definition blocking :: "db \<Rightarrow> string \<Rightarrow> int \<Rightarrow> gate_row list" where
  "blocking s resource now =
     filter (\<lambda>g. ga_resource g = resource \<and> gate_pending now g) (db_gates s)"

definition expired_gates :: "db \<Rightarrow> string \<Rightarrow> int \<Rightarrow> gate_row list" where
  "expired_gates s resource now =
     filter (\<lambda>g. ga_resource g = resource \<and> gate_expired now g) (db_gates s)"

lemma tx_for_total:
  assumes "\<And>x s. \<exists>t. f x s = Inr ((), t)" shows "\<exists>t. tx_for xs f s = Inr ((), t)"
proof (induction xs arbitrary: s)
  case (Cons x xs)
  obtain s1 where "f x s = Inr ((), s1)" using assms by blast
  with Cons show ?case by simp
qed (simp add: tx_return_def)

lemma time_out_total: "\<exists>t. time_out_gate h now r g s = Inr ((), t)"
  by (simp add: time_out_gate_def tx_eval appendJournal_def)

lemma blocking_after:
  assumes "gates_wf s"
    and "db_gates t = map (timed_out now (ga_id ` set (expired_gates s resource now))) (db_gates s)"
  shows "blocking t resource now = blocking s resource now"
proof -
  have same: "timed_out now (ga_id ` set (expired_gates s resource now)) g = g"
    if "g \<in> set (db_gates s)" "\<not> (ga_resource g = resource \<and> gate_expired now g)" for g
  proof -
    have "g' = g" if "g' \<in> set (expired_gates s resource now)" "ga_id g' = ga_id g" for g'
      using that \<open>g \<in> set (db_gates s)\<close> gates_wf_gate_of [OF assms(1)]
      by (metis (no_types, lifting) expired_gates_def filter_is_subset option.inject subsetD)
    with that show ?thesis by (auto simp: timed_out_def expired_gates_def)
  qed
  have "filter (\<lambda>g. ga_resource g = resource \<and> gate_pending now g)
      (map (timed_out now (ga_id ` set (expired_gates s resource now))) gs) =
    filter (\<lambda>g. ga_resource g = resource \<and> gate_pending now g) gs"
    if "set gs \<subseteq> set (db_gates s)" for gs
    using that
  proof (induction gs)
    case (Cons g gs)
    show ?case
    proof (cases "ga_resource g = resource \<and> gate_expired now g")
      case True
      then have "\<not> gate_pending now g"
        by (auto simp: gate_expired_def gate_pending_def split: option.splits)
      moreover from True Cons.prems have "g \<in> set (expired_gates s resource now)"
        by (simp add: expired_gates_def)
      ultimately show ?thesis using Cons by (simp add: timed_out_def gate_pending_def)
    next
      case False
      with same Cons show ?thesis by simp
    qed
  qed simp
  then show ?thesis by (simp add: blocking_def assms(2))
qed

lemma checkPendingGates_run:
  assumes "gates_wf s"
  obtains t js where
    "t = s\<lparr>db_gates := map (timed_out now (ga_id ` set (expired_gates s resource now))) (db_gates s),
      db_journal_seq := db_journal_seq t, db_journal := db_journal s @ js\<rparr>"
    "map entry_of js = map (time_out_entry (\<lambda>_. resource)) (expired_gates s resource now)"
    "checkPendingGates h resource now s = (if blocking s resource now = [] then Inr ((), t)
      else Inl (GateBlockedError resource (map ga_id (blocking s resource now))))"
proof -
  obtain t where loop: "tx_for (expired_gates s resource now) (time_out_gate h now resource) s = Inr ((), t)"
    using tx_for_total [of "time_out_gate h now resource"] time_out_total by metis
  from time_out_loop [where rf = "\<lambda>_. resource", OF loop] obtain js where
    t: "t = s\<lparr>db_gates := map (timed_out now (ga_id ` set (expired_gates s resource now))) (db_gates s),
      db_journal_seq := db_journal_seq t, db_journal := db_journal s @ js\<rparr>"
    and js: "map entry_of js = map (time_out_entry (\<lambda>_. resource)) (expired_gates s resource now)"
    by blast
  have "db_gates t = map (timed_out now (ga_id ` set (expired_gates s resource now))) (db_gates s)"
    by (subst t) simp
  note after = blocking_after [OF assms this]
  have "checkPendingGates h resource now s = (if blocking s resource now = [] then Inr ((), t)
      else Inl (GateBlockedError resource (map ga_id (blocking s resource now))))"
    using loop unfolding checkPendingGates_def after [symmetric]
    by (simp add: tx_eval expired_gates_def blocking_def)
  with t js that show thesis by blast
qed

lemma settles_check: "gates_wf s \<Longrightarrow> checkPendingGates h resource now s = Inr (u, t) \<Longrightarrow> settles s t"
  by (auto simp: checkPendingGates_def tx_run intro: settles_time_out)

lemma gate_step_settles: "gate_step s t \<Longrightarrow> gates_wf s \<Longrightarrow> settles s t"
proof (induction rule: gate_step.induct)
  case (gate_create h i res aw fence tmo data orig now s t r)
  then show ?case by (intro settles_create)
next
  case (gate_resolve h i resol orig' now s t r')
  from this(1) show ?case unfolding resolveGate_def
    by (rule settles_commit) (auto intro: settles_require gate_resolve(2))
next
  case (gate_cancel h i orig now s t r')
  from this(1) show ?case unfolding cancelGate_def
    by (rule settles_commit) (auto intro: settles_require gate_cancel(2))
next
  case (gate_list h q st lim now s t r'')
  from this(1) show ?case unfolding listGates_def
    by (rule settles_commit)
      (auto simp: tx_run gate_list(2) intro: settles_time_out [where p = "\<lambda>_. True", simplified])
next
  case (gate_check h res now s t r')
  from this(1) show ?case by (rule settles_commit) (auto intro: settles_check gate_check(2))
next
  case (gate_other t s)
  then show ?case by (simp add: settles_def gates_wf_def gate_of_def)
qed

interpretation gates: settled_records gate_step gates_wf gate_of gate_settled
  by unfold_locales (auto dest: gate_step_settles simp: settles_def)

section \<open>Properties\<close>

text \<open>C3. A gate settles once: after any gate operation has resolved, cancelled or timed it out, no
  sequence of further operations changes its row, and a settled gate can only be reported as
  already settled by \<open>resolveGate\<close> and \<open>cancelGate\<close>.\<close>

theorem gate_settles_once:
  assumes "gate_step\<^sup>*\<^sup>* empty_db s" and "gate_of s i = Some g" and "gate_settled g"
    and "gate_step\<^sup>*\<^sup>* s t"
  shows "gate_of t i = Some g
    \<and> resolveGate h i resol orig now t = (t, Inl (GateAlreadySettledError i (ga_status g)))
    \<and> cancelGate h i orig' now t = (t, Inl (GateAlreadySettledError i (ga_status g)))"
proof -
  have "gates_wf empty_db" by (simp add: gates_wf_def empty_db_def)
  with assms(1) have "gates_wf s" by (rule gates.inv_steps)
  from gates.frozen [OF assms(4) this assms(2,3)] have "gate_of t i = Some g" .
  with assms(3) show ?thesis
    by (simp add: resolveGate_def cancelGate_def require_pending_def tx_eval gate_of_def
        gate_settled_def)
qed

text \<open>The gate check is exact: it succeeds precisely when no gate on the resource is both
  unsettled and within its time limit, it then leaves no unsettled gate on the resource, and every
  gate it timed out has one \<open>gate.timed_out\<close> journal entry in the same transaction; otherwise it
  names the blocking gates.\<close>

theorem gate_check_exact:
  assumes "gates_wf s"
  shows "if blocking s resource now = []
    then \<exists>t js. checkPendingGates h resource now s = Inr ((), t)
      \<and> (\<forall>g \<in> set (db_gates t). ga_resource g = resource \<longrightarrow> gate_settled g)
      \<and> db_journal t = db_journal s @ js
      \<and> map entry_of js = map (time_out_entry (\<lambda>_. resource)) (expired_gates s resource now)
    else checkPendingGates h resource now s =
      Inl (GateBlockedError resource (map ga_id (blocking s resource now)))"
proof -
  obtain t js where t: "t = s\<lparr>db_gates := map (timed_out now (ga_id ` set (expired_gates s resource now)))
        (db_gates s), db_journal_seq := db_journal_seq t, db_journal := db_journal s @ js\<rparr>"
      and js: "map entry_of js = map (time_out_entry (\<lambda>_. resource)) (expired_gates s resource now)"
      and run: "checkPendingGates h resource now s = (if blocking s resource now = [] then Inr ((), t)
        else Inl (GateBlockedError resource (map ga_id (blocking s resource now))))"
    by (rule checkPendingGates_run [OF assms])
  have gt: "db_gates t = map (timed_out now (ga_id ` set (expired_gates s resource now))) (db_gates s)"
    and jt: "db_journal t = db_journal s @ js" by (subst t, simp)+
  have "gate_settled (timed_out now (ga_id ` set (expired_gates s resource now)) g)"
    if "g \<in> set (db_gates s)" "ga_resource g = resource" "blocking s resource now = []" for g
  proof (cases "ga_resolved_at g")
    case None
    with that have "g \<in> set (expired_gates s resource now)"
      by (fastforce simp: blocking_def expired_gates_def filter_empty_conv gate_pending_def
          gate_expired_def split: option.splits)
    then show ?thesis by (simp add: gate_settled_def timed_out_def)
  next
    case (Some r)
    with that assms show ?thesis by (auto simp: gates_wf_def gate_settled_def timed_out_def)
  qed
  with gt have "\<forall>g \<in> set (db_gates t). ga_resource g = resource \<longrightarrow> gate_settled g"
    if "blocking s resource now = []" using that by auto
  with run jt js show ?thesis by auto
qed

subsection \<open>Witnesses\<close>

definition sample_gate :: "int option \<Rightarrow> gate_row" where
  "sample_gate tmo = \<lparr>ga_id = ''g'', ga_resource = ''t1'', ga_await_type = ''review'',
     ga_status = Pending, ga_fence = 1, ga_timeout_at = tmo, ga_resolved_at = None,
     ga_resolution = None, ga_created_at = 0, ga_created_by = ''a'', ga_token_id = None, ga_data = []\<rparr>"

definition fenced_db :: db where
  "fenced_db = fst (acquire (sample_host 0 ''u'') ''t1'' (system_origin ''a'') Exclusive 10 [] 0 None empty_db)"

theorem gate_check_exact_witness:
  "\<exists>t js. checkPendingGates (sample_host 9 ''u'') ''t1'' 9 (empty_db\<lparr>db_gates := [sample_gate (Some 5)]\<rparr>)
      = Inr ((), t) \<and> db_journal t = db_journal empty_db @ js \<and> length js = 1"
proof -
  let ?s = "empty_db\<lparr>db_gates := [sample_gate (Some 5)]\<rparr>"
  have "gates_wf ?s" by (simp add: gates_wf_def sample_gate_def)
  moreover have "blocking ?s ''t1'' 9 = []" "expired_gates ?s ''t1'' 9 = [sample_gate (Some 5)]"
    by (simp_all add: blocking_def expired_gates_def sample_gate_def gate_pending_def gate_expired_def)
  ultimately obtain t js where "checkPendingGates (sample_host 9 ''u'') ''t1'' 9 ?s = Inr ((), t)"
      "db_journal t = db_journal ?s @ js"
      "map entry_of js = map (time_out_entry (\<lambda>_. ''t1'')) [sample_gate (Some 5)]"
    using gate_check_exact [of ?s "''t1''" 9 "sample_host 9 ''u''"] by auto
  moreover from this(3) have "length js = 1" by (metis length_map length_Cons list.size(3) One_nat_def)
  ultimately show ?thesis by auto
qed

theorem gate_settles_once_witness:
  "\<exists>s t. gate_step\<^sup>*\<^sup>* empty_db s \<and> (\<exists>g. gate_of s ''g'' = Some g \<and> ga_status g = Resolved)
    \<and> cancelGate (sample_host 3 ''u'') ''g'' (system_origin ''b'') 3 s
        = (s, Inl (GateAlreadySettledError ''g'' Resolved))"
proof -
  let ?h = "sample_host 1 ''u''"
  obtain s1 g where s1: "createGate ?h ''g'' ''t1'' ''review'' 1 None [] (system_origin ''a'') 1 fenced_db
      = (s1, Inr g)" "gate_of s1 ''g'' = Some g" "ga_status g = Pending"
    by (simp add: createGate_def Let_def fenced_db_def lease_run sample_defs assertResourceFence_def
        rows_insert_def gate_of_def)
  have found: "by_key ga_id ''g'' (db_gates s1) = Some g" using s1(2) by (simp add: gate_of_def)
  obtain s2 where s2: "resolveGate ?h ''g'' None None 2 s1 = (s2, Inr ())"
      "gate_of s2 ''g'' = Some (g\<lparr>ga_status := Resolved, ga_resolved_at := Some 2, ga_resolution := None\<rparr>)"
    by (simp add: resolveGate_def require_pending_def tx_eval appendJournal_def found s1(2,3)
        gate_of_settle)
  have "gate_step empty_db fenced_db"
    by (rule gate_other) (simp add: fenced_db_def lease_run sample_defs)
  moreover have "gate_step fenced_db s1" "gate_step s1 s2"
    using s1(1) s2(1) by (blast intro: gate_create gate_resolve)+
  ultimately have run: "gate_step\<^sup>*\<^sup>* empty_db s2" by (meson converse_rtranclp_into_rtranclp r_into_rtranclp)
  from gate_settles_once [OF run s2(2) _ rtranclp.rtrancl_refl] run s2(2) show ?thesis
    by (intro exI [of _ s2]) (auto simp: gate_settled_def)
qed

end
