(* ===== verification/Reviews.thy ===== *)
theory Reviews
  imports Gates
begin

text \<open>
  Artifact reviews: \<^verbatim>\<open>packages/ops-sqlite/src/artifact-review-ops.ts\<close>. The review history of an
  artifact is append-only and numbered; a decision is accepted against the revision its author
  has read. \<open>assertArtifactReviewPolicy\<close> uses the latest decisions to admit a task to a status.
\<close>

section \<open>Summaries and the batched lookup\<close>

record review_summary =
  sm_state :: "review_decision option"
  sm_review_revision :: int
  sm_latest :: "artifact_review_row option"

text \<open>\<open>sm_state = None\<close> is \<^verbatim>\<open>unreviewed\<close>.\<close>

definition reviewSummary :: "artifact_review_row option \<Rightarrow> review_summary" where
  "reviewSummary event = (case event of
      None \<Rightarrow> \<lparr>sm_state = None, sm_review_revision = 0, sm_latest = None\<rparr>
    | Some e \<Rightarrow> \<lparr>sm_state = (if av_decision e = Revoked then None else Some (av_decision e)),
        sm_review_revision = av_review_revision e, sm_latest = Some e\<rparr>)"

record artifact_trust =
  tr_provenance :: "json option"
  tr_revision_creation :: "json option"
  tr_review :: review_summary

type_synonym trust_map = "string \<Rightarrow> artifact_trust option"

definition trust_pointer :: "artifact_pointer_row \<Rightarrow> trust_map \<Rightarrow> trust_map" where
  "trust_pointer p m = m(ap_r2_key p \<mapsto> \<lparr>tr_provenance = ap_provenance p,
     tr_revision_creation = ap_revision_creation p, tr_review = reviewSummary None\<rparr>)"

definition trust_archive :: "artifact_revision_row \<Rightarrow> trust_map \<Rightarrow> trust_map" where
  "trust_archive a m = (if m (rx_r2_key a) \<noteq> None then m else
     m(rx_r2_key a \<mapsto> \<lparr>tr_provenance = rx_provenance a,
       tr_revision_creation = rx_revision_creation a, tr_review = reviewSummary None\<rparr>))"

definition trust_review :: "artifact_review_row \<Rightarrow> trust_map \<Rightarrow> trust_map" where
  "trust_review r m = (case m (av_artifact_key r) of
      None \<Rightarrow> m
    | Some item \<Rightarrow> m(av_artifact_key r \<mapsto> item\<lparr>tr_review := reviewSummary (Some r)\<rparr>))"

definition latest_of_key :: "db \<Rightarrow> artifact_review_row \<Rightarrow> bool" where
  "latest_of_key s r = list_all (\<lambda>q. av_artifact_key q = av_artifact_key r
     \<longrightarrow> av_review_revision q \<le> av_review_revision r) (db_artifact_reviews s)"

definition trust_chunk :: "db \<Rightarrow> string list \<Rightarrow> trust_map \<Rightarrow> trust_map" where
  "trust_chunk s chunk m =
     fold trust_review
       (filter (\<lambda>r. av_artifact_key r \<in> set chunk \<and> latest_of_key s r) (db_artifact_reviews s))
    (fold trust_archive (filter (\<lambda>a. rx_r2_key a \<in> set chunk) (db_artifact_revisions s))
    (fold trust_pointer (filter (\<lambda>p. ap_r2_key p \<in> set chunk) (db_artifact_pointers s)) m))"

text \<open>\<open>for (let offset = 0; offset < keys.length; offset += n)\<close>.\<close>

function chunks :: "nat \<Rightarrow> 'a list \<Rightarrow> 'a list list" where
  "chunks n xs = (if n = 0 \<or> xs = [] then [] else take n xs # chunks n (drop n xs))"
  by pat_completeness auto
termination by (relation "measure (\<lambda>(n, xs). length xs)") auto

declare chunks.simps [simp del]

definition artifactTrustByKeys :: "db \<Rightarrow> string list \<Rightarrow> trust_map" where
  "artifactTrustByKeys s keys = fold (trust_chunk s) (chunks 200 keys) (\<lambda>_. None)"

definition enrichArtifacts :: "db \<Rightarrow> string list \<Rightarrow> artifact_trust list" where
  "enrichArtifacts s keys = map (\<lambda>k. case artifactTrustByKeys s keys k of
      Some t \<Rightarrow> t
    | None \<Rightarrow> \<lparr>tr_provenance = None, tr_revision_creation = None, tr_review = reviewSummary None\<rparr>) keys"

section \<open>Recording and listing reviews\<close>

definition assertArtifact :: "db \<Rightarrow> string \<Rightarrow> error + artifact_pointer_row option" where
  "assertArtifact s key = (case by_key ap_r2_key key (db_artifact_pointers s) of
      Some p \<Rightarrow> Inr (Some p)
    | None \<Rightarrow> (case by_key rx_r2_key key (db_artifact_revisions s) of
        Some _ \<Rightarrow> Inr None
      | None \<Rightarrow> Inl (ArtifactReviewError 404 ''not-found'' [])))"

definition reviews_of :: "db \<Rightarrow> string \<Rightarrow> artifact_review_row list" where
  "reviews_of s key = filter (\<lambda>r. av_artifact_key r = key) (db_artifact_reviews s)"

definition reviews_desc :: "artifact_review_row list \<Rightarrow> artifact_review_row list" where
  "reviews_desc rs = rev (sort_key av_review_revision rs)"

definition listArtifactReviews :: "db \<Rightarrow> string \<Rightarrow> int \<Rightarrow> int option
    \<Rightarrow> error + (artifact_review_row list \<times> int option)" where
  "listArtifactReviews s key limit before_revision = (case assertArtifact s key of
      Inl e \<Rightarrow> Inl e
    | Inr _ \<Rightarrow>
        if limit < 1 \<or> 100 < limit \<or> (case before_revision of None \<Rightarrow> False | Some b \<Rightarrow> b < 1)
        then Inl ZodError
        else let rows = take (nat limit + 1) (reviews_desc (filter
               (\<lambda>r. case before_revision of None \<Rightarrow> True | Some b \<Rightarrow> av_review_revision r < b)
               (reviews_of s key)))
             in if nat limit < length rows
                then Inr (butlast rows, Some (av_review_revision (last (butlast rows))))
                else Inr (rows, None))"

fun decision_str :: "review_decision \<Rightarrow> string" where
  "decision_str Trusted = ''trusted''"
| "decision_str Rejected = ''rejected''"
| "decision_str Superseded = ''superseded''"
| "decision_str Revoked = ''revoked''"

definition latest_review :: "db \<Rightarrow> string \<Rightarrow> artifact_review_row option" where
  "latest_review s key = (case reviews_desc (reviews_of s key) of [] \<Rightarrow> None | r # _ \<Rightarrow> Some r)"

definition review_event_json :: "artifact_review_row \<Rightarrow> jobj" where
  "review_event_json e = [(''artifact_key'', JStr (av_artifact_key e)),
     (''review_revision'', JNum (av_review_revision e)), (''principal_id'', JStr (av_principal_id e)),
     (''participant_id'', JStr (av_participant_id e)), (''created_at'', JNum (av_created_at e)),
     (''decision'', JStr (decision_str (av_decision e))), (''reason'', jnullable JStr (av_reason e))]"

definition review_request_json :: "string \<Rightarrow> int \<Rightarrow> review_decision \<Rightarrow> string option \<Rightarrow> string" where
  "review_request_json key expected decision reason = stringify (JArr [JStr key, JNum expected,
     JStr (decision_str decision), jnullable JStr reason])"

definition review_event :: "host \<Rightarrow> string \<Rightarrow> int \<Rightarrow> review_decision \<Rightarrow> string option \<Rightarrow>
    request_origin \<Rightarrow> string \<Rightarrow> artifact_review_row" where
  "review_event h key expected decision reason orig operationId =
     \<lparr>av_artifact_key = key, av_review_revision = expected + 1,
      av_principal_id = or_principalId orig, av_participant_id = or_participantId orig,
      av_created_at = date_now h, av_decision = decision, av_reason = reason,
      av_operation_id = operationId,
      av_request_json = review_request_json key expected decision reason\<rparr>"

definition reviewArtifact :: "host \<Rightarrow> string \<Rightarrow> int \<Rightarrow> review_decision \<Rightarrow> string option \<Rightarrow>
    request_origin \<Rightarrow> string \<Rightarrow> review_summary op" where
  "reviewArtifact h key expected decision reason orig operationId s =
    (if expected < 0 \<or> (case reason of None \<Rightarrow> False | Some r \<Rightarrow> 4096 < length r) then (s, Inl ZodError)
     else commit
      (tx_bind (tx_read (\<lambda>s. assertArtifact s key)) (\<lambda>found. tx_seq (tx_lift found)
      (tx_bind (tx_read (\<lambda>s. by_key av_operation_id operationId (db_artifact_reviews s))) (\<lambda>replay.
       case replay of
         Some r \<Rightarrow>
           if av_principal_id r \<noteq> or_principalId orig
              \<or> av_request_json r \<noteq> review_request_json key expected decision reason
           then tx_throw (ArtifactReviewError 422 ''idempotency-key-conflict'' [])
           else tx_return (reviewSummary (Some r))
       | None \<Rightarrow>
          tx_bind (tx_read (\<lambda>s. latest_review s key)) (\<lambda>latest.
          tx_seq (tx_guard ((case latest of None \<Rightarrow> 0 | Some l \<Rightarrow> av_review_revision l) = expected)
            (ArtifactReviewError 409 ''review-conflict'' []))
          (let event = review_event h key expected decision reason orig operationId in
           tx_seq (tx_write (\<lambda>s. s\<lparr>db_artifact_reviews := db_artifact_reviews s @ [event]\<rparr>))
          (tx_seq (appendJournal h ''artifact.reviewed'' key orig None (review_event_json event))
          (tx_return (reviewSummary (Some event)))))))))) s)"

section \<open>The review policy of a task status\<close>

definition slot_requires :: "string \<Rightarrow> reference_slot \<Rightarrow> bool" where
  "slot_requires status slot = (case rs_require_trusted_for_statuses slot of
      None \<Rightarrow> False | Some sts \<Rightarrow> status \<in> set sts)"

text \<open>\<open>resolveCurrentSchema(db)?.work_units[type]?.references?.filter(...) ?? []\<close>.\<close>

definition required_slots :: "tila_schema option \<Rightarrow> string \<Rightarrow> string \<Rightarrow> reference_slot list" where
  "required_slots sch ty status =
     (case Option.bind (Option.bind sch (\<lambda>d. work_unit_of d ty)) wu_references of
        None \<Rightarrow> [] | Some refs \<Rightarrow> filter (slot_requires status) refs)"

definition slot_keys :: "db \<Rightarrow> string \<Rightarrow> reference_slot \<Rightarrow> string list" where
  "slot_keys s entityId slot = map ea_artifact_key
     (filter (\<lambda>r. ea_entity_id r = entityId \<and> ea_slot r = rs_name slot)
       (db_entity_artifact_references s))"

definition artifact_state :: "db \<Rightarrow> string list \<Rightarrow> int \<Rightarrow> string \<Rightarrow> string" where
  "artifact_state s keys now key =
    (case by_key ap_r2_key key (db_artifact_pointers s) of
       None \<Rightarrow> ''unavailable''
     | Some p \<Rightarrow>
         if ap_tombstoned p \<or> ap_blob_deleted_at p \<noteq> None
            \<or> (case ap_expires_at p of None \<Rightarrow> False | Some e \<Rightarrow> e \<le> now)
         then ''unavailable''
         else (case artifactTrustByKeys s keys key of
             None \<Rightarrow> ''unreviewed''
           | Some t \<Rightarrow> (case sm_state (tr_review t) of
               None \<Rightarrow> ''unreviewed'' | Some d \<Rightarrow> decision_str d)))"

definition slot_failure :: "db \<Rightarrow> string \<Rightarrow> int \<Rightarrow> reference_slot
    \<Rightarrow> (string \<times> (string \<times> string) list) list" where
  "slot_failure s entityId now slot =
    (let keys = slot_keys s entityId slot;
         bad = [(k, st). k \<leftarrow> keys, st \<leftarrow> [artifact_state s keys now k], st \<noteq> ''trusted'']
     in if keys = [] \<or> bad \<noteq> [] then [(rs_name slot, bad)] else [])"

definition assertArtifactReviewPolicy ::
    "host \<Rightarrow> string \<Rightarrow> string \<Rightarrow> json option \<Rightarrow> db \<Rightarrow> error + unit" where
  "assertArtifactReviewPolicy h entityId ty status s = (case as_string status of
      None \<Rightarrow> Inr ()
    | Some st \<Rightarrow> (case resolveCurrentSchema h s of
        Inl e \<Rightarrow> Inl e
      | Inr sch \<Rightarrow>
          let failures = concat (map (slot_failure s entityId (date_now h)) (required_slots sch ty st))
          in if failures = [] then Inr ()
             else Inl (ArtifactReviewError 422 ''artifact-review-required'' failures)))"

section \<open>The batched lookup computes the latest review of each key\<close>

definition artifact_trust :: "db \<Rightarrow> string \<Rightarrow> artifact_trust option" where
  "artifact_trust s key =
     map_option (\<lambda>t. case latest_review s key of
         None \<Rightarrow> t | Some r \<Rightarrow> t\<lparr>tr_review := reviewSummary (Some r)\<rparr>)
       (case by_key ap_r2_key key (db_artifact_pointers s) of
          Some p \<Rightarrow> Some \<lparr>tr_provenance = ap_provenance p,
            tr_revision_creation = ap_revision_creation p, tr_review = reviewSummary None\<rparr>
        | None \<Rightarrow> (case by_key rx_r2_key key (db_artifact_revisions s) of
            Some a \<Rightarrow> Some \<lparr>tr_provenance = rx_provenance a,
              tr_revision_creation = rx_revision_creation a, tr_review = reviewSummary None\<rparr>
          | None \<Rightarrow> None))"

text \<open>The history of every artifact is numbered 1, 2, 3, ... in insertion order; pointers, archived
  revisions and operations have unique keys.\<close>

definition reviews_wf :: "db \<Rightarrow> bool" where
  "reviews_wf s \<longleftrightarrow>
     (\<forall>key. map av_review_revision (reviews_of s key) = map int [1..<Suc (length (reviews_of s key))])
     \<and> distinct (map av_operation_id (db_artifact_reviews s))
     \<and> distinct (map ap_r2_key (db_artifact_pointers s))
     \<and> distinct (map rx_r2_key (db_artifact_revisions s))"

lemma numbered_sorted:
  "map f rs = map int [1..<Suc (length rs)] \<Longrightarrow> sort_key f rs = rs"
  by (rule sort_key_id_if_sorted) (simp add: sorted_wrt_map del: upt_Suc)

lemma latest_review_wf:
  assumes "reviews_wf s"
  shows "latest_review s key =
    (if reviews_of s key = [] then None else Some (last (reviews_of s key)))"
proof -
  have "reviews_desc (reviews_of s key) = rev (reviews_of s key)"
    using assms numbered_sorted by (auto simp: reviews_desc_def reviews_wf_def)
  then show ?thesis
    by (cases "reviews_of s key" rule: rev_cases) (simp_all add: latest_review_def)
qed

lemma numbered_max:
  assumes "map f rs = map int [1..<Suc (length rs)]" and "r \<in> set rs"
  shows "(\<forall>q \<in> set rs. f q \<le> f r) \<longleftrightarrow> r = last rs"
proof -
  have nth: "f (rs ! i) = int i + 1" if "i < length rs" for i
  proof -
    have "f (rs ! i) = map f rs ! i" using that by simp
    also have "\<dots> = int ([1..<Suc (length rs)] ! i)" unfolding assms(1) using that
      by (intro nth_map) (simp del: upt_Suc)
    also have "\<dots> = int i + 1" using that by (subst nth_upt) auto
    finally show ?thesis .
  qed
  from assms(2) obtain i where i: "i < length rs" "r = rs ! i" by (auto simp: in_set_conv_nth)
  have last: "last rs = rs ! (length rs - 1)" using i(1) by (cases rs) (simp_all add: last_conv_nth)
  show ?thesis
  proof
    assume "\<forall>q \<in> set rs. f q \<le> f r"
    moreover have "rs ! (length rs - 1) \<in> set rs" using i(1) by (intro nth_mem) auto
    ultimately have "f (rs ! (length rs - 1)) \<le> f (rs ! i)" using i(2) by blast
    then have "i = length rs - 1" using i(1) nth by simp
    with i(2) last show "r = last rs" by simp
  next
    assume "r = last rs"
    then show "\<forall>q \<in> set rs. f q \<le> f r" using last nth i(1) by (auto simp: in_set_conv_nth)
  qed
qed

lemma latest_of_key_wf:
  assumes "reviews_wf s" and "r \<in> set (db_artifact_reviews s)"
  shows "latest_of_key s r \<longleftrightarrow> latest_review s (av_artifact_key r) = Some r"
proof -
  have "r \<in> set (reviews_of s (av_artifact_key r))" using assms(2) by (simp add: reviews_of_def)
  with assms(1) numbered_max [of av_review_revision "reviews_of s (av_artifact_key r)" r]
  have "(\<forall>q \<in> set (reviews_of s (av_artifact_key r)). av_review_revision q \<le> av_review_revision r)
      \<longleftrightarrow> r = last (reviews_of s (av_artifact_key r))"
    by (simp add: reviews_wf_def)
  moreover from \<open>r \<in> set (reviews_of s (av_artifact_key r))\<close> have "reviews_of s (av_artifact_key r) \<noteq> []"
    by auto
  moreover have "latest_of_key s r \<longleftrightarrow>
      (\<forall>q \<in> set (reviews_of s (av_artifact_key r)). av_review_revision q \<le> av_review_revision r)"
    by (auto simp: latest_of_key_def list_all_iff reviews_of_def)
  ultimately show ?thesis by (auto simp: latest_review_wf [OF assms(1)])
qed

lemma fold_trust_pointer:
  "distinct (map ap_r2_key ps) \<Longrightarrow> fold trust_pointer ps m key = (case by_key ap_r2_key key ps of
      None \<Rightarrow> m key
    | Some p \<Rightarrow> Some \<lparr>tr_provenance = ap_provenance p, tr_revision_creation = ap_revision_creation p,
        tr_review = reviewSummary None\<rparr>)"
proof (induction ps arbitrary: m)
  case (Cons p ps)
  then have "by_key ap_r2_key (ap_r2_key p) ps = None" by (auto simp: by_key_None)
  with Cons show ?case by (auto simp: by_key_Cons trust_pointer_def split: option.split)
qed simp

lemma fold_trust_archive:
  "fold trust_archive as m key = (case m key of Some t \<Rightarrow> Some t | None \<Rightarrow>
     (case by_key rx_r2_key key as of
        None \<Rightarrow> None
      | Some a \<Rightarrow> Some \<lparr>tr_provenance = rx_provenance a,
          tr_revision_creation = rx_revision_creation a, tr_review = reviewSummary None\<rparr>))"
  by (induction as arbitrary: m) (auto simp: by_key_Cons trust_archive_def split: option.split)

lemma fold_trust_review:
  "distinct (map av_artifact_key rs) \<Longrightarrow> fold trust_review rs m key = (case by_key av_artifact_key key rs of
      None \<Rightarrow> m key
    | Some r \<Rightarrow> map_option (\<lambda>t. t\<lparr>tr_review := reviewSummary (Some r)\<rparr>) (m key))"
proof (induction rs arbitrary: m)
  case (Cons r rs)
  then have "by_key av_artifact_key (av_artifact_key r) rs = None" by (auto simp: by_key_None)
  with Cons show ?case by (auto simp: by_key_Cons trust_review_def split: option.split)
qed simp

lemma by_key_filter:
  assumes "\<And>r. k r = x \<Longrightarrow> p r" shows "by_key k x (filter p t) = by_key k x t"
  using assms by (induction t) (auto simp: by_key_Cons)

lemma by_key_filter_none:
  assumes "\<And>r. k r = x \<Longrightarrow> \<not> p r" shows "by_key k x (filter p t) = None"
  using assms by (auto simp: by_key_None)

lemma latest_reviews_distinct:
  assumes "reviews_wf s"
  shows "distinct (map av_artifact_key (filter (\<lambda>r. p r \<and> latest_of_key s r) (db_artifact_reviews s)))"
proof -
  have "inj_on av_artifact_key (set (filter (\<lambda>r. p r \<and> latest_of_key s r) (db_artifact_reviews s)))"
    by (rule inj_onI) (auto simp: latest_of_key_wf [OF assms])
  moreover have "distinct (db_artifact_reviews s)"
    using assms by (simp add: reviews_wf_def distinct_map)
  ultimately show ?thesis by (simp add: distinct_map)
qed

lemma by_key_latest:
  assumes "reviews_wf s" and "key \<in> set chunk"
  shows "by_key av_artifact_key key (filter (\<lambda>r. av_artifact_key r \<in> set chunk \<and> latest_of_key s r)
      (db_artifact_reviews s)) = latest_review s key" (is "by_key _ _ ?rs = _")
proof (cases "latest_review s key")
  case None
  then have "reviews_of s key = []" by (simp add: latest_review_wf [OF assms(1)] split: if_splits)
  with None show ?thesis by (auto simp: by_key_None reviews_of_def filter_empty_conv)
next
  case (Some r)
  then have "r \<in> set (reviews_of s key)"
    by (auto simp: latest_review_wf [OF assms(1)] split: if_splits)
  with Some assms have "r \<in> set ?rs"
    by (auto simp: reviews_of_def latest_of_key_wf [OF assms(1)])
  with by_key_unique [OF latest_reviews_distinct [OF assms(1)]] \<open>r \<in> set (reviews_of s key)\<close> Some
  show ?thesis by (auto simp: reviews_of_def)
qed

lemma trust_chunk_key:
  assumes "reviews_wf s" and "m key = None \<or> m key = artifact_trust s key"
  shows "trust_chunk s chunk m key = (if key \<in> set chunk then artifact_trust s key else m key)"
proof (cases "key \<in> set chunk")
  case True
  let ?ps = "filter (\<lambda>p. ap_r2_key p \<in> set chunk) (db_artifact_pointers s)"
  have ps: "distinct (map ap_r2_key ?ps)"
    using assms(1) by (auto simp: reviews_wf_def intro: distinct_map_filter)
  have "by_key ap_r2_key key ?ps = by_key ap_r2_key key (db_artifact_pointers s)"
    "by_key rx_r2_key key (filter (\<lambda>a. rx_r2_key a \<in> set chunk) (db_artifact_revisions s)) =
      by_key rx_r2_key key (db_artifact_revisions s)"
    using True by (auto intro: by_key_filter)
  with True assms show ?thesis
    unfolding trust_chunk_def fold_trust_review [OF latest_reviews_distinct [OF assms(1)]]
      by_key_latest [OF assms(1) True] fold_trust_archive fold_trust_pointer [OF ps]
    by (auto simp: artifact_trust_def reviewSummary_def split: option.splits)
next
  case False
  have ps: "distinct (map ap_r2_key (filter (\<lambda>p. ap_r2_key p \<in> set chunk) (db_artifact_pointers s)))"
    using assms(1) by (auto simp: reviews_wf_def intro: distinct_map_filter)
  have "by_key ap_r2_key key (filter (\<lambda>p. ap_r2_key p \<in> set chunk) (db_artifact_pointers s)) = None"
    "by_key rx_r2_key key (filter (\<lambda>a. rx_r2_key a \<in> set chunk) (db_artifact_revisions s)) = None"
    "by_key av_artifact_key key (filter (\<lambda>r. av_artifact_key r \<in> set chunk \<and> latest_of_key s r)
      (db_artifact_reviews s)) = None"
    using False by (auto intro: by_key_filter_none)
  with False show ?thesis
    unfolding trust_chunk_def fold_trust_review [OF latest_reviews_distinct [OF assms(1)]]
      fold_trust_archive fold_trust_pointer [OF ps]
    by (simp split: option.splits)
qed

lemma concat_chunks: "n \<noteq> 0 \<Longrightarrow> concat (chunks n xs) = xs"
proof (induction n xs rule: chunks.induct)
  case (1 n xs)
  then show ?case by (subst chunks.simps) auto
qed

lemma fold_trust_chunks:
  assumes "reviews_wf s" and "m key = None \<or> m key = artifact_trust s key"
  shows "fold (trust_chunk s) cs m key = (if key \<in> set (concat cs) then artifact_trust s key else m key)"
  using assms(2)
proof (induction cs arbitrary: m)
  case (Cons c cs)
  then have "trust_chunk s c m key = (if key \<in> set c then artifact_trust s key else m key)"
    by (intro trust_chunk_key assms(1))
  with Cons show ?case by auto
qed simp

section \<open>Reviewing keeps the history\<close>

lemma reviews_of_append: "reviews_of (s\<lparr>db_artifact_reviews := db_artifact_reviews s @ [e]\<rparr>) key =
    reviews_of s key @ (if av_artifact_key e = key then [e] else [])"
  by (simp add: reviews_of_def)

lemma latest_revision_wf:
  assumes "reviews_wf s"
  shows "(case latest_review s key of None \<Rightarrow> 0 | Some l \<Rightarrow> av_review_revision l) =
    int (length (reviews_of s key))"
proof (cases "reviews_of s key" rule: rev_cases)
  case Nil
  then show ?thesis by (simp add: latest_review_wf [OF assms])
next
  case (snoc ys y)
  have "map av_review_revision (reviews_of s key) = map int [1..<Suc (length (reviews_of s key))]"
    using assms by (simp add: reviews_wf_def)
  then have "av_review_revision y = int (length (reviews_of s key))" by (simp add: snoc)
  then show ?thesis by (simp add: latest_review_wf [OF assms] snoc)
qed

lemma reviews_wf_append:
  assumes "reviews_wf s" and "av_review_revision e = int (length (reviews_of s (av_artifact_key e))) + 1"
    and "av_operation_id e \<notin> av_operation_id ` set (db_artifact_reviews s)"
  shows "reviews_wf (s\<lparr>db_artifact_reviews := db_artifact_reviews s @ [e]\<rparr>)"
  using assms unfolding reviews_wf_def reviews_of_append by (auto simp: reviews_of_def)

text \<open>The outcome of a review in a well-formed history.\<close>

lemma reviewArtifact_outcome:
  assumes "reviewArtifact h key expected decision reason orig oid s = (t, Inr r)"
  obtains (replayed) e where "t = s" "e \<in> set (db_artifact_reviews s)" "av_operation_id e = oid"
      "av_principal_id e = or_principalId orig" "r = reviewSummary (Some e)"
      "av_request_json e = review_request_json key expected decision reason"
    | (recorded) js n where "by_key av_operation_id oid (db_artifact_reviews s) = None"
      "(case latest_review s key of None \<Rightarrow> 0 | Some l \<Rightarrow> av_review_revision l) = expected"
      "t = s\<lparr>db_artifact_reviews := db_artifact_reviews s @
          [review_event h key expected decision reason orig oid],
        db_journal_seq := n, db_journal := js\<rparr>"
      "r = reviewSummary (Some (review_event h key expected decision reason orig oid))"
proof (cases "by_key av_operation_id oid (db_artifact_reviews s)")
  case (Some e)
  with assms have "t = s" "av_principal_id e = or_principalId orig" "r = reviewSummary (Some e)"
      "av_request_json e = review_request_json key expected decision reason"
    by (simp_all add: reviewArtifact_def commit_ok tx_run split: if_splits)
  with by_key_Some [OF Some] show thesis by (intro replayed) auto
next
  case None
  let ?e = "review_event h key expected decision reason orig oid"
  from assms None
  have "(case latest_review s key of None \<Rightarrow> 0 | Some l \<Rightarrow> av_review_revision l) = expected"
      "r = reviewSummary (Some ?e)" "appendJournal h ''artifact.reviewed'' key orig None
        (review_event_json ?e) (s\<lparr>db_artifact_reviews := db_artifact_reviews s @ [?e]\<rparr>) = Inr ((), t)"
    by (simp_all add: reviewArtifact_def commit_ok tx_run Let_def split: if_splits)
  then show thesis using None by (intro recorded) (simp_all add: appendJournal_def)
qed

lemma reviewArtifact_wf:
  assumes "reviewArtifact h key expected decision reason orig oid s = (t, r)" and "reviews_wf s"
  shows "reviews_wf t"
proof (cases r)
  case (Inl e)
  with assms show ?thesis by (auto simp: reviewArtifact_def commit_error split: if_splits)
next
  case (Inr v)
  from assms(1) [unfolded Inr] show ?thesis
  proof (cases rule: reviewArtifact_outcome)
    case (replayed e)
    with assms(2) show ?thesis by simp
  next
    case (recorded js n)
    let ?e = "review_event h key expected decision reason orig oid"
    have "reviews_wf (s\<lparr>db_artifact_reviews := db_artifact_reviews s @ [?e]\<rparr>)"
      using recorded(1,2) latest_revision_wf [OF assms(2), of key]
      by (intro reviews_wf_append assms(2)) (auto simp: review_event_def by_key_None)
    then show ?thesis by (simp add: recorded(3) reviews_wf_def reviews_of_def)
  qed
qed

section \<open>Properties\<close>

text \<open>The batched trust lookup is the per-key lookup: for any list of keys, in slices of 200 and
  with repetitions, each requested key gets its pointer's (else its archived revision's)
  provenance with its latest review, and no other key gets an entry.\<close>

theorem artifactTrustByKeys_correct:
  assumes "reviews_wf s"
  shows "artifactTrustByKeys s keys key = (if key \<in> set keys then artifact_trust s key else None)"
  unfolding artifactTrustByKeys_def
  by (subst fold_trust_chunks [OF assms]) (simp_all add: concat_chunks del: set_concat)

definition review_step :: "db \<Rightarrow> db \<Rightarrow> bool" where
  "review_step s t \<longleftrightarrow> (\<exists>h key expected decision reason orig oid r.
     reviewArtifact h key expected decision reason orig oid s = (t, r))"

text \<open>Reviews are compare-and-set on a numbered history: from the empty database on, the events
  of an artifact are numbered 1, 2, 3, ...; a review that is not a replay is recorded exactly when
  it expects the current number, it then appends one event with the next number, and a replay of
  an operation changes nothing.\<close>

theorem review_history_numbered:
  assumes "reviews_wf s" and "review_step\<^sup>*\<^sup>* s t"
    and "reviewArtifact h key expected decision reason orig oid t = (u, Inr r)"
  shows "(u = t \<and> (\<exists>e \<in> set (db_artifact_reviews t). av_operation_id e = oid \<and> r = reviewSummary (Some e)))
    \<or> (expected = int (length (reviews_of t key))
      \<and> (\<exists>e. reviews_of u key = reviews_of t key @ [e] \<and> av_review_revision e = expected + 1
          \<and> av_decision e = decision \<and> r = reviewSummary (Some e) \<and> reviews_wf u
          \<and> (\<forall>k. k \<noteq> key \<longrightarrow> reviews_of u k = reviews_of t k)))"
proof -
  have wf: "reviews_wf t" using assms(2,1)
    by (induction rule: rtranclp_induct) (auto simp: review_step_def dest: reviewArtifact_wf)
  from assms(3) show ?thesis
  proof (cases rule: reviewArtifact_outcome)
    case (replayed e)
    then show ?thesis by blast
  next
    case (recorded js n)
    let ?e = "review_event h key expected decision reason orig oid"
    have "reviews_of u k = reviews_of t k @ (if k = key then [?e] else [])" for k
      by (simp add: recorded(3) reviews_of_def review_event_def)
    moreover have "reviews_wf u" by (rule reviewArtifact_wf [OF assms(3) wf])
    ultimately show ?thesis using recorded(2,4) latest_revision_wf [OF wf, of key]
      by (intro disjI2 conjI exI [of _ ?e]) (simp_all add: review_event_def)
  qed
qed

definition live_pointer :: "db \<Rightarrow> int \<Rightarrow> string \<Rightarrow> bool" where
  "live_pointer s now key = (case by_key ap_r2_key key (db_artifact_pointers s) of
      None \<Rightarrow> False
    | Some p \<Rightarrow> \<not> ap_tombstoned p \<and> ap_blob_deleted_at p = None
        \<and> (case ap_expires_at p of None \<Rightarrow> True | Some e \<Rightarrow> now < e))"

definition trusted_key :: "db \<Rightarrow> string \<Rightarrow> bool" where
  "trusted_key s key = (case latest_review s key of
      None \<Rightarrow> False | Some r \<Rightarrow> av_decision r = Trusted)"

lemma decision_str_trusted: "decision_str d = ''trusted'' \<longleftrightarrow> d = Trusted"
  by (cases d) auto

lemma artifact_state_trusted:
  assumes "reviews_wf s" and "key \<in> set keys"
  shows "artifact_state s keys now key = ''trusted'' \<longleftrightarrow> live_pointer s now key \<and> trusted_key s key"
proof -
  have "artifactTrustByKeys s keys key = artifact_trust s key"
    unfolding artifactTrustByKeys_def
    by (subst fold_trust_chunks [OF assms(1)]) (simp_all add: concat_chunks assms(2) del: set_concat)
  then show ?thesis
    by (auto simp: artifact_state_def live_pointer_def trusted_key_def artifact_trust_def
        reviewSummary_def decision_str_trusted split: option.splits)
qed

lemma slot_failure_none:
  assumes "reviews_wf s"
  shows "slot_failure s i now slot = [] \<longleftrightarrow> slot_keys s i slot \<noteq> []
    \<and> (\<forall>k \<in> set (slot_keys s i slot). live_pointer s now k \<and> trusted_key s k)"
  using artifact_state_trusted [OF assms]
  by (auto simp: slot_failure_def Let_def)

text \<open>C4. The review policy is exact: a task may enter a status precisely when every slot of its type
  that demands trust for the status holds at least one artifact, and every artifact in it is live
  and has \<open>trusted\<close> as its latest decision.\<close>

theorem review_policy_exact:
  assumes "reviews_wf s" and "resolveCurrentSchema h s = Inr sch"
  shows "assertArtifactReviewPolicy h i ty (Some (JStr st)) s = Inr () \<longleftrightarrow>
    (\<forall>slot \<in> set (required_slots sch ty st). slot_keys s i slot \<noteq> []
      \<and> (\<forall>k \<in> set (slot_keys s i slot). live_pointer s (date_now h) k \<and> trusted_key s k))"
  using slot_failure_none [OF assms(1), of i "date_now h"]
  by (auto simp: assertArtifactReviewPolicy_def as_string_def assms(2) Let_def)

subsection \<open>Witnesses\<close>

definition sample_pointer :: "string \<Rightarrow> artifact_pointer_row" where
  "sample_pointer key = \<lparr>ap_r2_key = key, ap_resource = None, ap_kind = ''report'', ap_sha256 = ''0'',
     ap_bytes = 1, ap_fence = None, ap_mime_type = ''text/plain'', ap_produced_at = 0,
     ap_produced_by = ''a'', ap_expires_at = None, ap_tombstoned = False, ap_tombstoned_at = None,
     ap_blob_deleted_at = None, ap_content_inline = None, ap_lineage_id = None, ap_revision = None,
     ap_restored_from = None, ap_provenance = None, ap_revision_creation = None\<rparr>"

definition report_db :: db where
  "report_db = empty_db\<lparr>db_artifact_pointers := [sample_pointer ''p/r''],
     db_schema_history := sample_history,
     db_entity_artifact_references := [\<lparr>ea_entity_id = ''t1'', ea_artifact_key = ''p/r'',
       ea_slot = ''report'', ea_metadata = [], ea_created_at = 0\<rparr>]\<rparr>"

definition reviewed_db :: db where
  "reviewed_db = fst (reviewArtifact (project_host 1 ''u'') ''p/r'' 0 Trusted None
     (system_origin ''b'') ''op1'' report_db)"

lemma report_db_wf: "reviews_wf report_db"
  by (simp add: reviews_wf_def report_db_def empty_db_def reviews_of_def sample_pointer_def)

lemma reviewed_db_step: "review_step report_db reviewed_db"
  unfolding review_step_def reviewed_db_def by (metis prod.collapse)

lemma reviewed_db_wf: "reviews_wf reviewed_db"
  using reviewed_db_step report_db_wf by (auto simp: review_step_def dest: reviewArtifact_wf)

lemmas review_run = reviewArtifact_def assertArtifact_def latest_review_def reviews_of_def
  reviews_desc_def review_event_def appendJournal_def tx_eval Let_def by_key_Cons

lemma reviewed_db_latest: "latest_review reviewed_db ''p/r'' =
    Some (review_event (project_host 1 ''u'') ''p/r'' 0 Trusted None (system_origin ''b'') ''op1'')"
  by (simp add: reviewed_db_def report_db_def review_run sample_defs sample_pointer_def)

theorem artifactTrustByKeys_correct_witness:
  "artifactTrustByKeys reviewed_db [''p/r'', ''p/x'', ''p/r''] ''p/r'' = artifact_trust reviewed_db ''p/r''"
  using artifactTrustByKeys_correct [OF reviewed_db_wf, of "[''p/r'', ''p/x'', ''p/r'']" "''p/r''"] by simp

theorem review_history_numbered_witness:
  "\<exists>u r. reviewArtifact (project_host 2 ''u'') ''p/r'' 1 Revoked None (system_origin ''b'') ''op2'' reviewed_db
      = (u, Inr r) \<and> length (reviews_of u ''p/r'') = 2"
proof -
  obtain u r where run: "reviewArtifact (project_host 2 ''u'') ''p/r'' 1 Revoked None (system_origin ''b'')
      ''op2'' reviewed_db = (u, Inr r)" and one: "length (reviews_of reviewed_db ''p/r'') = 1"
      and new: "by_key av_operation_id ''op2'' (db_artifact_reviews reviewed_db) = None"
    by (simp add: reviewed_db_def report_db_def review_run sample_defs sample_pointer_def)
  from review_history_numbered [OF report_db_wf r_into_rtranclp [of review_step, OF reviewed_db_step] run]
  have "\<exists>e. reviews_of u ''p/r'' = reviews_of reviewed_db ''p/r'' @ [e]"
    using new by (auto simp: by_key_None image_iff)
  with run one show ?thesis by auto
qed

theorem review_policy_exact_witness:
  "assertArtifactReviewPolicy (project_host 3 ''u'') ''t1'' ''task'' (Some (JStr ''done'')) reviewed_db = Inr ()"
proof -
  have sch: "resolveCurrentSchema (project_host 3 ''u'') reviewed_db = Inr (Some sample_schema)"
    by (simp add: reviewed_db_def report_db_def review_run sample_defs sample_pointer_def
        resolveCurrentSchema_def getCurrentSchema_def)
  have keys: "slot_keys reviewed_db ''t1'' slot = (if rs_name slot = ''report'' then [''p/r''] else [])"
      "live_pointer reviewed_db 3 ''p/r''" for slot
    by (simp_all add: reviewed_db_def report_db_def review_run sample_defs sample_pointer_def
        slot_keys_def live_pointer_def)
  have "\<forall>slot \<in> set (required_slots (Some sample_schema) ''task'' ''done''). slot_keys reviewed_db ''t1'' slot \<noteq> []
      \<and> (\<forall>k \<in> set (slot_keys reviewed_db ''t1'' slot).
        live_pointer reviewed_db (date_now (project_host 3 ''u'')) k \<and> trusted_key reviewed_db k)"
    using keys(2) by (simp add: keys(1) required_slots_def sample_schema_def work_unit_of_def
        slot_requires_def trusted_key_def reviewed_db_latest review_event_def project_host_def)
  with review_policy_exact [OF reviewed_db_wf sch] show ?thesis by blast
qed

end
