(* ===== verification/Entities.thy ===== *)
theory Entities
  imports Reviews
begin

text \<open>
  Tasks and their relations: the writes of \<^verbatim>\<open>packages/ops-sqlite/src/entity-ops.ts\<close>
  (\<open>create\<close>, \<open>update\<close>, \<open>archive\<close>), the write check of \<^verbatim>\<open>constraint-ops.ts\<close> and the
  relationship tables of \<^verbatim>\<open>relationship-ops.ts\<close>.
\<close>

section \<open>Checks on task data\<close>

definition lifecycle_value_ok :: "work_unit \<Rightarrow> work_lifecycle \<Rightarrow> jobj \<Rightarrow> error + unit" where
  "lifecycle_value_ok u lc data = (case obj_get (lc_field lc) data of
      None \<Rightarrow> Inr ()
    | Some v \<Rightarrow> (case map_of (wu_fields u) (lc_field lc) of
        None \<Rightarrow> Inl JsError
      | Some f \<Rightarrow> (case (as_string (Some v), fd_values f) of
            (Some st, None) \<Rightarrow> Inr ()
          | (Some st, Some allowed) \<Rightarrow> if st \<in> set allowed then Inr () else Inl (SchemaWriteError [])
          | _ \<Rightarrow> Inl (SchemaWriteError []))))"

definition assertCurrentEntityWrite ::
    "host \<Rightarrow> string \<Rightarrow> jobj \<Rightarrow> db \<Rightarrow> error + tila_schema option" where
  "assertCurrentEntityWrite h ty data s = (case resolveCurrentSchema h s of
      Inl e \<Rightarrow> Inl e
    | Inr None \<Rightarrow> Inr None
    | Inr (Some current) \<Rightarrow>
        if validatedWrite data current ty \<noteq> [] then Inl (SchemaWriteError (validatedWrite data current ty))
        else (case work_unit_of current ty of
            None \<Rightarrow> Inl JsError
          | Some u \<Rightarrow> (case wu_lifecycle u of
              None \<Rightarrow> Inr (Some current)
            | Some lc \<Rightarrow> (case lifecycle_value_ok u lc data of
                Inl e \<Rightarrow> Inl e
              | Inr _ \<Rightarrow> Inr (Some current)))))"

definition presentation_title :: "tila_schema option \<Rightarrow> string \<Rightarrow> string option" where
  "presentation_title sch ty = Option.bind (Option.bind (Option.bind sch (\<lambda>d. work_unit_of d ty))
     wu_presentation) wp_title"

definition entitySearchText :: "jobj \<Rightarrow> string option \<Rightarrow> string option" where
  "entitySearchText data title = presentedTitle data title"

text \<open>\<open>INSERT OR REPLACE INTO entity_search_docs\<close>.\<close>

definition put_search_doc :: "string \<Rightarrow> string \<Rightarrow> string option \<Rightarrow> int \<Rightarrow> db \<Rightarrow> db" where
  "put_search_doc i ty name now s = s\<lparr>db_entity_search_docs :=
     rows_delete (\<lambda>d. es_entity_id d = i) (db_entity_search_docs s) @
       [\<lparr>es_entity_id = i, es_entity_type = ty, es_name = name, es_indexed_at = now\<rparr>]\<rparr>"

definition insert_tag :: "string \<Rightarrow> string \<Rightarrow> unit ptx" where
  "insert_tag i tag = tx_bind (tx_read (\<lambda>s. rows_insert (\<lambda>t. (et_entity_id t, et_tag t))
       \<lparr>et_entity_id = i, et_tag = tag\<rparr> (db_entity_tags s))) (\<lambda>inserted. case inserted of
         None \<Rightarrow> tx_throw (SqliteError ''UNIQUE constraint failed: entity_tags'')
       | Some t \<Rightarrow> tx_write (\<lambda>s. s\<lparr>db_entity_tags := t\<rparr>))"

section \<open>Creation\<close>

definition insertEntityInTransaction :: "host \<Rightarrow> string \<Rightarrow> string \<Rightarrow> jobj \<Rightarrow> string \<Rightarrow> string list
    \<Rightarrow> int \<Rightarrow> int \<Rightarrow> (entity_row \<times> string list) ptx" where
  "insertEntityInTransaction h i ty data created_by tags schemaVersion now =
    (let row = \<lparr>en_id = i, en_type = ty, en_schema_version = schemaVersion, en_data = data,
        en_archived = False, en_created_at = now, en_updated_at = now, en_created_by = created_by\<rparr> in
     tx_seq (tx_guard (taskDataBytes data \<le> MAX_TASK_DATA_BYTES)
       (TaskDataTooLargeError (taskDataBytes data) None))
    (tx_bind (tx_read (assertCurrentEntityWrite h ty data)) (\<lambda>checked.
     tx_bind (tx_lift checked) (\<lambda>current.
     tx_bind (tx_read (assertArtifactReviewPolicy h i ty (obj_get ''status'' data))) (\<lambda>policy.
     tx_seq (tx_lift policy)
    (tx_bind (tx_read (\<lambda>s. rows_insert en_id row (db_entities s))) (\<lambda>inserted. case inserted of
        None \<Rightarrow> tx_throw (EntityAlreadyExistsError i)
      | Some t \<Rightarrow>
          tx_seq (tx_write (\<lambda>s. s\<lparr>db_entities := t\<rparr>))
         (tx_seq (tx_for tags (insert_tag i))
         (tx_seq (tx_write (put_search_doc i ty
            (entitySearchText data (presentation_title current ty)) now))
         (tx_return (row, tags)))))))))))"

definition create_entity :: "host \<Rightarrow> string \<Rightarrow> string \<Rightarrow> jobj \<Rightarrow> string \<Rightarrow> string list option
    \<Rightarrow> int \<Rightarrow> request_origin \<Rightarrow> (entity_row \<times> string list) op" where
  "create_entity h i ty data created_by tags schemaVersion orig s =
    (case (case tags of None \<Rightarrow> Some [] | Some ts \<Rightarrow> TagsSchema ts) of
       None \<Rightarrow> (s, Inl ZodError)
     | Some normalizedTags \<Rightarrow> commit
        (tx_bind (insertEntityInTransaction h i ty data created_by normalizedTags schemaVersion (date_now h))
          (\<lambda>entity. tx_seq (appendJournal h ''entity.created'' i orig None []) (tx_return entity))) s)"

section \<open>Update\<close>

definition isAttemptTransition :: "work_lifecycle option \<Rightarrow> jobj \<Rightarrow> string option \<Rightarrow> bool" where
  "isAttemptTransition lifecycle data internalAttemptId =
    (case (internalAttemptId, lifecycle) of
       (Some _, Some lc) \<Rightarrow> (case data of
           [(k, JStr st)] \<Rightarrow> k = lc_field lc \<and> (Some st = lc_on_start lc \<or> st \<in> set (outcome_values lc))
         | _ \<Rightarrow> False)
     | _ \<Rightarrow> False)"

definition terminal_statuses :: "work_lifecycle option \<Rightarrow> string list" where
  "terminal_statuses lifecycle = (case lifecycle of
      None \<Rightarrow> [''done'', ''closed'', ''merged''] | Some lc \<Rightarrow> lc_terminal lc)"

definition incoming_terminal :: "work_lifecycle option \<Rightarrow> jobj \<Rightarrow> bool" where
  "incoming_terminal lifecycle data =
    (case as_string (obj_get (case lifecycle of None \<Rightarrow> ''status'' | Some lc \<Rightarrow> lc_field lc) data) of
       None \<Rightarrow> False
     | Some st \<Rightarrow> st \<noteq> [] \<and> st \<in> set (terminal_statuses lifecycle))"

definition status_changes :: "jobj \<Rightarrow> jobj \<Rightarrow> bool" where
  "status_changes existing data = (case obj_get ''status'' data of
      None \<Rightarrow> False | Some v \<Rightarrow> \<not> js_identical v (obj_get ''status'' existing))"

definition data_bound_error :: "work_lifecycle option \<Rightarrow> jobj \<Rightarrow> string option \<Rightarrow> jobj \<Rightarrow> error + unit" where
  "data_bound_error lifecycle data internalAttemptId existing =
    (let merged = obj_merge existing data in
     if isAttemptTransition lifecycle data internalAttemptId \<or> taskDataBytes merged \<le> MAX_TASK_DATA_BYTES
        \<or> taskDataBytes merged < taskDataBytes existing
     then Inr ()
     else Inl (TaskDataTooLargeError (taskDataBytes merged) (Some (taskDataBytes existing))))"

definition entity_tags :: "db \<Rightarrow> string \<Rightarrow> string list" where
  "entity_tags s i = map et_tag (filter (\<lambda>t. et_entity_id t = i) (db_entity_tags s))"

definition replace_tags :: "string \<Rightarrow> string list option \<Rightarrow> unit ptx" where
  "replace_tags i tags = (case tags of
      None \<Rightarrow> tx_return ()
    | Some ts \<Rightarrow> tx_seq (tx_write (\<lambda>s. s\<lparr>db_entity_tags :=
          rows_delete (\<lambda>t. et_entity_id t = i) (db_entity_tags s)\<rparr>)) (tx_for ts (insert_tag i)))"

definition set_entity :: "string \<Rightarrow> jobj \<Rightarrow> int \<Rightarrow> db \<Rightarrow> db" where
  "set_entity i data now s = s\<lparr>db_entities := rows_set (\<lambda>e. en_id e = i)
     (\<lambda>e. e\<lparr>en_data := data, en_updated_at := now\<rparr>) (db_entities s)\<rparr>"

text \<open>The part of \<open>updateInTransaction\<close> before the first write: authority and gates. The claim must be
  live on the host clock, whatever \<open>now\<close> the caller gives.\<close>

definition update_authority :: "host \<Rightarrow> entity_row \<Rightarrow> jobj \<Rightarrow> int \<Rightarrow> request_origin \<Rightarrow> int
    \<Rightarrow> string option \<Rightarrow> work_lifecycle option ptx" where
  "update_authority h existing data fence orig now internalAttemptId =
    (let i = en_id existing; canonical = resolveEntityResourceDirect (en_type existing) i in
     tx_bind (tx_read (checkManagedWrite h i data fence orig now internalAttemptId)) (\<lambda>managed.
     tx_bind (tx_lift managed) (\<lambda>contentOnly.
     tx_bind (tx_read (\<lambda>s. if contentOnly then Inr ()
        else assertResourceFenceWithCanonical s canonical fence (date_now h) True)) (\<lambda>fenced.
     tx_seq (tx_lift fenced)
    (tx_bind (tx_read (resolveCurrentSchema h)) (\<lambda>sch.
     tx_bind (tx_lift sch) (\<lambda>current.
     let lifecycle = lifecycle_of current (en_type existing) in
     tx_seq (tx_when (\<not> contentOnly \<and> incoming_terminal lifecycle data)
       (tx_seq (checkPendingGates h i now)
         (tx_when (lifecycle \<noteq> None) (checkPendingGates h canonical now))))
     (tx_return lifecycle))))))))"

definition updateInTransaction :: "host \<Rightarrow> string \<Rightarrow> jobj \<Rightarrow> int \<Rightarrow> request_origin \<Rightarrow>
    string list option \<Rightarrow> int \<Rightarrow> string option \<Rightarrow> (entity_row \<times> string list) ptx" where
  "updateInTransaction h i data fence orig tags now internalAttemptId =
    tx_bind (tx_lift (case tags of None \<Rightarrow> Inr None
      | Some ts \<Rightarrow> (case TagsSchema ts of None \<Rightarrow> Inl ZodError | Some ns \<Rightarrow> Inr (Some ns)))) (\<lambda>normalizedTags.
    tx_bind (tx_read (\<lambda>s. entity_by_id s i)) (\<lambda>found. case found of
      None \<Rightarrow> tx_throw (EntityNotFoundError i)
    | Some existing \<Rightarrow>
        tx_bind (update_authority h existing data fence orig now internalAttemptId) (\<lambda>lifecycle.
        let mergedData = obj_merge (en_data existing) data in
        tx_seq (tx_lift (data_bound_error lifecycle data internalAttemptId (en_data existing)))
       (tx_bind (tx_read (assertCurrentEntityWrite h (en_type existing) mergedData)) (\<lambda>checked.
        tx_bind (tx_lift checked) (\<lambda>current.
        tx_bind (tx_read (\<lambda>s. if status_changes (en_data existing) data
           then assertArtifactReviewPolicy h i (en_type existing) (obj_get ''status'' mergedData) s
           else Inr ())) (\<lambda>policy.
        tx_seq (tx_lift policy)
       (tx_seq (tx_write (set_entity i mergedData now))
       (tx_seq (replace_tags i normalizedTags)
       (tx_seq (appendJournal h ''entity.updated'' i orig (Some fence) [])
       (tx_seq (tx_write (put_search_doc i (en_type existing)
          (entitySearchText mergedData (presentation_title current (en_type existing))) now))
       (tx_read (\<lambda>s. (existing\<lparr>en_data := mergedData, en_updated_at := now\<rparr>,
          case normalizedTags of Some ts \<Rightarrow> ts | None \<Rightarrow> entity_tags s i))))))))))))))"

definition update_entity :: "host \<Rightarrow> string \<Rightarrow> jobj \<Rightarrow> int \<Rightarrow> request_origin \<Rightarrow> string list option
    \<Rightarrow> (entity_row \<times> string list) do_idempotency option \<Rightarrow> (entity_row \<times> string list) op" where
  "update_entity h i data fence orig tags idempotency = commit
     (do_once h idempotency (updateInTransaction h i data fence orig tags (date_now h) None))"

section \<open>Archival\<close>

definition archive_entity :: "host \<Rightarrow> string \<Rightarrow> int \<Rightarrow> request_origin \<Rightarrow> unit do_idempotency option
    \<Rightarrow> unit op" where
  "archive_entity h i fence orig idempotency = commit
    (tx_seq (assertUnmanagedArchive i)
    (do_once h idempotency
      (tx_bind (tx_read (\<lambda>s. entity_by_id s i)) (\<lambda>found. case found of
         None \<Rightarrow> tx_throw (EntityNotFoundError i)
       | Some existing \<Rightarrow>
          let canonical = resolveEntityResourceDirect (en_type existing) i in
          tx_bind (tx_read (\<lambda>s. assertResourceFenceWithCanonical s canonical fence (date_now h) True))
            (\<lambda>fenced. tx_seq (tx_lift fenced)
         (tx_seq (checkPendingGates h i (date_now h))
         (tx_seq (tx_write (drop_claim canonical))
         (tx_seq (tx_write (\<lambda>s. s\<lparr>db_entities := rows_set (\<lambda>e. en_id e = i)
            (\<lambda>e. e\<lparr>en_archived := True, en_updated_at := date_now h\<rparr>) (db_entities s)\<rparr>))
         (tx_seq (appendJournal h ''entity.archived'' i orig (Some fence) [])
         (tx_write (\<lambda>s. s\<lparr>db_entity_search_docs :=
            rows_delete (\<lambda>d. es_entity_id d = i) (db_entity_search_docs s)\<rparr>)))))))))))"

section \<open>Relations between tasks and artifacts\<close>

text \<open>The raw \<open>INSERT INTO journal\<close> of \<^verbatim>\<open>relationship-ops.ts\<close>: the identity columns are left out.\<close>

definition journal_raw :: "host \<Rightarrow> string \<Rightarrow> string \<Rightarrow> string \<Rightarrow> jobj \<Rightarrow> unit ptx" where
  "journal_raw h kind resource actor data = tx_write (\<lambda>s. s\<lparr>
     db_journal_seq := db_journal_seq s + 1,
     db_journal := db_journal s @ [\<lparr>jo_seq = db_journal_seq s + 1, jo_t = date_now h, jo_kind = kind,
       jo_resource = resource, jo_principal_id = None, jo_participant_id = None, jo_environment = [],
       jo_actor = actor, jo_token_id = None, jo_fence = None, jo_data = data,
       jo_source = None, jo_source_version = None\<rparr>]\<rparr>)"

definition has_slash :: "string \<Rightarrow> bool" where
  "has_slash x = (CHR ''/'' \<in> set x)"

definition relationship_is :: "string \<Rightarrow> string \<Rightarrow> string \<Rightarrow> entity_relationship_row \<Rightarrow> bool" where
  "relationship_is from_id to_id ty r = (er_from_id r = from_id \<and> er_to_id r = to_id \<and> er_type r = ty)"

definition insertEntityRelationship ::
    "host \<Rightarrow> string \<Rightarrow> string \<Rightarrow> string \<Rightarrow> int \<Rightarrow> string \<Rightarrow> bool op" where
  "insertEntityRelationship h from_id to_id ty schema_version actor = commit
    (tx_bind (tx_read (\<lambda>s. row_find (relationship_is from_id to_id ty) (db_entity_relationships s)))
      (\<lambda>existing. case existing of
        Some _ \<Rightarrow> tx_return False
      | None \<Rightarrow>
         tx_seq (tx_guard (\<not> has_slash from_id \<and> \<not> has_slash to_id)
           (SqliteError ''CHECK constraint failed: entity_relationships''))
        (tx_seq (tx_write (\<lambda>s. s\<lparr>db_entity_relationships := db_entity_relationships s @
           [\<lparr>er_from_id = from_id, er_to_id = to_id, er_type = ty, er_schema_version = schema_version,
             er_created_at = date_now h\<rparr>]\<rparr>))
        (tx_seq (journal_raw h ''relationship.entity.created'' from_id actor
           [(''to_id'', JStr to_id), (''type'', JStr ty)])
        (tx_return True)))))"

definition matches_filter :: "string option \<Rightarrow> string \<Rightarrow> bool" where
  "matches_filter f v = (case f of None \<Rightarrow> True | Some x \<Rightarrow> x = [] \<or> v = x)"

definition listEntityRelationships :: "db \<Rightarrow> string option \<Rightarrow> string option \<Rightarrow> string option
    \<Rightarrow> entity_relationship_row list" where
  "listEntityRelationships s from_id to_id ty = filter (\<lambda>r. matches_filter from_id (er_from_id r)
     \<and> matches_filter to_id (er_to_id r) \<and> matches_filter ty (er_type r)) (db_entity_relationships s)"

definition deleteEntityRelationship :: "host \<Rightarrow> string \<Rightarrow> string \<Rightarrow> string \<Rightarrow> string \<Rightarrow> bool op" where
  "deleteEntityRelationship h from_id to_id ty actor = commit
    (tx_bind (tx_read (\<lambda>s. row_find (relationship_is from_id to_id ty) (db_entity_relationships s)))
      (\<lambda>existing. case existing of
        None \<Rightarrow> tx_return False
      | Some _ \<Rightarrow>
         tx_seq (tx_write (\<lambda>s. s\<lparr>db_entity_relationships :=
           rows_delete (relationship_is from_id to_id ty) (db_entity_relationships s)\<rparr>))
        (tx_seq (journal_raw h ''relationship.entity.deleted'' from_id actor
           [(''to_id'', JStr to_id), (''type'', JStr ty)])
        (tx_return True))))"

definition reference_key :: "entity_artifact_reference_row \<Rightarrow> string \<times> string \<times> string" where
  "reference_key r = (ea_entity_id r, ea_artifact_key r, ea_slot r)"

definition insertEntityArtifactReference ::
    "host \<Rightarrow> string \<Rightarrow> string \<Rightarrow> string \<Rightarrow> jobj \<Rightarrow> string \<Rightarrow> unit op" where
  "insertEntityArtifactReference h entity_id artifact_key slot metadata actor = commit
    (tx_seq (tx_guard (\<not> has_slash entity_id \<and> has_slash artifact_key)
       (SqliteError ''CHECK constraint failed: entity_artifact_references''))
    (tx_bind (tx_read (\<lambda>s. rows_insert reference_key \<lparr>ea_entity_id = entity_id,
        ea_artifact_key = artifact_key, ea_slot = slot, ea_metadata = metadata,
        ea_created_at = date_now h\<rparr> (db_entity_artifact_references s))) (\<lambda>inserted. case inserted of
        None \<Rightarrow> tx_throw (SqliteError ''UNIQUE constraint failed: entity_artifact_references'')
      | Some t \<Rightarrow> tx_seq (tx_write (\<lambda>s. s\<lparr>db_entity_artifact_references := t\<rparr>))
          (journal_raw h ''reference.entity_artifact.created'' entity_id actor
            [(''artifact_key'', JStr artifact_key), (''slot'', JStr slot)]))))"

definition listEntityArtifactReferences :: "db \<Rightarrow> string option \<Rightarrow> string option
    \<Rightarrow> (entity_artifact_reference_row \<times> artifact_trust option) list" where
  "listEntityArtifactReferences s entity_id artifact_key =
    (let rows = filter (\<lambda>r. matches_filter entity_id (ea_entity_id r)
        \<and> matches_filter artifact_key (ea_artifact_key r)) (db_entity_artifact_references s);
       trust = artifactTrustByKeys s (map ea_artifact_key rows)
     in map (\<lambda>r. (r, trust (ea_artifact_key r))) rows)"

definition deleteEntityArtifactReference ::
    "host \<Rightarrow> string \<Rightarrow> string \<Rightarrow> string \<Rightarrow> string \<Rightarrow> unit op" where
  "deleteEntityArtifactReference h entity_id artifact_key slot actor = commit
    (tx_seq (tx_write (\<lambda>s. s\<lparr>db_entity_artifact_references :=
       rows_delete (\<lambda>r. reference_key r = (entity_id, artifact_key, slot))
         (db_entity_artifact_references s)\<rparr>))
     (journal_raw h ''reference.entity_artifact.deleted'' entity_id actor
       [(''artifact_key'', JStr artifact_key), (''slot'', JStr slot)]))"

definition artifact_relation_key :: "artifact_relationship_row \<Rightarrow> string \<times> string \<times> string" where
  "artifact_relation_key r = (rl_from_key r, rl_target r, rl_type r)"

definition insertArtifactRelationship ::
    "host \<Rightarrow> string \<Rightarrow> string option \<Rightarrow> string option \<Rightarrow> string \<Rightarrow> jobj \<Rightarrow> string \<Rightarrow> unit op" where
  "insertArtifactRelationship h from_key to_key to_uri ty metadata actor = commit
    (case (case to_key of None \<Rightarrow> to_uri | Some k \<Rightarrow> Some k) of
       None \<Rightarrow> tx_throw (SqliteError ''NOT NULL constraint failed: artifact_relationships.target'')
     | Some target \<Rightarrow>
        tx_seq (tx_guard (has_slash from_key)
          (SqliteError ''CHECK constraint failed: artifact_relationships''))
       (tx_bind (tx_read (\<lambda>s. rows_insert artifact_relation_key \<lparr>rl_from_key = from_key,
          rl_to_key = to_key, rl_to_uri = to_uri, rl_type = ty, rl_target = target,
          rl_metadata = metadata, rl_created_at = date_now h\<rparr> (db_artifact_relationships s)))
         (\<lambda>inserted. case inserted of
            None \<Rightarrow> tx_throw (SqliteError ''UNIQUE constraint failed: artifact_relationships'')
          | Some t \<Rightarrow> tx_seq (tx_write (\<lambda>s. s\<lparr>db_artifact_relationships := t\<rparr>))
              (journal_raw h ''relationship.artifact.created'' from_key actor
                [(''to_key'', jnullable JStr to_key), (''to_uri'', jnullable JStr to_uri),
                 (''type'', JStr ty)]))))"

definition listArtifactRelationships :: "db \<Rightarrow> string option \<Rightarrow> string option
    \<Rightarrow> artifact_relationship_row list" where
  "listArtifactRelationships s from_key ty = filter (\<lambda>r. matches_filter from_key (rl_from_key r)
     \<and> matches_filter ty (rl_type r)) (db_artifact_relationships s)"

definition deleteArtifactRelationship :: "host \<Rightarrow> string \<Rightarrow> string \<Rightarrow> string \<Rightarrow> string \<Rightarrow> unit op" where
  "deleteArtifactRelationship h from_key to_key_or_uri ty actor = commit
    (tx_seq (tx_write (\<lambda>s. s\<lparr>db_artifact_relationships := rows_delete
       (\<lambda>r. rl_from_key r = from_key \<and> rl_type r = ty
          \<and> (rl_to_key r = Some to_key_or_uri \<or> rl_to_uri r = Some to_key_or_uri))
       (db_artifact_relationships s)\<rparr>))
     (journal_raw h ''relationship.artifact.deleted'' from_key actor
       [(''target'', JStr to_key_or_uri), (''type'', JStr ty)]))"

section \<open>Inversion of the task writes\<close>

lemma tx_inv_time_out_gate [tx_wp]:
  assumes "\<And>s g n js. I s \<Longrightarrow> I (s\<lparr>db_gates := g, db_journal_seq := n, db_journal := js\<rparr>)"
  shows "tx_inv I (time_out_gate h now r g)"
  by (rule tx_validI) (auto simp: time_out_run settle_gate_def intro: assms)

lemma tx_inv_checkPendingGates [tx_wp]:
  assumes "\<And>s g n js. I s \<Longrightarrow> I (s\<lparr>db_gates := g, db_journal_seq := n, db_journal := js\<rparr>)"
  shows "tx_inv I (checkPendingGates h r now)"
  unfolding checkPendingGates_def by (intro tx_wp assms) auto

lemma tx_inv_insert_tag [tx_wp]:
  assumes "\<And>s t. I s \<Longrightarrow> I (s\<lparr>db_entity_tags := t\<rparr>)"
  shows "tx_inv I (insert_tag i tag)"
  unfolding insert_tag_def by (intro tx_wp tx_inv_write assms) auto

lemma tx_inv_replace_tags [tx_wp]:
  assumes "\<And>s t. I s \<Longrightarrow> I (s\<lparr>db_entity_tags := t\<rparr>)"
  shows "tx_inv I (replace_tags i ns)"
  unfolding replace_tags_def by (intro tx_wp tx_inv_write assms) auto

lemma update_authority_ok:
  assumes "update_authority h ex data fence orig now internal s = Inr (lc, s')"
  obtains contentOnly sch where "checkManagedWrite h (en_id ex) data fence orig now internal s = Inr contentOnly"
    "\<not> contentOnly \<Longrightarrow> assertResourceFenceWithCanonical s
       (resolveEntityResourceDirect (en_type ex) (en_id ex)) fence (date_now h) True = Inr ()"
    "resolveCurrentSchema h s = Inr sch" "lc = lifecycle_of sch (en_type ex)"
    "if \<not> contentOnly \<and> incoming_terminal lc data
     then \<exists>s1. checkPendingGates h (en_id ex) now s = Inr ((), s1) \<and>
       (if lc = None then s' = s1 else checkPendingGates h
          (resolveEntityResourceDirect (en_type ex) (en_id ex)) now s1 = Inr ((), s'))
     else s' = s"
proof -
  from assms obtain contentOnly sch where
    "checkManagedWrite h (en_id ex) data fence orig now internal s = Inr contentOnly"
    "(if contentOnly then Inr () else assertResourceFenceWithCanonical s
       (resolveEntityResourceDirect (en_type ex) (en_id ex)) fence (date_now h) True) = Inr ()"
    "resolveCurrentSchema h s = Inr sch" "lc = lifecycle_of sch (en_type ex)"
    "tx_when (\<not> contentOnly \<and> incoming_terminal lc data)
       (tx_seq (checkPendingGates h (en_id ex) now)
         (tx_when (lc \<noteq> None) (checkPendingGates h
            (resolveEntityResourceDirect (en_type ex) (en_id ex)) now))) s = Inr ((), s')"
    by (auto simp: update_authority_def Let_def tx_bind_ok tx_seq_ok)
  then show thesis by (intro that [of contentOnly sch]) (auto simp: tx_run split: if_splits)
qed

lemma update_authority_frame:
  assumes "\<And>s g n js. I s \<Longrightarrow> I (s\<lparr>db_gates := g, db_journal_seq := n, db_journal := js\<rparr>)"
  shows "tx_inv I (update_authority h ex data fence orig now internal)"
  unfolding update_authority_def Let_def by (intro tx_wp assms)

lemma updateInTransaction_ok:
  assumes "updateInTransaction h i data fence orig tags now internal s = Inr (r, s')"
  obtains ex ns lc s1 s2 js n name where "entity_by_id s i = Some ex"
    "tags = None \<and> ns = None \<or> (\<exists>ts. tags = Some ts \<and> TagsSchema ts = ns \<and> ns \<noteq> None)"
    "update_authority h ex data fence orig now internal s = Inr (lc, s1)"
    "data_bound_error lc data internal (en_data ex) = Inr ()"
    "replace_tags i ns (set_entity i (obj_merge (en_data ex) data) now s1) = Inr ((), s2)"
    "s' = put_search_doc i (en_type ex) name now (s2\<lparr>db_journal_seq := n, db_journal := js\<rparr>)"
    "fst r = ex\<lparr>en_data := obj_merge (en_data ex) data, en_updated_at := now\<rparr>"
    "\<exists>current. assertCurrentEntityWrite h (en_type ex) (obj_merge (en_data ex) data) s1 = Inr current"
proof -
  from assms obtain ns ex where ns: "(case tags of None \<Rightarrow> Inr None
        | Some ts \<Rightarrow> (case TagsSchema ts of None \<Rightarrow> Inl ZodError | Some ns \<Rightarrow> Inr (Some ns))) = Inr ns"
      and ex: "entity_by_id s i = Some ex"
    by (auto simp: updateInTransaction_def tx_bind_ok split: option.splits)
  with assms obtain lc s1 s2 current name where "update_authority h ex data fence orig now internal s = Inr (lc, s1)"
    "data_bound_error lc data internal (en_data ex) = Inr ()"
    "replace_tags i ns (set_entity i (obj_merge (en_data ex) data) now s1) = Inr ((), s2)"
    "assertCurrentEntityWrite h (en_type ex) (obj_merge (en_data ex) data) s1 = Inr current"
    "fst r = ex\<lparr>en_data := obj_merge (en_data ex) data, en_updated_at := now\<rparr>"
    "\<exists>s3. appendJournal h ''entity.updated'' i orig (Some fence) [] s2 = Inr ((), s3)
      \<and> s' = put_search_doc i (en_type ex) name now s3"
    by (auto simp: updateInTransaction_def tx_bind_ok tx_seq_ok Let_def split: if_splits)
  moreover have "tags = None \<and> ns = None \<or> (\<exists>ts. tags = Some ts \<and> TagsSchema ts = ns \<and> ns \<noteq> None)"
    using ns by (cases tags; cases "TagsSchema (the tags)") auto
  ultimately show thesis using ex by (auto simp: appendJournal_def intro: that)
qed

lemma checkManagedWrite_unmanaged [simp]:
  "\<not> isManagedTask s i \<Longrightarrow> checkManagedWrite h i data fence orig now internal s = Inr False"
  by (simp add: checkManagedWrite_def)


section \<open>Properties\<close>


text \<open>A task does not complete past a pending gate: an update that moves an unmanaged task of a
  type with a lifecycle into a terminal state commits only when no gate blocks the task, neither
  under its bare id nor under its typed name.\<close>

theorem terminal_update_ungated:
  assumes "update_entity h i data fence orig tags None s = (s', Inr r)" and "gates_wf s"
    and "entity_by_id s i = Some ex" and "\<not> isManagedTask s i"
    and "resolveCurrentSchema h s = Inr sch" and "lifecycle_of sch (en_type ex) = Some lc"
    and "incoming_terminal (Some lc) data" and "resource \<in> {i, resolveEntityResourceDirect (en_type ex) i}"
  shows "blocking s resource (date_now h) = []"
proof -
  have i: "en_id ex = i" using entity_by_id_Some [OF assms(3)] by simp
  let ?c = "resolveEntityResourceDirect (en_type ex) i"
  from assms(1) have "updateInTransaction h i data fence orig tags (date_now h) None s = Inr (r, s')"
    by (simp add: update_entity_def commit_ok)
  then obtain s1 s2 where bare: "checkPendingGates h i (date_now h) s = Inr ((), s1)"
      and typed: "checkPendingGates h ?c (date_now h) s1 = Inr ((), s2)"
  proof (cases rule: updateInTransaction_ok)
    case (1 ex' ns lc' s1 s2 js n name)
    then have ex': "ex' = ex" using assms(3) by simp
    from 1(3) show thesis
    proof (cases rule: update_authority_ok)
      case auth: (1 contentOnly sch')
      with assms(4-6) have "\<not> contentOnly" "lc' = Some lc" by (auto simp: ex' i)
      with auth(5) assms(7) that show thesis by (auto simp: ex' i)
    qed
  qed
  obtain t js where t: "t = s\<lparr>db_gates := map (timed_out (date_now h)
        (ga_id ` set (expired_gates s i (date_now h)))) (db_gates s),
        db_journal_seq := db_journal_seq t, db_journal := db_journal s @ js\<rparr>"
      and run: "checkPendingGates h i (date_now h) s = (if blocking s i (date_now h) = [] then Inr ((), t)
        else Inl (GateBlockedError i (map ga_id (blocking s i (date_now h)))))"
    by (rule checkPendingGates_run [OF assms(2)])
  from run bare have none: "blocking s i (date_now h) = []" and s1: "s1 = t" by (auto split: if_splits)
  have gt: "db_gates s1 = map (timed_out (date_now h) (ga_id ` set (expired_gates s i (date_now h)))) (db_gates s)"
    unfolding s1 by (subst t) simp
  have "gates_wf s1" using settles_check [OF assms(2) bare] by (simp add: settles_def)
  have after: "blocking s1 ?c (date_now h) = []"
    by (rule checkPendingGates_run [OF \<open>gates_wf s1\<close>, of "date_now h" ?c h])
      (use typed in \<open>auto split: if_splits\<close>)
  have "blocking s ?c (date_now h) = []"
  proof (rule ccontr)
    assume "blocking s ?c (date_now h) \<noteq> []"
    then obtain g where g: "g \<in> set (db_gates s)" "ga_resource g = ?c" "gate_pending (date_now h) g"
      by (auto simp: blocking_def filter_empty_conv)
    have "ga_id g \<notin> ga_id ` set (expired_gates s i (date_now h))"
    proof
      assume "ga_id g \<in> ga_id ` set (expired_gates s i (date_now h))"
      then obtain g' where "g' \<in> set (db_gates s)" "ga_id g' = ga_id g" "gate_expired (date_now h) g'"
        by (auto simp: expired_gates_def)
      with g gates_wf_gate_of [OF assms(2)] have "gate_expired (date_now h) g" by (metis option.inject)
      with g(3) show False by (auto simp: gate_expired_def gate_pending_def split: option.splits)
    qed
    then have "g \<in> set (db_gates s1)" using g(1) unfolding gt by (auto simp: timed_out_def image_iff)
    with g after show False by (auto simp: blocking_def filter_empty_conv)
  qed
  with none assms(8) show ?thesis by auto
qed

lemma entity_by_id_set: "entity_by_id (set_entity i d now s) k =
    (if k = i then map_option (\<lambda>e. e\<lparr>en_data := d, en_updated_at := now\<rparr>) (entity_by_id s i)
     else entity_by_id s k)"
  by (cases "entity_by_id s k")
    (auto simp: entity_by_id_def set_entity_def by_key_set dest: by_key_Some)

lemma update_entity_effect:
  assumes "updateInTransaction h i data fence orig tags now internal s = Inr (r, s')"
  obtains ex lc where "entity_by_id s i = Some ex" "fst r = ex\<lparr>en_data := obj_merge (en_data ex) data, en_updated_at := now\<rparr>"
    "\<And>k. entity_by_id s' k = (if k = i then Some (fst r) else entity_by_id s k)"
    "data_bound_error lc data internal (en_data ex) = Inr ()" "db_claims s' = db_claims s"
    "db_fences s' = db_fences s"
    "\<exists>sch. resolveCurrentSchema h s = Inr sch \<and> lc = lifecycle_of sch (en_type ex)"
  using assms
proof (cases rule: updateInTransaction_ok)
  case (1 ex ns lc s1 s2 js n name)
  have frame: "tx_frame (\<lambda>s. (db_entities s, db_claims s, db_fences s)) (update_authority h ex data fence orig now internal)"
    by (intro allI update_authority_frame) simp
  have frame2: "tx_frame (\<lambda>s. (db_entities s, db_claims s, db_fences s)) (replace_tags i ns)"
    by (intro allI tx_inv_replace_tags) simp
  from tx_frameD [OF frame 1(3)] have s1: "db_entities s1 = db_entities s" "db_claims s1 = db_claims s"
    "db_fences s1 = db_fences s" by simp_all
  from tx_frameD [OF frame2 1(5)]
  have s2: "db_entities s2 = db_entities (set_entity i (obj_merge (en_data ex) data) now s1)"
    "db_claims s2 = db_claims s" "db_fences s2 = db_fences s"
    using s1 by (simp_all add: set_entity_def)
  have "entity_by_id s' k = entity_by_id (set_entity i (obj_merge (en_data ex) data) now s1) k" for k
    by (simp add: 1(6) put_search_doc_def entity_by_id_def s2(1))
  moreover have "entity_by_id s1 k = entity_by_id s k" for k by (simp add: entity_by_id_def s1)
  ultimately have "entity_by_id s' k = (if k = i then Some (fst r) else entity_by_id s k)" for k
    using 1(1,7) by (simp add: entity_by_id_set)
  moreover have "db_claims s' = db_claims s" "db_fences s' = db_fences s"
    by (simp_all add: 1(6) put_search_doc_def s2)
  ultimately show thesis using 1(1,4,7) update_authority_ok [OF 1(3)] by (metis that)
qed

text \<open>What an update does to the tasks: the stored task is the returned one, every field the patch
  does not name keeps its value, no other task changes, and the stored data stays within
  \<open>MAX_TASK_DATA_BYTES\<close> unless it was already over it, and then it has shrunk.\<close>

theorem update_merges_within_bound:
  assumes "update_entity h i data fence orig tags None s = (s', Inr r)" and "distinct (map fst data)"
  shows "\<exists>ex. entity_by_id s i = Some ex \<and> entity_by_id s' i = Some (fst r)
    \<and> (\<forall>k. obj_get k (en_data (fst r)) = (case obj_get k data of
          None \<Rightarrow> obj_get k (en_data ex) | Some v \<Rightarrow> Some v))
    \<and> (\<forall>j. j \<noteq> i \<longrightarrow> entity_by_id s' j = entity_by_id s j)
    \<and> (taskDataBytes (en_data (fst r)) \<le> MAX_TASK_DATA_BYTES
      \<or> taskDataBytes (en_data (fst r)) < taskDataBytes (en_data ex))"
proof -
  from assms(1) have "updateInTransaction h i data fence orig tags (date_now h) None s = Inr (r, s')"
    by (simp add: update_entity_def commit_ok)
  then show ?thesis
  proof (cases rule: update_entity_effect)
    case (1 ex lc)
    from 1(4) have "taskDataBytes (obj_merge (en_data ex) data) \<le> MAX_TASK_DATA_BYTES
        \<or> taskDataBytes (obj_merge (en_data ex) data) < taskDataBytes (en_data ex)"
      by (auto simp: data_bound_error_def Let_def isAttemptTransition_def split: if_splits)
    with 1(1-3) show ?thesis by (simp add: obj_get_merge [OF assms(2)])
  qed
qed

definition task_db :: db where
  "task_db = fst (acquire (project_host 0 ''u'') ''t1'' (system_origin ''a'') Exclusive 100 [] 0 None
     (empty_db\<lparr>db_schema_history := sample_history,
       db_entities := [sample_entity ''task'' ''t1'' [(''status'', JStr ''todo'')]]\<rparr>))"

definition typed_gate_db :: db where
  "typed_gate_db = fst (createGate (project_host 1 ''u'') ''g'' ''task:t1'' ''review'' 1 None []
     (system_origin ''a'') 1 task_db)"

lemmas entity_run = lease_run update_entity_def updateInTransaction_def update_authority_def
  checkManagedWrite_def isManagedTask_def assertResourceFenceWithCanonical_def check_live_claim_def
  resolveCurrentSchema_def getCurrentSchema_def lifecycle_of_def work_unit_of_def
  resolveEntityResourceDirect_def incoming_terminal_def terminal_statuses_def checkPendingGates_def
  gate_expired_def gate_pending_def Let_def as_string_def sample_entity_def archive_entity_def
  assertUnmanagedArchive_def createGate_def assertResourceFence_def rows_insert_def

lemma typed_gate_db_run:
  "snd (update_entity (project_host 2 ''u'') ''t1'' [(''status'', JStr ''dropped'')] 1
     (system_origin ''a'') None None typed_gate_db) = Inl (GateBlockedError ''task:t1'' [''g''])"
  "snd (archive_entity (project_host 2 ''u'') ''t1'' 1 (system_origin ''a'') None typed_gate_db) = Inr ()"
  by (simp_all add: typed_gate_db_def task_db_def entity_run sample_defs)

text \<open>Archiving checks gates under the bare id only: a gate on the typed name of a task that
  blocks its completion does not block its archival. (\<open>archive\<close> calls \<open>checkPendingGates\<close> with
  the bare id, \<open>update\<close> with both names.)\<close>

theorem archive_ignores_typed_gates:
  "\<exists>s. (\<exists>g \<in> set (db_gates s). ga_resource g = ''task:t1'' \<and> gate_pending 2 g)
    \<and> snd (update_entity (project_host 2 ''u'') ''t1'' [(''status'', JStr ''dropped'')] 1
        (system_origin ''a'') None None s) = Inl (GateBlockedError ''task:t1'' [''g''])
    \<and> snd (archive_entity (project_host 2 ''u'') ''t1'' 1 (system_origin ''a'') None s) = Inr ()"
proof -
  have "\<exists>g \<in> set (db_gates typed_gate_db). ga_resource g = ''task:t1'' \<and> gate_pending 2 g"
    by (simp add: typed_gate_db_def task_db_def entity_run sample_defs)
  with typed_gate_db_run show ?thesis by blast
qed

subsection \<open>Witnesses\<close>

lemmas entity_data_run = data_bound_error_def isAttemptTransition_def taskDataBytes_def
  MAX_TASK_DATA_BYTES_def quote_str_def escape_char_def backslash_def quote_char_def
  assertCurrentEntityWrite_def validatedWrite_def obj_has_def lifecycle_value_ok_def
  status_changes_def assertArtifactReviewPolicy_def required_slots_def slot_requires_def
  set_entity_def rows_set_def replace_tags_def put_search_doc_def entity_tags_def

lemma task_db_update: "\<exists>s' r. update_entity (project_host 2 ''u'') ''t1'' [(''status'', JStr ''dropped'')] 1
    (system_origin ''a'') None None task_db = (s', Inr r)"
  by (simp add: task_db_def entity_run entity_data_run sample_defs)

lemma task_db_facts:
  "entity_by_id task_db ''t1'' = Some (sample_entity ''task'' ''t1'' [(''status'', JStr ''todo'')])"
  "\<not> isManagedTask task_db ''t1''" "db_gates task_db = []"
  "resolveCurrentSchema (project_host 2 ''u'') task_db = Inr (Some sample_schema)"
  by (simp_all add: task_db_def entity_run sample_defs)

lemma task_db_lifecycle: "lifecycle_of (Some sample_schema) ''task'' = Some sample_lifecycle"
  by (simp add: lifecycle_of_def sample_schema_def work_unit_of_def)


theorem terminal_update_ungated_witness:
  "blocking task_db ''task:t1'' 2 = []"
proof -
  obtain s' r where run: "update_entity (project_host 2 ''u'') ''t1'' [(''status'', JStr ''dropped'')] 1
      (system_origin ''a'') None None task_db = (s', Inr r)" using task_db_update by blast
  have "gates_wf task_db" by (simp add: gates_wf_def task_db_facts(3))
  moreover have "lifecycle_of (Some sample_schema) (en_type (sample_entity ''task'' ''t1''
      [(''status'', JStr ''todo'')])) = Some sample_lifecycle"
    by (simp add: sample_entity_def task_db_lifecycle)
  moreover have "incoming_terminal (Some sample_lifecycle) [(''status'', JStr ''dropped'')]"
    by (simp add: incoming_terminal_def terminal_statuses_def sample_lifecycle_def as_string_def)
  ultimately have "blocking task_db ''task:t1'' (date_now (project_host 2 ''u'')) = []"
    by (intro terminal_update_ungated [OF run _ task_db_facts(1,2,4)])
      (auto simp: resolveEntityResourceDirect_def sample_entity_def)
  then show ?thesis by (simp add: project_host_def)
qed

theorem update_merges_within_bound_witness:
  "\<exists>s' r. update_entity (project_host 2 ''u'') ''t1'' [(''status'', JStr ''dropped'')] 1
      (system_origin ''a'') None None task_db = (s', Inr r)
    \<and> obj_get ''status'' (en_data (fst r)) = Some (JStr ''dropped'')"
proof -
  obtain s' r where run: "update_entity (project_host 2 ''u'') ''t1'' [(''status'', JStr ''dropped'')] 1
      (system_origin ''a'') None None task_db = (s', Inr r)" using task_db_update by blast
  from update_merges_within_bound [OF run] have "obj_get ''status'' (en_data (fst r)) = Some (JStr ''dropped'')"
    by auto
  with run show ?thesis by blast
qed

end
