(* ===== verification/Readiness.thy ===== *)
theory Readiness
  imports Entities
begin

text \<open>
  Readiness: \<^verbatim>\<open>packages/ops-sqlite/src/ready-ops.ts\<close>. A task may be dispatched when its own
  state allows it, no gate is pending on it, and every transitive prerequisite is satisfied,
  without a dependency cycle. \<open>evaluateReadiness\<close> finds this with an iterative depth-first
  search over an explicit stack with exit markers; the main theorem equates its answer with the
  declarative condition.
\<close>

section \<open>The snapshot\<close>

record readiness_snapshot =
  sn_definition :: "tila_schema option"
  sn_entities :: "entity_row list"
  sn_predecessors :: "(string \<times> string list) list"
  sn_gates :: "(string \<times> string list) list"

text \<open>\<open>const l = m.get(k) ?? []; l.push(v); m.set(k, l)\<close> and \<open>m.get(k) ?? []\<close>.\<close>

fun map_push :: "string \<Rightarrow> string \<Rightarrow> (string \<times> string list) list \<Rightarrow> (string \<times> string list) list" where
  "map_push k v [] = [(k, [v])]"
| "map_push k v ((k', l) # m) = (if k = k' then (k', l @ [v]) # m else (k', l) # map_push k v m)"

definition map_list :: "(string \<times> string list) list \<Rightarrow> string \<Rightarrow> string list" where
  "map_list m k = (case map_of m k of None \<Rightarrow> [] | Some l \<Rightarrow> l)"

definition readReadinessSnapshot :: "host \<Rightarrow> db \<Rightarrow> int \<Rightarrow> bool \<Rightarrow> error + readiness_snapshot" where
  "readReadinessSnapshot h s now includeSoftBlocked = (case resolveCurrentSchema h s of
      Inl e \<Rightarrow> Inl e
    | Inr definition \<Rightarrow> Inr \<lparr>sn_definition = definition, sn_entities = db_entities s,
        sn_predecessors = fold (\<lambda>r m. map_push (er_to_id r) (er_from_id r) m)
          (filter (\<lambda>r. er_type r \<in> set (if includeSoftBlocked then [''blocks''] else [''blocks'', ''soft-blocks'']))
            (db_entity_relationships s)) [],
        sn_gates = fold (\<lambda>g m. map_push (ga_resource g) (ga_id g) m)
          (filter (gate_pending now) (db_gates s)) []\<rparr>)"

definition sn_entity :: "readiness_snapshot \<Rightarrow> string \<Rightarrow> entity_row option" where
  "sn_entity sn i = by_key en_id i (sn_entities sn)"

definition predecessors_of :: "readiness_snapshot \<Rightarrow> string \<Rightarrow> string list" where
  "predecessors_of sn i = map_list (sn_predecessors sn) i"

definition sn_lifecycle :: "readiness_snapshot \<Rightarrow> entity_row \<Rightarrow> work_lifecycle option" where
  "sn_lifecycle sn e = lifecycle_of (sn_definition sn) (en_type e)"

section \<open>Reasons\<close>

datatype block_code =
    B_missing | B_archived | B_lifecycle_unconfigured | B_not_dispatchable | B_dependency_missing
  | B_dependency_unsatisfied | B_dependency_lifecycle_unconfigured | B_dependency_cycle | B_gate_pending

record work_block_reason =
  br_code :: block_code
  br_resource :: string
  br_state :: "string option"
  br_path :: "string list option"

definition reason :: "block_code \<Rightarrow> string \<Rightarrow> work_block_reason" where
  "reason c r = \<lparr>br_code = c, br_resource = r, br_state = None, br_path = None\<rparr>"

fun block_code_str :: "block_code \<Rightarrow> string" where
  "block_code_str B_missing = ''missing''"
| "block_code_str B_archived = ''archived''"
| "block_code_str B_lifecycle_unconfigured = ''lifecycle-unconfigured''"
| "block_code_str B_not_dispatchable = ''not-dispatchable''"
| "block_code_str B_dependency_missing = ''dependency-missing''"
| "block_code_str B_dependency_unsatisfied = ''dependency-unsatisfied''"
| "block_code_str B_dependency_lifecycle_unconfigured = ''dependency-lifecycle-unconfigured''"
| "block_code_str B_dependency_cycle = ''dependency-cycle''"
| "block_code_str B_gate_pending = ''gate-pending''"

definition reason_json :: "work_block_reason \<Rightarrow> json" where
  "reason_json r = JObj ([(''code'', JStr (block_code_str (br_code r))), (''resource'', JStr (br_resource r))]
     @ opt_field ''state'' (map_option JStr (br_state r))
     @ opt_field ''path'' (map_option (\<lambda>p. JArr (map JStr p)) (br_path r)))"

text \<open>\<open>add\<close>: reasons are deduplicated by their JSON text.\<close>

definition add_reason :: "work_block_reason \<Rightarrow> work_block_reason list \<Rightarrow> work_block_reason list" where
  "add_reason r rs = (if stringify (reason_json r) \<in> (\<lambda>x. stringify (reason_json x)) ` set rs
     then rs else rs @ [r])"

section \<open>The evaluation\<close>

text \<open>The reason a visited prerequisite contributes, if any.\<close>

definition legacy_closed :: "json option \<Rightarrow> bool" where
  "legacy_closed v = (v = None \<or> v = Some JNull \<or> v = Some (JStr ''closed''))"

definition predecessor_reason :: "readiness_snapshot \<Rightarrow> bool \<Rightarrow> string \<Rightarrow> work_block_reason option" where
  "predecessor_reason sn strict i = (case sn_entity sn i of
      None \<Rightarrow> if strict then Some (reason B_dependency_missing i) else None
    | Some p \<Rightarrow> (case sn_lifecycle sn p of
        Some lc \<Rightarrow> (case as_string (obj_get (lc_field lc) (en_data p)) of
            Some v \<Rightarrow> if v \<in> set (lc_dependency_satisfied lc) then None
                      else Some ((reason B_dependency_unsatisfied i)\<lparr>br_state := Some v\<rparr>)
          | None \<Rightarrow> Some (reason B_dependency_unsatisfied i))
      | None \<Rightarrow>
          if strict then Some (reason B_dependency_lifecycle_unconfigured i)
          else if \<not> en_archived p \<and> \<not> legacy_closed (obj_get ''status'' (en_data p))
          then Some (reason B_dependency_unsatisfied i) else None))"

datatype color = Visiting | Visited

definition add_option :: "work_block_reason option \<Rightarrow> work_block_reason list \<Rightarrow> work_block_reason list" where
  "add_option r rs = (case r of None \<Rightarrow> rs | Some x \<Rightarrow> add_reason x rs)"

text \<open>\<open>path.slice(path.indexOf(i))\<close>, for \<open>i\<close> on the path.\<close>

definition slice_from :: "string \<Rightarrow> string list \<Rightarrow> string list" where
  "slice_from i path = dropWhile (\<lambda>x. x \<noteq> i) path"

text \<open>The loop over the stack; \<open>pr\<close> are the predecessor lists, \<open>check\<close> the reason of a visited node
  other than the root. The stack is a list with its top first, so pushing the predecessors in
  order reverses them.\<close>

definition graph_of :: "(string \<times> string list) list \<Rightarrow> (string \<times> bool) list \<Rightarrow> string set" where
  "graph_of pr stack = fst ` set stack \<union> set (concat (map snd pr))"

lemma map_list_graph: "set (map_list pr i) \<subseteq> set (concat (map snd pr))"
proof (cases "map_of pr i")
  case (Some l)
  then have "(i, l) \<in> set pr" by (rule map_of_SomeD)
  then show ?thesis using Some by (force simp: map_list_def)
qed (simp add: map_list_def)

lemma unvisited_less:
  assumes "colors i = None" and "finite A" and "i \<in> A" and "B \<subseteq> A"
  shows "card (B - dom (colors(i \<mapsto> c))) < card (A - dom colors)"
  using assms by (intro psubset_card_mono) auto

function dfs :: "(string \<times> string list) list \<Rightarrow> bool \<Rightarrow> (string \<Rightarrow> work_block_reason option) \<Rightarrow>
    (string \<times> bool) list \<Rightarrow> (string \<Rightarrow> color option) \<Rightarrow> string list \<Rightarrow> work_block_reason list
    \<Rightarrow> work_block_reason list" where
  "dfs pr strict check [] colors path rs = rs"
| "dfs pr strict check ((i, True) # stack) colors path rs =
     dfs pr strict check stack (colors(i \<mapsto> Visited)) (butlast path) rs"
| "dfs pr strict check ((i, False) # stack) colors path rs =
     (case colors i of
        Some Visited \<Rightarrow> dfs pr strict check stack colors path rs
      | Some Visiting \<Rightarrow> dfs pr strict check stack colors path
          (if strict then add_reason ((reason B_dependency_cycle i)
             \<lparr>br_path := Some (slice_from i path @ [i])\<rparr>) rs else rs)
      | None \<Rightarrow> dfs pr strict check
          (map (\<lambda>p. (p, False)) (rev (map_list pr i)) @ (i, True) # stack)
          (colors(i \<mapsto> Visiting)) (path @ [i]) (add_option (check i) rs))"
  by pat_completeness auto

termination
proof (relation "measures [\<lambda>(pr, _, _, stack, colors, _, _). card (graph_of pr stack - dom colors),
    \<lambda>(_, _, _, stack, _, _, _). length stack]", goal_cases)
  case 1
  then show ?case by simp
next
  case (2 pr strict check i stack colors path rs)
  have "card (graph_of pr stack - dom (colors(i \<mapsto> Visited))) \<le> card (graph_of pr ((i, True) # stack) - dom colors)"
    by (intro card_mono) (auto simp: graph_of_def)
  then show ?case by auto
next
  case (3 pr strict check i stack colors path rs)
  let ?new = "map (\<lambda>p. (p, False)) (rev (map_list pr i)) @ (i, True) # stack"
  have "graph_of pr ?new \<subseteq> graph_of pr ((i, False) # stack)"
    using map_list_graph [of pr i] unfolding graph_of_def by (force simp del: set_concat)
  moreover have "finite (graph_of pr ((i, False) # stack))" "i \<in> graph_of pr ((i, False) # stack)"
    by (simp_all add: graph_of_def)
  ultimately have "card (graph_of pr ?new - dom (colors(i \<mapsto> Visiting)))
      < card (graph_of pr ((i, False) # stack) - dom colors)"
    using 3 by (blast intro: unvisited_less)
  then show ?case by simp
next
  case (4 pr strict check i stack colors path rs)
  then have "graph_of pr ((i, False) # stack) - dom colors = graph_of pr stack - dom colors"
    by (auto simp: graph_of_def)
  then show ?case by simp
next
  case (5 pr strict check i stack colors path rs)
  then have "graph_of pr ((i, False) # stack) - dom colors = graph_of pr stack - dom colors"
    by (auto simp: graph_of_def)
  then show ?case by simp
qed

text \<open>What the task itself contributes, in the order of the code.\<close>

definition own_reasons :: "readiness_snapshot \<Rightarrow> entity_row \<Rightarrow> bool \<Rightarrow> work_block_reason list" where
  "own_reasons sn e requireLifecycle =
    (let i = en_id e; lifecycle = sn_lifecycle sn e;
         state = obj_get (case lifecycle of Some lc \<Rightarrow> lc_field lc | None \<Rightarrow> ''status'') (en_data e) in
     (if en_archived e then [reason B_archived i] else []) @
     (if lifecycle = None \<and> requireLifecycle then [reason B_lifecycle_unconfigured i] else []) @
     (if (case lifecycle of
            Some lc \<Rightarrow> (case as_string state of None \<Rightarrow> True | Some st \<Rightarrow> st \<notin> set (lc_dispatchable lc))
          | None \<Rightarrow> legacy_closed state)
      then [(reason B_not_dispatchable i)\<lparr>br_state := as_string state\<rparr>] else []) @
     map (reason B_gate_pending) (map_list (sn_gates sn) i) @
     map (reason B_gate_pending) (map_list (sn_gates sn) (en_type e @ '':'' @ i)))"

definition evaluateReadiness :: "readiness_snapshot \<Rightarrow> string \<Rightarrow> bool \<Rightarrow> work_block_reason list" where
  "evaluateReadiness sn i requireLifecycle = (case sn_entity sn i of
      None \<Rightarrow> [reason B_missing i]
    | Some e \<Rightarrow>
        let strict = (requireLifecycle \<or> sn_lifecycle sn e \<noteq> None) in
        dfs (sn_predecessors sn) strict (\<lambda>v. if v = i then None else predecessor_reason sn strict v)
          [(i, False)] (\<lambda>_. None) [] (fold add_reason (own_reasons sn e requireLifecycle) []))"

text \<open>\<open>ready: reasons.length === 0\<close>.\<close>

definition ready :: "readiness_snapshot \<Rightarrow> string \<Rightarrow> bool \<Rightarrow> bool" where
  "ready sn i requireLifecycle = (evaluateReadiness sn i requireLifecycle = [])"

definition isTerminal :: "readiness_snapshot \<Rightarrow> entity_row \<Rightarrow> bool" where
  "isTerminal sn e = (case sn_lifecycle sn e of
      Some lc \<Rightarrow> (case as_string (obj_get (lc_field lc) (en_data e)) of
          None \<Rightarrow> False | Some st \<Rightarrow> st \<in> set (lc_terminal lc))
    | None \<Rightarrow> obj_get ''status'' (en_data e) = Some (JStr ''closed''))"

definition holdsBack :: "readiness_snapshot \<Rightarrow> string \<Rightarrow> bool \<Rightarrow> bool" where
  "holdsBack sn i strict = (case sn_entity sn i of
      None \<Rightarrow> strict
    | Some p \<Rightarrow> (case sn_lifecycle sn p of
        Some lc \<Rightarrow> (case as_string (obj_get (lc_field lc) (en_data p)) of
            None \<Rightarrow> True | Some v \<Rightarrow> v \<notin> set (lc_dependency_satisfied lc))
      | None \<Rightarrow> if strict then True
          else \<not> en_archived p \<and> \<not> legacy_closed (obj_get ''status'' (en_data p))))"

fun ready_loop :: "readiness_snapshot \<Rightarrow> string option \<Rightarrow> string option \<Rightarrow> nat option
    \<Rightarrow> entity_row list \<Rightarrow> entity_row list \<Rightarrow> entity_row list" where
  "ready_loop sn ty parent lim [] acc = acc"
| "ready_loop sn ty parent lim (e # es) acc =
    (if (case lim of None \<Rightarrow> False | Some n \<Rightarrow> n \<le> length acc) then acc
     else if (case ty of None \<Rightarrow> False | Some t \<Rightarrow> en_type e \<noteq> t) then ready_loop sn ty parent lim es acc
     else if (case parent of None \<Rightarrow> False | Some p \<Rightarrow> obj_get ''parent_id'' (en_data e) \<noteq> Some (JStr p))
     then ready_loop sn ty parent lim es acc
     else ready_loop sn ty parent lim es (if ready sn (en_id e) False then acc @ [e] else acc))"

definition computeReadyEntities :: "host \<Rightarrow> string option \<Rightarrow> string option \<Rightarrow> int option \<Rightarrow> bool
    \<Rightarrow> int \<Rightarrow> db \<Rightarrow> error + entity_row list" where
  "computeReadyEntities h ty parent limit includeSoftBlocked now s =
    (case readReadinessSnapshot h s now includeSoftBlocked of
       Inl e \<Rightarrow> Inl e
     | Inr sn \<Rightarrow> Inr (ready_loop sn ty parent
         (case limit of None \<Rightarrow> None | Some n \<Rightarrow> if n < 0 then None else Some (nat n))
         (sn_entities sn) []))"

section \<open>Correctness of the search\<close>

definition edge :: "(string \<times> string list) list \<Rightarrow> string \<Rightarrow> string \<Rightarrow> bool" where
  "edge pr v p \<longleftrightarrow> p \<in> set (map_list pr v)"

text \<open>A closed walk that starts and ends at the same node.\<close>

definition closed_walk :: "(string \<times> string list) list \<Rightarrow> string list \<Rightarrow> bool" where
  "closed_walk pr ps \<longleftrightarrow> 2 \<le> length ps \<and> hd ps = last ps \<and> successively (edge pr) ps"

lemma add_reason_not_empty [simp]: "add_reason r rs \<noteq> []"
  by (auto simp: add_reason_def)

lemma set_add_reason: "set (add_reason r rs) \<subseteq> insert r (set rs)"
  by (auto simp: add_reason_def)

lemma dfs_empty: "dfs pr strict check stack colors path rs = [] \<Longrightarrow> rs = []"
  by (induction pr strict check stack colors path rs rule: dfs.induct)
    (auto simp: add_option_def split: option.splits color.splits if_splits)

subsection \<open>Every reason is genuine\<close>

text \<open>The invariant: the exit markers on the stack are the current path, which is a walk, and every
  other stack entry is a predecessor of the node whose marker is next below it.\<close>

definition next_marker :: "(string \<times> bool) list \<Rightarrow> string option" where
  "next_marker stack = (case filter snd stack of [] \<Rightarrow> None | (v, _) # _ \<Rightarrow> Some v)"

fun entries_ok :: "(string \<times> string list) list \<Rightarrow> (string \<times> bool) list \<Rightarrow> bool" where
  "entries_ok pr [] = True"
| "entries_ok pr ((u, b) # stack) = ((\<not> b \<longrightarrow> (case next_marker stack of None \<Rightarrow> True | Some v \<Rightarrow> edge pr v u))
     \<and> entries_ok pr stack)"

definition walk_inv :: "(string \<times> string list) list \<Rightarrow> string \<Rightarrow> (string \<times> bool) list \<Rightarrow>
    (string \<Rightarrow> color option) \<Rightarrow> string list \<Rightarrow> bool" where
  "walk_inv pr root stack colors path \<longleftrightarrow>
     map fst (filter snd stack) = rev path \<and> distinct path \<and> successively (edge pr) path
     \<and> (\<forall>v. colors v = Some Visiting \<longleftrightarrow> v \<in> set path)
     \<and> entries_ok pr stack \<and> (\<forall>(v, b) \<in> set stack. (edge pr)\<^sup>*\<^sup>* root v)"

lemma entries_ok_push:
  "entries_ok pr (map (\<lambda>p. (p, False)) ps @ (i, True) # stack) \<longleftrightarrow>
     (\<forall>p \<in> set ps. edge pr i p) \<and> entries_ok pr stack"
proof (induction ps)
  case (Cons p ps)
  have "next_marker (map (\<lambda>p. (p, False)) ps @ (i, True) # stack) = Some i"
    by (induction ps) (auto simp: next_marker_def)
  with Cons show ?case by simp
qed simp

lemma next_marker_path:
  "map fst (filter snd stack) = rev path \<Longrightarrow>
     next_marker stack = (if path = [] then None else Some (last path))"
  by (cases path rule: rev_cases) (auto simp: next_marker_def split: list.splits)

lemma walk_inv_visit:
  assumes "walk_inv pr root ((i, False) # stack) colors path" and "colors i = None"
  shows "walk_inv pr root (map (\<lambda>p. (p, False)) (rev (map_list pr i)) @ (i, True) # stack)
    (colors(i \<mapsto> Visiting)) (path @ [i])"
proof -
  from assms(1) have m: "map fst (filter snd stack) = rev path" and e: "entries_ok pr ((i, False) # stack)"
    and reach: "(edge pr)\<^sup>*\<^sup>* root i" by (auto simp: walk_inv_def)
  have "path \<noteq> [] \<longrightarrow> edge pr (last path) i"
    using e by (cases "path = []") (simp_all add: next_marker_path [OF m])
  then have "successively (edge pr) (path @ [i])"
    using assms(1) by (auto simp: walk_inv_def successively_append_iff)
  moreover have "i \<notin> set path"
  proof -
    have "colors i \<noteq> Some Visiting" using assms(2) by simp
    then show ?thesis using assms(1) unfolding walk_inv_def by blast
  qed
  moreover have "(edge pr)\<^sup>*\<^sup>* root p" if "p \<in> set (map_list pr i)" for p
    using reach that by (simp add: edge_def rtranclp.rtrancl_into_rtrancl)
  ultimately show ?thesis
    using assms(1) by (auto simp: walk_inv_def entries_ok_push edge_def filter_map o_def)
qed

lemma walk_inv_exit:
  assumes "walk_inv pr root ((i, True) # stack) colors path"
  shows "walk_inv pr root stack (colors(i \<mapsto> Visited)) (butlast path)"
proof -
  from assms have "rev path = i # map fst (filter snd stack)" by (simp add: walk_inv_def)
  then have "path = rev (map fst (filter snd stack)) @ [i]" by (metis rev.simps(2) rev_rev_ident)
  with assms show ?thesis by (auto simp: walk_inv_def successively_append_iff)
qed

lemma walk_inv_skip: "walk_inv pr root ((i, False) # stack) colors path \<Longrightarrow> walk_inv pr root stack colors path"
  by (auto simp: walk_inv_def)

lemma slice_from_split:
  "i \<in> set path \<Longrightarrow> \<exists>a. path = a @ slice_from i path \<and> slice_from i path \<noteq> [] \<and> hd (slice_from i path) = i"
proof (induction path)
  case (Cons x path)
  show ?case
  proof (cases "x = i")
    case False
    with Cons obtain a where "path = a @ slice_from i path" "slice_from i path \<noteq> []"
      "hd (slice_from i path) = i" by auto
    with False show ?thesis by (intro exI [of _ "x # a"]) (simp add: slice_from_def)
  qed (simp add: slice_from_def)
qed simp

lemma walk_inv_cycle:
  assumes "walk_inv pr root ((i, False) # stack) colors path" and "colors i = Some Visiting"
  shows "closed_walk pr (slice_from i path @ [i]) \<and> (edge pr)\<^sup>*\<^sup>* root i"
proof -
  from assms have m: "map fst (filter snd stack) = rev path" and e: "entries_ok pr ((i, False) # stack)"
    and i: "i \<in> set path" and reach: "(edge pr)\<^sup>*\<^sup>* root i" and walk: "successively (edge pr) path"
    by (auto simp: walk_inv_def)
  from i have "path \<noteq> []" by auto
  with e have bk: "edge pr (last path) i" by (simp add: next_marker_path [OF m])
  from slice_from_split [OF i] obtain a where a: "path = a @ slice_from i path"
      "slice_from i path \<noteq> []" "hd (slice_from i path) = i" by blast
  have "last path = last (slice_from i path)" using a(1,2) by (metis last_appendR)
  moreover have "successively (edge pr) (slice_from i path)"
    using walk a(1) by (metis successively_append_iff)
  ultimately have "successively (edge pr) (slice_from i path @ [i])"
    using bk a(2) by (simp add: successively_append_iff)
  with a(2,3) reach show ?thesis
    by (cases "slice_from i path") (auto simp: closed_walk_def)
qed

definition genuine :: "(string \<times> string list) list \<Rightarrow> bool \<Rightarrow> string \<Rightarrow>
    (string \<Rightarrow> work_block_reason option) \<Rightarrow> work_block_reason \<Rightarrow> bool" where
  "genuine pr strict root check r \<longleftrightarrow>
     (\<exists>v. (edge pr)\<^sup>*\<^sup>* root v \<and> check v = Some r) \<or>
     (strict \<and> (\<exists>v ps. (edge pr)\<^sup>*\<^sup>* root v \<and> closed_walk pr ps \<and> hd ps = v
        \<and> r = (reason B_dependency_cycle v)\<lparr>br_path := Some ps\<rparr>))"

lemma dfs_genuine:
  assumes "walk_inv pr root stack colors path" and "r \<in> set (dfs pr strict check stack colors path rs)"
  shows "r \<in> set rs \<or> genuine pr strict root check r"
  using assms
proof (induction pr strict check stack colors path rs rule: dfs.induct)
  case (1 pr strict check colors path rs)
  then show ?case by simp
next
  case (2 pr strict check i stack colors path rs)
  from "2.IH" [OF walk_inv_exit [OF "2.prems"(1)]] "2.prems"(2) show ?case by (simp add: fun_upd_def)
next
  case (3 pr strict check i stack colors path rs)
  consider (white) "colors i = None" | (gray) "colors i = Some Visiting" | (black) "colors i = Some Visited"
    by (cases "colors i") (auto intro: color.exhaust)
  then show ?case
  proof cases
    case white
    have "(edge pr)\<^sup>*\<^sup>* root i" using "3.prems"(1) by (auto simp: walk_inv_def)
    moreover have "r \<in> set (add_option (check i) rs) \<or> genuine pr strict root check r"
      using "3.IH"(1) [OF white walk_inv_visit [OF "3.prems"(1) white]] "3.prems"(2) white
      by (simp add: fun_upd_def)
    moreover have "set (add_option (check i) rs) \<subseteq> set rs \<union> set_option (check i)"
      using set_add_reason by (cases "check i") (auto simp: add_option_def)
    ultimately show ?thesis by (auto simp: genuine_def)
  next
    case gray
    let ?r = "(reason B_dependency_cycle i)\<lparr>br_path := Some (slice_from i path @ [i])\<rparr>"
    from walk_inv_cycle [OF "3.prems"(1) gray]
    have "strict \<Longrightarrow> genuine pr strict root check ?r"
      by (auto simp: genuine_def intro!: exI [of _ "slice_from i path @ [i]"])
        (metis closed_walk_def last_snoc)
    moreover have "r \<in> set (if strict then add_reason ?r rs else rs) \<or> genuine pr strict root check r"
      using "3.IH"(2) [OF gray refl walk_inv_skip [OF "3.prems"(1)]] "3.prems"(2) gray by simp
    ultimately show ?thesis using set_add_reason [of ?r rs] by (auto split: if_splits)
  next
    case black
    then show ?thesis
      using "3.IH"(3) [OF black refl walk_inv_skip [OF "3.prems"(1)]] "3.prems"(2) by simp
  qed
qed

subsection \<open>An empty answer has searched everything\<close>

text \<open>The invariant: every predecessor of a node on the path is finished (in lenient mode: visited) or
  still on the stack above its exit marker; finished nodes have visited predecessors and, in
  strict mode, can be listed with every predecessor before its dependents.\<close>

fun markers_ok :: "(string \<times> string list) list \<Rightarrow> (string \<Rightarrow> bool) \<Rightarrow> (string \<times> bool) list \<Rightarrow> bool" where
  "markers_ok pr okp [] = True"
| "markers_ok pr okp ((v, b) # stack) = ((b \<longrightarrow> (\<forall>p. edge pr v p \<longrightarrow> okp p))
     \<and> markers_ok pr (\<lambda>p. okp p \<or> p = v) stack)"

fun topo :: "(string \<times> string list) list \<Rightarrow> string list \<Rightarrow> bool" where
  "topo pr [] = True"
| "topo pr (v # older) = (v \<notin> set older \<and> (\<forall>p. edge pr v p \<longrightarrow> p \<in> set older) \<and> topo pr older)"

definition search_done :: "bool \<Rightarrow> (string \<Rightarrow> color option) \<Rightarrow> string \<Rightarrow> bool" where
  "search_done strict colors p = (if strict then colors p = Some Visited else colors p \<noteq> None)"

definition search_inv :: "(string \<times> string list) list \<Rightarrow> bool \<Rightarrow> (string \<Rightarrow> work_block_reason option) \<Rightarrow>
    string \<Rightarrow> (string \<times> bool) list \<Rightarrow> (string \<Rightarrow> color option) \<Rightarrow> bool" where
  "search_inv pr strict check root stack colors \<longleftrightarrow>
     ((root, False) \<in> set stack \<or> colors root \<noteq> None)
     \<and> (\<forall>v. colors v \<noteq> None \<longrightarrow> check v = None)
     \<and> (\<forall>v. colors v = Some Visiting \<longleftrightarrow> (v, True) \<in> set stack)
     \<and> distinct (map fst (filter snd stack))
     \<and> (\<forall>v p. colors v = Some Visited \<longrightarrow> edge pr v p \<longrightarrow> colors p \<noteq> None)
     \<and> markers_ok pr (search_done strict colors) stack
     \<and> (strict \<longrightarrow> (\<exists>fin. topo pr fin \<and> set fin = {v. colors v = Some Visited}))"

lemma markers_ok_mono:
  "markers_ok pr P stack \<Longrightarrow> (\<And>p. P p \<Longrightarrow> Q p) \<Longrightarrow> markers_ok pr Q stack"
proof (induction stack arbitrary: P Q)
  case (Cons vb stack)
  obtain v b where vb: "vb = (v, b)" by (cases vb)
  have m: "markers_ok pr (\<lambda>p. P p \<or> p = v) stack" and b: "b \<longrightarrow> (\<forall>p. edge pr v p \<longrightarrow> P p)"
    using Cons.prems(1) by (simp_all add: vb)
  have "markers_ok pr (\<lambda>p. Q p \<or> p = v) stack"
    by (rule Cons.IH [OF m]) (use Cons.prems(2) in blast)
  moreover have "b \<longrightarrow> (\<forall>p. edge pr v p \<longrightarrow> Q p)" using b Cons.prems(2) by blast
  ultimately show ?case by (simp add: vb)
qed simp

lemma markers_ok_entries:
  "markers_ok pr P (map (\<lambda>p. (p, False)) ps @ stack) = markers_ok pr (\<lambda>p. P p \<or> p \<in> set ps) stack"
proof (induction ps arbitrary: P)
  case (Cons q ps)
  show ?case using Cons.IH [of "\<lambda>p. P p \<or> p = q"] by (simp add: disj_assoc)
qed simp

lemma search_invD:
  assumes "search_inv pr strict check root stack colors"
  shows "(root, False) \<in> set stack \<or> colors root \<noteq> None"
    and "colors v \<noteq> None \<Longrightarrow> check v = None"
    and "colors v = Some Visiting \<longleftrightarrow> (v, True) \<in> set stack"
    and "distinct (map fst (filter snd stack))"
    and "colors v = Some Visited \<Longrightarrow> edge pr v p \<Longrightarrow> colors p \<noteq> None"
    and "markers_ok pr (search_done strict colors) stack"
    and "strict \<Longrightarrow> \<exists>fin. topo pr fin \<and> set fin = {v. colors v = Some Visited}"
  using assms unfolding search_inv_def by blast+

lemma search_invI:
  assumes "(root, False) \<in> set stack \<or> colors root \<noteq> None"
    and "\<And>v. colors v \<noteq> None \<Longrightarrow> check v = None"
    and "\<And>v. colors v = Some Visiting \<longleftrightarrow> (v, True) \<in> set stack"
    and "distinct (map fst (filter snd stack))"
    and "\<And>v p. colors v = Some Visited \<Longrightarrow> edge pr v p \<Longrightarrow> colors p \<noteq> None"
    and "markers_ok pr (search_done strict colors) stack"
    and "strict \<Longrightarrow> \<exists>fin. topo pr fin \<and> set fin = {v. colors v = Some Visited}"
  shows "search_inv pr strict check root stack colors"
  using assms unfolding search_inv_def by blast

lemma marker_once: "distinct (map fst (filter snd ((i, True) # stack))) \<Longrightarrow> (i, True) \<notin> set stack"
  by (auto simp: image_iff)

lemma search_inv_exit:
  assumes inv: "search_inv pr strict check root ((i, True) # stack) colors"
  shows "search_inv pr strict check root stack (colors(i \<mapsto> Visited))" (is "search_inv _ _ _ _ _ ?c")
proof (rule search_invI)
  note d = search_invD [OF inv]
  have gray: "colors i = Some Visiting" using d(3) by simp
  have preds: "edge pr i p \<Longrightarrow> search_done strict colors p" for p using d(6) by simp
  have rest: "markers_ok pr (\<lambda>p. search_done strict colors p \<or> p = i) stack" using d(6) by simp
  have notin: "(i, True) \<notin> set stack" using marker_once [OF d(4)] .
  show "(root, False) \<in> set stack \<or> ?c root \<noteq> None" using d(1) by auto
  show "check v = None" if "?c v \<noteq> None" for v using that d(2) gray by (cases "v = i") auto
  show "?c v = Some Visiting \<longleftrightarrow> (v, True) \<in> set stack" for v
    using d(3) [of v] notin by (cases "v = i") auto
  show "distinct (map fst (filter snd stack))" using d(4) by simp
  show "?c p \<noteq> None" if "?c v = Some Visited" "edge pr v p" for v p
    using that preds [of p] d(5) [of v p]
    by (cases "v = i") (auto simp: search_done_def split: if_splits)
  show "markers_ok pr (search_done strict ?c) stack"
    by (rule markers_ok_mono [OF rest]) (auto simp: search_done_def)
  show "\<exists>fin. topo pr fin \<and> set fin = {v. ?c v = Some Visited}" if strict
  proof -
    obtain fin where fin: "topo pr fin" "set fin = {v. colors v = Some Visited}" using d(7) \<open>strict\<close> by blast
    have "topo pr (i # fin)" using fin preds gray \<open>strict\<close> by (auto simp: search_done_def)
    moreover have "set (i # fin) = {v. ?c v = Some Visited}" using fin(2) by auto
    ultimately show ?thesis by blast
  qed
qed

lemma search_inv_skip:
  assumes inv: "search_inv pr strict check root ((i, False) # stack) colors"
    and seen: "search_done strict colors i"
  shows "search_inv pr strict check root stack colors"
proof (rule search_invI)
  note d = search_invD [OF inv]
  have "colors i \<noteq> None" using seen by (auto simp: search_done_def split: if_splits)
  then show "(root, False) \<in> set stack \<or> colors root \<noteq> None" using d(1) by auto
  have "markers_ok pr (\<lambda>p. search_done strict colors p \<or> p = i) stack" using d(6) by simp
  then show "markers_ok pr (search_done strict colors) stack"
    by (rule markers_ok_mono) (use seen in auto)
  show "colors v = Some Visiting \<longleftrightarrow> (v, True) \<in> set stack" for v using d(3) [of v] by simp
  show "distinct (map fst (filter snd stack))" using d(4) by simp
qed (use search_invD [OF inv] in blast)+

lemma search_inv_visit:
  assumes inv: "search_inv pr strict check root ((i, False) # stack) colors" and white: "colors i = None"
    and ok: "check i = None"
  shows "search_inv pr strict check root
    (map (\<lambda>p. (p, False)) (rev (map_list pr i)) @ (i, True) # stack) (colors(i \<mapsto> Visiting))"
    (is "search_inv _ _ _ _ ?stack ?c")
proof (rule search_invI)
  note d = search_invD [OF inv]
  have notin: "(i, True) \<notin> set stack" using d(3) [of i] white by simp
  have black: "{v. ?c v = Some Visited} = {v. colors v = Some Visited}" using white by auto
  show "(root, False) \<in> set ?stack \<or> ?c root \<noteq> None" using d(1) by auto
  show "check v = None" if "?c v \<noteq> None" for v using that d(2) ok by (cases "v = i") auto
  show "?c v = Some Visiting \<longleftrightarrow> (v, True) \<in> set ?stack" for v
    using d(3) [of v] by (cases "v = i") auto
  show "distinct (map fst (filter snd ?stack))"
    using d(4) notin by (auto simp: filter_map o_def image_iff)
  show "?c p \<noteq> None" if "?c v = Some Visited" "edge pr v p" for v p
    using that d(5) [of v p] white by (cases "v = i"; cases "p = i") auto
  have "markers_ok pr (\<lambda>p. search_done strict colors p \<or> p = i) stack" using d(6) by simp
  then have "markers_ok pr (\<lambda>p. (search_done strict ?c p \<or> edge pr i p) \<or> p = i) stack"
    by (rule markers_ok_mono) (use white in \<open>auto simp: search_done_def\<close>)
  then show "markers_ok pr (search_done strict ?c) ?stack"
    by (simp add: markers_ok_entries edge_def disj_assoc)
  show "\<exists>fin. topo pr fin \<and> set fin = {v. ?c v = Some Visited}" if strict
    unfolding black using d(7) that by blast
qed

lemma topo_closed: "topo pr fin \<Longrightarrow> u \<in> set fin \<Longrightarrow> edge pr u p \<Longrightarrow> p \<in> set fin"
  by (induction fin) auto

lemma topo_reach:
  assumes "topo pr fin" and "u \<in> set fin" and "(edge pr)\<^sup>*\<^sup>* u w" shows "w \<in> set fin"
  using assms(3) by (induction rule: rtranclp_induct) (auto intro: assms(2) topo_closed [OF assms(1)])

lemma topo_acyclic: "topo pr fin \<Longrightarrow> v \<in> set fin \<Longrightarrow> \<not> (edge pr)\<^sup>+\<^sup>+ v v"
proof (induction fin)
  case (Cons x older)
  show ?case
  proof (cases "v = x")
    case True
    show ?thesis
    proof
      assume "(edge pr)\<^sup>+\<^sup>+ v v"
      then obtain p where "edge pr v p" "(edge pr)\<^sup>*\<^sup>* p v" by (meson tranclpD)
      with Cons.prems True topo_reach [of pr older p v] show False by auto
    qed
  next
    case False
    with Cons show ?thesis by simp
  qed
qed simp

lemma walk_trancl: "successively R (x # xs) \<Longrightarrow> xs \<noteq> [] \<Longrightarrow> R\<^sup>+\<^sup>+ x (last xs)"
proof (induction xs arbitrary: x)
  case (Cons y ys)
  then show ?case by (cases ys) (auto intro: tranclp_into_tranclp2)
qed simp

lemma closed_walk_trancl: "closed_walk pr ps \<Longrightarrow> (edge pr)\<^sup>+\<^sup>+ (hd ps) (hd ps)"
  using walk_trancl [of "edge pr" "hd ps" "tl ps"]
  by (cases ps) (auto simp: closed_walk_def split: if_splits)

text \<open>The declarative condition: every node reachable through prerequisites passes its check and, in
  strict mode, none of them lies on a cycle.\<close>

definition prerequisites_ok :: "(string \<times> string list) list \<Rightarrow> bool \<Rightarrow>
    (string \<Rightarrow> work_block_reason option) \<Rightarrow> string \<Rightarrow> bool" where
  "prerequisites_ok pr strict check root \<longleftrightarrow>
     (\<forall>v. (edge pr)\<^sup>*\<^sup>* root v \<longrightarrow> check v = None \<and> (strict \<longrightarrow> \<not> (edge pr)\<^sup>+\<^sup>+ v v))"

lemma search_inv_final:
  assumes inv: "search_inv pr strict check root [] colors"
  shows "prerequisites_ok pr strict check root"
proof -
  note d = search_invD [OF inv]
  have all: "colors v \<noteq> None \<Longrightarrow> colors v = Some Visited" for v
    using d(3) [of v] by (cases "colors v"; cases "the (colors v)") auto
  have reach: "colors v = Some Visited" if "(edge pr)\<^sup>*\<^sup>* root v" for v
    using that
  proof (induction rule: rtranclp_induct)
    case base
    show ?case using d(1) all by simp
  next
    case (step y z)
    then show ?case using d(5) all by blast
  qed
  show ?thesis unfolding prerequisites_ok_def
  proof (intro allI impI conjI)
    fix v assume v: "(edge pr)\<^sup>*\<^sup>* root v"
    show "check v = None" using d(2) [of v] reach [OF v] by simp
    assume strict
    then obtain fin where "topo pr fin" "set fin = {v. colors v = Some Visited}" using d(7) by blast
    with topo_acyclic [of pr fin v] reach [OF v] show "\<not> (edge pr)\<^sup>+\<^sup>+ v v" by simp
  qed
qed

lemma dfs_complete:
  assumes "search_inv pr strict check root stack colors"
    and "dfs pr strict check stack colors path rs = []"
  shows "prerequisites_ok pr strict check root"
  using assms
proof (induction pr strict check stack colors path rs rule: dfs.induct)
  case (1 pr strict check colors path rs)
  then show ?case by (auto intro: search_inv_final)
next
  case (2 pr strict check i stack colors path rs)
  from "2.IH" [OF search_inv_exit [OF "2.prems"(1)]] "2.prems"(2) show ?case by (simp add: fun_upd_def)
next
  case (3 pr strict check i stack colors path rs)
  consider (white) "colors i = None" | (gray) "colors i = Some Visiting" | (black) "colors i = Some Visited"
    by (cases "colors i") (auto intro: color.exhaust)
  then show ?case
  proof cases
    case white
    with "3.prems"(2) have empty: "add_option (check i) rs = []" by (auto dest: dfs_empty)
    then have "check i = None" by (cases "check i") (auto simp: add_option_def)
    from "3.IH"(1) [OF white search_inv_visit [OF "3.prems"(1) white this]] "3.prems"(2) white
    show ?thesis by (simp add: fun_upd_def)
  next
    case gray
    with "3.prems"(2) have "\<not> strict" by (auto dest: dfs_empty)
    with gray have "search_done strict colors i" by (simp add: search_done_def)
    from "3.IH"(2) [OF gray refl search_inv_skip [OF "3.prems"(1) this]] "3.prems"(2) gray
    show ?thesis by simp
  next
    case black
    then have "search_done strict colors i" by (simp add: search_done_def)
    from "3.IH"(3) [OF black refl search_inv_skip [OF "3.prems"(1) this]] "3.prems"(2) black
    show ?thesis by simp
  qed
qed

declare dfs.simps [simp del]

lemma dfs_iff:
  "dfs pr strict check [(root, False)] (\<lambda>_. None) [] rs = [] \<longleftrightarrow>
     rs = [] \<and> prerequisites_ok pr strict check root"
proof
  assume *: "dfs pr strict check [(root, False)] (\<lambda>_. None) [] rs = []"
  have "search_inv pr strict check root [(root, False)] (\<lambda>_. None)"
    by (auto intro!: search_invI exI [of _ "[]"])
  with * show "rs = [] \<and> prerequisites_ok pr strict check root"
    using dfs_complete dfs_empty by blast
next
  assume *: "rs = [] \<and> prerequisites_ok pr strict check root"
  have inv: "walk_inv pr root [(root, False)] (\<lambda>_. None) []"
    by (simp add: walk_inv_def next_marker_def)
  have "r \<notin> set (dfs pr strict check [(root, False)] (\<lambda>_. None) [] rs)" for r
  proof
    assume "r \<in> set (dfs pr strict check [(root, False)] (\<lambda>_. None) [] rs)"
    from dfs_genuine [OF inv this] * have "genuine pr strict root check r" by auto
    with * show False
      unfolding genuine_def prerequisites_ok_def using closed_walk_trancl by fastforce
  qed
  then show "dfs pr strict check [(root, False)] (\<lambda>_. None) [] rs = []"
    by (metis list.set_intros(1) neq_Nil_conv)
qed

section \<open>Readiness of a task\<close>

lemma fold_add_reason: "fold add_reason xs rs = [] \<longleftrightarrow> xs = [] \<and> rs = []"
proof (induction xs arbitrary: rs)
  case (Cons x xs)
  then show ?case by simp
qed auto

lemma predecessor_reason_None: "predecessor_reason sn strict v = None \<longleftrightarrow> \<not> holdsBack sn v strict"
  by (auto simp: predecessor_reason_def holdsBack_def split: option.splits if_splits)

definition dispatchable :: "readiness_snapshot \<Rightarrow> entity_row \<Rightarrow> bool" where
  "dispatchable sn e = (case sn_lifecycle sn e of
      Some lc \<Rightarrow> (case as_string (obj_get (lc_field lc) (en_data e)) of
          None \<Rightarrow> False | Some st \<Rightarrow> st \<in> set (lc_dispatchable lc))
    | None \<Rightarrow> \<not> legacy_closed (obj_get ''status'' (en_data e)))"

lemma own_reasons_empty:
  "own_reasons sn e req = [] \<longleftrightarrow> \<not> en_archived e \<and> (req \<longrightarrow> sn_lifecycle sn e \<noteq> None)
     \<and> dispatchable sn e \<and> map_list (sn_gates sn) (en_id e) = []
     \<and> map_list (sn_gates sn) (en_type e @ '':'' @ en_id e) = []"
  by (auto simp: own_reasons_def Let_def dispatchable_def split: option.splits)

lemma ready_snapshot_iff:
  "ready sn i req \<longleftrightarrow> (\<exists>e. sn_entity sn i = Some e \<and> own_reasons sn e req = []
     \<and> (\<forall>v. (edge (sn_predecessors sn))\<^sup>*\<^sup>* i v \<longrightarrow>
          (v \<noteq> i \<longrightarrow> \<not> holdsBack sn v (req \<or> sn_lifecycle sn e \<noteq> None))
        \<and> (req \<or> sn_lifecycle sn e \<noteq> None \<longrightarrow> \<not> (edge (sn_predecessors sn))\<^sup>+\<^sup>+ v v)))"
  by (cases "sn_entity sn i")
    (auto simp: ready_def evaluateReadiness_def Let_def dfs_iff fold_add_reason prerequisites_ok_def
      predecessor_reason_None)

lemma map_list_Nil [simp]: "map_list [] x = []"
  by (simp add: map_list_def)

lemma map_list_push [simp]: "map_list (map_push k v m) x = map_list m x @ (if k = x then [v] else [])"
  by (induction k v m rule: map_push.induct) (auto simp: map_list_def)

lemma map_list_fold:
  "map_list (fold (\<lambda>r m. map_push (k r) (v r) m) rs m) x = map_list m x @ map v (filter (\<lambda>r. k r = x) rs)"
  by (induction rs arbitrary: m) auto

definition dependency_types :: "bool \<Rightarrow> string set" where
  "dependency_types includeSoftBlocked =
     (if includeSoftBlocked then {''blocks''} else {''blocks'', ''soft-blocks''})"

definition blocks :: "db \<Rightarrow> bool \<Rightarrow> string \<Rightarrow> string \<Rightarrow> bool" where
  "blocks s includeSoftBlocked v p \<longleftrightarrow> (\<exists>r \<in> set (db_entity_relationships s).
     er_type r \<in> dependency_types includeSoftBlocked \<and> er_to_id r = v \<and> er_from_id r = p)"

lemma snapshot_facts:
  assumes "readReadinessSnapshot h s now soft = Inr sn"
  shows "sn_entity sn i = entity_by_id s i"
    and "map_list (sn_gates sn) r = map ga_id (blocking s r now)"
    and "edge (sn_predecessors sn) = blocks s soft"
    and "resolveCurrentSchema h s = Inr (sn_definition sn)"
proof -
  from assms obtain d where d: "resolveCurrentSchema h s = Inr d"
    and sn: "sn = \<lparr>sn_definition = d, sn_entities = db_entities s,
        sn_predecessors = fold (\<lambda>r m. map_push (er_to_id r) (er_from_id r) m)
          (filter (\<lambda>r. er_type r \<in> set (if soft then [''blocks''] else [''blocks'', ''soft-blocks'']))
            (db_entity_relationships s)) [],
        sn_gates = fold (\<lambda>g m. map_push (ga_resource g) (ga_id g) m)
          (filter (gate_pending now) (db_gates s)) []\<rparr>"
    by (auto simp: readReadinessSnapshot_def split: sum.splits)
  show "sn_entity sn i = entity_by_id s i" by (simp add: sn sn_entity_def entity_by_id_def)
  show "map_list (sn_gates sn) r = map ga_id (blocking s r now)"
    by (simp add: sn map_list_fold blocking_def conj_commute)
  show "edge (sn_predecessors sn) = blocks s soft"
    by (intro ext) (auto simp: sn edge_def map_list_fold blocks_def dependency_types_def)
  show "resolveCurrentSchema h s = Inr (sn_definition sn)" by (simp add: d sn)
qed

section \<open>Properties\<close>

text \<open>C6. The iterative search decides readiness: a task is reported ready precisely when it exists, is
  not archived, has a lifecycle if one is required, is in a dispatchable state, has no pending
  gate under either of its names, no transitive prerequisite holds it back, and - in strict
  mode - no prerequisite chain from it runs into a cycle. The search always terminates.\<close>

theorem ready_iff:
  assumes "readReadinessSnapshot h s now soft = Inr sn"
  shows "ready sn i req \<longleftrightarrow> (\<exists>e. entity_by_id s i = Some e \<and> \<not> en_archived e
    \<and> (req \<longrightarrow> sn_lifecycle sn e \<noteq> None) \<and> dispatchable sn e
    \<and> blocking s i now = [] \<and> blocking s (en_type e @ '':'' @ i) now = []
    \<and> (\<forall>v. (blocks s soft)\<^sup>*\<^sup>* i v \<longrightarrow>
          (v \<noteq> i \<longrightarrow> \<not> holdsBack sn v (req \<or> sn_lifecycle sn e \<noteq> None))
        \<and> (req \<or> sn_lifecycle sn e \<noteq> None \<longrightarrow> \<not> (blocks s soft)\<^sup>+\<^sup>+ v v)))"
proof (cases "entity_by_id s i")
  case (Some e)
  then have i: "en_id e = i" using entity_by_id_Some by blast
  show ?thesis
    unfolding ready_snapshot_iff own_reasons_empty snapshot_facts [OF assms]
    by (simp add: Some i del: not_None_eq)
qed (simp add: ready_snapshot_iff snapshot_facts [OF assms])

text \<open>Every reason is genuine: a reported dependency cycle carries a path that is a closed walk
  of prerequisite edges reachable from the task, and every other reason is either the task's own
  or the failed check of a task reachable through prerequisites.\<close>

theorem reasons_genuine:
  assumes "sn_entity sn i = Some e" and "r \<in> set (evaluateReadiness sn i req)"
  shows "r \<in> set (own_reasons sn e req)
    \<or> (\<exists>v. v \<noteq> i \<and> (edge (sn_predecessors sn))\<^sup>*\<^sup>* i v
        \<and> predecessor_reason sn (req \<or> sn_lifecycle sn e \<noteq> None) v = Some r)
    \<or> (\<exists>v ps. (edge (sn_predecessors sn))\<^sup>*\<^sup>* i v \<and> closed_walk (sn_predecessors sn) ps \<and> hd ps = v
        \<and> r = (reason B_dependency_cycle v)\<lparr>br_path := Some ps\<rparr>)"
proof -
  let ?check = "\<lambda>v. if v = i then None else predecessor_reason sn (req \<or> sn_lifecycle sn e \<noteq> None) v"
  have inv: "walk_inv (sn_predecessors sn) i [(i, False)] (\<lambda>_. None) []"
    by (simp add: walk_inv_def next_marker_def)
  have own: "set (fold add_reason xs rs) \<subseteq> set xs \<union> set rs" for xs rs
  proof (induction xs arbitrary: rs)
    case (Cons x xs)
    from Cons [of "add_reason x rs"] set_add_reason [of x rs] show ?case by auto
  qed simp
  from assms have "r \<in> set (dfs (sn_predecessors sn) (req \<or> sn_lifecycle sn e \<noteq> None) ?check
      [(i, False)] (\<lambda>_. None) [] (fold add_reason (own_reasons sn e req) []))"
    by (simp add: evaluateReadiness_def Let_def del: not_None_eq)
  from dfs_genuine [OF inv this] have "r \<in> set (fold add_reason (own_reasons sn e req) [])
      \<or> genuine (sn_predecessors sn) (req \<or> sn_lifecycle sn e \<noteq> None) i ?check r" .
  with own [of "own_reasons sn e req" "[]"] show ?thesis
    unfolding genuine_def by (auto split: if_splits)
qed

lemma ready_loop_filter:
  "ready_loop sn ty parent lim es acc = (let hits = filter (\<lambda>e. (case ty of None \<Rightarrow> True | Some t \<Rightarrow> en_type e = t)
      \<and> (case parent of None \<Rightarrow> True | Some p \<Rightarrow> obj_get ''parent_id'' (en_data e) = Some (JStr p))
      \<and> ready sn (en_id e) False) es in
    acc @ (case lim of None \<Rightarrow> hits | Some n \<Rightarrow> take (n - length acc) hits))"
proof (induction sn ty parent lim es acc rule: ready_loop.induct)
  case (1 sn ty parent lim acc)
  then show ?case by (simp split: option.split)
next
  case (2 sn ty parent lim e es acc)
  then show ?case
    by (auto simp: Let_def take_Cons' split: option.splits if_splits)
qed

text \<open>The ready list is the ready tasks, in table order, of the requested type and parent, cut at
  the limit: the early exit of the loop loses nothing and adds nothing.\<close>

theorem computeReadyEntities_correct:
  assumes "readReadinessSnapshot h s now soft = Inr sn"
  shows "computeReadyEntities h ty parent limit soft now s = Inr
    ((case limit of None \<Rightarrow> id | Some n \<Rightarrow> if n < 0 then id else take (nat n))
      (filter (\<lambda>e. (case ty of None \<Rightarrow> True | Some t \<Rightarrow> en_type e = t)
        \<and> (case parent of None \<Rightarrow> True | Some p \<Rightarrow> obj_get ''parent_id'' (en_data e) = Some (JStr p))
        \<and> ready sn (en_id e) False) (db_entities s)))"
proof -
  have "sn_entities sn = db_entities s"
    using assms by (auto simp: readReadinessSnapshot_def split: sum.splits)
  then show ?thesis
    by (auto simp: computeReadyEntities_def assms ready_loop_filter Let_def split: option.split)
qed

subsection \<open>Witnesses\<close>

definition chain_db :: db where
  "chain_db = empty_db\<lparr>db_schema_history := sample_history,
     db_entities := [sample_entity ''task'' ''t1'' [(''status'', JStr ''todo'')],
       sample_entity ''task'' ''t2'' [(''status'', JStr ''todo'')]],
     db_entity_relationships := [\<lparr>er_from_id = ''t1'', er_to_id = ''t2'', er_type = ''blocks'',
       er_schema_version = 1, er_created_at = 0\<rparr>]\<rparr>"

definition chain_snapshot :: readiness_snapshot where
  "chain_snapshot = \<lparr>sn_definition = Some sample_schema, sn_entities = db_entities chain_db,
     sn_predecessors = [(''t2'', [''t1''])], sn_gates = []\<rparr>"

lemma chain_read: "readReadinessSnapshot (project_host 0 ''u'') chain_db 0 False = Inr chain_snapshot"
  by (simp add: readReadinessSnapshot_def chain_snapshot_def chain_db_def sample_defs
      resolveCurrentSchema_def getCurrentSchema_def)

lemma chain_facts:
  "entity_by_id chain_db ''t1'' = Some (sample_entity ''task'' ''t1'' [(''status'', JStr ''todo'')])"
  "entity_by_id chain_db ''t2'' = Some (sample_entity ''task'' ''t2'' [(''status'', JStr ''todo'')])"
  "blocks chain_db False v p \<longleftrightarrow> v = ''t2'' \<and> p = ''t1''" "blocking chain_db r now = []"
  "sn_lifecycle chain_snapshot (sample_entity ''task'' i d) = Some sample_lifecycle"
  by (auto simp: chain_db_def entity_by_id_def by_key_Cons sample_entity_def blocks_def
      dependency_types_def blocking_def empty_db_def chain_snapshot_def sn_lifecycle_def
      lifecycle_of_def work_unit_of_def sample_schema_def)

lemma chain_dispatchable: "dispatchable chain_snapshot (sample_entity ''task'' i [(''status'', JStr ''todo'')])"
  unfolding dispatchable_def chain_facts(5) by (simp add: sample_lifecycle_def sample_entity_def as_string_def)

theorem ready_iff_witness:
  "ready chain_snapshot ''t1'' True \<and> \<not> ready chain_snapshot ''t2'' True"
proof -
  have from_t1: "v = ''t1''" if "(blocks chain_db False)\<^sup>*\<^sup>* ''t1'' v" for v
    using that by (induction rule: rtranclp_induct) (auto simp: chain_facts)
  have no_cycle: "\<not> (blocks chain_db False)\<^sup>+\<^sup>+ ''t1'' v" for v
  proof
    assume "(blocks chain_db False)\<^sup>+\<^sup>+ ''t1'' v"
    then obtain y where "blocks chain_db False ''t1'' y" by (auto dest: tranclpD)
    then show False by (simp add: chain_facts)
  qed
  have "ready chain_snapshot ''t1'' True"
    unfolding ready_iff [OF chain_read]
    using from_t1 no_cycle chain_dispatchable
    by (auto simp: chain_facts) (simp add: sample_entity_def)
  moreover have "holdsBack chain_snapshot ''t1'' True"
    by (simp add: holdsBack_def sn_entity_def chain_snapshot_def chain_db_def by_key_Cons
        sample_entity_def sn_lifecycle_def lifecycle_of_def work_unit_of_def sample_schema_def
        sample_lifecycle_def as_string_def)
  then have "\<not> ready chain_snapshot ''t2'' True"
    unfolding ready_iff [OF chain_read]
    by (auto simp: chain_facts intro!: exI [of _ "''t1''"])
  ultimately show ?thesis by blast
qed

theorem reasons_genuine_witness:
  "\<exists>r. r \<in> set (evaluateReadiness chain_snapshot ''t2'' True) \<and> br_code r = B_dependency_unsatisfied
    \<and> (\<exists>v. v \<noteq> ''t2'' \<and> (edge (sn_predecessors chain_snapshot))\<^sup>*\<^sup>* ''t2'' v)"
proof -
  let ?r = "(reason B_dependency_unsatisfied ''t1'')\<lparr>br_state := Some ''todo''\<rparr>"
  have e: "sn_entity chain_snapshot ''t2'' = Some (sample_entity ''task'' ''t2'' [(''status'', JStr ''todo'')])"
    using chain_facts(2) snapshot_facts(1) [OF chain_read] by simp
  have r: "?r \<in> set (evaluateReadiness chain_snapshot ''t2'' True)"
    by (simp add: evaluateReadiness_def Let_def own_reasons_def sn_entity_def chain_snapshot_def
        chain_db_def by_key_Cons sample_entity_def sn_lifecycle_def lifecycle_of_def work_unit_of_def
        sample_schema_def sample_lifecycle_def as_string_def dfs.simps map_list_def
        predecessor_reason_def add_option_def add_reason_def)
  have "?r \<notin> set (own_reasons chain_snapshot (sample_entity ''task'' ''t2'' [(''status'', JStr ''todo'')]) True)"
    by (auto simp: own_reasons_def Let_def reason_def)
  with reasons_genuine [OF e r] have "\<exists>v. v \<noteq> ''t2'' \<and> (edge (sn_predecessors chain_snapshot))\<^sup>*\<^sup>* ''t2'' v"
    by (auto simp: reason_def)
  with r show ?thesis by (intro exI [of _ ?r]) (simp add: reason_def)
qed

theorem computeReadyEntities_correct_witness:
  "\<exists>es. computeReadyEntities (project_host 0 ''u'') None None (Some 0) False 0 chain_db = Inr es \<and> es = []"
  using computeReadyEntities_correct [OF chain_read, of None None "Some 0"] by simp

end
