(* ===== verification/Queue_Internals.thy ===== *)
theory Queue_Internals
  imports Readiness
begin

text \<open>
  Shared parts of managed work: \<^verbatim>\<open>packages/ops-sqlite/src/queue-internals.ts\<close> (revision check,
  events, durable command receipts), \<^verbatim>\<open>question-state-ops.ts\<close> (invalidation of questions), and
  the command schemas of \<^verbatim>\<open>packages/schemas/src/queue.ts\<close>, whose \<open>extend\<close> is record extension.
\<close>

section \<open>Commands\<close>

record queue_command =
  cm_idempotency_key :: string

record revision_command = queue_command +
  cm_expected_revision :: int

record authority_command = revision_command +
  cm_fence :: int

record started_command = authority_command +
  cm_session :: attempt_session

record finish_command = authority_command +
  cm_outcome :: attempt_outcome

record suspend_command = authority_command +
  cm_execution_quiescent :: bool
  cm_checkpoint :: jobj

record replace_session_command = authority_command +
  cm_reason :: string
  cm_previous_session :: attempt_session
  cm_previous_stopped :: bool
  cm_new_session :: attempt_session
  cm_new_checkpoint :: "jobj option"

record correct_command = queue_command +
  cm_task_id :: string
  cm_correct_reason :: string

record resume_command = revision_command +
  cm_capabilities :: "string list"

datatype observation = Ob_unknown | Ob_running | Ob_stopped | Ob_suspended

record reconcile_command = revision_command +
  cm_observation :: observation
  cm_observed_quiescent :: "bool option"
  cm_observed_checkpoint :: "jobj option"
  cm_reconcile_reason :: string
  cm_observed_session :: "attempt_session option"
  cm_observed_outcome :: "attempt_outcome option"

record rebind_command = revision_command +
  cm_rebind_reason :: string
  cm_principal_id :: string
  cm_participant_id :: string
  cm_rebind_session :: attempt_session

record reason_command = revision_command +
  cm_command_reason :: string

subsection \<open>Validation\<close>

definition length_between :: "nat \<Rightarrow> nat \<Rightarrow> string \<Rightarrow> bool" where
  "length_between lo hi s = (lo \<le> length s \<and> length s \<le> hi)"

definition queue_command_ok :: "'a queue_command_scheme \<Rightarrow> bool" where
  "queue_command_ok c = length_between 1 256 (cm_idempotency_key c)"

definition revision_command_ok :: "'a revision_command_scheme \<Rightarrow> bool" where
  "revision_command_ok c = (queue_command_ok c \<and> 0 \<le> cm_expected_revision c)"

definition authority_command_ok :: "'a authority_command_scheme \<Rightarrow> bool" where
  "authority_command_ok c = (revision_command_ok c \<and> 0 < cm_fence c)"

definition session_ok :: "host \<Rightarrow> attempt_session \<Rightarrow> bool" where
  "session_ok h se = (se_provider se \<noteq> [] \<and> se_id se \<noteq> []
     \<and> (case se_url se of None \<Rightarrow> True | Some u \<Rightarrow> valid_url h u))"

definition capabilities_ok :: "string list \<Rightarrow> bool" where
  "capabilities_ok cs = (list_all (length_between 1 128) cs \<and> length cs \<le> 100)"

definition retry_policy_ok :: "queue_retry_policy \<Rightarrow> bool" where
  "retry_policy_ok p = (1 \<le> rp_max_attempts p \<and> rp_max_attempts p \<le> 100
     \<and> 1 \<le> rp_initial_backoff_ms p \<and> 1 \<le> rp_max_backoff_ms p
     \<and> rp_initial_backoff_ms p \<le> rp_max_backoff_ms p)"

subsection \<open>JSON forms\<close>

definition session_json :: "attempt_session \<Rightarrow> json" where
  "session_json se = JObj ([(''provider'', JStr (se_provider se)), (''id'', JStr (se_id se))]
     @ opt_field ''host_id'' (map_option JStr (se_host_id se))
     @ opt_field ''worktree'' (map_option JStr (se_worktree se))
     @ opt_field ''url'' (map_option JStr (se_url se)))"

fun outcome_str :: "lifecycle_outcome \<Rightarrow> string" where
  "outcome_str O_success = ''success''"
| "outcome_str O_failure = ''failure''"
| "outcome_str O_cancelled = ''cancelled''"
| "outcome_str O_abandoned = ''abandoned''"

definition outcome_json :: "attempt_outcome \<Rightarrow> json" where
  "outcome_json o' = JObj ([(''status'', JStr (outcome_str (oc_status o')))]
     @ opt_field ''reason'' (map_option JStr (oc_reason o'))
     @ [(''evidence'', JArr (map JStr (oc_evidence o'))),
        (''execution_stopped'', JBool (oc_execution_stopped o')),
        (''unresolved_external_execution'', JBool (oc_unresolved_external_execution o'))])"

definition command_json :: "'a queue_command_scheme \<Rightarrow> jobj \<Rightarrow> json" where
  "command_json c fs = JObj ((''idempotency_key'', JStr (cm_idempotency_key c)) # fs)"

definition revision_fields :: "'a revision_command_scheme \<Rightarrow> jobj" where
  "revision_fields c = [(''expected_revision'', JNum (cm_expected_revision c))]"

definition authority_fields :: "'a authority_command_scheme \<Rightarrow> jobj" where
  "authority_fields c = revision_fields c @ [(''fence'', JNum (cm_fence c))]"

section \<open>Revision check and events\<close>

definition checkRevision :: "int \<Rightarrow> int \<Rightarrow> error + unit" where
  "checkRevision actual expected =
     (if actual = expected then Inr () else Inl (queue_error Queue_precondition))"

lemma checkRevision_ok [simp]: "checkRevision a e = Inr u \<longleftrightarrow> a = e"
  by (simp add: checkRevision_def)

definition event :: "host \<Rightarrow> string \<Rightarrow> string \<Rightarrow> request_origin \<Rightarrow> jobj \<Rightarrow> int option \<Rightarrow> unit ptx" where
  "event h kind resource orig data fence = appendJournal h kind resource orig fence data"

section \<open>Command receipts\<close>

definition receipt_key :: "request_origin \<Rightarrow> string \<Rightarrow> string \<Rightarrow> string" where
  "receipt_key orig operation idempotency_key = canonicalJson (JArr [JStr (or_principalId orig),
     JStr (or_participantId orig), JStr operation, JStr idempotency_key])"

definition result_id :: "string \<Rightarrow> string option \<Rightarrow> jobj \<Rightarrow> string option" where
  "result_id k link result = (case link of Some l \<Rightarrow> Some l | None \<Rightarrow> as_string (obj_get k result))"

definition receipt_of :: "db \<Rightarrow> string \<Rightarrow> queue_receipt option" where
  "receipt_of s key = by_key qr_key key (db_queue_operation_receipts s)"

definition run_receipted :: "string option \<Rightarrow> string option \<Rightarrow> int \<Rightarrow> string \<Rightarrow> string \<Rightarrow> jobj ptx \<Rightarrow> jobj ptx" where
  "run_receipted entry_link attempt_link now key request run =
    tx_bind (tx_read (\<lambda>s. receipt_of s key)) (\<lambda>receipt. case receipt of
      Some r \<Rightarrow> if qr_request r \<noteq> request then tx_throw (queue_error Queue_idempotency_conflict)
                else tx_return (qr_result r)
    | None \<Rightarrow> tx_bind run (\<lambda>result.
        tx_bind (tx_read (\<lambda>s. rows_insert qr_key \<lparr>qr_key = key, qr_request = request,
           qr_result = result, qr_entry_id = result_id ''entry_id'' entry_link result,
           qr_attempt_id = result_id ''attempt_id'' attempt_link result, qr_created_at = now\<rparr>
           (db_queue_operation_receipts s))) (\<lambda>inserted. case inserted of
          None \<Rightarrow> tx_throw (SqliteError ''UNIQUE constraint failed: queue_operation_receipts.key'')
        | Some t \<Rightarrow> tx_seq (tx_write (\<lambda>s. s\<lparr>db_queue_operation_receipts := t\<rparr>)) (tx_return result))))"

definition run_command :: "string \<Rightarrow> request_origin \<Rightarrow> string \<Rightarrow> json \<Rightarrow> jobj ptx \<Rightarrow> string option \<Rightarrow>
    string option \<Rightarrow> int \<Rightarrow> jobj ptx" where
  "run_command operation orig idempotency_key input run entry_link attempt_link now =
     run_receipted entry_link attempt_link now (receipt_key orig operation idempotency_key)
       (canonicalJson input) run"

definition queue_lookup :: "db \<Rightarrow> string \<Rightarrow> (string \<times> jobj) option" where
  "queue_lookup s key = map_option (\<lambda>r. (qr_request r, qr_result r)) (receipt_of s key)"

interpretation commands: receipt_store "run_receipted entry_link attempt_link now" queue_lookup "(=)"
  "\<lambda>_. queue_error Queue_idempotency_conflict" "\<lambda>_. True" for entry_link attempt_link now
proof unfold_locales
  fix s k p v and q :: string and m :: "jobj ptx"
  assume "queue_lookup s k = Some (p, v)" "p = q"
  then show "run_receipted entry_link attempt_link now k q m s = Inr (v, s)"
    by (auto simp: queue_lookup_def run_receipted_def tx_eval)
next
  fix s k p v and q :: string and m :: "jobj ptx"
  assume "queue_lookup s k = Some (p, v)" "p \<noteq> q"
  then show "run_receipted entry_link attempt_link now k q m s = Inl (queue_error Queue_idempotency_conflict)"
    by (auto simp: queue_lookup_def run_receipted_def tx_eval)
next
  fix s k e and q :: string and m :: "jobj ptx"
  assume "queue_lookup s k = None" "m s = Inl e"
  then show "run_receipted entry_link attempt_link now k q m s = Inl e"
    by (auto simp: queue_lookup_def run_receipted_def tx_eval)
next
  fix s k v s1 and q :: string and m :: "jobj ptx"
  assume *: "queue_lookup s k = None" "m s = Inr (v, s1)" "queue_lookup s1 k = None"
  then have "k \<notin> qr_key ` set (db_queue_operation_receipts s1)"
    by (simp add: queue_lookup_def receipt_of_def by_key_None)
  with * show "\<exists>s2. run_receipted entry_link attempt_link now k q m s = Inr (v, s2) \<and> queue_lookup s2 k = Some (q, v)"
    by (simp add: queue_lookup_def run_receipted_def tx_eval rows_insert_def receipt_of_def
        by_key_append by_key_Cons)
qed simp_all

text \<open>Keys of different callers, operations or idempotency keys never collide, although the key is
  one string.\<close>

lemma sortKeysDeep_strings [simp]: "sortKeysDeep (JArr (map JStr xs)) = JArr (map JStr xs)"
  by (simp add: comp_def)

lemma receipt_key_inj:
  "receipt_key a p k = receipt_key b q l \<longleftrightarrow> or_principalId a = or_principalId b
     \<and> or_participantId a = or_participantId b \<and> p = q \<and> k = l"
proof -
  have "receipt_key a p k = receipt_key b q l \<longleftrightarrow>
      sortKeysDeep (JArr [JStr (or_principalId a), JStr (or_participantId a), JStr p, JStr k]) =
      sortKeysDeep (JArr [JStr (or_principalId b), JStr (or_participantId b), JStr q, JStr l])"
    unfolding receipt_key_def canonicalJson_def by (metis stringify_inj)
  then show ?thesis by simp
qed

section \<open>Question state\<close>

definition saveQuestion :: "question \<Rightarrow> unit ptx" where
  "saveQuestion q = tx_write (\<lambda>s. s\<lparr>db_work_questions := rows_set (\<lambda>r. wq_id r = qu_id q)
     (\<lambda>r. r\<lparr>wq_state := qu_state q, wq_responder_principal_id := qu_responder_principal_id q,
        wq_snapshot := q\<rparr>) (db_work_questions s)\<rparr>)"

text \<open>\<open>if (q.invalidation_reason)\<close>: present and not empty.\<close>

definition invalidated :: "question \<Rightarrow> bool" where
  "invalidated q = (case qu_invalidation_reason q of None \<Rightarrow> False | Some r \<Rightarrow> r \<noteq> [])"

definition invalidate_question :: "string \<Rightarrow> int \<Rightarrow> question \<Rightarrow> question" where
  "invalidate_question why now q = q\<lparr>
     qu_state := (if qu_state q = Q_open then Q_superseded else qu_state q),
     qu_invalidation_reason := Some why, qu_revision := qu_revision q + 1, qu_updated_at := now\<rparr>"

definition invalidateQuestions :: "host \<Rightarrow> string \<Rightarrow> string \<Rightarrow> request_origin \<Rightarrow> int \<Rightarrow> unit ptx" where
  "invalidateQuestions h attemptId why orig now =
    tx_bind (tx_read (\<lambda>s. by_key wa_id attemptId (db_work_attempts s))) (\<lambda>attempt. case attempt of
      None \<Rightarrow> tx_throw JsError
    | Some a \<Rightarrow>
        tx_bind (tx_read (\<lambda>s. filter (\<lambda>r. wq_attempt_id r = attemptId) (db_work_questions s))) (\<lambda>rows.
        tx_for rows (\<lambda>r. let q = wq_snapshot r; updated = invalidate_question why now q in
          if invalidated q then tx_return ()
          else tx_seq (saveQuestion updated)
            (event h (if qu_state q = Q_open then ''question.superseded'' else ''question.invalidated'')
              (wa_resource a) orig [(''question_id'', JStr (qu_id q)), (''attempt_id'', JStr (qu_attempt_id q)),
                (''revision'', JNum (qu_revision updated)), (''reason'', JStr why)]
              (Some (qu_attempt_fence q))))))"

text \<open>The elements of \<open>new Set(xs)\<close> in iteration order.\<close>

definition first_occurrences :: "'a list \<Rightarrow> 'a list" where
  "first_occurrences xs = rev (remdups (rev xs))"

lemma first_occurrences_set [simp]: "set (first_occurrences xs) = set xs"
  by (simp add: first_occurrences_def)

definition invalidateAgentQuestions :: "host \<Rightarrow> string \<Rightarrow> request_origin \<Rightarrow> int \<Rightarrow> string \<Rightarrow> unit ptx" where
  "invalidateAgentQuestions h agentId orig now why =
    tx_bind (tx_read (\<lambda>s. first_occurrences (map wq_attempt_id (filter (\<lambda>r.
       (case qu_requester_binding (wq_snapshot r) of None \<Rightarrow> False | Some b \<Rightarrow> qb_agent_id b = agentId)
       \<and> \<not> invalidated (wq_snapshot r)) (db_work_questions s))))) (\<lambda>attempts.
    tx_for attempts (\<lambda>i. invalidateQuestions h i why orig now))"

end
