(* ===== verification/Attempts.thy ===== *)
theory Attempts
  imports Queue_Internals "HOL-Library.Product_Lexorder"
begin

text \<open>
  Execution attempts: \<^verbatim>\<open>packages/ops-sqlite/src/attempt-ops.ts\<close>. An attempt is one grant of
  execution authority on an enrolled task. It is reserved with an exclusive claim, accepted,
  started, kept alive by heartbeats and finished; an expired lease turns it into an abandoned or
  an uncertain attempt. The operations that recover suspended or uncertain attempts are in
  \<^verbatim>\<open>Recovery\<close>.

  The text of \<open>definitionConflict\<close> is left out; its code and details are kept. The context that
  \<open>transitionTask\<close> adds to the message of a \<open>SchemaWriteError\<close> is left out as well.
\<close>

section \<open>Reading attempts\<close>

definition attempts_get :: "string \<Rightarrow> db \<Rightarrow> error + work_attempt" where
  "attempts_get i s = (case by_key wa_id i (db_work_attempts s) of
      None \<Rightarrow> Inl (queue_error Queue_not_found) | Some a \<Rightarrow> Inr a)"

definition get_attempt :: "string \<Rightarrow> work_attempt ptx" where
  "get_attempt i = tx_bind (tx_read (attempts_get i)) tx_lift"

record attempt_query =
  aw_task_id :: "string option"
  aw_entry_id :: "string option"
  aw_state :: "attempt_state option"
  aw_principal_id :: "string option"
  aw_participant_id :: "string option"
  aw_active :: "bool option"
  aw_limit :: int
  aw_offset :: int

definition attempt_matches :: "attempt_query \<Rightarrow> work_attempt \<Rightarrow> bool" where
  "attempt_matches q a =
    ((case aw_state q of None \<Rightarrow> True | Some st \<Rightarrow> wa_state a = st)
     \<and> matches_filter (aw_task_id q) (wa_task_id a) \<and> matches_filter (aw_entry_id q) (wa_entry_id a)
     \<and> matches_filter (aw_principal_id q) (wa_principal_id a)
     \<and> matches_filter (aw_participant_id q) (wa_participant_id a)
     \<and> (case aw_active q of None \<Rightarrow> True | Some b \<Rightarrow> (wa_state a \<noteq> Terminal) = b))"

definition LIST_BATCH :: nat where "LIST_BATCH = 200"

text \<open>The loop over batches of the ordered rows.\<close>

function list_batches :: "(string \<Rightarrow> bool) \<Rightarrow> nat \<Rightarrow> work_attempt list \<Rightarrow> nat \<Rightarrow> work_attempt list
    \<Rightarrow> work_attempt list" where
  "list_batches allowsTask wanted ordered skip rows =
    (if wanted \<le> length rows then rows
     else let batch = take LIST_BATCH (drop skip ordered);
              rows' = rows @ filter (\<lambda>a. allowsTask (wa_task_id a)) batch in
       if length batch < LIST_BATCH then rows'
       else list_batches allowsTask wanted ordered (skip + LIST_BATCH) rows')"
  by pat_completeness auto
termination
  by (relation "measure (\<lambda>(_, _, ordered, skip, _). length ordered - skip)") (auto simp: LIST_BATCH_def)

declare list_batches.simps [simp del]

definition attempts_ordered :: "attempt_query \<Rightarrow> db \<Rightarrow> work_attempt list" where
  "attempts_ordered q s = rev (sort_key (\<lambda>a. (wa_fence a, wa_created_at a, wa_id a))
     (filter (attempt_matches q) (db_work_attempts s)))"

definition attempts_list :: "db \<Rightarrow> attempt_query \<Rightarrow> (string \<Rightarrow> bool) \<Rightarrow> error + work_attempt list" where
  "attempts_list s q allowsTask =
    (if aw_limit q < 1 \<or> 500 < aw_limit q \<or> aw_offset q < 0 then Inl ZodError
     else let wanted = nat (aw_offset q) + nat (aw_limit q) in
       Inr (drop (nat (aw_offset q)) (take wanted
         (list_batches allowsTask wanted (attempts_ordered q s) 0 []))))"

section \<open>Revisions, grants and views\<close>

definition governingRevisions :: "int \<Rightarrow> db \<Rightarrow> revision_snapshot" where
  "governingRevisions now s = \<lparr>
     rv_definition_version = map_option sh_version (latest_row (db_schema_history s)),
     rv_policy_revision = (case db_queue_policy s of None \<Rightarrow> 0 | Some p \<Rightarrow> qp_revision p),
     rv_at = now\<rparr>"

datatype revision_slot = R_reserved | R_authorized | R_finished

definition no_revisions :: attempt_revisions where
  "no_revisions = \<lparr>ar_reserved = None, ar_authorized = None, ar_finished = None\<rparr>"

definition captureRevisions :: "work_attempt \<Rightarrow> revision_slot \<Rightarrow> revision_snapshot \<Rightarrow> attempt_revisions" where
  "captureRevisions a slot snapshot =
    (let r = (case wa_revisions a of None \<Rightarrow> no_revisions | Some r \<Rightarrow> r) in case slot of
       R_reserved \<Rightarrow> r\<lparr>ar_reserved := Some snapshot\<rparr>
     | R_authorized \<Rightarrow> r\<lparr>ar_authorized := Some snapshot\<rparr>
     | R_finished \<Rightarrow> r\<lparr>ar_finished := Some snapshot\<rparr>)"

definition revisionData :: "revision_snapshot \<Rightarrow> jobj" where
  "revisionData r = [(''definition_version'', jnullable JNum (rv_definition_version r)),
     (''policy_revision'', JNum (rv_policy_revision r))]"

definition working :: "attempt_state \<Rightarrow> bool" where
  "working st = (st = Reserved \<or> st = Starting \<or> st = Running)"

definition grantValid :: "db \<Rightarrow> work_attempt \<Rightarrow> request_origin \<Rightarrow> int \<Rightarrow> bool" where
  "grantValid s a orig now =
    (if \<not> working (wa_state a)
        \<or> (case wa_lease_expires_at a of None \<Rightarrow> True | Some t \<Rightarrow> t = 0 \<or> t \<le> now)
        \<or> wa_principal_id a \<noteq> or_principalId orig \<or> wa_participant_id a \<noteq> or_participantId orig
     then False
     else (case lookupClaim s (wa_resource a) of
         None \<Rightarrow> False
       | Some c \<Rightarrow> cl_fence c = wa_fence a
           \<and> (case lookupFence s (wa_resource a) of None \<Rightarrow> False | Some f \<Rightarrow> fe_current_fence f = wa_fence a)
           \<and> cl_principal_id c = or_principalId orig \<and> cl_participant_id c = or_participantId orig
           \<and> now < cl_expires_at c))"

definition corrections :: "db \<Rightarrow> string \<Rightarrow> attempt_correction list" where
  "corrections s attemptId = sort_key (\<lambda>c. (ac_created_at c, ac_id c))
     (filter (\<lambda>c. ac_attempt_id c = attemptId) (db_attempt_corrections s))"

record attempt_view =
  vw_attempt :: work_attempt
  vw_grant_valid :: bool
  vw_assigner_principal_id :: "string option"
  vw_definition_version :: "int option"
  vw_policy_revision :: int
  vw_corrections :: "attempt_correction list"

definition attempts_view :: "string \<Rightarrow> request_origin \<Rightarrow> int \<Rightarrow> attempt_view ptx" where
  "attempts_view i orig now = tx_bind (get_attempt i) (\<lambda>a. tx_read (\<lambda>s.
     \<lparr>vw_attempt = a, vw_grant_valid = grantValid s a orig now,
      vw_assigner_principal_id = Option.bind (by_key qe_id (wa_entry_id a) (db_queue_entries s))
        qe_enrolled_by_principal,
      vw_definition_version = rv_definition_version (governingRevisions now s),
      vw_policy_revision = rv_policy_revision (governingRevisions now s),
      vw_corrections = corrections s (wa_id a)\<rparr>))"

section \<open>Authority\<close>

definition assertOwner :: "work_attempt \<Rightarrow> request_origin \<Rightarrow> int option \<Rightarrow> error + unit" where
  "assertOwner a orig fence =
    (if wa_principal_id a \<noteq> or_principalId orig \<or> wa_participant_id a \<noteq> or_participantId orig
        \<or> (case fence of None \<Rightarrow> False | Some f \<Rightarrow> f \<noteq> wa_fence a)
     then Inl (queue_error Queue_authority_lost) else Inr ())"

definition assertAuthority :: "work_attempt \<Rightarrow> 'a authority_command_scheme \<Rightarrow> request_origin \<Rightarrow> int \<Rightarrow> unit ptx" where
  "assertAuthority a input orig now =
     tx_seq (tx_lift (assertOwner a orig (Some (cm_fence input))))
    (tx_bind (tx_read (\<lambda>s. grantValid s a orig now)) (\<lambda>valid.
     tx_seq (tx_guard valid (queue_error Queue_authority_lost))
       (tx_lift (checkRevision (wa_revision a) (cm_expected_revision input)))))"

text \<open>The claim of this grant and no other is removed, and the fence is passed if it is this grant's.\<close>

definition revoke :: "work_attempt \<Rightarrow> unit ptx" where
  "revoke a = tx_write (\<lambda>s. s\<lparr>
     db_claims := rows_delete (\<lambda>c. cl_resource c = wa_resource a \<and> cl_fence c = wa_fence a) (db_claims s),
     db_fences := rows_set (\<lambda>f. fe_resource f = wa_resource a \<and> fe_current_fence f = wa_fence a)
       (\<lambda>f. f\<lparr>fe_current_fence := fe_current_fence f + 1\<rparr>) (db_fences s)\<rparr>)"

definition change :: "work_attempt \<Rightarrow> (work_attempt \<Rightarrow> work_attempt) \<Rightarrow> int \<Rightarrow> work_attempt ptx" where
  "change a values now = tx_seq (tx_write (\<lambda>s. s\<lparr>db_work_attempts :=
       rows_set (\<lambda>r. wa_id r = wa_id a)
         (\<lambda>r. (values r)\<lparr>wa_revision := wa_revision a + 1, wa_updated_at := now\<rparr>) (db_work_attempts s)\<rparr>))
     (get_attempt (wa_id a))"

section \<open>The task transition of an attempt\<close>

datatype transition = T_start | T_outcome lifecycle_outcome

fun transition_str :: "transition \<Rightarrow> string" where
  "transition_str T_start = ''start''"
| "transition_str (T_outcome o') = outcome_str o'"

fun transition_target :: "work_lifecycle \<Rightarrow> transition \<Rightarrow> string option" where
  "transition_target lc T_start = lc_on_start lc"
| "transition_target lc (T_outcome o') = Option.bind (lc_outcomes lc) (\<lambda>os. outcome_state os o')"

text \<open>\<open>(revisions?.authorized ?? revisions?.reserved)?.definition_version\<close>.\<close>

definition captured_version :: "work_attempt \<Rightarrow> int option" where
  "captured_version a = Option.bind (wa_revisions a) (\<lambda>r.
     Option.bind (case ar_authorized r of Some x \<Rightarrow> Some x | None \<Rightarrow> ar_reserved r) rv_definition_version)"

definition definitionConflict :: "work_attempt \<Rightarrow> transition \<Rightarrow> int \<Rightarrow> db \<Rightarrow> error" where
  "definitionConflict a t now s = QueueError Queue_conflict
     [(''transition'', JStr (transition_str t)),
      (''current_definition_version'', jnullable JNum (rv_definition_version (governingRevisions now s))),
      (''captured_definition_version'', jnullable JNum (captured_version a))]"

definition transitionTask :: "host \<Rightarrow> work_attempt \<Rightarrow> request_origin \<Rightarrow> transition \<Rightarrow> int \<Rightarrow> unit ptx" where
  "transitionTask h a orig t now =
    tx_bind (tx_read (\<lambda>s. entity_by_id s (wa_task_id a))) (\<lambda>found. case found of
      None \<Rightarrow> tx_throw (queue_error Queue_conflict)
    | Some task \<Rightarrow>
        tx_seq (tx_guard (\<not> en_archived task) (queue_error Queue_conflict))
       (tx_bind (tx_read (resolveCurrentSchema h)) (\<lambda>sch.
        tx_bind (tx_lift sch) (\<lambda>current. case lifecycle_of current (en_type task) of
          None \<Rightarrow> tx_bind (tx_read (definitionConflict a t now)) tx_throw
        | Some lc \<Rightarrow> (case transition_target lc t of
            None \<Rightarrow> tx_return ()
          | Some target \<Rightarrow>
              tx_bind (updateInTransaction h (en_id task) [(lc_field lc, JStr target)] (wa_fence a) orig
                None now (Some (wa_id a))) (\<lambda>_. tx_return ()))))))"

section \<open>Reservation\<close>

definition put_reservation :: "execution_reservation \<Rightarrow> db \<Rightarrow> db" where
  "put_reservation r s = s\<lparr>db_execution_reservations := rows_upsert xr_task_id r
     (\<lambda>x. x\<lparr>xr_attempt_id := xr_attempt_id r, xr_execution_held := xr_execution_held r,
        xr_wip_held := xr_wip_held r, xr_updated_at := xr_updated_at r\<rparr>) (db_execution_reservations s)\<rparr>"

definition set_entry :: "string \<Rightarrow> (queue_entry \<Rightarrow> queue_entry) \<Rightarrow> db \<Rightarrow> db" where
  "set_entry i f s = s\<lparr>db_queue_entries := rows_set (\<lambda>e. qe_id e = i) f (db_queue_entries s)\<rparr>"

text \<open>The insertion of an attempt: its id is new, and no other attempt of the task is unfinished
  (unique partial index of the live schema).\<close>

definition insert_attempt :: "work_attempt \<Rightarrow> unit ptx" where
  "insert_attempt a = tx_bind (tx_read db_work_attempts) (\<lambda>t.
     tx_seq (tx_guard (wa_id a \<notin> wa_id ` set t)
       (SqliteError ''UNIQUE constraint failed: work_attempts.id''))
    (tx_seq (tx_guard (\<not> list_ex (\<lambda>b. wa_task_id b = wa_task_id a \<and> wa_state b \<noteq> Terminal) t)
       (SqliteError ''UNIQUE constraint failed: work_attempts.task_id''))
    (tx_write (\<lambda>s. s\<lparr>db_work_attempts := db_work_attempts s @ [a]\<rparr>))))"

definition new_attempt :: "string \<Rightarrow> queue_entry \<Rightarrow> string \<Rightarrow> request_origin \<Rightarrow> acquire_result \<Rightarrow>
    string option \<Rightarrow> int \<Rightarrow> revision_snapshot \<Rightarrow> work_attempt" where
  "new_attempt i entry resource orig grant predecessorId now snapshot = \<lparr>wa_id = i,
     wa_entry_id = qe_id entry, wa_task_id = qe_task_id entry, wa_resource = resource,
     wa_principal_id = or_principalId orig, wa_participant_id = or_participantId orig,
     wa_state = Reserved, wa_revision = 1, wa_fence = aq_fence grant,
     wa_lease_expires_at = Some (aq_expires_at grant), wa_accepted_at = None, wa_session = None,
     wa_checkpoint = None, wa_cancellation_requested = False, wa_suspension_requested = False,
     wa_predecessor_id = predecessorId, wa_outcome = None, wa_created_at = now, wa_updated_at = now,
     wa_finished_at = None, wa_revisions = Some (no_revisions\<lparr>ar_reserved := Some snapshot\<rparr>)\<rparr>"

definition reserveInTransaction :: "host \<Rightarrow> queue_entry \<Rightarrow> request_origin \<Rightarrow> int \<Rightarrow> int \<Rightarrow> string option
    \<Rightarrow> work_attempt ptx" where
  "reserveInTransaction h entry orig leaseMs now predecessorId =
    tx_bind (tx_read (\<lambda>s. entity_by_id s (qe_task_id entry))) (\<lambda>found. case found of
      None \<Rightarrow> tx_throw (queue_error Queue_not_found)
    | Some task \<Rightarrow>
        let resource = en_type task @ '':'' @ en_id task; i = random_uuid h in
        tx_bind (tx_read (\<lambda>s. by_key xr_task_id (qe_task_id entry) (db_execution_reservations s))) (\<lambda>prior.
        tx_seq (tx_guard (case prior of None \<Rightarrow> True
            | Some p \<Rightarrow> \<not> xr_execution_held p \<and> xr_entry_id p = qe_id entry) (queue_error Queue_conflict))
       (tx_bind (tx_read (\<lambda>s. lookupClaim s resource)) (\<lambda>liveClaim.
        tx_seq (tx_guard (case liveClaim of None \<Rightarrow> True | Some c \<Rightarrow> cl_expires_at c \<le> now)
          (queue_error Queue_conflict))
       (tx_bind (tx_read (governingRevisions now)) (\<lambda>snapshot.
        tx_bind (acquireInTransaction h resource orig Exclusive leaseMs [(''attempt_id'', JStr i)] now) (\<lambda>grant.
        tx_seq (tx_guard (aq_acquired grant) (queue_error Queue_conflict))
       (tx_seq (insert_attempt (new_attempt i entry resource orig grant predecessorId now snapshot))
       (tx_seq (tx_write (put_reservation \<lparr>xr_task_id = qe_task_id entry, xr_entry_id = qe_id entry,
          xr_attempt_id = i, xr_execution_held = True, xr_wip_held = True, xr_updated_at = now\<rparr>))
       (tx_seq (tx_write (set_entry (qe_id entry) (\<lambda>e. e\<lparr>qe_state := Admitted,
          qe_revision := qe_revision entry + 1, qe_updated_at := now\<rparr>)))
       (tx_seq (event h ''attempt.reserved'' resource orig
          ([(''attempt_id'', JStr i), (''entry_id'', JStr (qe_id entry))] @ revisionData snapshot)
          (Some (aq_fence grant)))
       (get_attempt i))))))))))))"

section \<open>Refencing, finishing and retrying\<close>

definition lease_of :: "db \<Rightarrow> int" where
  "lease_of s = (case db_queue_policy s of None \<Rightarrow> 60000 | Some p \<Rightarrow> qp_lease_ms p)"

text \<open>\<open>extra\<close> are the further columns a caller of \<open>refence\<close> sets.\<close>

definition refence :: "host \<Rightarrow> work_attempt \<Rightarrow> request_origin \<Rightarrow> int \<Rightarrow> request_origin \<Rightarrow>
    (work_attempt \<Rightarrow> work_attempt) \<Rightarrow> work_attempt ptx" where
  "refence h a owner now actor extra =
    tx_seq (invalidateQuestions h (wa_id a) ''execution authority replaced'' actor now)
   (tx_seq (revoke a)
   (tx_bind (tx_read lease_of) (\<lambda>lease.
    tx_bind (acquireInTransaction h (wa_resource a) owner Exclusive lease
       [(''attempt_id'', JStr (wa_id a))] now) (\<lambda>grant.
    tx_seq (tx_guard (aq_acquired grant) (queue_error Queue_conflict))
   (change a (\<lambda>r. extra (r\<lparr>wa_state := Running, wa_fence := aq_fence grant,
       wa_lease_expires_at := Some (aq_expires_at grant), wa_principal_id := or_principalId owner,
       wa_participant_id := or_participantId owner\<rparr>)) now)))))"

definition ownerData :: "work_attempt \<Rightarrow> request_origin \<Rightarrow> jobj" where
  "ownerData a actor = (if wa_principal_id a = or_principalId actor
      \<and> wa_participant_id a = or_participantId actor then []
    else [(''owner_principal_id'', JStr (wa_principal_id a)),
      (''owner_participant_id'', JStr (wa_participant_id a))])"

definition delete_reservation :: "string \<Rightarrow> db \<Rightarrow> db" where
  "delete_reservation task s = s\<lparr>db_execution_reservations :=
     rows_delete (\<lambda>r. xr_task_id r = task) (db_execution_reservations s)\<rparr>"

definition scheduleRetryInTransaction :: "host \<Rightarrow> work_attempt \<Rightarrow> request_origin \<Rightarrow> int \<Rightarrow> int \<Rightarrow>
    string \<Rightarrow> unit ptx" where
  "scheduleRetryInTransaction h a orig now availableAt why =
    tx_seq (tx_write (set_entry (wa_entry_id a) (\<lambda>e. e\<lparr>qe_state := Queued,
      qe_available_at := availableAt, qe_revision := qe_revision e + 1, qe_updated_at := now\<rparr>)))
   (tx_bind (tx_read (\<lambda>s. rows_insert xr_task_id \<lparr>xr_task_id = wa_task_id a,
      xr_entry_id = wa_entry_id a, xr_attempt_id = wa_id a, xr_execution_held = False,
      xr_wip_held = True, xr_updated_at = now\<rparr> (db_execution_reservations s))) (\<lambda>inserted.
    case inserted of
      None \<Rightarrow> tx_throw (SqliteError ''UNIQUE constraint failed: execution_reservations.task_id'')
    | Some t \<Rightarrow>
        tx_seq (tx_write (\<lambda>s. s\<lparr>db_execution_reservations := t\<rparr>))
          (event h ''attempt.retried'' (wa_resource a) orig [(''attempt_id'', JStr (wa_id a)),
            (''entry_id'', JStr (wa_entry_id a)), (''available_at'', JNum availableAt),
            (''reason'', JStr why)] (Some (wa_fence a)))))"

definition attempts_of_entry :: "db \<Rightarrow> string \<Rightarrow> int" where
  "attempts_of_entry s entry =
     int (length (filter (\<lambda>a. wa_entry_id a = entry) (db_work_attempts s)))"

definition retry_backoff :: "queue_retry_policy \<Rightarrow> int \<Rightarrow> int" where
  "retry_backoff p count = min (rp_max_backoff_ms p)
     (rp_initial_backoff_ms p * 2 ^ nat (max 0 (count - 1)))"

definition retries_failure :: "bool \<Rightarrow> attempt_outcome \<Rightarrow> work_attempt \<Rightarrow> queue_entry \<Rightarrow> int \<Rightarrow> bool" where
  "retries_failure allowRetry o' a e count = (allowRetry \<and> oc_status o' = O_failure
     \<and> oc_execution_stopped o' \<and> \<not> oc_unresolved_external_execution o'
     \<and> \<not> wa_cancellation_requested a \<and> rp_retry_safe (qe_retry_policy e)
     \<and> count < rp_max_attempts (qe_retry_policy e))"

definition finishInTransaction :: "host \<Rightarrow> work_attempt \<Rightarrow> attempt_outcome \<Rightarrow> request_origin \<Rightarrow> int
    \<Rightarrow> bool \<Rightarrow> request_origin \<Rightarrow> unit ptx" where
  "finishInTransaction h a o' orig now allowRetry actor =
    tx_seq (transitionTask h a orig (T_outcome (oc_status o')) now)
   (tx_seq (invalidateQuestions h (wa_id a) ''attempt finished'' actor now)
   (tx_bind (tx_read (governingRevisions now)) (\<lambda>snapshot.
    tx_bind (change a (\<lambda>r. r\<lparr>wa_state := Terminal, wa_outcome := Some o', wa_finished_at := Some now,
       wa_lease_expires_at := None, wa_revisions := Some (captureRevisions a R_finished snapshot)\<rparr>) now) (\<lambda>_.
    tx_seq (revoke a)
   (tx_seq (tx_write (delete_reservation (wa_task_id a)))
   (tx_seq (tx_write (set_entry (wa_entry_id a) (\<lambda>e. e\<lparr>qe_state := Finished,
      qe_revision := qe_revision e + 1, qe_updated_at := now\<rparr>)))
   (tx_seq (event h ''attempt.finished'' (wa_resource a) actor ([(''attempt_id'', JStr (wa_id a)),
      (''outcome'', outcome_json o')] @ ownerData a actor @ revisionData snapshot) (Some (wa_fence a)))
   (tx_bind (tx_read (\<lambda>s. (by_key qe_id (wa_entry_id a) (db_queue_entries s),
       attempts_of_entry s (wa_entry_id a)))) (\<lambda>(entry, count).
      case entry of
        None \<Rightarrow> tx_return ()
      | Some e \<Rightarrow> tx_when (retries_failure allowRetry o' a e count)
          (scheduleRetryInTransaction h a actor now (now + retry_backoff (qe_retry_policy e) count)
            ''Configured retry-safe failure''))))))))))"

section \<open>Expiry\<close>

definition expiry_origin :: "work_attempt \<Rightarrow> request_origin" where
  "expiry_origin a = \<lparr>or_principalId = wa_principal_id a, or_participantId = wa_participant_id a,
     or_environment = [], or_actor = ''queue-expiry'', or_tokenId = None, or_source = None,
     or_sourceVersion = None\<rparr>"

definition stopped_outcome :: "lifecycle_outcome \<Rightarrow> string \<Rightarrow> attempt_outcome" where
  "stopped_outcome st why = \<lparr>oc_status = st, oc_reason = Some why, oc_evidence = [],
     oc_execution_stopped = True, oc_unresolved_external_execution = False\<rparr>"

definition lease_expired :: "int \<Rightarrow> work_attempt \<Rightarrow> bool" where
  "lease_expired now a = (working (wa_state a)
     \<and> (case wa_lease_expires_at a of None \<Rightarrow> False | Some t \<Rightarrow> t \<le> now))"

text \<open>An unaccepted reservation never ran: its task goes back to the queue and only an earlier,
  accepted attempt of the entry keeps its place in the work in progress.\<close>

definition abandon_reservation :: "work_attempt \<Rightarrow> int \<Rightarrow> unit ptx" where
  "abandon_reservation a now =
    tx_bind (tx_read (governingRevisions now)) (\<lambda>snapshot.
    tx_bind (change a (\<lambda>r. r\<lparr>wa_state := Terminal, wa_lease_expires_at := None,
       wa_finished_at := Some now, wa_revisions := Some (captureRevisions a R_finished snapshot),
       wa_outcome := Some (stopped_outcome O_abandoned
         ''Reservation expired before acceptance; execution was never authorized'')\<rparr>) now) (\<lambda>_.
    tx_bind (tx_read (\<lambda>s. (case wa_predecessor_id a of None \<Rightarrow> False | Some p \<Rightarrow> p \<noteq> [])
        \<and> list_ex (\<lambda>b. wa_entry_id b = wa_entry_id a \<and> wa_accepted_at b \<noteq> None) (db_work_attempts s)))
      (\<lambda>keeps.
    tx_seq (tx_write (if keeps
       then (\<lambda>s. s\<lparr>db_execution_reservations := rows_set (\<lambda>r. xr_task_id r = wa_task_id a)
           (\<lambda>r. r\<lparr>xr_execution_held := False, xr_updated_at := now\<rparr>) (db_execution_reservations s)\<rparr>)
       else delete_reservation (wa_task_id a)))
   (tx_write (set_entry (wa_entry_id a) (\<lambda>e. e\<lparr>qe_state := Queued,
      qe_revision := qe_revision e + 1, qe_updated_at := now\<rparr>))))))"

definition expire_attempt :: "host \<Rightarrow> int \<Rightarrow> work_attempt \<Rightarrow> unit ptx" where
  "expire_attempt h now a =
    (let orig = expiry_origin a; unaccepted = (wa_accepted_at a = None) in
     tx_seq (revoke a)
    (if unaccepted \<and> wa_cancellation_requested a then
       tx_bind (refence h a orig now orig (\<lambda>r. r)) (\<lambda>a'.
         finishInTransaction h a' (stopped_outcome O_cancelled
           ''Reservation expired after cancellation, before execution was authorized'') orig now False orig)
     else
       tx_seq (if unaccepted then abandon_reservation a now
         else tx_bind (change a (\<lambda>r. r\<lparr>wa_state := Uncertain, wa_lease_expires_at := None\<rparr>) now)
           (\<lambda>_. tx_return ()))
      (event h (if unaccepted then ''attempt.expired'' else ''attempt.uncertain'') (wa_resource a) orig
         [(''attempt_id'', JStr (wa_id a))] (Some (wa_fence a)))))"

definition expireInTransaction :: "host \<Rightarrow> int \<Rightarrow> nat ptx" where
  "expireInTransaction h now =
    tx_bind (tx_read (\<lambda>s. filter (lease_expired now) (db_work_attempts s))) (\<lambda>expired.
      tx_seq (tx_for expired (expire_attempt h now)) (tx_return (length expired)))"

definition expire :: "host \<Rightarrow> int \<Rightarrow> nat op" where
  "expire h now = commit (expireInTransaction h now)"

section \<open>Commands of the execution owner\<close>

text \<open>The expiry transaction commits on its own; the command runs in a second one.\<close>

definition after_expiry :: "host \<Rightarrow> int \<Rightarrow> 'a ptx \<Rightarrow> 'a op" where
  "after_expiry h now m s = (case expire h now s of
      (s', Inl e) \<Rightarrow> (s', Inl e)
    | (s', Inr _) \<Rightarrow> commit m s')"

definition execute_tx :: "string \<Rightarrow> string \<Rightarrow> string \<Rightarrow> json \<Rightarrow> int \<Rightarrow> request_origin \<Rightarrow>
    (work_attempt \<Rightarrow> unit ptx) \<Rightarrow> int \<Rightarrow> attempt_view ptx" where
  "execute_tx i operation key input fence orig run now =
    tx_bind (get_attempt i) (\<lambda>a.
    tx_seq (tx_lift (assertOwner a orig None))
   (tx_bind (run_command (operation @ '':'' @ i) orig key input
       (tx_seq (run a) (tx_return [(''attempt_id'', JStr i)])) (Some (wa_entry_id a)) (Some i) now) (\<lambda>_.
    tx_bind (attempts_view i orig now) (\<lambda>current.
    tx_return (current\<lparr>vw_grant_valid :=
      vw_grant_valid current \<and> wa_fence (vw_attempt current) = fence\<rparr>)))))"

definition execute :: "host \<Rightarrow> string \<Rightarrow> string \<Rightarrow> string \<Rightarrow> json \<Rightarrow> int \<Rightarrow> request_origin \<Rightarrow>
    (work_attempt \<Rightarrow> unit ptx) \<Rightarrow> int \<Rightarrow> attempt_view op" where
  "execute h i operation key input fence orig run now =
     after_expiry h now (execute_tx i operation key input fence orig run now)"

definition authority_json :: "'a authority_command_scheme \<Rightarrow> jobj \<Rightarrow> json" where
  "authority_json c fs = command_json c (authority_fields c @ fs)"

definition accept_run :: "host \<Rightarrow> authority_command \<Rightarrow> request_origin \<Rightarrow> int \<Rightarrow> work_attempt \<Rightarrow> unit ptx" where
  "accept_run h input orig now a =
    tx_seq (assertAuthority a input orig now)
   (tx_seq (tx_guard (wa_state a = Reserved) (queue_error Queue_invalid_state))
   (tx_seq (tx_guard (\<not> wa_cancellation_requested a) (queue_error Queue_invalid_state))
   (tx_seq (transitionTask h a orig T_start now)
   (tx_bind (tx_read (governingRevisions now)) (\<lambda>snapshot.
    tx_bind (change a (\<lambda>r. r\<lparr>wa_state := Starting, wa_accepted_at := Some now,
       wa_revisions := Some (captureRevisions a R_authorized snapshot)\<rparr>) now) (\<lambda>_.
    event h ''attempt.accepted'' (wa_resource a) orig
      ([(''attempt_id'', JStr (wa_id a))] @ revisionData snapshot) (Some (wa_fence a))))))))"

definition accept_attempt :: "host \<Rightarrow> string \<Rightarrow> authority_command \<Rightarrow> request_origin \<Rightarrow> int \<Rightarrow> attempt_view op" where
  "accept_attempt h i input orig now s = (if \<not> authority_command_ok input then (s, Inl ZodError)
     else execute h i ''accept'' (cm_idempotency_key input) (authority_json input []) (cm_fence input)
       orig (accept_run h input orig now) now s)"

definition started_run :: "host \<Rightarrow> started_command \<Rightarrow> request_origin \<Rightarrow> int \<Rightarrow> work_attempt \<Rightarrow> unit ptx" where
  "started_run h input orig now a =
    tx_seq (assertAuthority a input orig now)
   (tx_seq (tx_guard (wa_state a = Starting) (queue_error Queue_invalid_state))
   (tx_bind (change a (\<lambda>r. r\<lparr>wa_state := Running, wa_session := Some (cm_session input)\<rparr>) now) (\<lambda>_.
    event h ''attempt.started'' (wa_resource a) orig [(''attempt_id'', JStr (wa_id a)),
      (''session'', session_json (cm_session input))] (Some (wa_fence a)))))"

definition started :: "host \<Rightarrow> string \<Rightarrow> started_command \<Rightarrow> request_origin \<Rightarrow> int \<Rightarrow> attempt_view op" where
  "started h i input orig now s =
    (if \<not> authority_command_ok input \<or> \<not> session_ok h (cm_session input) then (s, Inl ZodError)
     else execute h i ''started'' (cm_idempotency_key input)
       (authority_json input [(''session'', session_json (cm_session input))]) (cm_fence input)
       orig (started_run h input orig now) now s)"

definition heartbeat_run :: "host \<Rightarrow> authority_command \<Rightarrow> request_origin \<Rightarrow> int \<Rightarrow> work_attempt \<Rightarrow> unit ptx" where
  "heartbeat_run h input orig now a =
    tx_seq (assertAuthority a input orig now)
   (tx_bind (tx_read lease_of) (\<lambda>lease.
    tx_seq (tx_write (set_expiry (wa_resource a) (now + lease)))
   (tx_bind (change a (\<lambda>r. r\<lparr>wa_lease_expires_at := Some (now + lease)\<rparr>) now) (\<lambda>_.
    event h ''attempt.heartbeat'' (wa_resource a) orig [(''attempt_id'', JStr (wa_id a))]
      (Some (wa_fence a))))))"

definition attempt_heartbeat :: "host \<Rightarrow> string \<Rightarrow> authority_command \<Rightarrow> request_origin \<Rightarrow> int
    \<Rightarrow> attempt_view op" where
  "attempt_heartbeat h i input orig now s = (if \<not> authority_command_ok input then (s, Inl ZodError)
     else execute h i ''heartbeat'' (cm_idempotency_key input) (authority_json input []) (cm_fence input)
       orig (heartbeat_run h input orig now) now s)"

definition finish_run :: "host \<Rightarrow> finish_command \<Rightarrow> request_origin \<Rightarrow> int \<Rightarrow> work_attempt \<Rightarrow> unit ptx" where
  "finish_run h input orig now original =
    (let o' = cm_outcome input in
     if wa_state original = Terminal then tx_return ()
     else tx_bind
      (if wa_state original = Suspended \<or> wa_state original = Resume_pending
       then tx_seq (tx_lift (assertOwner original orig (Some (cm_fence input))))
           (tx_seq (tx_lift (checkRevision (wa_revision original) (cm_expected_revision input)))
             (refence h original orig now orig (\<lambda>r. r)))
       else tx_seq (assertAuthority original input orig now) (tx_return original)) (\<lambda>a.
      tx_seq (tx_guard (wa_accepted_at a \<noteq> None \<or>
          (wa_cancellation_requested a \<and> oc_status o' = O_cancelled)) (queue_error Queue_invalid_state))
     (tx_seq (tx_guard (oc_execution_stopped o' \<and> \<not> oc_unresolved_external_execution o'
          \<and> oc_status o' \<noteq> O_abandoned) (queue_error Queue_invalid_state))
     (finishInTransaction h a o' orig now True orig))))"

definition finish :: "host \<Rightarrow> string \<Rightarrow> finish_command \<Rightarrow> request_origin \<Rightarrow> int \<Rightarrow> attempt_view op" where
  "finish h i input orig now s = (if \<not> authority_command_ok input then (s, Inl ZodError)
     else execute h i ''finish'' (cm_idempotency_key input)
       (authority_json input [(''outcome'', outcome_json (cm_outcome input))]) (cm_fence input)
       orig (finish_run h input orig now) now s)"

end
