(* ===== verification/Queue.thy ===== *)
theory Queue
  imports Attempts
begin

text \<open>
  Queue dispatch: \<^verbatim>\<open>packages/ops-sqlite/src/queue-ops.ts\<close>. Tasks are enrolled as entries of a
  backlog; \<open>claimNext\<close> reserves the first eligible entry for its caller, within the execution and
  work-in-progress limits of the project policy; \<open>inspect\<close> shows the queue to a caller that may see
  only some of the tasks.

  The commands are the parsed ones: the defaults of the validation library are already filled in.
  The texts of errors are left out.
\<close>

section \<open>Policy\<close>

record queue_policy =
  po_enabled :: bool
  po_paused :: bool
  po_execution_limit :: "int option"
  po_wip_limit :: "int option"
  po_lease_ms :: int
  po_revision :: int

definition policy :: "db \<Rightarrow> queue_policy" where
  "policy s = (case db_queue_policy s of
      None \<Rightarrow> \<lparr>po_enabled = False, po_paused = True, po_execution_limit = None, po_wip_limit = None,
        po_lease_ms = 60000, po_revision = 0\<rparr>
    | Some p \<Rightarrow> \<lparr>po_enabled = qp_enabled p, po_paused = qp_paused p,
        po_execution_limit = qp_execution_limit p, po_wip_limit = qp_wip_limit p,
        po_lease_ms = qp_lease_ms p, po_revision = qp_revision p\<rparr>)"

text \<open>\<open>wip_limit\<close> may be left out, cleared or set.\<close>

record configure_command = revision_command +
  cm_enabled :: "bool option"
  cm_paused :: "bool option"
  cm_execution_limit :: "int option"
  cm_wip_limit :: "int option option"
  cm_lease_ms :: "int option"

definition configure_command_ok :: "configure_command \<Rightarrow> bool" where
  "configure_command_ok c = (revision_command_ok c
     \<and> (case cm_execution_limit c of None \<Rightarrow> True | Some n \<Rightarrow> 0 < n)
     \<and> (case cm_wip_limit c of Some (Some n) \<Rightarrow> 0 < n | _ \<Rightarrow> True)
     \<and> (case cm_lease_ms c of None \<Rightarrow> True | Some n \<Rightarrow> 1000 \<le> n \<and> n \<le> 86400000))"

definition configure_json :: "configure_command \<Rightarrow> json" where
  "configure_json c = command_json c (revision_fields c
     @ opt_field ''enabled'' (map_option JBool (cm_enabled c))
     @ opt_field ''paused'' (map_option JBool (cm_paused c))
     @ opt_field ''execution_limit'' (map_option JNum (cm_execution_limit c))
     @ opt_field ''wip_limit'' (map_option (jnullable JNum) (cm_wip_limit c))
     @ opt_field ''lease_ms'' (map_option JNum (cm_lease_ms c)))"

definition policy_json :: "queue_policy \<Rightarrow> json" where
  "policy_json p = JObj [(''enabled'', JBool (po_enabled p)), (''paused'', JBool (po_paused p)),
     (''execution_limit'', jnullable JNum (po_execution_limit p)),
     (''wip_limit'', jnullable JNum (po_wip_limit p)), (''lease_ms'', JNum (po_lease_ms p)),
     (''revision'', JNum (po_revision p))]"

definition next_policy :: "queue_policy \<Rightarrow> configure_command \<Rightarrow> queue_policy" where
  "next_policy p c = \<lparr>
     po_enabled = (case cm_enabled c of None \<Rightarrow> po_enabled p | Some b \<Rightarrow> b),
     po_paused = (case cm_paused c of None \<Rightarrow> po_paused p | Some b \<Rightarrow> b),
     po_execution_limit = (case cm_execution_limit c of None \<Rightarrow> po_execution_limit p | Some n \<Rightarrow> Some n),
     po_wip_limit = (case cm_wip_limit c of None \<Rightarrow> po_wip_limit p | Some l \<Rightarrow> l),
     po_lease_ms = (case cm_lease_ms c of None \<Rightarrow> po_lease_ms p | Some n \<Rightarrow> n),
     po_revision = po_revision p + 1\<rparr>"

definition put_policy :: "queue_policy \<Rightarrow> db \<Rightarrow> db" where
  "put_policy p s = s\<lparr>db_queue_policy := Some \<lparr>
     qp_revision_required = (po_enabled p
       \<or> (case db_queue_policy s of None \<Rightarrow> False | Some q \<Rightarrow> qp_revision_required q)),
     qp_enabled = po_enabled p, qp_paused = po_paused p, qp_execution_limit = po_execution_limit p,
     qp_wip_limit = po_wip_limit p, qp_lease_ms = po_lease_ms p, qp_revision = po_revision p\<rparr>\<rparr>"

definition configure_run :: "host \<Rightarrow> configure_command \<Rightarrow> request_origin \<Rightarrow> jobj ptx" where
  "configure_run h input orig =
    tx_bind (tx_read policy) (\<lambda>current.
    tx_seq (tx_lift (checkRevision (po_revision current) (cm_expected_revision input)))
   (let nxt = next_policy current input in
    tx_seq (tx_guard (\<not> (po_enabled nxt \<and> po_execution_limit nxt = None)) (queue_error Queue_precondition))
   (tx_seq (tx_write (put_policy nxt))
   (tx_seq (event h ''queue.policy_changed'' ''queue'' orig [(''policy'', policy_json nxt)] None)
   (tx_return [(''policy_revision'', JNum (po_revision nxt))])))))"

definition configure :: "host \<Rightarrow> configure_command \<Rightarrow> request_origin \<Rightarrow> bool \<Rightarrow> int \<Rightarrow> queue_policy op" where
  "configure h input orig canManage now s =
    (if \<not> canManage then (s, Inl (queue_error Queue_authority_lost))
     else if \<not> configure_command_ok input then (s, Inl ZodError)
     else commit (tx_bind (run_command ''policy'' orig (cm_idempotency_key input) (configure_json input)
       (configure_run h input orig) None None now) (\<lambda>_. tx_read policy)) s)"

section \<open>Entries\<close>

definition getEntry :: "string \<Rightarrow> db \<Rightarrow> error + queue_entry" where
  "getEntry i s = (case by_key qe_id i (db_queue_entries s) of
      None \<Rightarrow> Inl (queue_error Queue_not_found) | Some e \<Rightarrow> Inr e)"

definition get_entry :: "string \<Rightarrow> queue_entry ptx" where
  "get_entry i = tx_bind (tx_read (getEntry i)) tx_lift"

definition unfinished :: "queue_entry \<Rightarrow> bool" where
  "unfinished e = (qe_state e = Queued \<or> qe_state e = Admitted)"

definition unfinishedEntry :: "db \<Rightarrow> string \<Rightarrow> queue_entry option" where
  "unfinishedEntry s taskId =
     row_find (\<lambda>e. qe_task_id e = taskId \<and> unfinished e) (db_queue_entries s)"

record enroll_command = queue_command +
  cm_enroll_task_id :: string
  cm_priority :: int
  cm_required_capabilities :: "string list"
  cm_target_principal :: "string option"
  cm_retry_policy :: queue_retry_policy

definition retry_policy_json :: "queue_retry_policy \<Rightarrow> json" where
  "retry_policy_json p = JObj [(''retry_safe'', JBool (rp_retry_safe p)),
     (''max_attempts'', JNum (rp_max_attempts p)), (''initial_backoff_ms'', JNum (rp_initial_backoff_ms p)),
     (''max_backoff_ms'', JNum (rp_max_backoff_ms p))]"

definition enroll_command_ok :: "enroll_command \<Rightarrow> bool" where
  "enroll_command_ok c = (queue_command_ok c \<and> cm_enroll_task_id c \<noteq> []
     \<and> capabilities_ok (cm_required_capabilities c) \<and> cm_target_principal c \<noteq> Some []
     \<and> retry_policy_ok (cm_retry_policy c))"

definition enroll_json :: "enroll_command \<Rightarrow> json" where
  "enroll_json c = command_json c [(''task_id'', JStr (cm_enroll_task_id c)),
     (''priority'', JNum (cm_priority c)),
     (''required_capabilities'', JArr (map JStr (cm_required_capabilities c))),
     (''target_principal'', jnullable JStr (cm_target_principal c)),
     (''retry_policy'', retry_policy_json (cm_retry_policy c))]"

text \<open>\<open>coalesce(max(enqueue_order), 0) + 1\<close>.\<close>

definition next_order :: "db \<Rightarrow> int" where
  "next_order s = (case map qe_enqueue_order (db_queue_entries s) of
      [] \<Rightarrow> 1 | x # xs \<Rightarrow> fold max xs x + 1)"

definition new_entry :: "string \<Rightarrow> string \<Rightarrow> int \<Rightarrow> enroll_command \<Rightarrow> request_origin \<Rightarrow> int \<Rightarrow> queue_entry" where
  "new_entry i task_id nextOrder input orig now = \<lparr>qe_id = i, qe_task_id = task_id, qe_state = Queued,
     qe_priority = cm_priority input, qe_enqueue_order = nextOrder,
     qe_required_capabilities = sort (first_occurrences (cm_required_capabilities input)),
     qe_target_principal = cm_target_principal input, qe_retry_policy = cm_retry_policy input,
     qe_revision = 1, qe_available_at = now, qe_created_at = now, qe_updated_at = now,
     qe_enrolled_by_principal = Some (or_principalId orig),
     qe_enrolled_by_participant = Some (or_participantId orig)\<rparr>"

text \<open>The insertion of an entry: its id is new, and no other entry of the task is unfinished (unique
  partial index of the live schema).\<close>

definition insert_entry :: "queue_entry \<Rightarrow> unit ptx" where
  "insert_entry e = tx_bind (tx_read db_queue_entries) (\<lambda>t.
     tx_seq (tx_guard (qe_id e \<notin> qe_id ` set t)
       (SqliteError ''UNIQUE constraint failed: queue_entries.id''))
    (tx_seq (tx_guard (\<not> list_ex (\<lambda>b. qe_task_id b = qe_task_id e \<and> unfinished b) t)
       (SqliteError ''UNIQUE constraint failed: queue_entries.task_id''))
    (tx_write (\<lambda>s. s\<lparr>db_queue_entries := db_queue_entries s @ [e]\<rparr>))))"

definition enroll_run :: "host \<Rightarrow> enroll_command \<Rightarrow> request_origin \<Rightarrow> int \<Rightarrow> jobj ptx" where
  "enroll_run h input orig now =
    tx_bind (tx_read (\<lambda>s. entity_by_id s (cm_enroll_task_id input))) (\<lambda>found. case found of
      None \<Rightarrow> tx_throw (queue_error Queue_not_found)
    | Some task \<Rightarrow>
        tx_seq (tx_guard (\<not> en_archived task) (queue_error Queue_not_found))
       (tx_bind (tx_read (resolveCurrentSchema h)) (\<lambda>sch.
        tx_bind (tx_lift sch) (\<lambda>current.
        tx_seq (tx_guard (lifecycle_of current (en_type task) \<noteq> None) (queue_error Queue_precondition))
       (tx_bind (tx_read (\<lambda>s. unfinishedEntry s (en_id task))) (\<lambda>existing. case existing of
          Some e \<Rightarrow> tx_throw (QueueError Queue_conflict [(''entry_id'', JStr (qe_id e))])
        | None \<Rightarrow>
            let resource = en_type task @ '':'' @ en_id task; i = random_uuid h in
            tx_bind (tx_read (\<lambda>s. lookupClaim s resource)) (\<lambda>claim.
            tx_seq (tx_guard (case claim of None \<Rightarrow> True | Some c \<Rightarrow> cl_expires_at c \<le> now)
              (queue_error Queue_conflict))
           (tx_bind (tx_read next_order) (\<lambda>nextOrder.
            tx_seq (insert_entry (new_entry i (en_id task) nextOrder input orig now))
           (tx_seq (event h ''queue.enrolled'' resource orig [(''entry_id'', JStr i)] None)
           (tx_return [(''entry_id'', JStr i)])))))))))))"

text \<open>\<open>getEntry(tx, result.entry_id)\<close>: a receipt without an entry id finds nothing.\<close>

definition enroll :: "host \<Rightarrow> enroll_command \<Rightarrow> request_origin \<Rightarrow> int \<Rightarrow> queue_entry op" where
  "enroll h input orig now s =
    (if \<not> enroll_command_ok input then (s, Inl ZodError)
     else commit (tx_bind (run_command ''enroll'' orig (cm_idempotency_key input) (enroll_json input)
       (enroll_run h input orig now) None None now) (\<lambda>result.
         case as_string (obj_get ''entry_id'' result) of
           None \<Rightarrow> tx_throw (queue_error Queue_not_found)
         | Some i \<Rightarrow> get_entry i)) s)"

definition assertEntryControl :: "queue_entry \<Rightarrow> request_origin \<Rightarrow> bool \<Rightarrow> error + unit" where
  "assertEntryControl e orig canManage =
    (if canManage \<or> qe_enrolled_by_principal e = None
        \<or> qe_enrolled_by_principal e = Some (or_principalId orig)
     then Inr () else Inl (queue_error Queue_authority_lost))"

record edit_command = revision_command +
  cm_edit_priority :: "int option"
  cm_edit_capabilities :: "string list option"
  cm_edit_target :: "string option option"

definition edit_command_ok :: "edit_command \<Rightarrow> bool" where
  "edit_command_ok c = (revision_command_ok c
     \<and> (case cm_edit_capabilities c of None \<Rightarrow> True | Some cs \<Rightarrow> capabilities_ok cs)
     \<and> cm_edit_target c \<noteq> Some (Some []))"

definition edit_patch_json :: "edit_command \<Rightarrow> jobj" where
  "edit_patch_json c = opt_field ''priority'' (map_option JNum (cm_edit_priority c))
     @ opt_field ''required_capabilities'' (map_option (\<lambda>cs. JArr (map JStr cs)) (cm_edit_capabilities c))
     @ opt_field ''target_principal'' (map_option (jnullable JStr) (cm_edit_target c))"

definition edit_patch :: "edit_command \<Rightarrow> queue_entry \<Rightarrow> queue_entry" where
  "edit_patch c e = e\<lparr>
     qe_priority := (case cm_edit_priority c of None \<Rightarrow> qe_priority e | Some p \<Rightarrow> p),
     qe_required_capabilities := (case cm_edit_capabilities c of
        None \<Rightarrow> qe_required_capabilities e | Some cs \<Rightarrow> cs),
     qe_target_principal := (case cm_edit_target c of None \<Rightarrow> qe_target_principal e | Some t \<Rightarrow> t)\<rparr>"

definition edit_run :: "host \<Rightarrow> string \<Rightarrow> edit_command \<Rightarrow> request_origin \<Rightarrow> int \<Rightarrow> jobj ptx" where
  "edit_run h i input orig now =
    tx_bind (get_entry i) (\<lambda>entry.
    tx_seq (tx_lift (checkRevision (qe_revision entry) (cm_expected_revision input)))
   (tx_seq (tx_guard (unfinished entry) (queue_error Queue_invalid_state))
   (tx_seq (tx_write (set_entry i (\<lambda>e. (edit_patch input e)\<lparr>qe_revision := qe_revision entry + 1,
      qe_updated_at := now\<rparr>)))
   (tx_seq (event h ''queue.updated'' (qe_task_id entry) orig ((''entry_id'', JStr i) # edit_patch_json input) None)
   (tx_return [(''entry_id'', JStr i)])))))"

definition edit :: "host \<Rightarrow> string \<Rightarrow> edit_command \<Rightarrow> request_origin \<Rightarrow> bool \<Rightarrow> int \<Rightarrow> queue_entry op" where
  "edit h i input orig canManage now s =
    (if \<not> edit_command_ok input then (s, Inl ZodError)
     else commit (tx_bind (get_entry i) (\<lambda>e.
       tx_seq (tx_lift (assertEntryControl e orig canManage))
      (tx_bind (run_command (''entry-edit:'' @ i) orig (cm_idempotency_key input)
         (command_json input (revision_fields input @ edit_patch_json input))
         (edit_run h i input orig now) (Some i) None now) (\<lambda>_. get_entry i)))) s)"

definition withdraw_run :: "host \<Rightarrow> string \<Rightarrow> revision_command \<Rightarrow> request_origin \<Rightarrow> int \<Rightarrow> jobj ptx" where
  "withdraw_run h i input orig now =
    tx_bind (get_entry i) (\<lambda>entry.
    tx_seq (tx_lift (checkRevision (qe_revision entry) (cm_expected_revision input)))
   (tx_bind (tx_read (\<lambda>s. by_key xr_task_id (qe_task_id entry) (db_execution_reservations s))) (\<lambda>reservation.
    tx_seq (tx_guard (qe_state entry = Queued
        \<and> (case reservation of None \<Rightarrow> True | Some r \<Rightarrow> \<not> xr_execution_held r)) (queue_error Queue_invalid_state))
   (tx_seq (tx_write (delete_reservation (qe_task_id entry)))
   (tx_seq (tx_write (set_entry i (\<lambda>e. e\<lparr>qe_state := Withdrawn, qe_revision := qe_revision entry + 1,
      qe_updated_at := now\<rparr>)))
   (tx_seq (event h ''queue.withdrawn'' (qe_task_id entry) orig [(''entry_id'', JStr i)] None)
   (tx_return [(''entry_id'', JStr i)])))))))"

definition withdraw_tx :: "host \<Rightarrow> string \<Rightarrow> revision_command \<Rightarrow> request_origin \<Rightarrow> bool \<Rightarrow> int \<Rightarrow> queue_entry ptx" where
  "withdraw_tx h i input orig canManage now =
    tx_bind (get_entry i) (\<lambda>e.
    tx_seq (tx_lift (assertEntryControl e orig canManage))
   (tx_bind (run_command (''withdraw:'' @ i) orig (cm_idempotency_key input)
      (command_json input (revision_fields input)) (withdraw_run h i input orig now) (Some i) None now)
      (\<lambda>_. get_entry i)))"

definition withdraw :: "host \<Rightarrow> string \<Rightarrow> revision_command \<Rightarrow> request_origin \<Rightarrow> bool \<Rightarrow> int \<Rightarrow> queue_entry op" where
  "withdraw h i input orig canManage now s =
    (if \<not> revision_command_ok input then (s, Inl ZodError)
     else after_expiry h now (withdraw_tx h i input orig canManage now) s)"

section \<open>Occupancy and reasons\<close>

definition execution_count :: "db \<Rightarrow> int" where
  "execution_count s = int (length (filter xr_execution_held (db_execution_reservations s)))"

definition wip_count :: "db \<Rightarrow> int" where
  "wip_count s = int (length (filter xr_wip_held (db_execution_reservations s)))"

definition occupancy :: "db \<Rightarrow> int \<times> int" where
  "occupancy s = (execution_count s, wip_count s)"

datatype queue_block_code =
    QB_work block_code
  | QB_retry_backoff | QB_target_mismatch | QB_capability_mismatch | QB_live_claim
  | QB_attempt_active | QB_execution_unresolved

record queue_block_reason =
  bk_code :: queue_block_code
  bk_resource :: string
  bk_state :: "string option"
  bk_path :: "string list option"

definition of_work_reason :: "work_block_reason \<Rightarrow> queue_block_reason" where
  "of_work_reason r = \<lparr>bk_code = QB_work (br_code r), bk_resource = br_resource r,
     bk_state = br_state r, bk_path = br_path r\<rparr>"

definition queue_reason :: "queue_block_code \<Rightarrow> string \<Rightarrow> queue_block_reason" where
  "queue_reason c r = \<lparr>bk_code = c, bk_resource = r, bk_state = None, bk_path = None\<rparr>"

text \<open>The conditions after the readiness of the task, in the order of the code.\<close>

definition target_mismatch :: "queue_entry \<Rightarrow> request_origin option \<Rightarrow> bool" where
  "target_mismatch entry orig = (case orig of None \<Rightarrow> False | Some og \<Rightarrow>
     (case qe_target_principal entry of None \<Rightarrow> False
      | Some t \<Rightarrow> t \<noteq> [] \<and> t \<noteq> or_principalId og))"

definition capability_mismatch :: "queue_entry \<Rightarrow> string list option \<Rightarrow> bool" where
  "capability_mismatch entry caps = (case caps of None \<Rightarrow> False
     | Some cs \<Rightarrow> list_ex (\<lambda>c. c \<notin> set cs) (qe_required_capabilities entry))"

definition claimed_directly :: "db \<Rightarrow> readiness_snapshot \<Rightarrow> string \<Rightarrow> int \<Rightarrow> bool" where
  "claimed_directly s sn task_id now = (case sn_entity sn task_id of None \<Rightarrow> False
     | Some task \<Rightarrow> (case lookupClaim s (en_type task @ '':'' @ en_id task) of
         None \<Rightarrow> False | Some c \<Rightarrow> now < cl_expires_at c))"

definition attempt_active :: "db \<Rightarrow> string \<Rightarrow> bool" where
  "attempt_active s task_id =
     list_ex (\<lambda>a. wa_task_id a = task_id \<and> wa_state a \<noteq> Terminal) (db_work_attempts s)"

definition reservation_of :: "db \<Rightarrow> string \<Rightarrow> execution_reservation option" where
  "reservation_of s task_id = by_key xr_task_id task_id (db_execution_reservations s)"

definition execution_unresolved :: "db \<Rightarrow> queue_entry \<Rightarrow> bool" where
  "execution_unresolved s entry = (case reservation_of s (qe_task_id entry) of
     None \<Rightarrow> False | Some r \<Rightarrow> xr_execution_held r \<or> xr_entry_id r \<noteq> qe_id entry)"

definition entryReasons :: "db \<Rightarrow> queue_entry \<Rightarrow> readiness_snapshot \<Rightarrow> int \<Rightarrow> request_origin option
    \<Rightarrow> string list option \<Rightarrow> queue_block_reason list" where
  "entryReasons s entry sn now orig caps =
    (let t = qe_task_id entry; add = (\<lambda>b c. if b then [queue_reason c t] else []) in
     map of_work_reason (evaluateReadiness sn t True)
     @ add (now < qe_available_at entry) QB_retry_backoff
     @ add (target_mismatch entry orig) QB_target_mismatch
     @ add (capability_mismatch entry caps) QB_capability_mismatch
     @ add (claimed_directly s sn t now) QB_live_claim
     @ add (attempt_active s t) QB_attempt_active
     @ add (execution_unresolved s entry) QB_execution_unresolved)"

section \<open>Dispatch\<close>

record claim_command = queue_command +
  cm_claim_capabilities :: "string list"
  cm_types :: "string list option"

definition claim_command_ok :: "claim_command \<Rightarrow> bool" where
  "claim_command_ok c = (queue_command_ok c \<and> capabilities_ok (cm_claim_capabilities c)
     \<and> (case cm_types c of None \<Rightarrow> True | Some ts \<Rightarrow> [] \<notin> set ts))"

definition claim_json :: "claim_command \<Rightarrow> json" where
  "claim_json c = command_json c ((''capabilities'', JArr (map JStr (cm_claim_capabilities c)))
     # opt_field ''types'' (map_option (\<lambda>ts. JArr (map JStr ts)) (cm_types c)))"

text \<open>\<open>noGrantMessages\<close>; indexing with another reason gives \<open>undefined\<close>.\<close>

definition noGrantMessages :: "(string \<times> string) list" where
  "noGrantMessages = [
     (''disabled'', ''Managed dispatch is disabled''),
     (''paused'', ''New execution grants are paused''),
     (''empty'', ''No enrolled backlog work''),
     (''blocked'', ''No eligible work matches this consumer''),
     (''execution_capacity'', ''Execution capacity is occupied''),
     (''wip_capacity'', ''Work-in-progress capacity is occupied'')]"

definition denied :: "host \<Rightarrow> request_origin \<Rightarrow> queue_policy \<Rightarrow> string \<Rightarrow> jobj ptx" where
  "denied h orig current why =
    (let fields = [(''reason'', JStr why), (''policy_revision'', JNum (po_revision current))] in
     tx_seq (event h ''queue.grant_denied'' ''queue'' orig fields None) (tx_return fields))"

definition queue_ordered :: "queue_entry list \<Rightarrow> queue_entry list" where
  "queue_ordered es = sort_key (\<lambda>e. (- qe_priority e, qe_enqueue_order e, qe_id e)) es"

definition type_admitted :: "claim_command \<Rightarrow> readiness_snapshot \<Rightarrow> queue_entry \<Rightarrow> bool" where
  "type_admitted input sn entry = (case cm_types input of None \<Rightarrow> True | Some ts \<Rightarrow>
     (case sn_entity sn (qe_task_id entry) of None \<Rightarrow> [] | Some t \<Rightarrow> en_type t) \<in> set ts)"

definition eligible :: "db \<Rightarrow> claim_command \<Rightarrow> request_origin \<Rightarrow> readiness_snapshot \<Rightarrow> int \<Rightarrow> queue_entry \<Rightarrow> bool" where
  "eligible s input orig sn now entry = (type_admitted input sn entry
     \<and> entryReasons s entry sn now (Some orig) (Some (cm_claim_capabilities input)) = [])"

definition wip_blocked :: "db \<Rightarrow> queue_policy \<Rightarrow> int \<Rightarrow> queue_entry \<Rightarrow> bool" where
  "wip_blocked s current wip entry =
    (\<not> (case reservation_of s (qe_task_id entry) of None \<Rightarrow> False | Some r \<Rightarrow> xr_wip_held r)
     \<and> (case po_wip_limit current of None \<Rightarrow> False | Some l \<Rightarrow> l \<le> wip))"

definition latest_attempt :: "db \<Rightarrow> string \<Rightarrow> work_attempt option" where
  "latest_attempt s entry_id = (case rev (sort_key (\<lambda>a. (wa_fence a, wa_created_at a, wa_id a))
      (filter (\<lambda>a. wa_entry_id a = entry_id) (db_work_attempts s))) of [] \<Rightarrow> None | a # _ \<Rightarrow> Some a)"

definition grant_entry :: "host \<Rightarrow> queue_entry \<Rightarrow> request_origin \<Rightarrow> queue_policy \<Rightarrow> int \<Rightarrow> jobj ptx" where
  "grant_entry h entry orig current now =
    tx_bind (tx_read (\<lambda>s. map_option wa_id (latest_attempt s (qe_id entry)))) (\<lambda>predecessor.
    tx_bind (reserveInTransaction h entry orig (po_lease_ms current) now predecessor) (\<lambda>attempt.
    tx_return [(''attempt_id'', JStr (wa_id attempt)), (''fence'', JNum (wa_fence attempt)),
      (''entry_id'', JStr (qe_id entry)), (''policy_revision'', JNum (po_revision current))]))"

fun claim_loop :: "host \<Rightarrow> claim_command \<Rightarrow> request_origin \<Rightarrow> queue_policy \<Rightarrow> int \<Rightarrow> readiness_snapshot
    \<Rightarrow> int \<Rightarrow> queue_entry list \<Rightarrow> bool \<Rightarrow> jobj ptx" where
  "claim_loop h input orig current wip sn now [] wipBlocked =
     denied h orig current (if wipBlocked then ''wip_capacity'' else ''blocked'')"
| "claim_loop h input orig current wip sn now (entry # es) wipBlocked =
    tx_bind (tx_read (\<lambda>s. (eligible s input orig sn now entry, wip_blocked s current wip entry)))
      (\<lambda>(ok, blocked).
        if \<not> ok then claim_loop h input orig current wip sn now es wipBlocked
        else if blocked then claim_loop h input orig current wip sn now es True
        else grant_entry h entry orig current now)"

definition backlog :: "db \<Rightarrow> (string \<Rightarrow> bool) \<Rightarrow> queue_entry list" where
  "backlog s allowsTask = filter (\<lambda>e. allowsTask (qe_task_id e))
     (queue_ordered (filter (\<lambda>e. qe_state e = Queued) (db_queue_entries s)))"

definition claim_run :: "host \<Rightarrow> claim_command \<Rightarrow> request_origin \<Rightarrow> (string \<Rightarrow> bool) \<Rightarrow> int \<Rightarrow> jobj ptx" where
  "claim_run h input orig allowsTask now =
    tx_bind (tx_read policy) (\<lambda>current.
      if \<not> po_enabled current then denied h orig current ''disabled''
      else if po_paused current then denied h orig current ''paused''
      else tx_bind (tx_read occupancy) (\<lambda>(execution, wip).
        if (case po_execution_limit current of None \<Rightarrow> True | Some l \<Rightarrow> l \<le> execution)
        then denied h orig current ''execution_capacity''
        else tx_bind (tx_read (\<lambda>s. backlog s allowsTask)) (\<lambda>entries.
          if entries = [] then denied h orig current ''empty''
          else tx_bind (tx_read (\<lambda>s. readReadinessSnapshot h s now False)) (\<lambda>r.
            tx_bind (tx_lift r) (\<lambda>sn. claim_loop h input orig current wip sn now entries False)))))"

datatype claim_result =
    Granted queue_entry attempt_view "json option"
  | No_grant "json option" "string option" "json option"

definition claim_view :: "host \<Rightarrow> request_origin \<Rightarrow> (string \<Rightarrow> bool) \<Rightarrow> int \<Rightarrow> jobj \<Rightarrow> claim_result ptx" where
  "claim_view h orig allowsTask now result =
    (if obj_has ''attempt_id'' result then
       (case as_string (obj_get ''attempt_id'' result) of
          None \<Rightarrow> tx_throw (queue_error Queue_not_found)
        | Some i \<Rightarrow>
            tx_bind (get_attempt i) (\<lambda>attempt.
            tx_seq (tx_guard (allowsTask (wa_task_id attempt)) (queue_error Queue_authority_lost))
           (tx_bind (get_entry (wa_entry_id attempt)) (\<lambda>entry.
            tx_bind (attempts_view (wa_id attempt) orig now) (\<lambda>view.
            tx_bind (tx_read (\<lambda>s. grantValid s attempt orig now)) (\<lambda>valid.
            tx_return (Granted entry (view\<lparr>vw_grant_valid :=
                obj_get ''fence'' result = Some (JNum (wa_fence attempt)) \<and> valid\<rparr>)
              (obj_get ''policy_revision'' result))))))))
     else tx_return (No_grant (obj_get ''reason'' result)
       (Option.bind (as_string (obj_get ''reason'' result)) (map_of noGrantMessages))
       (obj_get ''policy_revision'' result)))"

definition claimNext :: "host \<Rightarrow> claim_command \<Rightarrow> request_origin \<Rightarrow> (string \<Rightarrow> bool) \<Rightarrow> int \<Rightarrow> claim_result op" where
  "claimNext h input orig allowsTask now s =
    (if \<not> claim_command_ok input then (s, Inl ZodError)
     else commit (tx_seq (expireInTransaction h now)
      (tx_bind (run_command ''claim-next'' orig (cm_idempotency_key input) (claim_json input)
         (claim_run h input orig allowsTask now) None None now) (\<lambda>result.
       claim_view h orig allowsTask now result))) s)"

end
