(* ===== verification/Inspection.thy ===== *)
theory Inspection
  imports Queue
begin

text \<open>
  The inspection of the queue (\<open>inspect\<close>, \<open>diagnostics\<close> and their helpers in
  \<^verbatim>\<open>packages/ops-sqlite/src/queue-ops.ts\<close>): what a caller sees of the queue when a predicate
  hides some of the tasks from it.
\<close>

section \<open>Groups of entries\<close>

datatype entry_group = G_backlog | G_active | G_suspended | G_uncertain | G_terminal

definition group :: "queue_entry \<Rightarrow> work_attempt option \<Rightarrow> entry_group" where
  "group entry attempt =
    (if qe_state entry = Finished \<or> qe_state entry = Withdrawn then G_terminal
     else if qe_state entry = Queued then G_backlog
     else case attempt of
         None \<Rightarrow> G_active
       | Some a \<Rightarrow> if wa_state a = Suspended \<or> wa_state a = Resume_pending then G_suspended
           else if wa_state a = Uncertain then G_uncertain else G_active)"

definition leaseLapsed :: "work_attempt option \<Rightarrow> int \<Rightarrow> bool" where
  "leaseLapsed attempt now = (case attempt of None \<Rightarrow> False
     | Some a \<Rightarrow> (wa_state a = Starting \<or> wa_state a = Running)
         \<and> (case wa_lease_expires_at a of None \<Rightarrow> False | Some t \<Rightarrow> t \<le> now))"

datatype task_view = Full_task entity_row | Compact_task string string jobj

definition compactTask :: "readiness_snapshot \<Rightarrow> entity_row \<Rightarrow> task_view" where
  "compactTask sn task =
    (let fields = first_occurrences ([''title'', ''name'']
           @ (case sn_lifecycle sn task of None \<Rightarrow> [] | Some lc \<Rightarrow> [lc_field lc])) in
     Compact_task (en_id task) (en_type task)
       (concat (map (\<lambda>f. opt_field f (obj_get f (en_data task))) fields)))"

section \<open>Diagnostics\<close>

record queue_diagnostics =
  dg_since :: int
  dg_until :: int
  dg_grant_denials :: "(json option \<times> int) list"
  dg_expired_reservations :: int
  dg_uncertainty_events :: int
  dg_reconciliations :: int
  dg_retries :: int
  dg_forced_abandonments :: int
  dg_expired_execution_leases :: int

text \<open>The second column of the grouped query: a \<open>json_extract\<close> of the event data, by kind.\<close>

definition event_detail :: "journal_row \<Rightarrow> json option" where
  "event_detail j =
    (if jo_kind j = ''queue.grant_denied'' then obj_get ''reason'' (jo_data j)
     else if jo_kind j = ''attempt.finished'' then
       (case obj_get ''outcome'' (jo_data j) of Some (JObj ob) \<Rightarrow> obj_get ''status'' ob | _ \<Rightarrow> None)
     else Some (JStr ''''))"

definition recent_events :: "db \<Rightarrow> int \<Rightarrow> string \<Rightarrow> journal_row list" where
  "recent_events s now kind = filter (\<lambda>j. now - 86400000 \<le> jo_t j \<and> jo_t j \<le> now \<and> jo_kind j = kind)
     (db_journal s)"

definition count_details :: "journal_row list \<Rightarrow> (json option \<times> int) list" where
  "count_details js = map (\<lambda>d. (d, int (length (filter (\<lambda>j. event_detail j = d) js))))
     (remdups (map event_detail js))"

definition diagnostics :: "db \<Rightarrow> int \<Rightarrow> queue_diagnostics" where
  "diagnostics s now =
    (let count = (\<lambda>k. int (length (recent_events s now k))) in
     \<lparr>dg_since = now - 86400000, dg_until = now,
      dg_grant_denials = count_details (recent_events s now ''queue.grant_denied''),
      dg_expired_reservations = count ''attempt.expired'',
      dg_uncertainty_events = count ''attempt.uncertain'',
      dg_reconciliations = count ''attempt.rebound'',
      dg_retries = count ''attempt.retried'',
      dg_forced_abandonments = int (length (filter (\<lambda>j. event_detail j = Some (JStr ''abandoned''))
        (recent_events s now ''attempt.finished''))),
      dg_expired_execution_leases = int (length (filter (\<lambda>a. leaseLapsed (Some a) now) (db_work_attempts s)))\<rparr>)"

section \<open>Inspection\<close>

record queue_list_query =
  lq_task_id :: "string option"
  lq_state :: "entry_group option"
  lq_type :: "string option"
  lq_target_principal :: "string option"
  lq_capability :: "string option"
  lq_priority :: "int option"
  lq_lease_expired :: bool
  lq_capabilities :: "string list option"
  lq_compact :: bool
  lq_limit :: int
  lq_offset :: int

definition queue_list_query_ok :: "queue_list_query \<Rightarrow> bool" where
  "queue_list_query_ok q = (1 \<le> lq_limit q \<and> lq_limit q \<le> 500 \<and> 0 \<le> lq_offset q
     \<and> (case lq_capabilities q of None \<Rightarrow> True | Some cs \<Rightarrow> capabilities_ok cs))"

record queue_counts =
  ct_group :: "entry_group \<Rightarrow> int"
  ct_execution :: int
  ct_wip :: int
  ct_oldest_waiting_age_ms :: "int option"

record queue_entry_view =
  qv_entry :: queue_entry
  qv_task :: "task_view option"
  qv_attempt :: "work_attempt option"
  qv_block_reasons :: "queue_block_reason list"

record queue_inspection =
  qi_policy :: queue_policy
  qi_diagnostics :: queue_diagnostics
  qi_counts :: queue_counts
  qi_total :: nat
  qi_limit :: int
  qi_offset :: int
  qi_effective_capabilities :: "string list"
  qi_entries :: "queue_entry_view list"

text \<open>\<open>!query.x || f(query.x)\<close>: an absent or empty filter admits everything.\<close>

definition query_filter :: "string option \<Rightarrow> (string \<Rightarrow> bool) \<Rightarrow> bool" where
  "query_filter f p = (case f of None \<Rightarrow> True | Some x \<Rightarrow> x = [] \<or> p x)"

definition entry_admitted :: "db \<Rightarrow> readiness_snapshot \<Rightarrow> queue_list_query \<Rightarrow> int \<Rightarrow> queue_entry \<Rightarrow> bool" where
  "entry_admitted s sn q now e =
    (let latest = latest_attempt s (qe_id e) in
     query_filter (lq_task_id q) (\<lambda>x. qe_task_id e = x)
     \<and> (case lq_state q of None \<Rightarrow> True | Some g \<Rightarrow> group e latest = g)
     \<and> query_filter (lq_type q) (\<lambda>x. map_option en_type (sn_entity sn (qe_task_id e)) = Some x)
     \<and> query_filter (lq_target_principal q) (\<lambda>x. qe_target_principal e = Some x)
     \<and> query_filter (lq_capability q) (\<lambda>x. x \<in> set (qe_required_capabilities e))
     \<and> (case lq_priority q of None \<Rightarrow> True | Some p \<Rightarrow> qe_priority e = p)
     \<and> (\<not> lq_lease_expired q \<or> (group e latest = G_active \<and> leaseLapsed latest now)))"

definition count_entry :: "db \<Rightarrow> int \<Rightarrow> queue_entry \<Rightarrow> queue_counts \<Rightarrow> queue_counts" where
  "count_entry s now e c =
    (let g = group e (latest_attempt s (qe_id e)) in
     c\<lparr>ct_group := (ct_group c)(g := ct_group c g + 1),
       ct_oldest_waiting_age_ms := (if qe_state e = Queued
         then Some (max (case ct_oldest_waiting_age_ms c of None \<Rightarrow> 0 | Some n \<Rightarrow> n) (now - qe_created_at e))
         else ct_oldest_waiting_age_ms c)\<rparr>)"

definition queue_counts_of :: "db \<Rightarrow> int \<Rightarrow> queue_entry list \<Rightarrow> queue_counts" where
  "queue_counts_of s now es = fold (count_entry s now) es
     \<lparr>ct_group = (\<lambda>_. 0), ct_execution = execution_count s, ct_wip = wip_count s,
      ct_oldest_waiting_age_ms = None\<rparr>"

text \<open>A blocked visible task must not disclose a hidden prerequisite.\<close>

definition redact :: "(string \<Rightarrow> bool) \<Rightarrow> string \<Rightarrow> queue_block_reason \<Rightarrow> queue_block_reason" where
  "redact allowsTask task_id r =
    (let references = bk_resource r # (case bk_path r of None \<Rightarrow> [] | Some p \<Rightarrow> p) in
     if bk_code r \<noteq> QB_work B_gate_pending
       \<and> list_ex (\<lambda>i. i \<noteq> task_id \<and> \<not> allowsTask i) references
     then queue_reason (bk_code r) task_id else r)"

definition entry_view :: "db \<Rightarrow> readiness_snapshot \<Rightarrow> queue_list_query \<Rightarrow> (string \<Rightarrow> bool) \<Rightarrow> int
    \<Rightarrow> queue_entry \<Rightarrow> queue_entry_view" where
  "entry_view s sn q allowsTask now e = \<lparr>qv_entry = e,
     qv_task = map_option (if lq_compact q then compactTask sn else Full_task) (sn_entity sn (qe_task_id e)),
     qv_attempt = latest_attempt s (qe_id e),
     qv_block_reasons = (if qe_state e = Queued
       then map (redact allowsTask (qe_task_id e)) (entryReasons s e sn now None (lq_capabilities q))
       else [])\<rparr>"

definition visible_entries :: "db \<Rightarrow> (string \<Rightarrow> bool) \<Rightarrow> queue_entry list" where
  "visible_entries s allowsTask =
     filter (\<lambda>e. allowsTask (qe_task_id e)) (queue_ordered (db_queue_entries s))"

definition inspect :: "host \<Rightarrow> queue_list_query \<Rightarrow> (string \<Rightarrow> bool) \<Rightarrow> int \<Rightarrow> db \<Rightarrow> error + queue_inspection" where
  "inspect h q allowsTask now s =
    (if \<not> queue_list_query_ok q then Inl ZodError
     else case readReadinessSnapshot h s now False of
       Inl e \<Rightarrow> Inl e
     | Inr sn \<Rightarrow>
         let entries = visible_entries s allowsTask;
             filtered = filter (entry_admitted s sn q now) entries in
         Inr \<lparr>qi_policy = policy s, qi_diagnostics = diagnostics s now,
           qi_counts = queue_counts_of s now entries, qi_total = length filtered,
           qi_limit = lq_limit q, qi_offset = lq_offset q,
           qi_effective_capabilities = (case lq_capabilities q of None \<Rightarrow> [] | Some cs \<Rightarrow> cs),
           qi_entries = map (entry_view s sn q allowsTask now)
             (take (nat (lq_limit q)) (drop (nat (lq_offset q)) filtered))\<rparr>)"

end
