(* ===== verification/Recovery.thy ===== *)
theory Recovery
  imports Queue
begin

text \<open>
  Recovery of attempts: \<^verbatim>\<open>packages/ops-sqlite/src/attempt-recovery-ops.ts\<close> (cancellation,
  suspension and resumption, reconciliation of uncertain executions, rebinding to another owner,
  replacement of a native session, explicit retries and forced abandonment) and
  \<^verbatim>\<open>attempt-correction-ops.ts\<close> (corrective work linked to a finished attempt).
\<close>

section \<open>Commands\<close>

definition suspend_command_ok :: "suspend_command \<Rightarrow> bool" where
  "suspend_command_ok c = (authority_command_ok c \<and> cm_execution_quiescent c)"

definition resume_command_ok :: "resume_command \<Rightarrow> bool" where
  "resume_command_ok c = (revision_command_ok c \<and> capabilities_ok (cm_capabilities c))"

definition reconcile_command_ok :: "host \<Rightarrow> reconcile_command \<Rightarrow> bool" where
  "reconcile_command_ok h c = (revision_command_ok c \<and> cm_observed_quiescent c \<noteq> Some False
     \<and> cm_reconcile_reason c \<noteq> []
     \<and> (case cm_observed_session c of None \<Rightarrow> True | Some se \<Rightarrow> session_ok h se))"

definition rebind_command_ok :: "host \<Rightarrow> rebind_command \<Rightarrow> bool" where
  "rebind_command_ok h c = (revision_command_ok c \<and> cm_rebind_reason c \<noteq> [] \<and> cm_principal_id c \<noteq> []
     \<and> cm_participant_id c \<noteq> [] \<and> session_ok h (cm_rebind_session c))"

definition reason_command_ok :: "reason_command \<Rightarrow> bool" where
  "reason_command_ok c = (revision_command_ok c \<and> cm_command_reason c \<noteq> [])"

definition replace_session_command_ok :: "host \<Rightarrow> replace_session_command \<Rightarrow> bool" where
  "replace_session_command_ok h c = (authority_command_ok c \<and> length_between 1 2000 (cm_reason c)
     \<and> session_ok h (cm_previous_session c) \<and> cm_previous_stopped c \<and> session_ok h (cm_new_session c))"

definition correct_command_ok :: "correct_command \<Rightarrow> bool" where
  "correct_command_ok c = (queue_command_ok c \<and> cm_task_id c \<noteq> []
     \<and> length_between 1 2000 (cm_correct_reason c))"

fun observation_str :: "observation \<Rightarrow> string" where
  "observation_str Ob_unknown = ''unknown''"
| "observation_str Ob_running = ''running''"
| "observation_str Ob_stopped = ''stopped''"
| "observation_str Ob_suspended = ''suspended''"

definition revision_json :: "'a revision_command_scheme \<Rightarrow> jobj \<Rightarrow> json" where
  "revision_json c fs = command_json c (revision_fields c @ fs)"

definition reconcile_json :: "reconcile_command \<Rightarrow> json" where
  "reconcile_json c = revision_json c ([(''observation'', JStr (observation_str (cm_observation c)))]
     @ opt_field ''execution_quiescent'' (map_option JBool (cm_observed_quiescent c))
     @ opt_field ''checkpoint'' (map_option JObj (cm_observed_checkpoint c))
     @ [(''reason'', JStr (cm_reconcile_reason c))]
     @ opt_field ''session'' (map_option session_json (cm_observed_session c))
     @ opt_field ''outcome'' (map_option outcome_json (cm_observed_outcome c)))"

definition rebind_json :: "rebind_command \<Rightarrow> json" where
  "rebind_json c = revision_json c [(''reason'', JStr (cm_rebind_reason c)),
     (''principal_id'', JStr (cm_principal_id c)), (''participant_id'', JStr (cm_participant_id c)),
     (''session'', session_json (cm_rebind_session c))]"

definition replace_session_json :: "replace_session_command \<Rightarrow> json" where
  "replace_session_json c = authority_json c ([(''reason'', JStr (cm_reason c)),
     (''previous_session'', session_json (cm_previous_session c)),
     (''previous_stopped'', JBool (cm_previous_stopped c)),
     (''session'', session_json (cm_new_session c))]
     @ opt_field ''checkpoint'' (map_option JObj (cm_new_checkpoint c)))"

section \<open>The common frame of the recovery commands\<close>

definition recovery_tx :: "string \<Rightarrow> string \<Rightarrow> 'c revision_command_scheme \<Rightarrow> json \<Rightarrow> request_origin \<Rightarrow>
    (work_attempt \<Rightarrow> unit ptx) \<Rightarrow> int \<Rightarrow> (work_attempt \<Rightarrow> unit ptx) \<Rightarrow> attempt_view ptx" where
  "recovery_tx i operation input request orig run now authorize =
    tx_bind (get_attempt i) (\<lambda>a.
    tx_seq (authorize a)
   (tx_bind (run_command (operation @ '':'' @ i) orig (cm_idempotency_key input) request
       (tx_seq (tx_when (\<not> (operation = ''reconcile'' \<and> wa_state a = Terminal))
          (tx_seq (tx_lift (checkRevision (wa_revision a) (cm_expected_revision input))) (run a)))
        (tx_return [(''attempt_id'', JStr i)])) (Some (wa_entry_id a)) (Some i) now) (\<lambda>_.
    attempts_view i orig now)))"

definition execute_recovery :: "host \<Rightarrow> string \<Rightarrow> string \<Rightarrow> 'c revision_command_scheme \<Rightarrow> json \<Rightarrow>
    request_origin \<Rightarrow> (work_attempt \<Rightarrow> unit ptx) \<Rightarrow> int \<Rightarrow> (work_attempt \<Rightarrow> unit ptx) \<Rightarrow> attempt_view op" where
  "execute_recovery h i operation input request orig run now authorize =
     after_expiry h now (recovery_tx i operation input request orig run now authorize)"

definition requireState :: "work_attempt \<Rightarrow> attempt_state list \<Rightarrow> error + unit" where
  "requireState a states =
     (if wa_state a \<in> set states then Inr () else Inl (queue_error Queue_invalid_state))"

definition held_by_owner :: "work_attempt \<Rightarrow> request_origin \<Rightarrow> bool" where
  "held_by_owner a orig = (wa_principal_id a = or_principalId orig \<and> wa_participant_id a = or_participantId orig)"

definition assertControl :: "request_origin \<Rightarrow> bool \<Rightarrow> work_attempt \<Rightarrow> unit ptx" where
  "assertControl orig canManage a =
    (if canManage \<or> held_by_owner a orig then tx_return ()
     else tx_bind (get_entry (wa_entry_id a)) (\<lambda>e.
       tx_guard (qe_enrolled_by_principal e = Some (or_principalId orig)) (queue_error Queue_authority_lost)))"

definition ownerOnly :: "request_origin \<Rightarrow> work_attempt \<Rightarrow> unit ptx" where
  "ownerOnly orig a = tx_lift (assertOwner a orig None)"

definition anyone :: "work_attempt \<Rightarrow> unit ptx" where
  "anyone a = tx_return ()"

definition ownedOrigin :: "work_attempt \<Rightarrow> request_origin \<Rightarrow> request_origin" where
  "ownedOrigin a actor = actor\<lparr>or_principalId := wa_principal_id a, or_participantId := wa_participant_id a\<rparr>"

definition hold_execution :: "string \<Rightarrow> bool \<Rightarrow> int \<Rightarrow> db \<Rightarrow> db" where
  "hold_execution task_id b now s = s\<lparr>db_execution_reservations :=
     rows_set (\<lambda>r. xr_task_id r = task_id) (\<lambda>r. r\<lparr>xr_execution_held := b, xr_updated_at := now\<rparr>)
       (db_execution_reservations s)\<rparr>"

definition attempt_event :: "host \<Rightarrow> string \<Rightarrow> work_attempt \<Rightarrow> request_origin \<Rightarrow> jobj \<Rightarrow> int \<Rightarrow> unit ptx" where
  "attempt_event h kind a orig fs fence =
     event h kind (wa_resource a) orig ((''attempt_id'', JStr (wa_id a)) # fs) (Some fence)"

section \<open>Requests\<close>

definition cancellation_run :: "host \<Rightarrow> request_origin \<Rightarrow> int \<Rightarrow> work_attempt \<Rightarrow> unit ptx" where
  "cancellation_run h orig now a =
    tx_when (wa_state a \<noteq> Terminal)
      (tx_seq (invalidateQuestions h (wa_id a) ''attempt cancellation requested'' orig now)
      (tx_bind (change a (\<lambda>r. r\<lparr>wa_cancellation_requested := True\<rparr>) now) (\<lambda>_.
       attempt_event h ''attempt.cancellation_requested'' a orig [] (wa_fence a))))"

definition requestCancellation :: "host \<Rightarrow> string \<Rightarrow> revision_command \<Rightarrow> request_origin \<Rightarrow> bool \<Rightarrow> int
    \<Rightarrow> attempt_view op" where
  "requestCancellation h i input orig canManage now s =
    (if \<not> revision_command_ok input then (s, Inl ZodError)
     else execute_recovery h i ''request-cancellation'' input (revision_json input []) orig
       (cancellation_run h orig now) now (assertControl orig canManage) s)"

definition suspension_run :: "host \<Rightarrow> request_origin \<Rightarrow> int \<Rightarrow> work_attempt \<Rightarrow> unit ptx" where
  "suspension_run h orig now a =
    tx_seq (tx_lift (requireState a [Starting, Running]))
   (tx_bind (change a (\<lambda>r. r\<lparr>wa_suspension_requested := True\<rparr>) now) (\<lambda>_.
    attempt_event h ''attempt.suspension_requested'' a orig [] (wa_fence a)))"

definition requestSuspension :: "host \<Rightarrow> string \<Rightarrow> revision_command \<Rightarrow> request_origin \<Rightarrow> bool \<Rightarrow> int
    \<Rightarrow> attempt_view op" where
  "requestSuspension h i input orig canManage now s =
    (if \<not> revision_command_ok input then (s, Inl ZodError)
     else execute_recovery h i ''request-suspension'' input (revision_json input []) orig
       (suspension_run h orig now) now (assertControl orig canManage) s)"

definition confirm_run :: "host \<Rightarrow> suspend_command \<Rightarrow> request_origin \<Rightarrow> int \<Rightarrow> work_attempt \<Rightarrow> unit ptx" where
  "confirm_run h input orig now a =
    tx_seq (assertAuthority a input orig now)
   (tx_seq (tx_lift (requireState a [Running]))
   (tx_seq (tx_guard (wa_suspension_requested a \<and> \<not> wa_cancellation_requested a)
      (queue_error Queue_invalid_state))
   (tx_seq (revoke a)
   (tx_bind (change a (\<lambda>r. r\<lparr>wa_state := Suspended, wa_checkpoint := Some (cm_checkpoint input),
      wa_lease_expires_at := None, wa_suspension_requested := False\<rparr>) now) (\<lambda>_.
    tx_seq (tx_write (hold_execution (wa_task_id a) False now))
   (attempt_event h ''attempt.suspended'' a orig [(''checkpoint'', JObj (cm_checkpoint input)),
      (''execution_quiescent'', JBool True)] (wa_fence a)))))))"

definition confirmSuspension :: "host \<Rightarrow> string \<Rightarrow> suspend_command \<Rightarrow> request_origin \<Rightarrow> int \<Rightarrow> attempt_view op" where
  "confirmSuspension h i input orig now s =
    (if \<not> suspend_command_ok input then (s, Inl ZodError)
     else execute_recovery h i ''confirm-suspension'' input
       (authority_json input [(''execution_quiescent'', JBool (cm_execution_quiescent input)),
         (''checkpoint'', JObj (cm_checkpoint input))]) orig
       (confirm_run h input orig now) now (ownerOnly orig) s)"

definition resume_run :: "host \<Rightarrow> request_origin \<Rightarrow> int \<Rightarrow> work_attempt \<Rightarrow> unit ptx" where
  "resume_run h orig now a =
    tx_seq (tx_lift (requireState a [Suspended]))
   (tx_seq (tx_guard (\<not> wa_cancellation_requested a) (queue_error Queue_invalid_state))
   (tx_bind (change a (\<lambda>r. r\<lparr>wa_state := Resume_pending\<rparr>) now) (\<lambda>_.
    attempt_event h ''attempt.resume_requested'' a orig [] (wa_fence a))))"

definition requestResume :: "host \<Rightarrow> string \<Rightarrow> revision_command \<Rightarrow> request_origin \<Rightarrow> bool \<Rightarrow> int
    \<Rightarrow> attempt_view op" where
  "requestResume h i input orig canManage now s =
    (if \<not> revision_command_ok input then (s, Inl ZodError)
     else execute_recovery h i ''request-resume'' input (revision_json input []) orig
       (resume_run h orig now) now (assertControl orig canManage) s)"

section \<open>Resumption\<close>

text \<open>Whether the task of a suspended attempt may not continue: it must still exist, be nonterminal in
  a declared state, and satisfy its dependencies and gates, the target and the capabilities.\<close>

definition resume_blocked :: "readiness_snapshot \<Rightarrow> work_attempt \<Rightarrow> queue_entry \<Rightarrow> request_origin
    \<Rightarrow> string list \<Rightarrow> bool" where
  "resume_blocked sn a entry orig caps =
    ((case sn_entity sn (wa_task_id a) of None \<Rightarrow> True
      | Some task \<Rightarrow> (case sn_lifecycle sn task of None \<Rightarrow> True
        | Some lc \<Rightarrow> (case as_string (obj_get (lc_field lc) (en_data task)) of None \<Rightarrow> True
          | Some st \<Rightarrow> st \<in> set (lc_terminal lc)
              \<or> (case Option.bind (sn_definition sn) (\<lambda>d. work_unit_of d (en_type task)) of None \<Rightarrow> False
                 | Some u \<Rightarrow> (case map_of (wu_fields u) (lc_field lc) of None \<Rightarrow> False
                   | Some f \<Rightarrow> (case fd_values f of None \<Rightarrow> False | Some vs \<Rightarrow> st \<notin> set vs))))))
     \<or> filter (\<lambda>r. br_code r \<noteq> B_not_dispatchable) (evaluateReadiness sn (wa_task_id a) True) \<noteq> []
     \<or> wa_cancellation_requested a
     \<or> target_mismatch entry (Some orig)
     \<or> capability_mismatch entry (Some caps))"

text \<open>The grant: a new fence, the state \<open>starting\<close>, and the hold of the reservation.\<close>

definition resume_grant :: "host \<Rightarrow> request_origin \<Rightarrow> int \<Rightarrow> work_attempt \<Rightarrow> jobj ptx" where
  "resume_grant h orig now a =
    tx_bind (refence h a orig now orig (\<lambda>x. x)) (\<lambda>renewed.
    tx_bind (tx_read (governingRevisions now)) (\<lambda>revisions.
    tx_bind (change renewed (\<lambda>x. x\<lparr>wa_state := Starting,
      wa_revisions := Some (captureRevisions renewed R_authorized revisions)\<rparr>) now) (\<lambda>_.
    tx_seq (tx_write (hold_execution (wa_task_id a) True now))
   (tx_seq (attempt_event h ''attempt.resumed'' a orig
      ((''checkpoint'', jnullable JObj (wa_checkpoint a)) # revisionData revisions) (wa_fence renewed))
   (tx_return [(''attempt_id'', JStr (wa_id a)), (''fence'', JNum (wa_fence renewed))])))))"

definition claim_resume_run :: "host \<Rightarrow> resume_command \<Rightarrow> request_origin \<Rightarrow> int \<Rightarrow> work_attempt \<Rightarrow> jobj ptx" where
  "claim_resume_run h input orig now a =
    (let deny = (\<lambda>why. tx_return [(''reason'', JStr why)]) in
    tx_seq (tx_lift (checkRevision (wa_revision a) (cm_expected_revision input)))
   (tx_seq (tx_lift (requireState a [Resume_pending]))
   (tx_bind (tx_read (\<lambda>s. (policy s, occupancy s))) (\<lambda>(current, (execution, _)).
      if \<not> po_enabled current then deny ''disabled''
      else if po_paused current then deny ''paused''
      else if (case po_execution_limit current of None \<Rightarrow> True | Some l \<Rightarrow> l \<le> execution)
      then deny ''execution_capacity''
      else tx_bind (get_entry (wa_entry_id a)) (\<lambda>entry.
        tx_bind (tx_read (\<lambda>s. readReadinessSnapshot h s now False)) (\<lambda>r.
        tx_bind (tx_lift r) (\<lambda>sn.
          if resume_blocked sn a entry orig (cm_capabilities input) then deny ''blocked''
          else resume_grant h orig now a)))))))"

datatype resume_result = Resumed attempt_view | Not_resumed "json option" attempt_view

definition grant_of :: "jobj \<Rightarrow> attempt_view \<Rightarrow> attempt_view" where
  "grant_of result view = view\<lparr>vw_grant_valid :=
     vw_grant_valid view \<and> obj_get ''fence'' result = Some (JNum (wa_fence (vw_attempt view)))\<rparr>"

definition claim_resume_tx :: "host \<Rightarrow> string \<Rightarrow> resume_command \<Rightarrow> request_origin \<Rightarrow> int \<Rightarrow> resume_result ptx" where
  "claim_resume_tx h i input orig now =
    tx_bind (get_attempt i) (\<lambda>a.
    tx_seq (tx_lift (assertOwner a orig None))
   (tx_bind (run_command (''claim-resume:'' @ i) orig (cm_idempotency_key input)
       (revision_json input [(''capabilities'', JArr (map JStr (cm_capabilities input)))])
       (claim_resume_run h input orig now a) (Some (wa_entry_id a)) (Some i) now) (\<lambda>result.
    tx_bind (attempts_view i orig now) (\<lambda>view.
    tx_return (if obj_has ''reason'' result
      then Not_resumed (obj_get ''reason'' result) (view\<lparr>vw_grant_valid := False\<rparr>)
      else Resumed (grant_of result view))))))"

definition claimResume :: "host \<Rightarrow> string \<Rightarrow> resume_command \<Rightarrow> request_origin \<Rightarrow> int \<Rightarrow> resume_result op" where
  "claimResume h i input orig now s =
    (if \<not> resume_command_ok input then (s, Inl ZodError)
     else after_expiry h now (claim_resume_tx h i input orig now) s)"

section \<open>Reconciliation\<close>

definition session_differs :: "attempt_session option \<Rightarrow> attempt_session \<Rightarrow> bool" where
  "session_differs recorded se = (case recorded of None \<Rightarrow> False
     | Some r \<Rightarrow> canonicalJson (session_json r) \<noteq> canonicalJson (session_json se))"

definition reconcile_unknown :: "host \<Rightarrow> reconcile_command \<Rightarrow> request_origin \<Rightarrow> int \<Rightarrow> work_attempt \<Rightarrow> unit ptx" where
  "reconcile_unknown h input orig now a =
    tx_seq (tx_lift (requireState a [Starting, Running, Uncertain]))
   (tx_seq (revoke a)
   (tx_bind (change a (\<lambda>r. r\<lparr>wa_state := Uncertain, wa_lease_expires_at := None\<rparr>) now) (\<lambda>_.
    attempt_event h ''attempt.uncertain'' a orig [(''reason'', JStr (cm_reconcile_reason input))] (wa_fence a))))"

definition reconcile_suspended :: "host \<Rightarrow> reconcile_command \<Rightarrow> request_origin \<Rightarrow> int \<Rightarrow> work_attempt \<Rightarrow> unit ptx" where
  "reconcile_suspended h input orig now a =
    tx_seq (tx_lift (requireState a [Uncertain, Running, Suspended]))
   (case (cm_observed_quiescent input, cm_observed_checkpoint input, cm_observed_session input) of
      (Some True, Some checkpoint, Some se) \<Rightarrow>
        tx_seq (tx_guard (\<not> session_differs (wa_session a) se) (queue_error Queue_invalid_state))
       (tx_seq (revoke a)
       (tx_bind (change a (\<lambda>r. r\<lparr>wa_state := Suspended, wa_session := Some se,
          wa_checkpoint := Some checkpoint, wa_suspension_requested := False, wa_lease_expires_at := None\<rparr>) now) (\<lambda>_.
        tx_seq (tx_write (hold_execution (wa_task_id a) False now))
       (attempt_event h ''attempt.suspended'' a orig [(''reason'', JStr (cm_reconcile_reason input)),
          (''execution_quiescent'', JBool True), (''checkpoint'', JObj checkpoint)] (wa_fence a)))))
    | _ \<Rightarrow> tx_throw (queue_error Queue_invalid_state))"

definition reconcile_running :: "host \<Rightarrow> reconcile_command \<Rightarrow> request_origin \<Rightarrow> int \<Rightarrow> work_attempt \<Rightarrow> unit ptx" where
  "reconcile_running h input orig now a =
    tx_seq (tx_lift (requireState a [Starting, Running, Uncertain]))
   (case cm_observed_session input of
      None \<Rightarrow> tx_throw (queue_error Queue_conflict)
    | Some se \<Rightarrow>
        tx_seq (tx_guard (\<not> session_differs (wa_session a) se) (queue_error Queue_conflict))
       (tx_bind (tx_read (governingRevisions now)) (\<lambda>revisions.
        tx_bind (refence h a (ownedOrigin a orig) now orig (\<lambda>r. r\<lparr>wa_session := Some se,
          wa_revisions := Some (captureRevisions a R_authorized revisions)\<rparr>)) (\<lambda>rebound.
        attempt_event h ''attempt.rebound'' a orig [(''reason'', JStr (cm_reconcile_reason input)),
          (''session'', session_json se), (''previous_fence'', JNum (wa_fence a))] (wa_fence rebound)))))"

definition reconcile_stopped :: "host \<Rightarrow> reconcile_command \<Rightarrow> request_origin \<Rightarrow> int \<Rightarrow> work_attempt \<Rightarrow> unit ptx" where
  "reconcile_stopped h input orig now a = (case cm_observed_outcome input of
      None \<Rightarrow> tx_throw (queue_error Queue_invalid_state)
    | Some o' \<Rightarrow>
        tx_seq (tx_guard (oc_execution_stopped o' \<and> \<not> oc_unresolved_external_execution o'
            \<and> oc_status o' \<noteq> O_abandoned) (queue_error Queue_invalid_state))
       (tx_seq (tx_guard (wa_accepted_at a \<noteq> None
            \<or> (wa_cancellation_requested a \<and> oc_status o' = O_cancelled)) (queue_error Queue_invalid_state))
       (tx_bind (refence h a (ownedOrigin a orig) now orig (\<lambda>r. r)) (\<lambda>stopped.
        tx_seq (finishInTransaction h stopped o' (ownedOrigin a orig) now True orig)
       (attempt_event h ''attempt.rebound'' a orig [(''observation'', JStr ''stopped''),
          (''reason'', JStr (cm_reconcile_reason input)), (''previous_fence'', JNum (wa_fence a))]
          (wa_fence stopped))))))"

definition reconcile_run :: "host \<Rightarrow> reconcile_command \<Rightarrow> request_origin \<Rightarrow> int \<Rightarrow> work_attempt \<Rightarrow> unit ptx" where
  "reconcile_run h input orig now a =
    (if wa_state a = Terminal then tx_return ()
     else case cm_observation input of
       Ob_unknown \<Rightarrow> reconcile_unknown h input orig now a
     | Ob_suspended \<Rightarrow> reconcile_suspended h input orig now a
     | Ob_running \<Rightarrow> reconcile_running h input orig now a
     | Ob_stopped \<Rightarrow> reconcile_stopped h input orig now a)"

definition reconcile :: "host \<Rightarrow> string \<Rightarrow> reconcile_command \<Rightarrow> request_origin \<Rightarrow> bool \<Rightarrow> int \<Rightarrow> attempt_view op" where
  "reconcile h i input orig canManage now s =
    (if \<not> reconcile_command_ok h input then (s, Inl ZodError)
     else execute_recovery h i ''reconcile'' input (reconcile_json input) orig
       (reconcile_run h input orig now) now (if canManage then anyone else ownerOnly orig) s)"

section \<open>Rebinding, retries and forced abandonment\<close>

definition rebind_run :: "host \<Rightarrow> rebind_command \<Rightarrow> request_origin \<Rightarrow> int \<Rightarrow> work_attempt \<Rightarrow> unit ptx" where
  "rebind_run h input orig now a =
    tx_seq (tx_lift (requireState a [Starting, Running, Uncertain]))
   (tx_seq (tx_guard (wa_session a \<noteq> None \<and> \<not> session_differs (wa_session a) (cm_rebind_session input))
      (queue_error Queue_conflict))
   (tx_bind (tx_read (governingRevisions now)) (\<lambda>revisions.
    tx_bind (refence h a (orig\<lparr>or_principalId := cm_principal_id input, or_participantId := cm_participant_id input\<rparr>)
      now orig (\<lambda>r. r\<lparr>wa_revisions := Some (captureRevisions a R_authorized revisions)\<rparr>)) (\<lambda>rebound.
    attempt_event h ''attempt.rebound'' a orig [(''reason'', JStr (cm_rebind_reason input)),
      (''previous_principal'', JStr (wa_principal_id a)), (''previous_participant'', JStr (wa_participant_id a)),
      (''principal_id'', JStr (cm_principal_id input)), (''participant_id'', JStr (cm_participant_id input)),
      (''previous_fence'', JNum (wa_fence a))] (wa_fence rebound)))))"

definition rebind :: "host \<Rightarrow> string \<Rightarrow> rebind_command \<Rightarrow> request_origin \<Rightarrow> bool \<Rightarrow> int \<Rightarrow> attempt_view op" where
  "rebind h i input orig canManage now s =
    (if \<not> canManage then (s, Inl (queue_error Queue_authority_lost))
     else if \<not> rebind_command_ok h input then (s, Inl ZodError)
     else execute_recovery h i ''rebind'' input (rebind_json input) orig
       (rebind_run h input orig now) now anyone s)"

text \<open>The attempt of an entry with the highest fence (attempts of one task have different fences).\<close>

definition newest_attempt :: "db \<Rightarrow> string \<Rightarrow> work_attempt option" where
  "newest_attempt s entry_id = (case sort_key (\<lambda>a. - wa_fence a)
      (filter (\<lambda>a. wa_entry_id a = entry_id) (db_work_attempts s)) of [] \<Rightarrow> None | a # _ \<Rightarrow> Some a)"

definition retry_allowed :: "work_attempt \<Rightarrow> bool" where
  "retry_allowed a = (case wa_outcome a of None \<Rightarrow> False
     | Some o' \<Rightarrow> oc_execution_stopped o' \<and> \<not> oc_unresolved_external_execution o' \<and> oc_status o' \<noteq> O_success)"

definition retry_run :: "host \<Rightarrow> reason_command \<Rightarrow> request_origin \<Rightarrow> int \<Rightarrow> work_attempt \<Rightarrow> unit ptx" where
  "retry_run h input orig now a =
    tx_seq (tx_lift (requireState a [Terminal]))
   (tx_seq (tx_guard (retry_allowed a) (queue_error Queue_invalid_state))
   (tx_bind (get_entry (wa_entry_id a)) (\<lambda>entry.
    tx_bind (tx_read (\<lambda>s. map_option wa_id (newest_attempt s (qe_id entry)))) (\<lambda>latest.
    tx_seq (tx_guard (latest = Some (wa_id a) \<and> qe_state entry = Finished) (queue_error Queue_conflict))
   (tx_bind (tx_read (\<lambda>s. unfinishedEntry s (wa_task_id a))) (\<lambda>pending.
    tx_seq (tx_guard (pending = None) (queue_error Queue_conflict))
   (tx_bind (tx_read (\<lambda>s. (policy s, occupancy s))) (\<lambda>(current, (_, wip)).
    tx_seq (tx_guard (case po_wip_limit current of None \<Rightarrow> True | Some l \<Rightarrow> wip < l) (queue_error Queue_conflict))
   (scheduleRetryInTransaction h a orig now now (cm_command_reason input))))))))))"

definition retry :: "host \<Rightarrow> string \<Rightarrow> reason_command \<Rightarrow> request_origin \<Rightarrow> bool \<Rightarrow> int \<Rightarrow> attempt_view op" where
  "retry h i input orig canManage now s =
    (if \<not> reason_command_ok input then (s, Inl ZodError)
     else execute_recovery h i ''retry'' input
       (revision_json input [(''reason'', JStr (cm_command_reason input))]) orig
       (retry_run h input orig now) now (assertControl orig canManage) s)"

definition forced_outcome :: "string \<Rightarrow> attempt_outcome" where
  "forced_outcome why = \<lparr>oc_status = O_abandoned, oc_reason = Some why, oc_evidence = [],
     oc_execution_stopped = False, oc_unresolved_external_execution = True\<rparr>"

definition force_run :: "host \<Rightarrow> reason_command \<Rightarrow> request_origin \<Rightarrow> int \<Rightarrow> work_attempt \<Rightarrow> unit ptx" where
  "force_run h input orig now a =
    tx_seq (tx_lift (requireState a [Reserved, Starting, Running, Suspended, Resume_pending, Uncertain]))
   (tx_bind (refence h a (ownedOrigin a orig) now orig (\<lambda>r. r)) (\<lambda>abandoned.
    tx_seq (finishInTransaction h abandoned (forced_outcome (cm_command_reason input)) (ownedOrigin a orig) now
      False orig)
   (scheduleRetryInTransaction h abandoned orig now now (cm_command_reason input))))"

definition forceRecovery :: "host \<Rightarrow> string \<Rightarrow> reason_command \<Rightarrow> request_origin \<Rightarrow> bool \<Rightarrow> int \<Rightarrow> attempt_view op" where
  "forceRecovery h i input orig canManage now s =
    (if \<not> canManage then (s, Inl (queue_error Queue_authority_lost))
     else if \<not> reason_command_ok input then (s, Inl ZodError)
     else execute_recovery h i ''force-recovery'' input
       (revision_json input [(''reason'', JStr (cm_command_reason input))]) orig
       (force_run h input orig now) now anyone s)"

section \<open>Replacement of a native session\<close>

definition replace_run :: "host \<Rightarrow> replace_session_command \<Rightarrow> request_origin \<Rightarrow> int \<Rightarrow> work_attempt \<Rightarrow> jobj ptx" where
  "replace_run h input orig now a =
    tx_seq (tx_lift (assertOwner a orig (Some (cm_fence input))))
   (tx_seq (tx_lift (checkRevision (wa_revision a) (cm_expected_revision input)))
   (tx_seq (tx_lift (requireState a [Running, Uncertain]))
   (case wa_session a of
      None \<Rightarrow> tx_throw (queue_error Queue_conflict)
    | Some recorded \<Rightarrow>
        tx_seq (tx_guard (\<not> session_differs (wa_session a) (cm_previous_session input)) (queue_error Queue_conflict))
       (tx_seq (tx_guard (session_differs (wa_session a) (cm_new_session input)) (queue_error Queue_invalid_state))
       (tx_seq (tx_guard (\<not> wa_cancellation_requested a) (queue_error Queue_invalid_state))
       (tx_bind (tx_read (governingRevisions now)) (\<lambda>snapshot.
        tx_bind (refence h a orig now orig (\<lambda>r. r\<lparr>wa_session := Some (cm_new_session input),
          wa_checkpoint := (case cm_new_checkpoint input of None \<Rightarrow> wa_checkpoint a | Some c \<Rightarrow> Some c),
          wa_revisions := Some (captureRevisions a R_authorized snapshot)\<rparr>)) (\<lambda>renewed.
        tx_seq (attempt_event h ''attempt.session_replaced'' a orig ([(''reason'', JStr (cm_reason input)),
          (''previous_session'', session_json recorded), (''session'', session_json (cm_new_session input)),
          (''previous_fence'', JNum (wa_fence a))] @ revisionData snapshot) (wa_fence renewed))
       (tx_return [(''attempt_id'', JStr (wa_id a)), (''fence'', JNum (wa_fence renewed))])))))))))"

definition replace_tx :: "host \<Rightarrow> string \<Rightarrow> replace_session_command \<Rightarrow> request_origin \<Rightarrow> int \<Rightarrow> attempt_view ptx" where
  "replace_tx h i input orig now =
    tx_bind (get_attempt i) (\<lambda>a.
    tx_seq (tx_lift (assertOwner a orig None))
   (tx_bind (run_command (''replace-session:'' @ i) orig (cm_idempotency_key input) (replace_session_json input)
       (replace_run h input orig now a) (Some (wa_entry_id a)) (Some i) now) (\<lambda>result.
    tx_bind (attempts_view i orig now) (\<lambda>view. tx_return (grant_of result view)))))"

definition replaceSession :: "host \<Rightarrow> string \<Rightarrow> replace_session_command \<Rightarrow> request_origin \<Rightarrow> int \<Rightarrow> attempt_view op" where
  "replaceSession h i input orig now s =
    (if \<not> replace_session_command_ok h input then (s, Inl ZodError)
     else after_expiry h now (replace_tx h i input orig now) s)"

section \<open>Corrections\<close>

text \<open>The unique index on attempt and task can only be violated by a repeated identifier, since the
  pair has been checked.\<close>

definition correct_run :: "host \<Rightarrow> correct_command \<Rightarrow> request_origin \<Rightarrow> int \<Rightarrow> work_attempt \<Rightarrow> jobj ptx" where
  "correct_run h input orig now a =
    (let i = random_uuid h; task_id = cm_task_id input in
    tx_seq (tx_guard (wa_state a = Terminal) (queue_error Queue_invalid_state))
   (tx_bind (tx_read (\<lambda>s. entity_by_id s task_id)) (\<lambda>task.
    tx_seq (tx_guard (case task of None \<Rightarrow> False | Some t \<Rightarrow> \<not> en_archived t) (queue_error Queue_not_found))
   (tx_bind (tx_read (\<lambda>s. row_find (\<lambda>c. ac_attempt_id c = wa_id a \<and> ac_task_id c = task_id)
      (db_attempt_corrections s))) (\<lambda>linked.
    tx_seq (tx_guard (linked = None) (queue_error Queue_conflict))
   (tx_bind (tx_read (\<lambda>s. rows_insert ac_id \<lparr>ac_id = i, ac_attempt_id = wa_id a, ac_task_id = task_id,
      ac_reason = cm_correct_reason input, ac_principal_id = or_principalId orig,
      ac_participant_id = or_participantId orig, ac_created_at = now\<rparr> (db_attempt_corrections s))) (\<lambda>inserted.
    case inserted of
      None \<Rightarrow> tx_throw (SqliteError ''UNIQUE constraint failed: attempt_corrections.id'')
    | Some t \<Rightarrow>
        tx_seq (tx_write (\<lambda>s. s\<lparr>db_attempt_corrections := t\<rparr>))
       (tx_seq (event h ''attempt.corrected'' (wa_resource a) orig [(''attempt_id'', JStr (wa_id a)),
          (''correction_id'', JStr i), (''task_id'', JStr task_id), (''reason'', JStr (cm_correct_reason input)),
          (''outcome_status'', jnullable (\<lambda>o'. JStr (outcome_str (oc_status o'))) (wa_outcome a))] None)
       (tx_return [(''attempt_id'', JStr (wa_id a)), (''correction_id'', JStr i)])))))))))"

definition correct_json :: "correct_command \<Rightarrow> json" where
  "correct_json c = command_json c [(''task_id'', JStr (cm_task_id c)), (''reason'', JStr (cm_correct_reason c))]"

definition correct :: "host \<Rightarrow> string \<Rightarrow> correct_command \<Rightarrow> request_origin \<Rightarrow> int \<Rightarrow> attempt_view op" where
  "correct h i input orig now s =
    (if \<not> correct_command_ok input then (s, Inl ZodError)
     else commit (tx_bind (get_attempt i) (\<lambda>a.
       tx_bind (run_command (''correct:'' @ i) orig (cm_idempotency_key input) (correct_json input)
         (correct_run h input orig now a) (Some (wa_entry_id a)) (Some i) now) (\<lambda>_.
       attempts_view i orig now))) s)"

end
