(* ===== verification/Ledger.thy ===== *)
theory Ledger
  imports Recovery
begin

text \<open>
  The ledger of managed work: an abstract machine over attempts, queue entries and execution
  reservations, each a finite map by its key. Its steps say which combinations of rows may change
  together; \<open>Work\<close> shows that every managed-work operation of the model is a sequence of them.
  The invariant \<open>ledger_ok\<close> implies the constraints and triggers that the live schema declares on
  the three tables (\<^verbatim>\<open>migrations-sql.ts\<close>), and that execution capacity is exactly the number of
  attempts that may be executing.
\<close>

record ledger =
  lg_attempts :: "string \<Rightarrow> work_attempt option"
  lg_entries :: "string \<Rightarrow> queue_entry option"
  lg_reservations :: "string \<Rightarrow> execution_reservation option"

definition put_attempt :: "work_attempt \<Rightarrow> ledger \<Rightarrow> ledger" where
  "put_attempt a l = l\<lparr>lg_attempts := (lg_attempts l)(wa_id a := Some a)\<rparr>"

definition put_entry :: "queue_entry \<Rightarrow> ledger \<Rightarrow> ledger" where
  "put_entry e l = l\<lparr>lg_entries := (lg_entries l)(qe_id e := Some e)\<rparr>"

definition reserve_as :: "string \<Rightarrow> execution_reservation option \<Rightarrow> ledger \<Rightarrow> ledger" where
  "reserve_as t r l = l\<lparr>lg_reservations := (lg_reservations l)(t := r)\<rparr>"

lemma ledger_sel [simp]:
  "lg_attempts (put_attempt a l) = (lg_attempts l)(wa_id a := Some a)"
  "lg_entries (put_attempt a l) = lg_entries l"
  "lg_reservations (put_attempt a l) = lg_reservations l"
  "lg_attempts (put_entry e l) = lg_attempts l"
  "lg_entries (put_entry e l) = (lg_entries l)(qe_id e := Some e)"
  "lg_reservations (put_entry e l) = lg_reservations l"
  "lg_attempts (reserve_as t r l) = lg_attempts l"
  "lg_entries (reserve_as t r l) = lg_entries l"
  "lg_reservations (reserve_as t r l) = (lg_reservations l)(t := r)"
  by (simp_all add: put_attempt_def put_entry_def reserve_as_def)

lemma put_attempt_twice: "wa_id b = wa_id a \<Longrightarrow> put_attempt b (put_attempt a l) = put_attempt b l"
  by (simp add: put_attempt_def)

text \<open>An attempt may be executing in these states; it holds execution capacity exactly then.\<close>

definition executing :: "work_attempt \<Rightarrow> bool" where
  "executing a = (wa_state a \<in> {Reserved, Starting, Running, Uncertain})"

definition settled :: "work_attempt \<Rightarrow> bool" where
  "settled a = (wa_state a = Terminal)"

lemma executing_unsettled: "executing a \<Longrightarrow> \<not> settled a"
  by (auto simp: executing_def settled_def)

text \<open>What the table constraints and the trigger on \<open>work_attempts\<close> demand of one row.\<close>

definition outcome_recorded :: "work_attempt \<Rightarrow> bool" where
  "outcome_recorded a = ((wa_state a = Terminal) = (wa_outcome a \<noteq> None)
     \<and> (wa_state a = Terminal) = (wa_finished_at a \<noteq> None))"

definition same_work :: "work_attempt \<Rightarrow> work_attempt \<Rightarrow> bool" where
  "same_work a b = (wa_id b = wa_id a \<and> wa_entry_id b = wa_entry_id a \<and> wa_task_id b = wa_task_id a
     \<and> wa_resource b = wa_resource a)"

definition same_entry :: "queue_entry \<Rightarrow> queue_entry \<Rightarrow> bool" where
  "same_entry e f = (qe_id f = qe_id e \<and> qe_task_id f = qe_task_id e)"

text \<open>The reservation an attempt of the entry leaves when the entry goes back to the queue.\<close>

definition retained :: "string \<Rightarrow> string \<Rightarrow> execution_reservation option \<Rightarrow> bool" where
  "retained t entry r = (case r of None \<Rightarrow> True
     | Some x \<Rightarrow> xr_task_id x = t \<and> xr_entry_id x = entry \<and> \<not> xr_execution_held x \<and> xr_wip_held x)"

section \<open>Steps\<close>

inductive ledger_step :: "ledger \<Rightarrow> ledger \<Rightarrow> bool" where
  enroll: "lg_entries l (qe_id e) = None \<Longrightarrow> qe_state e = Queued
    \<Longrightarrow> (\<And>i f. lg_entries l i = Some f \<Longrightarrow> qe_task_id f = qe_task_id e \<Longrightarrow> \<not> unfinished f)
    \<Longrightarrow> ledger_step l (put_entry e l)"
| edit: "lg_entries l i = Some e \<Longrightarrow> same_entry e e' \<Longrightarrow> qe_state e' = qe_state e
    \<Longrightarrow> ledger_step l (put_entry e' l)"
| withdraw: "lg_entries l i = Some e \<Longrightarrow> qe_state e = Queued \<Longrightarrow> same_entry e e' \<Longrightarrow> qe_state e' = Withdrawn
    \<Longrightarrow> ledger_step l (put_entry e' (reserve_as (qe_task_id e) None l))"
| reserve: "lg_entries l i = Some e \<Longrightarrow> qe_state e = Queued \<Longrightarrow> same_entry e e' \<Longrightarrow> qe_state e' = Admitted
    \<Longrightarrow> lg_attempts l (wa_id a) = None \<Longrightarrow> wa_state a = Reserved \<Longrightarrow> outcome_recorded a
    \<Longrightarrow> wa_entry_id a = qe_id e \<Longrightarrow> wa_task_id a = qe_task_id e
    \<Longrightarrow> (\<And>j b. lg_attempts l j = Some b \<Longrightarrow> wa_task_id b = qe_task_id e \<Longrightarrow> settled b)
    \<Longrightarrow> xr_task_id r = qe_task_id e \<Longrightarrow> xr_entry_id r = qe_id e \<Longrightarrow> xr_attempt_id r = wa_id a
    \<Longrightarrow> xr_execution_held r \<Longrightarrow> xr_wip_held r
    \<Longrightarrow> ledger_step l (put_entry e' (reserve_as (qe_task_id e) (Some r) (put_attempt a l)))"
| work: "lg_attempts l i = Some a \<Longrightarrow> \<not> settled a \<Longrightarrow> same_work a a' \<Longrightarrow> \<not> settled a'
    \<Longrightarrow> outcome_recorded a' \<Longrightarrow> executing a' = executing a \<Longrightarrow> ledger_step l (put_attempt a' l)"
| hold: "lg_attempts l i = Some a \<Longrightarrow> \<not> settled a \<Longrightarrow> same_work a a' \<Longrightarrow> \<not> settled a'
    \<Longrightarrow> outcome_recorded a' \<Longrightarrow> lg_reservations l (wa_task_id a) = Some r
    \<Longrightarrow> r' = r\<lparr>xr_execution_held := executing a', xr_updated_at := now\<rparr>
    \<Longrightarrow> ledger_step l (reserve_as (wa_task_id a) (Some r') (put_attempt a' l))"
| settle: "lg_attempts l i = Some a \<Longrightarrow> \<not> settled a \<Longrightarrow> same_work a a' \<Longrightarrow> settled a' \<Longrightarrow> outcome_recorded a'
    \<Longrightarrow> lg_entries l (wa_entry_id a) = Some e \<Longrightarrow> same_entry e e'
    \<Longrightarrow> qe_state e' = Finished \<and> r = None \<or> qe_state e' = Queued \<and> retained (wa_task_id a) (wa_entry_id a) r
    \<Longrightarrow> ledger_step l (put_entry e' (reserve_as (wa_task_id a) r (put_attempt a' l)))"
| retry: "lg_attempts l i = Some a \<Longrightarrow> settled a \<Longrightarrow> lg_entries l (wa_entry_id a) = Some e
    \<Longrightarrow> qe_state e = Finished \<Longrightarrow> same_entry e e' \<Longrightarrow> qe_state e' = Queued
    \<Longrightarrow> (\<And>j f. lg_entries l j = Some f \<Longrightarrow> qe_task_id f = wa_task_id a \<Longrightarrow> \<not> unfinished f)
    \<Longrightarrow> lg_reservations l (wa_task_id a) = None \<Longrightarrow> retained (wa_task_id a) (wa_entry_id a) (Some r)
    \<Longrightarrow> ledger_step l (put_entry e' (reserve_as (wa_task_id a) (Some r) l))"

section \<open>Invariant\<close>

definition ledger_keys :: "ledger \<Rightarrow> bool" where
  "ledger_keys l = ((\<forall>i a. lg_attempts l i = Some a \<longrightarrow> wa_id a = i)
     \<and> (\<forall>i e. lg_entries l i = Some e \<longrightarrow> qe_id e = i)
     \<and> (\<forall>t r. lg_reservations l t = Some r \<longrightarrow> xr_task_id r = t \<and> xr_wip_held r))"

text \<open>Every attempt belongs to an entry of its task, and while it is unsettled the entry is admitted
  and the task's reservation is the attempt's, held exactly while it may be executing.\<close>

definition attempt_linked :: "ledger \<Rightarrow> work_attempt \<Rightarrow> bool" where
  "attempt_linked l a = (outcome_recorded a
     \<and> (\<exists>e. lg_entries l (wa_entry_id a) = Some e \<and> qe_task_id e = wa_task_id a
          \<and> (\<not> settled a \<longrightarrow> qe_state e = Admitted))
     \<and> (\<not> settled a \<longrightarrow> (\<exists>r. lg_reservations l (wa_task_id a) = Some r \<and> xr_attempt_id r = wa_id a
          \<and> xr_entry_id r = wa_entry_id a \<and> xr_execution_held r = executing a)))"

definition ledger_ok :: "ledger \<Rightarrow> bool" where
  "ledger_ok l = (ledger_keys l
     \<and> (\<forall>i a. lg_attempts l i = Some a \<longrightarrow> attempt_linked l a)
     \<and> (\<forall>i e j f. lg_entries l i = Some e \<and> lg_entries l j = Some f \<and> unfinished e \<and> unfinished f
          \<and> qe_task_id e = qe_task_id f \<longrightarrow> i = j)
     \<and> (\<forall>t r. lg_reservations l t = Some r \<and> xr_execution_held r \<longrightarrow>
          (\<exists>i a. lg_attempts l i = Some a \<and> executing a \<and> wa_task_id a = t)))"

lemma ledger_okD:
  assumes "ledger_ok l"
  shows "lg_attempts l i = Some a \<Longrightarrow> wa_id a = i"
    and "lg_entries l i = Some e \<Longrightarrow> qe_id e = i"
    and "lg_reservations l t = Some r \<Longrightarrow> xr_task_id r = t"
    and "lg_reservations l t = Some r \<Longrightarrow> xr_wip_held r"
    and "lg_attempts l i = Some a \<Longrightarrow> attempt_linked l a"
    and "lg_entries l i = Some e \<Longrightarrow> lg_entries l j = Some f \<Longrightarrow> unfinished e \<Longrightarrow> unfinished f
      \<Longrightarrow> qe_task_id e = qe_task_id f \<Longrightarrow> i = j"
    and "lg_reservations l t = Some r \<Longrightarrow> xr_execution_held r \<Longrightarrow>
      \<exists>i a. lg_attempts l i = Some a \<and> executing a \<and> wa_task_id a = t"
  using assms unfolding ledger_ok_def ledger_keys_def by meson+

text \<open>At most one unsettled attempt per task.\<close>

lemma unsettled_unique:
  assumes "ledger_ok l" "lg_attempts l i = Some a" "lg_attempts l j = Some b" "\<not> settled a" "\<not> settled b"
    "wa_task_id a = wa_task_id b"
  shows "i = j"
proof -
  from assms obtain r where "lg_reservations l (wa_task_id a) = Some r" "xr_attempt_id r = wa_id a"
    using ledger_okD(5) [OF assms(1,2)] by (auto simp: attempt_linked_def)
  moreover from assms obtain r' where "lg_reservations l (wa_task_id b) = Some r'" "xr_attempt_id r' = wa_id b"
    using ledger_okD(5) [OF assms(1,3)] by (auto simp: attempt_linked_def)
  ultimately show ?thesis using ledger_okD(1) [OF assms(1)] assms(2,3,6) by auto
qed

text \<open>The entry of an unsettled attempt is the only unfinished one of the task.\<close>

lemma unsettled_entry:
  assumes "ledger_ok l" "lg_attempts l i = Some a" "\<not> settled a"
    "lg_entries l j = Some f" "unfinished f" "qe_task_id f = wa_task_id a"
  shows "j = wa_entry_id a" and "qe_state f = Admitted"
proof -
  obtain e where "lg_entries l (wa_entry_id a) = Some e" "qe_task_id e = wa_task_id a" "qe_state e = Admitted"
    using ledger_okD(5) [OF assms(1,2)] assms(3) by (auto simp: attempt_linked_def)
  with assms show "j = wa_entry_id a" using ledger_okD(6) [OF assms(1)] by (metis unfinished_def)
  with assms \<open>lg_entries l (wa_entry_id a) = Some e\<close> \<open>qe_state e = Admitted\<close> show "qe_state f = Admitted" by simp
qed


lemma ledger_okI:
  assumes "ledger_keys l" and "\<And>i a. lg_attempts l i = Some a \<Longrightarrow> attempt_linked l a"
    and "\<And>i e j f. lg_entries l i = Some e \<Longrightarrow> lg_entries l j = Some f \<Longrightarrow> unfinished e \<Longrightarrow> unfinished f
      \<Longrightarrow> qe_task_id e = qe_task_id f \<Longrightarrow> i = j"
    and "\<And>t r. lg_reservations l t = Some r \<Longrightarrow> xr_execution_held r \<Longrightarrow>
      \<exists>i a. lg_attempts l i = Some a \<and> executing a \<and> wa_task_id a = t"
  shows "ledger_ok l"
  using assms unfolding ledger_ok_def by meson

lemma linked_cong:
  assumes "attempt_linked l a"
    and "\<And>e. lg_entries l (wa_entry_id a) = Some e \<Longrightarrow> qe_task_id e = wa_task_id a \<Longrightarrow>
      (\<not> settled a \<Longrightarrow> qe_state e = Admitted) \<Longrightarrow>
      \<exists>e'. lg_entries l' (wa_entry_id a) = Some e' \<and> qe_task_id e' = wa_task_id a
        \<and> (\<not> settled a \<longrightarrow> qe_state e' = Admitted)"
    and "\<not> settled a \<Longrightarrow> lg_reservations l' (wa_task_id a) = lg_reservations l (wa_task_id a)"
  shows "attempt_linked l' a"
  using assms unfolding attempt_linked_def by fastforce

lemma step_enroll:
  assumes "ledger_ok l" "lg_entries l (qe_id e) = None" "qe_state e = Queued"
    "\<And>i f. lg_entries l i = Some f \<Longrightarrow> qe_task_id f = qe_task_id e \<Longrightarrow> \<not> unfinished f"
  shows "ledger_ok (put_entry e l)"
proof (rule ledger_okI)
  show "ledger_keys (put_entry e l)"
    using assms(1) by (auto simp: ledger_ok_def ledger_keys_def)
  show "attempt_linked (put_entry e l) a" if "lg_attempts (put_entry e l) i = Some a" for i a
    by (rule linked_cong [of l]) (use that assms(2) ledger_okD(5) [OF assms(1)] in auto)
  show "i = j" if "lg_entries (put_entry e l) i = Some e1" "lg_entries (put_entry e l) j = Some f"
    "unfinished e1" "unfinished f" "qe_task_id e1 = qe_task_id f" for i j e1 f
    using that assms(4) ledger_okD(6) [OF assms(1)] by (auto split: if_splits)
qed (use ledger_okD(7) [OF assms(1)] in auto)

lemma step_edit:
  assumes "ledger_ok l" "lg_entries l i = Some e" "same_entry e e'" "qe_state e' = qe_state e"
  shows "ledger_ok (put_entry e' l)"
proof (rule ledger_okI)
  have i: "qe_id e' = i" using assms(2,3) ledger_okD(2) [OF assms(1)] by (simp add: same_entry_def)
  show "ledger_keys (put_entry e' l)"
    using assms(1) by (auto simp: ledger_ok_def ledger_keys_def)
  show "attempt_linked (put_entry e' l) a" if "lg_attempts (put_entry e' l) k = Some a" for k a
    by (rule linked_cong [of l]) (use that assms i ledger_okD(5) [OF assms(1)] in \<open>auto simp: same_entry_def\<close>)
  show "k = j" if "lg_entries (put_entry e' l) k = Some e1" "lg_entries (put_entry e' l) j = Some f"
    "unfinished e1" "unfinished f" "qe_task_id e1 = qe_task_id f" for k j e1 f
    using that assms(2-4) i ledger_okD(6) [OF assms(1)]
    by (auto simp: same_entry_def unfinished_def split: if_splits)
qed (use ledger_okD(7) [OF assms(1)] in auto)

lemma step_withdraw:
  assumes "ledger_ok l" "lg_entries l i = Some e" "qe_state e = Queued" "same_entry e e'" "qe_state e' = Withdrawn"
  shows "ledger_ok (put_entry e' (reserve_as (qe_task_id e) None l))" (is "ledger_ok ?l")
proof (rule ledger_okI)
  have i: "qe_id e' = i" using assms(2,4) ledger_okD(2) [OF assms(1)] by (simp add: same_entry_def)
  have idle: "settled a" if "lg_attempts l k = Some a" "wa_task_id a = qe_task_id e" for k a
    using unsettled_entry(2) [OF assms(1) that(1) _ assms(2)] that(2) assms(3) by (auto simp: unfinished_def)
  show "ledger_keys ?l" using assms(1) by (auto simp: ledger_ok_def ledger_keys_def)
  show "attempt_linked ?l a" if "lg_attempts ?l k = Some a" for k a
    by (rule linked_cong [of l])
      (use that assms(2-5) i idle ledger_okD(5) [OF assms(1)] in \<open>auto simp: same_entry_def\<close>)
  show "k = j" if "lg_entries ?l k = Some e1" "lg_entries ?l j = Some f"
    "unfinished e1" "unfinished f" "qe_task_id e1 = qe_task_id f" for k j e1 f
    using that assms(5) i ledger_okD(6) [OF assms(1)] by (auto simp: unfinished_def split: if_splits)
  show "\<exists>i a. lg_attempts ?l i = Some a \<and> executing a \<and> wa_task_id a = t"
    if "lg_reservations ?l t = Some r" "xr_execution_held r" for t r
    using that ledger_okD(7) [OF assms(1)] by (auto split: if_splits)
qed

lemma step_reserve:
  assumes "ledger_ok l" "lg_entries l i = Some e" "qe_state e = Queued" "same_entry e e'" "qe_state e' = Admitted"
    "lg_attempts l (wa_id a) = None" "wa_state a = Reserved" "outcome_recorded a" "wa_entry_id a = qe_id e"
    "wa_task_id a = qe_task_id e"
    and settled: "\<And>j b. lg_attempts l j = Some b \<Longrightarrow> wa_task_id b = qe_task_id e \<Longrightarrow> settled b"
    and r: "xr_task_id r = qe_task_id e" "xr_entry_id r = qe_id e" "xr_attempt_id r = wa_id a"
      "xr_execution_held r" "xr_wip_held r"
  shows "ledger_ok (put_entry e' (reserve_as (qe_task_id e) (Some r) (put_attempt a l)))" (is "ledger_ok ?l")
proof (rule ledger_okI)
  have i: "qe_id e' = i" "qe_id e = i" "qe_task_id e' = qe_task_id e"
    using assms(2,4) ledger_okD(2) [OF assms(1)] by (simp_all add: same_entry_def)
  have a: "executing a" "\<not> settled a" using assms(7) by (auto simp: executing_def settled_def)
  show "ledger_keys ?l" using assms(1) r by (auto simp: ledger_ok_def ledger_keys_def)
  show "attempt_linked ?l b" if "lg_attempts ?l k = Some b" for k b
  proof (cases "k = wa_id a")
    case True
    with that assms(5,8-10) i a r show ?thesis by (auto simp: attempt_linked_def)
  next
    case False
    with that have b: "lg_attempts l k = Some b" by simp
    show ?thesis
      by (rule linked_cong [OF ledger_okD(5) [OF assms(1) b]])
        (use assms(2-5) i settled [OF b] in auto)
  qed
  show "k = j" if "lg_entries ?l k = Some e1" "lg_entries ?l j = Some f"
    "unfinished e1" "unfinished f" "qe_task_id e1 = qe_task_id f" for k j e1 f
    using that assms(2,3) i ledger_okD(6) [OF assms(1)] by (auto simp: unfinished_def split: if_splits)
  show "\<exists>i a. lg_attempts ?l i = Some a \<and> executing a \<and> wa_task_id a = t"
    if "lg_reservations ?l t = Some x" "xr_execution_held x" for t x
  proof (cases "t = qe_task_id e")
    case True
    with a assms(10) show ?thesis by (intro exI [of _ "wa_id a"] exI [of _ a]) simp
  next
    case False
    with that obtain k b where "lg_attempts l k = Some b" "executing b" "wa_task_id b = t"
      using ledger_okD(7) [OF assms(1), of t x] by auto
    with assms(6) show ?thesis by (intro exI [of _ k] exI [of _ b]) auto
  qed
qed

text \<open>The steps that rewrite one unsettled attempt: the other attempts of its task are settled.\<close>

lemma others_settled:
  assumes "ledger_ok l" "lg_attempts l i = Some a" "\<not> settled a" "lg_attempts l k = Some b" "k \<noteq> i"
    "wa_task_id b = wa_task_id a"
  shows "settled b"
  using unsettled_unique [OF assms(1,4,2)] assms by auto

lemma step_rewrite:
  assumes ok: "ledger_ok l" and a: "lg_attempts l i = Some a" "\<not> settled a"
    and a': "same_work a a'" "outcome_recorded a'"
    and es: "\<And>k. k \<noteq> wa_entry_id a \<Longrightarrow> es k = lg_entries l k"
      "\<And>e. lg_entries l (wa_entry_id a) = Some e \<Longrightarrow> \<exists>e'. es (wa_entry_id a) = Some e' \<and> same_entry e e'
        \<and> (\<not> settled a' \<longrightarrow> qe_state e' = Admitted)"
    and rs: "\<And>t. t \<noteq> wa_task_id a \<Longrightarrow> rs t = lg_reservations l t"
      "\<And>r. rs (wa_task_id a) = Some r \<Longrightarrow> xr_task_id r = wa_task_id a \<and> xr_wip_held r
        \<and> xr_execution_held r = executing a'"
      "\<not> settled a' \<Longrightarrow> \<exists>r. rs (wa_task_id a) = Some r \<and> xr_attempt_id r = wa_id a \<and> xr_entry_id r = wa_entry_id a"
  shows "ledger_ok (l\<lparr>lg_attempts := (lg_attempts l)(i := Some a'), lg_entries := es, lg_reservations := rs\<rparr>)"
    (is "ledger_ok ?l")
proof (rule ledger_okI)
  have i: "wa_id a = i" by (rule ledger_okD(1) [OF ok a(1)])
  obtain e where e: "lg_entries l (wa_entry_id a) = Some e" "qe_task_id e = wa_task_id a" "qe_state e = Admitted"
    using ledger_okD(5) [OF ok a(1)] a(2) by (auto simp: attempt_linked_def)
  with es(2) obtain e' where e': "es (wa_entry_id a) = Some e'" "same_entry e e'"
    "\<not> settled a' \<longrightarrow> qe_state e' = Admitted" by blast
  have ids: "qe_id e' = wa_entry_id a" "qe_task_id e' = wa_task_id a"
    using e(1,2) e'(2) ledger_okD(2) [OF ok] by (auto simp: same_entry_def)
  have es_cases: "k = wa_entry_id a \<and> f = e' \<or> k \<noteq> wa_entry_id a \<and> lg_entries l k = Some f"
    if "es k = Some f" for k f
    using that es(1) [of k] e'(1) by (cases "k = wa_entry_id a") auto
  show "ledger_keys ?l"
    unfolding ledger_keys_def
  proof (intro conjI allI impI)
    show "wa_id b = k" if "lg_attempts ?l k = Some b" for k b
      using that i a'(1) ledger_okD(1) [OF ok] by (auto simp: same_work_def split: if_splits)
    show "qe_id f = k" if "lg_entries ?l k = Some f" for k f
      using es_cases [of k f] that ids ledger_okD(2) [OF ok] by auto
    show "xr_task_id r = t" "xr_wip_held r" if "lg_reservations ?l t = Some r" for t r
      using that rs(1) [of t] rs(2) [of r] ledger_okD(3,4) [OF ok, of t r]
      by (cases "t = wa_task_id a"; simp)+
  qed
  show "attempt_linked ?l b" if "lg_attempts ?l k = Some b" for k b
  proof (cases "k = i")
    case True
    with that have b: "b = a'" by simp
    have "\<exists>r. rs (wa_task_id a) = Some r \<and> xr_attempt_id r = wa_id a \<and> xr_entry_id r = wa_entry_id a
        \<and> xr_execution_held r = executing a'" if "\<not> settled a'"
      using rs(3) [OF that] rs(2) by auto
    with a' e' ids show ?thesis by (auto simp: b attempt_linked_def same_work_def)
  next
    case False
    with that have b: "lg_attempts l k = Some b" by simp
    show ?thesis
    proof (rule linked_cong [OF ledger_okD(5) [OF ok b]])
      fix f assume f: "lg_entries l (wa_entry_id b) = Some f" "qe_task_id f = wa_task_id b"
        "\<not> settled b \<Longrightarrow> qe_state f = Admitted"
      show "\<exists>e'. lg_entries ?l (wa_entry_id b) = Some e' \<and> qe_task_id e' = wa_task_id b
          \<and> (\<not> settled b \<longrightarrow> qe_state e' = Admitted)"
      proof (cases "wa_entry_id b = wa_entry_id a")
        case True
        with f e have "wa_task_id b = wa_task_id a" by simp
        with others_settled [OF ok a b False] True e'(1) ids show ?thesis by simp
      next
        case False
        with es(1) f show ?thesis by simp
      qed
    next
      assume "\<not> settled b"
      with others_settled [OF ok a b False] rs(1) show "lg_reservations ?l (wa_task_id b) = lg_reservations l (wa_task_id b)"
        by auto
    qed
  qed
  show "k = j" if "lg_entries ?l k = Some e1" "lg_entries ?l j = Some f"
    "unfinished e1" "unfinished f" "qe_task_id e1 = qe_task_id f" for k j e1 f
  proof -
    have *: "\<exists>g. lg_entries l k = Some g \<and> unfinished g \<and> qe_task_id g = qe_task_id f"
      if "es k = Some f" "unfinished f" for k f
      using es_cases [OF that(1)] that(2) e ids by (auto simp: unfinished_def)
    from that *[of k e1] *[of j f] show ?thesis using ledger_okD(6) [OF ok] by fastforce
  qed
  show "\<exists>i a. lg_attempts ?l i = Some a \<and> executing a \<and> wa_task_id a = t"
    if "lg_reservations ?l t = Some x" "xr_execution_held x" for t x
  proof (cases "t = wa_task_id a")
    case True
    with that rs(2) [of x] a'(1) show ?thesis
      by (intro exI [of _ i] exI [of _ a']) (simp add: same_work_def)
  next
    case False
    with that rs(1) obtain k b where "lg_attempts l k = Some b" "executing b" "wa_task_id b = t"
      using ledger_okD(7) [OF ok, of t x] by auto
    with a(1) False show ?thesis by (intro exI [of _ k] exI [of _ b]) auto
  qed
qed

lemma step_retry:
  assumes ok: "ledger_ok l" and "lg_attempts l i = Some a" "settled a" "lg_entries l (wa_entry_id a) = Some e"
    "qe_state e = Finished" "same_entry e e'" "qe_state e' = Queued"
    and idle: "\<And>j f. lg_entries l j = Some f \<Longrightarrow> qe_task_id f = wa_task_id a \<Longrightarrow> \<not> unfinished f"
    and r: "lg_reservations l (wa_task_id a) = None" "retained (wa_task_id a) (wa_entry_id a) (Some r)"
  shows "ledger_ok (put_entry e' (reserve_as (wa_task_id a) (Some r) l))" (is "ledger_ok ?l")
proof (rule ledger_okI)
  have e: "qe_id e' = wa_entry_id a" "qe_task_id e = wa_task_id a" "qe_task_id e' = wa_task_id a"
    using assms(4,6) ledger_okD(2) [OF ok] ledger_okD(5) [OF ok assms(2)]
    by (auto simp: same_entry_def attempt_linked_def)
  show "ledger_keys ?l" using ok r by (auto simp: ledger_ok_def ledger_keys_def retained_def)
  show "attempt_linked ?l b" if "lg_attempts ?l k = Some b" for k b
  proof (rule linked_cong [of l])
    show "attempt_linked l b" using that ledger_okD(5) [OF ok] by simp
    then have "wa_task_id b = wa_task_id a \<Longrightarrow> settled b"
      using r(1) by (auto simp: attempt_linked_def)
    then show "\<not> settled b \<Longrightarrow> lg_reservations ?l (wa_task_id b) = lg_reservations l (wa_task_id b)" by auto
  next
    fix f assume "lg_entries l (wa_entry_id b) = Some f" "qe_task_id f = wa_task_id b"
      "\<not> settled b \<Longrightarrow> qe_state f = Admitted"
    then show "\<exists>e'. lg_entries ?l (wa_entry_id b) = Some e' \<and> qe_task_id e' = wa_task_id b
        \<and> (\<not> settled b \<longrightarrow> qe_state e' = Admitted)"
      using e assms(4,5) by auto
  qed
  show "k = j" if "lg_entries ?l k = Some e1" "lg_entries ?l j = Some f"
    "unfinished e1" "unfinished f" "qe_task_id e1 = qe_task_id f" for k j e1 f
    using that e idle ledger_okD(6) [OF ok] by (auto split: if_splits)
qed (use r ledger_okD(7) [OF ok] in \<open>auto simp: retained_def split: if_splits\<close>)


theorem ledger_step_ok:
  assumes "ledger_step l l'" and ok: "ledger_ok l"
  shows "ledger_ok l'"
  using assms(1)
proof cases
  case (enroll e)
  with step_enroll [OF ok] show ?thesis by blast
next
  case (edit i e e')
  with step_edit [OF ok] show ?thesis by blast
next
  case (withdraw i e e')
  with step_withdraw [OF ok] show ?thesis by blast
next
  case (reserve i e e' a r)
  with step_reserve [OF ok] show ?thesis by blast
next
  case (work i a a')
  have a: "wa_id a = i" by (rule ledger_okD(1) [OF ok work(2)])
  then have l': "l' = l\<lparr>lg_attempts := (lg_attempts l)(i := Some a'), lg_entries := lg_entries l,
      lg_reservations := lg_reservations l\<rparr>"
    using work(1,4) by (simp add: put_attempt_def same_work_def)
  have linked: "attempt_linked l a" by (rule ledger_okD(5) [OF ok work(2)])
  with work(3) obtain e r where "lg_entries l (wa_entry_id a) = Some e" "qe_state e = Admitted"
    and r: "lg_reservations l (wa_task_id a) = Some r" "xr_attempt_id r = wa_id a" "xr_entry_id r = wa_entry_id a"
      "xr_execution_held r = executing a"
    by (auto simp: attempt_linked_def)
  then show ?thesis
    unfolding l' using work ledger_okD(3,4) [OF ok, of "wa_task_id a" r]
    by (intro step_rewrite [OF ok work(2,3)]) (auto simp: same_entry_def)
next
  case (hold i a a' r r' now)
  have a: "wa_id a = i" by (rule ledger_okD(1) [OF ok hold(2)])
  then have l': "l' = l\<lparr>lg_attempts := (lg_attempts l)(i := Some a'), lg_entries := lg_entries l,
      lg_reservations := (lg_reservations l)(wa_task_id a := Some r')\<rparr>"
    using hold(1,4) by (simp add: put_attempt_def reserve_as_def same_work_def)
  have "attempt_linked l a" by (rule ledger_okD(5) [OF ok hold(2)])
  with hold(3) obtain e where "lg_entries l (wa_entry_id a) = Some e" "qe_state e = Admitted"
    and "xr_attempt_id r = wa_id a" "xr_entry_id r = wa_entry_id a"
    using hold(7) by (auto simp: attempt_linked_def)
  then show ?thesis
    unfolding l' using hold ledger_okD(3,4) [OF ok, of "wa_task_id a" r]
    by (intro step_rewrite [OF ok hold(2,3)]) (auto simp: same_entry_def)
next
  case (settle i a a' e e' r)
  have a: "wa_id a = i" by (rule ledger_okD(1) [OF ok settle(2)])
  moreover have e: "qe_id e' = wa_entry_id a"
    using settle(7,8) ledger_okD(2) [OF ok] by (simp add: same_entry_def)
  ultimately have l': "l' = l\<lparr>lg_attempts := (lg_attempts l)(i := Some a'),
      lg_entries := (lg_entries l)(wa_entry_id a := Some e'),
      lg_reservations := (lg_reservations l)(wa_task_id a := r)\<rparr>"
    using settle(1,4) by (simp add: put_attempt_def put_entry_def reserve_as_def same_work_def)
  have "\<not> executing a'" using settle(5) executing_unsettled by blast
  then show ?thesis
    unfolding l' using settle by (intro step_rewrite [OF ok settle(2,3)]) (auto simp: retained_def)
next
  case (retry i a e e' r)
  with step_retry [OF ok] show ?thesis by blast
qed

text \<open>A settled attempt is never changed again.\<close>

lemma ledger_step_settled:
  assumes "ledger_step l l'" and ok: "ledger_ok l" and a: "lg_attempts l k = Some a" "settled a"
  shows "lg_attempts l' k = Some a"
  using assms(1)
proof cases
  case (reserve i e e' b r)
  with a show ?thesis by auto
next
  case (work i b b')
  with a ledger_okD(1) [OF ok work(2)] show ?thesis by (auto simp: same_work_def)
next
  case (hold i b b' r r' now)
  with a ledger_okD(1) [OF ok hold(2)] show ?thesis by (auto simp: same_work_def)
next
  case (settle i b b' e e' r)
  with a ledger_okD(1) [OF ok settle(2)] show ?thesis by (auto simp: same_work_def)
qed (use a in simp_all)

interpretation ledger: settled_records ledger_step ledger_ok lg_attempts settled
  by unfold_locales (blast intro: ledger_step_ok ledger_step_settled)+

end
