(* ===== verification/Work.thy ===== *)
theory Work
  imports Ledger
begin

text \<open>
  Managed work refines the ledger: every operation of \<^verbatim>\<open>attempt-ops.ts\<close>,
  \<^verbatim>\<open>attempt-recovery-ops.ts\<close>, \<^verbatim>\<open>attempt-correction-ops.ts\<close> and \<^verbatim>\<open>queue-ops.ts\<close>, run on a
  database whose rows satisfy the invariant, moves the three tables of managed work along a
  sequence of ledger steps. The invariants of the running system follow.
\<close>

section \<open>The ledger of a database\<close>

definition ledger_of :: "db \<Rightarrow> ledger" where
  "ledger_of s = \<lparr>lg_attempts = (\<lambda>i. by_key wa_id i (db_work_attempts s)),
     lg_entries = (\<lambda>i. by_key qe_id i (db_queue_entries s)),
     lg_reservations = (\<lambda>t. by_key xr_task_id t (db_execution_reservations s))\<rparr>"

definition keys_distinct :: "db \<Rightarrow> bool" where
  "keys_distinct s = (distinct (map wa_id (db_work_attempts s)) \<and> distinct (map qe_id (db_queue_entries s))
     \<and> distinct (map xr_task_id (db_execution_reservations s)))"

definition work_rows :: "db \<Rightarrow> work_attempt list \<times> queue_entry list \<times> execution_reservation list" where
  "work_rows s = (db_work_attempts s, db_queue_entries s, db_execution_reservations s)"

definition work_ok :: "db \<Rightarrow> bool" where
  "work_ok s = (keys_distinct s \<and> ledger_ok (ledger_of s))"

lemma work_rows_cong:
  assumes "work_rows t = work_rows s"
  shows "ledger_of t = ledger_of s" and "keys_distinct t = keys_distinct s" and "work_ok t = work_ok s"
  using assms by (simp_all add: work_rows_def ledger_of_def keys_distinct_def work_ok_def)

lemma ledger_sel_of:
  "lg_attempts (ledger_of s) i = by_key wa_id i (db_work_attempts s)"
  "lg_entries (ledger_of s) i = by_key qe_id i (db_queue_entries s)"
  "lg_reservations (ledger_of s) t = by_key xr_task_id t (db_execution_reservations s)"
  by (simp_all add: ledger_of_def)

text \<open>Rows of the tables and entries of the maps.\<close>

lemma ledger_rows:
  assumes "keys_distinct s"
  shows "a \<in> set (db_work_attempts s) \<longleftrightarrow> lg_attempts (ledger_of s) (wa_id a) = Some a"
    and "e \<in> set (db_queue_entries s) \<longleftrightarrow> lg_entries (ledger_of s) (qe_id e) = Some e"
    and "r \<in> set (db_execution_reservations s) \<longleftrightarrow> lg_reservations (ledger_of s) (xr_task_id r) = Some r"
  using assms by (auto simp: keys_distinct_def ledger_sel_of by_key_unique dest: by_key_Some)

section \<open>Refinement\<close>

definition refines_at :: "db \<Rightarrow> 'a ptx \<Rightarrow> bool" where
  "refines_at s m \<longleftrightarrow> (\<forall>x s'. m s = Inr (x, s') \<longrightarrow>
     keys_distinct s' \<and> ledger_step\<^sup>*\<^sup>* (ledger_of s) (ledger_of s'))"

definition refines :: "'a ptx \<Rightarrow> bool" where
  "refines m \<longleftrightarrow> (\<forall>s. work_ok s \<longrightarrow> refines_at s m)"

lemma refines_at_ok:
  assumes "refines_at s m" "work_ok s" "m s = Inr (x, s')"
  shows "work_ok s'" and "ledger_step\<^sup>*\<^sup>* (ledger_of s) (ledger_of s')"
  using assms ledger.inv_steps [of "ledger_of s" "ledger_of s'"]
  by (auto simp: refines_at_def work_ok_def)

lemma refines_at_frame:
  assumes "tx_frame work_rows m" "work_ok s"
  shows "refines_at s m"
  unfolding refines_at_def
proof (intro allI impI)
  fix x s' assume "m s = Inr (x, s')"
  with assms(1) have "work_rows s' = work_rows s" by (rule tx_frameD)
  with work_rows_cong [of s' s] assms(2) show "keys_distinct s' \<and> ledger_step\<^sup>*\<^sup>* (ledger_of s) (ledger_of s')"
    by (simp add: work_ok_def)
qed

lemma refines_at_bind:
  assumes "work_ok s" "refines_at s m" and "\<And>x s1. m s = Inr (x, s1) \<Longrightarrow> work_ok s1 \<Longrightarrow> refines_at s1 (k x)"
  shows "refines_at s (tx_bind m k)"
  unfolding refines_at_def
proof (intro allI impI)
  fix y s' assume "tx_bind m k s = Inr (y, s')"
  then obtain x s1 where m: "m s = Inr (x, s1)" and k: "k x s1 = Inr (y, s')" by (auto simp: tx_bind_ok)
  from refines_at_ok [OF assms(2,1) m] assms(3) [OF m] k
  show "keys_distinct s' \<and> ledger_step\<^sup>*\<^sup>* (ledger_of s) (ledger_of s')"
    unfolding refines_at_def by (meson rtranclp_trans)
qed

lemma refines_at_seq:
  assumes "work_ok s" "refines_at s m" and "\<And>x s1. m s = Inr (x, s1) \<Longrightarrow> work_ok s1 \<Longrightarrow> refines_at s1 n"
  shows "refines_at s (tx_seq m n)"
  unfolding tx_seq_def using assms by (rule refines_at_bind)

text \<open>A step that only reads: the state is kept.\<close>

abbreviation read_only :: "'a ptx \<Rightarrow> bool" where
  "read_only m \<equiv> tx_frame (\<lambda>s. s) m"

lemma refines_at_read:
  assumes "work_ok s" "read_only m" and "\<And>x. m s = Inr (x, s) \<Longrightarrow> refines_at s (k x)"
  shows "refines_at s (tx_bind m k)"
  unfolding refines_at_def tx_bind_ok
proof (intro allI impI, elim exE conjE)
  fix y s' x s1 assume m: "m s = Inr (x, s1)" "k x s1 = Inr (y, s')"
  from tx_frameD [OF assms(2) m(1)] have "s1 = s" .
  with m assms(3) show "keys_distinct s' \<and> ledger_step\<^sup>*\<^sup>* (ledger_of s) (ledger_of s')"
    unfolding refines_at_def by blast
qed

lemma refines_at_read_seq:
  assumes "work_ok s" "read_only m" and "m s = Inr ((), s) \<Longrightarrow> refines_at s n"
  shows "refines_at s (tx_seq m n)"
  unfolding tx_seq_def using assms by (intro refines_at_read) auto

text \<open>A run whose end state is one ledger step away.\<close>

lemma refines_at_step:
  assumes "\<And>x s'. m s = Inr (x, s') \<Longrightarrow> keys_distinct s' \<and> ledger_step (ledger_of s) (ledger_of s')"
  shows "refines_at s m"
  using assms unfolding refines_at_def by blast

lemma refinesD: "refines m \<Longrightarrow> work_ok s \<Longrightarrow> refines_at s m"
  by (simp add: refines_def)

section \<open>Operations that leave managed work alone\<close>

lemma frame_writes [tx_wp]:
  "(\<And>s. p (f s) = p s) \<Longrightarrow> tx_frame p (tx_write f)"
  by (simp add: tx_valid_def)

lemma work_rows_simps [simp]:
  "work_rows (s\<lparr>db_gates := g, db_journal_seq := n, db_journal := js\<rparr>) = work_rows s"
  "work_rows (s\<lparr>db_journal_seq := n, db_journal := js\<rparr>) = work_rows s"
  "work_rows (s\<lparr>db_claims := cs, db_fences := fs\<rparr>) = work_rows s"
  "work_rows (s\<lparr>db_work_questions := qs\<rparr>) = work_rows s"
  "work_rows (s\<lparr>db_queue_operation_receipts := rs\<rparr>) = work_rows s"
  "work_rows (s\<lparr>db_attempt_corrections := ks\<rparr>) = work_rows s"
  "work_rows (s\<lparr>db_do_idempotency := is\<rparr>) = work_rows s"
  "work_rows (set_expiry c t s) = work_rows s"
  "work_rows (bump_fence c s) = work_rows s"
  "work_rows (drop_claim c s) = work_rows s"
  "work_rows (add_claim k s) = work_rows s"
  "work_rows (set_entity i d t s) = work_rows s"
  "work_rows (put_policy po s) = work_rows s"
  by (simp_all add: work_rows_def set_expiry_def bump_fence_def drop_claim_def add_claim_def
      set_entity_def put_policy_def)

lemma frame_bind: "tx_frame p m \<Longrightarrow> (\<And>x. tx_frame p (k x)) \<Longrightarrow> tx_frame p (tx_bind m k)"
  by (intro allI tx_inv_bind) blast+

lemma frame_seq: "tx_frame p m \<Longrightarrow> tx_frame p n \<Longrightarrow> tx_frame p (tx_seq m n)"
  by (intro allI tx_inv_seq) blast+

lemma frame_event [tx_wp]: "tx_frame work_rows (event h kind res orig fs fence)"
  unfolding event_def by (intro allI tx_inv_appendJournal) simp

lemma frame_attempt_event [tx_wp]: "tx_frame work_rows (attempt_event h kind a orig fs fence)"
  unfolding attempt_event_def by (rule frame_event)

lemma frame_revoke [tx_wp]: "tx_frame work_rows (revoke a)"
  unfolding revoke_def by (intro tx_wp) simp

lemma frame_acquire [tx_wp]: "tx_frame work_rows (acquireInTransaction h res orig mode ttl md now)"
  unfolding acquireInTransaction_def fresh_claim_def
  by (intro allI tx_wp tx_inv_write; simp)

lemma frame_invalidate [tx_wp]: "tx_frame work_rows (invalidateQuestions h i why orig now)"
  unfolding invalidateQuestions_def saveQuestion_def event_def Let_def
  by (intro allI tx_wp tx_inv_write; simp)

lemma frame_update [tx_wp]: "tx_frame work_rows (updateInTransaction h i data fence orig tags now internal)"
  unfolding updateInTransaction_def Let_def
  by (intro allI tx_wp tx_inv_write update_authority_frame tx_inv_replace_tags;
      simp add: put_search_doc_def work_rows_def set_entity_def)

lemma frame_transition [tx_wp]: "tx_frame work_rows (transitionTask h a orig t now)"
proof -
  have "tx_inv (\<lambda>s. work_rows s = v) (updateInTransaction h i data fence orig tags now internal)"
    for v i data fence tags internal using frame_update by blast
  then show ?thesis unfolding transitionTask_def by (intro allI tx_wp)
qed

lemma read_get_attempt [tx_wp]: "read_only (get_attempt i)"
  unfolding get_attempt_def by (intro allI tx_wp)

lemma read_get_entry [tx_wp]: "read_only (get_entry i)"
  unfolding get_entry_def by (intro allI tx_wp)

lemma read_view [tx_wp]: "read_only (attempts_view i orig now)"
  using read_get_attempt [of i] unfolding attempts_view_def by (intro allI tx_wp; blast)

lemma read_authority [tx_wp]: "read_only (assertAuthority a input orig now)"
  unfolding assertAuthority_def by (intro allI tx_wp)

lemma read_only_frame: "read_only m \<Longrightarrow> tx_frame p m"
  unfolding tx_valid_def by blast


section \<open>Effects of the primitives\<close>

text \<open>The row of an attempt as the operations hold it is the current one.\<close>

definition tracked :: "db \<Rightarrow> work_attempt \<Rightarrow> bool" where
  "tracked s a = (lg_attempts (ledger_of s) (wa_id a) = Some a)"

lemma tracked_cong: "work_rows t = work_rows s \<Longrightarrow> tracked t a = tracked s a"
  using work_rows_cong(1) [of t s] by (simp add: tracked_def)

lemma get_attempt_tracked:
  assumes "get_attempt i s = Inr (a, s')" shows "tracked s a" and "wa_id a = i" and "s' = s"
proof -
  from assms have "by_key wa_id i (db_work_attempts s) = Some a" "s' = s"
    unfolding get_attempt_def attempts_get_def by (auto simp: tx_run split: option.split_asm)
  then show "tracked s a" "wa_id a = i" "s' = s"
    by (auto simp: tracked_def ledger_sel_of dest: by_key_Some)
qed

lemma get_entry_ledger:
  assumes "get_entry i s = Inr (e, s')" shows "lg_entries (ledger_of s) i = Some e" and "qe_id e = i" and "s' = s"
proof -
  from assms have "by_key qe_id i (db_queue_entries s) = Some e" "s' = s"
    unfolding get_entry_def getEntry_def by (auto simp: tx_run split: option.split_asm)
  then show "lg_entries (ledger_of s) i = Some e" "qe_id e = i" "s' = s"
    by (auto simp: ledger_sel_of dest: by_key_Some)
qed

text \<open>An update by key is an update of the map.\<close>

lemma by_key_update:
  assumes "by_key k y t = Some r" and "\<And>x. k (f x) = k x"
  shows "(\<lambda>x. by_key k x (rows_set (\<lambda>r. k r = y) f t)) = (\<lambda>x. by_key k x t)(y := Some (f r))"
proof
  fix x
  have "by_key k x (rows_set (\<lambda>r. k r = y) f t) = map_option (\<lambda>r. if k r = y then f r else r) (by_key k x t)"
    by (rule by_key_set) (rule assms(2))
  also have "\<dots> = ((\<lambda>x. by_key k x t)(y := Some (f r))) x"
    using assms(1) by (cases "by_key k x t") (auto dest: by_key_Some)
  finally show "by_key k x (rows_set (\<lambda>r. k r = y) f t) = ((\<lambda>x. by_key k x t)(y := Some (f r))) x" .
qed

lemma change_effect:
  assumes "change a f now s = Inr (b, s')" and "tracked s a" and id: "\<And>x. wa_id (f x) = wa_id x"
  shows "b = (f a)\<lparr>wa_revision := wa_revision a + 1, wa_updated_at := now\<rparr>"
    and "ledger_of s' = put_attempt b (ledger_of s)" and "tracked s' b"
    and "keys_distinct s' = keys_distinct s" and "\<exists>t. s' = s\<lparr>db_work_attempts := t\<rparr>"
proof -
  let ?g = "\<lambda>r. (f r)\<lparr>wa_revision := wa_revision a + 1, wa_updated_at := now\<rparr>"
  let ?t = "rows_set (\<lambda>r. wa_id r = wa_id a) ?g (db_work_attempts s)"
  from assms(1) have get: "get_attempt (wa_id a) (s\<lparr>db_work_attempts := ?t\<rparr>) = Inr (b, s')"
    by (simp add: change_def tx_run)
  note got = get_attempt_tracked [OF get]
  then have s': "s' = s\<lparr>db_work_attempts := ?t\<rparr>" by simp
  have a: "by_key wa_id (wa_id a) (db_work_attempts s) = Some a"
    using assms(2) by (simp add: tracked_def ledger_sel_of)
  have upd: "(\<lambda>x. by_key wa_id x ?t) = (\<lambda>x. by_key wa_id x (db_work_attempts s))(wa_id a := Some (?g a))"
    by (rule by_key_update [OF a]) (simp add: id)
  from got(1,2) upd [THEN fun_cong, of "wa_id a"] show b: "b = ?g a"
    by (simp add: tracked_def ledger_sel_of)
  show "tracked s' b" using got(1) by (simp add: s')
  have "wa_id b = wa_id a" using got(2) .
  with upd b show "ledger_of s' = put_attempt b (ledger_of s)"
    by (simp add: s' ledger_of_def put_attempt_def)
  show "keys_distinct s' = keys_distinct s" by (simp add: s' keys_distinct_def map_rows_set id)
  show "\<exists>t. s' = s\<lparr>db_work_attempts := t\<rparr>" using s' by blast
qed

lemma attempts_of_entry_cong: "work_rows t = work_rows s \<Longrightarrow> attempts_of_entry t i = attempts_of_entry s i"
  by (simp add: attempts_of_entry_def work_rows_def)

lemma change_count:
  assumes "change a f now s = Inr (b, s')" and "\<And>x. wa_entry_id (f x) = wa_entry_id x"
  shows "attempts_of_entry s' i = attempts_of_entry s i"
proof -
  let ?t = "rows_set (\<lambda>r. wa_id r = wa_id a) (\<lambda>r. (f r)\<lparr>wa_revision := wa_revision a + 1, wa_updated_at := now\<rparr>)
      (db_work_attempts s)"
  from assms(1) have "get_attempt (wa_id a) (s\<lparr>db_work_attempts := ?t\<rparr>) = Inr (b, s')"
    by (simp add: change_def tx_run)
  from get_attempt_tracked(3) [OF this] show ?thesis
    by (simp add: attempts_of_entry_def rows_set_def filter_map comp_def assms(2) if_distrib [of wa_entry_id] cong: if_cong)
qed

lemma set_entry_effect:
  assumes "lg_entries (ledger_of s) i = Some e" and "\<And>x. qe_id (f x) = qe_id x"
  shows "ledger_of (set_entry i f s) = put_entry (f e) (ledger_of s)"
    and "keys_distinct (set_entry i f s) = keys_distinct s"
proof -
  from assms(1) have e: "by_key qe_id i (db_queue_entries s) = Some e" by (simp add: ledger_sel_of)
  from by_key_Some [OF this] assms(2) have "qe_id (f e) = i" by simp
  with by_key_update [OF e, of f] assms(2) show "ledger_of (set_entry i f s) = put_entry (f e) (ledger_of s)"
    by (simp add: set_entry_def ledger_of_def put_entry_def)
  show "keys_distinct (set_entry i f s) = keys_distinct s"
    by (simp add: set_entry_def keys_distinct_def map_rows_set assms(2))
qed

lemma delete_reservation_effect:
  "ledger_of (delete_reservation t s) = reserve_as t None (ledger_of s)"
  "keys_distinct s \<Longrightarrow> keys_distinct (delete_reservation t s)"
  by (auto simp: delete_reservation_def ledger_of_def reserve_as_def by_key_delete_key keys_distinct_def
      distinct_map_delete fun_eq_iff)

lemma hold_effect:
  assumes "lg_reservations (ledger_of s) t = Some r"
  shows "ledger_of (hold_execution t b now s)
      = reserve_as t (Some (r\<lparr>xr_execution_held := b, xr_updated_at := now\<rparr>)) (ledger_of s)"
    and "keys_distinct (hold_execution t b now s) = keys_distinct s"
proof -
  from assms have "by_key xr_task_id t (db_execution_reservations s) = Some r" by (simp add: ledger_sel_of)
  from by_key_update [OF this, of "\<lambda>r. r\<lparr>xr_execution_held := b, xr_updated_at := now\<rparr>"]
  show "ledger_of (hold_execution t b now s)
      = reserve_as t (Some (r\<lparr>xr_execution_held := b, xr_updated_at := now\<rparr>)) (ledger_of s)"
    by (simp add: hold_execution_def ledger_of_def reserve_as_def)
  show "keys_distinct (hold_execution t b now s) = keys_distinct s"
    by (simp add: hold_execution_def keys_distinct_def map_rows_set)
qed


lemma ledger_twice [simp]:
  "qe_id f = qe_id e \<Longrightarrow> put_entry f (put_entry e l) = put_entry f l"
  "reserve_as t r (reserve_as t q l) = reserve_as t r l"
  "put_entry e (reserve_as t r l) = reserve_as t r (put_entry e l)"
  "put_attempt a (put_entry e l) = put_entry e (put_attempt a l)"
  "put_attempt a (reserve_as t r l) = reserve_as t r (put_attempt a l)"
  by (simp_all add: put_entry_def reserve_as_def put_attempt_def)

lemma insert_reservation_effect:
  assumes "rows_insert xr_task_id r (db_execution_reservations s) = Some t"
  shows "ledger_of (s\<lparr>db_execution_reservations := t\<rparr>) = reserve_as (xr_task_id r) (Some r) (ledger_of s)"
    and "keys_distinct s \<Longrightarrow> keys_distinct (s\<lparr>db_execution_reservations := t\<rparr>)"
    and "lg_reservations (ledger_of s) (xr_task_id r) = None"
proof -
  from assms have r: "xr_task_id r \<notin> xr_task_id ` set (db_execution_reservations s)"
    and t: "t = db_execution_reservations s @ [r]" by (auto simp: rows_insert_Some)
  then show "lg_reservations (ledger_of s) (xr_task_id r) = None" by (simp add: ledger_sel_of by_key_None)
  then show "ledger_of (s\<lparr>db_execution_reservations := t\<rparr>) = reserve_as (xr_task_id r) (Some r) (ledger_of s)"
    by (auto simp: t ledger_of_def reserve_as_def by_key_append by_key_Cons fun_eq_iff split: option.split)
  show "keys_distinct s \<Longrightarrow> keys_distinct (s\<lparr>db_execution_reservations := t\<rparr>)"
    using r by (simp add: t keys_distinct_def)
qed

lemma event_effect: "event h kind res orig fs fence s = Inr (u, s') \<Longrightarrow> work_rows s' = work_rows s"
  by (rule tx_frameD [OF frame_event])

lemma schedule_retry_effect:
  assumes "scheduleRetryInTransaction h a orig now at why s = Inr (u, s')"
    and e: "lg_entries (ledger_of s) (wa_entry_id a) = Some e" and "keys_distinct s"
  obtains e' r where "same_entry e e'" "qe_state e' = Queued" "retained (wa_task_id a) (wa_entry_id a) (Some r)"
    "lg_reservations (ledger_of s) (wa_task_id a) = None"
    "ledger_of s' = put_entry e' (reserve_as (wa_task_id a) (Some r) (ledger_of s))" "keys_distinct s'"
    "e' = e\<lparr>qe_state := Queued, qe_available_at := at, qe_revision := qe_revision e + 1, qe_updated_at := now\<rparr>"
proof -
  let ?f = "\<lambda>e. e\<lparr>qe_state := Queued, qe_available_at := at, qe_revision := qe_revision e + 1, qe_updated_at := now\<rparr>"
  let ?r = "\<lparr>xr_task_id = wa_task_id a, xr_entry_id = wa_entry_id a, xr_attempt_id = wa_id a,
    xr_execution_held = False, xr_wip_held = True, xr_updated_at = now\<rparr>"
  let ?s = "set_entry (wa_entry_id a) ?f s"
  from assms(1) obtain t v where t: "rows_insert xr_task_id ?r (db_execution_reservations ?s) = Some t"
    and ev: "event h ''attempt.retried'' (wa_resource a) orig [(''attempt_id'', JStr (wa_id a)),
      (''entry_id'', JStr (wa_entry_id a)), (''available_at'', JNum at), (''reason'', JStr why)]
      (Some (wa_fence a)) (?s\<lparr>db_execution_reservations := t\<rparr>) = Inr (v, s')"
    unfolding scheduleRetryInTransaction_def by (auto simp: tx_run split: option.splits)
  note entry = set_entry_effect [OF e, of ?f]
  note ins = insert_reservation_effect [OF t]
  note same = work_rows_cong [OF event_effect [OF ev]]
  show thesis
  proof (rule that [of "?f e" ?r])
    show "ledger_of s' = put_entry (?f e) (reserve_as (wa_task_id a) (Some ?r) (ledger_of s))"
      using same(1) ins(1) entry(1) by simp
    show "keys_distinct s'" using same(2) ins(2) entry(2) assms(3) by simp
    show "lg_reservations (ledger_of s) (wa_task_id a) = None" using ins(3) entry(1) by simp
  qed (simp_all add: same_entry_def retained_def)
qed

definition keeps_work :: "(work_attempt \<Rightarrow> work_attempt) \<Rightarrow> bool" where
  "keeps_work f \<longleftrightarrow> (\<forall>x. same_work x (f x) \<and> wa_state (f x) = wa_state x \<and> wa_outcome (f x) = wa_outcome x
     \<and> wa_finished_at (f x) = wa_finished_at x \<and> wa_fence (f x) = wa_fence x)"

lemma keeps_work_simps [simp]:
  "keeps_work (\<lambda>r. r)" "keeps_work (\<lambda>r. r\<lparr>wa_session := se\<rparr>)" "keeps_work (\<lambda>r. r\<lparr>wa_revisions := rs\<rparr>)"
  "keeps_work (\<lambda>r. r\<lparr>wa_session := se, wa_revisions := rs\<rparr>)"
  "keeps_work (\<lambda>r. r\<lparr>wa_session := se, wa_checkpoint := c, wa_revisions := rs\<rparr>)"
  by (simp_all add: keeps_work_def same_work_def)

lemma refence_effect:
  assumes "refence h a owner now actor extra s = Inr (b, s')" and "tracked s a" and "keeps_work extra"
  shows "ledger_of s' = put_attempt b (ledger_of s)" and "tracked s' b" and "same_work a b"
    and "wa_state b = Running" and "wa_outcome b = wa_outcome a" and "wa_finished_at b = wa_finished_at a"
    and "keys_distinct s' = keys_distinct s"
proof -
  let ?f = "\<lambda>grant r. extra (r\<lparr>wa_state := Running, wa_fence := aq_fence grant,
       wa_lease_expires_at := Some (aq_expires_at grant), wa_principal_id := or_principalId owner,
       wa_participant_id := or_participantId owner\<rparr>)"
  from assms(1) obtain u s1 u2 s2 grant s3 where
      1: "invalidateQuestions h (wa_id a) ''execution authority replaced'' actor now s = Inr (u, s1)"
    and 2: "revoke a s1 = Inr (u2, s2)"
    and 3: "acquireInTransaction h (wa_resource a) owner Exclusive (lease_of s2) [(''attempt_id'', JStr (wa_id a))] now s2
      = Inr (grant, s3)"
    and c: "change a (?f grant) now s3 = Inr (b, s')"
    unfolding refence_def by (auto simp: tx_run)
  have rows: "work_rows s3 = work_rows s"
    using tx_frameD [OF frame_invalidate 1] tx_frameD [OF frame_revoke 2] tx_frameD [OF frame_acquire 3] by simp
  have id: "wa_id (?f grant x) = wa_id x" for x using assms(3) by (simp add: keeps_work_def same_work_def)
  note eff = change_effect [OF c _ id]
  have t: "tracked s3 a" using tracked_cong [OF rows] assms(2) by simp
  note eff = eff [OF t]
  show "ledger_of s' = put_attempt b (ledger_of s)" "keys_distinct s' = keys_distinct s"
    using eff(2,4) work_rows_cong [OF rows] by simp_all
  show "tracked s' b" by (rule eff(3))
  show "same_work a b" "wa_state b = Running" "wa_outcome b = wa_outcome a" "wa_finished_at b = wa_finished_at a"
    using assms(3) unfolding eff(1) by (simp_all add: keeps_work_def same_work_def)
qed

lemma finish_effect:
  assumes "finishInTransaction h a o' orig now allowRetry actor s = Inr (u, s')" and "tracked s a"
    and e: "lg_entries (ledger_of s) (wa_entry_id a) = Some e" and "keys_distinct s"
  obtains b e' r where "same_work a b" "settled b" "wa_outcome b = Some o'" "wa_finished_at b = Some now"
    "same_entry e e'" "qe_state e' = Finished \<and> r = None \<or>
      qe_state e' = Queued \<and> r \<noteq> None \<and> allowRetry \<and> retained (wa_task_id a) (wa_entry_id a) r"
    "ledger_of s' = put_entry e' (reserve_as (wa_task_id a) r (put_attempt b (ledger_of s)))" "keys_distinct s'"
    "tracked s' b" "wa_lease_expires_at b = None"
    "if retries_failure allowRetry o' a e (attempts_of_entry s (wa_entry_id a))
     then qe_state e' = Queued \<and> qe_available_at e' = now
       + retry_backoff (qe_retry_policy e) (attempts_of_entry s (wa_entry_id a)) else qe_state e' = Finished"
proof -
  let ?f = "\<lambda>e. e\<lparr>qe_state := Finished, qe_revision := qe_revision e + 1, qe_updated_at := now\<rparr>"
  let ?g = "\<lambda>s2 r. r\<lparr>wa_state := Terminal, wa_outcome := Some o', wa_finished_at := Some now,
        wa_lease_expires_at := None, wa_revisions := Some (captureRevisions a R_finished (governingRevisions now s2))\<rparr>"
  let ?last = "\<lambda>s5. case by_key qe_id (wa_entry_id a) (db_queue_entries s5) of None \<Rightarrow> tx_return ()
      | Some x \<Rightarrow> tx_when (retries_failure allowRetry o' a x (attempts_of_entry s5 (wa_entry_id a)))
          (scheduleRetryInTransaction h a actor now (now + retry_backoff (qe_retry_policy x)
            (attempts_of_entry s5 (wa_entry_id a))) ''Configured retry-safe failure'')"
  from assms(1) obtain s1 s2 b s3 s4 fs s5 where
      1: "transitionTask h a orig (T_outcome (oc_status o')) now s = Inr ((), s1)"
    and 2: "invalidateQuestions h (wa_id a) ''attempt finished'' actor now s1 = Inr ((), s2)"
    and c: "change a (?g s2) now s2 = Inr (b, s3)"
    and 3: "revoke a s3 = Inr ((), s4)"
    and 4: "event h ''attempt.finished'' (wa_resource a) actor fs (Some (wa_fence a))
        (set_entry (wa_entry_id a) ?f (delete_reservation (wa_task_id a) s4)) = Inr ((), s5)"
    and 5: "?last s5 s5 = Inr (u, s')"
    unfolding finishInTransaction_def by (auto simp: tx_bind_ok tx_seq_ok)
  have rows: "work_rows s2 = work_rows s"
    using tx_frameD [OF frame_transition 1] tx_frameD [OF frame_invalidate 2] by simp
  have t: "tracked s2 a" using tracked_cong [OF rows] assms(2) by simp
  note eff = change_effect [OF c t, simplified]
  have r4: "work_rows s4 = work_rows s3" by (rule tx_frameD [OF frame_revoke 3])
  let ?s4 = "delete_reservation (wa_task_id a) s4"
  have l4: "ledger_of ?s4 = reserve_as (wa_task_id a) None (put_attempt b (ledger_of s))"
    using delete_reservation_effect(1) work_rows_cong(1) [OF r4] work_rows_cong(1) [OF rows] eff(2) by simp
  have k4: "keys_distinct ?s4"
    using delete_reservation_effect(2) work_rows_cong(2) [OF r4] work_rows_cong(2) [OF rows] eff(4) assms(4) by simp
  have e4: "lg_entries (ledger_of ?s4) (wa_entry_id a) = Some e" by (simp add: l4 e)
  note fin = set_entry_effect [OF e4, of ?f, simplified]
  note same5 = work_rows_cong [OF event_effect [OF 4]]
  have l5: "ledger_of s5 = put_entry (?f e) (reserve_as (wa_task_id a) None (put_attempt b (ledger_of s)))"
    using same5(1) fin(1) l4 by simp
  have k5: "keys_distinct s5" using same5(2) fin(2) k4 by simp
  have qe: "qe_id e = wa_entry_id a" using e by (auto simp: ledger_sel_of dest: by_key_Some)
  have b: "same_work a b" "settled b" "wa_outcome b = Some o'" "wa_finished_at b = Some now" "wa_id b = wa_id a"
    by (simp_all add: eff(1) same_work_def settled_def)
  let ?n = "attempts_of_entry s (wa_entry_id a)"
  have "attempts_of_entry s5 (wa_entry_id a) = attempts_of_entry ?s4 (wa_entry_id a)"
    using attempts_of_entry_cong [OF event_effect [OF 4]] by (simp add: attempts_of_entry_def set_entry_def)
  also have "\<dots> = ?n"
    using attempts_of_entry_cong [OF r4] change_count [OF c] attempts_of_entry_cong [OF rows]
    by (simp add: attempts_of_entry_def delete_reservation_def)
  finally have n: "attempts_of_entry s5 (wa_entry_id a) = ?n" .
  from l5 qe have e5: "lg_entries (ledger_of s5) (wa_entry_id a) = Some (?f e)" by simp
  then have "by_key qe_id (wa_entry_id a) (db_queue_entries s5) = Some (?f e)" by (simp add: ledger_sel_of)
  with 5 n consider "s' = s5" "\<not> retries_failure allowRetry o' a e ?n"
    | why where "retries_failure allowRetry o' a e ?n"
      "scheduleRetryInTransaction h a actor now (now + retry_backoff (qe_retry_policy e) ?n) why s5 = Inr (u, s')"
    by (auto simp: tx_when_ok retries_failure_def split: if_split_asm)
  then show thesis
  proof cases
    case 1
    with l5 k5 b show thesis by (intro that [of b "?f e" None]) (simp_all add: same_entry_def tracked_def eff(1))
  next
    case 2
    from schedule_retry_effect [OF 2(2) e5 k5] obtain e' r where r: "same_entry (?f e) e'" "qe_state e' = Queued"
      "retained (wa_task_id a) (wa_entry_id a) (Some r)"
      "ledger_of s' = put_entry e' (reserve_as (wa_task_id a) (Some r) (ledger_of s5))" "keys_distinct s'"
      "e' = (?f e)\<lparr>qe_state := Queued, qe_available_at := now + retry_backoff (qe_retry_policy e) ?n,
        qe_revision := qe_revision (?f e) + 1, qe_updated_at := now\<rparr>" .
    with 2(1) l5 b show thesis
      by (intro that [of b e' "Some r"]) (simp_all add: same_entry_def tracked_def eff(1) retries_failure_def)
  qed
qed


section \<open>Finishing and expiry\<close>

text \<open>What the invariant gives about a tracked attempt.\<close>

lemma tracked_linked:
  assumes "work_ok s" "tracked s a"
  obtains e where "lg_entries (ledger_of s) (wa_entry_id a) = Some e" "qe_task_id e = wa_task_id a"
  using ledger_okD(5) [of "ledger_of s" "wa_id a" a] assms
  by (auto simp: tracked_def work_ok_def attempt_linked_def)

lemma tracked_unsettled:
  assumes "work_ok s" "tracked s a" "\<not> settled a"
  obtains e r where "lg_entries (ledger_of s) (wa_entry_id a) = Some e" "qe_state e = Admitted"
    "lg_reservations (ledger_of s) (wa_task_id a) = Some r" "xr_entry_id r = wa_entry_id a"
    "xr_task_id r = wa_task_id a" "xr_wip_held r" "xr_execution_held r = executing a"
    "wa_outcome a = None" "wa_finished_at a = None"
proof -
  have ok: "ledger_ok (ledger_of s)" using assms(1) by (simp add: work_ok_def)
  have "attempt_linked (ledger_of s) a"
    using ledger_okD(5) [OF ok] assms(2) by (auto simp: tracked_def)
  with assms(3) obtain e r where "lg_entries (ledger_of s) (wa_entry_id a) = Some e" "qe_state e = Admitted"
    and r: "lg_reservations (ledger_of s) (wa_task_id a) = Some r" "xr_entry_id r = wa_entry_id a"
      "xr_execution_held r = executing a" and "outcome_recorded a"
    unfolding attempt_linked_def by auto
  with ledger_okD(3,4) [OF ok r(1)] assms(3) show thesis
    by (intro that [of e r]) (auto simp: outcome_recorded_def settled_def)
qed

lemma settle_step:
  assumes "tracked s a" "\<not> settled a" "same_work a b" "settled b" "wa_outcome b = Some o'" "wa_finished_at b = Some t"
    "lg_entries (ledger_of s) (wa_entry_id a) = Some e" "same_entry e e'"
    "qe_state e' = Finished \<and> r = None \<or> qe_state e' = Queued \<and> retained (wa_task_id a) (wa_entry_id a) r"
    "l' = put_entry e' (reserve_as (wa_task_id a) r (put_attempt b (ledger_of s)))"
  shows "ledger_step (ledger_of s) l'"
  unfolding assms(10) using assms(1-9)
  by (intro ledger_step.settle [of _ "wa_id a"]) (auto simp: tracked_def outcome_recorded_def settled_def)

lemma finish_steps:
  assumes "finishInTransaction h b o' orig now allowRetry actor s1 = Inr (u, s')" and "work_ok s" "tracked s a"
    and "\<not> settled a" and b: "ledger_of s1 = put_attempt b (ledger_of s)" "tracked s1 b" "same_work a b"
    and "keys_distinct s1"
  obtains c e' r where "ledger_step (ledger_of s) (ledger_of s')" "keys_distinct s'" "wa_id c = wa_id a"
    "ledger_of s' = put_entry e' (reserve_as (wa_task_id a) r (put_attempt c (ledger_of s)))" "settled c"
    "same_work a c" "tracked s' c" "wa_outcome c = Some o'"
    "qe_state e' = Finished \<and> r = None \<or> qe_state e' = Queued \<and> r \<noteq> None \<and> allowRetry"
proof -
  have ids: "wa_id b = wa_id a" "wa_entry_id b = wa_entry_id a" "wa_task_id b = wa_task_id a"
    using b(3) by (simp_all add: same_work_def)
  from tracked_linked [OF assms(2,3)] obtain e where e: "lg_entries (ledger_of s) (wa_entry_id a) = Some e" by blast
  with ids have "lg_entries (ledger_of s1) (wa_entry_id b) = Some e" by (simp add: b(1))
  from finish_effect [OF assms(1) b(2) this assms(8)] obtain c e' r where
    c: "same_work b c" "settled c" "wa_outcome c = Some o'" "wa_finished_at c = Some now" "same_entry e e'"
      "qe_state e' = Finished \<and> r = None \<or>
        qe_state e' = Queued \<and> r \<noteq> None \<and> allowRetry \<and> retained (wa_task_id b) (wa_entry_id b) r"
      "ledger_of s' = put_entry e' (reserve_as (wa_task_id b) r (put_attempt c (ledger_of s1)))"
      "keys_distinct s'" "tracked s' c" by metis
  have work: "same_work a c" "wa_id c = wa_id a" using c(1) b(3) by (simp_all add: same_work_def)
  have l': "ledger_of s' = put_entry e' (reserve_as (wa_task_id a) r (put_attempt c (ledger_of s)))"
    using c(7) work ids by (simp add: b(1) put_attempt_twice)
  have "ledger_step (ledger_of s) (ledger_of s')"
    by (rule settle_step [OF assms(3,4) work(1) c(2-4) e c(5) _ l']) (use c(6) ids in auto)
  with c l' work show thesis by (intro that [of c e' r]) auto
qed

lemma abandon_steps:
  assumes "abandon_reservation a now s = Inr (u, s')" and "work_ok s" "tracked s a" and "\<not> settled a"
  obtains c e' r where "ledger_step (ledger_of s) (ledger_of s')" "keys_distinct s'" "wa_id c = wa_id a"
    "ledger_of s' = put_entry e' (reserve_as (wa_task_id a) r (put_attempt c (ledger_of s)))"
    "settled c" "qe_state e' = Queued"
proof -
  obtain e r where e: "lg_entries (ledger_of s) (wa_entry_id a) = Some e"
    and r: "lg_reservations (ledger_of s) (wa_task_id a) = Some r" "xr_entry_id r = wa_entry_id a"
      "xr_task_id r = wa_task_id a" "xr_wip_held r"
    using tracked_unsettled [OF assms(2-4)] by metis
  let ?f = "\<lambda>e. e\<lparr>qe_state := Queued, qe_revision := qe_revision e + 1, qe_updated_at := now\<rparr>"
  let ?g = "\<lambda>r. r\<lparr>wa_state := Terminal, wa_lease_expires_at := None, wa_finished_at := Some now,
      wa_revisions := Some (captureRevisions a R_finished (governingRevisions now s)),
      wa_outcome := Some (stopped_outcome O_abandoned
        ''Reservation expired before acceptance; execution was never authorized'')\<rparr>"
  have hold: "hold_execution (wa_task_id a) False now = (\<lambda>s. s\<lparr>db_execution_reservations :=
      rows_set (\<lambda>r. xr_task_id r = wa_task_id a) (\<lambda>r. r\<lparr>xr_execution_held := False, xr_updated_at := now\<rparr>)
        (db_execution_reservations s)\<rparr>)"
    by (rule ext) (simp add: hold_execution_def)
  from assms(1) obtain b s1 keeps where c: "change a ?g now s = Inr (b, s1)"
    and s': "s' = set_entry (wa_entry_id a) ?f ((if keeps then hold_execution (wa_task_id a) False now
        else delete_reservation (wa_task_id a)) s1)" (is "_ = set_entry _ _ ?s2")
    unfolding abandon_reservation_def hold by (auto simp: tx_run)
  note eff = change_effect [OF c assms(3), simplified]
  have r1: "lg_reservations (ledger_of s1) (wa_task_id a) = Some r" using r(1) by (simp add: eff(2))
  obtain r' where l2: "ledger_of ?s2 = reserve_as (wa_task_id a) r' (put_attempt b (ledger_of s))"
    and r': "retained (wa_task_id a) (wa_entry_id a) r'"
    using hold_effect(1) [OF r1, of False now] delete_reservation_effect(1) [of "wa_task_id a" s1] r eff(2)
    by (cases keeps) (auto simp: retained_def)
  have k2: "keys_distinct ?s2"
    using hold_effect(2) [OF r1, of False now] delete_reservation_effect(2) [of s1 "wa_task_id a"] eff(4) assms(2)
    by (simp add: work_ok_def)
  have "lg_entries (ledger_of ?s2) (wa_entry_id a) = Some e" by (simp only: l2) (simp add: e)
  note fin = set_entry_effect [OF this, of ?f, simplified]
  have l': "ledger_of s' = put_entry (?f e) (reserve_as (wa_task_id a) r' (put_attempt b (ledger_of s)))"
    unfolding s' using fin(1) l2 by simp
  have b: "same_work a b" "settled b" "wa_finished_at b = Some now" "wa_id b = wa_id a"
    "wa_outcome b = Some (stopped_outcome O_abandoned ''Reservation expired before acceptance; execution was never authorized'')"
    by (simp_all add: eff(1) same_work_def settled_def)
  have "ledger_step (ledger_of s) (ledger_of s')"
    by (rule settle_step [OF assms(3,4) b(1,2,5,3) e _ _ l']) (use r' in \<open>simp_all add: same_entry_def\<close>)
  moreover have "keys_distinct s'" unfolding s' using fin(2) k2 by simp
  ultimately show thesis using b l' by (intro that [of b "?f e" r']) auto
qed


lemma working_executing: "working (wa_state a) \<Longrightarrow> executing a"
  by (auto simp: working_def executing_def)

text \<open>One ledger step for a change that keeps an unsettled attempt executing or not.\<close>

lemma change_step:
  assumes "change a f now s = Inr (b, s')" "work_ok s" "tracked s a" "\<not> settled a" and id: "\<And>x. wa_id (f x) = wa_id x"
    and "same_work a b" "\<not> settled b" "executing b = executing a"
    and "wa_outcome b = None" "wa_finished_at b = None"
  shows "ledger_step (ledger_of s) (ledger_of s')" "keys_distinct s'"
proof -
  note eff = change_effect [OF assms(1,3) id]
  show "keys_distinct s'" using eff(4) assms(2) by (simp add: work_ok_def)
  show "ledger_step (ledger_of s) (ledger_of s')"
    unfolding eff(2) using assms(3-10)
    by (intro ledger_step.work [of _ "wa_id a" a]) (auto simp: tracked_def outcome_recorded_def settled_def)
qed

text \<open>One row of the attempts is replaced.\<close>

definition attempt_replaced :: "(work_attempt \<Rightarrow> bool) \<Rightarrow> work_attempt \<Rightarrow> db \<Rightarrow> db \<Rightarrow> bool" where
  "attempt_replaced P a s s' \<longleftrightarrow> (\<exists>b. wa_id b = wa_id a \<and> P b
     \<and> lg_attempts (ledger_of s') = (lg_attempts (ledger_of s))(wa_id a := Some b))"

lemma attempt_replacedI:
  "ledger_of s' = put_entry e (reserve_as t r (put_attempt b (ledger_of s))) \<Longrightarrow> wa_id b = wa_id a \<Longrightarrow> P b
     \<Longrightarrow> attempt_replaced P a s s'"
  "ledger_of s' = put_attempt b (ledger_of s) \<Longrightarrow> wa_id b = wa_id a \<Longrightarrow> P b \<Longrightarrow> attempt_replaced P a s s'"
  unfolding attempt_replaced_def by (intro exI [of _ b]; simp)+

lemma attempt_replacedD:
  "attempt_replaced P a s s' \<Longrightarrow> wa_id c \<noteq> wa_id a \<Longrightarrow> tracked s' c = tracked s c"
  "attempt_replaced P a s s' \<Longrightarrow> tracked s' c \<Longrightarrow> wa_id c = wa_id a \<Longrightarrow> P c"
  by (auto simp: attempt_replaced_def tracked_def)

lemma settled_idle: "settled c \<Longrightarrow> \<not> working (wa_state c)"
  by (auto simp: settled_def working_def)

lemma expire_attempt_steps:
  assumes "expire_attempt h now a s = Inr (u, s')" and ok: "work_ok s" and "tracked s a" "working (wa_state a)"
  shows "ledger_step (ledger_of s) (ledger_of s') \<and> keys_distinct s'
    \<and> attempt_replaced (\<lambda>b. \<not> working (wa_state b)) a s s'"
proof -
  let ?o = "expiry_origin a"
  have live: "\<not> settled a" "executing a" using working_executing [OF assms(4)] executing_unsettled by auto
  from assms(1) obtain s1 where rev: "revoke a s = Inr ((), s1)"
    and rest: "(if wa_accepted_at a = None \<and> wa_cancellation_requested a
      then tx_bind (refence h a ?o now ?o (\<lambda>r. r)) (\<lambda>a'. finishInTransaction h a' (stopped_outcome O_cancelled
           ''Reservation expired after cancellation, before execution was authorized'') ?o now False ?o)
      else tx_seq (if wa_accepted_at a = None then abandon_reservation a now
         else tx_bind (change a (\<lambda>r. r\<lparr>wa_state := Uncertain, wa_lease_expires_at := None\<rparr>) now)
           (\<lambda>_. tx_return ()))
         (event h (if wa_accepted_at a = None then ''attempt.expired'' else ''attempt.uncertain'') (wa_resource a) ?o
         [(''attempt_id'', JStr (wa_id a))] (Some (wa_fence a)))) s1 = Inr (u, s')"
    unfolding expire_attempt_def Let_def by (auto simp: tx_seq_ok)
  have rows: "work_rows s1 = work_rows s" by (rule tx_frameD [OF frame_revoke rev])
  note same = work_rows_cong [OF rows]
  have ok1: "work_ok s1" and t1: "tracked s1 a" using same(3) ok tracked_cong [OF rows] assms(3) by simp_all
  have "ledger_step (ledger_of s1) (ledger_of s') \<and> keys_distinct s'
    \<and> attempt_replaced (\<lambda>b. \<not> working (wa_state b)) a s1 s'"
  proof (cases "wa_accepted_at a = None \<and> wa_cancellation_requested a")
    case True
    with rest obtain b s2 where "refence h a ?o now ?o (\<lambda>r. r) s1 = Inr (b, s2)"
      and fin: "finishInTransaction h b (stopped_outcome O_cancelled
           ''Reservation expired after cancellation, before execution was authorized'') ?o now False ?o s2 = Inr (u, s')"
      by (auto simp: tx_bind_ok)
    note ref = refence_effect [OF this(1) t1 keeps_work_simps(1)]
    have "keys_distinct s2" using ref(7) ok1 by (simp add: work_ok_def)
    from finish_steps [OF fin ok1 t1 live(1) ref(1-3) this] show ?thesis
      by (metis attempt_replacedI(1) settled_idle)
  next
    case False
    with rest obtain s2 where body: "(if wa_accepted_at a = None then abandon_reservation a now
         else tx_bind (change a (\<lambda>r. r\<lparr>wa_state := Uncertain, wa_lease_expires_at := None\<rparr>) now)
           (\<lambda>_. tx_return ())) s1 = Inr ((), s2)"
      and ev: "work_rows s' = work_rows s2"
      by (auto simp: tx_seq_ok dest: event_effect)
    note same2 = work_rows_cong [OF ev]
    have "ledger_step (ledger_of s1) (ledger_of s2) \<and> keys_distinct s2
      \<and> attempt_replaced (\<lambda>b. \<not> working (wa_state b)) a s1 s2"
    proof (cases "wa_accepted_at a = None")
      case True
      with body have "abandon_reservation a now s1 = Inr ((), s2)" by simp
      from abandon_steps [OF this ok1 t1 live(1)] show ?thesis
        by (metis attempt_replacedI(1) settled_idle)
    next
      case False
      with body obtain b where c: "change a (\<lambda>r. r\<lparr>wa_state := Uncertain, wa_lease_expires_at := None\<rparr>) now s1 = Inr (b, s2)"
        by (auto simp: tx_bind_ok)
      note eff = change_effect [OF c t1, simplified]
      have "wa_outcome a = None" "wa_finished_at a = None" using tracked_unsettled [OF ok1 t1 live(1)] by metis+
      then have b: "same_work a b" "\<not> settled b" "executing b = executing a" "wa_outcome b = None" "wa_finished_at b = None"
        using live(2) by (simp_all add: eff(1) same_work_def settled_def executing_def)
      have "ledger_step (ledger_of s1) (ledger_of s2)" "keys_distinct s2"
        by (rule change_step [OF c ok1 t1 live(1) _ b]; simp)+
      moreover have "attempt_replaced (\<lambda>b. \<not> working (wa_state b)) a s1 s2"
        by (rule attempt_replacedI(2) [OF eff(2)]) (use b(1) in \<open>simp_all add: same_work_def eff(1) working_def\<close>)
      ultimately show ?thesis by blast
    qed
    with same2 show ?thesis by (simp add: attempt_replaced_def)
  qed
  with same(1) show ?thesis by (simp add: attempt_replaced_def)
qed

lemma expire_loop:
  assumes "tx_for as (expire_attempt h now) s = Inr (u, s')" and "work_ok s" and "distinct (map wa_id as)"
    and "\<And>a. a \<in> set as \<Longrightarrow> tracked s a \<and> working (wa_state a)"
  shows "keys_distinct s' \<and> ledger_step\<^sup>*\<^sup>* (ledger_of s) (ledger_of s')
    \<and> (\<forall>c. tracked s' c \<longrightarrow> (if wa_id c \<in> wa_id ` set as then \<not> working (wa_state c) else tracked s c))"
  using assms
proof (induction as arbitrary: s)
  case Nil
  then show ?case by (auto simp: work_ok_def)
next
  case (Cons a as)
  then obtain s1 where first: "expire_attempt h now a s = Inr ((), s1)"
    and rest: "tx_for as (expire_attempt h now) s1 = Inr (u, s')" by (auto simp: tx_seq_ok)
  have a: "tracked s a" "working (wa_state a)" using Cons.prems(4) by simp_all
  have steps: "ledger_step (ledger_of s) (ledger_of s1)" "keys_distinct s1"
    and repl: "attempt_replaced (\<lambda>b. \<not> working (wa_state b)) a s s1"
    using expire_attempt_steps [OF first Cons.prems(2) a] by blast+
  have ok1: "work_ok s1"
    using steps Cons.prems(2) ledger_step_ok unfolding work_ok_def by blast
  have fresh: "wa_id b \<noteq> wa_id a" if "b \<in> set as" for b
    using Cons.prems(3) that by (auto simp: image_iff)
  have "tracked s1 b \<and> working (wa_state b)" if "b \<in> set as" for b
    using Cons.prems(4) [of b] that attempt_replacedD(1) [OF repl fresh [OF that]] by simp
  from Cons.IH [OF rest ok1 _ this] Cons.prems(3)
  have IH: "keys_distinct s'" "ledger_step\<^sup>*\<^sup>* (ledger_of s1) (ledger_of s')"
    "\<And>c. tracked s' c \<Longrightarrow> if wa_id c \<in> wa_id ` set as then \<not> working (wa_state c) else tracked s1 c"
    by auto
  have "if wa_id c \<in> wa_id ` set (a # as) then \<not> working (wa_state c) else tracked s c" if "tracked s' c" for c
    using IH(3) [OF that] attempt_replacedD(1) [OF repl, of c] attempt_replacedD(2) [OF repl, of c]
    by (auto split: if_splits)
  with IH(1,2) steps(1) show ?case by (meson converse_rtranclp_into_rtranclp)
qed

lemma refines_expire: "refines (expireInTransaction h now)"
  unfolding refines_def refines_at_def
proof (intro allI impI)
  fix s x s' assume ok: "work_ok s" and run: "expireInTransaction h now s = Inr (x, s')"
  let ?as = "filter (lease_expired now) (db_work_attempts s)"
  from run have "tx_for ?as (expire_attempt h now) s = Inr ((), s')"
    unfolding expireInTransaction_def by (auto simp: tx_run)
  moreover have "distinct (map wa_id ?as)"
    using ok by (simp add: work_ok_def keys_distinct_def distinct_map_filter)
  moreover have "tracked s a \<and> working (wa_state a)" if "a \<in> set ?as" for a
    using that ok ledger_rows(1) [of s a] by (auto simp: work_ok_def tracked_def lease_expired_def)
  ultimately show "keys_distinct s' \<and> ledger_step\<^sup>*\<^sup>* (ledger_of s) (ledger_of s')"
    using expire_loop [OF _ ok] by blast
qed


section \<open>The operations of the execution owner\<close>

text \<open>Leading steps that leave the three tables alone.\<close>

lemma skip_bind:
  assumes "work_ok s" "tracked s a" "tx_frame work_rows m"
    and "\<And>x s1. m s = Inr (x, s1) \<Longrightarrow> work_ok s1 \<Longrightarrow> tracked s1 a \<Longrightarrow> refines_at s1 (k x)"
  shows "refines_at s (tx_bind m k)"
proof (rule refines_at_bind [OF assms(1)])
  show "refines_at s m" by (rule refines_at_frame [OF assms(3,1)])
next
  fix x s1 assume m: "m s = Inr (x, s1)"
  have "work_rows s1 = work_rows s" by (rule tx_frameD [OF assms(3) m])
  with work_rows_cong(3) tracked_cong assms(1,2) show "refines_at s1 (k x)"
    by (intro assms(4) [OF m]) blast+
qed

lemma skip_seq:
  assumes "work_ok s" "tracked s a" "tx_frame work_rows m"
    and "\<And>x s1. m s = Inr (x, s1) \<Longrightarrow> work_ok s1 \<Longrightarrow> tracked s1 a \<Longrightarrow> refines_at s1 n"
  shows "refines_at s (tx_seq m n)"
  unfolding tx_seq_def using assms by (rule skip_bind)

lemma frame_simple [tx_wp]:
  "tx_frame p (tx_guard c e)" "tx_frame p (tx_lift r)" "tx_frame p (tx_read f)" "tx_frame p (tx_return x)"
  "tx_frame p (tx_throw e)"
  by (intro allI tx_wp)+

lemmas read_frames = read_only_frame [OF read_authority] read_only_frame [OF read_get_entry]
  read_only_frame [OF read_get_attempt] read_only_frame [OF read_view]

lemmas skip_frames = frame_simple read_frames frame_transition frame_invalidate frame_revoke frame_event
  frame_attempt_event frame_acquire

text \<open>A change of an unsettled attempt, followed by events.\<close>

lemma refines_change:
  assumes "work_ok s" "tracked s a" "\<not> settled a" and "\<And>x. wa_id (f x) = wa_id x"
    and "same_work a (f a)" "\<not> settled (f a)" "executing (f a) = executing a"
    and "wa_outcome (f a) = wa_outcome a" "wa_finished_at (f a) = wa_finished_at a"
    and "\<And>b. tx_frame work_rows (k b)"
  shows "refines_at s (tx_bind (change a f now) k)"
proof (rule refines_at_bind [OF assms(1)])
  show "refines_at s (change a f now)"
  proof (rule refines_at_step)
    fix b s' assume c: "change a f now s = Inr (b, s')"
    have "wa_outcome a = None" "wa_finished_at a = None" using tracked_unsettled [OF assms(1-3)] by metis+
    with change_effect(1) [OF c assms(2,4)] assms(5-9)
    have "same_work a b" "\<not> settled b" "executing b = executing a" "wa_outcome b = None" "wa_finished_at b = None"
      by (simp_all add: same_work_def settled_def executing_def)
    from change_step [OF c assms(1-4) this] show "keys_distinct s' \<and> ledger_step (ledger_of s) (ledger_of s')" by blast
  qed
qed (rule refines_at_frame [OF assms(10)])

lemma refines_finish:
  assumes "work_ok s" "tracked s a" "\<not> settled a"
  shows "refines_at s (finishInTransaction h a o' orig now allowRetry actor)"
proof (rule refines_at_step)
  fix u s' assume run: "finishInTransaction h a o' orig now allowRetry actor s = Inr (u, s')"
  have "put_attempt a (ledger_of s) = ledger_of s"
    using assms(2) by (simp add: put_attempt_def tracked_def fun_upd_idem)
  then have *: "ledger_of s = put_attempt a (ledger_of s)" by simp
  from finish_steps [OF run assms * assms(2)] assms(1)
  show "keys_distinct s' \<and> ledger_step (ledger_of s) (ledger_of s')"
    by (metis same_work_def work_ok_def)
qed

lemma refines_refence_finish:
  assumes "work_ok s" "tracked s a" "\<not> settled a" "keeps_work extra" and "\<And>b. tx_frame work_rows (k b)"
  shows "refines_at s (tx_bind (refence h a owner now actor extra)
    (\<lambda>b. tx_seq (finishInTransaction h b o' orig now allowRetry actor') (k b)))"
  unfolding refines_at_def tx_bind_ok tx_seq_ok
proof (intro allI impI, elim exE conjE)
  fix x s' b s1 u s2 assume ref: "refence h a owner now actor extra s = Inr (b, s1)"
    and fin: "finishInTransaction h b o' orig now allowRetry actor' s1 = Inr (u, s2)" and k: "k b s2 = Inr (x, s')"
  note eff = refence_effect [OF ref assms(2,4)]
  have "keys_distinct s1" using eff(7) assms(1) by (simp add: work_ok_def)
  from finish_steps [OF fin assms(1-3) eff(1-3) this]
  have "ledger_step (ledger_of s) (ledger_of s2) \<and> keys_distinct s2" by metis
  moreover have "work_rows s' = work_rows s2" by (rule tx_frameD [OF assms(5) k])
  ultimately show "keys_distinct s' \<and> ledger_step\<^sup>*\<^sup>* (ledger_of s) (ledger_of s')"
    using work_rows_cong by (metis r_into_rtranclp)
qed

lemma tx_seq_return [simp]: "tx_seq m (tx_return ()) = m"
  unfolding tx_seq_def tx_bind_def tx_return_def by (rule ext) (auto split: sum.splits)

lemma settled_simps [simp]:
  "wa_state a \<noteq> Terminal \<Longrightarrow> \<not> settled a" "same_work a a"
  by (simp_all add: settled_def same_work_def)

lemmas skip_guard = skip_seq [OF _ _ frame_simple(1)]
lemmas skip_lift = skip_seq [OF _ _ frame_simple(2)]
lemmas skip_read = skip_bind [OF _ _ frame_simple(3)]
lemmas skip_fetch = skip_bind [OF _ _ frame_simple(2)]
lemmas skip_authority = skip_seq [OF _ _ read_frames(1)]
lemmas skip_entry = skip_bind [OF _ _ read_frames(2)]
lemmas skip_transition = skip_seq [OF _ _ frame_transition]
lemmas skip_invalidate = skip_seq [OF _ _ frame_invalidate]
lemmas skip_revoke = skip_seq [OF _ _ frame_revoke]
lemmas skip_event = skip_seq [OF _ _ frame_event]

lemmas row_simps = settled_def executing_def same_work_def skip_frames

lemma refines_accept:
  assumes "work_ok s" "tracked s a"
  shows "refines_at s (accept_run h input orig now a)"
  unfolding accept_run_def using assms
  by (intro skip_authority [where a = a] skip_guard [where a = a] skip_transition [where a = a]
      skip_read [where a = a] refines_change) (auto simp: row_simps)

lemma refines_started:
  assumes "work_ok s" "tracked s a"
  shows "refines_at s (started_run h input orig now a)"
  unfolding started_run_def using assms
  by (intro skip_authority [where a = a] skip_guard [where a = a] refines_change) (auto simp: row_simps)

lemma assertAuthority_working: "assertAuthority a input orig now s = Inr (u, s') \<Longrightarrow> working (wa_state a)"
  by (auto simp: assertAuthority_def tx_run grantValid_def split: if_split_asm)

lemma assertAuthority_state: "assertAuthority a input orig now s = Inr (u, s') \<Longrightarrow> s' = s"
  by (rule tx_frameD [OF read_authority])

lemma frame_set_expiry: "tx_frame work_rows (tx_write (set_expiry r t))"
  by (intro frame_writes) simp

lemma refines_heartbeat:
  assumes "work_ok s" "tracked s a"
  shows "refines_at s (heartbeat_run h input orig now a)"
  unfolding heartbeat_run_def using assms
  by (intro skip_authority [where a = a] skip_read [where a = a] skip_seq [where a = a, OF _ _ frame_set_expiry]
      refines_change) (auto simp: row_simps working_def dest!: assertAuthority_working)

lemma refines_finish_run:
  assumes ok: "work_ok s" and t: "tracked s a"
  shows "refines_at s (finish_run h input orig now a)"
proof (cases "wa_state a = Terminal")
  case True
  then show ?thesis using refines_at_frame [OF skip_frames(4) ok] by (simp add: finish_run_def)
next
  case live: False
  let ?fin = "\<lambda>b. finishInTransaction h b (cm_outcome input) orig now True orig"
  let ?stopped = "wa_state a = Suspended \<or> wa_state a = Resume_pending"
  show ?thesis
    unfolding refines_at_def
  proof (intro allI impI)
    fix x s' assume run: "finish_run h input orig now a s = Inr (x, s')"
    have "\<exists>b s1. (if ?stopped then refence h a orig now orig (\<lambda>r. r) s = Inr (b, s1) else b = a \<and> s1 = s)
        \<and> ?fin b s1 = Inr (x, s')"
    proof (cases ?stopped)
      case True
      with run show ?thesis by (auto simp: finish_run_def Let_def tx_bind_ok tx_seq_ok)
    next
      case False
      with live run obtain b s1 where "tx_seq (assertAuthority a input orig now) (tx_return a) s = Inr (b, s1)"
        "?fin b s1 = Inr (x, s')"
        by (auto simp: finish_run_def Let_def tx_bind_ok tx_seq_ok simp del: tx_seq_return)
      with False show ?thesis by (auto simp: tx_seq_ok dest!: assertAuthority_state)
    qed
    then obtain b s1 where b: "if ?stopped then refence h a orig now orig (\<lambda>r. r) s = Inr (b, s1) else b = a \<and> s1 = s"
      and fin: "?fin b s1 = Inr (x, s')" by blast
    show "keys_distinct s' \<and> ledger_step\<^sup>*\<^sup>* (ledger_of s) (ledger_of s')"
    proof (cases ?stopped)
      case True
      with b fin have "tx_bind (refence h a orig now orig (\<lambda>r. r)) (\<lambda>b. tx_seq (?fin b) (tx_return ())) s = Inr (x, s')"
        by (simp add: tx_bind_ok)
      moreover have "refines_at s (tx_bind (refence h a orig now orig (\<lambda>r. r)) (\<lambda>b. tx_seq (?fin b) (tx_return ())))"
        by (rule refines_refence_finish [OF ok t]) (use live in \<open>simp_all add: skip_frames\<close>)
      ultimately show ?thesis unfolding refines_at_def by blast
    next
      case False
      with b fin refines_finish [OF ok t] live show ?thesis unfolding refines_at_def by auto
    qed
  qed
qed

section \<open>Commands and operations\<close>

lemma refines_run_command:
  assumes "work_ok s" "refines_at s run"
  shows "refines_at s (run_command operation orig key input run entry_link attempt_link now)"
  unfolding refines_at_def
proof (intro allI impI)
  fix x s' assume "run_command operation orig key input run entry_link attempt_link now s = Inr (x, s')"
  then consider "s' = s" | s1 t where "run s = Inr (x, s1)" "s' = s1\<lparr>db_queue_operation_receipts := t\<rparr>"
    unfolding run_command_def run_receipted_def
    by (auto simp: tx_run split: option.split_asm if_split_asm)
  then show "keys_distinct s' \<and> ledger_step\<^sup>*\<^sup>* (ledger_of s) (ledger_of s')"
  proof cases
    case 1
    with assms(1) show ?thesis by (simp add: work_ok_def)
  next
    case 2
    with work_rows_cong [of s' s1] assms(2) show ?thesis by (auto simp: refines_at_def)
  qed
qed

text \<open>Operations of the running system.\<close>

definition op_refines :: "'a op \<Rightarrow> bool" where
  "op_refines f \<longleftrightarrow> (\<forall>s s' r. work_ok s \<longrightarrow> f s = (s', r) \<longrightarrow>
     work_ok s' \<and> ledger_step\<^sup>*\<^sup>* (ledger_of s) (ledger_of s'))"

lemma op_refinesI:
  assumes "\<And>s s' r. work_ok s \<Longrightarrow> f s = (s', r) \<Longrightarrow> work_ok s' \<and> ledger_step\<^sup>*\<^sup>* (ledger_of s) (ledger_of s')"
  shows "op_refines f"
  using assms unfolding op_refines_def by blast

lemma op_refines_commit:
  assumes "refines m" shows "op_refines (commit m)"
proof (rule op_refinesI)
  fix s s' and r :: "error + 'a" assume ok: "work_ok s" and run: "commit m s = (s', r)"
  show "work_ok s' \<and> ledger_step\<^sup>*\<^sup>* (ledger_of s) (ledger_of s')"
  proof (cases r)
    case (Inl e)
    with run ok show ?thesis by (simp add: commit_error)
  next
    case (Inr a)
    with run have "m s = Inr (a, s')" by (simp add: commit_ok)
    with refines_at_ok [OF refinesD [OF assms ok] ok] show ?thesis by blast
  qed
qed

lemma op_refines_after_expiry:
  assumes "refines m" shows "op_refines (after_expiry h now m)"
proof (rule op_refinesI)
  fix s s' and r :: "error + 'a" assume ok: "work_ok s" and run: "after_expiry h now m s = (s', r)"
  obtain s1 x where e: "expire h now s = (s1, x)" by fastforce
  have "op_refines (expire h now)"
    unfolding expire_def by (rule op_refines_commit [OF refines_expire])
  with e ok have 1: "work_ok s1" "ledger_step\<^sup>*\<^sup>* (ledger_of s) (ledger_of s1)" unfolding op_refines_def by blast+
  show "work_ok s' \<and> ledger_step\<^sup>*\<^sup>* (ledger_of s) (ledger_of s')"
  proof (cases x)
    case (Inl er)
    with run e 1 show ?thesis by (simp add: after_expiry_def)
  next
    case (Inr n)
    with run e have "commit m s1 = (s', r)" by (simp add: after_expiry_def)
    with op_refines_commit [OF assms] 1 show ?thesis unfolding op_refines_def by (meson rtranclp_trans)
  qed
qed

lemma op_refines_if:
  "(\<And>s. \<not> b \<Longrightarrow> f s = g s) \<Longrightarrow> op_refines g \<Longrightarrow> (\<And>s. b \<Longrightarrow> fst (f s) = s) \<Longrightarrow> op_refines f"
  unfolding op_refines_def by (cases b) (auto simp: prod_eq_iff)

lemma refines_get:
  assumes "\<And>a s. work_ok s \<Longrightarrow> tracked s a \<Longrightarrow> wa_id a = i \<Longrightarrow> refines_at s (k a)"
  shows "refines (tx_bind (get_attempt i) k)"
  unfolding refines_def
proof (intro allI impI)
  fix s assume ok: "work_ok s"
  show "refines_at s (tx_bind (get_attempt i) k)"
  proof (rule refines_at_read [OF ok read_get_attempt])
    fix a assume "get_attempt i s = Inr (a, s)"
    from get_attempt_tracked [OF this] show "refines_at s (k a)" by (intro assms ok)
  qed
qed

lemma refines_then_frame:
  assumes "work_ok s" "refines_at s m" "\<And>x. tx_frame work_rows (k x)"
  shows "refines_at s (tx_bind m k)"
  by (rule refines_at_bind [OF assms(1,2)]) (rule refines_at_frame [OF assms(3)])

lemma refines_execute:
  assumes "\<And>a s. work_ok s \<Longrightarrow> tracked s a \<Longrightarrow> wa_id a = i \<Longrightarrow> refines_at s (run a)"
  shows "op_refines (execute h i operation key input fence orig run now)"
  unfolding execute_def execute_tx_def
proof (intro op_refines_after_expiry refines_get)
  fix a s assume a: "work_ok s" "tracked s a" "wa_id a = i"
  show "refines_at s (tx_seq (tx_lift (assertOwner a orig None))
   (tx_bind (run_command (operation @ '':'' @ i) orig key input
       (tx_seq (run a) (tx_return [(''attempt_id'', JStr i)])) (Some (wa_entry_id a)) (Some i) now) (\<lambda>_.
    tx_bind (attempts_view i orig now) (\<lambda>current.
    tx_return (current\<lparr>vw_grant_valid := vw_grant_valid current \<and> wa_fence (vw_attempt current) = fence\<rparr>)))))"
  proof (rule skip_lift [OF a(1,2)], rule refines_then_frame, assumption)
    fix s1 assume s1: "work_ok s1" "tracked s1 a"
    show "refines_at s1 (run_command (operation @ '':'' @ i) orig key input
       (tx_seq (run a) (tx_return [(''attempt_id'', JStr i)])) (Some (wa_entry_id a)) (Some i) now)"
      unfolding tx_seq_def using s1 a(3) assms
      by (intro refines_run_command refines_then_frame skip_frames)
  qed (intro frame_bind skip_frames)
qed


section \<open>Recovery\<close>

lemma refines_recovery:
  assumes "\<And>a s. work_ok s \<Longrightarrow> tracked s a \<Longrightarrow> wa_id a = i \<Longrightarrow> refines_at s (run a)"
    and "\<And>a. tx_frame work_rows (authorize a)"
  shows "op_refines (execute_recovery h i operation input request orig run now authorize)"
  unfolding execute_recovery_def recovery_tx_def
proof (intro op_refines_after_expiry refines_get)
  fix a s assume a: "work_ok s" "tracked s a" "wa_id a = i"
  show "refines_at s (tx_seq (authorize a)
   (tx_bind (run_command (operation @ '':'' @ i) orig (cm_idempotency_key input) request
       (tx_seq (tx_when (\<not> (operation = ''reconcile'' \<and> wa_state a = Terminal))
          (tx_seq (tx_lift (checkRevision (wa_revision a) (cm_expected_revision input))) (run a)))
        (tx_return [(''attempt_id'', JStr i)])) (Some (wa_entry_id a)) (Some i) now) (\<lambda>_.
    attempts_view i orig now)))"
  proof (rule skip_seq [OF a(1,2) assms(2)], rule refines_then_frame, assumption)
    fix s1 assume s1: "work_ok s1" "tracked s1 a"
    have "refines_at s1 (tx_seq (tx_lift (checkRevision (wa_revision a) (cm_expected_revision input))) (run a))"
      using s1 a(3) assms(1) by (intro skip_lift [where a = a]) auto
    then have "refines_at s1 (tx_when c (tx_seq (tx_lift (checkRevision (wa_revision a) (cm_expected_revision input))) (run a)))" for c
      by (cases c) (simp_all add: tx_when_def refines_at_frame [OF frame_simple(4) s1(1)])
    then show "refines_at s1 (run_command (operation @ '':'' @ i) orig (cm_idempotency_key input) request
       (tx_seq (tx_when (\<not> (operation = ''reconcile'' \<and> wa_state a = Terminal))
          (tx_seq (tx_lift (checkRevision (wa_revision a) (cm_expected_revision input))) (run a)))
        (tx_return [(''attempt_id'', JStr i)])) (Some (wa_entry_id a)) (Some i) now)"
      unfolding tx_seq_def [of "tx_when _ _"] using s1
      by (intro refines_run_command refines_then_frame skip_frames)
  qed (rule read_frames)
qed

lemma frame_control: "tx_frame work_rows (assertControl orig canManage a)"
proof (cases "canManage \<or> held_by_owner a orig")
  case True
  then show ?thesis unfolding assertControl_def by (simp only: if_True) (rule frame_simple(4))
next
  case False
  then show ?thesis unfolding assertControl_def
    by (simp only: if_False) (intro frame_bind read_frames(2) frame_simple(1))
qed

lemma frame_owner: "tx_frame work_rows (ownerOnly orig a)" "tx_frame work_rows (anyone a)"
  unfolding ownerOnly_def anyone_def by (intro skip_frames)+

lemma requireState_ok [simp]: "requireState a sts = Inr u \<longleftrightarrow> wa_state a \<in> set sts"
  by (auto simp: requireState_def)

lemma refines_cancellation:
  assumes "work_ok s" "tracked s a"
  shows "refines_at s (cancellation_run h orig now a)"
proof (cases "wa_state a = Terminal")
  case True
  then show ?thesis using refines_at_frame [OF skip_frames(4) assms(1)] by (simp add: cancellation_run_def tx_when_def)
next
  case False
  have "refines_at s (tx_seq (invalidateQuestions h (wa_id a) ''attempt cancellation requested'' orig now)
      (tx_bind (change a (\<lambda>r. r\<lparr>wa_cancellation_requested := True\<rparr>) now) (\<lambda>_.
       attempt_event h ''attempt.cancellation_requested'' a orig [] (wa_fence a))))"
    using assms False by (intro skip_invalidate [where a = a] refines_change) (auto simp: row_simps)
  with False show ?thesis by (simp add: cancellation_run_def tx_when_def)
qed

lemma refines_suspension:
  assumes "work_ok s" "tracked s a"
  shows "refines_at s (suspension_run h orig now a)"
  unfolding suspension_run_def using assms
  by (intro skip_lift [where a = a] refines_change) (auto simp: row_simps)

lemma refines_resume:
  assumes "work_ok s" "tracked s a"
  shows "refines_at s (resume_run h orig now a)"
  unfolding resume_run_def using assms
  by (intro skip_lift [where a = a] skip_guard [where a = a] refines_change) (auto simp: row_simps)

text \<open>A change of an unsettled attempt with the hold of its reservation set to match.\<close>

lemma hold_steps:
  assumes ok: "work_ok s" and a: "tracked s a" "\<not> settled a" and b: "ledger_of s1 = put_attempt b (ledger_of s)"
    and "keys_distinct s1" "same_work a b" "\<not> settled b" "wa_outcome b = None" "wa_finished_at b = None"
    and "c = executing b"
  shows "ledger_step (ledger_of s) (ledger_of (hold_execution (wa_task_id a) c now s1))"
    and "keys_distinct (hold_execution (wa_task_id a) c now s1)"
proof -
  obtain r where r: "lg_reservations (ledger_of s) (wa_task_id a) = Some r"
    using tracked_unsettled [OF ok a] by metis
  then have r1: "lg_reservations (ledger_of s1) (wa_task_id a) = Some r" by (simp add: b)
  show "ledger_step (ledger_of s) (ledger_of (hold_execution (wa_task_id a) c now s1))"
    unfolding hold_effect(1) [OF r1] b
    by (rule ledger_step.hold [where r = r and now = now and i = "wa_id a"])
      (use assms r in \<open>auto simp: tracked_def outcome_recorded_def settled_def\<close>)
  show "keys_distinct (hold_execution (wa_task_id a) c now s1)" using hold_effect(2) [OF r1] assms(5) by simp
qed

lemma refines_change_hold:
  assumes "work_ok s" "tracked s a" "\<not> settled a" and "\<And>x. wa_id (f x) = wa_id x"
    and "same_work a (f a)" "\<not> settled (f a)" "executing (f a) = c"
    and "wa_outcome (f a) = wa_outcome a" "wa_finished_at (f a) = wa_finished_at a"
    and "tx_frame work_rows m"
  shows "refines_at s (tx_bind (change a f now) (\<lambda>_. tx_seq (tx_write (hold_execution (wa_task_id a) c now')) m))"
  unfolding refines_at_def tx_bind_ok tx_seq_ok
proof (intro allI impI, elim exE conjE)
  fix x s' b s1 u s2 assume ch: "change a f now s = Inr (b, s1)"
    and w: "tx_write (hold_execution (wa_task_id a) c now') s1 = Inr (u, s2)" and m: "m s2 = Inr (x, s')"
  note eff = change_effect [OF ch assms(2,4)]
  have "wa_outcome a = None" "wa_finished_at a = None" using tracked_unsettled [OF assms(1-3)] by metis+
  with eff(1) assms(5-9) have b: "same_work a b" "\<not> settled b" "wa_outcome b = None" "wa_finished_at b = None" "c = executing b"
    by (simp_all add: same_work_def settled_def executing_def)
  have "keys_distinct s1" using eff(4) assms(1) by (simp add: work_ok_def)
  from hold_steps [OF assms(1-3) eff(2) this b, of now'] w tx_frameD [OF assms(10) m]
  show "keys_distinct s' \<and> ledger_step\<^sup>*\<^sup>* (ledger_of s) (ledger_of s')"
    using work_rows_cong [of s' s2] by auto
qed

lemma refines_confirm:
  assumes "work_ok s" "tracked s a"
  shows "refines_at s (confirm_run h input orig now a)"
  unfolding confirm_run_def using assms
  by (intro skip_authority [where a = a] skip_lift [where a = a] skip_guard [where a = a]
      skip_revoke [where a = a] refines_change_hold) (auto simp: row_simps)

text \<open>A new fence for an attempt that may be executing.\<close>

lemma refines_refence:
  assumes "work_ok s" "tracked s a" "executing a" "keeps_work extra" and "\<And>b. tx_frame work_rows (k b)"
  shows "refines_at s (tx_bind (refence h a owner now actor extra) k)"
  unfolding refines_at_def tx_bind_ok
proof (intro allI impI, elim exE conjE)
  fix x s' b s1 assume ref: "refence h a owner now actor extra s = Inr (b, s1)" and k: "k b s1 = Inr (x, s')"
  have live: "\<not> settled a" by (rule executing_unsettled [OF assms(3)])
  note eff = refence_effect [OF ref assms(2,4)]
  have "wa_outcome a = None" "wa_finished_at a = None" using tracked_unsettled [OF assms(1,2) live] by metis+
  with eff assms(2,3) live have "ledger_step (ledger_of s) (ledger_of s1)"
    unfolding eff(1) by (intro ledger_step.work [of _ "wa_id a" a])
      (auto simp: tracked_def outcome_recorded_def settled_def executing_def)
  moreover have "work_rows s' = work_rows s1" by (rule tx_frameD [OF assms(5) k])
  ultimately show "keys_distinct s' \<and> ledger_step\<^sup>*\<^sup>* (ledger_of s) (ledger_of s')"
    using work_rows_cong [of s' s1] eff(7) assms(1) by (auto simp: work_ok_def)
qed

lemma refines_throw: "refines_at s (tx_throw e)"
  by (simp add: refines_at_def)

lemma refines_reconcile:
  assumes "work_ok s" "tracked s a"
  shows "refines_at s (reconcile_run h input orig now a)"
proof (cases "wa_state a = Terminal")
  case True
  then show ?thesis using refines_at_frame [OF skip_frames(4) assms(1)] by (simp add: reconcile_run_def)
next
  case live: False
  then have unsettled: "\<not> settled a" by simp
  show ?thesis
  proof (cases "cm_observation input")
    case Ob_unknown
    have "refines_at s (reconcile_unknown h input orig now a)"
      unfolding reconcile_unknown_def using assms
      by (intro skip_lift [where a = a] skip_revoke [where a = a] refines_change) (auto simp: row_simps)
    with live Ob_unknown show ?thesis by (simp add: reconcile_run_def)
  next
    case Ob_running
    have "refines_at t (case cm_observed_session input of
      None \<Rightarrow> tx_throw (queue_error Queue_conflict)
    | Some se \<Rightarrow>
        tx_seq (tx_guard (\<not> session_differs (wa_session a) se) (queue_error Queue_conflict))
       (tx_bind (tx_read (governingRevisions now)) (\<lambda>revisions.
        tx_bind (refence h a (ownedOrigin a orig) now orig (\<lambda>r. r\<lparr>wa_session := Some se,
          wa_revisions := Some (captureRevisions a R_authorized revisions)\<rparr>)) (\<lambda>rebound.
        attempt_event h ''attempt.rebound'' a orig [(''reason'', JStr (cm_reconcile_reason input)),
          (''session'', session_json se), (''previous_fence'', JNum (wa_fence a))] (wa_fence rebound)))))"
      if "work_ok t" "tracked t a" "executing a" for t
      using that refines_throw
      by (cases "cm_observed_session input") (auto intro!: skip_guard [where a = a] skip_read [where a = a]
          refines_refence frame_attempt_event)
    then have "refines_at s (reconcile_running h input orig now a)"
      unfolding reconcile_running_def using assms
      by (intro skip_lift [where a = a]) (auto simp: executing_def)
    with live Ob_running show ?thesis by (simp add: reconcile_run_def)
  next
    case Ob_stopped
    have "refines_at s (reconcile_stopped h input orig now a)"
      unfolding reconcile_stopped_def using assms refines_throw unsettled
      by (cases "cm_observed_outcome input") (auto intro!: skip_guard [where a = a]
          refines_refence_finish frame_attempt_event)
    with live Ob_stopped show ?thesis by (simp add: reconcile_run_def)
  next
    case Ob_suspended
    have "refines_at s (reconcile_suspended h input orig now a)"
      unfolding reconcile_suspended_def using assms unsettled
      by (intro skip_lift [where a = a])
        (auto simp: row_simps refines_throw intro!: skip_guard [where a = a] skip_revoke [where a = a] refines_change_hold
          split: option.split bool.split)
    with live Ob_suspended show ?thesis by (simp add: reconcile_run_def)
  qed
qed

lemma refines_rebind:
  assumes "work_ok s" "tracked s a"
  shows "refines_at s (rebind_run h input orig now a)"
  unfolding rebind_run_def using assms
  by (intro skip_lift [where a = a] skip_guard [where a = a] skip_read [where a = a] refines_refence
      frame_attempt_event) (auto simp: executing_def)


text \<open>Resumption: a new fence, the state \<open>starting\<close>, and the hold of the reservation, as one step.\<close>

lemma refines_resumed:
  assumes ok: "work_ok s" and t: "tracked s a" and live: "\<not> settled a" and "\<And>b r. tx_frame work_rows (k b r)"
  shows "refines_at s (tx_bind (refence h a orig now orig (\<lambda>x. x)) (\<lambda>b.
     tx_bind (tx_read (governingRevisions now)) (\<lambda>r.
     tx_bind (change b (\<lambda>x. x\<lparr>wa_state := Starting, wa_revisions := Some (captureRevisions b R_authorized r)\<rparr>) now) (\<lambda>_.
     tx_seq (tx_write (hold_execution (wa_task_id a) True now)) (k b r)))))"
  unfolding refines_at_def tx_bind_ok tx_seq_ok tx_read_ok
proof (intro allI impI, elim exE conjE)
  fix x s' b s1 r s2 c s3 u s4
  assume ref: "refence h a orig now orig (\<lambda>x. x) s = Inr (b, s1)" and r: "r = governingRevisions now s1" "s2 = s1"
    and ch: "change b (\<lambda>x. x\<lparr>wa_state := Starting, wa_revisions := Some (captureRevisions b R_authorized r)\<rparr>) now s2 = Inr (c, s3)"
    and w: "tx_write (hold_execution (wa_task_id a) True now) s3 = Inr (u, s4)" and k: "k b r s4 = Inr (x, s')"
  note e1 = refence_effect [OF ref t keeps_work_simps(1)]
  note e2 = change_effect [OF ch [unfolded r(2)] e1(2), simplified]
  have ids: "wa_id b = wa_id a" using e1(3) by (simp add: same_work_def)
  have "wa_outcome a = None" "wa_finished_at a = None" using tracked_unsettled [OF ok t live] by metis+
  then have c: "same_work a c" "\<not> settled c" "wa_outcome c = None" "wa_finished_at c = None" "True = executing c"
    using e1(3,5,6) by (simp_all add: e2(1) same_work_def settled_def executing_def)
  have l3: "ledger_of s3 = put_attempt c (ledger_of s)"
    using e2(1,2) e1(1) by (simp add: put_attempt_twice)
  have "keys_distinct s3" using e2(4) e1(7) ok by (simp add: work_ok_def)
  from hold_steps [OF ok t live l3 this c, of now] w tx_frameD [OF assms(4) k]
  show "keys_distinct s' \<and> ledger_step\<^sup>*\<^sup>* (ledger_of s) (ledger_of s')"
    using work_rows_cong [of s' s4] by auto
qed

lemma claim_resume_cases:
  assumes "claim_resume_run h input orig now a s = Inr (x, s')"
  shows "s' = s \<or> (wa_state a = Resume_pending \<and> resume_grant h orig now a s = Inr (x, s'))"
  using assms unfolding claim_resume_run_def Let_def
  by (auto simp: tx_bind_ok tx_seq_ok occupancy_def split: if_split_asm dest: get_entry_ledger)

lemma refines_claim_resume:
  assumes ok: "work_ok s" and t: "tracked s a"
  shows "refines_at s (claim_resume_run h input orig now a)"
  unfolding refines_at_def
proof (intro allI impI)
  fix x s' assume "claim_resume_run h input orig now a s = Inr (x, s')"
  with claim_resume_cases consider "s' = s" | "wa_state a = Resume_pending" "resume_grant h orig now a s = Inr (x, s')"
    by blast
  then show "keys_distinct s' \<and> ledger_step\<^sup>*\<^sup>* (ledger_of s) (ledger_of s')"
  proof cases
    case 1
    with ok show ?thesis by (simp add: work_ok_def)
  next
    case 2
    have "refines_at s (resume_grant h orig now a)"
      unfolding resume_grant_def using 2(1)
      by (intro refines_resumed [OF ok t] frame_seq skip_frames) simp
    with 2(2) show ?thesis unfolding refines_at_def by blast
  qed
qed


lemma refines_retry:
  assumes ok: "work_ok s" and t: "tracked s a"
  shows "refines_at s (retry_run h input orig now a)"
proof (rule refines_at_step)
  fix x s' assume "retry_run h input orig now a s = Inr (x, s')"
  then obtain e where a: "wa_state a = Terminal" and ge: "get_entry (wa_entry_id a) s = Inr (e, s)"
    and e: "qe_state e = Finished" "unfinishedEntry s (wa_task_id a) = None"
    and sched: "scheduleRetryInTransaction h a orig now now (cm_command_reason input) s = Inr (x, s')"
    unfolding retry_run_def
    by (auto simp: tx_bind_ok tx_seq_ok occupancy_def dest: get_entry_ledger(3))
  have k: "keys_distinct s" using ok by (simp add: work_ok_def)
  have settled: "settled a" using a by (simp add: settled_def)
  note le = get_entry_ledger(1) [OF ge]
  have idle: "\<not> unfinished f" if "lg_entries (ledger_of s) j = Some f" "qe_task_id f = wa_task_id a" for j f
    using that e(2) by (auto simp: unfinishedEntry_def row_find_None ledger_sel_of dest: by_key_Some)
  from schedule_retry_effect [OF sched le k] obtain e' r where r: "same_entry e e'" "qe_state e' = Queued"
    "retained (wa_task_id a) (wa_entry_id a) (Some r)" "lg_reservations (ledger_of s) (wa_task_id a) = None"
    "ledger_of s' = put_entry e' (reserve_as (wa_task_id a) (Some r) (ledger_of s))" "keys_distinct s'" by metis
  have "ledger_step (ledger_of s) (ledger_of s')"
    unfolding r(5) using t le
    by (intro ledger_step.retry [OF _ settled _ e(1) r(1,2) idle r(4,3)]) (auto simp: tracked_def)
  with r(6) show "keys_distinct s' \<and> ledger_step (ledger_of s) (ledger_of s')" by blast
qed

lemma refines_force:
  assumes ok: "work_ok s" and t: "tracked s a"
  shows "refines_at s (force_run h input orig now a)"
proof (rule refines_at_step)
  let ?owner = "ownedOrigin a orig"
  fix x s' assume "force_run h input orig now a s = Inr (x, s')"
  then obtain b s1 s2 where live: "\<not> settled a" and ref: "refence h a ?owner now orig (\<lambda>r. r) s = Inr (b, s1)"
    and fin: "finishInTransaction h b (forced_outcome (cm_command_reason input)) ?owner now False orig s1 = Inr ((), s2)"
    and sched: "scheduleRetryInTransaction h b orig now now (cm_command_reason input) s2 = Inr (x, s')"
    unfolding force_run_def by (auto simp: tx_bind_ok tx_seq_ok settled_def)
  note e1 = refence_effect [OF ref t keeps_work_simps(1)]
  have k1: "keys_distinct s1" using e1(7) ok by (simp add: work_ok_def)
  have ids: "wa_id b = wa_id a" "wa_entry_id b = wa_entry_id a" "wa_task_id b = wa_task_id a"
    using e1(3) by (simp_all add: same_work_def)
  from tracked_linked [OF ok t] obtain e where e: "lg_entries (ledger_of s) (wa_entry_id a) = Some e" by blast
  then have "lg_entries (ledger_of s1) (wa_entry_id b) = Some e" by (simp add: e1(1) ids)
  from finish_effect [OF fin e1(2) this k1] obtain c e' r where
    c: "same_work b c" "settled c" "wa_outcome c = Some (forced_outcome (cm_command_reason input))"
      "wa_finished_at c = Some now" "same_entry e e'"
      "ledger_of s2 = put_entry e' (reserve_as (wa_task_id b) r (put_attempt c (ledger_of s1)))" "keys_distinct s2"
    by metis
  have qe: "qe_id e' = wa_entry_id b" using c(5) ledger_okD(2) [of "ledger_of s"] e ok ids
    by (simp add: same_entry_def work_ok_def)
  then have "lg_entries (ledger_of s2) (wa_entry_id b) = Some e'" by (simp add: c(6))
  from schedule_retry_effect [OF sched this c(7)] obtain e'' r' where
    d: "same_entry e' e''" "qe_state e'' = Queued" "retained (wa_task_id b) (wa_entry_id b) (Some r')"
      "ledger_of s' = put_entry e'' (reserve_as (wa_task_id b) (Some r') (ledger_of s2))" "keys_distinct s'" by metis
  have work: "same_work a c" using c(1) e1(3) by (simp add: same_work_def)
  have l': "ledger_of s' = put_entry e'' (reserve_as (wa_task_id a) (Some r') (put_attempt c (ledger_of s)))"
    using d(4) c(6) e1(1) ids d(1) work by (simp add: put_attempt_twice same_entry_def same_work_def)
  have "ledger_step (ledger_of s) (ledger_of s')"
    by (rule settle_step [OF t live work c(2-4) e _ _ l']) (use c(5) d ids in \<open>auto simp: same_entry_def\<close>)
  with d(5) show "keys_distinct s' \<and> ledger_step (ledger_of s) (ledger_of s')" by blast
qed

lemma refines_replace:
  assumes "work_ok s" "tracked s a"
  shows "refines_at s (replace_run h input orig now a)"
proof (cases "wa_session a")
  case None
  then have "replace_run h input orig now a s \<noteq> Inr r" for r
    by (cases r) (auto simp: replace_run_def tx_bind_ok tx_seq_ok)
  then show ?thesis by (simp add: refines_at_def)
next
  case (Some recorded)
  then show ?thesis
    unfolding replace_run_def option.case using assms
    by (simp, intro skip_lift [where a = a] skip_guard [where a = a] skip_read [where a = a] refines_refence
      frame_seq frame_attempt_event skip_frames) (auto simp: executing_def)
qed

lemma frame_correct: "tx_frame work_rows (correct_run h input orig now a)"
  unfolding correct_run_def Let_def event_def
  by (intro allI tx_wp tx_inv_write; simp)

section \<open>Dispatch\<close>

lemma frame_configure: "tx_frame work_rows (configure_run h input orig)"
  unfolding configure_run_def Let_def event_def
  by (intro allI tx_wp tx_inv_write; simp)

lemma frame_denied: "tx_frame work_rows (denied h orig current why)"
  unfolding denied_def Let_def by (intro frame_seq skip_frames)

lemma new_entry_sel [simp]:
  "qe_id (new_entry i t n input orig now) = i" "qe_task_id (new_entry i t n input orig now) = t"
  "qe_state (new_entry i t n input orig now) = Queued"
  by (simp_all add: new_entry_def)

lemma refines_enroll: assumes ok: "work_ok s" shows "refines_at s (enroll_run h input orig now)"
proof (rule refines_at_step)
  fix x s' assume "enroll_run h input orig now s = Inr (x, s')"
  then obtain task :: entity_row where task: "unfinishedEntry s (en_id task) = None"
    and rest: "tx_seq (insert_entry (new_entry (random_uuid h) (en_id task) (next_order s) input orig now))
      (tx_seq (event h ''queue.enrolled'' (en_type task @ '':'' @ en_id task) orig [(''entry_id'', JStr (random_uuid h))] None)
        (tx_return [(''entry_id'', JStr (random_uuid h))])) s = Inr (x, s')"
    unfolding enroll_run_def Let_def
    by (auto simp: tx_bind_ok [of "tx_read _"] tx_bind_ok [of "tx_lift _"] tx_seq_ok [of "tx_guard _ _"]
        split: option.split_asm simp del: append.simps)
  let ?n = "next_order s"
  from rest obtain u1 s1 where ins: "insert_entry (new_entry (random_uuid h) (en_id task) ?n input orig now) s = Inr (u1, s1)"
    and ev1: "work_rows s' = work_rows s1"
    by (auto simp: tx_bind_ok tx_seq_ok dest!: event_effect)
  from ins have new: "random_uuid h \<notin> qe_id ` set (db_queue_entries s)"
    and s1: "s1 = s\<lparr>db_queue_entries := db_queue_entries s @ [new_entry (random_uuid h) (en_id task) ?n input orig now]\<rparr>"
    by (auto simp: insert_entry_def tx_bind_ok tx_seq_ok)
  note ev = ev1 [unfolded s1]
  let ?e = "new_entry (random_uuid h) (en_id task) ?n input orig now"
  have e: "qe_id ?e = random_uuid h" "qe_state ?e = Queued" "qe_task_id ?e = en_id task" by simp_all
  have none: "lg_entries (ledger_of s) (qe_id ?e) = None" using new e by (simp add: ledger_sel_of by_key_None)
  then have l': "ledger_of s' = put_entry ?e (ledger_of s)"
    using work_rows_cong(1) [OF ev]
    by (auto simp: ledger_of_def put_entry_def by_key_append by_key_Cons fun_eq_iff split: option.split)
  have "\<not> unfinished f" if "lg_entries (ledger_of s) j = Some f" "qe_task_id f = qe_task_id ?e" for j f
    using that task e by (auto simp: unfinishedEntry_def row_find_None ledger_sel_of dest: by_key_Some)
  then have "ledger_step (ledger_of s) (ledger_of s')" unfolding l' by (rule ledger_step.enroll [OF none e(2)])
  moreover have "keys_distinct s'"
    using work_rows_cong(2) [OF ev] ok new e by (auto simp: keys_distinct_def work_ok_def)
  ultimately show "keys_distinct s' \<and> ledger_step (ledger_of s) (ledger_of s')" by blast
qed

lemma refines_edit: assumes ok: "work_ok s" shows "refines_at s (edit_run h i input orig now)"
proof (rule refines_at_step)
  fix x s' assume "edit_run h i input orig now s = Inr (x, s')"
  then obtain e where ge: "get_entry i s = Inr (e, s)"
    and ev: "work_rows s' = work_rows (set_entry i (\<lambda>x. (edit_patch input x)\<lparr>qe_revision := qe_revision e + 1,
      qe_updated_at := now\<rparr>) s)" (is "_ = work_rows (set_entry i ?f s)")
    unfolding edit_run_def by (auto simp: tx_bind_ok tx_seq_ok dest!: event_effect dest: get_entry_ledger(3))
  note le = get_entry_ledger(1) [OF ge]
  have f: "qe_id (?f x) = qe_id x" for x by (simp add: edit_patch_def)
  note eff = set_entry_effect [OF le f]
  note same = work_rows_cong [OF ev]
  have "ledger_step (ledger_of s) (ledger_of s')"
    unfolding same(1) eff(1) by (rule ledger_step.edit [OF le]) (simp_all add: same_entry_def edit_patch_def)
  with same(2) eff(2) ok show "keys_distinct s' \<and> ledger_step (ledger_of s) (ledger_of s')" by (simp add: work_ok_def)
qed

lemma refines_withdraw: assumes ok: "work_ok s" shows "refines_at s (withdraw_run h i input orig now)"
proof (rule refines_at_step)
  fix x s' assume "withdraw_run h i input orig now s = Inr (x, s')"
  then obtain e where ge: "get_entry i s = Inr (e, s)" and q: "qe_state e = Queued"
    and ev: "work_rows s' = work_rows (set_entry i (\<lambda>x. x\<lparr>qe_state := Withdrawn, qe_revision := qe_revision e + 1,
      qe_updated_at := now\<rparr>) (delete_reservation (qe_task_id e) s))" (is "_ = work_rows (set_entry i ?f ?s)")
    unfolding withdraw_run_def by (auto simp: tx_bind_ok tx_seq_ok dest!: event_effect dest: get_entry_ledger(3))
  note le = get_entry_ledger(1) [OF ge]
  have le': "lg_entries (ledger_of ?s) i = Some e" by (simp add: delete_reservation_effect(1) le)
  note eff = set_entry_effect [OF le', of ?f, simplified]
  note same = work_rows_cong [OF ev]
  have "ledger_step (ledger_of s) (ledger_of s')"
    unfolding same(1) eff(1) delete_reservation_effect(1)
    by (rule ledger_step.withdraw [OF le q]) (simp_all add: same_entry_def)
  with same(2) eff(2) ok delete_reservation_effect(2) show "keys_distinct s' \<and> ledger_step (ledger_of s) (ledger_of s')"
    by (simp add: work_ok_def)
qed

end
