(* ===== verification/Refinement.thy ===== *)
theory Refinement
  imports Inspection Work
begin

text \<open>
  Dispatch refines the ledger: \<open>claimNext\<close> of \<^verbatim>\<open>queue-ops.ts\<close>, the operations of the managed-work
  API, and what follows for every database they can reach.
\<close>

section \<open>Reservation\<close>

lemma put_reservation_effect:
  assumes "keys_distinct s" and "\<And>p. reservation_of s (xr_task_id r) = Some p \<Longrightarrow> xr_entry_id p = xr_entry_id r"
  obtains x where "ledger_of (put_reservation r s) = reserve_as (xr_task_id r) (Some x) (ledger_of s)"
    and "keys_distinct (put_reservation r s)"
    and "xr_task_id x = xr_task_id r" "xr_entry_id x = xr_entry_id r" "xr_attempt_id x = xr_attempt_id r"
      "xr_execution_held x = xr_execution_held r" "xr_wip_held x = xr_wip_held r"
proof -
  let ?f = "\<lambda>x. x\<lparr>xr_attempt_id := xr_attempt_id r, xr_execution_held := xr_execution_held r,
    xr_wip_held := xr_wip_held r, xr_updated_at := xr_updated_at r\<rparr>"
  let ?x = "case by_key xr_task_id (xr_task_id r) (db_execution_reservations s) of None \<Rightarrow> r | Some y \<Rightarrow> ?f y"
  have "ledger_of (put_reservation r s) = reserve_as (xr_task_id r) (Some ?x) (ledger_of s)"
    by (auto simp: put_reservation_def ledger_of_def reserve_as_def by_key_upsert fun_eq_iff)
  moreover have "keys_distinct (put_reservation r s)"
    using assms(1) by (auto simp: put_reservation_def keys_distinct_def rows_upsert_def map_rows_set)
  moreover have "xr_task_id ?x = xr_task_id r" "xr_entry_id ?x = xr_entry_id r" "xr_attempt_id ?x = xr_attempt_id r"
    "xr_execution_held ?x = xr_execution_held r" "xr_wip_held ?x = xr_wip_held r"
    using assms(2) by (auto simp: reservation_of_def split: option.split dest: by_key_Some)
  ultimately show thesis by (rule that)
qed

lemma insert_attempt_effect:
  assumes "insert_attempt a s = Inr (u, s')" and "keys_distinct s"
  shows "ledger_of s' = put_attempt a (ledger_of s)" and "keys_distinct s'"
    and "lg_attempts (ledger_of s) (wa_id a) = None"
    and "lg_attempts (ledger_of s) j = Some b \<Longrightarrow> wa_task_id b = wa_task_id a \<Longrightarrow> settled b"
proof -
  from assms(1) have new: "wa_id a \<notin> wa_id ` set (db_work_attempts s)"
    and idle: "\<forall>b\<in>set (db_work_attempts s). wa_task_id b = wa_task_id a \<longrightarrow> settled b"
    and s': "s' = s\<lparr>db_work_attempts := db_work_attempts s @ [a]\<rparr>"
    by (auto simp: insert_attempt_def tx_bind_ok tx_seq_ok list_ex_iff settled_def)
  then show none: "lg_attempts (ledger_of s) (wa_id a) = None" by (simp add: ledger_sel_of by_key_None)
  then show "ledger_of s' = put_attempt a (ledger_of s)"
    by (auto simp: s' ledger_of_def put_attempt_def by_key_append by_key_Cons fun_eq_iff split: option.split)
  show "keys_distinct s'" using assms(2) new by (simp add: s' keys_distinct_def)
  show "lg_attempts (ledger_of s) j = Some b \<Longrightarrow> wa_task_id b = wa_task_id a \<Longrightarrow> settled b"
    using idle by (auto simp: ledger_sel_of dest: by_key_Some)
qed

lemma insert_attempt_rest:
  "insert_attempt a s = Inr (u, s') \<Longrightarrow> db_execution_reservations s' = db_execution_reservations s"
  by (auto simp: insert_attempt_def tx_bind_ok tx_seq_ok)

lemma new_attempt_sel [simp]:
  "wa_id (new_attempt i e res orig g p now sn) = i" "wa_entry_id (new_attempt i e res orig g p now sn) = qe_id e"
  "wa_task_id (new_attempt i e res orig g p now sn) = qe_task_id e"
  "wa_state (new_attempt i e res orig g p now sn) = Reserved"
  "wa_outcome (new_attempt i e res orig g p now sn) = None"
  "wa_finished_at (new_attempt i e res orig g p now sn) = None"
  "wa_principal_id (new_attempt i e res orig g p now sn) = or_principalId orig"
  "wa_participant_id (new_attempt i e res orig g p now sn) = or_participantId orig"
  by (simp_all add: new_attempt_def)

lemma get_attempt_ok:
  "get_attempt i s = Inr (a, t) \<longleftrightarrow> t = s \<and> by_key wa_id i (db_work_attempts s) = Some a"
  by (auto simp: get_attempt_def attempts_get_def tx_bind_ok split: option.split_asm)

lemma get_entry_ok:
  "get_entry i s = Inr (e, t) \<longleftrightarrow> t = s \<and> by_key qe_id i (db_queue_entries s) = Some e"
  by (auto simp: get_entry_def getEntry_def tx_bind_ok split: option.split_asm)

text \<open>A successful reservation, seen as its writes.\<close>

lemma reserve_run:
  assumes "reserveInTransaction h e orig lease now pred s = Inr (b, s')"
  obtains s1 s2 a r where "work_rows s1 = work_rows s" "insert_attempt a s1 = Inr ((), s2)"
    "wa_id a = random_uuid h" "wa_entry_id a = qe_id e" "wa_task_id a = qe_task_id e" "wa_state a = Reserved"
    "wa_outcome a = None" "wa_finished_at a = None"
    "wa_principal_id a = or_principalId orig" "wa_participant_id a = or_participantId orig"
    "\<And>p. reservation_of s (qe_task_id e) = Some p \<Longrightarrow> \<not> xr_execution_held p \<and> xr_entry_id p = qe_id e"
    "xr_task_id r = qe_task_id e" "xr_entry_id r = qe_id e" "xr_attempt_id r = random_uuid h"
    "xr_execution_held r" "xr_wip_held r"
    "work_rows s' = work_rows (set_entry (qe_id e) (\<lambda>x. x\<lparr>qe_state := Admitted,
          qe_revision := qe_revision e + 1, qe_updated_at := now\<rparr>) (put_reservation r s2))"
    "by_key wa_id (random_uuid h) (db_work_attempts s') = Some b"
proof -
  let ?r = "\<lparr>xr_task_id = qe_task_id e, xr_entry_id = qe_id e,
          xr_attempt_id = random_uuid h, xr_execution_held = True, xr_wip_held = True, xr_updated_at = now\<rparr>"
  from assms obtain res g s1 sn s2 where
    acq: "acquireInTransaction h res orig Exclusive lease [(''attempt_id'', JStr (random_uuid h))] now s = Inr (g, s1)"
    and ins: "insert_attempt (new_attempt (random_uuid h) e res orig g pred now sn) s1 = Inr ((), s2)"
    and prior: "case reservation_of s (qe_task_id e) of None \<Rightarrow> True
      | Some p \<Rightarrow> \<not> xr_execution_held p \<and> xr_entry_id p = qe_id e"
    and s': "work_rows s' = work_rows (set_entry (qe_id e) (\<lambda>x. x\<lparr>qe_state := Admitted,
          qe_revision := qe_revision e + 1, qe_updated_at := now\<rparr>) (put_reservation ?r s2))"
    and got: "by_key wa_id (random_uuid h) (db_work_attempts s') = Some b"
    unfolding reserveInTransaction_def Let_def reservation_of_def
    by (auto simp: tx_bind_ok tx_seq_ok get_attempt_ok split: option.split_asm simp del: append.simps
        dest!: event_effect)
  show thesis
    by (rule that [of s1 _ s2 ?r, OF tx_frameD [OF frame_acquire acq] ins])
      (use prior s' got in auto)
qed

lemma refines_reserve:
  assumes ok: "work_ok s" and e: "lg_entries (ledger_of s) (qe_id e) = Some e" "qe_state e = Queued"
  shows "refines_at s (reserveInTransaction h e orig lease now pred)"
proof (rule refines_at_step)
  fix b s' assume run: "reserveInTransaction h e orig lease now pred s = Inr (b, s')"
  then show "keys_distinct s' \<and> ledger_step (ledger_of s) (ledger_of s')"
  proof (rule reserve_run)
    fix s1 s2 a r
    assume eq: "work_rows s1 = work_rows s" and ins: "insert_attempt a s1 = Inr ((), s2)"
      and a: "wa_id a = random_uuid h" "wa_entry_id a = qe_id e" "wa_task_id a = qe_task_id e" "wa_state a = Reserved"
        "wa_outcome a = None" "wa_finished_at a = None"
      and prior: "\<And>p. reservation_of s (qe_task_id e) = Some p \<Longrightarrow> \<not> xr_execution_held p \<and> xr_entry_id p = qe_id e"
      and r: "xr_task_id r = qe_task_id e" "xr_entry_id r = qe_id e" "xr_attempt_id r = random_uuid h"
        "xr_execution_held r" "xr_wip_held r"
      and s': "work_rows s' = work_rows (set_entry (qe_id e) (\<lambda>x. x\<lparr>qe_state := Admitted,
          qe_revision := qe_revision e + 1, qe_updated_at := now\<rparr>) (put_reservation r s2))"
        (is "_ = work_rows (set_entry _ ?f _)")
    note eq' = work_rows_cong [OF eq]
    have d: "keys_distinct s1" using eq'(2) ok by (simp add: work_ok_def)
    note i = insert_attempt_effect [OF ins d, unfolded eq'(1)]
    have "reservation_of s2 (qe_task_id e) = reservation_of s (qe_task_id e)"
      using eq insert_attempt_rest [OF ins] by (simp add: reservation_of_def work_rows_def)
    then have "xr_entry_id p = xr_entry_id r" if "reservation_of s2 (xr_task_id r) = Some p" for p
      using prior that r by simp
    from put_reservation_effect [OF i(2) this] obtain x where
      l: "ledger_of (put_reservation r s2) = reserve_as (qe_task_id e) (Some x) (put_attempt a (ledger_of s))"
      and d3: "keys_distinct (put_reservation r s2)"
      and x: "xr_task_id x = qe_task_id e" "xr_entry_id x = qe_id e" "xr_attempt_id x = wa_id a"
        "xr_execution_held x" "xr_wip_held x"
      using i(1) r a(1) by metis
    have le: "lg_entries (ledger_of (put_reservation r s2)) (qe_id e) = Some e" using l e(1) by simp
    note eff = set_entry_effect [OF le, of ?f, simplified]
    note fin = work_rows_cong [OF s']
    have "ledger_step (ledger_of s) (ledger_of s')"
      unfolding fin(1) eff(1) l
    proof (rule ledger_step.reserve [OF e _ _ i(3) a(4) _ a(2,3) _ x])
      show "settled b" if "lg_attempts (ledger_of s) j = Some b" "wa_task_id b = qe_task_id e" for j b
        using i(4) [OF that(1)] that(2) a(3) by simp
    qed (use a in \<open>simp_all add: same_entry_def outcome_recorded_def\<close>)
    with fin(2) eff(2) d3 show ?thesis by simp
  qed
qed

section \<open>Dispatch\<close>

lemma refines_grant_entry:
  assumes "work_ok s" "lg_entries (ledger_of s) (qe_id e) = Some e" "qe_state e = Queued"
  shows "refines_at s (grant_entry h e orig current now)"
  unfolding grant_entry_def
proof (rule refines_at_read [OF assms(1)])
  show "refines_at s (tx_bind (reserveInTransaction h e orig (po_lease_ms current) now p) (\<lambda>attempt.
    tx_return [(''attempt_id'', JStr (wa_id attempt)), (''fence'', JNum (wa_fence attempt)),
      (''entry_id'', JStr (qe_id e)), (''policy_revision'', JNum (po_revision current))]))" for p
    by (intro refines_then_frame refines_reserve assms skip_frames)
qed (rule frame_simple)

lemma refines_denied: "work_ok s \<Longrightarrow> refines_at s (denied h orig current why)"
  by (rule refines_at_frame [OF frame_denied])

lemma refines_claim_loop:
  assumes "work_ok s" and "\<forall>e\<in>set es. lg_entries (ledger_of s) (qe_id e) = Some e \<and> qe_state e = Queued"
  shows "refines_at s (claim_loop h input orig current wip sn now es blocked)"
  using assms(2)
proof (induction es arbitrary: blocked)
  case Nil
  then show ?case using assms(1) by (simp add: refines_denied)
next
  case (Cons e es)
  show ?case
    unfolding claim_loop.simps
  proof (rule refines_at_read [OF assms(1) frame_simple(3)])
    fix x show "refines_at s ((\<lambda>(ok, blocked').
        if \<not> ok then claim_loop h input orig current wip sn now es blocked
        else if blocked' then claim_loop h input orig current wip sn now es True
        else grant_entry h e orig current now) x)"
      using Cons refines_grant_entry [OF assms(1)] by (simp split: prod.split)
  qed
qed

lemma backlog_rows:
  assumes "keys_distinct s" "e \<in> set (backlog s allows)"
  shows "lg_entries (ledger_of s) (qe_id e) = Some e" and "qe_state e = Queued" and "allows (qe_task_id e)"
  using assms ledger_rows(2) [OF assms(1)] by (auto simp: backlog_def queue_ordered_def)

lemma refines_claim:
  assumes ok: "work_ok s" shows "refines_at s (claim_run h input orig allows now)"
  unfolding claim_run_def
proof (rule refines_at_read [OF ok frame_simple(3)])
  fix current assume "tx_read policy s = Inr (current, s)"
  have entries: "refines_at s (tx_bind (tx_read (\<lambda>s. backlog s allows)) (\<lambda>entries.
      if entries = [] then denied h orig current ''empty''
      else tx_bind (tx_read (\<lambda>s. readReadinessSnapshot h s now False)) (\<lambda>r.
        tx_bind (tx_lift r) (\<lambda>sn. claim_loop h input orig current wip sn now entries False))))" for wip
  proof (rule refines_at_read [OF ok frame_simple(3)])
    fix es assume "tx_read (\<lambda>s. backlog s allows) s = Inr (es, s)"
    then have es: "\<forall>e\<in>set es. lg_entries (ledger_of s) (qe_id e) = Some e \<and> qe_state e = Queued"
      using ok backlog_rows [of s _ allows] by (auto simp: work_ok_def)
    show "refines_at s (if es = [] then denied h orig current ''empty''
      else tx_bind (tx_read (\<lambda>s. readReadinessSnapshot h s now False)) (\<lambda>r.
        tx_bind (tx_lift r) (\<lambda>sn. claim_loop h input orig current wip sn now es False)))"
      using refines_denied [OF ok] refines_claim_loop [OF ok es]
      by (auto intro!: refines_at_read [OF ok frame_simple(3)] refines_at_read [OF ok frame_simple(2)])
  qed
  show "refines_at s (if \<not> po_enabled current then denied h orig current ''disabled''
      else if po_paused current then denied h orig current ''paused''
      else tx_bind (tx_read occupancy) (\<lambda>(execution, wip).
        if (case po_execution_limit current of None \<Rightarrow> True | Some l \<Rightarrow> l \<le> execution)
        then denied h orig current ''execution_capacity''
        else tx_bind (tx_read (\<lambda>s. backlog s allows)) (\<lambda>entries.
          if entries = [] then denied h orig current ''empty''
          else tx_bind (tx_read (\<lambda>s. readReadinessSnapshot h s now False)) (\<lambda>r.
            tx_bind (tx_lift r) (\<lambda>sn. claim_loop h input orig current wip sn now entries False)))))"
    using refines_denied [OF ok] entries
    by (auto intro!: refines_at_read [OF ok frame_simple(3)] split: prod.split option.split)
qed

lemma read_claim_view: "read_only (claim_view h orig allows now result)"
proof (cases "obj_has ''attempt_id'' result")
  case False
  then show ?thesis unfolding claim_view_def by (simp only: if_False) (rule frame_simple(4))
next
  case True
  then show ?thesis unfolding claim_view_def
    by (cases "as_string (obj_get ''attempt_id'' result)"; simp only: if_True option.case)
      (intro frame_bind frame_seq skip_frames read_get_attempt read_get_entry read_view)+
qed

section \<open>Operations of the managed-work API\<close>

lemma refines_command:
  assumes "\<And>s. work_ok s \<Longrightarrow> refines_at s run" and "\<And>x. tx_frame work_rows (k x)"
  shows "refines (tx_bind (run_command operation orig key input run el al now) k)"
  unfolding refines_def
  by (intro allI impI refines_then_frame [OF _ refines_run_command [OF _ assms(1)] assms(2)])

lemma op_refines_cond:
  "op_refines f \<Longrightarrow> op_refines g \<Longrightarrow> op_refines (\<lambda>s. if b then f s else g s)"
  by (cases b) simp_all

lemma op_refines_error: "op_refines (\<lambda>s. (s, Inl e))"
  by (simp add: op_refines_def)

lemmas op_rules = op_refines_cond op_refines_error op_refines_commit op_refines_after_expiry
  refines_execute refines_recovery

lemma op_refines_configure: "op_refines (configure h input orig canManage now)"
  unfolding configure_def [abs_def]
  by (intro op_rules refines_command refines_at_frame frame_configure skip_frames)

lemma frame_entry_of:
  "tx_frame work_rows (case r of None \<Rightarrow> tx_throw e | Some i \<Rightarrow> get_entry i)"
  by (cases r; simp only: option.case) (rule skip_frames)+

lemma op_refines_enroll: "op_refines (enroll h input orig now)"
  unfolding enroll_def [abs_def]
  by (intro op_rules refines_command refines_enroll frame_entry_of)

lemma refines_entry_command:
  assumes "\<And>s. work_ok s \<Longrightarrow> refines_at s run"
  shows "refines (tx_bind (get_entry i) (\<lambda>e. tx_seq (tx_lift (assertEntryControl e orig canManage))
      (tx_bind (run_command operation orig key input run el al now) (\<lambda>_. get_entry i))))"
  unfolding refines_def
  by (intro allI impI refines_at_read read_get_entry refines_at_read_seq frame_simple
      refinesD [OF refines_command] assms skip_frames)

lemma op_refines_edit: "op_refines (edit h i input orig canManage now)"
  unfolding edit_def [abs_def]
  by (intro op_rules refines_entry_command refines_edit)

lemma op_refines_withdraw: "op_refines (withdraw h i input orig canManage now)"
  unfolding withdraw_def [abs_def] withdraw_tx_def
  by (intro op_rules refines_entry_command refines_withdraw)

lemma refines_claimNext:
  "refines (tx_seq (expireInTransaction h now) (tx_bind (run_command ''claim-next'' orig key request
     (claim_run h input orig allows now) None None now) (claim_view h orig allows now)))"
  unfolding refines_def
  by (intro allI impI refines_at_seq refinesD [OF refines_expire]
      refinesD [OF refines_command [OF refines_claim read_only_frame [OF read_claim_view]]])

lemma op_refines_claimNext: "op_refines (claimNext h input orig allows now)"
  unfolding claimNext_def [abs_def]
  by (intro op_rules refines_claimNext)

lemma op_refines_expire: "op_refines (expire h now)"
  unfolding expire_def [abs_def]
  by (intro op_rules refines_expire)

lemma op_refines_accept_attempt: "op_refines (accept_attempt h i input orig now)"
  unfolding accept_attempt_def [abs_def]
  by (intro op_rules refines_accept)

lemma op_refines_started: "op_refines (started h i input orig now)"
  unfolding started_def [abs_def]
  by (intro op_rules refines_started)

lemma op_refines_attempt_heartbeat: "op_refines (attempt_heartbeat h i input orig now)"
  unfolding attempt_heartbeat_def [abs_def]
  by (intro op_rules refines_heartbeat)

lemma op_refines_finish: "op_refines (finish h i input orig now)"
  unfolding finish_def [abs_def]
  by (intro op_rules refines_finish_run)

lemma op_refines_requestCancellation: "op_refines (requestCancellation h i input orig canManage now)"
  unfolding requestCancellation_def [abs_def]
  by (intro op_rules refines_cancellation frame_control)

lemma op_refines_requestSuspension: "op_refines (requestSuspension h i input orig canManage now)"
  unfolding requestSuspension_def [abs_def]
  by (intro op_rules refines_suspension frame_control)

lemma op_refines_confirmSuspension: "op_refines (confirmSuspension h i input orig now)"
  unfolding confirmSuspension_def [abs_def]
  by (intro op_rules refines_confirm frame_owner(1))

lemma op_refines_requestResume: "op_refines (requestResume h i input orig canManage now)"
  unfolding requestResume_def [abs_def]
  by (intro op_rules refines_resume frame_control)

lemma frame_manager: "tx_frame work_rows ((if canManage then anyone else ownerOnly orig) a)"
  using frame_owner by (cases canManage) auto

lemma op_refines_reconcile: "op_refines (reconcile h i input orig canManage now)"
  unfolding reconcile_def [abs_def]
  by (intro op_rules refines_reconcile frame_manager)

lemma op_refines_rebind: "op_refines (rebind h i input orig canManage now)"
  unfolding rebind_def [abs_def]
  by (intro op_rules refines_rebind frame_owner(2))

lemma op_refines_retry: "op_refines (retry h i input orig canManage now)"
  unfolding retry_def [abs_def]
  by (intro op_rules refines_retry frame_control)

lemma op_refines_forceRecovery: "op_refines (forceRecovery h i input orig canManage now)"
  unfolding forceRecovery_def [abs_def]
  by (intro op_rules refines_force frame_owner(2))

lemma refines_owned_command:
  assumes "\<And>a s. work_ok s \<Longrightarrow> tracked s a \<Longrightarrow> refines_at s (run a)" and "\<And>x. tx_frame work_rows (k x)"
  shows "refines (tx_bind (get_attempt i) (\<lambda>a. tx_seq (tx_lift (assertOwner a orig None))
    (tx_bind (run_command operation orig key input (run a) (Some (wa_entry_id a)) (Some i) now) k)))"
proof (rule refines_get)
  fix a s assume "work_ok s" "tracked s a"
  then show "refines_at s (tx_seq (tx_lift (assertOwner a orig None))
    (tx_bind (run_command operation orig key input (run a) (Some (wa_entry_id a)) (Some i) now) k))"
    by (rule skip_lift) (intro refines_then_frame refines_run_command assms(1) assms(2) | assumption)+
qed

lemma op_refines_claimResume: "op_refines (claimResume h i input orig now)"
  unfolding claimResume_def [abs_def] claim_resume_tx_def
  by (intro op_rules refines_owned_command refines_claim_resume frame_bind skip_frames)

lemma op_refines_replaceSession: "op_refines (replaceSession h i input orig now)"
  unfolding replaceSession_def [abs_def] replace_tx_def
  by (intro op_rules refines_owned_command refines_replace frame_bind skip_frames)

lemma op_refines_correct: "op_refines (correct h i input orig now)"
  unfolding correct_def [abs_def]
  by (intro op_rules refines_get refinesD [OF refines_command] refines_at_frame [OF frame_correct] skip_frames)

end
