(* ===== verification/Samples.thy ===== *)
theory Samples
  imports Refinement
begin

text \<open>
  A concrete run of the queue, for the witnesses: a project with one task, its enrolment, and the
  grant of the task to a worker.
\<close>

definition worker_db :: db where
  "worker_db = empty_db\<lparr>db_schema_history := sample_history,
     db_entities := [sample_entity ''task'' ''t1'' [(''status'', JStr ''todo'')]],
     db_queue_policy := Some \<lparr>qp_revision_required = True, qp_enabled = True, qp_paused = False,
       qp_execution_limit = Some 1, qp_wip_limit = None, qp_lease_ms = 60000, qp_revision = 1\<rparr>\<rparr>"

definition sample_enroll :: enroll_command where
  "sample_enroll = \<lparr>cm_idempotency_key = ''k1'', cm_enroll_task_id = ''t1'', cm_priority = 0,
     cm_required_capabilities = [], cm_target_principal = None,
     cm_retry_policy = \<lparr>rp_retry_safe = True, rp_max_attempts = 2, rp_initial_backoff_ms = 10,
       rp_max_backoff_ms = 100\<rparr>\<rparr>"

definition sample_claim :: claim_command where
  "sample_claim = \<lparr>cm_idempotency_key = ''k2'', cm_claim_capabilities = [], cm_types = None\<rparr>"

definition enrolled_db :: db where
  "enrolled_db = fst (enroll (project_host 1 ''e1'') sample_enroll (system_origin ''boss'') 1 worker_db)"

definition claimed :: "db \<times> (error + claim_result)" where
  "claimed = claimNext (project_host 2 ''a1'') sample_claim (system_origin ''w'') (\<lambda>_. True) 2 enrolled_db"

section \<open>The rows of the run\<close>

definition sample_entry :: "entry_state \<Rightarrow> queue_entry" where
  "sample_entry st = \<lparr>qe_id = ''e1'', qe_task_id = ''t1'', qe_state = st, qe_priority = 0,
     qe_enqueue_order = 1, qe_required_capabilities = [], qe_target_principal = None,
     qe_retry_policy = cm_retry_policy sample_enroll, qe_revision = 1, qe_available_at = 1,
     qe_created_at = 1, qe_updated_at = 1, qe_enrolled_by_principal = Some ''boss'',
     qe_enrolled_by_participant = Some ''boss''\<rparr>"

definition sample_receipt :: queue_receipt where
  "sample_receipt = \<lparr>qr_key = receipt_key (system_origin ''boss'') ''enroll'' ''k1'',
     qr_request = canonicalJson (enroll_json sample_enroll), qr_result = [(''entry_id'', JStr ''e1'')],
     qr_entry_id = Some ''e1'', qr_attempt_id = None, qr_created_at = 1\<rparr>"

lemma worker_sel:
  "db_queue_policy worker_db = Some \<lparr>qp_revision_required = True, qp_enabled = True, qp_paused = False,
       qp_execution_limit = Some 1, qp_wip_limit = None, qp_lease_ms = 60000, qp_revision = 1\<rparr>"
  "db_queue_operation_receipts worker_db = []" "db_journal worker_db = []" "db_journal_seq worker_db = 0"
  "db_claims worker_db = []" "db_fences worker_db = []" "db_queue_entries worker_db = []"
  "db_work_attempts worker_db = []" "db_execution_reservations worker_db = []"
  "db_attempt_corrections worker_db = []" "db_work_questions worker_db = []"
  "db_schema_history worker_db = sample_history" "db_gates worker_db = []" "db_entity_relationships worker_db = []"
  "db_entities worker_db = [sample_entity ''task'' ''t1'' [(''status'', JStr ''todo'')]]"
  by (simp_all add: worker_db_def empty_db_def)

lemma sample_sel:
  "random_uuid (project_host t u) = u" "date_now (project_host t u) = t"
  "or_principalId (system_origin p) = p" "or_participantId (system_origin p) = p"
  "or_environment (system_origin p) = []" "or_tokenId (system_origin p) = None"
  "cm_idempotency_key sample_enroll = ''k1''" "cm_enroll_task_id sample_enroll = ''t1''"
  "cm_priority sample_enroll = 0" "cm_required_capabilities sample_enroll = []"
  "cm_target_principal sample_enroll = None"
  "cm_idempotency_key sample_claim = ''k2''" "cm_claim_capabilities sample_claim = []" "cm_types sample_claim = None"
  "en_id (sample_entity ty i d) = i" "en_type (sample_entity ty i d) = ty" "en_data (sample_entity ty i d) = d"
  "\<not> en_archived (sample_entity ty i d)"
  "lifecycle_of (Some sample_schema) ''task'' = Some sample_lifecycle"
  "as_string (Some (JStr x)) = Some x" "as_string None = None"
  by (simp_all add: project_host_def system_origin_def sample_enroll_def sample_claim_def sample_entity_def
      lifecycle_of_def work_unit_of_def sample_schema_def as_string_def)

lemma sample_commands_ok: "enroll_command_ok sample_enroll" "claim_command_ok sample_claim"
  by (simp_all add: enroll_command_ok_def claim_command_ok_def queue_command_ok_def length_between_def
      capabilities_ok_def retry_policy_ok_def sample_enroll_def sample_claim_def)

lemma sample_schema_read:
  "db_schema_history s = sample_history \<Longrightarrow> resolveCurrentSchema (project_host t u) s = Inr (Some sample_schema)"
  by (simp add: resolveCurrentSchema_def getCurrentSchema_def sample_history_def project_host_def)

lemmas command_run = checkRevision_def run_command_def run_receipted_def receipt_of_def rows_insert_def
  result_id_def event_def Let_def commit_def appendJournal_def row_find_def by_key_Cons by_key_append
  worker_sel sample_sel sample_commands_ok sample_schema_read receipt_key_inj tx_eval

lemma enrolled_run:
  "\<exists>j n. enroll (project_host 1 ''e1'') sample_enroll (system_origin ''boss'') 1 worker_db =
     (worker_db\<lparr>db_queue_entries := [sample_entry Queued], db_journal_seq := n, db_journal := j,
       db_queue_operation_receipts := [sample_receipt]\<rparr>, Inr (sample_entry Queued))"
  by (simp add: enroll_def enroll_run_def command_run entity_by_id_def unfinishedEntry_def lookupClaim_def
      next_order_def insert_entry_def new_entry_def first_occurrences_def get_entry_def getEntry_def
      sample_receipt_def sample_entry_def)
    (intro exI, rule refl)

lemma enrolled_db_eq:
  obtains j n where "enrolled_db = worker_db\<lparr>db_queue_entries := [sample_entry Queued], db_journal_seq := n,
     db_journal := j, db_queue_operation_receipts := [sample_receipt]\<rparr>"
  using enrolled_run unfolding enrolled_db_def by (metis fst_conv)

definition worker_snapshot :: readiness_snapshot where
  "worker_snapshot = \<lparr>sn_definition = Some sample_schema, sn_entities = db_entities worker_db,
     sn_predecessors = [], sn_gates = []\<rparr>"

lemma worker_read:
  assumes "db_entities s = db_entities worker_db" "db_entity_relationships s = []" "db_gates s = []"
    "db_schema_history s = sample_history"
  shows "readReadinessSnapshot (project_host t u) s now False = Inr worker_snapshot"
  using assms by (simp add: readReadinessSnapshot_def worker_snapshot_def sample_schema_read)

lemma worker_ready: "evaluateReadiness worker_snapshot ''t1'' True = []"
  by (simp add: evaluateReadiness_def Let_def own_reasons_def sn_entity_def worker_snapshot_def
      worker_sel by_key_Cons sample_sel sn_lifecycle_def dfs.simps map_list_def sample_lifecycle_def add_option_def)

lemma worker_task: "sn_entity worker_snapshot ''t1'' = Some (sample_entity ''task'' ''t1'' [(''status'', JStr ''todo'')])"
  by (simp add: sn_entity_def worker_snapshot_def worker_sel by_key_Cons sample_sel)

lemma sample_entry_sel [simp]:
  "qe_id (sample_entry st) = ''e1''" "qe_task_id (sample_entry st) = ''t1''" "qe_state (sample_entry st) = st"
  "qe_target_principal (sample_entry st) = None" "qe_required_capabilities (sample_entry st) = []"
  "qe_available_at (sample_entry st) = 1" "qe_revision (sample_entry st) = 1"
  by (simp_all add: sample_entry_def)

lemma sample_receipt_key [simp]: "qr_key sample_receipt = receipt_key (system_origin ''boss'') ''enroll'' ''k1''"
  by (simp add: sample_receipt_def)

definition sample_attempt :: work_attempt where
  "sample_attempt = new_attempt ''a1'' (sample_entry Queued) ''task:t1'' (system_origin ''w'')
     \<lparr>aq_acquired = True, aq_fence = 1, aq_expires_at = 60002, aq_participant_id = ''w''\<rparr> None 2
     \<lparr>rv_definition_version = Some 1, rv_policy_revision = 1, rv_at = 2\<rparr>"

definition claim_receipt :: queue_receipt where
  "claim_receipt = \<lparr>qr_key = receipt_key (system_origin ''w'') ''claim-next'' ''k2'',
     qr_request = canonicalJson (claim_json sample_claim),
     qr_result = [(''attempt_id'', JStr ''a1''), (''fence'', JNum 1), (''entry_id'', JStr ''e1''),
       (''policy_revision'', JNum 1)],
     qr_entry_id = Some ''e1'', qr_attempt_id = Some ''a1'', qr_created_at = 2\<rparr>"

definition admitted_entry :: queue_entry where
  "admitted_entry = (sample_entry Admitted)\<lparr>qe_revision := 2, qe_updated_at := 2\<rparr>"

definition sample_view :: attempt_view where
  "sample_view = \<lparr>vw_attempt = sample_attempt, vw_grant_valid = True, vw_assigner_principal_id = Some ''boss'',
     vw_definition_version = Some 1, vw_policy_revision = 1, vw_corrections = []\<rparr>"

definition claimed_shape :: "int \<Rightarrow> journal_row list \<Rightarrow> db" where
  "claimed_shape n j = worker_db\<lparr>
     db_fences := [\<lparr>fe_resource = ''task:t1'', fe_current_fence = 1\<rparr>],
     db_claims := [\<lparr>cl_resource = ''task:t1'', cl_principal_id = ''w'', cl_participant_id = ''w'',
       cl_environment = [], cl_mode = Exclusive, cl_fence = 1, cl_acquired_at = 2, cl_expires_at = 60002,
       cl_metadata = [(''attempt_id'', JStr ''a1'')]\<rparr>],
     db_work_attempts := [sample_attempt],
     db_execution_reservations := [\<lparr>xr_task_id = ''t1'', xr_entry_id = ''e1'', xr_attempt_id = ''a1'',
       xr_execution_held = True, xr_wip_held = True, xr_updated_at = 2\<rparr>],
     db_queue_entries := [admitted_entry], db_journal_seq := n, db_journal := j,
     db_queue_operation_receipts := [sample_receipt, claim_receipt]\<rparr>"

lemma claimed_run:
  obtains j n where "fst claimed = claimed_shape n j"
    and "snd claimed = Inr (Granted admitted_entry sample_view (Some (JNum 1)))"
proof -
  obtain j n where e: "enrolled_db = worker_db\<lparr>db_queue_entries := [sample_entry Queued], db_journal_seq := n,
     db_journal := j, db_queue_operation_receipts := [sample_receipt]\<rparr>" by (rule enrolled_db_eq)
  show thesis
    by (rule that; simp add: claimed_shape_def claimed_def e claimNext_def command_run expireInTransaction_def claim_run_def policy_def
      occupancy_def execution_count_def wip_count_def backlog_def queue_ordered_def worker_read eligible_def type_admitted_def
      entryReasons_def worker_ready worker_task target_mismatch_def capability_mismatch_def claimed_directly_def 
      lookupClaim_def attempt_active_def execution_unresolved_def reservation_of_def wip_blocked_def
      grant_entry_def latest_attempt_def reserveInTransaction_def entity_by_id_def acquireInTransaction_def
      canonicalResource_def resolveEntityResource_def resolveEntityReference_def fresh_claim_def
      bump_fence_def drop_claim_def add_claim_def rows_upsert_def lookupFence_def insert_attempt_def new_attempt_def
      put_reservation_def set_entry_def governingRevisions_def get_attempt_def attempts_get_def rows_set_def
      sample_history_def obj_has_def claim_receipt_def admitted_entry_def sample_view_def
      sample_attempt_def sample_entry_def
      claim_view_def get_entry_def getEntry_def attempts_view_def grantValid_def working_def corrections_def)
qed

lemma claimed_rows:
  "db_work_attempts (fst claimed) = [sample_attempt]" "db_queue_entries (fst claimed) = [admitted_entry]"
  "execution_count (fst claimed) = 1"
proof -
  obtain j n where c: "fst claimed = claimed_shape n j" by (rule claimed_run)
  show "db_work_attempts (fst claimed) = [sample_attempt]" "db_queue_entries (fst claimed) = [admitted_entry]"
    "execution_count (fst claimed) = 1"
    by (simp_all add: c claimed_shape_def execution_count_def)
qed

text \<open>The reservation was not accepted: it expires and the task is queued again.\<close>

definition expired :: "db \<times> (error + nat)" where
  "expired = expire (project_host 70000 ''u'') 70000 (fst claimed)"

definition abandoned_attempt :: work_attempt where
  "abandoned_attempt = sample_attempt\<lparr>wa_state := Terminal, wa_lease_expires_at := None,
     wa_finished_at := Some 70000, wa_revision := 2, wa_updated_at := 70000,
     wa_revisions := Some (captureRevisions sample_attempt R_finished
       \<lparr>rv_definition_version = Some 1, rv_policy_revision = 1, rv_at = 70000\<rparr>),
     wa_outcome := Some (stopped_outcome O_abandoned
       ''Reservation expired before acceptance; execution was never authorized'')\<rparr>"

lemma expired_run:
  "snd expired = Inr 1" "db_work_attempts (fst expired) = [abandoned_attempt]"
  "db_queue_entries (fst expired) = [admitted_entry\<lparr>qe_state := Queued, qe_revision := 3, qe_updated_at := 70000\<rparr>]"
  "db_execution_reservations (fst expired) = []" "db_claims (fst expired) = []"
  "db_fences (fst expired) = [\<lparr>fe_resource = ''task:t1'', fe_current_fence = 2\<rparr>]"
proof -
  obtain j n where c: "fst claimed = claimed_shape n j" by (rule claimed_run)
  note run = expired_def c claimed_shape_def expire_def expireInTransaction_def command_run lease_expired_def
      working_def expire_attempt_def revoke_def abandon_reservation_def governingRevisions_def change_def
      sample_attempt_def new_attempt_def rows_set_def rows_delete_def get_attempt_def attempts_get_def
      delete_reservation_def set_entry_def admitted_entry_def sample_entry_def abandoned_attempt_def
      sample_history_def
  show "snd expired = Inr 1" by (simp add: run)
  show "db_work_attempts (fst expired) = [abandoned_attempt]" by (simp add: run)
  show "db_queue_entries (fst expired) = [admitted_entry\<lparr>qe_state := Queued, qe_revision := 3, qe_updated_at := 70000\<rparr>]"
    by (simp add: run)
  show "db_execution_reservations (fst expired) = []" by (simp add: run)
  show "db_claims (fst expired) = []" by (simp add: run)
  show "db_fences (fst expired) = [\<lparr>fe_resource = ''task:t1'', fe_current_fence = 2\<rparr>]" by (simp add: run)
qed

end
