(* ===== verification/Managed_System.thy ===== *)
theory Managed_System
  imports Samples
begin

text \<open>
  The running system of managed work: any interleaving of the operations of the managed-work API
  with operations of the rest of the system that leave the three tables alone. Each operation is a
  serialized transaction (or two, for the ones that commit an expiry first), as the SQLite driver
  runs them. The theorems hold for every reachable database.
\<close>

section \<open>Steps\<close>

inductive managed_step :: "db \<Rightarrow> db \<Rightarrow> bool" where
  ms_configure: "managed_step s (fst (configure h c_configure orig canManage now s))"
| ms_enroll: "managed_step s (fst (enroll h c_enroll orig now s))"
| ms_edit: "managed_step s (fst (edit h i c_edit orig canManage now s))"
| ms_withdraw: "managed_step s (fst (withdraw h i c_rev orig canManage now s))"
| ms_claim: "managed_step s (fst (claimNext h c_claim orig allowsTask now s))"
| ms_expire: "managed_step s (fst (expire h now s))"
| ms_accept: "managed_step s (fst (accept_attempt h i c_auth orig now s))"
| ms_started: "managed_step s (fst (started h i c_started orig now s))"
| ms_heartbeat: "managed_step s (fst (attempt_heartbeat h i c_auth orig now s))"
| ms_finish: "managed_step s (fst (finish h i c_finish orig now s))"
| ms_cancel: "managed_step s (fst (requestCancellation h i c_rev orig canManage now s))"
| ms_suspend: "managed_step s (fst (requestSuspension h i c_rev orig canManage now s))"
| ms_confirm: "managed_step s (fst (confirmSuspension h i c_suspend orig now s))"
| ms_resume: "managed_step s (fst (requestResume h i c_rev orig canManage now s))"
| ms_claim_resume: "managed_step s (fst (claimResume h i c_resume orig now s))"
| ms_reconcile: "managed_step s (fst (reconcile h i c_reconcile orig canManage now s))"
| ms_rebind: "managed_step s (fst (rebind h i c_rebind orig canManage now s))"
| ms_retry: "managed_step s (fst (retry h i c_reason orig canManage now s))"
| ms_force: "managed_step s (fst (forceRecovery h i c_reason orig canManage now s))"
| ms_replace: "managed_step s (fst (replaceSession h i c_replace orig now s))"
| ms_correct: "managed_step s (fst (correct h i c_correct orig now s))"
| ms_elsewhere: "work_rows t = work_rows s \<Longrightarrow> managed_step s t"

lemmas op_refines_all = op_refines_configure op_refines_enroll op_refines_edit op_refines_withdraw
  op_refines_claimNext op_refines_expire op_refines_accept_attempt op_refines_started
  op_refines_attempt_heartbeat op_refines_finish op_refines_requestCancellation
  op_refines_requestSuspension op_refines_confirmSuspension op_refines_requestResume
  op_refines_claimResume op_refines_reconcile op_refines_rebind op_refines_retry
  op_refines_forceRecovery op_refines_replaceSession op_refines_correct

lemma op_refinesD:
  assumes "op_refines f" "work_ok s"
  shows "work_ok (fst (f s)) \<and> ledger_step\<^sup>*\<^sup>* (ledger_of s) (ledger_of (fst (f s)))"
  using assms unfolding op_refines_def by (metis prod.collapse)

lemma managed_refines:
  assumes "managed_step s t" "work_ok s"
  shows "work_ok t \<and> ledger_step\<^sup>*\<^sup>* (ledger_of s) (ledger_of t)"
  using assms(1)
proof cases
  case ms_elsewhere
  with work_rows_cong [of t s] assms(2) show ?thesis by simp
qed (simp_all only: op_refines_all [THEN op_refinesD, OF assms(2)])

lemma managed_reachable:
  assumes "managed_step\<^sup>*\<^sup>* s t" "work_ok s"
  shows "work_ok t" and "ledger_step\<^sup>*\<^sup>* (ledger_of s) (ledger_of t)"
proof -
  from assms have "work_ok t \<and> ledger_step\<^sup>*\<^sup>* (ledger_of s) (ledger_of t)"
    by (induction rule: rtranclp_induct) (use managed_refines in \<open>auto intro: rtranclp_trans\<close>)
  then show "work_ok t" "ledger_step\<^sup>*\<^sup>* (ledger_of s) (ledger_of t)" by blast+
qed

text \<open>A database in which managed work has not been used yet.\<close>

definition unmanaged :: "db \<Rightarrow> bool" where
  "unmanaged s = (work_rows s = ([], [], []))"

lemma unmanaged_ok: "unmanaged s \<Longrightarrow> work_ok s"
  by (auto simp: unmanaged_def work_rows_def work_ok_def keys_distinct_def ledger_of_def ledger_ok_def
      ledger_keys_def)

lemma reachable_ok: "unmanaged s \<Longrightarrow> managed_step\<^sup>*\<^sup>* s t \<Longrightarrow> work_ok t"
  by (blast intro: managed_reachable(1) unmanaged_ok)

section \<open>What every reachable database satisfies\<close>

lemma work_okD:
  assumes "work_ok s"
  shows "distinct (map wa_id (db_work_attempts s))" and "distinct (map qe_id (db_queue_entries s))"
    and "distinct (map xr_task_id (db_execution_reservations s))" and "ledger_ok (ledger_of s)"
    and "a \<in> set (db_work_attempts s) \<longleftrightarrow> lg_attempts (ledger_of s) (wa_id a) = Some a"
    and "e \<in> set (db_queue_entries s) \<longleftrightarrow> lg_entries (ledger_of s) (qe_id e) = Some e"
    and "r \<in> set (db_execution_reservations s) \<longleftrightarrow> lg_reservations (ledger_of s) (xr_task_id r) = Some r"
  using assms ledger_rows [of s] by (auto simp: work_ok_def keys_distinct_def)

lemma attempt_row_linked:
  assumes "work_ok s" "a \<in> set (db_work_attempts s)"
  shows "attempt_linked (ledger_of s) a"
  using work_okD(4,5) [OF assms(1)] assms(2) ledger_okD(5) by blast

lemma ledger_entry_row: "lg_entries (ledger_of s) i = Some e \<Longrightarrow> e \<in> set (db_queue_entries s) \<and> qe_id e = i"
  by (auto simp: ledger_sel_of dest: by_key_Some)

lemma ledger_attempt_row: "lg_attempts (ledger_of s) i = Some a \<Longrightarrow> a \<in> set (db_work_attempts s) \<and> wa_id a = i"
  by (auto simp: ledger_sel_of dest: by_key_Some)

lemma ledger_reservation_row:
  "lg_reservations (ledger_of s) t = Some r \<Longrightarrow> r \<in> set (db_execution_reservations s) \<and> xr_task_id r = t"
  by (auto simp: ledger_sel_of dest: by_key_Some)

lemma held_tasks:
  assumes "work_ok s"
  shows "xr_task_id ` {r \<in> set (db_execution_reservations s). xr_execution_held r}
    = wa_task_id ` {a \<in> set (db_work_attempts s). executing a}"
proof (intro equalityI image_subsetI)
  note ok = work_okD [OF assms]
  fix r assume "r \<in> {r \<in> set (db_execution_reservations s). xr_execution_held r}"
  then have "lg_reservations (ledger_of s) (xr_task_id r) = Some r" "xr_execution_held r" using ok(7) by auto
  then obtain i a where "lg_attempts (ledger_of s) i = Some a" "executing a" "wa_task_id a = xr_task_id r"
    using ledger_okD(7) [OF ok(4)] by blast
  then show "xr_task_id r \<in> wa_task_id ` {a \<in> set (db_work_attempts s). executing a}"
    using ledger_attempt_row by force
next
  fix a assume a: "a \<in> {a \<in> set (db_work_attempts s). executing a}"
  then have "attempt_linked (ledger_of s) a" "\<not> settled a"
    using attempt_row_linked [OF assms] executing_unsettled by auto
  then obtain r where "lg_reservations (ledger_of s) (wa_task_id a) = Some r" "xr_execution_held r"
    using a by (auto simp: attempt_linked_def)
  then show "wa_task_id a \<in> xr_task_id ` {r \<in> set (db_execution_reservations s). xr_execution_held r}"
    using ledger_reservation_row by force
qed

lemma attempts_one_per_task:
  assumes "work_ok s" "a \<in> set (db_work_attempts s)" "b \<in> set (db_work_attempts s)"
    and "\<not> settled a" "\<not> settled b" "wa_task_id a = wa_task_id b"
  shows "a = b"
proof -
  note ok = work_okD [OF assms(1)]
  have la: "lg_attempts (ledger_of s) (wa_id a) = Some a" "lg_attempts (ledger_of s) (wa_id b) = Some b"
    using ok(5) assms(2,3) by simp_all
  have "wa_id a = wa_id b" by (rule unsettled_unique [OF ok(4) la assms(4-6)])
  with la show ?thesis by (metis option.inject)
qed

lemma card_filter_key:
  assumes "distinct (map f xs)"
  shows "length (filter P xs) = card (f ` {x \<in> set xs. P x})"
proof -
  have inj: "inj_on f {x \<in> set xs. P x}" using assms by (simp add: distinct_map inj_on_def)
  have "distinct (filter P xs)" using assms by (simp add: distinct_map)
  from distinct_card [OF this] show ?thesis by (simp add: card_image [OF inj])
qed

lemma capacity_exact:
  assumes "work_ok s"
  shows "execution_count s = int (length (filter executing (db_work_attempts s)))"
proof -
  note ok = work_okD [OF assms]
  have "inj_on wa_task_id {a \<in> set (db_work_attempts s). executing a}"
    using attempts_one_per_task [OF assms] executing_unsettled by (intro inj_onI) blast
  then have "card (wa_task_id ` {a \<in> set (db_work_attempts s). executing a})
      = card {a \<in> set (db_work_attempts s). executing a}" by (rule card_image)
  also have "\<dots> = length (filter executing (db_work_attempts s))"
    using ok(1) by (simp add: distinct_map distinct_length_filter Int_def conj_commute)
  finally have "card (wa_task_id ` {a \<in> set (db_work_attempts s). executing a})
      = length (filter executing (db_work_attempts s))" .
  then show ?thesis
    unfolding execution_count_def card_filter_key [OF ok(3)] held_tasks [OF assms] by simp
qed

section \<open>Properties\<close>

subsection \<open>A reachable database with a running attempt\<close>

lemma sample_reachable:
  "unmanaged worker_db" "managed_step worker_db enrolled_db" "managed_step enrolled_db (fst claimed)"
  "managed_step\<^sup>*\<^sup>* worker_db (fst claimed)"
proof -
  show "unmanaged worker_db" by (simp add: unmanaged_def work_rows_def worker_sel)
  show e: "managed_step worker_db enrolled_db" unfolding enrolled_db_def by (rule ms_enroll)
  show c: "managed_step enrolled_db (fst claimed)" unfolding claimed_def by (rule ms_claim)
  from e c show "managed_step\<^sup>*\<^sup>* worker_db (fst claimed)" by (meson r_into_rtranclp rtranclp_trans)
qed

lemma sample_rows:
  "db_work_attempts enrolled_db = []" "db_work_attempts (fst claimed) = [sample_attempt]"
  "db_queue_entries (fst claimed) = [admitted_entry]" "execution_count (fst claimed) = 1"
proof -
  obtain j n where e: "enrolled_db = worker_db\<lparr>db_queue_entries := [sample_entry Queued], db_journal_seq := n,
     db_journal := j, db_queue_operation_receipts := [sample_receipt]\<rparr>" by (rule enrolled_db_eq)
  show "db_work_attempts enrolled_db = []" by (simp add: e worker_sel)
qed (simp_all add: claimed_rows)

lemma sample_work_ok: "work_ok worker_db" "work_ok enrolled_db" "work_ok (fst claimed)"
  using unmanaged_ok sample_reachable managed_refines by blast+

lemma expired_reachable: "managed_step\<^sup>*\<^sup>* worker_db (fst expired)"
  using sample_reachable(4) ms_expire unfolding expired_def by (rule rtranclp.rtrancl_into_rtrancl)

section \<open>Properties\<close>

text \<open>C7. Managed work refines the ledger: every operation of the queue, of the execution owner and of
  recovery, accepted or rejected, keeps the invariant of the three tables and moves them along a
  sequence of ledger steps.\<close>

theorem managed_work_refines:
  assumes "work_ok s" and "managed_step s t"
  shows "work_ok t \<and> ledger_step\<^sup>*\<^sup>* (ledger_of s) (ledger_of t)"
  by (rule managed_refines [OF assms(2,1)])

theorem managed_work_refines_witness:
  "work_ok (fst claimed) \<and> ledger_step\<^sup>*\<^sup>* (ledger_of enrolled_db) (ledger_of (fst claimed))
   \<and> lg_attempts (ledger_of enrolled_db) ''a1'' = None
   \<and> lg_attempts (ledger_of (fst claimed)) ''a1'' = Some sample_attempt"
  using managed_work_refines [OF sample_work_ok(2) sample_reachable(3)]
  by (simp add: ledger_sel_of sample_rows by_key_Cons) (simp add: sample_attempt_def)

text \<open>C8. Every row of managed work in a reachable database satisfies these declarations of the live
  schema: the ids of attempts and of entries and the tasks of reservations are distinct, a task has at most
  one unfinished entry, an attempt is terminal exactly when it has an outcome and exactly when it has an end
  time, its entry exists and is for the same task, and a reservation that holds execution also holds work
  in progress.\<close>

theorem managed_rows_typed:
  assumes "unmanaged s" and "managed_step\<^sup>*\<^sup>* s t"
  shows "distinct (map wa_id (db_work_attempts t)) \<and> distinct (map qe_id (db_queue_entries t))
    \<and> distinct (map xr_task_id (db_execution_reservations t))
    \<and> (\<forall>a\<in>set (db_work_attempts t). (wa_state a = Terminal) = (wa_outcome a \<noteq> None)
         \<and> (wa_state a = Terminal) = (wa_finished_at a \<noteq> None)
         \<and> (\<exists>e\<in>set (db_queue_entries t). qe_id e = wa_entry_id a \<and> qe_task_id e = wa_task_id a))
    \<and> (\<forall>e\<in>set (db_queue_entries t). \<forall>f\<in>set (db_queue_entries t).
         unfinished e \<and> unfinished f \<and> qe_task_id e = qe_task_id f \<longrightarrow> e = f)
    \<and> (\<forall>r\<in>set (db_execution_reservations t). xr_execution_held r \<longrightarrow> xr_wip_held r)"
proof (intro conjI ballI impI)
  note ok = reachable_ok [OF assms]
  note D = work_okD [OF ok]
  show "distinct (map wa_id (db_work_attempts t))" "distinct (map qe_id (db_queue_entries t))"
    "distinct (map xr_task_id (db_execution_reservations t))" by (rule D)+
  fix a assume "a \<in> set (db_work_attempts t)"
  from attempt_row_linked [OF ok this] obtain e where "outcome_recorded a"
    and e: "lg_entries (ledger_of t) (wa_entry_id a) = Some e" "qe_task_id e = wa_task_id a"
    by (auto simp: attempt_linked_def)
  then show "(wa_state a = Terminal) = (wa_outcome a \<noteq> None)" "(wa_state a = Terminal) = (wa_finished_at a \<noteq> None)"
    unfolding outcome_recorded_def by blast+
  from ledger_entry_row [OF e(1)] e(2)
  show "\<exists>e\<in>set (db_queue_entries t). qe_id e = wa_entry_id a \<and> qe_task_id e = wa_task_id a" by blast
next
  note D = work_okD [OF reachable_ok [OF assms]]
  fix e f assume "e \<in> set (db_queue_entries t)" "f \<in> set (db_queue_entries t)"
    and u: "unfinished e \<and> unfinished f \<and> qe_task_id e = qe_task_id f"
  then have l: "lg_entries (ledger_of t) (qe_id e) = Some e" "lg_entries (ledger_of t) (qe_id f) = Some f"
    using D(6) by simp_all
  have "qe_id e = qe_id f" using ledger_okD(6) [OF D(4) l] u by blast
  with l show "e = f" by (metis option.inject)
next
  note D = work_okD [OF reachable_ok [OF assms]]
  fix r assume "r \<in> set (db_execution_reservations t)"
  then show "xr_wip_held r" using D(7) ledger_okD(4) [OF D(4)] by blast
qed

theorem managed_rows_typed_witness:
  "sample_attempt \<in> set (db_work_attempts (fst claimed)) \<and> wa_outcome sample_attempt = None
   \<and> abandoned_attempt \<in> set (db_work_attempts (fst expired)) \<and> wa_outcome abandoned_attempt \<noteq> None"
  using managed_rows_typed [OF sample_reachable(1) sample_reachable(4)]
    managed_rows_typed [OF sample_reachable(1) expired_reachable]
  by (simp add: sample_rows expired_run) (simp add: sample_attempt_def new_attempt_def abandoned_attempt_def)

text \<open>C9. Execution capacity is exact: in every reachable database the reservations that hold
  execution are as many as the attempts that may be executing (reserved, starting, running or
  uncertain). Capacity is neither leaked nor given out twice.\<close>

theorem execution_capacity_exact:
  assumes "unmanaged s" and "managed_step\<^sup>*\<^sup>* s t"
  shows "execution_count t
    = int (length (filter (\<lambda>a. wa_state a \<in> {Reserved, Starting, Running, Uncertain}) (db_work_attempts t)))"
  using capacity_exact [OF reachable_ok [OF assms]] by (simp add: executing_def [abs_def])

theorem execution_capacity_exact_witness:
  "execution_count (fst claimed) = 1 \<and> execution_count (fst expired) = 0"
  using execution_capacity_exact [OF sample_reachable(1) sample_reachable(4)]
    execution_capacity_exact [OF sample_reachable(1) expired_reachable]
  by (simp add: sample_rows expired_run) (simp add: sample_attempt_def new_attempt_def abandoned_attempt_def)

text \<open>C10. At most one attempt per task is not terminal, and its entry is then admitted: no task is ever
  executed twice at once, whatever the retries, recoveries and expiries.\<close>

theorem one_live_attempt:
  assumes "unmanaged s" and "managed_step\<^sup>*\<^sup>* s t"
    and "a \<in> set (db_work_attempts t)" and "wa_state a \<noteq> Terminal"
  shows "(\<forall>b\<in>set (db_work_attempts t). wa_task_id b = wa_task_id a \<and> wa_state b \<noteq> Terminal \<longrightarrow> b = a)
    \<and> (\<exists>e\<in>set (db_queue_entries t). qe_id e = wa_entry_id a \<and> qe_state e = Admitted)"
proof (intro conjI ballI impI)
  note ok = reachable_ok [OF assms(1,2)]
  show "b = a" if "b \<in> set (db_work_attempts t)" "wa_task_id b = wa_task_id a \<and> wa_state b \<noteq> Terminal" for b
    using attempts_one_per_task [OF ok that(1) assms(3)] assms(4) that(2) by (simp add: settled_def)
  from attempt_row_linked [OF ok assms(3)] assms(4) obtain e where
    "lg_entries (ledger_of t) (wa_entry_id a) = Some e" "qe_state e = Admitted"
    by (auto simp: attempt_linked_def settled_def)
  then show "\<exists>e\<in>set (db_queue_entries t). qe_id e = wa_entry_id a \<and> qe_state e = Admitted"
    using ledger_entry_row by blast
qed

theorem one_live_attempt_witness:
  "\<exists>e\<in>set (db_queue_entries (fst claimed)). qe_id e = wa_entry_id sample_attempt \<and> qe_state e = Admitted"
  using one_live_attempt [OF sample_reachable(1) sample_reachable(4), of sample_attempt] sample_rows(2)
  by (simp add: sample_attempt_def)

text \<open>C11. A finished attempt is frozen: once its row is terminal, no operation changes it or removes it,
  so its outcome is the one that was recorded first.\<close>

theorem finished_attempt_frozen:
  assumes "unmanaged s" and "managed_step\<^sup>*\<^sup>* s t" and "managed_step\<^sup>*\<^sup>* t u"
    and "a \<in> set (db_work_attempts t)" and "wa_state a = Terminal"
  shows "a \<in> set (db_work_attempts u) \<and> (\<forall>b\<in>set (db_work_attempts u). wa_id b = wa_id a \<longrightarrow> b = a)"
proof (intro conjI ballI impI)
  note ok = reachable_ok [OF assms(1,2)]
  have u: "work_ok u" "ledger_step\<^sup>*\<^sup>* (ledger_of t) (ledger_of u)" by (rule managed_reachable [OF assms(3) ok])+
  have "lg_attempts (ledger_of t) (wa_id a) = Some a" by (rule work_okD(5) [OF ok, THEN iffD1, OF assms(4)])
  from ledger.frozen [OF u(2) work_okD(4) [OF ok] this] assms(5)
  have a: "lg_attempts (ledger_of u) (wa_id a) = Some a" by (simp add: settled_def)
  then show "a \<in> set (db_work_attempts u)" by (rule work_okD(5) [OF u(1), THEN iffD2])
  show "b = a" if "b \<in> set (db_work_attempts u)" "wa_id b = wa_id a" for b
    using work_okD(5) [OF u(1), THEN iffD1, OF that(1)] a that(2) by (metis option.inject)
qed

theorem finished_attempt_frozen_witness:
  "abandoned_attempt \<in> set (db_work_attempts
     (fst (claimNext (project_host 70001 ''a2'') sample_claim (system_origin ''v'') (\<lambda>_. True) 70001 (fst expired))))"
proof -
  have "managed_step\<^sup>*\<^sup>* (fst expired) (fst (claimNext (project_host 70001 ''a2'') sample_claim (system_origin ''v'')
    (\<lambda>_. True) 70001 (fst expired)))" by (rule r_into_rtranclp) (rule ms_claim)
  from finished_attempt_frozen [OF sample_reachable(1) expired_reachable this, of abandoned_attempt]
  show ?thesis by (simp add: expired_run) (simp add: abandoned_attempt_def)
qed

end
