(* ===== verification/Dispatch.thy ===== *)
theory Dispatch
  imports Managed_System
begin

text \<open>
  What dispatch promises: \<open>claimNext\<close> stays within the execution limit of the policy, picks the first
  eligible entry of the backlog in priority order, and grants whenever there is one.
\<close>

section \<open>What an expiry leaves alone\<close>

definition settings :: "db \<Rightarrow> queue_policy_row option \<times> queue_receipt list" where
  "settings s = (db_queue_policy s, db_queue_operation_receipts s)"

definition expiry_bound :: "queue_policy_row option \<times> queue_receipt list \<Rightarrow> int \<Rightarrow> db \<Rightarrow> bool" where
  "expiry_bound c n s = (settings s = c \<and> execution_count s \<le> n)"

lemma expiry_bound_simps [simp]:
  "expiry_bound c n (s\<lparr>db_gates := g, db_journal_seq := m, db_journal := js\<rparr>) = expiry_bound c n s"
  "expiry_bound c n (s\<lparr>db_journal_seq := m, db_journal := js\<rparr>) = expiry_bound c n s"
  "expiry_bound c n (s\<lparr>db_claims := cs, db_fences := fs\<rparr>) = expiry_bound c n s"
  "expiry_bound c n (s\<lparr>db_work_questions := qs\<rparr>) = expiry_bound c n s"
  "expiry_bound c n (s\<lparr>db_work_attempts := as\<rparr>) = expiry_bound c n s"
  "expiry_bound c n (set_expiry r t s) = expiry_bound c n s"
  "expiry_bound c n (bump_fence r s) = expiry_bound c n s"
  "expiry_bound c n (drop_claim r s) = expiry_bound c n s"
  "expiry_bound c n (add_claim k s) = expiry_bound c n s"
  "expiry_bound c n (set_entity i d t s) = expiry_bound c n s"
  "expiry_bound c n (set_entry i f s) = expiry_bound c n s"
  by (simp_all add: expiry_bound_def settings_def execution_count_def set_expiry_def bump_fence_def drop_claim_def
      add_claim_def set_entity_def set_entry_def)

lemma count_filter_le: "(\<And>x. P (f x) \<Longrightarrow> P x) \<Longrightarrow> length (filter P (rows_set Q f t)) \<le> length (filter P t)"
  by (induction t) (auto simp: rows_set_def)

lemma count_delete_le: "length (filter P (rows_delete Q t)) \<le> length (filter P t)"
  by (induction t) (auto simp: rows_delete_def)

lemma expiry_bound_reservations:
  "expiry_bound c n s \<Longrightarrow> expiry_bound c n (delete_reservation t s)"
  "expiry_bound c n s \<Longrightarrow> expiry_bound c n (s\<lparr>db_execution_reservations := rows_set Q
     (\<lambda>r. r\<lparr>xr_execution_held := False, xr_updated_at := now\<rparr>) (db_execution_reservations s)\<rparr>)"
  using count_delete_le [of xr_execution_held "\<lambda>r. xr_task_id r = t" "db_execution_reservations s"]
    count_filter_le [of xr_execution_held "\<lambda>r. r\<lparr>xr_execution_held := False, xr_updated_at := now\<rparr>" Q
      "db_execution_reservations s"]
  by (simp_all add: expiry_bound_def settings_def execution_count_def delete_reservation_def)

lemma bound_event [tx_wp]: "tx_inv (expiry_bound c n) (event h kind res orig fs fence)"
  unfolding event_def by (intro tx_inv_appendJournal) simp

lemma bound_revoke [tx_wp]: "tx_inv (expiry_bound c n) (revoke a)"
  unfolding revoke_def by (intro tx_inv_write) simp

lemma bound_acquire [tx_wp]: "tx_inv (expiry_bound c n) (acquireInTransaction h res orig mode ttl md now)"
  unfolding acquireInTransaction_def fresh_claim_def by (intro tx_wp tx_inv_write; simp)

lemma bound_invalidate [tx_wp]: "tx_inv (expiry_bound c n) (invalidateQuestions h i why orig now)"
  unfolding invalidateQuestions_def saveQuestion_def event_def Let_def by (intro tx_wp tx_inv_write; simp)

lemma bound_update [tx_wp]: "tx_inv (expiry_bound c n) (updateInTransaction h i data fence orig tags now internal)"
  unfolding updateInTransaction_def Let_def
  by (intro tx_wp tx_inv_write update_authority_frame tx_inv_replace_tags;
      simp add: put_search_doc_def expiry_bound_def settings_def execution_count_def set_entity_def)

lemma bound_transition [tx_wp]: "tx_inv (expiry_bound c n) (transitionTask h a orig t now)"
  unfolding transitionTask_def by (intro tx_wp)

lemma bound_get_attempt [tx_wp]: "tx_inv (expiry_bound c n) (get_attempt i)"
  unfolding get_attempt_def by (intro tx_wp)

lemma bound_change [tx_wp]: "tx_inv (expiry_bound c n) (change a f now)"
  unfolding change_def by (intro tx_wp tx_inv_write) simp

lemma bound_refence [tx_wp]: "tx_inv (expiry_bound c n) (refence h a owner now actor f)"
  unfolding refence_def Let_def by (intro tx_wp tx_inv_write; simp)

lemma bound_schedule [tx_wp]: "tx_inv (expiry_bound c n) (scheduleRetryInTransaction h a orig now at why)"
  unfolding tx_valid_def scheduleRetryInTransaction_def
  by (auto simp: tx_bind_ok tx_seq_ok rows_insert_Some expiry_bound_def settings_def execution_count_def set_entry_def
      event_def appendJournal_def split: option.split_asm)

lemma bound_finish [tx_wp]: "tx_inv (expiry_bound c n) (finishInTransaction h a o' orig now b actor)"
  unfolding finishInTransaction_def
  by (intro tx_wp tx_inv_write expiry_bound_reservations; simp split: prod.split option.split)
    (intro allI conjI impI tx_wp)

lemma bound_abandon [tx_wp]: "tx_inv (expiry_bound c n) (abandon_reservation a now)"
  unfolding abandon_reservation_def
  by (intro tx_wp tx_inv_write; simp add: expiry_bound_reservations)

lemma bound_expire: "tx_inv (expiry_bound c n) (expireInTransaction h now)"
  unfolding expireInTransaction_def expire_attempt_def Let_def
  by (intro tx_wp)

text \<open>An expiry keeps the policy and the receipts, and frees capacity at most.\<close>

lemma expiry_keeps:
  assumes "expireInTransaction h now s = Inr (n, s')"
  shows "policy s' = policy s" and "db_queue_operation_receipts s' = db_queue_operation_receipts s"
    and "execution_count s' \<le> execution_count s"
proof -
  have "expiry_bound (settings s) (execution_count s) s" by (simp add: expiry_bound_def)
  with bound_expire assms have "expiry_bound (settings s) (execution_count s) s'"
    unfolding tx_valid_def by blast
  then show "policy s' = policy s" "db_queue_operation_receipts s' = db_queue_operation_receipts s"
    "execution_count s' \<le> execution_count s"
    by (simp_all add: expiry_bound_def settings_def policy_def)
qed

section \<open>The choice of an entry\<close>

definition grantable :: "db \<Rightarrow> claim_command \<Rightarrow> request_origin \<Rightarrow> readiness_snapshot \<Rightarrow> int \<Rightarrow> queue_entry \<Rightarrow> bool" where
  "grantable s input orig sn now e = (eligible s input orig sn now e \<and> \<not> wip_blocked s (policy s) (wip_count s) e)"

lemma claim_loop_find:
  "claim_loop h input orig (policy s) (wip_count s) sn now es b s =
    (case List.find (grantable s input orig sn now) es of
       Some e \<Rightarrow> grant_entry h e orig (policy s) now s
     | None \<Rightarrow> denied h orig (policy s)
         (if b \<or> list_ex (eligible s input orig sn now) es then ''wip_capacity'' else ''blocked'') s)"
proof (induction es arbitrary: b)
  case (Cons e es)
  show ?case
    unfolding claim_loop.simps tx_bind_def tx_read_def
    using Cons by (auto simp: grantable_def split: option.split)
qed simp

text \<open>A claim of an enabled queue with spare capacity.\<close>

definition open_queue :: "db \<Rightarrow> bool" where
  "open_queue s = (po_enabled (policy s) \<and> \<not> po_paused (policy s)
     \<and> (case po_execution_limit (policy s) of None \<Rightarrow> False | Some l \<Rightarrow> execution_count s < l))"

lemma claim_run_open:
  assumes "open_queue s" "backlog s allows \<noteq> []" "readReadinessSnapshot h s now False = Inr sn"
  shows "claim_run h input orig allows now s =
    (case List.find (grantable s input orig sn now) (backlog s allows) of
       Some e \<Rightarrow> grant_entry h e orig (policy s) now s
     | None \<Rightarrow> denied h orig (policy s)
         (if list_ex (eligible s input orig sn now) (backlog s allows) then ''wip_capacity'' else ''blocked'') s)"
proof -
  obtain l where l: "po_execution_limit (policy s) = Some l" "execution_count s < l"
    using assms(1) by (auto simp: open_queue_def split: option.split_asm)
  have "claim_run h input orig allows now s =
      claim_loop h input orig (policy s) (wip_count s) sn now (backlog s allows) False s"
    using assms l by (simp add: claim_run_def open_queue_def occupancy_def tx_eval)
  then show ?thesis unfolding claim_loop_find by simp
qed

lemma denied_result:
  assumes "denied h orig current why s = Inr (x, s')"
  shows "x = [(''reason'', JStr why), (''policy_revision'', JNum (po_revision current))]"
    and "work_rows s' = work_rows s" and "settings s' = settings s"
  using assms by (auto simp: denied_def Let_def tx_seq_ok event_def appendJournal_def settings_def)

text \<open>A successful claim either records a refusal or grants one entry of the backlog.\<close>

lemma claim_run_cases:
  assumes "claim_run h input orig allows now s = Inr (x, s')"
  obtains (Denied) why where "denied h orig (policy s) why s = Inr (x, s')"
  | (Granted) sn es e fs where "open_queue s" "readReadinessSnapshot h s now False = Inr sn"
      "backlog s allows = es @ e # fs" "grantable s input orig sn now e"
      "\<forall>f\<in>set es. \<not> grantable s input orig sn now f" "grant_entry h e orig (policy s) now s = Inr (x, s')"
proof (cases "open_queue s \<and> backlog s allows \<noteq> []")
  case False
  then obtain why where "denied h orig (policy s) why s = Inr (x, s')"
    using assms by (auto simp: claim_run_def tx_bind_ok open_queue_def occupancy_def split: if_split_asm option.split_asm)
  then show thesis by (rule Denied)
next
  case True
  with assms obtain sn where sn: "readReadinessSnapshot h s now False = Inr sn"
    by (auto simp: claim_run_def tx_bind_ok open_queue_def occupancy_def split: if_split_asm option.split_asm)
  note run = assms [unfolded claim_run_open [OF conjunct1 [OF True] conjunct2 [OF True] sn]]
  show thesis
  proof (cases "List.find (grantable s input orig sn now) (backlog s allows)")
    case None
    with run show thesis by (simp add: Denied)
  next
    case (Some e)
    then obtain i where i: "i < length (backlog s allows)" "grantable s input orig sn now e"
      "e = backlog s allows ! i" "\<forall>j<i. \<not> grantable s input orig sn now (backlog s allows ! j)"
      by (auto simp: find_Some_iff)
    show thesis
    proof (rule Granted [OF conjunct1 [OF True] sn])
      show "backlog s allows = take i (backlog s allows) @ e # drop (Suc i) (backlog s allows)"
        using i(1,3) by (simp add: id_take_nth_drop)
      show "\<forall>f\<in>set (take i (backlog s allows)). \<not> grantable s input orig sn now f"
        using i(1,4) by (auto simp: in_set_conv_nth)
      show "grant_entry h e orig (policy s) now s = Inr (x, s')" using run Some by simp
    qed (rule i(2))
  qed
qed

section \<open>A grant\<close>

lemma execution_count_cong: "work_rows t = work_rows s \<Longrightarrow> execution_count t = execution_count s"
  by (simp add: execution_count_def work_rows_def)

lemma work_rows_attempts:
  "work_rows t = work_rows s \<Longrightarrow> db_work_attempts t = db_work_attempts s"
  "work_rows t = work_rows s \<Longrightarrow> db_queue_entries t = db_queue_entries s"
  by (simp_all add: work_rows_def)

text \<open>The effect of a reservation on the rows: one more attempt, reserved for the caller, and the
  entry admitted.\<close>

lemma grant_effect:
  assumes ok: "work_ok s" and e: "lg_entries (ledger_of s) (qe_id e) = Some e" "qe_state e = Queued"
    and run: "grant_entry h e orig current now s = Inr (x, s')"
  obtains a f where "x = [(''attempt_id'', JStr (wa_id a)), (''fence'', JNum (wa_fence a)),
      (''entry_id'', JStr (qe_id e)), (''policy_revision'', JNum (po_revision current))]"
    and "work_ok s'" "db_work_attempts s' = db_work_attempts s @ [a]" "wa_id a = random_uuid h"
    and "by_key wa_id (wa_id a) (db_work_attempts s') = Some a"
    and "wa_entry_id a = qe_id e" "wa_task_id a = qe_task_id e" "wa_state a = Reserved"
    and "wa_principal_id a = or_principalId orig" "wa_participant_id a = or_participantId orig"
    and "by_key qe_id (qe_id e) (db_queue_entries s') = Some f" "qe_id f = qe_id e" "qe_state f = Admitted"
    and "execution_count s' = execution_count s + 1"
proof -
  from run obtain pred b where r: "reserveInTransaction h e orig (po_lease_ms current) now pred s = Inr (b, s')"
    and x: "x = [(''attempt_id'', JStr (wa_id b)), (''fence'', JNum (wa_fence b)),
      (''entry_id'', JStr (qe_id e)), (''policy_revision'', JNum (po_revision current))]"
    by (auto simp: grant_entry_def tx_bind_ok)
  have ok': "work_ok s'" by (rule refines_at_ok(1) [OF refines_reserve [OF ok e] ok r])
  from r show thesis
  proof (rule reserve_run)
    fix s1 s2 a q
    assume eq: "work_rows s1 = work_rows s" and ins: "insert_attempt a s1 = Inr ((), s2)"
      and a: "wa_id a = random_uuid h" "wa_entry_id a = qe_id e" "wa_task_id a = qe_task_id e" "wa_state a = Reserved"
        "wa_principal_id a = or_principalId orig" "wa_participant_id a = or_participantId orig"
      and s': "work_rows s' = work_rows (set_entry (qe_id e) (\<lambda>x. x\<lparr>qe_state := Admitted,
          qe_revision := qe_revision e + 1, qe_updated_at := now\<rparr>) (put_reservation q s2))"
      and b: "by_key wa_id (random_uuid h) (db_work_attempts s') = Some b"
    have new: "wa_id a \<notin> wa_id ` set (db_work_attempts s1)"
      and s2: "s2 = s1\<lparr>db_work_attempts := db_work_attempts s1 @ [a]\<rparr>"
      using ins by (auto simp: insert_attempt_def tx_bind_ok tx_seq_ok)
    have rows: "db_work_attempts s' = db_work_attempts s @ [a]"
      using work_rows_attempts(1) [OF s'] work_rows_attempts(1) [OF eq]
      by (simp add: s2 set_entry_def put_reservation_def)
    have "by_key wa_id (random_uuid h) (db_work_attempts s) = None"
      using new a(1) work_rows_attempts(1) [OF eq] by (simp add: by_key_None)
    with b rows a(1) have ba: "b = a" by (simp add: by_key_append by_key_Cons)
    have entries: "db_queue_entries s' = rows_set (\<lambda>x. qe_id x = qe_id e) (\<lambda>x. x\<lparr>qe_state := Admitted,
          qe_revision := qe_revision e + 1, qe_updated_at := now\<rparr>) (db_queue_entries s)"
      using work_rows_attempts(2) [OF s'] work_rows_attempts(2) [OF eq]
      by (simp add: s2 set_entry_def put_reservation_def)
    have "execution_count s' = execution_count s + 1"
      unfolding capacity_exact [OF ok'] capacity_exact [OF ok] rows using a(4) by (simp add: executing_def)
    then show thesis
      using e(1) b a x ok' rows entries ba
      by (intro that [of a "e\<lparr>qe_state := Admitted, qe_revision := qe_revision e + 1, qe_updated_at := now\<rparr>"])
        (simp_all add: by_key_set ledger_sel_of)
  qed
qed

text \<open>A claim, unfolded: the expiry, the command, the view.\<close>

lemma claimNext_run:
  assumes "claimNext h input orig allows now s = (s', Inr r)"
  obtains n s1 x where "expireInTransaction h now s = Inr (n, s1)"
    and "run_command ''claim-next'' orig (cm_idempotency_key input) (claim_json input)
      (claim_run h input orig allows now) None None now s1 = Inr (x, s')"
    and "claim_view h orig allows now x s' = Inr (r, s')"
proof -
  from assms obtain n s1 x s2 where "expireInTransaction h now s = Inr (n, s1)"
    and c: "run_command ''claim-next'' orig (cm_idempotency_key input) (claim_json input)
      (claim_run h input orig allows now) None None now s1 = Inr (x, s2)"
    and v: "claim_view h orig allows now x s2 = Inr (r, s')"
    by (auto simp: claimNext_def commit_ok tx_bind_ok tx_seq_ok split: if_split_asm)
  moreover have "s' = s2" by (rule tx_frameD [OF read_claim_view v])
  ultimately show thesis by (intro that) simp_all
qed

lemma run_command_cases:
  assumes "run_command operation orig key input run el al now s = Inr (x, s')"
  obtains (Replayed) q where "receipt_of s (receipt_key orig operation key) = Some q" "x = qr_result q" "s' = s"
  | (Executed) s1 t where "receipt_of s (receipt_key orig operation key) = None" "run s = Inr (x, s1)"
      "s' = s1\<lparr>db_queue_operation_receipts := t\<rparr>"
  using assms unfolding run_command_def run_receipted_def
  by (auto simp: tx_bind_ok tx_seq_ok split: option.split_asm if_split_asm)

lemma expire_state:
  assumes "work_ok s" "expireInTransaction h now s = Inr (n, s1)"
  shows "work_ok s1" and "expire h now s = (s1, Inr n)"
  using refines_at_ok(1) [OF refinesD [OF refines_expire assms(1)] assms(1,2)] assms(2)
  by (simp_all add: expire_def commit_def)

section \<open>Properties\<close>

text \<open>C12. A claim never exceeds the execution limit: whatever was held before, after \<open>claimNext\<close> the
  held reservations are at most the limit of the policy, or at most what they were.\<close>

theorem claim_within_limit:
  assumes "unmanaged s0" and "managed_step\<^sup>*\<^sup>* s0 s"
    and "claimNext h input orig allows now s = (s', r)"
  shows "execution_count s' \<le> max (execution_count s)
    (case po_execution_limit (policy s) of None \<Rightarrow> 0 | Some l \<Rightarrow> l)"
proof (cases r)
  case (Inl e)
  with assms(3) have "s' = s" by (auto simp: claimNext_def commit_error split: if_split_asm)
  then show ?thesis by simp
next
  case (Inr v)
  with assms(3) obtain n s1 x where ex: "expireInTransaction h now s = Inr (n, s1)"
    and c: "run_command ''claim-next'' orig (cm_idempotency_key input) (claim_json input)
      (claim_run h input orig allows now) None None now s1 = Inr (x, s')"
    by (blast elim: claimNext_run)
  note ok = expire_state(1) [OF reachable_ok [OF assms(1,2)] ex]
  note kept = expiry_keeps [OF ex]
  from c show ?thesis
  proof (cases rule: run_command_cases)
    case (Replayed q)
    with kept(3) show ?thesis by simp
  next
    case (Executed s2 t)
    have s': "execution_count s' = execution_count s2" using Executed(3) by (simp add: execution_count_def)
    from Executed(2) show ?thesis
    proof (cases rule: claim_run_cases)
      case (Denied why)
      from execution_count_cong [OF denied_result(2) [OF this]] s' kept(3) show ?thesis by simp
    next
      case (Granted sn es e fs)
      then have "e \<in> set (backlog s1 allows)" by simp
      from grant_effect [OF ok backlog_rows(1,2) [OF _ this] Granted(6)] ok
      have "execution_count s2 = execution_count s1 + 1" by (auto simp: work_ok_def)
      with s' Granted(1) kept(1) show ?thesis by (auto simp: open_queue_def split: option.split_asm)
    qed
  qed
qed

lemma claimed_policy: "policy (fst claimed) = \<lparr>po_enabled = True, po_paused = False, po_execution_limit = Some 1,
    po_wip_limit = None, po_lease_ms = 60000, po_revision = 1\<rparr>"
proof -
  obtain j n where c: "fst claimed = claimed_shape n j" by (rule claimed_run)
  show ?thesis by (simp add: c claimed_shape_def policy_def worker_sel)
qed

text \<open>The only slot is taken: a second worker's claim leaves the count at one.\<close>

theorem claim_within_limit_witness:
  "execution_count (fst claimed) = 1 \<and> po_execution_limit (policy (fst claimed)) = Some 1
   \<and> execution_count (fst (claimNext (project_host 3 ''a2'') sample_claim (system_origin ''v'') (\<lambda>_. True) 3
       (fst claimed))) \<le> 1"
  using claim_within_limit [OF sample_reachable(1) sample_reachable(4) surjective_pairing,
    of "project_host 3 ''a2''" sample_claim "system_origin ''v''" "\<lambda>_. True" 3]
  by (simp add: sample_rows claimed_policy)

definition rank :: "queue_entry \<Rightarrow> int \<times> int \<times> string" where
  "rank e = (- qe_priority e, qe_enqueue_order e, qe_id e)"

lemma backlog_sorted: "sorted (map rank (backlog s allows))"
  unfolding backlog_def queue_ordered_def rank_def [abs_def] by (intro sorted_filter) simp

lemma claim_granted:
  assumes ok: "work_ok s" and "claimNext h input orig allows now s = (s', Inr (Granted e v pr))"
    and fresh: "receipt_of s (receipt_key orig ''claim-next'' (cm_idempotency_key input)) = None"
  obtains n s1 sn es q fs a where "expire h now s = (s1, Inr n)" "open_queue s1"
    "readReadinessSnapshot h s1 now False = Inr sn" "backlog s1 allows = es @ q # fs"
    "grantable s1 input orig sn now q" "\<forall>f\<in>set es. \<not> grantable s1 input orig sn now f"
    "qe_id e = qe_id q" "qe_state e = Admitted" "vw_attempt v = a" "wa_entry_id a = qe_id q" "wa_state a = Reserved"
    "held_by_owner a orig" "db_work_attempts s' = db_work_attempts s1 @ [a]"
proof -
  from assms(2) obtain n s1 x where ex: "expireInTransaction h now s = Inr (n, s1)"
    and c: "run_command ''claim-next'' orig (cm_idempotency_key input) (claim_json input)
      (claim_run h input orig allows now) None None now s1 = Inr (x, s')"
    and view: "claim_view h orig allows now x s' = Inr (Granted e v pr, s')"
    by (rule claimNext_run)
  note ok1 = expire_state [OF ok ex]
  have "receipt_of s1 (receipt_key orig ''claim-next'' (cm_idempotency_key input)) = None"
    using fresh expiry_keeps(2) [OF ex] by (simp add: receipt_of_def)
  then obtain s2 t where run: "claim_run h input orig allows now s1 = Inr (x, s2)"
    and s': "s' = s2\<lparr>db_queue_operation_receipts := t\<rparr>"
    using run_command_cases [OF c] by (metis option.distinct(1))
  from run show thesis
  proof (cases rule: claim_run_cases)
    case (Denied why)
    then have "x = [(''reason'', JStr why), (''policy_revision'', JNum (po_revision (policy s1)))]"
      by (rule denied_result)
    with view show thesis by (simp add: claim_view_def obj_has_def)
  next
    case (Granted sn es q fs)
    then have "q \<in> set (backlog s1 allows)" by simp
    then have q: "lg_entries (ledger_of s1) (qe_id q) = Some q" "qe_state q = Queued"
      using backlog_rows(1,2) ok1(1) by (auto simp: work_ok_def)
    show thesis
    proof (rule grant_effect [OF ok1(1) q Granted(6)])
      fix a f
      assume x: "x = [(''attempt_id'', JStr (wa_id a)), (''fence'', JNum (wa_fence a)),
          (''entry_id'', JStr (qe_id q)), (''policy_revision'', JNum (po_revision (policy s1)))]"
        and a: "db_work_attempts s2 = db_work_attempts s1 @ [a]"
          "by_key wa_id (wa_id a) (db_work_attempts s2) = Some a" "wa_entry_id a = qe_id q" "wa_state a = Reserved"
          "wa_principal_id a = or_principalId orig" "wa_participant_id a = or_participantId orig"
        and f: "by_key qe_id (qe_id q) (db_queue_entries s2) = Some f" "qe_id f = qe_id q" "qe_state f = Admitted"
      have "e = f" "vw_attempt v = a"
        using view a f unfolding x
        by (auto simp: claim_view_def obj_has_def as_string_def tx_bind_ok tx_seq_ok get_attempt_ok get_entry_ok
            attempts_view_def s')
      with a f Granted ok1(2) show thesis
        by (intro that [of s1 n sn es q fs a]) (simp_all add: held_by_owner_def s')
    qed
  qed
qed

text \<open>C13. A granted claim picks the best entry: the first, by descending priority and then by order of
  enrolment, of the queued entries the caller may see that are ready, meet the caller's target and
  capabilities and fit in the work-in-progress limit. The entry is admitted and its new attempt is
  reserved for the caller.\<close>

theorem claim_grants_first:
  assumes "unmanaged s0" and "managed_step\<^sup>*\<^sup>* s0 s"
    and "claimNext h input orig allows now s = (s', Inr (Granted e v pr))"
    and "receipt_of s (receipt_key orig ''claim-next'' (cm_idempotency_key input)) = None"
  shows "\<exists>s1 n sn q. expire h now s = (s1, Inr n) \<and> readReadinessSnapshot h s1 now False = Inr sn
    \<and> q \<in> set (backlog s1 allows) \<and> grantable s1 input orig sn now q
    \<and> (\<forall>f\<in>set (backlog s1 allows). rank f < rank q \<longrightarrow> \<not> grantable s1 input orig sn now f)
    \<and> qe_id e = qe_id q \<and> qe_state e = Admitted
    \<and> wa_entry_id (vw_attempt v) = qe_id q \<and> wa_state (vw_attempt v) = Reserved \<and> held_by_owner (vw_attempt v) orig"
proof (rule claim_granted [OF reachable_ok [OF assms(1,2)] assms(3,4)])
  fix n s1 sn es q fs a
  assume s1: "expire h now s = (s1, Inr n)" "readReadinessSnapshot h s1 now False = Inr sn"
    and b: "backlog s1 allows = es @ q # fs" and q: "grantable s1 input orig sn now q"
    and es: "\<forall>f\<in>set es. \<not> grantable s1 input orig sn now f"
    and r: "qe_id e = qe_id q" "qe_state e = Admitted" "vw_attempt v = a" "wa_entry_id a = qe_id q" "wa_state a = Reserved"
      "held_by_owner a orig"
  have "rank q \<le> rank f" if "f \<in> set fs" for f
    using backlog_sorted [of s1 allows] that unfolding b by (simp add: sorted_append)
  then have "\<not> grantable s1 input orig sn now f" if "f \<in> set (backlog s1 allows)" "rank f < rank q" for f
    using that es unfolding b by (auto simp: not_less [symmetric])
  with s1 b q r show ?thesis by (intro exI [of _ s1] exI [of _ n] exI [of _ sn] exI [of _ q]) auto
qed

lemma enrolled_fresh: "receipt_of enrolled_db (receipt_key (system_origin ''w'') ''claim-next'' (cm_idempotency_key sample_claim)) = None"
proof -
  obtain j n where e: "enrolled_db = worker_db\<lparr>db_queue_entries := [sample_entry Queued], db_journal_seq := n,
     db_journal := j, db_queue_operation_receipts := [sample_receipt]\<rparr>" by (rule enrolled_db_eq)
  show ?thesis by (simp add: e receipt_of_def by_key_Cons receipt_key_inj sample_sel)
qed

lemma enrolled_reachable: "managed_step\<^sup>*\<^sup>* worker_db enrolled_db"
  using sample_reachable(2) by (rule r_into_rtranclp)

lemma claimed_result: "claimNext (project_host 2 ''a1'') sample_claim (system_origin ''w'') (\<lambda>_. True) 2 enrolled_db
    = (fst claimed, Inr (Granted admitted_entry sample_view (Some (JNum 1))))"
proof -
  have "snd claimed = Inr (Granted admitted_entry sample_view (Some (JNum 1)))" by (rule claimed_run)
  then show ?thesis by (simp add: claimed_def prod_eq_iff)
qed

theorem claim_grants_first_witness:
  "\<exists>s1 n q. expire (project_host 2 ''a1'') 2 enrolled_db = (s1, Inr n) \<and> q \<in> set (backlog s1 (\<lambda>_. True))
    \<and> qe_id q = ''e1'' \<and> wa_entry_id (vw_attempt sample_view) = ''e1''"
  using claim_grants_first [OF sample_reachable(1) enrolled_reachable claimed_result enrolled_fresh]
  by (elim exE conjE) (auto simp: sample_view_def sample_attempt_def admitted_entry_def)

section \<open>Progress\<close>

lemma grantable_facts:
  assumes "grantable s input orig sn now e" "readReadinessSnapshot h s now False = Inr sn"
  obtains task where "entity_by_id s (qe_task_id e) = Some task"
    and "case reservation_of s (qe_task_id e) of None \<Rightarrow> True
      | Some p \<Rightarrow> \<not> xr_execution_held p \<and> xr_entry_id p = qe_id e"
    and "case lookupClaim s (en_type task @ '':'' @ en_id task) of None \<Rightarrow> True | Some c \<Rightarrow> cl_expires_at c \<le> now"
    and "\<not> list_ex (\<lambda>b. wa_task_id b = qe_task_id e \<and> wa_state b \<noteq> Terminal) (db_work_attempts s)"
proof -
  from assms(1) have r: "evaluateReadiness sn (qe_task_id e) True = []" "\<not> claimed_directly s sn (qe_task_id e) now"
    "\<not> attempt_active s (qe_task_id e)" "\<not> execution_unresolved s e"
    by (auto simp: grantable_def eligible_def entryReasons_def Let_def split: if_split_asm)
  from r(1) snapshot_facts(1) [OF assms(2)] obtain task where task: "entity_by_id s (qe_task_id e) = Some task"
    by (auto simp: evaluateReadiness_def split: option.split_asm)
  show thesis
    using that [OF task] r task snapshot_facts(1) [OF assms(2)]
    by (fastforce simp: claimed_directly_def attempt_active_def execution_unresolved_def not_less split: option.splits)
qed

lemma acquire_succeeds:
  assumes "canonicalResource s res = res"
    and "case lookupClaim s res of None \<Rightarrow> True | Some c \<Rightarrow> cl_expires_at c \<le> now"
  obtains g s1 where "acquireInTransaction h res orig Exclusive ttl md now s = Inr (g, s1)" "aq_acquired g"
    "work_rows s1 = work_rows s" "db_queue_operation_receipts s1 = db_queue_operation_receipts s"
proof -
  have "\<exists>g s1. acquireInTransaction h res orig Exclusive ttl md now s = Inr (g, s1) \<and> aq_acquired g
      \<and> work_rows s1 = work_rows s \<and> db_queue_operation_receipts s1 = db_queue_operation_receipts s"
    using assms
    by (auto simp: acquireInTransaction_def fresh_claim_def tx_eval Let_def appendJournal_def bump_fence_def
        drop_claim_def add_claim_def work_rows_def split: option.split)
  with that show thesis by blast
qed

lemma reserve_succeeds:
  assumes "grantable s input orig sn now e" "readReadinessSnapshot h s now False = Inr sn"
    and "random_uuid h \<notin> wa_id ` set (db_work_attempts s)"
    and "\<And>task. entity_by_id s (qe_task_id e) = Some task \<Longrightarrow>
      canonicalResource s (en_type task @ '':'' @ en_id task) = en_type task @ '':'' @ en_id task"
  obtains b s' where "reserveInTransaction h e orig lease now pred s = Inr (b, s')"
    "db_queue_operation_receipts s' = db_queue_operation_receipts s"
proof -
  from assms(1,2) obtain task where task: "entity_by_id s (qe_task_id e) = Some task"
    and prior: "case reservation_of s (qe_task_id e) of None \<Rightarrow> True
      | Some p \<Rightarrow> \<not> xr_execution_held p \<and> xr_entry_id p = qe_id e"
    and claim: "case lookupClaim s (en_type task @ '':'' @ en_id task) of None \<Rightarrow> True
      | Some c \<Rightarrow> cl_expires_at c \<le> now"
    and idle: "\<not> list_ex (\<lambda>b. wa_task_id b = qe_task_id e \<and> wa_state b \<noteq> Terminal) (db_work_attempts s)"
    by (rule grantable_facts)
  obtain g s1 where g: "acquireInTransaction h (en_type task @ '':'' @ en_id task) orig Exclusive lease
      [(''attempt_id'', JStr (random_uuid h))] now s = Inr (g, s1)" "aq_acquired g"
    and s1: "work_rows s1 = work_rows s" "db_queue_operation_receipts s1 = db_queue_operation_receipts s"
    by (rule acquire_succeeds [OF assms(4) [OF task] claim])
  have rows: "db_work_attempts s1 = db_work_attempts s" using work_rows_attempts(1) [OF s1(1)] .
  have "\<exists>b s'. reserveInTransaction h e orig lease now pred s = Inr (b, s')
      \<and> db_queue_operation_receipts s' = db_queue_operation_receipts s"
    using task prior claim g idle assms(3) s1(2)
    by (simp add: reserveInTransaction_def Let_def tx_eval reservation_of_def insert_attempt_def rows event_def
        appendJournal_def put_reservation_def set_entry_def get_attempt_def attempts_get_def by_key_append by_key_Cons
        by_key_None [THEN iffD2])
  with that show thesis by blast
qed

lemma first_grantable:
  assumes "q \<in> set es" "P q"
  obtains e where "List.find P es = Some e" "P e" "e \<in> set es"
proof -
  from assms have "List.find P es \<noteq> None" by (auto simp: find_None_iff)
  then obtain e where "List.find P es = Some e" by auto
  then show thesis by (intro that) (auto simp: find_Some_iff)
qed

lemma entity_row: "entity_by_id s i = Some t \<Longrightarrow> t \<in> set (db_entities s) \<and> en_id t = i"
  by (auto simp: entity_by_id_def dest: by_key_Some)

lemma claim_run_succeeds:
  assumes ok: "work_ok s" and "open_queue s" and sn: "readReadinessSnapshot h s now False = Inr sn"
    and q: "q \<in> set (backlog s allows)" "grantable s input orig sn now q"
    and uuid: "random_uuid h \<notin> wa_id ` set (db_work_attempts s)"
    and names: "\<And>t. t \<in> set (db_entities s) \<Longrightarrow>
      canonicalResource s (en_type t @ '':'' @ en_id t) = en_type t @ '':'' @ en_id t"
  obtains e x s' where "claim_run h input orig allows now s = Inr (x, s')"
    "grant_entry h e orig (policy s) now s = Inr (x, s')" "e \<in> set (backlog s allows)"
    "db_queue_operation_receipts s' = db_queue_operation_receipts s"
proof -
  obtain e where e: "List.find (grantable s input orig sn now) (backlog s allows) = Some e"
    "grantable s input orig sn now e" "e \<in> set (backlog s allows)"
    by (rule first_grantable [where P = "grantable s input orig sn now", OF q])
  obtain b s' where r: "reserveInTransaction h e orig (po_lease_ms (policy s)) now
      (map_option wa_id (latest_attempt s (qe_id e))) s = Inr (b, s')"
    and s': "db_queue_operation_receipts s' = db_queue_operation_receipts s"
    by (rule reserve_succeeds [OF e(2) sn uuid]) (use names entity_row in blast)
  then have g: "\<exists>x. grant_entry h e orig (policy s) now s = Inr (x, s')"
    by (simp add: grant_entry_def tx_eval)
  have "backlog s allows \<noteq> []" using q(1) by auto
  from claim_run_open [OF assms(2) this sn] e(1) g e(3) s' show thesis by (auto intro: that)
qed

lemma view_granted:
  assumes "by_key wa_id i (db_work_attempts s) = Some a" "wa_id a = i" "allows (wa_task_id a)"
    and "by_key qe_id (wa_entry_id a) (db_queue_entries s) = Some f"
  shows "\<exists>v. claim_view h orig allows now [(''attempt_id'', JStr i), (''fence'', JNum n), (''entry_id'', JStr en),
      (''policy_revision'', JNum p)] s = Inr (Granted f v (Some (JNum p)), s)"
  using assms
  by (simp add: claim_view_def obj_has_def as_string_def tx_eval get_attempt_def attempts_get_def get_entry_def
      getEntry_def attempts_view_def)

text \<open>C14. Dispatch makes progress. Take a well-formed claim under a key without a receipt, in a reachable database
  whose expiry goes through, so no lapsed attempt is stuck behind a gate, and whose readiness can then be read.
  If the queue is then enabled and not paused, an execution slot is free, and some queued entry that the
  caller may see is eligible for it and is not held back by the limit of work in progress, the claim is
  granted, not refused and not answered by an error; provided that the generated attempt id is new and that no
  task's id captures the resource name of another task.\<close>

theorem claim_progress:
  assumes "unmanaged s0" and "managed_step\<^sup>*\<^sup>* s0 s" and "claim_command_ok input"
    and "receipt_of s (receipt_key orig ''claim-next'' (cm_idempotency_key input)) = None"
    and "expire h now s = (s1, Inr n)" and "open_queue s1"
    and "readReadinessSnapshot h s1 now False = Inr sn"
    and "q \<in> set (backlog s1 allows)" and "grantable s1 input orig sn now q"
    and "random_uuid h \<notin> wa_id ` set (db_work_attempts s1)"
    and "\<And>t. t \<in> set (db_entities s1) \<Longrightarrow>
      canonicalResource s1 (en_type t @ '':'' @ en_id t) = en_type t @ '':'' @ en_id t"
  shows "\<exists>s' e v. claimNext h input orig allows now s
    = (s', Inr (Granted e v (Some (JNum (po_revision (policy s))))))"
proof -
  note ok = reachable_ok [OF assms(1,2)]
  from assms(5) have ex: "expireInTransaction h now s = Inr (n, s1)"
    by (simp add: expire_def commit_ok)
  note ok1 = expire_state(1) [OF ok ex]
  obtain e x s2 where run: "claim_run h input orig allows now s1 = Inr (x, s2)"
    and g: "grant_entry h e orig (policy s1) now s1 = Inr (x, s2)" and e: "e \<in> set (backlog s1 allows)"
    and rec: "db_queue_operation_receipts s2 = db_queue_operation_receipts s1"
    by (rule claim_run_succeeds [OF ok1 assms(6-11)])
  let ?key = "receipt_key orig ''claim-next'' (cm_idempotency_key input)"
  have none: "receipt_of s1 ?key = None" "?key \<notin> qr_key ` set (db_queue_operation_receipts s2)"
    using assms(4) expiry_keeps(2) [OF ex] rec by (auto simp: receipt_of_def by_key_None)
  obtain t where cmd: "run_command ''claim-next'' orig (cm_idempotency_key input) (claim_json input)
      (claim_run h input orig allows now) None None now s1 = Inr (x, s2\<lparr>db_queue_operation_receipts := t\<rparr>)"
    using none run by (auto simp: run_command_def run_receipted_def rows_insert_def tx_eval)
  have eq: "lg_entries (ledger_of s1) (qe_id e) = Some e" "qe_state e = Queued" "allows (qe_task_id e)"
    using backlog_rows [OF _ e] ok1 by (auto simp: work_ok_def)
  obtain a f where x: "x = [(''attempt_id'', JStr (wa_id a)), (''fence'', JNum (wa_fence a)),
      (''entry_id'', JStr (qe_id e)), (''policy_revision'', JNum (po_revision (policy s1)))]"
    and a: "by_key wa_id (wa_id a) (db_work_attempts s2) = Some a" "wa_entry_id a = qe_id e" "wa_task_id a = qe_task_id e"
    and f: "by_key qe_id (qe_id e) (db_queue_entries s2) = Some f"
    by (rule grant_effect [OF ok1 eq(1,2) g])
  obtain v where "claim_view h orig allows now x (s2\<lparr>db_queue_operation_receipts := t\<rparr>)
      = Inr (Granted f v (Some (JNum (po_revision (policy s1)))), s2\<lparr>db_queue_operation_receipts := t\<rparr>)"
    using view_granted [of "wa_id a" "s2\<lparr>db_queue_operation_receipts := t\<rparr>" a allows f h orig now "wa_fence a"
      "qe_id e" "po_revision (policy s1)"] a eq(3) f
    unfolding x by auto
  with ex cmd assms(3) expiry_keeps(1) [OF ex] show ?thesis
    by (simp add: claimNext_def commit_def tx_eval)
qed

theorem claim_progress_witness:
  "\<exists>s' e v. claimNext (project_host 2 ''a1'') sample_claim (system_origin ''w'') (\<lambda>_. True) 2 enrolled_db
    = (s', Inr (Granted e v (Some (JNum (po_revision (policy enrolled_db))))))"
proof -
  obtain j n where e: "enrolled_db = worker_db\<lparr>db_queue_entries := [sample_entry Queued], db_journal_seq := n,
     db_journal := j, db_queue_operation_receipts := [sample_receipt]\<rparr>" by (rule enrolled_db_eq)
  have idle: "expire (project_host 2 ''a1'') 2 enrolled_db = (enrolled_db, Inr 0)"
    by (simp add: e expire_def expireInTransaction_def commit_def tx_eval worker_sel)
  have read: "readReadinessSnapshot (project_host 2 ''a1'') enrolled_db 2 False = Inr worker_snapshot"
    by (rule worker_read) (simp_all add: e worker_sel)
  have opened: "open_queue enrolled_db"
    by (simp add: e open_queue_def policy_def worker_sel execution_count_def)
  have queued: "sample_entry Queued \<in> set (backlog enrolled_db (\<lambda>_. True))"
    by (simp add: e backlog_def queue_ordered_def)
  have grant: "grantable enrolled_db sample_claim (system_origin ''w'') worker_snapshot 2 (sample_entry Queued)"
    by (simp add: e grantable_def eligible_def type_admitted_def sample_sel entryReasons_def worker_ready worker_task Let_def
        target_mismatch_def capability_mismatch_def claimed_directly_def lookupClaim_def attempt_active_def
        execution_unresolved_def reservation_of_def wip_blocked_def policy_def worker_sel)
  have names: "canonicalResource enrolled_db (en_type t @ '':'' @ en_id t) = en_type t @ '':'' @ en_id t"
    if "t \<in> set (db_entities enrolled_db)" for t
    using that by (simp add: e worker_sel sample_sel canonicalResource_def resolveEntityResource_def
        resolveEntityReference_def entity_by_id_def by_key_Cons)
  have uuid: "random_uuid (project_host 2 ''a1'') \<notin> wa_id ` set (db_work_attempts enrolled_db)"
    by (simp add: e worker_sel)
  show ?thesis
    by (rule claim_progress [OF sample_reachable(1) enrolled_reachable sample_commands_ok(2) enrolled_fresh idle opened
        read queued grant uuid names])
qed

end
