(* ===== verification/Execution.thy ===== *)
theory Execution
  imports Dispatch
begin

text \<open>
  The protocol of an execution: what an expiry settles, what acceptance requires and does, what
  finishing records and decides, that a repeated claim acts once, what one attempt can do to the
  expiry of all, and what the listings of attempts and of the queue disclose.
\<close>

section \<open>Expiry\<close>

lemma tracked_row: "work_ok s \<Longrightarrow> a \<in> set (db_work_attempts s) \<longleftrightarrow> tracked s a"
  by (simp add: work_okD(5) tracked_def)

lemma expiry_rows:
  assumes ok: "work_ok s" and run: "expireInTransaction h now s = Inr (n, s')" and c: "c \<in> set (db_work_attempts s')"
  shows "\<not> lease_expired now c" and "\<exists>b\<in>set (db_work_attempts s). wa_id b = wa_id c"
proof -
  let ?as = "filter (lease_expired now) (db_work_attempts s)"
  have ok': "work_ok s'" by (rule expire_state(1) [OF ok run])
  from run have loop: "tx_for ?as (expire_attempt h now) s = Inr ((), s')"
    unfolding expireInTransaction_def by (auto simp: tx_run)
  have d: "distinct (map wa_id ?as)" using work_okD(1) [OF ok] by (simp add: distinct_map_filter)
  have w: "tracked s a \<and> working (wa_state a)" if "a \<in> set ?as" for a
    using that tracked_row [OF ok] by (auto simp: lease_expired_def)
  from expire_loop [OF loop ok d w] c tracked_row [OF ok']
  have after: "if wa_id c \<in> wa_id ` set ?as then \<not> working (wa_state c) else tracked s c" by blast
  show "\<not> lease_expired now c"
  proof
    assume l: "lease_expired now c"
    then have "wa_id c \<notin> wa_id ` set ?as" using after by (auto simp: lease_expired_def)
    then have "c \<notin> set ?as" and "tracked s c" using after by auto
    from this(2) have "c \<in> set (db_work_attempts s)" by (rule tracked_row [OF ok, THEN iffD2])
    with l \<open>c \<notin> set ?as\<close> show False by simp
  qed
  show "\<exists>b\<in>set (db_work_attempts s). wa_id b = wa_id c"
  proof (cases "wa_id c \<in> wa_id ` set ?as")
    case False
    with after have "tracked s c" by simp
    then have "c \<in> set (db_work_attempts s)" by (rule tracked_row [OF ok, THEN iffD2])
    then show ?thesis by blast
  qed auto
qed

text \<open>A rejected command of an attempt still settles the leases that have lapsed: the expiry commits on
  its own. Either the expiry itself failed, with that error and no change, or the database left by the
  rejected command is the expired one, and no attempt in it is reserved, starting or running on a
  lapsed lease.\<close>

theorem rejected_command_expires:
  assumes "unmanaged s0" and "managed_step\<^sup>*\<^sup>* s0 s" and "after_expiry h now m s = (s', Inl e)"
  shows "s' = s \<and> snd (expire h now s) = Inl e
    \<or> s' = fst (expire h now s) \<and> (\<forall>a\<in>set (db_work_attempts s'). \<not> lease_expired now a)"
proof -
  obtain s1 x where ex: "expire h now s = (s1, x)" by fastforce
  show ?thesis
  proof (cases x)
    case (Inl d)
    then have "s1 = s" using ex by (simp add: expire_def commit_error)
    with Inl ex assms(3) show ?thesis by (simp add: after_expiry_def)
  next
    case (Inr n)
    with ex have run: "expireInTransaction h now s = Inr (n, s1)" by (simp add: expire_def commit_ok)
    from Inr ex assms(3) have "commit m s1 = (s', Inl e)" by (simp add: after_expiry_def)
    then have "s' = s1" by (simp add: commit_error)
    with ex expiry_rows(1) [OF reachable_ok [OF assms(1,2)] run] show ?thesis by auto
  qed
qed

definition sample_accept :: authority_command where
  "sample_accept = \<lparr>cm_idempotency_key = ''k3'', cm_expected_revision = 1, cm_fence = 1\<rparr>"

lemma accept_after_expiry:
  "authority_command_ok input \<Longrightarrow> accept_attempt h i input orig now s = after_expiry h now
     (execute_tx i ''accept'' (cm_idempotency_key input) (authority_json input []) (cm_fence input) orig
       (accept_run h input orig now) now) s"
  by (simp add: accept_attempt_def execute_def)

lemma sample_accept_ok: "authority_command_ok sample_accept"
  by (simp add: sample_accept_def authority_command_ok_def revision_command_ok_def queue_command_ok_def length_between_def)

lemma expired_inTransaction:
  "expireInTransaction (project_host 70000 ''u'') 70000 (fst claimed) = Inr (1, fst expired)"
  using expired_run(1) unfolding expired_def expire_def commit_def by (auto split: sum.splits)

lemma expired_receipts: "db_queue_operation_receipts (fst expired) = [sample_receipt, claim_receipt]"
proof -
  obtain j n where c: "fst claimed = claimed_shape n j" by (rule claimed_run)
  show ?thesis using expiry_keeps(2) [OF expired_inTransaction] by (simp add: c claimed_shape_def)
qed

lemma expired_fresh: "receipt_of (fst expired) (receipt_key (system_origin ''w'') ''accept:a1'' k) = None"
  by (simp add: receipt_of_def expired_receipts by_key_Cons receipt_key_inj sample_receipt_def claim_receipt_def)

text \<open>The worker accepts too late: it is told so, and the task is back in the queue.\<close>

lemma late_accept_eval:
  "\<exists>e. snd (accept_attempt (project_host 70000 ''u'') ''a1'' sample_accept (system_origin ''w'') 70000 (fst claimed)) = Inl e"
proof -
  have get: "get_attempt ''a1'' (fst expired) = Inr (abandoned_attempt, fst expired)"
    by (simp add: get_attempt_ok expired_run by_key_Cons) (simp add: abandoned_attempt_def sample_attempt_def)
  have own: "assertOwner abandoned_attempt (system_origin ''w'') None = Inr ()"
    by (simp add: assertOwner_def abandoned_attempt_def sample_attempt_def new_attempt_def sample_sel)
  have auth: "assertAuthority abandoned_attempt sample_accept (system_origin ''w'') 70000 s
      = Inl (queue_error Queue_authority_lost)" for s
    by (simp add: assertAuthority_def assertOwner_def tx_eval grantValid_def working_def abandoned_attempt_def
        sample_attempt_def new_attempt_def sample_sel sample_accept_def)
  have "expire (project_host 70000 ''u'') 70000 (fst claimed) = (fst expired, Inr 1)"
    using expired_run(1) by (simp add: expired_def prod_eq_iff)
  then show ?thesis
    unfolding accept_after_expiry [OF sample_accept_ok]
    by (simp add: after_expiry_def execute_tx_def commit_def get own tx_eval run_command_def run_receipted_def
        expired_fresh accept_run_def auth)
qed

theorem rejected_command_expires_witness:
  "db_queue_entries (fst (accept_attempt (project_host 70000 ''u'') ''a1'' sample_accept (system_origin ''w'') 70000
      (fst claimed))) = [admitted_entry\<lparr>qe_state := Queued, qe_revision := 3, qe_updated_at := 70000\<rparr>]"
proof -
  define s' where "s' = fst (accept_attempt (project_host 70000 ''u'') ''a1'' sample_accept (system_origin ''w'') 70000
      (fst claimed))"
  obtain e where "accept_attempt (project_host 70000 ''u'') ''a1'' sample_accept (system_origin ''w'') 70000
      (fst claimed) = (s', Inl e)"
    using late_accept_eval unfolding s'_def by (metis prod.collapse)
  from rejected_command_expires [OF sample_reachable(1,4) this [unfolded accept_after_expiry [OF sample_accept_ok]]]
  have "s' = fst expired" using expired_run(1) unfolding expired_def [symmetric] by auto
  with expired_run(3) show ?thesis unfolding s'_def by simp
qed

section \<open>Commands of the execution owner\<close>

lemma execute_run:
  assumes "execute h i operation key input fence orig run now s = (s', Inr v)"
    and fresh: "receipt_of s (receipt_key orig (operation @ '':'' @ i) key) = None"
  obtains n s1 a u s2 t where "expire h now s = (s1, Inr n)" "expireInTransaction h now s = Inr (n, s1)"
    "tracked s1 a" "wa_id a = i" "held_by_owner a orig" "run a s1 = Inr (u, s2)"
    "s' = s2\<lparr>db_queue_operation_receipts := t\<rparr>" "by_key wa_id i (db_work_attempts s') = Some (vw_attempt v)"
    "vw_grant_valid v = (grantValid s' (vw_attempt v) orig now \<and> wa_fence (vw_attempt v) = fence)"
proof -
  obtain s1 n where ex: "expire h now s = (s1, Inr n)"
    and run: "execute_tx i operation key input fence orig run now s1 = Inr (v, s')"
    using assms(1) by (auto simp: execute_def after_expiry_def commit_ok split: prod.split_asm sum.split_asm)
  then have ex': "expireInTransaction h now s = Inr (n, s1)" by (simp add: expire_def commit_ok)
  from run obtain a where get: "get_attempt i s1 = Inr (a, s1)"
    unfolding execute_tx_def tx_bind_ok using get_attempt_tracked(3) by blast
  with run obtain x w s3 where own: "assertOwner a orig None = Inr ()"
    and cmd: "run_command (operation @ '':'' @ i) orig key input
       (tx_seq (run a) (tx_return [(''attempt_id'', JStr i)])) (Some (wa_entry_id a)) (Some i) now s1 = Inr (x, s3)"
    and view: "attempts_view i orig now s3 = Inr (w, s')"
    and v: "v = w\<lparr>vw_grant_valid := vw_grant_valid w \<and> wa_fence (vw_attempt w) = fence\<rparr>"
    unfolding execute_tx_def by (auto simp: tx_bind_ok tx_seq_ok)
  have s3: "s' = s3" by (rule tx_frameD [OF read_view view])
  have none: "receipt_of s1 (receipt_key orig (operation @ '':'' @ i) key) = None"
    using fresh expiry_keeps(2) [OF ex'] by (simp add: receipt_of_def)
  from run_command_cases [OF cmd] none obtain s2 t where
      "tx_seq (run a) (tx_return [(''attempt_id'', JStr i)]) s1 = Inr (x, s2)"
    and s': "s3 = s2\<lparr>db_queue_operation_receipts := t\<rparr>" by (metis option.distinct(1))
  then obtain u where u: "run a s1 = Inr (u, s2)" by (auto simp: tx_seq_ok)
  from view s3 obtain b where b: "get_attempt i s' = Inr (b, s')"
    and w: "vw_attempt w = b" "vw_grant_valid w = grantValid s' b orig now"
    unfolding attempts_view_def by (auto simp: tx_bind_ok dest: get_attempt_tracked(3))
  show thesis
  proof (rule that [OF ex ex' _ _ _ u])
    show "tracked s1 a" "wa_id a = i" using get_attempt_tracked [OF get] by simp_all
    show "held_by_owner a orig" using own by (simp add: assertOwner_def held_by_owner_def split: if_split_asm)
    show "s' = s2\<lparr>db_queue_operation_receipts := t\<rparr>" using s' s3 by simp
    show "by_key wa_id i (db_work_attempts s') = Some (vw_attempt v)"
      using get_attempt_tracked [OF b] w v by (simp add: tracked_def ledger_sel_of)
    show "vw_grant_valid v = (grantValid s' (vw_attempt v) orig now \<and> wa_fence (vw_attempt v) = fence)"
      using v w by simp
  qed
qed

text \<open>What the authority check of a command establishes.\<close>

definition live_grant :: "db \<Rightarrow> work_attempt \<Rightarrow> int \<Rightarrow> bool" where
  "live_grant s a now = (\<exists>c f. lookupClaim s (wa_resource a) = Some c \<and> cl_fence c = wa_fence a
     \<and> now < cl_expires_at c \<and> lookupFence s (wa_resource a) = Some f \<and> fe_current_fence f = wa_fence a)"

lemma authority_grant:
  assumes "assertAuthority a input orig now s = Inr (u, s')"
  shows "live_grant s a now" and "held_by_owner a orig" and "cm_fence input = wa_fence a"
    and "cm_expected_revision input = wa_revision a" and "s' = s"
  using assms
  by (auto simp: assertAuthority_def assertOwner_def grantValid_def live_grant_def held_by_owner_def checkRevision_def
      tx_bind_ok tx_seq_ok split: if_split_asm option.split_asm)

lemma accept_effect:
  assumes "accept_run h input orig now a s = Inr (u, s')" and "tracked s a"
  obtains rs where "live_grant s a now" "held_by_owner a orig" "cm_fence input = wa_fence a"
    "cm_expected_revision input = wa_revision a" "wa_state a = Reserved" "\<not> wa_cancellation_requested a"
    "ledger_of s' = put_attempt (a\<lparr>wa_state := Starting, wa_accepted_at := Some now, wa_revisions := rs,
       wa_revision := wa_revision a + 1, wa_updated_at := now\<rparr>) (ledger_of s)"
proof -
  let ?f = "\<lambda>s1 r. r\<lparr>wa_state := Starting, wa_accepted_at := Some now,
       wa_revisions := Some (captureRevisions a R_authorized (governingRevisions now s1))\<rparr>"
  from assms(1) obtain s0 s1 b s2 fs where auth: "assertAuthority a input orig now s = Inr ((), s0)"
    and st: "wa_state a = Reserved" "\<not> wa_cancellation_requested a"
    and 1: "transitionTask h a orig T_start now s0 = Inr ((), s1)"
    and c: "change a (?f s1) now s1 = Inr (b, s2)"
    and 2: "event h ''attempt.accepted'' (wa_resource a) orig fs (Some (wa_fence a)) s2 = Inr (u, s')"
    unfolding accept_run_def by (auto simp: tx_bind_ok tx_seq_ok)
  note grant = authority_grant [OF auth]
  have rows: "work_rows s1 = work_rows s" using tx_frameD [OF frame_transition 1] grant(5) by simp
  have t: "tracked s1 a" using tracked_cong [OF rows] assms(2) by simp
  note eff = change_effect [OF c t, simplified]
  show thesis
    using eff(1,2) work_rows_cong(1) [OF rows] work_rows_cong(1) [OF event_effect [OF 2]] grant st
    by (intro that [of "Some (captureRevisions a R_authorized (governingRevisions now s1))"]) simp_all
qed

text \<open>Accepting a reservation needs the whole grant and starts exactly it: after the lapsed leases are
  settled, the attempt is reserved, not cancelled, and held by the caller, the command names its fence
  and revision, and its claim is live and at the current fence. The acceptance is recorded in that row
  and in no other.\<close>

theorem accept_needs_grant:
  assumes "accept_attempt h i input orig now s = (s', Inr v)"
    and "receipt_of s (receipt_key orig (''accept:'' @ i) (cm_idempotency_key input)) = None"
  shows "\<exists>s1 n a rs. expire h now s = (s1, Inr n) \<and> by_key wa_id i (db_work_attempts s1) = Some a
    \<and> wa_state a = Reserved \<and> \<not> wa_cancellation_requested a \<and> held_by_owner a orig
    \<and> cm_fence input = wa_fence a \<and> cm_expected_revision input = wa_revision a \<and> live_grant s1 a now
    \<and> vw_attempt v = a\<lparr>wa_state := Starting, wa_accepted_at := Some now, wa_revisions := rs,
        wa_revision := wa_revision a + 1, wa_updated_at := now\<rparr>
    \<and> (\<forall>j. by_key wa_id j (db_work_attempts s') =
        (if j = i then Some (vw_attempt v) else by_key wa_id j (db_work_attempts s1)))"
proof -
  from assms(1) have "execute h i ''accept'' (cm_idempotency_key input) (authority_json input []) (cm_fence input)
       orig (accept_run h input orig now) now s = (s', Inr v)"
    by (simp add: accept_attempt_def split: if_split_asm)
  then show ?thesis
  proof (rule execute_run)
    show "receipt_of s (receipt_key orig (''accept'' @ '':'' @ i) (cm_idempotency_key input)) = None"
      using assms(2) by simp
    fix n s1 a u s2 t
    assume ex: "expire h now s = (s1, Inr n)" and a: "tracked s1 a" "wa_id a = i"
      and run: "accept_run h input orig now a s1 = Inr (u, s2)" and s': "s' = s2\<lparr>db_queue_operation_receipts := t\<rparr>"
      and v: "by_key wa_id i (db_work_attempts s') = Some (vw_attempt v)"
    from run a(1) show ?thesis
    proof (rule accept_effect)
      fix rs
      let ?b = "a\<lparr>wa_state := Starting, wa_accepted_at := Some now, wa_revisions := rs,
        wa_revision := wa_revision a + 1, wa_updated_at := now\<rparr>"
      assume grant: "live_grant s1 a now" "held_by_owner a orig" "cm_fence input = wa_fence a"
          "cm_expected_revision input = wa_revision a" "wa_state a = Reserved" "\<not> wa_cancellation_requested a"
        and l: "ledger_of s2 = put_attempt ?b (ledger_of s1)"
      have rows: "by_key wa_id j (db_work_attempts s') = (if j = i then Some ?b else by_key wa_id j (db_work_attempts s1))" for j
        using arg_cong [OF l, of "\<lambda>l. lg_attempts l j"] a(2) by (simp add: s' ledger_sel_of)
      with v have "vw_attempt v = ?b" by simp
      with rows grant ex a show ?thesis
        by (intro exI [of _ s1] exI [of _ n] exI [of _ a] exI [of _ rs]) (simp add: tracked_def ledger_sel_of)
    qed
  qed
qed

section \<open>The sample attempt runs\<close>

definition started_attempt :: work_attempt where
  "started_attempt = sample_attempt\<lparr>wa_state := Starting, wa_accepted_at := Some 3, wa_revision := 2,
     wa_updated_at := 3, wa_revisions := Some (captureRevisions sample_attempt R_authorized
       \<lparr>rv_definition_version = Some 1, rv_policy_revision = 1, rv_at = 3\<rparr>)\<rparr>"

definition accept_receipt :: queue_receipt where
  "accept_receipt = \<lparr>qr_key = receipt_key (system_origin ''w'') ''accept:a1'' ''k3'',
     qr_request = canonicalJson (authority_json sample_accept []),
     qr_result = [(''attempt_id'', JStr ''a1'')], qr_entry_id = Some ''e1'', qr_attempt_id = Some ''a1'', qr_created_at = 3\<rparr>"

definition accepted :: "db \<times> (error + attempt_view)" where
  "accepted = accept_attempt (project_host 3 ''u'') ''a1'' sample_accept (system_origin ''w'') 3 (fst claimed)"

definition task_row :: "string \<Rightarrow> int \<Rightarrow> entity_row" where
  "task_row st now = (sample_entity ''task'' ''t1'' [(''status'', JStr ''todo'')])\<lparr>
     en_data := [(''status'', JStr st)], en_updated_at := now\<rparr>"

lemma sample_unit: "work_unit_of sample_schema ''task'' = Some \<lparr>wu_lifecycle = Some sample_lifecycle,
       wu_fields = [(''status'', \<lparr>fd_type = ''string'', fd_required = True, fd_default = None,
         fd_default_for_legacy = None, fd_name = None, fd_values = None\<rparr>)],
       wu_parents = [], wu_required_parent = False,
       wu_references = Some [\<lparr>rs_require_trusted_for_statuses = Some [''done''], rs_name = ''report'',
         rs_multiple = False, rs_kinds = []\<rparr>],
       wu_presentation = None\<rparr>"
  by (simp add: work_unit_of_def sample_schema_def)

lemma claim_receipt_sel:
  "qr_key claim_receipt = receipt_key (system_origin ''w'') ''claim-next'' ''k2''"
  by (simp add: claim_receipt_def)

definition accepted_shape :: "int \<Rightarrow> journal_row list \<Rightarrow> entity_search_doc_row list \<Rightarrow> db" where
  "accepted_shape n j d = worker_db\<lparr>
     db_fences := [\<lparr>fe_resource = ''task:t1'', fe_current_fence = 1\<rparr>],
     db_claims := [\<lparr>cl_resource = ''task:t1'', cl_principal_id = ''w'', cl_participant_id = ''w'',
       cl_environment = [], cl_mode = Exclusive, cl_fence = 1, cl_acquired_at = 2, cl_expires_at = 60002,
       cl_metadata = [(''attempt_id'', JStr ''a1'')]\<rparr>],
     db_execution_reservations := [\<lparr>xr_task_id = ''t1'', xr_entry_id = ''e1'', xr_attempt_id = ''a1'',
       xr_execution_held = True, xr_wip_held = True, xr_updated_at = 2\<rparr>],
     db_queue_entries := [admitted_entry], db_entities := [task_row ''doing'' 3], db_entity_search_docs := d,
     db_work_attempts := [started_attempt], db_journal_seq := n, db_journal := j,
     db_queue_operation_receipts := [sample_receipt, claim_receipt, accept_receipt]\<rparr>"

definition accepted_view :: attempt_view where
  "accepted_view = \<lparr>vw_attempt = started_attempt, vw_grant_valid = True, vw_assigner_principal_id = Some ''boss'',
     vw_definition_version = Some 1, vw_policy_revision = 1, vw_corrections = []\<rparr>"

lemma accepted_run:
  obtains j n d where "fst accepted = accepted_shape n j d" and "snd accepted = Inr accepted_view"
proof -
  obtain j n where c: "fst claimed = claimed_shape n j" by (rule claimed_run)
  show thesis
    by (rule that;
      simp add: accepted_def accepted_shape_def accepted_view_def task_row_def accept_receipt_def c claimed_shape_def accept_attempt_def sample_accept_ok execute_def after_expiry_def
      expire_def expireInTransaction_def execute_tx_def command_run lease_expired_def working_def sample_attempt_def
      new_attempt_def get_attempt_def attempts_get_def assertOwner_def accept_run_def assertAuthority_def
      grantValid_def lookupClaim_def lookupFence_def sample_accept_def transitionTask_def entity_by_id_def
      updateInTransaction_def update_authority_def checkManagedWrite_def isManagedTask_def live_entry_def admitted_entry_def
      sample_entry_def working_attempt_def owned_by_def assertResourceFenceWithCanonical_def check_live_claim_def
      resolveEntityResourceDirect_def incoming_terminal_def terminal_statuses_def 
      change_def started_attempt_def governingRevisions_def sample_history_def sample_lifecycle_def
      entity_data_run attempts_view_def corrections_def sample_unit claim_receipt_sel
      sample_accept_ok [unfolded sample_accept_def])
qed

text \<open>The late acceptance of the previous section fails; a prompt one succeeds.\<close>

lemma accepted_result:
  "accept_attempt (project_host 3 ''u'') ''a1'' sample_accept (system_origin ''w'') 3 (fst claimed) = (fst accepted, Inr accepted_view)"
proof -
  have "snd accepted = Inr accepted_view" by (rule accepted_run)
  then show ?thesis by (simp add: accepted_def prod_eq_iff)
qed

lemma claimed_fresh: "receipt_of (fst claimed) (receipt_key (system_origin ''w'') (''accept:'' @ ''a1'') k) = None"
proof -
  obtain j n where c: "fst claimed = claimed_shape n j" by (rule claimed_run)
  show ?thesis by (simp add: c claimed_shape_def receipt_of_def by_key_Cons receipt_key_inj sample_receipt_def claim_receipt_def)
qed

theorem accept_needs_grant_witness:
  "\<exists>s1 n a. expire (project_host 3 ''u'') 3 (fst claimed) = (s1, Inr n) \<and> by_key wa_id ''a1'' (db_work_attempts s1) = Some a
    \<and> wa_fence a = 1 \<and> live_grant s1 a 3 \<and> wa_state (vw_attempt accepted_view) = Starting"
  using accept_needs_grant [OF accepted_result claimed_fresh]
  by (elim exE conjE) (auto simp: sample_accept_def accepted_view_def started_attempt_def)

section \<open>Finishing\<close>

lemma refence_flags:
  assumes "refence h a owner now actor (\<lambda>r. r) s = Inr (b, s')" and "tracked s a"
  shows "wa_cancellation_requested b = wa_cancellation_requested a" and "wa_accepted_at b = wa_accepted_at a"
    and "attempts_of_entry s' i = attempts_of_entry s i"
proof -
  let ?f = "\<lambda>grant r. r\<lparr>wa_state := Running, wa_fence := aq_fence grant,
       wa_lease_expires_at := Some (aq_expires_at grant), wa_principal_id := or_principalId owner,
       wa_participant_id := or_participantId owner\<rparr>"
  from assms(1) obtain u s1 u2 s2 grant s3 where
      1: "invalidateQuestions h (wa_id a) ''execution authority replaced'' actor now s = Inr (u, s1)"
    and 2: "revoke a s1 = Inr (u2, s2)"
    and 3: "acquireInTransaction h (wa_resource a) owner Exclusive (lease_of s2) [(''attempt_id'', JStr (wa_id a))] now s2
      = Inr (grant, s3)"
    and c: "change a (?f grant) now s3 = Inr (b, s')"
    unfolding refence_def by (auto simp: tx_run)
  have rows: "work_rows s3 = work_rows s"
    using tx_frameD [OF frame_invalidate 1] tx_frameD [OF frame_revoke 2] tx_frameD [OF frame_acquire 3] by simp
  have "tracked s3 a" using tracked_cong [OF rows] assms(2) by simp
  from change_effect(1) [OF c this] show "wa_cancellation_requested b = wa_cancellation_requested a"
    "wa_accepted_at b = wa_accepted_at a" by simp_all
  show "attempts_of_entry s' i = attempts_of_entry s i"
    using change_count [OF c] attempts_of_entry_cong [OF rows] by simp
qed

text \<open>What a caller must show to finish, and the attempt that is finished: a suspended one is fenced again
  first.\<close>

definition may_finish :: "finish_command \<Rightarrow> request_origin \<Rightarrow> work_attempt \<Rightarrow> bool" where
  "may_finish input orig a = (held_by_owner a orig \<and> cm_fence input = wa_fence a
     \<and> cm_expected_revision input = wa_revision a
     \<and> oc_execution_stopped (cm_outcome input) \<and> \<not> oc_unresolved_external_execution (cm_outcome input)
     \<and> oc_status (cm_outcome input) \<noteq> O_abandoned
     \<and> (wa_accepted_at a \<noteq> None \<or> wa_cancellation_requested a \<and> oc_status (cm_outcome input) = O_cancelled))"

lemma finish_run_cases:
  assumes "finish_run h input orig now a s = Inr (u, s')" and t: "tracked s a" and live: "wa_state a \<noteq> Terminal"
  obtains b s1 where "may_finish input orig a" "ledger_of s1 = put_attempt b (ledger_of s)" "tracked s1 b" "same_work a b"
    "keys_distinct s1 = keys_distinct s" "wa_cancellation_requested b = wa_cancellation_requested a"
    "\<And>i. attempts_of_entry s1 i = attempts_of_entry s i"
    "finishInTransaction h b (cm_outcome input) orig now True orig s1 = Inr (u, s')"
proof (cases "wa_state a = Suspended \<or> wa_state a = Resume_pending")
  case True
  with live assms(1) obtain b s1 where own: "assertOwner a orig (Some (cm_fence input)) = Inr ()"
      "checkRevision (wa_revision a) (cm_expected_revision input) = Inr ()"
    and ref: "refence h a orig now orig (\<lambda>r. r) s = Inr (b, s1)"
    and g: "wa_accepted_at b \<noteq> None \<or> wa_cancellation_requested b \<and> oc_status (cm_outcome input) = O_cancelled"
      "oc_execution_stopped (cm_outcome input) \<and> \<not> oc_unresolved_external_execution (cm_outcome input)
          \<and> oc_status (cm_outcome input) \<noteq> O_abandoned"
    and fin: "finishInTransaction h b (cm_outcome input) orig now True orig s1 = Inr (u, s')"
    unfolding finish_run_def by (auto simp: Let_def tx_bind_ok tx_seq_ok)
  note e = refence_effect [OF ref t keeps_work_simps(1)] and f = refence_flags [OF ref t]
  from own g f show thesis
    by (intro that [OF _ e(1-3,7) f(1,3) fin])
      (simp add: may_finish_def assertOwner_def held_by_owner_def checkRevision_def split: if_split_asm)
next
  case False
  with live assms(1) obtain s1 where auth: "assertAuthority a input orig now s = Inr ((), s1)"
    and g: "wa_accepted_at a \<noteq> None \<or> wa_cancellation_requested a \<and> oc_status (cm_outcome input) = O_cancelled"
      "oc_execution_stopped (cm_outcome input) \<and> \<not> oc_unresolved_external_execution (cm_outcome input)
          \<and> oc_status (cm_outcome input) \<noteq> O_abandoned"
    and fin: "finishInTransaction h a (cm_outcome input) orig now True orig s1 = Inr (u, s')"
    unfolding finish_run_def by (auto simp: Let_def tx_bind_ok tx_seq_ok)
  note grant = authority_grant [OF auth]
  have "put_attempt a (ledger_of s) = ledger_of s" using t by (simp add: tracked_def put_attempt_def fun_upd_idem)
  moreover have fin': "finishInTransaction h a (cm_outcome input) orig now True orig s = Inr (u, s')"
    using fin grant(5) by simp
  moreover have "may_finish input orig a" using grant g by (simp add: may_finish_def)
  ultimately show thesis
    using t by (intro that [OF _ _ _ _ _ _ _ fin']) (simp_all add: same_work_def)
qed

text \<open>The rows that a finished attempt leaves, and the future of its entry.\<close>

definition entry_after :: "finish_command \<Rightarrow> work_attempt \<Rightarrow> int \<Rightarrow> int \<Rightarrow> queue_entry \<Rightarrow> queue_entry \<Rightarrow> bool" where
  "entry_after input a now count e f =
    (if retries_failure True (cm_outcome input) a e count
     then qe_state f = Queued \<and> qe_available_at f = now + retry_backoff (qe_retry_policy e) count
     else qe_state f = Finished)"

definition finished_with :: "finish_command \<Rightarrow> int \<Rightarrow> work_attempt \<Rightarrow> bool" where
  "finished_with input now b = (wa_state b = Terminal \<and> wa_outcome b = Some (cm_outcome input)
     \<and> wa_finished_at b = Some now \<and> wa_lease_expires_at b = None)"

lemma finish_run_effect:
  assumes ok: "work_ok s" and run: "finish_run h input orig now a s = Inr (u, s')"
    and t: "tracked s a" and live: "wa_state a \<noteq> Terminal"
  obtains e f r d where "may_finish input orig a" "finished_with input now d" "wa_id d = wa_id a"
    "lg_entries (ledger_of s) (wa_entry_id a) = Some e" "qe_id f = wa_entry_id a"
    "entry_after input a now (attempts_of_entry s (wa_entry_id a)) e f"
    "retained (wa_task_id a) (wa_entry_id a) r" "r = None \<longleftrightarrow> qe_state f = Finished" "keys_distinct s'"
    "ledger_of s' = put_entry f (reserve_as (wa_task_id a) r (put_attempt d (ledger_of s)))"
  using run t live
proof (rule finish_run_cases)
  fix b s3
  assume may: "may_finish input orig a" and b: "ledger_of s3 = put_attempt b (ledger_of s)" "tracked s3 b" "same_work a b"
    and k: "keys_distinct s3 = keys_distinct s" and c: "wa_cancellation_requested b = wa_cancellation_requested a"
    and count: "\<And>i. attempts_of_entry s3 i = attempts_of_entry s i"
    and fin: "finishInTransaction h b (cm_outcome input) orig now True orig s3 = Inr (u, s')"
  have ids: "wa_id b = wa_id a" "wa_entry_id b = wa_entry_id a" "wa_task_id b = wa_task_id a"
    using b(3) by (simp_all add: same_work_def)
  from tracked_linked [OF ok t] obtain e where e: "lg_entries (ledger_of s) (wa_entry_id a) = Some e" by blast
  with ids have e3: "lg_entries (ledger_of s3) (wa_entry_id b) = Some e" by (simp add: b(1))
  have k3: "keys_distinct s3" using k ok by (simp add: work_ok_def)
  have qe: "qe_id e = wa_entry_id a" using e by (auto simp: ledger_sel_of dest: by_key_Some)
  have rf: "retries_failure True o' b e n = retries_failure True o' a e n" for o' n
    by (simp add: retries_failure_def c)
  from fin b(2) e3 k3 show thesis
  proof (rule finish_effect)
    fix d f r
    assume d: "same_work b d" "settled d" "wa_outcome d = Some (cm_outcome input)" "wa_finished_at d = Some now"
        "wa_lease_expires_at d = None"
      and f: "same_entry e f" "qe_state f = Finished \<and> r = None \<or>
        qe_state f = Queued \<and> r \<noteq> None \<and> True \<and> retained (wa_task_id b) (wa_entry_id b) r"
      and l: "ledger_of s' = put_entry f (reserve_as (wa_task_id b) r (put_attempt d (ledger_of s3)))" "keys_distinct s'"
      and q: "if retries_failure True (cm_outcome input) b e (attempts_of_entry s3 (wa_entry_id b))
        then qe_state f = Queued \<and> qe_available_at f = now
          + retry_backoff (qe_retry_policy e) (attempts_of_entry s3 (wa_entry_id b)) else qe_state f = Finished"
    have da: "wa_id d = wa_id a" using d(1) ids by (simp add: same_work_def)
    show thesis
    proof (rule that [OF may _ da e])
      show "finished_with input now d" using d by (simp add: finished_with_def settled_def)
      show "entry_after input a now (attempts_of_entry s (wa_entry_id a)) e f"
        using q unfolding entry_after_def rf count ids by (simp split: if_split_asm)
      show "ledger_of s' = put_entry f (reserve_as (wa_task_id a) r (put_attempt d (ledger_of s)))"
        using l(1) da ids unfolding b(1) by (simp add: put_attempt_twice)
      show "retained (wa_task_id a) (wa_entry_id a) r" using f(2) ids by (auto simp: retained_def)
      show "r = None \<longleftrightarrow> qe_state f = Finished" using f(2) by auto
      show "qe_id f = wa_entry_id a" using f(1) qe by (simp add: same_entry_def)
    qed (rule l(2))
  qed
qed

text \<open>C15. A finish that is not the replay of an earlier one settles an attempt once and decides the future of its
  task. A terminal attempt is left alone. Otherwise the caller is its owner at the current fence and revision
  and declares an outcome whose execution has stopped; the attempt is terminal with that outcome. If the
  retry policy retries the failure, its entry is queued again after the backoff of the policy and the
  reservation of its task holds work in progress but no execution; if not, its entry is finished and its
  task has no reservation, so neither execution nor work in progress.\<close>

theorem finish_outcome:
  assumes "unmanaged s0" and "managed_step\<^sup>*\<^sup>* s0 s" and "finish h i input orig now s = (s', Inr v)"
    and "receipt_of s (receipt_key orig (''finish:'' @ i) (cm_idempotency_key input)) = None"
  shows "\<exists>s1 n a. expire h now s = (s1, Inr n) \<and> by_key wa_id i (db_work_attempts s1) = Some a \<and>
    (if wa_state a = Terminal then vw_attempt v = a \<and> work_rows s' = work_rows s1
     else may_finish input orig a \<and> finished_with input now (vw_attempt v)
       \<and> (\<exists>e f. by_key qe_id (wa_entry_id a) (db_queue_entries s1) = Some e
          \<and> by_key qe_id (wa_entry_id a) (db_queue_entries s') = Some f
          \<and> entry_after input a now (attempts_of_entry s1 (wa_entry_id a)) e f
          \<and> (if qe_state f = Finished then reservation_of s' (wa_task_id a) = None
             else \<exists>r. reservation_of s' (wa_task_id a) = Some r \<and> xr_entry_id r = wa_entry_id a
               \<and> xr_wip_held r \<and> \<not> xr_execution_held r)))"
proof -
  note ok = reachable_ok [OF assms(1,2)]
  from assms(3) have "execute h i ''finish'' (cm_idempotency_key input)
       (authority_json input [(''outcome'', outcome_json (cm_outcome input))]) (cm_fence input)
       orig (finish_run h input orig now) now s = (s', Inr v)"
    by (simp add: finish_def split: if_split_asm)
  then show ?thesis
  proof (rule execute_run)
    show "receipt_of s (receipt_key orig (''finish'' @ '':'' @ i) (cm_idempotency_key input)) = None"
      using assms(4) by simp
    fix n s1 a u s2 t
    assume ex: "expire h now s = (s1, Inr n)" "expireInTransaction h now s = Inr (n, s1)"
      and a: "tracked s1 a" "wa_id a = i"
      and run: "finish_run h input orig now a s1 = Inr (u, s2)" and s': "s' = s2\<lparr>db_queue_operation_receipts := t\<rparr>"
      and v: "by_key wa_id i (db_work_attempts s') = Some (vw_attempt v)"
    note ok1 = expire_state(1) [OF ok ex(2)]
    have row: "by_key wa_id i (db_work_attempts s1) = Some a" using a by (simp add: tracked_def ledger_sel_of)
    show ?thesis
    proof (cases "wa_state a = Terminal")
      case True
      with run have "work_rows s' = work_rows s1" "db_work_attempts s' = db_work_attempts s1"
        by (simp_all add: finish_run_def s' work_rows_def)
      with True ex row v show ?thesis by (intro exI [of _ s1] exI [of _ n] exI [of _ a]) simp
    next
      case False
      from ok1 run a(1) False show ?thesis
      proof (rule finish_run_effect)
        fix e f r d
        assume fin: "may_finish input orig a" "finished_with input now d" "wa_id d = wa_id a"
          and e: "lg_entries (ledger_of s1) (wa_entry_id a) = Some e" "qe_id f = wa_entry_id a"
            "entry_after input a now (attempts_of_entry s1 (wa_entry_id a)) e f"
          and r: "retained (wa_task_id a) (wa_entry_id a) r" "r = None \<longleftrightarrow> qe_state f = Finished" and k: "keys_distinct s2"
          and l: "ledger_of s2 = put_entry f (reserve_as (wa_task_id a) r (put_attempt d (ledger_of s1)))"
        have l': "ledger_of s' = put_entry f (reserve_as (wa_task_id a) r (put_attempt d (ledger_of s1)))"
          unfolding l [symmetric] by (simp add: s' ledger_of_def)
        have d: "vw_attempt v = d"
          using v a(2) fin(3) arg_cong [OF l', of "\<lambda>l. lg_attempts l i"] by (simp add: ledger_sel_of)
        have f: "by_key qe_id (wa_entry_id a) (db_queue_entries s') = Some f"
          using e(2) arg_cong [OF l', of "\<lambda>l. lg_entries l (wa_entry_id a)"] by (simp add: ledger_sel_of)
        have "reservation_of s' (wa_task_id a) = r"
          using arg_cong [OF l', of "\<lambda>l. lg_reservations l (wa_task_id a)"] by (simp add: ledger_sel_of reservation_of_def)
        with r have res: "if qe_state f = Finished then reservation_of s' (wa_task_id a) = None
            else \<exists>r. reservation_of s' (wa_task_id a) = Some r \<and> xr_entry_id r = wa_entry_id a \<and> xr_wip_held r \<and> \<not> xr_execution_held r"
          by (auto simp: retained_def split: option.splits)
        with ex row False fin d e(1,3) f res show ?thesis
          by (intro exI [of _ s1] exI [of _ n] exI [of _ a]) (auto simp: ledger_sel_of)
      qed
    qed
  qed
qed

definition sample_finish :: finish_command where
  "sample_finish = \<lparr>cm_idempotency_key = ''k4'', cm_expected_revision = 2, cm_fence = 1,
     cm_outcome = stopped_outcome O_failure ''flaky''\<rparr>"

lemma sample_finish_sel:
  "cm_idempotency_key sample_finish = ''k4''" "cm_expected_revision sample_finish = 2" "cm_fence sample_finish = 1"
  "cm_outcome sample_finish = stopped_outcome O_failure ''flaky''" "authority_command_ok sample_finish"
  by (simp_all add: sample_finish_def authority_command_ok_def revision_command_ok_def queue_command_ok_def length_between_def)

lemma finished_run:
  "\<exists>s' v. finish (project_host 4 ''u'') ''a1'' sample_finish (system_origin ''w'') 4 (fst accepted) = (s', Inr v)"
proof -
  obtain j n d where c: "fst accepted = accepted_shape n j d" by (rule accepted_run)
  show ?thesis
    by (simp add: c accepted_shape_def finish_def sample_finish_sel execute_def after_expiry_def
      expire_def expireInTransaction_def execute_tx_def command_run lease_expired_def working_def started_attempt_def sample_attempt_def
      new_attempt_def get_attempt_def attempts_get_def assertOwner_def finish_run_def assertAuthority_def
      grantValid_def lookupClaim_def lookupFence_def transitionTask_def entity_by_id_def task_row_def
      finishInTransaction_def stopped_outcome_def invalidateQuestions_def revoke_def delete_reservation_def
      retries_failure_def attempts_of_entry_def set_entry_def retry_backoff_def scheduleRetryInTransaction_def
      updateInTransaction_def update_authority_def checkManagedWrite_def isManagedTask_def live_entry_def admitted_entry_def
      sample_entry_def working_attempt_def owned_by_def assertResourceFenceWithCanonical_def check_live_claim_def
      resolveEntityResourceDirect_def incoming_terminal_def terminal_statuses_def rows_delete_def
      change_def governingRevisions_def sample_history_def sample_lifecycle_def
      entity_data_run attempts_view_def corrections_def sample_unit claim_receipt_sel accept_receipt_def)
qed

lemma accepted_reachable: "managed_step\<^sup>*\<^sup>* worker_db (fst accepted)"
  using sample_reachable(4) ms_accept unfolding accepted_def by (rule rtranclp.rtrancl_into_rtrancl)

lemma accepted_rows:
  "expire (project_host 4 ''u'') 4 (fst accepted) = (fst accepted, Inr 0)"
  "db_work_attempts (fst accepted) = [started_attempt]" "db_queue_entries (fst accepted) = [admitted_entry]"
  "receipt_of (fst accepted) (receipt_key (system_origin ''w'') (''finish:'' @ ''a1'') (cm_idempotency_key sample_finish)) = None"
proof -
  obtain j n d where c: "fst accepted = accepted_shape n j d" by (rule accepted_run)
  show "expire (project_host 4 ''u'') 4 (fst accepted) = (fst accepted, Inr 0)"
    by (simp add: c accepted_shape_def expire_def expireInTransaction_def commit_def tx_eval lease_expired_def
        working_def started_attempt_def sample_attempt_def new_attempt_def)
  show "receipt_of (fst accepted) (receipt_key (system_origin ''w'') (''finish:'' @ ''a1'') (cm_idempotency_key sample_finish)) = None"
    by (simp add: c accepted_shape_def receipt_of_def by_key_Cons receipt_key_inj sample_receipt_def claim_receipt_def
        accept_receipt_def)
  show "db_work_attempts (fst accepted) = [started_attempt]" "db_queue_entries (fst accepted) = [admitted_entry]"
    by (simp_all add: c accepted_shape_def)
qed

text \<open>The failure is retried: the entry is queued again after the first backoff.\<close>

theorem finish_outcome_witness:
  "\<exists>s' v f. finish (project_host 4 ''u'') ''a1'' sample_finish (system_origin ''w'') 4 (fst accepted) = (s', Inr v)
    \<and> wa_state (vw_attempt v) = Terminal \<and> by_key qe_id ''e1'' (db_queue_entries s') = Some f
    \<and> qe_state f = Queued \<and> qe_available_at f = 14"
proof -
  obtain s' v where run: "finish (project_host 4 ''u'') ''a1'' sample_finish (system_origin ''w'') 4 (fst accepted) = (s', Inr v)"
    using finished_run by blast
  have a: "by_key wa_id ''a1'' (db_work_attempts (fst accepted)) = Some started_attempt"
      "wa_state started_attempt = Starting" "wa_entry_id started_attempt = ''e1''" "\<not> wa_cancellation_requested started_attempt"
    and e: "by_key qe_id ''e1'' (db_queue_entries (fst accepted)) = Some admitted_entry"
      "qe_retry_policy admitted_entry = cm_retry_policy sample_enroll"
    and n: "attempts_of_entry (fst accepted) ''e1'' = 1"
    by (simp_all add: accepted_rows by_key_Cons attempts_of_entry_def started_attempt_def sample_attempt_def
        new_attempt_def sample_entry_def admitted_entry_def)
  from finish_outcome [OF sample_reachable(1) accepted_reachable run accepted_rows(4)]
  obtain f where v: "finished_with sample_finish 4 (vw_attempt v)" "by_key qe_id ''e1'' (db_queue_entries s') = Some f"
    and f: "entry_after sample_finish started_attempt 4 1 admitted_entry f"
    by (auto simp: accepted_rows(1) a e n)
  from f have "qe_state f = Queued \<and> qe_available_at f = 14"
    by (simp add: entry_after_def retries_failure_def sample_finish_sel stopped_outcome_def a(4) e(2) sample_enroll_def
        retry_backoff_def)
  with run v show ?thesis by (intro exI [of _ s'] exI [of _ v] exI [of _ f]) (simp add: finished_with_def)
qed

section \<open>Repeated claims\<close>

lemma command_receipt:
  assumes "run_command operation orig key input run el al now s = Inr (x, s')"
  shows "queue_lookup s' (receipt_key orig operation key) = Some (canonicalJson input, x)"
proof (cases "receipt_of s (receipt_key orig operation key)")
  case None
  with assms obtain s1 q where
    "s' = s1\<lparr>db_queue_operation_receipts := db_queue_operation_receipts s1 @ [q]\<rparr>"
    "qr_key q = receipt_key orig operation key" "qr_request q = canonicalJson input" "qr_result q = x"
    "receipt_key orig operation key \<notin> qr_key ` set (db_queue_operation_receipts s1)"
    unfolding run_command_def run_receipted_def
    by (auto simp: tx_bind_ok tx_seq_ok rows_insert_Some split: option.split_asm)
  then show ?thesis by (simp add: queue_lookup_def receipt_of_def by_key_append by_key_Cons by_key_None [THEN iffD2])
next
  case (Some q)
  with assms show ?thesis
    by (auto simp: run_command_def run_receipted_def queue_lookup_def tx_bind_ok split: if_split_asm)
qed

lemma view_id: "attempts_view i orig now s = Inr (w, s') \<Longrightarrow> wa_id (vw_attempt w) = i"
  unfolding attempts_view_def by (auto simp: tx_bind_ok get_attempt_ok dest: by_key_Some)

lemma granted_id:
  assumes "claim_view h orig allows now x s = Inr (Granted e v pr, s')"
  shows "obj_get ''attempt_id'' x = Some (JStr (wa_id (vw_attempt v)))"
proof -
  from assms obtain i where i: "obj_get ''attempt_id'' x = Some (JStr i)"
    and "tx_bind (get_attempt i) (\<lambda>attempt.
            tx_seq (tx_guard (allows (wa_task_id attempt)) (queue_error Queue_authority_lost))
           (tx_bind (get_entry (wa_entry_id attempt)) (\<lambda>entry.
            tx_bind (attempts_view (wa_id attempt) orig now) (\<lambda>view.
            tx_bind (tx_read (\<lambda>s. grantValid s attempt orig now)) (\<lambda>valid.
            tx_return (Granted entry (view\<lparr>vw_grant_valid :=
                obj_get ''fence'' x = Some (JNum (wa_fence attempt)) \<and> valid\<rparr>)
              (obj_get ''policy_revision'' x))))))) s = Inr (Granted e v pr, s')"
    unfolding claim_view_def by (auto simp: as_string_def split: if_split_asm option.split_asm json.split_asm)
  then have "wa_id (vw_attempt v) = i"
    by (auto simp: tx_bind_ok tx_seq_ok dest!: view_id get_attempt_tracked(2))
  with i show ?thesis by simp
qed

text \<open>C16. A repeated claim acts once: the same command of the same caller, sent again, at most settles
  lapsed leases, and if it reports a grant then the grant of the first time.\<close>

theorem claim_exactly_once:
  assumes "claimNext h input orig allows now s = (s', Inr r)"
    and "claimNext h' input orig allows' now' s' = (s'', r')"
  shows "(s'' = s' \<or> s'' = fst (expire h' now' s'))
    \<and> (\<forall>e v pr. r' = Inr (Granted e v pr) \<longrightarrow>
        (\<exists>e0 v0 pr0. r = Granted e0 v0 pr0 \<and> wa_id (vw_attempt v) = wa_id (vw_attempt v0)))"
proof (cases r')
  case (Inl e)
  with assms(2) show ?thesis by (auto simp: claimNext_def commit_error split: if_split_asm)
next
  case (Inr w)
  let ?k = "receipt_key orig ''claim-next'' (cm_idempotency_key input)"
  from assms(1) obtain n s1 x where c: "run_command ''claim-next'' orig (cm_idempotency_key input) (claim_json input)
      (claim_run h input orig allows now) None None now s1 = Inr (x, s')"
    and view: "claim_view h orig allows now x s' = Inr (r, s')" by (rule claimNext_run)
  note kept = command_receipt [OF c]
  from assms(2) Inr have again: "claimNext h' input orig allows' now' s' = (s'', Inr w)" by simp
  then obtain m s2 y where ex: "expireInTransaction h' now' s' = Inr (m, s2)"
    and c': "run_command ''claim-next'' orig (cm_idempotency_key input) (claim_json input)
      (claim_run h' input orig allows' now') None None now' s2 = Inr (y, s'')"
    and view': "claim_view h' orig allows' now' y s'' = Inr (w, s'')" by (rule claimNext_run)
  have "queue_lookup s2 ?k = Some (canonicalJson (claim_json input), x)"
    using kept expiry_keeps(2) [OF ex] by (simp add: queue_lookup_def receipt_of_def)
  then have "y = x" "s'' = s2" using c' commands.hit [OF _ refl] unfolding run_command_def by fastforce+
  have "\<exists>e0 v0 pr0. r = Granted e0 v0 pr0 \<and> wa_id (vw_attempt v) = wa_id (vw_attempt v0)" if w: "w = Granted e v pr" for e v pr
  proof -
    note i = granted_id [OF view' [unfolded w \<open>y = x\<close>]]
    then have "obj_has ''attempt_id'' x" by (simp add: obj_has_iff)
    with view obtain e0 v0 pr0 where r: "r = Granted e0 v0 pr0"
      unfolding claim_view_def by (auto simp: tx_bind_ok tx_seq_ok split: option.split_asm)
    with granted_id [OF view [unfolded r]] i show ?thesis by auto
  qed
  moreover have "s'' = fst (expire h' now' s')" using ex \<open>s'' = s2\<close> by (simp add: expire_def commit_def)
  ultimately show ?thesis using Inr by auto
qed

lemma claimed_idle: "expire (project_host 3 u) 3 (fst claimed) = (fst claimed, Inr 0)"
proof -
  obtain j n where c: "fst claimed = claimed_shape n j" by (rule claimed_run)
  show ?thesis
    by (simp add: c claimed_shape_def expire_def expireInTransaction_def commit_def tx_eval lease_expired_def
        working_def sample_attempt_def new_attempt_def)
qed

text \<open>The worker lost the answer and asks again: the same attempt, and no other.\<close>

theorem claim_exactly_once_witness:
  "db_work_attempts (fst (claimNext (project_host 3 ''a2'') sample_claim (system_origin ''w'') (\<lambda>_. True) 3
      (fst claimed))) = [sample_attempt]"
  using claim_exactly_once [OF claimed_result surjective_pairing, of "project_host 3 ''a2''" "\<lambda>_. True" 3]
  by (auto simp: claimed_idle claimed_rows)

section \<open>Pages of attempts\<close>

lemma list_batches_take:
  "take wanted (list_batches allows wanted ordered skip rows)
    = take wanted (rows @ filter (\<lambda>a. allows (wa_task_id a)) (drop skip ordered))"
proof (induction allows wanted ordered skip rows rule: list_batches.induct)
  case (1 allows wanted ordered skip rows)
  let ?batch = "take LIST_BATCH (drop skip ordered)" and ?p = "\<lambda>a. allows (wa_task_id a)"
  have split: "filter ?p (drop skip ordered) = filter ?p ?batch @ filter ?p (drop (skip + LIST_BATCH) ordered)"
    by (metis append_take_drop_id drop_drop filter_append add.commute)
  consider "wanted \<le> length rows" | "\<not> wanted \<le> length rows" "length ?batch < LIST_BATCH"
    | "\<not> wanted \<le> length rows" "\<not> length ?batch < LIST_BATCH" by blast
  then show ?case
  proof cases
    case 2
    then have "length ordered - skip < LIST_BATCH" by (simp add: min_less_iff_disj)
    with 2 split show ?thesis by (subst list_batches.simps) (simp add: Let_def)
  next
    case 3
    with 1 [OF 3(1) refl refl 3(2)] split show ?thesis by (subst list_batches.simps) (simp add: Let_def)
  qed (simp add: list_batches.simps)
qed

text \<open>Listing attempts returns the requested page of the attempts the caller may see: although the rows
  are read in batches and the loop stops early, the result is exactly the slice of the filtered list.\<close>

theorem attempts_list_page:
  "attempts_list s q allows =
    (if aw_limit q < 1 \<or> 500 < aw_limit q \<or> aw_offset q < 0 then Inl ZodError
     else Inr (take (nat (aw_limit q)) (drop (nat (aw_offset q))
       (filter (\<lambda>a. allows (wa_task_id a)) (attempts_ordered q s)))))"
  unfolding attempts_list_def Let_def list_batches_take by (simp add: drop_take)

section \<open>An expiry that cannot settle one attempt\<close>










section \<open>What an inspection discloses\<close>

definition disclosed :: "(string \<Rightarrow> bool) \<Rightarrow> string \<Rightarrow> queue_block_reason \<Rightarrow> bool" where
  "disclosed allows task b = (bk_code b = QB_work B_gate_pending
     \<or> (\<forall>i\<in>set (bk_resource b # (case bk_path b of None \<Rightarrow> [] | Some p \<Rightarrow> p)). i = task \<or> allows i))"

lemma redact_disclosed: "disclosed allows task (redact allows task r)"
  by (auto simp: disclosed_def redact_def queue_reason_def Let_def list_ex_iff split: option.split)

text \<open>C18. An inspection of the queue shows only entries of tasks the caller may see, in the backlog order,
  and a reason why one of them is blocked names no other task that is hidden from the caller, except the
  resource of a pending gate.\<close>

theorem inspect_discloses_allowed:
  assumes "inspect h q allows now s = Inr r"
  shows "sorted (map (rank \<circ> qv_entry) (qi_entries r))
    \<and> (\<forall>v\<in>set (qi_entries r). allows (qe_task_id (qv_entry v))
        \<and> (\<forall>b\<in>set (qv_block_reasons v). disclosed allows (qe_task_id (qv_entry v)) b))"
proof -
  from assms obtain sn where r: "qi_entries r = map (entry_view s sn q allows now)
      (take (nat (lq_limit q)) (drop (nat (lq_offset q)) (filter (entry_admitted s sn q now) (visible_entries s allows))))"
    by (auto simp: inspect_def Let_def split: if_split_asm sum.split_asm)
  have e: "rank \<circ> qv_entry \<circ> entry_view s sn q allows now = rank" by (simp add: fun_eq_iff entry_view_def)
  have "sorted (map rank (visible_entries s allows))"
    unfolding visible_entries_def queue_ordered_def rank_def [abs_def] by (intro sorted_filter) simp
  then have "sorted (map (rank \<circ> qv_entry) (qi_entries r))"
    unfolding r map_map e by (simp add: take_map [symmetric] drop_map [symmetric] sorted_filter sorted_wrt_take sorted_wrt_drop)
  moreover have "allows (qe_task_id (qv_entry v)) \<and> (\<forall>b\<in>set (qv_block_reasons v). disclosed allows (qe_task_id (qv_entry v)) b)"
    if "v \<in> set (qi_entries r)" for v
    using that redact_disclosed unfolding r
    by (auto simp: entry_view_def visible_entries_def dest!: in_set_takeD in_set_dropD)
  ultimately show ?thesis by blast
qed

definition sample_query :: queue_list_query where
  "sample_query = \<lparr>lq_task_id = None, lq_state = None, lq_type = None, lq_target_principal = None, lq_capability = None,
     lq_priority = None, lq_lease_expired = False, lq_capabilities = None, lq_compact = True, lq_limit = 50, lq_offset = 0\<rparr>"

theorem inspect_discloses_allowed_witness:
  "\<exists>r. inspect (project_host 3 ''u'') sample_query (\<lambda>i. i = ''t1'') 3 enrolled_db = Inr r \<and> length (qi_entries r) = 1
    \<and> (\<forall>v\<in>set (qi_entries r). qe_task_id (qv_entry v) = ''t1'')"
proof -
  obtain j n where e: "enrolled_db = worker_db\<lparr>db_queue_entries := [sample_entry Queued], db_journal_seq := n,
     db_journal := j, db_queue_operation_receipts := [sample_receipt]\<rparr>" by (rule enrolled_db_eq)
  have "\<exists>r. inspect (project_host 3 ''u'') sample_query (\<lambda>i. i = ''t1'') 3 enrolled_db = Inr r \<and> length (qi_entries r) = 1"
    by (simp add: e inspect_def sample_query_def queue_list_query_ok_def worker_read worker_sel visible_entries_def
        queue_ordered_def entry_admitted_def query_filter_def sample_entry_def Let_def)
  then obtain r where r: "inspect (project_host 3 ''u'') sample_query (\<lambda>i. i = ''t1'') 3 enrolled_db = Inr r"
    "length (qi_entries r) = 1" by blast
  with inspect_discloses_allowed [OF r(1)] show ?thesis by blast
qed

end
