(* ===== verification/Agents.thy ===== *)
theory Agents
  imports Attempts
begin

text \<open>
  Agents and their bindings: \<^verbatim>\<open>packages/ops-sqlite/src/agent-binding-ops.ts\<close> with
  \<^verbatim>\<open>config-revision-ops.ts\<close>, \<^verbatim>\<open>conversation-state-ops.ts\<close> and the binding views of
  \<^verbatim>\<open>packages/core/src/runtime-observation.ts\<close>.

  An agent is a configured identity; at most one run holds it, through an active binding whose
  epoch is the agent's. Attaching, replacing, releasing, expiring and archiving move a binding out
  of the active state for good, and the epoch only grows.
\<close>

section \<open>Settings revisions\<close>

text \<open>One counter for the whole project, so that a revision is never handed out twice.\<close>

definition nextRevision :: "int ptx" where
  "nextRevision = tx_bind
     (tx_read (\<lambda>s. case tk_config_revision (db_talk s) of Some v \<Rightarrow> v + 1 | None \<Rightarrow> 2)) (\<lambda>v.
     tx_seq (tx_write (set_talk (\<lambda>k. k\<lparr>tk_config_revision := Some v\<rparr>))) (tx_return v))"

definition checkConfigRevision :: "string \<Rightarrow> int option \<Rightarrow> int \<Rightarrow> unit ptx" where
  "checkConfigRevision resource now_at expected = tx_guard
     (case now_at of None \<Rightarrow> expected = 0 | Some r \<Rightarrow> r = expected) (RevisionConflictError resource now_at)"

section \<open>Tables\<close>

abbreviation agents :: "db \<Rightarrow> agent_row list" where
  "agents s \<equiv> tk_agents (db_talk s)"

abbreviation bindings :: "db \<Rightarrow> agent_binding list" where
  "bindings s \<equiv> tk_bindings (db_talk s)"

definition write_agents :: "(agent_row list \<Rightarrow> agent_row list) \<Rightarrow> unit ptx" where
  "write_agents f = tx_write (set_talk (\<lambda>k. k\<lparr>tk_agents := f (tk_agents k)\<rparr>))"

definition write_bindings :: "(agent_binding list \<Rightarrow> agent_binding list) \<Rightarrow> unit ptx" where
  "write_bindings f = tx_write (set_talk (\<lambda>k. k\<lparr>tk_bindings := f (tk_bindings k)\<rparr>))"

definition write_outbox :: "(outbox_row list \<Rightarrow> outbox_row list) \<Rightarrow> unit ptx" where
  "write_outbox f = tx_write (set_talk (\<lambda>k. k\<lparr>tk_outbox := f (tk_outbox k)\<rparr>))"

definition set_agent :: "string \<Rightarrow> (agent_row \<Rightarrow> agent_row) \<Rightarrow> unit ptx" where
  "set_agent i f = write_agents (rows_set (\<lambda>a. ag_id a = i) f)"

definition set_binding :: "string \<Rightarrow> (agent_binding \<Rightarrow> agent_binding) \<Rightarrow> unit ptx" where
  "set_binding i f = write_bindings (rows_set (\<lambda>b. ab_consumer_binding_id b = i) f)"

definition set_outbox :: "string \<Rightarrow> (outbox_row \<Rightarrow> outbox_row) \<Rightarrow> unit ptx" where
  "set_outbox i f = write_outbox (rows_set (\<lambda>r. ob_agent_id r = i) f)"

text \<open>The constraints of \<open>agent_bindings\<close>: the primary key, one binding per agent and run, and one
  active binding per agent.\<close>

definition insert_binding :: "agent_binding \<Rightarrow> unit ptx" where
  "insert_binding b = tx_bind (tx_read bindings) (\<lambda>rows. tx_seq
     (tx_guard (\<not> list_ex (\<lambda>r. ab_consumer_binding_id r = ab_consumer_binding_id b
         \<or> (ab_agent_id r = ab_agent_id b \<and> ab_run_id r = ab_run_id b)
         \<or> (ab_agent_id r = ab_agent_id b \<and> ab_state r = B_active \<and> ab_state b = B_active)) rows)
       (SqliteError ''agent_bindings''))
     (write_bindings (\<lambda>rows. rows @ [b])))"

section \<open>Who acts\<close>

datatype run_role = Acting | Relay

record runtime_identity =
  rt_run_id :: string
  rt_agent_id :: "string option"
  rt_run_role :: run_role
  rt_principal_id :: string
  rt_participant_id :: string
  rt_enrollment_id :: "string option"
  rt_workload_binding_id :: "string option"
  rt_lease_expires_at :: int

record agent_authority =
  au_principal_id :: string
  au_participant_id :: "string option"
  au_can_manage :: bool
  au_runtime :: "runtime_identity option"
  au_acting_runtime :: "runtime_identity option"
  au_terminal_run_id :: "string option"

text \<open>A lease is counted in seconds, the clock in milliseconds.\<close>

definition lease_live :: "int \<Rightarrow> int \<Rightarrow> bool" where
  "lease_live lease now \<longleftrightarrow> lease * 1000 > now"

definition filled :: "string option \<Rightarrow> bool" where
  "filled v = (case v of None \<Rightarrow> False | Some x \<Rightarrow> x \<noteq> [])"

definition agent_denied :: error where
  "agent_denied = AgentBindingError ''permission-denied'' 403"

definition stale_binding :: error where
  "stale_binding = AgentBindingError ''stale-binding'' 409"

definition profile_mismatch :: error where
  "profile_mismatch = AgentBindingError ''profile-mismatch'' 403"

definition requireManage :: "agent_authority \<Rightarrow> unit ptx" where
  "requireManage au = tx_guard (au_can_manage au) agent_denied"

text \<open>\<open>agent\<close> hides archived agents, \<open>managed\<close> shows them.\<close>

definition agent_get :: "string \<Rightarrow> agent_row ptx" where
  "agent_get i = tx_bind (tx_read (\<lambda>s. by_key ag_id i (agents s))) (\<lambda>row. case row of
      None \<Rightarrow> tx_throw agent_denied
    | Some a \<Rightarrow> if ag_archived a then tx_throw agent_denied else tx_return a)"

definition managed :: "string \<Rightarrow> agent_row ptx" where
  "managed i = tx_bind (tx_read (\<lambda>s. by_key ag_id i (agents s))) (\<lambda>row. case row of
      None \<Rightarrow> tx_throw (AgentBindingError ''not-found'' 404)
    | Some a \<Rightarrow> tx_return a)"

definition agent_origin :: "agent_authority \<Rightarrow> string \<Rightarrow> request_origin" where
  "agent_origin au actor = \<lparr>or_principalId = au_principal_id au,
     or_participantId = (case au_participant_id au of None \<Rightarrow> au_principal_id au | Some p \<Rightarrow> p),
     or_environment = [], or_actor = actor, or_tokenId = None, or_source = None, or_sourceVersion = None\<rparr>"

definition agent_journal :: "host \<Rightarrow> string \<Rightarrow> string \<Rightarrow> agent_authority \<Rightarrow> jobj \<Rightarrow> unit ptx" where
  "agent_journal h kind i au data =
     appendJournal h kind (''agent:'' @ i) (agent_origin au '''') None data"

text \<open>\<open>authorizeRun\<close>: the owner, or a principal the bind policy names for this agent.\<close>

definition may_bind :: "agent_row \<Rightarrow> string \<Rightarrow> bool" where
  "may_bind a who \<longleftrightarrow> ag_owner_principal_id a = who
     \<or> list_ex (\<lambda>g. bg_principal_id g = who \<and> bg_agent_id g = ag_id a) (ag_bind_policy a)"

definition authorizeRun :: "string \<Rightarrow> string \<Rightarrow> unit ptx" where
  "authorizeRun i who = tx_bind (agent_get i) (\<lambda>a. tx_guard (may_bind a who) agent_denied)"

definition current_binding :: "db \<Rightarrow> string \<Rightarrow> agent_binding option" where
  "current_binding s i = row_find (\<lambda>b. ab_agent_id b = i \<and> ab_state b = B_active) (bindings s)"

section \<open>Dispatch state\<close>

definition clear_lease :: "outbox_row \<Rightarrow> outbox_row" where
  "clear_lease r = r\<lparr>ob_lease_token := None, ob_lease_until := None, ob_lease_gen := None,
     ob_lease_binding_id := None, ob_lease_epoch := None\<rparr>"

text \<open>\<open>rearm\<close>: the agent's outbox is due now; a publication advances its generation, any other
  reason drops the dispatch lease. An agent that polls is never woken.\<close>

definition polls :: "db \<Rightarrow> string \<Rightarrow> bool" where
  "polls s i = (case current_binding s i of None \<Rightarrow> False | Some b \<Rightarrow> at_mechanism (ab_attachment b) = M_poll)"

definition rearm :: "string \<Rightarrow> int \<Rightarrow> bool \<Rightarrow> unit ptx" where
  "rearm i now publication = tx_bind (tx_read (\<lambda>s. polls s i)) (\<lambda>quiet.
     write_outbox (rows_upsert ob_agent_id
       \<lparr>ob_agent_id = i, ob_quiet = quiet, ob_publish_gen = 1, ob_lease_token = None, ob_lease_until = None,
         ob_lease_gen = None, ob_lease_binding_id = None, ob_lease_epoch = None, ob_next_attempt_at = now,
         ob_attempt_count = 0, ob_updated_at = now\<rparr>
       (\<lambda>r. (if publication then r else clear_lease r)\<lparr>ob_quiet := quiet,
         ob_publish_gen := ob_publish_gen r + (if publication then 1 else 0),
         ob_next_attempt_at := now, ob_updated_at := now\<rparr>)))"

text \<open>The update that stops dispatch to an agent.\<close>

definition quiet_outbox :: "string \<Rightarrow> int \<Rightarrow> unit ptx" where
  "quiet_outbox i now = set_outbox i (\<lambda>r. (clear_lease r)\<lparr>ob_quiet := True, ob_updated_at := now\<rparr>)"

section \<open>Configuration\<close>

record agent_registration =
  ar_id :: string
  ar_name :: string
  ar_bind_policy :: "bind_grant list"

definition insert_agent :: "agent_row \<Rightarrow> unit ptx" where
  "insert_agent a = tx_bind (tx_read agents) (\<lambda>rows. tx_seq
     (tx_guard (ag_id a \<notin> ag_id ` set rows) (SqliteError ''agents'')) (write_agents (\<lambda>rows. rows @ [a])))"

definition agent_register ::
    "host \<Rightarrow> agent_registration \<Rightarrow> agent_authority \<Rightarrow> int \<Rightarrow> agent_row ptx" where
  "agent_register h input au now = tx_seq (requireManage au)
     (tx_bind (tx_read (\<lambda>s. by_key ag_id (ar_id input) (agents s))) (\<lambda>existing. case existing of
        Some a \<Rightarrow>
          if ag_archived a then tx_throw (AgentBindingError ''agent-archived'' 409)
          else if ag_owner_principal_id a \<noteq> au_principal_id au \<or> ag_name a \<noteq> ar_name input
              \<or> ag_bind_policy a \<noteq> ar_bind_policy input
            then tx_throw (AgentBindingError ''conflict'' 409)
          else tx_return a
      | None \<Rightarrow> tx_bind nextRevision (\<lambda>r.
          tx_seq (insert_agent \<lparr>ag_id = ar_id input, ag_name = ar_name input,
            ag_owner_principal_id = au_principal_id au, ag_bind_policy = ar_bind_policy input,
            ag_binding_epoch = 0, ag_archived = False, ag_revision = r, ag_profile_selection = None,
            ag_created_at = now, ag_updated_at = now\<rparr>)
          (tx_seq (agent_journal h ''agent.registered'' (ar_id input) au [(''revision'', JNum r)])
          (agent_get (ar_id input))))))"

record update_agent =
  ua_expected_revision :: int
  ua_name :: "string option"
  ua_bind_policy :: "bind_grant list option"
  ua_profile_selection :: "profile_selection option option"

definition differs :: "'a option \<Rightarrow> 'a \<Rightarrow> bool" where
  "differs requested held = (case requested of None \<Rightarrow> False | Some v \<Rightarrow> v \<noteq> held)"

definition changed_fields :: "update_agent \<Rightarrow> agent_row \<Rightarrow> string list" where
  "changed_fields input a =
     (if differs (ua_name input) (ag_name a) then [''name''] else [])
     @ (if differs (ua_bind_policy input) (ag_bind_policy a) then [''bind_policy''] else [])
     @ (if differs (ua_profile_selection input) (ag_profile_selection a) then [''profile_selection''] else [])"

definition apply_agent_change :: "update_agent \<Rightarrow> agent_row \<Rightarrow> agent_row" where
  "apply_agent_change input a = a\<lparr>
     ag_name := (case ua_name input of None \<Rightarrow> ag_name a | Some v \<Rightarrow> v),
     ag_bind_policy := (case ua_bind_policy input of None \<Rightarrow> ag_bind_policy a | Some v \<Rightarrow> v),
     ag_profile_selection := (case ua_profile_selection input of None \<Rightarrow> ag_profile_selection a | Some v \<Rightarrow> v)\<rparr>"

definition agent_update ::
    "host \<Rightarrow> string \<Rightarrow> update_agent \<Rightarrow> agent_authority \<Rightarrow> agent_row do_idempotency option \<Rightarrow> int \<Rightarrow>
      agent_row ptx" where
  "agent_update h i input au idem now = tx_seq (requireManage au)
     (tx_seq (tx_guard (case ua_bind_policy input of None \<Rightarrow> True
          | Some gs \<Rightarrow> \<not> list_ex (\<lambda>g. bg_agent_id g \<noteq> i) gs) (AgentBindingError ''validation-error'' 400))
     (do_once h idem
       (tx_bind (managed i) (\<lambda>a.
        tx_seq (checkConfigRevision (''agent:'' @ i) (Some (ag_revision a)) (ua_expected_revision input))
       (tx_seq (tx_guard (\<not> ag_archived a) (AgentBindingError ''agent-archived'' 409))
       (if changed_fields input a = [] then tx_return a
        else tx_bind nextRevision (\<lambda>r.
          tx_seq (set_agent i (\<lambda>x. (apply_agent_change input x)\<lparr>ag_revision := r, ag_updated_at := now\<rparr>))
         (tx_seq (agent_journal h ''agent.updated'' i au [(''revision'', JNum r),
             (''changed'', JArr (map JStr (changed_fields input a)))])
         (managed i)))))))))"

section \<open>Archiving\<close>

definition pendingDeliveries :: "db \<Rightarrow> string \<Rightarrow> int \<Rightarrow> nat" where
  "pendingDeliveries s i now = length (filter (\<lambda>d. mr_agent_id d = i \<and> mr_state d = R_pending
     \<and> mr_expires_at d > now) (tk_recipients (db_talk s)))"

definition binding_work :: "db \<Rightarrow> agent_binding \<Rightarrow> work_attempt list" where
  "binding_work s b = filter (\<lambda>a. wa_principal_id a = ab_principal_id b
     \<and> wa_participant_id a = ab_participant_id b \<and> wa_state a \<noteq> Terminal) (db_work_attempts s)"

definition RUNTIME_WORK_ATTEMPT_LIMIT :: nat where
  "RUNTIME_WORK_ATTEMPT_LIMIT = 5"

text \<open>\<open>workFor\<close>: the number of unfinished attempts and the newest few of them.\<close>

definition workFor :: "db \<Rightarrow> agent_binding \<Rightarrow> (nat \<times> work_attempt list) option" where
  "workFor s b = (if binding_work s b = [] then None
     else Some (length (binding_work s b),
       take RUNTIME_WORK_ATTEMPT_LIMIT (rev (sort_key (\<lambda>a. (wa_updated_at a, wa_id a)) (binding_work s b)))))"

record binding_summary =
  bs_consumer_binding_id :: string
  bs_agent_id :: string
  bs_binding_epoch :: int
  bs_state :: binding_state
  bs_mechanism :: mechanism
  bs_lease_expires_at :: int

definition summarizeBinding :: "agent_binding \<Rightarrow> binding_summary" where
  "summarizeBinding b = \<lparr>bs_consumer_binding_id = ab_consumer_binding_id b, bs_agent_id = ab_agent_id b,
     bs_binding_epoch = ab_binding_epoch b, bs_state = ab_state b,
     bs_mechanism = at_mechanism (ab_attachment b), bs_lease_expires_at = ab_lease_expires_at b\<rparr>"

record agent_preview =
  av_agent_id :: string
  av_agent_revision :: int
  av_archived :: bool
  av_binding :: "binding_summary option"
  av_pending_deliveries :: nat
  av_rooms :: "string list"
  av_open_questions :: nat
  av_unfinished_attempts :: nat

definition agent_archive_preview :: "string \<Rightarrow> agent_authority \<Rightarrow> int \<Rightarrow> agent_preview ptx" where
  "agent_archive_preview i au now = tx_seq (requireManage au) (tx_bind (managed i) (\<lambda>a.
     tx_read (\<lambda>s. \<lparr>av_agent_id = i, av_agent_revision = ag_revision a, av_archived = ag_archived a,
       av_binding = map_option summarizeBinding (current_binding s i),
       av_pending_deliveries = pendingDeliveries s i now,
       av_rooms = sort (map rk_room_id (filter (\<lambda>m. rk_member m = ''agent:'' @ i) (tk_members (db_talk s)))),
       av_open_questions = length (filter (\<lambda>r. wq_state r = Q_open
         \<and> (case qu_requester_binding (wq_snapshot r) of None \<Rightarrow> False | Some b \<Rightarrow> qb_agent_id b = i)
         \<and> \<not> invalidated (wq_snapshot r)) (db_work_questions s)),
       av_unfinished_attempts = (case current_binding s i of None \<Rightarrow> 0
         | Some b \<Rightarrow> (case workFor s b of None \<Rightarrow> 0 | Some w \<Rightarrow> fst w))\<rparr>)))"

record agent_archive_result =
  ax_agent :: agent_row
  ax_released :: "(string \<times> int) option"
  ax_pending_deliveries :: nat

definition end_binding :: "binding_state \<Rightarrow> int \<Rightarrow> agent_binding \<Rightarrow> agent_binding" where
  "end_binding st now b = b\<lparr>ab_state := st, ab_updated_at := now\<rparr>"

definition agent_archive ::
    "host \<Rightarrow> string \<Rightarrow> int \<Rightarrow> int option \<Rightarrow> agent_authority \<Rightarrow> agent_archive_result do_idempotency option \<Rightarrow>
      int \<Rightarrow> agent_archive_result ptx" where
  "agent_archive h i expected_revision expected_epoch au idem now = tx_seq (requireManage au)
     (do_once h idem
       (tx_bind (managed i) (\<lambda>a.
        tx_seq (checkConfigRevision (''agent:'' @ i) (Some (ag_revision a)) expected_revision)
       (if ag_archived a then tx_read (\<lambda>s. \<lparr>ax_agent = a, ax_released = None,
            ax_pending_deliveries = pendingDeliveries s i now\<rparr>)
        else tx_bind (tx_read (\<lambda>s. current_binding s i)) (\<lambda>active.
          tx_seq (case active of None \<Rightarrow> tx_return ()
            | Some b \<Rightarrow> tx_seq (tx_guard (expected_epoch = Some (ab_binding_epoch b)) stale_binding)
                (set_binding (ab_consumer_binding_id b) (end_binding B_released now)))
         (tx_seq (invalidateAgentQuestions h i (agent_origin au (au_principal_id au)) now
            ''requesting agent archived'')
         (tx_seq (quiet_outbox i now)
         (tx_bind nextRevision (\<lambda>r.
          tx_seq (set_agent i (\<lambda>x. x\<lparr>ag_archived := True, ag_revision := r,
            ag_binding_epoch := ag_binding_epoch a + 1, ag_updated_at := now\<rparr>))
         (tx_seq (agent_journal h ''agent.archived'' i au [(''revision'', JNum r),
            (''released_binding_epoch'', case active of None \<Rightarrow> JNull | Some b \<Rightarrow> JNum (ab_binding_epoch b))])
         (tx_bind (managed i) (\<lambda>a'. tx_read (\<lambda>s. \<lparr>ax_agent = a',
            ax_released = map_option (\<lambda>b. (ab_consumer_binding_id b, ab_binding_epoch b)) active,
            ax_pending_deliveries = pendingDeliveries s i now\<rparr>)))))))))))))"

definition agent_unarchive ::
    "host \<Rightarrow> string \<Rightarrow> int \<Rightarrow> agent_authority \<Rightarrow> agent_row do_idempotency option \<Rightarrow> int \<Rightarrow> agent_row ptx" where
  "agent_unarchive h i expectedRevision au idem now = tx_seq (requireManage au)
     (do_once h idem
       (tx_bind (managed i) (\<lambda>a.
        tx_seq (checkConfigRevision (''agent:'' @ i) (Some (ag_revision a)) expectedRevision)
       (if \<not> ag_archived a then tx_return a
        else tx_bind nextRevision (\<lambda>r.
          tx_seq (set_agent i (\<lambda>x. x\<lparr>ag_archived := False, ag_revision := r, ag_updated_at := now\<rparr>))
         (tx_seq (agent_journal h ''agent.unarchived'' i au [(''revision'', JNum r)])
         (managed i)))))))"

section \<open>Views\<close>

record binding_viewer =
  bv_principal_id :: string
  bv_can_manage :: bool
  bv_run_id :: "string option"

definition bindingDetailVisible :: "string \<Rightarrow> agent_binding option \<Rightarrow> binding_viewer \<Rightarrow> bool" where
  "bindingDetailVisible owner b who \<longleftrightarrow> bv_can_manage who \<or> owner = bv_principal_id who
     \<or> (case b of None \<Rightarrow> False | Some x \<Rightarrow> bv_run_id who = Some (ab_run_id x))"

definition viewer :: "agent_authority \<Rightarrow> binding_viewer" where
  "viewer au = \<lparr>bv_principal_id = au_principal_id au, bv_can_manage = au_can_manage au,
     bv_run_id = map_option rt_run_id (au_runtime au)\<rparr>"

datatype binding_view = Full_binding agent_binding | Binding_summary binding_summary

record agent_shown =
  vw_agent :: agent_row
  vw_binding :: "binding_view option"

definition agent_view :: "string \<Rightarrow> agent_authority \<Rightarrow> bool \<Rightarrow> agent_shown ptx" where
  "agent_view i au includeArchived =
     tx_bind (if includeArchived \<and> au_can_manage au then managed i else agent_get i) (\<lambda>a.
     tx_read (\<lambda>s. let active = current_binding s i;
         full = bindingDetailVisible (ag_owner_principal_id a) active (viewer au) in
       \<lparr>vw_agent = (if full then a else a\<lparr>ag_bind_policy := [], ag_profile_selection := None\<rparr>),
        vw_binding = map_option (\<lambda>b. if full then Full_binding b else Binding_summary (summarizeBinding b)) active\<rparr>))"

fun tx_map :: "'x list \<Rightarrow> ('x \<Rightarrow> ('e, 's, 'b) tx) \<Rightarrow> ('e, 's, 'b list) tx" where
  "tx_map [] f = tx_return []"
| "tx_map (x # xs) f = tx_bind (f x) (\<lambda>y. tx_bind (tx_map xs f) (\<lambda>ys. tx_return (y # ys)))"

definition agent_list :: "agent_authority \<Rightarrow> bool \<Rightarrow> agent_shown list ptx" where
  "agent_list au includeArchived = (let archived = includeArchived \<and> au_can_manage au in
     tx_bind (tx_read (\<lambda>s. sort (map ag_id (filter (\<lambda>a. archived \<or> \<not> ag_archived a) (agents s))))) (\<lambda>is.
     tx_map is (\<lambda>i. agent_view i au archived)))"

section \<open>Attaching a run\<close>

record attach_input =
  ai_expected_epoch :: int
  ai_acting_run_id :: "string option"
  ai_details :: attachment

text \<open>The run that will hold the mailbox: the caller, or the acting run its relay names.\<close>

definition actingRun :: "string \<Rightarrow> attach_input \<Rightarrow> agent_authority \<Rightarrow> int \<Rightarrow> error + runtime_identity" where
  "actingRun i input au now = (case au_runtime au of
      None \<Rightarrow> Inl (AgentBindingError ''runtime-required'' 403)
    | Some caller \<Rightarrow>
        if rt_agent_id caller \<noteq> Some i \<or> rt_principal_id caller \<noteq> au_principal_id au
            \<or> \<not> lease_live (rt_lease_expires_at caller) now then Inl stale_binding
        else (case (if rt_run_role caller = Relay then au_acting_runtime au else Some caller) of
            None \<Rightarrow> Inl (AgentBindingError ''runtime-required'' 403)
          | Some acting \<Rightarrow>
              if rt_run_role acting \<noteq> Acting \<or> rt_agent_id acting \<noteq> Some i
                  \<or> \<not> lease_live (rt_lease_expires_at acting) now
                then Inl (AgentBindingError ''runtime-required'' 403)
              else if rt_run_role caller = Relay \<and> (\<not> filled (rt_enrollment_id caller)
                  \<or> rt_enrollment_id caller \<noteq> rt_enrollment_id acting
                  \<or> ai_acting_run_id input \<noteq> Some (rt_run_id acting)) then Inl agent_denied
              else if rt_run_role caller = Acting \<and> filled (ai_acting_run_id input)
                  \<and> ai_acting_run_id input \<noteq> Some (rt_run_id caller) then Inl agent_denied
              else Inr acting))"

text \<open>A native session must belong to the enrolled host, the harness and the profile of the run.\<close>

definition session_matches :: "attachment \<Rightarrow> runtime_identity \<Rightarrow> bool" where
  "session_matches d r = (case at_native_session_ref d of None \<Rightarrow> True
    | Some n \<Rightarrow> Some (ns_host_ref n) = rt_enrollment_id r \<and> ns_harness n = at_harness d
        \<and> Some (ns_profile_id n) = map_option pe_profile_id (at_profile d))"

text \<open>\<open>canonicalJson\<close> of the reported details: only the capability map has keys of its own.\<close>

definition canonical_attachment :: "attachment \<Rightarrow> attachment" where
  "canonical_attachment d = d\<lparr>at_capability_report := (at_capability_report d)
     \<lparr>cr_capabilities := sort_key fst (cr_capabilities (at_capability_report d))\<rparr>\<rparr>"

definition selection_matches :: "profile_selection option \<Rightarrow> attachment \<Rightarrow> runtime_identity \<Rightarrow> bool" where
  "selection_matches sel d r = (case sel of None \<Rightarrow> True | Some p \<Rightarrow>
     map_option pe_profile_id (at_profile d) = Some (ps_profile_id p)
     \<and> (ps_account_ref p = None \<or> map_option pe_account_ref (at_profile d) = ps_account_ref p)
     \<and> (ps_host_ref p = None \<or> rt_enrollment_id r = ps_host_ref p))"

definition may_replace :: "agent_row \<Rightarrow> agent_binding \<Rightarrow> runtime_identity \<Rightarrow> agent_authority \<Rightarrow> bool" where
  "may_replace a previous r au \<longleftrightarrow> au_can_manage au \<or> ag_owner_principal_id a = au_principal_id au
     \<or> (rt_enrollment_id r \<noteq> None \<and> rt_enrollment_id r = ab_enrollment_id previous)
     \<or> au_terminal_run_id au = Some (ab_run_id previous)"

text \<open>The same run attaching again: its binding must still hold the agent, and only the lease moves.\<close>

definition renew_binding :: "agent_row \<Rightarrow> agent_binding \<Rightarrow> attachment \<Rightarrow> runtime_identity \<Rightarrow> int \<Rightarrow>
    agent_binding ptx" where
  "renew_binding a prior request r now =
     tx_seq (tx_guard (ab_state prior = B_active \<and> ab_binding_epoch prior = ag_binding_epoch a) stale_binding)
    (tx_seq (tx_guard (ab_attachment prior = request) profile_mismatch)
    (tx_seq (set_binding (ab_consumer_binding_id prior)
       (\<lambda>b. b\<lparr>ab_lease_expires_at := rt_lease_expires_at r, ab_updated_at := now\<rparr>))
    (tx_return (prior\<lparr>ab_lease_expires_at := rt_lease_expires_at r, ab_updated_at := now\<rparr>))))"

definition new_binding :: "host \<Rightarrow> agent_row \<Rightarrow> attachment \<Rightarrow> runtime_identity \<Rightarrow> int \<Rightarrow> agent_binding" where
  "new_binding h a request r now = \<lparr>ab_consumer_binding_id = random_uuid h, ab_agent_id = ag_id a,
     ab_run_id = rt_run_id r, ab_binding_epoch = ag_binding_epoch a + 1,
     ab_enrollment_id = rt_enrollment_id r, ab_workload_binding_id = rt_workload_binding_id r,
     ab_principal_id = rt_principal_id r, ab_participant_id = rt_participant_id r, ab_state = B_active,
     ab_attachment = request, ab_lease_expires_at = rt_lease_expires_at r, ab_created_at = now,
     ab_updated_at = now\<rparr>"

definition runtime_origin :: "agent_authority \<Rightarrow> runtime_identity \<Rightarrow> request_origin" where
  "runtime_origin au r = \<lparr>or_principalId = au_principal_id au, or_participantId = rt_participant_id r,
     or_environment = [], or_actor = au_principal_id au, or_tokenId = None, or_source = None,
     or_sourceVersion = None\<rparr>"

definition replace_binding :: "host \<Rightarrow> agent_row \<Rightarrow> attachment \<Rightarrow> runtime_identity \<Rightarrow> agent_authority \<Rightarrow> int \<Rightarrow>
    agent_binding ptx" where
  "replace_binding h a request r au now =
     tx_bind (tx_read (\<lambda>s. current_binding s (ag_id a))) (\<lambda>previous.
     tx_seq (case previous of None \<Rightarrow> tx_return ()
       | Some p \<Rightarrow> tx_seq (tx_guard (may_replace a p r au) agent_denied)
           (set_binding (ab_consumer_binding_id p) (end_binding B_replaced now)))
    (tx_seq (invalidateAgentQuestions h (ag_id a) (runtime_origin au r) now ''requesting agent binding replaced'')
    (tx_seq (set_agent (ag_id a) (\<lambda>x. x\<lparr>ag_binding_epoch := ag_binding_epoch a + 1, ag_updated_at := now\<rparr>))
    (tx_seq (insert_binding (new_binding h a request r now))
    (tx_seq (rearm (ag_id a) now False)
    (tx_return (new_binding h a request r now)))))))"

definition agent_attach :: "host \<Rightarrow> string \<Rightarrow> attach_input \<Rightarrow> agent_authority \<Rightarrow> int \<Rightarrow> agent_binding ptx" where
  "agent_attach h i input au now = tx_bind (tx_lift (actingRun i input au now)) (\<lambda>r.
     let request = canonical_attachment (ai_details input) in
     tx_seq (tx_guard (session_matches (ai_details input) r) profile_mismatch)
    (tx_bind (agent_get i) (\<lambda>a.
     tx_seq (authorizeRun i (rt_principal_id r))
    (tx_bind (tx_read (\<lambda>s. row_find (\<lambda>b. ab_agent_id b = i \<and> ab_run_id b = rt_run_id r) (bindings s)))
      (\<lambda>prior. case prior of
        Some b \<Rightarrow> renew_binding a b request r now
      | None \<Rightarrow>
          tx_seq (tx_guard (ai_expected_epoch input = ag_binding_epoch a) stale_binding)
         (tx_seq (tx_guard (selection_matches (ag_profile_selection a) (ai_details input) r) profile_mismatch)
         (replace_binding h a request r au now)))))))"

section \<open>Releasing\<close>

definition releaseAuthorized :: "string \<Rightarrow> agent_binding \<Rightarrow> agent_authority \<Rightarrow> int \<Rightarrow> bool" where
  "releaseAuthorized owner active au now \<longleftrightarrow>
     (case au_runtime au of None \<Rightarrow> False
      | Some r \<Rightarrow> rt_run_role r = Acting \<and> rt_run_id r = ab_run_id active \<and> lease_live (rt_lease_expires_at r) now)
     \<or> au_can_manage au \<or> au_principal_id au = owner"

definition agent_release :: "string \<Rightarrow> int \<Rightarrow> agent_authority \<Rightarrow> int \<Rightarrow> unit ptx" where
  "agent_release i epoch au now = tx_bind (tx_read (\<lambda>s. current_binding s i)) (\<lambda>active. case active of
      None \<Rightarrow> tx_throw (AgentBindingError ''no-active-binding'' 409)
    | Some b \<Rightarrow>
        tx_seq (tx_guard (ab_binding_epoch b = epoch) stale_binding)
       (tx_bind (agent_get i) (\<lambda>a.
        tx_seq (tx_guard (releaseAuthorized (ag_owner_principal_id a) b au now) agent_denied)
       (set_binding (ab_consumer_binding_id b) (end_binding B_released now)))))"

section \<open>Runtime overview\<close>

definition latestEnded :: "db \<Rightarrow> string \<Rightarrow> agent_binding option" where
  "latestEnded s i = (case rev (sort_key (\<lambda>b. (ab_updated_at b, ab_binding_epoch b))
      (filter (\<lambda>b. ab_agent_id b = i \<and> ab_state b \<noteq> B_active) (bindings s))) of
      [] \<Rightarrow> None | b # _ \<Rightarrow> Some b)"

definition presenceOf :: "db \<Rightarrow> agent_binding \<Rightarrow> presence_row option" where
  "presenceOf s b = row_find (\<lambda>p. pr_principal_id p = ab_principal_id b
     \<and> pr_participant_id p = ab_participant_id b) (db_presence s)"

record binding_occupant =
  oc_binding :: agent_binding
  oc_full :: bool
  oc_presence :: "presence_row option"

record runtime_listing =
  rr_id :: string
  rr_name :: string
  rr_binding_epoch :: int
  rr_current :: "(binding_occupant \<times> bool) option"
  rr_previous :: "binding_occupant option"
  rr_work :: "(nat \<times> work_attempt list) option"

definition occupant :: "db \<Rightarrow> agent_row \<Rightarrow> binding_viewer \<Rightarrow> agent_binding \<Rightarrow> binding_occupant" where
  "occupant s a who b = \<lparr>oc_binding = b,
     oc_full = bindingDetailVisible (ag_owner_principal_id a) (Some b) who, oc_presence = presenceOf s b\<rparr>"

definition runtime_row :: "db \<Rightarrow> agent_authority \<Rightarrow> int \<Rightarrow> agent_row \<Rightarrow> runtime_listing" where
  "runtime_row s au now a = \<lparr>rr_id = ag_id a, rr_name = ag_name a, rr_binding_epoch = ag_binding_epoch a,
     rr_current = map_option (\<lambda>b. (occupant s a (viewer au) b,
       releaseAuthorized (ag_owner_principal_id a) b au now)) (current_binding s (ag_id a)),
     rr_previous = map_option (occupant s a (viewer au)) (latestEnded s (ag_id a)),
     rr_work = (case current_binding s (ag_id a) of None \<Rightarrow> None | Some b \<Rightarrow> workFor s b)\<rparr>"

definition runtimePage :: "agent_authority \<Rightarrow> string option \<Rightarrow> nat \<Rightarrow> string option \<Rightarrow> int \<Rightarrow> db \<Rightarrow>
    runtime_listing list \<times> string option" where
  "runtimePage au after limit only now s = (let
      matching = sort_key ag_id (filter (\<lambda>a. \<not> ag_archived a
        \<and> (if filled only then Some (ag_id a) = only
           else filled after \<longrightarrow> the after < ag_id a)) (agents s));
      found = take (limit + 1) matching;
      page = take limit found in
    (map (runtime_row s au now) page,
     if length found > limit then (if page = [] then None else Some (ag_id (last page))) else None))"

section \<open>Revocation and restore\<close>

record revocation =
  rv_run_id :: "string option"
  rv_enrollment_id :: "string option"
  rv_workload_binding_id :: "string option"
  rv_principal_id :: "string option"

definition revokes :: "revocation \<Rightarrow> agent_binding \<Rightarrow> bool" where
  "revokes v b = (if filled (rv_run_id v) then Some (ab_run_id b) = rv_run_id v
     else if filled (rv_enrollment_id v) then ab_enrollment_id b = rv_enrollment_id v
     else if filled (rv_workload_binding_id v) then ab_workload_binding_id b = rv_workload_binding_id v
     else Some (ab_principal_id b) = rv_principal_id v)"

definition agent_expire :: "revocation \<Rightarrow> int \<Rightarrow> unit ptx" where
  "agent_expire v now = tx_seq
     (tx_guard (filled (rv_run_id v) \<or> filled (rv_enrollment_id v) \<or> filled (rv_workload_binding_id v)
        \<or> filled (rv_principal_id v)) (AgentBindingError ''validation-error'' 400))
     (write_bindings (rows_set (\<lambda>b. ab_state b = B_active \<and> revokes v b) (end_binding B_expired now)))"

text \<open>Epochs of agents kept through an interrupted restore.\<close>

definition epoch_of :: "(string \<times> int) list \<Rightarrow> string \<Rightarrow> int" where
  "epoch_of es i = (case map_of es i of None \<Rightarrow> 0 | Some e \<Rightarrow> e)"

definition keep_epoch :: "string \<times> int \<Rightarrow> (string \<times> int) list \<Rightarrow> (string \<times> int) list" where
  "keep_epoch p es = (if fst p \<in> fst ` set es
     then map (\<lambda>q. if fst q = fst p then (fst q, max (epoch_of es (fst p)) (snd p)) else q) es
     else es @ [(fst p, max 0 (snd p))])"

definition preserveRestoreEpochs :: "unit ptx" where
  "preserveRestoreEpochs = tx_write (set_talk (\<lambda>k. case tk_transfer k of None \<Rightarrow> k | Some t \<Rightarrow>
     if tr_applying t \<noteq> 0 then k
     else k\<lparr>tk_transfer := Some (t\<lparr>tr_agent_epochs := fold keep_epoch (tr_agent_epochs t)
       (map (\<lambda>a. (ag_id a, ag_binding_epoch a)) (tk_agents k))\<rparr>)\<rparr>))"

definition set_applying :: "int \<Rightarrow> unit ptx" where
  "set_applying n = tx_write (set_talk (\<lambda>k. k\<lparr>tk_transfer := map_option (\<lambda>t. t\<lparr>tr_applying := n\<rparr>) (tk_transfer k)\<rparr>))"

definition invalidateRestoredConversations :: "string \<Rightarrow> int \<Rightarrow> unit ptx" where
  "invalidateRestoredConversations generation now = tx_write (set_talk (\<lambda>k. k\<lparr>
     tk_outbox := map (\<lambda>r. (clear_lease r)\<lparr>ob_quiet := False, ob_next_attempt_at := now, ob_updated_at := now\<rparr>)
       (tk_outbox k),
     tk_context := [], tk_generation := Some generation\<rparr>))"

definition refreshRestoredRevisions :: "unit ptx" where
  "refreshRestoredRevisions =
     tx_seq (tx_bind (tx_read (\<lambda>s. map ag_id (agents s))) (\<lambda>is. tx_for is (\<lambda>i.
       tx_bind nextRevision (\<lambda>r. set_agent i (\<lambda>a. a\<lparr>ag_revision := r\<rparr>)))))
    (tx_seq (tx_bind (tx_read (\<lambda>s. map ro_id (tk_rooms (db_talk s)))) (\<lambda>is. tx_for is (\<lambda>i.
       tx_bind nextRevision (\<lambda>r. tx_write (set_talk (\<lambda>k. k\<lparr>tk_rooms :=
         rows_set (\<lambda>x. ro_id x = i) (\<lambda>x. x\<lparr>ro_revision := r\<rparr>) (tk_rooms k)\<rparr>))))))
    (tx_bind (tx_read (\<lambda>s. map gr_id (tk_signal_groups (db_talk s)))) (\<lambda>is. tx_for is (\<lambda>i.
       tx_bind nextRevision (\<lambda>r. tx_write (set_talk (\<lambda>k. k\<lparr>tk_signal_groups :=
         rows_set (\<lambda>x. gr_id x = i) (\<lambda>x. x\<lparr>gr_revision := r\<rparr>) (tk_signal_groups k)\<rparr>)))))))"

definition invalidateRestoredBindings :: "string \<Rightarrow> int \<Rightarrow> unit ptx" where
  "invalidateRestoredBindings generation now =
     tx_bind (tx_read (\<lambda>s. tk_transfer (db_talk s))) (\<lambda>state.
     tx_seq (tx_when (state \<noteq> None) (set_applying 1))
    (tx_seq (tx_bind (tx_read agents) (\<lambda>rows. tx_for rows (\<lambda>v. set_agent (ag_id v) (\<lambda>a. a\<lparr>
        ag_binding_epoch := max (ag_binding_epoch v)
          (epoch_of (case state of None \<Rightarrow> [] | Some t \<Rightarrow> tr_agent_epochs t) (ag_id v)) + 1,
        ag_updated_at := now\<rparr>))))
    (tx_seq (write_bindings (map (end_binding B_expired now)))
    (tx_seq (invalidateRestoredConversations generation now)
    (tx_seq refreshRestoredRevisions
    (case state of None \<Rightarrow> tx_return () | Some t \<Rightarrow> set_applying (tr_applying t)))))))"

section \<open>What the operations leave alone\<close>

lemma set_talk_simps [simp]:
  "db_talk (set_talk f s) = f (db_talk s)" "db_work_questions (set_talk f s) = db_work_questions s"
  "db_work_attempts (set_talk f s) = db_work_attempts s" "db_journal (set_talk f s) = db_journal s"
  by (simp_all add: set_talk_def)

lemma talk_journal [tx_wp]: "tx_inv (\<lambda>s. P (db_talk s)) (appendJournal h kind res orig fence data)"
  by (rule tx_inv_appendJournal) simp

lemma talk_saveQuestion [tx_wp]: "tx_inv (\<lambda>s. P (db_talk s)) (saveQuestion q)"
  unfolding saveQuestion_def by (rule tx_inv_write) simp

lemma talk_invalidate [tx_wp]: "tx_inv (\<lambda>s. P (db_talk s)) (invalidateQuestions h i why orig now)"
  unfolding invalidateQuestions_def Let_def event_def by (intro tx_wp)

lemma talk_invalidate_agent [tx_wp]: "tx_inv (\<lambda>s. P (db_talk s)) (invalidateAgentQuestions h i orig now why)"
  unfolding invalidateAgentQuestions_def by (intro tx_wp)

lemma talk_agent_journal [tx_wp]: "tx_inv (\<lambda>s. P (db_talk s)) (agent_journal h kind i au data)"
  unfolding agent_journal_def by (intro tx_wp)

text \<open>The agents and bindings of a state, and the operations that do not change them.\<close>

definition mailboxes :: "db \<Rightarrow> agent_row list \<times> agent_binding list" where
  "mailboxes s = (agents s, bindings s)"

lemma mailboxes_frame:
  assumes "\<And>P. tx_inv (\<lambda>s. P (db_talk s)) m"
  shows "tx_inv (\<lambda>s. P (mailboxes s)) m"
  using assms [of "\<lambda>k. P (tk_agents k, tk_bindings k)"] by (simp add: mailboxes_def)

lemma mailboxes_journal [tx_wp]: "tx_inv (\<lambda>s. P (mailboxes s)) (appendJournal h kind res orig fence data)"
  by (rule mailboxes_frame) (rule talk_journal)

lemma mailboxes_agent_journal [tx_wp]: "tx_inv (\<lambda>s. P (mailboxes s)) (agent_journal h kind i au data)"
  by (rule mailboxes_frame) (rule talk_agent_journal)

lemma mailboxes_invalidate [tx_wp]:
  "tx_inv (\<lambda>s. P (mailboxes s)) (invalidateAgentQuestions h i orig now why)"
  by (rule mailboxes_frame) (rule talk_invalidate_agent)

lemma mailboxes_nextRevision [tx_wp]: "tx_inv (\<lambda>s. P (mailboxes s)) nextRevision"
  unfolding nextRevision_def by (intro tx_wp tx_inv_write) (simp add: mailboxes_def)

lemma mailboxes_check [tx_wp]: "tx_inv P (checkConfigRevision resource now_at expected)"
  unfolding checkConfigRevision_def by (intro tx_wp)

lemma mailboxes_write_outbox [tx_wp]: "tx_inv (\<lambda>s. P (mailboxes s)) (write_outbox f)"
  unfolding write_outbox_def by (intro tx_inv_write) (simp add: mailboxes_def)

lemma mailboxes_rearm [tx_wp]: "tx_inv (\<lambda>s. P (mailboxes s)) (rearm i now publication)"
  unfolding rearm_def by (intro tx_wp)

lemma mailboxes_quiet_outbox [tx_wp]: "tx_inv (\<lambda>s. P (mailboxes s)) (quiet_outbox i now)"
  unfolding quiet_outbox_def set_outbox_def by (intro tx_wp)

lemma read_agent_get [tx_wp]: "tx_inv P (agent_get i)"
  unfolding agent_get_def by (intro tx_wp)

lemma read_managed [tx_wp]: "tx_inv P (managed i)"
  unfolding managed_def by (intro tx_wp)

lemma read_authorizeRun [tx_wp]: "tx_inv P (authorizeRun i who)"
  unfolding authorizeRun_def by (intro tx_wp)

lemma read_requireManage [tx_wp]: "tx_inv P (requireManage au)"
  unfolding requireManage_def by (intro tx_wp)

lemma agent_get_ok: "agent_get i s = Inr (a, s') \<longleftrightarrow>
    by_key ag_id i (agents s) = Some a \<and> \<not> ag_archived a \<and> s' = s"
  by (auto simp: agent_get_def tx_eval split: option.splits if_splits)

lemma managed_ok: "managed i s = Inr (a, s') \<longleftrightarrow> by_key ag_id i (agents s) = Some a \<and> s' = s"
  by (auto simp: managed_def tx_eval split: option.splits)

lemma authorizeRun_ok: "authorizeRun i who s = Inr (u, s') \<longleftrightarrow> s' = s \<and>
    (\<exists>a. by_key ag_id i (agents s) = Some a \<and> \<not> ag_archived a \<and> may_bind a who)"
  by (auto simp: authorizeRun_def tx_run agent_get_ok)

lemma checkConfigRevision_ok: "checkConfigRevision resource cur expected s = Inr (u, s') \<longleftrightarrow>
    s' = s \<and> (case cur of None \<Rightarrow> expected = 0 | Some r \<Rightarrow> r = expected)"
  by (auto simp: checkConfigRevision_def)

lemma write_mailboxes [simp]:
  "mailboxes (set_talk (\<lambda>k. k\<lparr>tk_agents := f (tk_agents k)\<rparr>) s) = (f (agents s), bindings s)"
  "mailboxes (set_talk (\<lambda>k. k\<lparr>tk_bindings := g (tk_bindings k)\<rparr>) s) = (agents s, g (bindings s))"
  by (simp_all add: mailboxes_def)

lemma insert_binding_ok: "insert_binding b s = Inr (u, s') \<longleftrightarrow>
    s' = set_talk (\<lambda>k. k\<lparr>tk_bindings := tk_bindings k @ [b]\<rparr>) s
    \<and> (\<forall>r \<in> set (bindings s). ab_consumer_binding_id r \<noteq> ab_consumer_binding_id b
      \<and> (ab_agent_id r = ab_agent_id b \<longrightarrow> ab_run_id r \<noteq> ab_run_id b)
      \<and> \<not> (ab_agent_id r = ab_agent_id b \<and> ab_state r = B_active \<and> ab_state b = B_active))"
  by (auto simp: insert_binding_def write_bindings_def tx_run list_ex_iff)

end
