(* ===== verification/Mailbox.thy ===== *)
theory Mailbox
  imports Agents
begin

text \<open>
  Who holds an agent: the abstract machine behind \<open>Agents\<close>. It keeps the agents and their bindings
  only; every operation of \<open>Agents\<close> is a sequence of its steps.
\<close>

section \<open>The machine\<close>

type_synonym mailboxes = "agent_row list \<times> agent_binding list"

definition held :: "agent_binding list \<Rightarrow> string \<Rightarrow> bool" where
  "held bs i \<longleftrightarrow> list_ex (\<lambda>b. ab_agent_id b = i \<and> ab_state b = B_active) bs"

inductive mailbox_step :: "mailboxes \<Rightarrow> mailboxes \<Rightarrow> bool" where
  Configure: "(\<And>a. ag_id (f a) = ag_id a \<and> ag_binding_epoch (f a) = ag_binding_epoch a
      \<and> (ag_archived (f a) \<longrightarrow> ag_archived a))
    \<Longrightarrow> mailbox_step (as, bs) (rows_set P f as, bs)"
| Register: "ag_id a \<notin> ag_id ` set as \<Longrightarrow> mailbox_step (as, bs) (as @ [a], bs)"
| End: "st \<noteq> B_active \<Longrightarrow> mailbox_step (as, bs) (as, rows_set P (end_binding st now) bs)"
| Renew: "(\<And>b. ab_consumer_binding_id (f b) = ab_consumer_binding_id b \<and> ab_agent_id (f b) = ab_agent_id b
      \<and> ab_run_id (f b) = ab_run_id b \<and> ab_binding_epoch (f b) = ab_binding_epoch b
      \<and> ab_state (f b) = ab_state b)
    \<Longrightarrow> mailbox_step (as, bs) (as, rows_set P f bs)"
| Close: "by_key ag_id i as = Some a \<Longrightarrow> \<not> held bs i
    \<Longrightarrow> (\<And>x. ag_id (f x) = ag_id x \<and> ag_binding_epoch (f x) = ag_binding_epoch a + 1)
    \<Longrightarrow> mailbox_step (as, bs) (rows_set (\<lambda>x. ag_id x = i) f as, bs)"
| Attach: "by_key ag_id i as = Some a \<Longrightarrow> \<not> ag_archived a \<Longrightarrow> \<not> held bs i
    \<Longrightarrow> ab_consumer_binding_id b \<notin> ab_consumer_binding_id ` set bs
    \<Longrightarrow> (i, ab_run_id b) \<notin> (\<lambda>b. (ab_agent_id b, ab_run_id b)) ` set bs
    \<Longrightarrow> ab_agent_id b = i \<Longrightarrow> ab_binding_epoch b = ag_binding_epoch a + 1
    \<Longrightarrow> mailbox_step (as, bs) (rows_set (\<lambda>x. ag_id x = i)
          (\<lambda>x. x\<lparr>ag_binding_epoch := ag_binding_epoch a + 1, ag_updated_at := now\<rparr>) as, bs @ [b])"
| Restore: "(\<And>a. a \<in> set as \<Longrightarrow> ag_id (f a) = ag_id a \<and> ag_binding_epoch a < ag_binding_epoch (f a))
    \<Longrightarrow> mailbox_step (as, bs) (map f as, map (end_binding B_expired now) bs)"

section \<open>The invariant\<close>

definition binding_ok :: "agent_row list \<Rightarrow> agent_binding \<Rightarrow> bool" where
  "binding_ok as b \<longleftrightarrow> (case by_key ag_id (ab_agent_id b) as of None \<Rightarrow> False
     | Some a \<Rightarrow> ab_binding_epoch b \<le> ag_binding_epoch a
         \<and> (ab_state b = B_active \<longrightarrow> ab_binding_epoch b = ag_binding_epoch a \<and> \<not> ag_archived a))"

definition mailbox_inv :: "mailboxes \<Rightarrow> bool" where
  "mailbox_inv m \<longleftrightarrow> distinct (map ag_id (fst m)) \<and> distinct (map ab_consumer_binding_id (snd m))
     \<and> distinct (map (\<lambda>b. (ab_agent_id b, ab_run_id b)) (snd m))
     \<and> distinct (map (\<lambda>b. (ab_agent_id b, ab_binding_epoch b)) (snd m))
     \<and> list_all (binding_ok (fst m)) (snd m)"

lemma mailbox_invI:
  "distinct (map ag_id as) \<Longrightarrow> distinct (map ab_consumer_binding_id bs) \<Longrightarrow>
   distinct (map (\<lambda>b. (ab_agent_id b, ab_run_id b)) bs) \<Longrightarrow>
   distinct (map (\<lambda>b. (ab_agent_id b, ab_binding_epoch b)) bs) \<Longrightarrow>
   (\<And>b. b \<in> set bs \<Longrightarrow> binding_ok as b) \<Longrightarrow> mailbox_inv (as, bs)"
  by (simp add: mailbox_inv_def list_all_iff)

lemma mailbox_invD:
  assumes "mailbox_inv (as, bs)"
  shows "distinct (map ag_id as)" "distinct (map ab_consumer_binding_id bs)"
    "distinct (map (\<lambda>b. (ab_agent_id b, ab_run_id b)) bs)"
    "distinct (map (\<lambda>b. (ab_agent_id b, ab_binding_epoch b)) bs)"
    "b \<in> set bs \<Longrightarrow> binding_ok as b"
  using assms by (auto simp: mailbox_inv_def list_all_iff)

lemma binding_ok_append: "binding_ok as b \<Longrightarrow> binding_ok (as @ xs) b"
  by (auto simp: binding_ok_def by_key_append split: option.splits)

lemma end_binding_core [simp]:
  "ab_consumer_binding_id (end_binding st now b) = ab_consumer_binding_id b"
  "ab_agent_id (end_binding st now b) = ab_agent_id b" "ab_run_id (end_binding st now b) = ab_run_id b"
  "ab_binding_epoch (end_binding st now b) = ab_binding_epoch b" "ab_state (end_binding st now b) = st"
  by (simp_all add: end_binding_def)

text \<open>A change of binding rows that keeps their identity and revives none.\<close>

lemma bindings_changed:
  assumes inv: "mailbox_inv (as, bs)"
    and f: "\<And>b. ab_consumer_binding_id (f b) = ab_consumer_binding_id b \<and> ab_agent_id (f b) = ab_agent_id b
      \<and> ab_run_id (f b) = ab_run_id b \<and> ab_binding_epoch (f b) = ab_binding_epoch b
      \<and> (ab_state (f b) = B_active \<longrightarrow> ab_state b = B_active)"
  shows "mailbox_inv (as, map f bs)"
proof (rule mailbox_invI)
  fix b assume "b \<in> set (map f bs)"
  then obtain c where c: "c \<in> set bs" "b = f c" by auto
  from mailbox_invD(5) [OF inv c(1)] f [of c] show "binding_ok as b"
    by (auto simp: binding_ok_def c(2) split: option.splits)
qed (use mailbox_invD [OF inv] f in \<open>simp_all add: comp_def\<close>)

lemma rows_set_map: "rows_set P f t = map (\<lambda>r. if P r then f r else r) t"
  by (simp add: rows_set_def)

lemma agents_changed:
  assumes inv: "mailbox_inv (as, bs)"
    and f: "\<And>a. a \<in> set as \<Longrightarrow> ag_id (f a) = ag_id a"
    and ok: "\<And>a b. a \<in> set as \<Longrightarrow> b \<in> set bs \<Longrightarrow> ab_agent_id b = ag_id a \<Longrightarrow> binding_ok as b
      \<Longrightarrow> by_key ag_id (ag_id a) as = Some a
      \<Longrightarrow> ab_binding_epoch b \<le> ag_binding_epoch (f a)
        \<and> (ab_state b = B_active \<longrightarrow> ab_binding_epoch b = ag_binding_epoch (f a) \<and> \<not> ag_archived (f a))"
  shows "mailbox_inv (map f as, bs)"
proof (rule mailbox_invI)
  have ids: "map ag_id (map f as) = map ag_id as" using f by simp
  show d: "distinct (map ag_id (map f as))" unfolding ids by (rule mailbox_invD [OF inv])
  fix b assume b: "b \<in> set bs"
  obtain a where a: "by_key ag_id (ab_agent_id b) as = Some a"
    using mailbox_invD(5) [OF inv b] by (auto simp: binding_ok_def split: option.splits)
  note row = by_key_Some [OF a]
  with f have "f a \<in> set (map f as)" "ag_id (f a) = ab_agent_id b" by auto
  with by_key_unique [OF d] have "by_key ag_id (ab_agent_id b) (map f as) = Some (f a)" by metis
  with ok [of a b] row b a mailbox_invD(5) [OF inv b] show "binding_ok (map f as) b"
    by (simp add: binding_ok_def)
qed (rule mailbox_invD [OF inv])+

lemma not_held: "\<not> held bs i \<Longrightarrow> b \<in> set bs \<Longrightarrow> ab_agent_id b = i \<Longrightarrow> ab_state b \<noteq> B_active"
  by (auto simp: held_def list_ex_iff)

lemma epoch_raised:
  assumes inv: "mailbox_inv (as, bs)" and row: "by_key ag_id i as = Some a" and free: "\<not> held bs i"
    and f: "\<And>x. ag_id (f x) = ag_id x \<and> ag_binding_epoch (f x) = ag_binding_epoch a + 1"
  shows "mailbox_inv (rows_set (\<lambda>x. ag_id x = i) f as, bs)"
  unfolding rows_set_map
proof (rule agents_changed [OF inv])
  fix x b
  assume x: "b \<in> set bs" "ab_agent_id b = ag_id x" "binding_ok as b" "by_key ag_id (ag_id x) as = Some x"
  show "ab_binding_epoch b \<le> ag_binding_epoch (if ag_id x = i then f x else x)
    \<and> (ab_state b = B_active \<longrightarrow> ab_binding_epoch b = ag_binding_epoch (if ag_id x = i then f x else x)
      \<and> \<not> ag_archived (if ag_id x = i then f x else x))"
  proof (cases "ag_id x = i")
    case True
    with x(4) row have "x = a" by simp
    with True x f [of x] not_held [OF free x(1)] show ?thesis by (simp add: binding_ok_def)
  next
    case False
    with x show ?thesis by (simp add: binding_ok_def)
  qed
qed (simp add: f)

theorem mailbox_step_inv:
  assumes "mailbox_step m n" and "mailbox_inv m"
  shows "mailbox_inv n"
  using assms
proof (cases rule: mailbox_step.cases)
  case (Configure f as bs P)
  show ?thesis
    unfolding Configure rows_set_map
    using Configure assms(2)
    by (intro agents_changed) (auto simp: binding_ok_def)
next
  case (Register a as bs)
  note inv = mailbox_invD [OF assms(2) [unfolded Register]]
  show ?thesis unfolding Register
    by (rule mailbox_invI) (use inv Register(3) in \<open>auto intro: binding_ok_append\<close>)
next
  case (End st as bs P now)
  show ?thesis
    unfolding End rows_set_map using End assms(2) by (intro bindings_changed) auto
next
  case (Renew f as bs P)
  show ?thesis
    unfolding Renew(2) rows_set_map by (rule bindings_changed [OF assms(2) [unfolded Renew(1)]]) (simp add: Renew(3))
next
  case (Close i as a bs f)
  show ?thesis
    unfolding Close(2) by (rule epoch_raised [OF assms(2) [unfolded Close(1)] Close(3,4)]) (rule Close(5))
next
  case (Attach i as a bs b now)
  let ?f = "\<lambda>x. x\<lparr>ag_binding_epoch := ag_binding_epoch a + 1, ag_updated_at := now\<rparr>"
  have inv: "mailbox_inv (rows_set (\<lambda>x. ag_id x = i) ?f as, bs)"
    by (rule epoch_raised [OF assms(2) [unfolded Attach(1)] Attach(3,5)]) simp
  have row: "by_key ag_id i (rows_set (\<lambda>x. ag_id x = i) ?f as) = Some (?f a)"
    using by_key_Some [OF Attach(3)] Attach(3) by (simp add: by_key_set)
  have "(i, ab_binding_epoch b) \<notin> (\<lambda>b. (ab_agent_id b, ab_binding_epoch b)) ` set bs"
  proof
    assume "(i, ab_binding_epoch b) \<in> (\<lambda>b. (ab_agent_id b, ab_binding_epoch b)) ` set bs"
    then obtain c where c: "c \<in> set bs" "ab_agent_id c = i" "ab_binding_epoch c = ab_binding_epoch b" by auto
    have "binding_ok as c" by (rule mailbox_invD [OF assms(2) [unfolded Attach(1)]]) (rule c(1))
    then have "ab_binding_epoch c \<le> ag_binding_epoch a" by (simp add: binding_ok_def c(2) Attach(3))
    then show False by (simp add: c(3) Attach(9))
  qed
  note fresh = this
  show ?thesis
    unfolding Attach(2)
  proof (rule mailbox_invI)
    fix c assume "c \<in> set (bs @ [b])"
    then show "binding_ok (rows_set (\<lambda>x. ag_id x = i) ?f as) c"
      using mailbox_invD(5) [OF inv, of c] row Attach(4,8,9) by (auto simp: binding_ok_def)
  qed (use mailbox_invD [OF inv] Attach(6-8) fresh in \<open>auto\<close>)
next
  case (Restore as f bs now)
  have ended: "mailbox_inv (as, map (end_binding B_expired now) bs)"
    by (rule bindings_changed [OF assms(2) [unfolded Restore(1)]]) simp
  show ?thesis
    unfolding Restore(2)
    by (rule agents_changed [OF ended])
      (use Restore(3) in \<open>auto simp: binding_ok_def dest!: less_imp_le intro: order_trans\<close>)
qed

section \<open>What a step keeps\<close>

lemma by_key_map: "(\<And>r. k (f r) = k r) \<Longrightarrow> by_key k x (map f t) = map_option f (by_key k x t)"
  by (induction t) (simp_all add: by_key_Cons)

text \<open>The identity of a binding, with whether it still holds its agent.\<close>

definition holder_of :: "mailboxes \<Rightarrow> string \<Rightarrow> (string \<times> string \<times> int \<times> bool) option" where
  "holder_of m k = map_option
     (\<lambda>b. (ab_agent_id b, ab_run_id b, ab_binding_epoch b, ab_state b = B_active))
     (by_key ab_consumer_binding_id k (snd m))"

lemma ended_stays:
  assumes "mailbox_step m n" and "holder_of m k = Some (i, r, e, False)"
  shows "holder_of n k = Some (i, r, e, False)"
proof -
  obtain b where b: "by_key ab_consumer_binding_id k (snd m) = Some b"
    and hb: "ab_agent_id b = i" "ab_run_id b = r" "ab_binding_epoch b = e" "ab_state b \<noteq> B_active"
    using assms(2) by (auto simp: holder_of_def)
  from assms(1) b hb show ?thesis
    by cases (auto simp: holder_of_def rows_set_map by_key_map by_key_append)
qed

interpretation mailbox: settled_records mailbox_step mailbox_inv holder_of "\<lambda>(_, _, _, live). \<not> live"
  by unfold_locales (auto intro: mailbox_step_inv ended_stays)

lemma epoch_grows:
  assumes "mailbox_step m n" and "mailbox_inv m" and "by_key ag_id i (fst m) = Some a"
  shows "\<exists>a'. by_key ag_id i (fst n) = Some a' \<and> ag_binding_epoch a \<le> ag_binding_epoch a'"
  using assms(1)
proof cases
  case (Configure f as bs P)
  with assms(3) show ?thesis by (auto simp: rows_set_map by_key_map)
next
  case (Close j as c bs f)
  have "a = c" if "i = j" using that assms(3) Close(1,3) by simp
  moreover have "ag_id a = i" using by_key_Some [OF assms(3)] by simp
  ultimately show ?thesis using assms(3) Close by (auto simp: rows_set_map by_key_map)
next
  case (Attach j as c bs b now)
  have "a = c" if "i = j" using that assms(3) Attach(1,3) by simp
  moreover have "ag_id a = i" using by_key_Some [OF assms(3)] by simp
  ultimately show ?thesis using assms(3) Attach(1-3) by (auto simp: rows_set_map by_key_map)
next
  case (Restore as f bs now)
  have mem: "a \<in> set as" "ag_id a = i" using by_key_Some [OF assms(3)] Restore(1) by auto
  have "map ag_id (map f as) = map ag_id as" using Restore(3) by simp
  then have "distinct (map ag_id (map f as))" using mailbox_invD(1) assms(2) Restore(1) by metis
  from by_key_unique [OF this, of "f a"] mem Restore(3) [of a] show ?thesis by (auto simp: Restore(2))
qed (use assms(3) in \<open>auto simp: by_key_append rows_set_map by_key_map\<close>)

section \<open>The operations are steps of the machine\<close>

abbreviation moved :: "mailboxes \<Rightarrow> db \<Rightarrow> bool" where
  "moved v s \<equiv> mailbox_step\<^sup>*\<^sup>* v (mailboxes s)"

definition moves :: "db \<Rightarrow> db \<Rightarrow> bool" where
  "moves s s' \<longleftrightarrow> mailbox_step\<^sup>*\<^sup>* (mailboxes s) (mailboxes s')"

lemma movesI: "(\<And>v. tx_inv (moved v) m) \<Longrightarrow> m s = Inr (a, s') \<Longrightarrow> moves s s'"
  unfolding moves_def tx_valid_def by blast

lemma moved_step: "mailbox_step (mailboxes s) (mailboxes t) \<Longrightarrow> moved v s \<Longrightarrow> moved v t"
  by (rule rtranclp.rtrancl_into_rtrancl)

lemma moved_set_agent:
  assumes "\<And>a. ag_id (f a) = ag_id a \<and> ag_binding_epoch (f a) = ag_binding_epoch a
    \<and> (ag_archived (f a) \<longrightarrow> ag_archived a)"
  shows "tx_inv (moved v) (set_agent i f)"
  unfolding set_agent_def write_agents_def
  by (rule tx_inv_write, erule moved_step [rotated]) (simp add: mailboxes_def Configure assms)

lemma moved_end: "st \<noteq> B_active \<Longrightarrow> tx_inv (moved v) (write_bindings (rows_set P (end_binding st now)))"
  unfolding write_bindings_def
  by (rule tx_inv_write, erule moved_step [rotated]) (simp add: mailboxes_def End)

lemma moved_set_end: "st \<noteq> B_active \<Longrightarrow> tx_inv (moved v) (set_binding i (end_binding st now))"
  unfolding set_binding_def by (rule moved_end)

lemma moved_renew:
  assumes "\<And>b. ab_consumer_binding_id (f b) = ab_consumer_binding_id b \<and> ab_agent_id (f b) = ab_agent_id b
      \<and> ab_run_id (f b) = ab_run_id b \<and> ab_binding_epoch (f b) = ab_binding_epoch b \<and> ab_state (f b) = ab_state b"
  shows "tx_inv (moved v) (set_binding i f)"
  unfolding set_binding_def write_bindings_def
  by (rule tx_inv_write, erule moved_step [rotated]) (simp add: mailboxes_def Renew assms)

lemma moved_insert_agent: "tx_inv (moved v) (insert_agent a)"
  unfolding insert_agent_def write_agents_def tx_valid_def
  by (auto simp: tx_run mailboxes_def intro: Register elim!: rtranclp.rtrancl_into_rtrancl)

lemma moved_do_once: "tx_inv (moved v) m \<Longrightarrow> tx_inv (moved v) (do_once h idem m)"
  by (erule tx_inv_do_once) (simp add: mailboxes_def)

lemma do_once_runs:
  assumes "do_once h idem m s = Inr (a, s')"
  obtains "s' = s" | b t u where "m s = Inr (b, t)" "s' = t\<lparr>db_do_idempotency := u\<rparr>"
proof (cases idem)
  case None
  with assms have "m s = Inr (a, s')" by simp
  then show ?thesis by (intro that(2) [of a s' "db_do_idempotency s'"]) simp_all
next
  case (Some i)
  show ?thesis
  proof (cases "di_lookup s (ido_key i)")
    case (Some row)
    with \<open>idem = Some i\<close> assms have "s' = s"
      by (auto simp: do_once_def withDoIdempotency_def tx_run split: if_splits)
    then show ?thesis by (rule that)
  next
    case None
    with \<open>idem = Some i\<close> assms obtain b t where m: "m s = Inr (b, t)"
      and t: "s' = t \<or> s' = di_insert h (ido_key i) (ido_request_hash i) (ido_encode i b) t"
      by (auto simp: do_once_def withDoIdempotency_def tx_run split: if_splits)
    from t obtain u where "s' = t\<lparr>db_do_idempotency := u\<rparr>"
    proof
      assume "s' = t" then show ?thesis by (intro that [of "db_do_idempotency t"]) simp
    next
      assume "s' = di_insert h (ido_key i) (ido_request_hash i) (ido_encode i b) t"
      then show ?thesis
        by (cases "rows_insert di_key \<lparr>di_key = ido_key i, di_request_hash = ido_request_hash i,
            di_status_code = 200, di_response_json = ido_encode i b, di_created_at = date_now h\<rparr>
            (db_do_idempotency t)")
          (auto simp: di_insert_def intro: that [of "db_do_idempotency t"] that)
    qed
    with m show ?thesis by (rule that)
  qed
qed

lemma register_moves: "agent_register h input au now s = Inr (a, s') \<Longrightarrow> moves s s'"
  by (erule movesI [rotated], unfold agent_register_def)
    (intro tx_wp moved_insert_agent)

lemma update_moves: "agent_update h i input au idem now s = Inr (a, s') \<Longrightarrow> moves s s'"
  by (erule movesI [rotated], unfold agent_update_def)
    (intro tx_wp moved_do_once moved_set_agent, simp add: apply_agent_change_def)

lemma unarchive_moves: "agent_unarchive h i rv au idem now s = Inr (a, s') \<Longrightarrow> moves s s'"
  by (erule movesI [rotated], unfold agent_unarchive_def)
    (intro tx_wp moved_do_once moved_set_agent, simp)

lemma release_moves: "agent_release i epoch au now s = Inr (a, s') \<Longrightarrow> moves s s'"
  by (erule movesI [rotated], unfold agent_release_def) (intro tx_wp moved_set_end, simp)

lemma expire_moves: "agent_expire v now s = Inr (a, s') \<Longrightarrow> moves s s'"
  by (erule movesI [rotated], unfold agent_expire_def) (intro tx_wp moved_end, simp)

text \<open>Ending the active binding frees the agent.\<close>

lemma current_free: "current_binding s i = None \<Longrightarrow> \<not> held (bindings s) i"
  by (auto simp: current_binding_def row_find_None held_def list_ex_iff)

lemma current_Some: "current_binding s i = Some b \<Longrightarrow>
    b \<in> set (bindings s) \<and> ab_agent_id b = i \<and> ab_state b = B_active"
  by (auto simp: current_binding_def dest: row_find_Some)

lemma distinct_map_eq: "distinct (map f xs) \<Longrightarrow> x \<in> set xs \<Longrightarrow> y \<in> set xs \<Longrightarrow> f x = f y \<Longrightarrow> x = y"
  by (auto simp: distinct_map inj_on_def)

lemma one_holder:
  assumes inv: "mailbox_inv (as, bs)" and "b \<in> set bs" "c \<in> set bs" "ab_agent_id b = ab_agent_id c"
    "ab_state b = B_active" "ab_state c = B_active"
  shows "b = c"
proof -
  from mailbox_invD(5) [OF inv, of b] mailbox_invD(5) [OF inv, of c] assms(2-)
  have "ab_binding_epoch b = ab_binding_epoch c" by (auto simp: binding_ok_def split: option.splits)
  with assms show ?thesis by (intro distinct_map_eq [OF mailbox_invD(4) [OF inv]]) auto
qed

lemma ended_free:
  assumes inv: "mailbox_inv (as, bs)" and b: "b \<in> set bs" "ab_agent_id b = i" "ab_state b = B_active"
    and st: "st \<noteq> B_active"
  shows "\<not> held (rows_set (\<lambda>c. ab_consumer_binding_id c = ab_consumer_binding_id b) (end_binding st now) bs) i"
proof
  assume "held (rows_set (\<lambda>c. ab_consumer_binding_id c = ab_consumer_binding_id b) (end_binding st now) bs) i"
  then obtain c where "c \<in> set bs" "ab_agent_id c = i" "ab_state c = B_active"
    "ab_consumer_binding_id c \<noteq> ab_consumer_binding_id b"
    using st by (auto simp: held_def list_ex_iff set_rows_set split: if_splits)
  with one_holder [OF inv b(1), of c] b show False by simp
qed

text \<open>Ending the current binding, whatever it is.\<close>

definition end_current :: "binding_state \<Rightarrow> int \<Rightarrow> string \<Rightarrow> db \<Rightarrow> agent_binding list" where
  "end_current st now i s = (case current_binding s i of None \<Rightarrow> bindings s
     | Some b \<Rightarrow> rows_set (\<lambda>c. ab_consumer_binding_id c = ab_consumer_binding_id b) (end_binding st now) (bindings s))"

lemma end_current_step:
  assumes "mailbox_inv (mailboxes s)" "st \<noteq> B_active"
  shows "mailbox_step\<^sup>*\<^sup>* (mailboxes s) (agents s, end_current st now i s)"
    and "\<not> held (end_current st now i s) i"
    and "mailbox_inv (agents s, end_current st now i s)"
proof -
  show step: "mailbox_step\<^sup>*\<^sup>* (mailboxes s) (agents s, end_current st now i s)"
    using assms(2) by (auto simp: end_current_def mailboxes_def intro!: End r_into_rtranclp split: option.split)
  show "\<not> held (end_current st now i s) i"
    using ended_free [OF assms(1) [unfolded mailboxes_def]] assms(2)
    by (auto simp: end_current_def dest: current_free current_Some split: option.splits)
  show "mailbox_inv (agents s, end_current st now i s)"
    by (rule mailbox.inv_steps [OF step assms(1)])
qed

lemma end_current_identity:
  assumes "\<And>b. f (end_binding st now b) = f b"
  shows "map f (end_current st now i s) = map f (bindings s)"
  using assms by (simp add: end_current_def map_rows_set split: option.split)

lemma mailboxes_frameD:
  assumes "\<And>P. tx_inv (\<lambda>s. P (mailboxes s)) m" and "m s = Inr (a, s')"
  shows "mailboxes s' = mailboxes s"
  using tx_validD [OF assms(1) [of "\<lambda>x. x = mailboxes s"] refl assms(2)] .

lemma set_agent_mailboxes: "set_agent i f s = Inr (u, s') \<Longrightarrow>
    mailboxes s' = (rows_set (\<lambda>a. ag_id a = i) f (agents s), bindings s)"
  by (simp add: set_agent_def write_agents_def mailboxes_def)

lemma set_binding_mailboxes: "set_binding i f s = Inr (u, s') \<Longrightarrow>
    mailboxes s' = (agents s, rows_set (\<lambda>b. ab_consumer_binding_id b = i) f (bindings s))"
  by (simp add: set_binding_def write_bindings_def mailboxes_def)

lemma raise_epoch_simps:
  "mailboxes s = (as, bs) \<longleftrightarrow> agents s = as \<and> bindings s = bs"
  by (auto simp: mailboxes_def)

definition attached_rows :: "agent_row \<Rightarrow> int \<Rightarrow> agent_row list \<Rightarrow> agent_row list" where
  "attached_rows a now as = rows_set (\<lambda>x. ag_id x = ag_id a)
     (\<lambda>x. x\<lparr>ag_binding_epoch := ag_binding_epoch a + 1, ag_updated_at := now\<rparr>) as"

lemma replace_effect:
  assumes run: "replace_binding h a request r au now s = Inr (b, s')"
  shows "b = new_binding h a request r now"
    and "mailboxes s' = (attached_rows a now (agents s), end_current B_replaced now (ag_id a) s @ [b])"
    and "case current_binding s (ag_id a) of None \<Rightarrow> True | Some p \<Rightarrow> may_replace a p r au"
    and "ab_consumer_binding_id b \<notin> ab_consumer_binding_id ` set (bindings s)"
proof -
  define prev where "prev = current_binding s (ag_id a)"
  from run obtain u s1 s2 s3 s4 where
    1: "(case prev of None \<Rightarrow> tx_return () | Some p \<Rightarrow> tx_seq (tx_guard (may_replace a p r au) agent_denied)
           (set_binding (ab_consumer_binding_id p) (end_binding B_replaced now))) s = Inr (u, s1)"
    and 2: "invalidateAgentQuestions h (ag_id a) (runtime_origin au r) now ''requesting agent binding replaced'' s1
           = Inr ((), s2)"
    and 3: "set_agent (ag_id a) (\<lambda>x. x\<lparr>ag_binding_epoch := ag_binding_epoch a + 1, ag_updated_at := now\<rparr>) s2
           = Inr ((), s3)"
    and 4: "insert_binding (new_binding h a request r now) s3 = Inr ((), s4)"
    and 5: "rearm (ag_id a) now False s4 = Inr ((), s')"
    and b: "b = new_binding h a request r now"
    by (auto simp: replace_binding_def tx_run prev_def)
  from 1 have m1: "mailboxes s1 = (agents s, end_current B_replaced now (ag_id a) s)"
    by (cases prev) (auto simp: end_current_def prev_def tx_run mailboxes_def dest!: set_binding_mailboxes)
  have m2: "mailboxes s2 = mailboxes s1" by (rule mailboxes_frameD [OF mailboxes_invalidate 2])
  from set_agent_mailboxes [OF 3] m1 m2
  have m3: "mailboxes s3 = (attached_rows a now (agents s), end_current B_replaced now (ag_id a) s)"
    by (simp add: attached_rows_def mailboxes_def)
  have m5: "mailboxes s' = mailboxes s4" by (rule mailboxes_frameD [OF mailboxes_rearm 5])
  show "b = new_binding h a request r now" by (rule b)
  from 4 m3 m5 b
  show "mailboxes s' = (attached_rows a now (agents s), end_current B_replaced now (ag_id a) s @ [b])"
    by (auto simp: insert_binding_ok mailboxes_def)
  from 1 show "case current_binding s (ag_id a) of None \<Rightarrow> True | Some p \<Rightarrow> may_replace a p r au"
    by (auto simp: prev_def [symmetric] tx_run split: option.split)
  have ids: "ab_consumer_binding_id ` set (end_current B_replaced now (ag_id a) s)
      = ab_consumer_binding_id ` set (bindings s)"
    using arg_cong [OF end_current_identity [of ab_consumer_binding_id B_replaced now "ag_id a" s], of set] by simp
  from 4 m3 have "\<forall>x \<in> set (end_current B_replaced now (ag_id a) s). ab_consumer_binding_id x \<noteq> random_uuid h"
    by (auto simp: insert_binding_ok mailboxes_def new_binding_def)
  then show "ab_consumer_binding_id b \<notin> ab_consumer_binding_id ` set (bindings s)"
    unfolding ids [symmetric] b by (auto simp: new_binding_def)
qed

lemma replace_moves:
  assumes inv: "mailbox_inv (mailboxes s)" and row: "by_key ag_id (ag_id a) (agents s) = Some a"
    and live: "\<not> ag_archived a"
    and fresh: "\<And>b. b \<in> set (bindings s) \<Longrightarrow> ab_agent_id b = ag_id a \<Longrightarrow> ab_run_id b \<noteq> rt_run_id r"
    and run: "replace_binding h a request r au now s = Inr (b, s')"
  shows "moves s s'"
proof -
  note effect = replace_effect [OF run]
  note ended = end_current_step [OF inv, of B_replaced now "ag_id a", simplified]
  have same: "f ` set (end_current B_replaced now (ag_id a) s) = f ` set (bindings s)"
    if "\<And>b. f (end_binding B_replaced now b) = f b" for f :: "agent_binding \<Rightarrow> 'x"
    using arg_cong [OF end_current_identity [of f, OF that], of set] by simp
  have "mailbox_step (agents s, end_current B_replaced now (ag_id a) s) (mailboxes s')"
    unfolding effect(2) attached_rows_def
  proof (rule Attach [OF row live ended(2)])
    show "ab_consumer_binding_id b \<notin> ab_consumer_binding_id ` set (end_current B_replaced now (ag_id a) s)"
      using effect(4) by (simp add: same)
    have "(ag_id a, rt_run_id r) \<notin> (\<lambda>b. (ab_agent_id b, ab_run_id b)) ` set (bindings s)"
    proof
      assume "(ag_id a, rt_run_id r) \<in> (\<lambda>b. (ab_agent_id b, ab_run_id b)) ` set (bindings s)"
      then obtain c where "c \<in> set (bindings s)" "ab_agent_id c = ag_id a" "ab_run_id c = rt_run_id r" by auto
      with fresh [of c] show False by simp
    qed
    then show "(ag_id a, ab_run_id b) \<notin> (\<lambda>b. (ab_agent_id b, ab_run_id b)) `
        set (end_current B_replaced now (ag_id a) s)"
      by (simp add: same effect(1) new_binding_def)
  qed (simp_all add: effect(1) new_binding_def)
  with ended(1) show ?thesis unfolding moves_def by (rule rtranclp.rtrancl_into_rtrancl)
qed

lemma attach_cases:
  assumes "agent_attach h i input au now s = Inr (b, s')"
  obtains r a where "actingRun i input au now = Inr r" "session_matches (ai_details input) r"
    "by_key ag_id i (agents s) = Some a" "\<not> ag_archived a" "may_bind a (rt_principal_id r)"
    "row_find (\<lambda>b. ab_agent_id b = i \<and> ab_run_id b = rt_run_id r) (bindings s) = None"
    "ai_expected_epoch input = ag_binding_epoch a"
    "selection_matches (ag_profile_selection a) (ai_details input) r"
    "replace_binding h a (canonical_attachment (ai_details input)) r au now s = Inr (b, s')"
  | r a p where "actingRun i input au now = Inr r" "session_matches (ai_details input) r"
    "by_key ag_id i (agents s) = Some a" "\<not> ag_archived a" "may_bind a (rt_principal_id r)"
    "row_find (\<lambda>b. ab_agent_id b = i \<and> ab_run_id b = rt_run_id r) (bindings s) = Some p"
    "renew_binding a p (canonical_attachment (ai_details input)) r now s = Inr (b, s')"
proof -
  from assms obtain r a where r: "actingRun i input au now = Inr r" "session_matches (ai_details input) r"
      "by_key ag_id i (agents s) = Some a" "\<not> ag_archived a" "may_bind a (rt_principal_id r)"
    and rest: "(case row_find (\<lambda>b. ab_agent_id b = i \<and> ab_run_id b = rt_run_id r) (bindings s) of
        Some b \<Rightarrow> renew_binding a b (canonical_attachment (ai_details input)) r now
      | None \<Rightarrow>
          tx_seq (tx_guard (ai_expected_epoch input = ag_binding_epoch a) stale_binding)
         (tx_seq (tx_guard (selection_matches (ag_profile_selection a) (ai_details input) r) profile_mismatch)
         (replace_binding h a (canonical_attachment (ai_details input)) r au now))) s = Inr (b, s')"
    by (auto simp: agent_attach_def tx_run agent_get_ok authorizeRun_ok Let_def)
  show ?thesis
  proof (cases "row_find (\<lambda>b. ab_agent_id b = i \<and> ab_run_id b = rt_run_id r) (bindings s)")
    case None
    with r rest show ?thesis by (intro that(1)) (auto simp: tx_run)
  next
    case (Some p)
    with r rest show ?thesis by (intro that(2)) auto
  qed
qed

lemma attach_moves:
  assumes inv: "mailbox_inv (mailboxes s)" and run: "agent_attach h i input au now s = Inr (b, s')"
  shows "moves s s'"
  using run
proof (cases rule: attach_cases)
  case (1 r a)
  then have "ag_id a = i" by (auto dest: by_key_Some)
  with 1 show ?thesis
    by (intro replace_moves [OF inv _ _ _ 1(9)]) (auto simp: row_find_None)
next
  case (2 r a p)
  then have "(\<exists>u. set_binding (ab_consumer_binding_id p) (\<lambda>b. b\<lparr>ab_lease_expires_at := rt_lease_expires_at r,
      ab_updated_at := now\<rparr>) s = Inr (u, s'))"
    by (auto simp: renew_binding_def tx_run)
  then show ?thesis by (auto elim!: movesI [OF moved_renew, rotated])
qed

lemma moves_refl [simp]: "moves s s"
  by (simp add: moves_def)

lemma moves_idempotency [simp]: "moves s (t\<lparr>db_do_idempotency := u\<rparr>) \<longleftrightarrow> moves s t"
  by (simp add: moves_def mailboxes_def)

lemma archive_moves:
  assumes inv: "mailbox_inv (mailboxes s)" and run: "agent_archive h i rv ev au idem now s = Inr (x, s')"
  shows "moves s s'"
proof -
  define body where "body = tx_bind (managed i) (\<lambda>a.
        tx_seq (checkConfigRevision (''agent:'' @ i) (Some (ag_revision a)) rv)
       (if ag_archived a then tx_read (\<lambda>s. \<lparr>ax_agent = a, ax_released = None,
            ax_pending_deliveries = pendingDeliveries s i now\<rparr>)
        else tx_bind (tx_read (\<lambda>s. current_binding s i)) (\<lambda>active.
          tx_seq (case active of None \<Rightarrow> tx_return ()
            | Some b \<Rightarrow> tx_seq (tx_guard (ev = Some (ab_binding_epoch b)) stale_binding)
                (set_binding (ab_consumer_binding_id b) (end_binding B_released now)))
         (tx_seq (invalidateAgentQuestions h i (agent_origin au (au_principal_id au)) now
            ''requesting agent archived'')
         (tx_seq (quiet_outbox i now)
         (tx_bind nextRevision (\<lambda>r.
          tx_seq (set_agent i (\<lambda>x. x\<lparr>ag_archived := True, ag_revision := r,
            ag_binding_epoch := ag_binding_epoch a + 1, ag_updated_at := now\<rparr>))
         (tx_seq (agent_journal h ''agent.archived'' i au [(''revision'', JNum r),
            (''released_binding_epoch'', case active of None \<Rightarrow> JNull | Some b \<Rightarrow> JNum (ab_binding_epoch b))])
         (tx_bind (managed i) (\<lambda>a'. tx_read (\<lambda>s. \<lparr>ax_agent = a',
            ax_released = map_option (\<lambda>b. (ab_consumer_binding_id b, ab_binding_epoch b)) active,
            ax_pending_deliveries = pendingDeliveries s i now\<rparr>)))))))))))"
  have body: "moves s t" if "body s = Inr (y, t)" for y t
  proof (cases "\<exists>a. by_key ag_id i (agents s) = Some a \<and> ag_archived a")
    case True
    with that have "t = s" by (auto simp: body_def tx_run managed_ok checkConfigRevision_ok)
    then show ?thesis by simp
  next
    case False
    with that obtain a u s1 s2 s3 s4 s5 s6 r where row: "by_key ag_id i (agents s) = Some a"
      and 1: "(case current_binding s i of None \<Rightarrow> tx_return ()
            | Some b \<Rightarrow> tx_seq (tx_guard (ev = Some (ab_binding_epoch b)) stale_binding)
                (set_binding (ab_consumer_binding_id b) (end_binding B_released now))) s = Inr (u, s1)"
      and 2: "invalidateAgentQuestions h i (agent_origin au (au_principal_id au)) now
            ''requesting agent archived'' s1 = Inr ((), s2)"
      and 3: "quiet_outbox i now s2 = Inr ((), s3)" and 4: "nextRevision s3 = Inr (r, s4)"
      and 5: "set_agent i (\<lambda>x. x\<lparr>ag_archived := True, ag_revision := r,
            ag_binding_epoch := ag_binding_epoch a + 1, ag_updated_at := now\<rparr>) s4 = Inr ((), s5)"
      and 6: "agent_journal h ''agent.archived'' i au [(''revision'', JNum r),
            (''released_binding_epoch'', case current_binding s i of None \<Rightarrow> JNull
              | Some b \<Rightarrow> JNum (ab_binding_epoch b))] s5 = Inr ((), s6)" and 7: "t = s6"
      by (auto simp: body_def tx_run managed_ok checkConfigRevision_ok split: if_splits)
    from 1 have m1: "mailboxes s1 = (agents s, end_current B_released now i s)"
      by (cases "current_binding s i")
        (auto simp: end_current_def tx_run mailboxes_def dest!: set_binding_mailboxes)
    have "mailboxes s4 = mailboxes s1"
      using mailboxes_frameD [OF mailboxes_invalidate 2] mailboxes_frameD [OF mailboxes_quiet_outbox 3]
        mailboxes_frameD [OF mailboxes_nextRevision 4] by simp
    with m1 set_agent_mailboxes [OF 5] mailboxes_frameD [OF mailboxes_agent_journal 6] 7
    have m: "mailboxes t = (rows_set (\<lambda>x. ag_id x = i) (\<lambda>x. x\<lparr>ag_archived := True, ag_revision := r,
        ag_binding_epoch := ag_binding_epoch a + 1, ag_updated_at := now\<rparr>) (agents s),
        end_current B_released now i s)"
      by (simp add: mailboxes_def)
    note ended = end_current_step [OF inv, of B_released now i, simplified]
    have "mailbox_step (agents s, end_current B_released now i s) (mailboxes t)"
      unfolding m by (rule Close [OF row ended(2)]) simp
    with ended(1) show ?thesis unfolding moves_def by (rule rtranclp.rtrancl_into_rtrancl)
  qed
  from run have "do_once h idem body s = Inr (x, s')"
    by (simp add: agent_archive_def body_def requireManage_def tx_run)
  then show ?thesis by (cases rule: do_once_runs) (auto dest: body)
qed

lemma set_agents_run:
  assumes "distinct (map ag_id (pre @ as))" and "agents s = pre @ as"
    and F: "\<And>v a. ag_id (F v a) = ag_id a"
    and run: "tx_for as (\<lambda>v. set_agent (ag_id v) (F v)) s = Inr (u, s')"
  shows "mailboxes s' = (pre @ map (\<lambda>a. F a a) as, bindings s)"
  using assms
proof (induction as arbitrary: pre s)
  case Nil
  then show ?case by (simp add: mailboxes_def)
next
  case (Cons a as)
  from Cons.prems(4) obtain s1 where 1: "set_agent (ag_id a) (F a) s = Inr ((), s1)"
    and 2: "tx_for as (\<lambda>v. set_agent (ag_id v) (F v)) s1 = Inr (u, s')"
    by (auto simp: tx_run)
  have keep: "rows_set (\<lambda>x. ag_id x = ag_id a) (F a) t = t" if "ag_id a \<notin> ag_id ` set t" for t
    unfolding rows_set_map by (rule map_idI) (use that in \<open>auto simp: image_iff\<close>)
  have "rows_set (\<lambda>x. ag_id x = ag_id a) (F a) (pre @ a # as) = (pre @ [F a a]) @ as"
    using Cons.prems(1) keep [of pre] keep [of as] by (auto simp: rows_set_map)
  then have m1: "agents s1 = (pre @ [F a a]) @ as" "bindings s1 = bindings s"
    using set_agent_mailboxes [OF 1] Cons.prems(2) by (simp_all add: mailboxes_def)
  have "mailboxes s' = ((pre @ [F a a]) @ map (\<lambda>a. F a a) as, bindings s1)"
    by (rule Cons.IH [OF _ m1(1) F 2]) (use Cons.prems(1) F in auto)
  with m1 show ?case by simp
qed

lemma mailboxes_set_applying [tx_wp]: "tx_inv (\<lambda>s. P (mailboxes s)) (set_applying n)"
  unfolding set_applying_def by (rule tx_inv_write) (simp add: mailboxes_def)

lemma mailboxes_restored_talk [tx_wp]:
  "tx_inv (\<lambda>s. P (mailboxes s)) (invalidateRestoredConversations g now)"
  unfolding invalidateRestoredConversations_def by (rule tx_inv_write) (simp add: mailboxes_def)

lemma moved_refresh: "tx_inv (moved v) refreshRestoredRevisions"
  unfolding refreshRestoredRevisions_def
  by (intro tx_wp moved_set_agent tx_inv_write) (simp_all add: mailboxes_def)

lemma preserve_moves: "preserveRestoreEpochs s = Inr (u, s') \<Longrightarrow> moves s s'"
  by (auto simp: preserveRestoreEpochs_def moves_def mailboxes_def split: option.split)

lemma restore_moves:
  assumes inv: "mailbox_inv (mailboxes s)" and run: "invalidateRestoredBindings g now s = Inr (u, s')"
  shows "moves s s'"
proof -
  let ?es = "case tk_transfer (db_talk s) of None \<Rightarrow> [] | Some t \<Rightarrow> tr_agent_epochs t"
  let ?F = "\<lambda>v a. a\<lparr>ag_binding_epoch := max (ag_binding_epoch v) (epoch_of ?es (ag_id v)) + 1, ag_updated_at := now\<rparr>"
  from run obtain s1 s2 s3 s4 s5 where
    1: "tx_when (tk_transfer (db_talk s) \<noteq> None) (set_applying 1) s = Inr ((), s1)"
    and 2: "tx_for (agents s1) (\<lambda>v. set_agent (ag_id v) (?F v)) s1 = Inr ((), s2)"
    and 3: "write_bindings (map (end_binding B_expired now)) s2 = Inr ((), s3)"
    and 4: "invalidateRestoredConversations g now s3 = Inr ((), s4)"
    and 5: "refreshRestoredRevisions s4 = Inr ((), s5)"
    and 6: "(case tk_transfer (db_talk s) of None \<Rightarrow> tx_return () | Some t \<Rightarrow> set_applying (tr_applying t)) s5
      = Inr (u, s')"
    by (auto simp: invalidateRestoredBindings_def tx_bind_ok tx_seq_ok)
  have m1: "mailboxes s1 = mailboxes s"
    by (rule mailboxes_frameD [OF tx_inv_when [OF mailboxes_set_applying] 1])
  have "mailboxes s2 = ([] @ map (\<lambda>a. ?F a a) (agents s1), bindings s1)"
    by (rule set_agents_run [OF _ _ _ 2])
      (use mailbox_invD(1) inv m1 in \<open>auto simp: mailboxes_def\<close>)
  with m1 3 have m3: "mailboxes s3 = (map (\<lambda>a. ?F a a) (agents s), map (end_binding B_expired now) (bindings s))"
    by (auto simp: write_bindings_def mailboxes_def)
  have m4: "mailboxes s4 = mailboxes s3" by (rule mailboxes_frameD [OF mailboxes_restored_talk 4])
  have "mailbox_step (agents s, bindings s) (mailboxes s3)"
    unfolding m3 by (rule Restore) (auto simp: max_def)
  then have "mailbox_step (mailboxes s) (mailboxes s4)" by (simp add: m4 mailboxes_def [of s])
  moreover have "moves s4 s5" by (rule movesI [OF moved_refresh 5])
  moreover have "mailboxes s' = mailboxes s5"
    using 6 by (cases "tk_transfer (db_talk s)") (auto dest: mailboxes_frameD [OF mailboxes_set_applying])
  ultimately show ?thesis unfolding moves_def by (metis converse_rtranclp_into_rtranclp)
qed

end
