(* ===== verification/Conversations.thy ===== *)
theory Conversations
  imports Mailbox
begin

text \<open>
  Rooms and messages: the first half of \<^verbatim>\<open>packages/ops-sqlite/src/conversation-ops.ts\<close>, up to
  \<open>publish\<close>. Rooms gate reading and writing by membership, a publication is numbered within its
  room, deduplicated by author and operation id, and leaves one delivery per addressed mailbox.
\<close>

section \<open>Who speaks\<close>

record conversation_authority =
  ca_principal_id :: string
  ca_participant_id :: string
  ca_can_manage :: bool
  ca_runtime :: "runtime_identity option"

definition conversation_denied :: error where
  "conversation_denied = ConversationError ''permission-denied'' 403"

definition conversation_stale :: error where
  "conversation_stale = ConversationError ''stale-binding'' 409"

definition conversation_conflict :: error where
  "conversation_conflict = ConversationError ''conflict'' 409"

definition conversation_missing :: error where
  "conversation_missing = ConversationError ''not-found'' 404"

text \<open>A relay carries wakes; it never sees a body.\<close>

definition bodyAccess :: "conversation_authority \<Rightarrow> unit ptx" where
  "bodyAccess a = tx_guard (map_option rt_run_role (ca_runtime a) \<noteq> Some Relay) conversation_denied"

text \<open>The binding an operation acts through: the agent's active one, held by the caller's own acting
  run, or, for dispatch, by a run of the relay's enrollment.\<close>

definition activeBinding :: "string \<Rightarrow> conversation_authority \<Rightarrow> int \<Rightarrow> bool \<Rightarrow> agent_binding ptx" where
  "activeBinding agent a now relay = (case ca_runtime a of
      None \<Rightarrow> tx_throw (ConversationError ''runtime-required'' 403)
    | Some r \<Rightarrow>
        if rt_agent_id r \<noteq> Some agent \<or> \<not> lease_live (rt_lease_expires_at r) now
          then tx_throw (ConversationError ''runtime-required'' 403)
        else tx_seq (authorizeRun agent (rt_principal_id r))
          (tx_bind (tx_read (\<lambda>s. current_binding s agent)) (\<lambda>active. case active of
              None \<Rightarrow> tx_throw (ConversationError ''no-active-binding'' 409)
            | Some b \<Rightarrow> tx_bind (tx_read (\<lambda>s. map_option ag_binding_epoch (by_key ag_id agent (agents s)))) (\<lambda>epoch.
                tx_seq (tx_guard (epoch = Some (ab_binding_epoch b)) conversation_stale)
               (tx_seq
                 (if relay then tx_guard (rt_run_role r = Relay \<and> filled (rt_enrollment_id r)
                      \<and> rt_enrollment_id r = ab_enrollment_id b) conversation_denied
                  else tx_guard (rt_run_role r = Acting \<and> rt_run_id r = ab_run_id b) conversation_stale)
               (tx_return b))))))"

text \<open>The binding of a caller that has a run, nothing for a person.\<close>

definition caller_binding :: "conversation_authority \<Rightarrow> int \<Rightarrow> agent_binding option ptx" where
  "caller_binding a now = (case ca_runtime a of
      None \<Rightarrow> tx_return None
    | Some r \<Rightarrow> tx_bind (activeBinding (case rt_agent_id r of None \<Rightarrow> '''' | Some i \<Rightarrow> i) a now False)
        (\<lambda>b. tx_return (Some b)))"

definition memberKey :: "conversation_authority \<Rightarrow> string" where
  "memberKey a = (case ca_runtime a of
      None \<Rightarrow> ''principal:'' @ ca_principal_id a
    | Some r \<Rightarrow> if filled (rt_agent_id r) then ''agent:'' @ the (rt_agent_id r)
        else ''principal:'' @ ca_principal_id a)"

section \<open>Rooms\<close>

abbreviation rooms :: "db \<Rightarrow> room_row list" where
  "rooms s \<equiv> tk_rooms (db_talk s)"

abbreviation members :: "db \<Rightarrow> room_member list" where
  "members s \<equiv> tk_members (db_talk s)"

definition write_rooms :: "(room_row list \<Rightarrow> room_row list) \<Rightarrow> unit ptx" where
  "write_rooms f = tx_write (set_talk (\<lambda>k. k\<lparr>tk_rooms := f (tk_rooms k)\<rparr>))"

definition write_members :: "(room_member list \<Rightarrow> room_member list) \<Rightarrow> unit ptx" where
  "write_members f = tx_write (set_talk (\<lambda>k. k\<lparr>tk_members := f (tk_members k)\<rparr>))"

definition set_room :: "string \<Rightarrow> (room_row \<Rightarrow> room_row) \<Rightarrow> unit ptx" where
  "set_room i f = write_rooms (rows_set (\<lambda>r. ro_id r = i) f)"

definition is_member :: "string \<Rightarrow> string \<Rightarrow> room_member \<Rightarrow> bool" where
  "is_member i who m \<longleftrightarrow> rk_room_id m = i \<and> rk_member m = who"

definition roomAccess :: "string \<Rightarrow> conversation_authority \<Rightarrow> bool \<Rightarrow> room_row ptx" where
  "roomAccess i a writes = tx_seq (bodyAccess a)
     (tx_bind (tx_read (\<lambda>s. by_key ro_id i (rooms s))) (\<lambda>row. case row of
        None \<Rightarrow> tx_throw conversation_missing
      | Some r \<Rightarrow>
          tx_seq (tx_guard (\<not> (writes \<and> ro_archived r)) (ConversationError ''room-archived'' 409))
         (tx_seq (if writes \<or> (ro_history_policy r = H_members \<and> \<not> ca_can_manage a)
            then tx_bind (tx_read (\<lambda>s. list_ex (is_member i (memberKey a)) (members s)))
              (\<lambda>found. tx_guard found conversation_denied)
            else tx_return ())
         (tx_return r))))"

definition requireRoomManage :: "conversation_authority \<Rightarrow> unit ptx" where
  "requireRoomManage a = tx_seq (bodyAccess a) (tx_guard (ca_can_manage a) conversation_denied)"

definition conversation_origin :: "conversation_authority \<Rightarrow> request_origin" where
  "conversation_origin a = \<lparr>or_principalId = ca_principal_id a, or_participantId = ca_participant_id a,
     or_environment = [], or_actor = '''', or_tokenId = None, or_source = None, or_sourceVersion = None\<rparr>"

definition roomEvent :: "host \<Rightarrow> string \<Rightarrow> string \<Rightarrow> conversation_authority \<Rightarrow> jobj \<Rightarrow> unit ptx" where
  "roomEvent h kind i a data = appendJournal h kind (''room:'' @ i) (conversation_origin a) None data"

definition roomRow :: "string \<Rightarrow> room_row ptx" where
  "roomRow i = tx_bind (tx_read (\<lambda>s. by_key ro_id i (rooms s))) (\<lambda>row. case row of
      None \<Rightarrow> tx_throw conversation_missing | Some r \<Rightarrow> tx_return r)"

record create_room =
  cr_id :: string
  cr_name :: string
  cr_history_policy :: history_policy
  cr_delivery_ttl_seconds :: int
  cr_budgets :: room_budgets

definition room_settings :: "room_row \<Rightarrow> create_room" where
  "room_settings r = \<lparr>cr_id = ro_id r, cr_name = ro_name r, cr_history_policy = ro_history_policy r,
     cr_delivery_ttl_seconds = ro_delivery_ttl_seconds r, cr_budgets = ro_budgets r\<rparr>"

definition insert_room :: "room_row \<Rightarrow> unit ptx" where
  "insert_room r = tx_bind (tx_read rooms) (\<lambda>rows. tx_seq
     (tx_guard (ro_id r \<notin> ro_id ` set rows) (SqliteError ''rooms'')) (write_rooms (\<lambda>rows. rows @ [r])))"

definition insert_member :: "room_member \<Rightarrow> unit ptx" where
  "insert_member m = tx_bind (tx_read members) (\<lambda>rows. tx_seq
     (tx_guard (\<not> list_ex (is_member (rk_room_id m) (rk_member m)) rows) (SqliteError ''room_members''))
     (write_members (\<lambda>rows. rows @ [m])))"

definition createRoom :: "host \<Rightarrow> create_room \<Rightarrow> conversation_authority \<Rightarrow> int \<Rightarrow> room_row ptx" where
  "createRoom h input a now = tx_seq (requireRoomManage a)
     (tx_bind (tx_read (\<lambda>s. by_key ro_id (cr_id input) (rooms s))) (\<lambda>prior. case prior of
        Some r \<Rightarrow>
          if ro_archived r then tx_throw (ConversationError ''room-archived'' 409)
          else if room_settings r \<noteq> input then tx_throw conversation_conflict
          else tx_return r
      | None \<Rightarrow> tx_bind nextRevision (\<lambda>v.
          tx_seq (insert_room \<lparr>ro_id = cr_id input, ro_name = cr_name input,
            ro_history_policy = cr_history_policy input,
            ro_delivery_ttl_seconds = cr_delivery_ttl_seconds input, ro_budgets = cr_budgets input,
            ro_archived = False, ro_revision = v, ro_next_seq = 0, ro_created_at = now, ro_updated_at = now\<rparr>)
         (tx_seq (roomEvent h ''room.created'' (cr_id input) a [(''revision'', JNum v)])
         (tx_seq (insert_member \<lparr>rk_room_id = cr_id input, rk_member = memberKey a, rk_wake = False,
            rk_joined_at = now\<rparr>)
         (roomAccess (cr_id input) a False))))))"

definition listRooms :: "conversation_authority \<Rightarrow> bool \<Rightarrow> room_row list ptx" where
  "listRooms a includeArchived = tx_seq (bodyAccess a) (tx_read (\<lambda>s.
     filter (\<lambda>r. ca_can_manage a \<or> ro_history_policy r = H_project
         \<or> list_ex (is_member (ro_id r) (memberKey a)) (members s))
       (sort_key ro_id (filter (\<lambda>r. includeArchived \<or> \<not> ro_archived r) (rooms s)))))"

definition getRoom :: "string \<Rightarrow> conversation_authority \<Rightarrow> (room_row \<times> room_member list) ptx" where
  "getRoom i a = tx_bind (roomAccess i a False) (\<lambda>r. tx_read (\<lambda>s.
     (r, sort_key rk_member (filter (\<lambda>m. rk_room_id m = i) (members s)))))"

text \<open>A member string names an agent or a principal.\<close>

definition agent_member :: "string \<Rightarrow> string option" where
  "agent_member m = (if take 6 m = ''agent:'' then Some (drop 6 m) else None)"

definition member_admitted :: "string \<Rightarrow> unit ptx" where
  "member_admitted member = (case agent_member member of
      None \<Rightarrow> tx_return ()
    | Some i \<Rightarrow> tx_bind (tx_read (\<lambda>s. by_key ag_id i (agents s))) (\<lambda>row. case row of
          None \<Rightarrow> tx_throw conversation_missing
        | Some g \<Rightarrow> tx_guard (\<not> ag_archived g) (ConversationError ''agent-archived'' 409)))"

definition setMember ::
    "host \<Rightarrow> string \<Rightarrow> string \<Rightarrow> bool option \<Rightarrow> conversation_authority \<Rightarrow> int option \<Rightarrow>
      room_row do_idempotency option \<Rightarrow> int \<Rightarrow> room_row ptx" where
  "setMember h i member wake a expectedRevision idem now = tx_seq (requireRoomManage a)
     (do_once h idem
       (tx_bind (roomRow i) (\<lambda>room.
        tx_seq (case expectedRevision of None \<Rightarrow> tx_return ()
          | Some v \<Rightarrow> checkConfigRevision (''room:'' @ i) (Some (ro_revision room)) v)
       (tx_seq (tx_when (wake \<noteq> None) (member_admitted member))
       (tx_bind (tx_read (\<lambda>s. row_find (is_member i member) (members s))) (\<lambda>existing.
        if (case wake of None \<Rightarrow> existing = None | Some w \<Rightarrow> map_option rk_wake existing = Some w)
        then tx_return room
        else
          tx_seq (case wake of
              None \<Rightarrow> write_members (rows_delete (is_member i member))
            | Some w \<Rightarrow> write_members (rows_upsert (\<lambda>m. (rk_room_id m, rk_member m))
                \<lparr>rk_room_id = i, rk_member = member, rk_wake = w, rk_joined_at = now\<rparr>
                (\<lambda>m. m\<lparr>rk_wake := w\<rparr>)))
         (tx_bind nextRevision (\<lambda>v.
          tx_seq (set_room i (\<lambda>r. r\<lparr>ro_revision := v\<rparr>))
         (tx_seq (roomEvent h ''room.members_changed'' i a [(''revision'', JNum v),
            (''change'', JStr (if wake = None then ''removed'' else if existing \<noteq> None then ''updated''
              else ''added''))])
         (roomRow i))))))))))"

record update_room =
  ur_expected_revision :: int
  ur_name :: "string option"
  ur_history_policy :: "history_policy option"
  ur_delivery_ttl_seconds :: "int option"
  ur_budgets :: "room_budgets option"

definition changed_settings :: "update_room \<Rightarrow> room_row \<Rightarrow> string list" where
  "changed_settings input r =
     (if differs (ur_name input) (ro_name r) then [''name''] else [])
     @ (if differs (ur_history_policy input) (ro_history_policy r) then [''history_policy''] else [])
     @ (if differs (ur_delivery_ttl_seconds input) (ro_delivery_ttl_seconds r)
        then [''delivery_ttl_seconds''] else [])
     @ (if differs (ur_budgets input) (ro_budgets r) then [''budgets''] else [])"

definition apply_settings :: "update_room \<Rightarrow> room_row \<Rightarrow> room_row" where
  "apply_settings input r = r\<lparr>
     ro_name := (case ur_name input of None \<Rightarrow> ro_name r | Some v \<Rightarrow> v),
     ro_history_policy := (case ur_history_policy input of None \<Rightarrow> ro_history_policy r | Some v \<Rightarrow> v),
     ro_delivery_ttl_seconds := (case ur_delivery_ttl_seconds input of None \<Rightarrow> ro_delivery_ttl_seconds r
       | Some v \<Rightarrow> v),
     ro_budgets := (case ur_budgets input of None \<Rightarrow> ro_budgets r | Some v \<Rightarrow> v)\<rparr>"

definition updateRoom ::
    "host \<Rightarrow> string \<Rightarrow> update_room \<Rightarrow> conversation_authority \<Rightarrow> room_row do_idempotency option \<Rightarrow> int \<Rightarrow>
      room_row ptx" where
  "updateRoom h i input a idem now = tx_seq (requireRoomManage a)
     (do_once h idem
       (tx_bind (roomRow i) (\<lambda>room.
        tx_seq (checkConfigRevision (''room:'' @ i) (Some (ro_revision room)) (ur_expected_revision input))
       (if changed_settings input room = [] then tx_return room
        else tx_bind nextRevision (\<lambda>v.
          tx_seq (set_room i (\<lambda>r. (apply_settings input r)\<lparr>ro_revision := v, ro_updated_at := now\<rparr>))
         (tx_seq (roomEvent h ''room.updated'' i a [(''revision'', JNum v),
            (''changed'', JArr (map JStr (changed_settings input room)))])
         (roomRow i)))))))"

abbreviation messages :: "db \<Rightarrow> message_row list" where
  "messages s \<equiv> tk_messages (db_talk s)"

abbreviation deliveries :: "db \<Rightarrow> recipient_row list" where
  "deliveries s \<equiv> tk_recipients (db_talk s)"

definition mw_id :: "message_row \<Rightarrow> string" where
  "mw_id w = me_id (mw_message w)"

text \<open>The join of a delivery with its message.\<close>

definition message_of :: "db \<Rightarrow> recipient_row \<Rightarrow> message_row option" where
  "message_of s d = by_key mw_id (mr_message_id d) (messages s)"

definition pending_at :: "int \<Rightarrow> recipient_row \<Rightarrow> bool" where
  "pending_at now d \<longleftrightarrow> mr_state d = R_pending \<and> mr_expires_at d > now"

definition in_room :: "db \<Rightarrow> string \<Rightarrow> recipient_row \<Rightarrow> bool" where
  "in_room s i d = (case message_of s d of None \<Rightarrow> False | Some w \<Rightarrow> me_room_id (mw_message w) = i)"

definition roomPending :: "db \<Rightarrow> string \<Rightarrow> int \<Rightarrow> nat" where
  "roomPending s i now = length (filter (\<lambda>d. in_room s i d \<and> pending_at now d) (deliveries s))"

record room_preview =
  rp_room_id :: string
  rp_revision :: int
  rp_archived :: bool
  rp_members :: nat
  rp_pending_deliveries :: nat
  rp_messages :: nat

definition room_archive_preview :: "string \<Rightarrow> conversation_authority \<Rightarrow> int \<Rightarrow> room_preview ptx" where
  "room_archive_preview i a now = tx_seq (requireRoomManage a) (tx_bind (roomRow i) (\<lambda>room.
     tx_read (\<lambda>s. \<lparr>rp_room_id = i, rp_revision = ro_revision room, rp_archived = ro_archived room,
       rp_members = length (filter (\<lambda>m. rk_room_id m = i) (members s)),
       rp_pending_deliveries = roomPending s i now,
       rp_messages = length (filter (\<lambda>w. me_room_id (mw_message w) = i) (messages s))\<rparr>)))"

definition setArchived ::
    "host \<Rightarrow> string \<Rightarrow> bool \<Rightarrow> int \<Rightarrow> conversation_authority \<Rightarrow> room_row do_idempotency option \<Rightarrow> int \<Rightarrow>
      room_row ptx" where
  "setArchived h i archived expectedRevision a idem now = tx_seq (requireRoomManage a)
     (do_once h idem
       (tx_bind (roomRow i) (\<lambda>room.
        tx_seq (checkConfigRevision (''room:'' @ i) (Some (ro_revision room)) expectedRevision)
       (if ro_archived room = archived then tx_return room
        else tx_bind nextRevision (\<lambda>v.
          tx_seq (set_room i (\<lambda>r. r\<lparr>ro_archived := archived, ro_revision := v, ro_updated_at := now\<rparr>))
         (tx_bind (tx_read (\<lambda>s. roomPending s i now)) (\<lambda>n.
          tx_seq (roomEvent h (if archived then ''room.archived'' else ''room.unarchived'') i a
            ((''revision'', JNum v) # (if archived then [(''pending_deliveries'', JNum (int n))] else [])))
         (roomRow i))))))))"

section \<open>Threads and history\<close>

abbreviation threads :: "db \<Rightarrow> thread_row list" where
  "threads s \<equiv> tk_threads (db_talk s)"

definition insert_thread :: "thread_row \<Rightarrow> unit ptx" where
  "insert_thread t = tx_write (set_talk (\<lambda>k. k\<lparr>tk_threads := tk_threads k @ [t]\<rparr>))"

definition createThread ::
    "string \<Rightarrow> string \<Rightarrow> string \<Rightarrow> conversation_authority \<Rightarrow> int \<Rightarrow> thread_row ptx" where
  "createThread room i title a now = tx_bind (roomAccess room a True) (\<lambda>_.
     tx_bind (caller_binding a now) (\<lambda>_.
     tx_bind (tx_read (\<lambda>s. by_key th_id i (threads s))) (\<lambda>prior. case prior of
        Some t \<Rightarrow> if th_room_id t \<noteq> room \<or> th_title t \<noteq> title then tx_throw conversation_conflict
          else tx_return t
      | None \<Rightarrow> let t = \<lparr>th_id = i, th_room_id = room, th_title = title, th_created_at = now\<rparr> in
          tx_seq (insert_thread t) (tx_return t))))"

definition listThreads :: "string \<Rightarrow> conversation_authority \<Rightarrow> thread_row list ptx" where
  "listThreads room a = tx_bind (roomAccess room a False) (\<lambda>_. tx_read (\<lambda>s.
     sort_key (\<lambda>t. (th_created_at t, th_id t)) (filter (\<lambda>t. th_room_id t = room) (threads s))))"

definition cursorGeneration :: "string \<Rightarrow> string ptx" where
  "cursorGeneration fresh = tx_bind (tx_read (\<lambda>s. tk_generation (db_talk s))) (\<lambda>g. case g of
      Some generation \<Rightarrow> tx_return generation
    | None \<Rightarrow> tx_seq (tx_write (set_talk (\<lambda>k. k\<lparr>tk_generation := Some fresh\<rparr>))) (tx_return fresh))"

definition MAX_SAFE_INTEGER :: int where
  "MAX_SAFE_INTEGER = 9007199254740991"

definition history_rows :: "db \<Rightarrow> string \<Rightarrow> int \<Rightarrow> string option \<Rightarrow> bool \<Rightarrow> message_row list" where
  "history_rows s room after thread backward = (let
      wanted = filter (\<lambda>w. me_room_id (mw_message w) = room
        \<and> (if backward then me_seq (mw_message w) < (if after = 0 then MAX_SAFE_INTEGER else after)
           else me_seq (mw_message w) > after)
        \<and> (filled thread \<longrightarrow> me_thread_id (mw_message w) = thread)) (messages s);
      ordered = sort_key (\<lambda>w. me_seq (mw_message w)) wanted in
    if backward then rev ordered else ordered)"

definition history ::
    "string \<Rightarrow> conversation_authority \<Rightarrow> int \<Rightarrow> nat \<Rightarrow> string option \<Rightarrow> bool \<Rightarrow> (message list \<times> bool) ptx" where
  "history room a after limit thread backward = tx_bind (roomAccess room a False) (\<lambda>_. tx_read (\<lambda>s. let
      rows = take (min 100 (max 1 limit) + 1) (history_rows s room after thread backward);
      selected = take limit rows in
    (map mw_message (if backward then rev selected else selected), length rows > limit)))"

section \<open>Publication\<close>

datatype message_target = To_room | To_agent string | To_binding string string int

record publish_message =
  pm_client_op_id :: string
  pm_thread_id :: "string option"
  pm_body :: string
  pm_artifact_refs :: "string list"
  pm_targets :: "message_target list"
  pm_reply_expected :: bool
  pm_task_id :: "string option"
  pm_attempt_id :: "string option"
  pm_correlation_id :: "string option"

text \<open>\<open>hashRequest\<close>: the digest of the canonical JSON of the request and its room.\<close>

definition target_json :: "message_target \<Rightarrow> json" where
  "target_json t = (case t of
      To_room \<Rightarrow> JObj [(''kind'', JStr ''room'')]
    | To_agent i \<Rightarrow> JObj [(''kind'', JStr ''agent''), (''agent_id'', JStr i)]
    | To_binding i b e \<Rightarrow> JObj [(''kind'', JStr ''binding''), (''agent_id'', JStr i),
        (''consumer_binding_id'', JStr b), (''binding_epoch'', JNum e)])"

definition optional_field :: "string \<Rightarrow> string option \<Rightarrow> jobj" where
  "optional_field k v = (case v of None \<Rightarrow> [] | Some x \<Rightarrow> [(k, JStr x)])"

definition publish_json :: "string \<Rightarrow> publish_message \<Rightarrow> json" where
  "publish_json room p = JObj ([(''room_id'', JStr room), (''client_op_id'', JStr (pm_client_op_id p)),
     (''thread_id'', case pm_thread_id p of None \<Rightarrow> JNull | Some t \<Rightarrow> JStr t), (''body'', JStr (pm_body p)),
     (''artifact_refs'', JArr (map JStr (pm_artifact_refs p))),
     (''targets'', JArr (map target_json (pm_targets p))),
     (''reply_expected'', JBool (pm_reply_expected p))]
     @ optional_field ''task_id'' (pm_task_id p) @ optional_field ''attempt_id'' (pm_attempt_id p)
     @ optional_field ''correlation_id'' (pm_correlation_id p))"

definition hashRequest :: "(string \<Rightarrow> string) \<Rightarrow> string \<Rightarrow> publish_message \<Rightarrow> string" where
  "hashRequest sha256 room p = sha256 (canonicalJson (publish_json room p))"

text \<open>Retries are scoped to a logical author: the principal and the agent it speaks as.\<close>

definition author_key :: "conversation_authority \<Rightarrow> string" where
  "author_key a = canonicalJson (JArr [JStr (ca_principal_id a),
     case ca_runtime a of None \<Rightarrow> JNull
     | Some r \<Rightarrow> (case rt_agent_id r of None \<Rightarrow> JNull | Some i \<Rightarrow> JStr i)])"

text \<open>The unique indexes of \<open>messages\<close> and \<open>message_recipients\<close>.\<close>

definition insert_message :: "message_row \<Rightarrow> unit ptx" where
  "insert_message w = tx_bind (tx_read messages) (\<lambda>rows. tx_seq
     (tx_guard (\<not> list_ex (\<lambda>x. mw_ordinal x = mw_ordinal w \<or> mw_id x = mw_id w
         \<or> (me_room_id (mw_message x) = me_room_id (mw_message w) \<and> me_seq (mw_message x) = me_seq (mw_message w))
         \<or> (mw_author_key x = mw_author_key w
            \<and> me_client_op_id (mw_message x) = me_client_op_id (mw_message w))) rows) (SqliteError ''messages''))
     (tx_write (set_talk (\<lambda>k. k\<lparr>tk_messages := tk_messages k @ [w]\<rparr>))))"

definition same_target :: "string option \<Rightarrow> string option \<Rightarrow> bool" where
  "same_target x y \<longleftrightarrow> (case x of None \<Rightarrow> '''' | Some b \<Rightarrow> b) = (case y of None \<Rightarrow> '''' | Some b \<Rightarrow> b)"

definition write_deliveries :: "(recipient_row list \<Rightarrow> recipient_row list) \<Rightarrow> unit ptx" where
  "write_deliveries f = tx_write (set_talk (\<lambda>k. k\<lparr>tk_recipients := f (tk_recipients k)\<rparr>))"

definition insert_delivery :: "recipient_row \<Rightarrow> unit ptx" where
  "insert_delivery d = tx_bind (tx_read (\<lambda>s. (deliveries s, agents s))) (\<lambda>(rows, ags). tx_seq
     (tx_guard (mr_agent_id d \<in> ag_id ` set ags \<and> \<not> list_ex (\<lambda>x. mr_id x = mr_id d
         \<or> (mr_message_id x = mr_message_id d \<and> mr_agent_id x = mr_agent_id d
            \<and> same_target (mr_target_binding_id x) (mr_target_binding_id d))) rows)
       (SqliteError ''message_recipients''))
     (write_deliveries (\<lambda>rows. rows @ [d])))"

type_synonym addressee = "string \<times> string option \<times> int option"

text \<open>The mailboxes a target names: every woken agent of the room that is not archived, or the one
  it spells out.\<close>

definition target_adds :: "db \<Rightarrow> string \<Rightarrow> message_target \<Rightarrow> addressee list" where
  "target_adds s room t = (case t of
      To_room \<Rightarrow> map (\<lambda>m. (drop 6 (rk_member m), None, None))
        (filter (\<lambda>m. rk_room_id m = room \<and> rk_wake m \<and> take 6 (rk_member m) = ''agent:''
           \<and> \<not> list_ex (\<lambda>g. ag_archived g \<and> ag_id g = drop 6 (rk_member m)) (agents s)) (members s))
    | To_agent i \<Rightarrow> [(i, None, None)]
    | To_binding i b e \<Rightarrow> [(i, Some b, Some e)])"

definition put_addressee :: "addressee \<Rightarrow> addressee list \<Rightarrow> addressee list" where
  "put_addressee x xs = rows_upsert (\<lambda>(i, b, e). (i, b)) x (\<lambda>_. x) xs"

definition admit :: "db \<Rightarrow> string \<Rightarrow> addressee \<Rightarrow> error option" where
  "admit s room x = (case x of (i, b, e) \<Rightarrow>
     if \<not> list_ex (is_member room (''agent:'' @ i)) (members s) then Some conversation_denied
     else if list_ex (\<lambda>g. ag_archived g \<and> ag_id g = i) (agents s)
       then Some (ConversationError ''agent-archived'' 409)
     else if filled b \<and> (case current_binding s i of None \<Rightarrow> True
         | Some c \<Rightarrow> Some (ab_consumer_binding_id c) \<noteq> b \<or> Some (ab_binding_epoch c) \<noteq> e)
       then Some conversation_stale
     else None)"

fun add_all :: "db \<Rightarrow> string \<Rightarrow> addressee list \<Rightarrow> addressee list \<Rightarrow> error + addressee list" where
  "add_all s room [] acc = Inr acc"
| "add_all s room (x # xs) acc = (case admit s room x of
      Some e \<Rightarrow> Inl e
    | None \<Rightarrow> add_all s room xs (put_addressee x acc))"

definition addressees :: "db \<Rightarrow> string \<Rightarrow> message_target list \<Rightarrow> error + addressee list" where
  "addressees s room ts = add_all s room (concat (map (target_adds s room) ts)) []"

text \<open>Messages exchanged by two agents in the last ten minutes, in either direction.\<close>

definition exchanges :: "db \<Rightarrow> string \<Rightarrow> string \<Rightarrow> int \<Rightarrow> nat" where
  "exchanges s me you now = length (filter (\<lambda>d. case message_of s d of
      None \<Rightarrow> False
    | Some w \<Rightarrow> me_created_at (mw_message w) \<ge> now - 600000
        \<and> ((mw_author_agent w = Some me \<and> mr_agent_id d = you)
          \<or> (mw_author_agent w = Some you \<and> mr_agent_id d = me))) (deliveries s))"

definition suppress :: "db \<Rightarrow> room_row \<Rightarrow> agent_binding option \<Rightarrow> int \<Rightarrow> string \<Rightarrow> int \<Rightarrow> suppression option" where
  "suppress s room author hop i now =
     (if hop > rb_max_hops (ro_budgets room) then Some S_hop
      else case author of None \<Rightarrow> None
        | Some b \<Rightarrow> if int (exchanges s (ab_agent_id b) i now) \<ge> rb_pair_exchanges (ro_budgets room)
            then Some S_pair else None)"

definition new_delivery :: "string \<Rightarrow> int \<Rightarrow> string \<Rightarrow> room_row \<Rightarrow> int \<Rightarrow> addressee \<Rightarrow> suppression option \<Rightarrow>
    recipient_row" where
  "new_delivery i ordinal message room now x why = \<lparr>mr_ordinal = ordinal, mr_id = i, mr_message_id = message,
     mr_agent_id = fst x, mr_target_binding_id = fst (snd x), mr_target_epoch = snd (snd x),
     mr_state = R_pending, mr_fetched_at = None, mr_fetched_binding_id = None, mr_fetched_epoch = None,
     mr_acked_at = None, mr_acked_binding_id = None, mr_acked_epoch = None, mr_disposition = None,
     mr_wake_suppressed = why, mr_rewakes = 0, mr_created_at = now,
     mr_expires_at = now + ro_delivery_ttl_seconds room * 1000\<rparr>"

definition deliver_one ::
    "message_row \<Rightarrow> room_row \<Rightarrow> agent_binding option \<Rightarrow> int \<Rightarrow> string \<times> addressee \<Rightarrow> unit ptx" where
  "deliver_one w room author now x =
     tx_bind (tx_read (\<lambda>s. suppress s room author (me_hop (mw_message w)) (fst (snd x)) now)) (\<lambda>why.
     tx_seq (insert_delivery (new_delivery (fst x) (mw_ordinal w) (mw_id w) room now (snd x) why))
     (rearm (fst (snd x)) now True))"

text \<open>The chain of a message: that of the delivery the author has open, one hop further.\<close>

definition open_parent :: "db \<Rightarrow> agent_binding option \<Rightarrow> message option" where
  "open_parent s author = (case author of None \<Rightarrow> None | Some b \<Rightarrow>
     (case by_key cx_consumer_binding_id (ab_consumer_binding_id b) (tk_context (db_talk s)) of
        None \<Rightarrow> None
      | Some c \<Rightarrow> (case by_key mr_id (cx_delivery_id c) (deliveries s) of
            None \<Rightarrow> None
          | Some d \<Rightarrow> map_option mw_message (message_of s d))))"

definition next_ordinal :: "db \<Rightarrow> int" where
  "next_ordinal s = fold max (map mw_ordinal (messages s)) 0 + 1"

definition compose ::
    "string \<Rightarrow> string \<Rightarrow> int \<Rightarrow> publish_message \<Rightarrow> conversation_authority \<Rightarrow> agent_binding option \<Rightarrow>
      message option \<Rightarrow> int \<Rightarrow> message" where
  "compose i room sq p a author parent now = \<lparr>me_id = i, me_room_id = room, me_seq = sq,
     me_client_op_id = pm_client_op_id p, me_thread_id = pm_thread_id p, me_body = pm_body p,
     me_artifact_refs = pm_artifact_refs p, me_reply_expected = pm_reply_expected p,
     me_task_id = pm_task_id p, me_attempt_id = pm_attempt_id p, me_correlation_id = pm_correlation_id p,
     me_chain_id = (case parent of None \<Rightarrow> i | Some m \<Rightarrow> me_chain_id m),
     me_hop = (case parent of None \<Rightarrow> 0 | Some m \<Rightarrow> me_hop m + 1), me_created_at = now,
     me_provenance = \<lparr>mp_agent_id = map_option ab_agent_id author, mp_principal_id = ca_principal_id a,
       mp_participant_id = ca_participant_id a,
       mp_consumer_binding_id = map_option ab_consumer_binding_id author,
       mp_binding_epoch = map_option ab_binding_epoch author\<rparr>\<rparr>"

definition thread_in_room :: "string \<Rightarrow> string option \<Rightarrow> unit ptx" where
  "thread_in_room room thread = tx_when (filled thread)
     (tx_bind (tx_read (\<lambda>s. map_option th_room_id (by_key th_id (the thread) (threads s)))) (\<lambda>r.
      tx_guard (r = Some room) conversation_missing))"

definition artifact_present :: "string \<Rightarrow> unit ptx" where
  "artifact_present key = tx_bind (tx_read (\<lambda>s. list_ex (\<lambda>p. ap_r2_key p = key \<and> ap_tombstoned_at p = None)
      (db_artifact_pointers s))) (\<lambda>found. tx_guard found conversation_missing)"

text \<open>The room's next number: \<open>UPDATE ... SET next_seq = next_seq + 1 RETURNING next_seq\<close>.\<close>

definition take_seq :: "string \<Rightarrow> int \<Rightarrow> int ptx" where
  "take_seq room now = tx_seq (set_room room (\<lambda>r. r\<lparr>ro_next_seq := ro_next_seq r + 1, ro_updated_at := now\<rparr>))
     (tx_bind (tx_read (\<lambda>s. by_key ro_id room (rooms s))) (\<lambda>row. case row of
        None \<Rightarrow> tx_throw JsError | Some r \<Rightarrow> tx_return (ro_next_seq r)))"

text \<open>The new message with its deliveries. \<open>ids 0\<close> names the message, \<open>ids (Suc n)\<close> its n-th delivery.\<close>

definition publish_new ::
    "host \<Rightarrow> (nat \<Rightarrow> string) \<Rightarrow> string \<Rightarrow> string \<Rightarrow> publish_message \<Rightarrow> conversation_authority \<Rightarrow> int \<Rightarrow> message ptx" where
  "publish_new h ids hash roomId input a now =
     tx_bind (caller_binding a now) (\<lambda>author.
     tx_bind (roomAccess roomId a True) (\<lambda>room.
     tx_seq (thread_in_room roomId (pm_thread_id input))
    (tx_seq (tx_for (pm_artifact_refs input) artifact_present)
    (tx_bind (tx_read (\<lambda>s. open_parent s author)) (\<lambda>parent.
     tx_bind (take_seq roomId now) (\<lambda>sq.
     tx_bind (tx_read next_ordinal) (\<lambda>ordinal.
     let message = compose (ids 0) roomId sq input a author parent now;
         w = \<lparr>mw_ordinal = ordinal, mw_author_key = author_key a, mw_request_hash = hash, mw_message = message,
           mw_author_agent = map_option ab_agent_id author\<rparr> in
     tx_seq (insert_message w)
    (tx_bind (tx_bind (tx_read (\<lambda>s. addressees s roomId (pm_targets input))) tx_lift) (\<lambda>xs.
     tx_seq (tx_for (zip (map (ids \<circ> Suc) [0..<length xs]) xs) (deliver_one w room author now))
    (tx_seq (appendJournal h ''conversation.published'' (''room:'' @ roomId) (conversation_origin a) None
       [(''message_id'', JStr (ids 0)), (''room_id'', JStr roomId), (''seq'', JNum sq)])
    (tx_return message)))))))))))"

definition published_by :: "db \<Rightarrow> string \<Rightarrow> string \<Rightarrow> message_row option" where
  "published_by s author op = row_find (\<lambda>w. mw_author_key w = author
     \<and> me_client_op_id (mw_message w) = op) (messages s)"

definition publish ::
    "host \<Rightarrow> (nat \<Rightarrow> string) \<Rightarrow> (string \<Rightarrow> string) \<Rightarrow> string \<Rightarrow> publish_message \<Rightarrow> conversation_authority \<Rightarrow> int \<Rightarrow>
      (message \<times> bool) ptx" where
  "publish h ids sha256 roomId input a now = tx_seq (bodyAccess a) (let hash = hashRequest sha256 roomId input in
     tx_bind (tx_read (\<lambda>s. published_by s (author_key a) (pm_client_op_id input))) (\<lambda>prior. case prior of
        Some w \<Rightarrow>
          tx_seq (tx_guard (mw_request_hash w = hash) conversation_conflict)
         (tx_bind (roomAccess roomId a True) (\<lambda>_.
          tx_bind (caller_binding a now) (\<lambda>_. tx_return (mw_message w, True))))
      | None \<Rightarrow> tx_bind (publish_new h ids hash roomId input a now) (\<lambda>m. tx_return (m, False))))"

end
