(* ===== verification/Deliveries.thy ===== *)
theory Deliveries
  imports Conversations
begin

text \<open>
  Mailboxes and dispatch: the second half of \<^verbatim>\<open>packages/ops-sqlite/src/conversation-ops.ts\<close>. The
  holder of an agent fetches its pending deliveries and acknowledges each once; a relay leases the
  agent's outbox to wake it and reports the outcome; managers read traces of what happened.
\<close>

section \<open>The mailbox\<close>

definition delivery_order :: "recipient_row \<Rightarrow> int \<times> string" where
  "delivery_order d = (mr_ordinal d, mr_id d)"

definition set_delivery :: "string \<Rightarrow> (recipient_row \<Rightarrow> recipient_row) \<Rightarrow> unit ptx" where
  "set_delivery i f = write_deliveries (rows_set (\<lambda>d. mr_id d = i) f)"

definition lapsed :: "int \<Rightarrow> recipient_row \<Rightarrow> bool" where
  "lapsed now d \<longleftrightarrow> mr_state d = R_pending \<and> mr_expires_at d \<le> now"

definition expireDeliveries :: "int \<Rightarrow> nat ptx" where
  "expireDeliveries now = tx_bind (tx_read (\<lambda>s. length (filter (lapsed now) (deliveries s)))) (\<lambda>n.
     tx_seq (write_deliveries (rows_set (lapsed now) (\<lambda>d. d\<lparr>mr_state := R_expired\<rparr>))) (tx_return n))"

definition for_binding :: "agent_binding \<Rightarrow> recipient_row \<Rightarrow> bool" where
  "for_binding b d \<longleftrightarrow> mr_target_binding_id d = None
     \<or> (mr_target_binding_id d = Some (ab_consumer_binding_id b) \<and> mr_target_epoch d = Some (ab_binding_epoch b))"

definition pendingWhere :: "string \<Rightarrow> agent_binding \<Rightarrow> int \<Rightarrow> recipient_row \<Rightarrow> bool" where
  "pendingWhere agent b now d \<longleftrightarrow> mr_agent_id d = agent \<and> pending_at now d \<and> for_binding b d"

definition pendingCount :: "db \<Rightarrow> string \<Rightarrow> agent_binding \<Rightarrow> int \<Rightarrow> nat" where
  "pendingCount s agent b now = length (filter (pendingWhere agent b now) (deliveries s))"

definition open_context :: "string \<Rightarrow> string \<Rightarrow> int \<Rightarrow> unit ptx" where
  "open_context binding_id delivery_id now = tx_write (set_talk (\<lambda>k. k\<lparr>tk_context :=
     rows_upsert cx_consumer_binding_id
       \<lparr>cx_consumer_binding_id = binding_id, cx_delivery_id = delivery_id, cx_opened_at = now\<rparr>
       (\<lambda>c. c\<lparr>cx_delivery_id := delivery_id, cx_opened_at := now\<rparr>) (tk_context k)\<rparr>))"

definition mark_fetched :: "agent_binding \<Rightarrow> int \<Rightarrow> recipient_row \<Rightarrow> recipient_row" where
  "mark_fetched b now d = d\<lparr>mr_fetched_at := Some now,
     mr_fetched_binding_id := Some (ab_consumer_binding_id b), mr_fetched_epoch := Some (ab_binding_epoch b)\<rparr>"

text \<open>The label of a delivery is \<open>None\<close> for a new one, or says who fetched it before and when.\<close>

record inbox_item =
  ii_delivery :: recipient_row
  ii_message :: message
  ii_label :: "(int option \<times> int) option"
  ii_reply_op_id :: string
  ii_remaining_hops :: int

record inbox_page =
  ip_consumer_binding_id :: string
  ip_binding_epoch :: int
  ip_pending :: nat
  ip_has_more :: bool
  ip_deliveries :: "inbox_item list"

definition inbox_item :: "db \<Rightarrow> agent_binding \<Rightarrow> int \<Rightarrow> recipient_row \<times> message \<Rightarrow> inbox_item" where
  "inbox_item s b now p = (case p of (d, m) \<Rightarrow> \<lparr>ii_delivery = mark_fetched b now d, ii_message = m,
     ii_label = map_option (\<lambda>t. (mr_fetched_epoch d, t)) (mr_fetched_at d),
     ii_reply_op_id = ''reply:'' @ mr_id d,
     ii_remaining_hops = max 0 ((case by_key ro_id (me_room_id m) (rooms s) of
        None \<Rightarrow> 8 | Some r \<Rightarrow> rb_max_hops (ro_budgets r)) - me_hop m)\<rparr>)"

definition joined :: "db \<Rightarrow> recipient_row list \<Rightarrow> (recipient_row \<times> message) list" where
  "joined s ds = concat (map (\<lambda>d. case message_of s d of None \<Rightarrow> [] | Some w \<Rightarrow> [(d, mw_message w)]) ds)"

definition inbox_rows ::
    "db \<Rightarrow> string \<Rightarrow> agent_binding \<Rightarrow> (int \<times> string) option \<Rightarrow> int \<Rightarrow> (recipient_row \<times> message) list" where
  "inbox_rows s agent b after now = joined s (sort_key delivery_order (filter (\<lambda>d. pendingWhere agent b now d
     \<and> (case after of None \<Rightarrow> True | Some p \<Rightarrow> p < delivery_order d)) (deliveries s)))"

definition renew_lease :: "agent_binding \<Rightarrow> conversation_authority \<Rightarrow> int \<Rightarrow> unit ptx" where
  "renew_lease b a now = (case ca_runtime a of
      None \<Rightarrow> set_binding (ab_consumer_binding_id b) (\<lambda>x. x\<lparr>ab_updated_at := now\<rparr>)
    | Some r \<Rightarrow> set_binding (ab_consumer_binding_id b)
        (\<lambda>x. x\<lparr>ab_lease_expires_at := rt_lease_expires_at r, ab_updated_at := now\<rparr>))"

definition fetchInbox ::
    "string \<Rightarrow> conversation_authority \<Rightarrow> nat \<Rightarrow> (int \<times> string) option \<Rightarrow> int \<Rightarrow> inbox_page ptx" where
  "fetchInbox agent a limit after now = tx_seq (bodyAccess a)
     (tx_bind (activeBinding agent a now False) (\<lambda>b.
      tx_bind (expireDeliveries now) (\<lambda>_. let size = min 100 (max 1 limit) in
      tx_bind (tx_read (\<lambda>s. take (size + 1) (inbox_rows s agent b after now))) (\<lambda>rows.
      let page = take size rows in
      tx_seq (tx_for page (\<lambda>(d, m). set_delivery (mr_id d) (mark_fetched b now)))
     (tx_seq (renew_lease b a now)
     (tx_seq (case page of [] \<Rightarrow> tx_return ()
        | (d, m) # _ \<Rightarrow> open_context (ab_consumer_binding_id b) (mr_id d) now)
     (tx_read (\<lambda>s. \<lparr>ip_consumer_binding_id = ab_consumer_binding_id b, ip_binding_epoch = ab_binding_epoch b,
        ip_pending = pendingCount s agent b now, ip_has_more = length rows > size,
        ip_deliveries = map (inbox_item s b now) page\<rparr>))))))))"

record ack_delivery =
  ak_consumer_binding_id :: string
  ak_binding_epoch :: int
  ak_disposition :: disposition

definition mark_acked :: "agent_binding \<Rightarrow> disposition \<Rightarrow> int \<Rightarrow> recipient_row \<Rightarrow> recipient_row" where
  "mark_acked b v now d = d\<lparr>mr_state := R_acked, mr_acked_at := Some now,
     mr_acked_binding_id := Some (ab_consumer_binding_id b), mr_acked_epoch := Some (ab_binding_epoch b),
     mr_disposition := Some v\<rparr>"

definition delivery_for :: "db \<Rightarrow> string \<Rightarrow> string \<Rightarrow> recipient_row option" where
  "delivery_for s agent i = row_find (\<lambda>d. mr_id d = i \<and> mr_agent_id d = agent) (deliveries s)"

definition acknowledge ::
    "host \<Rightarrow> string \<Rightarrow> string \<Rightarrow> ack_delivery \<Rightarrow> conversation_authority \<Rightarrow> int \<Rightarrow>
      (recipient_row \<times> nat \<times> bool) ptx" where
  "acknowledge h agent i input a now = tx_seq (bodyAccess a)
     (tx_bind (activeBinding agent a now False) (\<lambda>b.
      tx_seq (tx_guard (ak_consumer_binding_id input = ab_consumer_binding_id b
         \<and> ak_binding_epoch input = ab_binding_epoch b) conversation_stale)
     (tx_bind (tx_read (\<lambda>s. delivery_for s agent i)) (\<lambda>found. case found of
        None \<Rightarrow> tx_throw conversation_missing
      | Some d \<Rightarrow>
          tx_seq (tx_guard (\<not> (filled (mr_target_binding_id d)
              \<and> (mr_target_binding_id d \<noteq> Some (ab_consumer_binding_id b)
                 \<or> mr_target_epoch d \<noteq> Some (ab_binding_epoch b)))) conversation_stale)
         (if mr_state d = R_acked then
            tx_seq (tx_guard (mr_acked_binding_id d = Some (ab_consumer_binding_id b)
                \<and> mr_acked_epoch d = Some (ab_binding_epoch b)
                \<and> mr_disposition d = Some (ak_disposition input)) conversation_conflict)
            (tx_read (\<lambda>s. (d, pendingCount s agent b now, True)))
          else if mr_state d = R_expired \<or> mr_expires_at d \<le> now
            then tx_throw (ConversationError ''delivery-expired'' 410)
          else
            tx_seq (write_deliveries (rows_set (\<lambda>x. mr_id x = i \<and> mr_state x = R_pending)
              (mark_acked b (ak_disposition input) now)))
           (tx_seq (tx_when (ak_disposition input = Accepted)
              (open_context (ab_consumer_binding_id b) i now))
           (tx_bind (tx_read (\<lambda>s. pendingCount s agent b now)) (\<lambda>n.
            tx_seq (tx_when (n = 0) (quiet_outbox agent now))
           (tx_seq (appendJournal h ''conversation.acknowledged'' (''delivery:'' @ i) (conversation_origin a) None
              [(''delivery_id'', JStr i), (''disposition'', JStr (case ak_disposition input of
                 Accepted \<Rightarrow> ''accepted'' | Declined \<Rightarrow> ''declined''))])
           (tx_return (mark_acked b (ak_disposition input) now d, n, False)))))))))))"

section \<open>Dispatch\<close>

definition outbox_of :: "db \<Rightarrow> string \<Rightarrow> outbox_row option" where
  "outbox_of s agent = by_key ob_agent_id agent (tk_outbox (db_talk s))"

text \<open>The version a watcher compares, with its pending count.\<close>

definition inboxVersion :: "string \<Rightarrow> string \<Rightarrow> conversation_authority \<Rightarrow> int \<Rightarrow> ((string \<times> int \<times> int) \<times> nat) ptx" where
  "inboxVersion fresh agent a now = tx_bind (activeBinding agent a now False) (\<lambda>b.
     tx_bind (tx_read (\<lambda>s. outbox_of s agent)) (\<lambda>ob.
     tx_bind (cursorGeneration fresh) (\<lambda>g.
     tx_read (\<lambda>s. ((g, ab_binding_epoch b, case ob of None \<Rightarrow> 0 | Some r \<Rightarrow> ob_publish_gen r),
       pendingCount s agent b now)))))"

abbreviation dispatches :: "db \<Rightarrow> dispatch_attempt list" where
  "dispatches s \<equiv> tk_dispatch (db_talk s)"

definition write_dispatches :: "(dispatch_attempt list \<Rightarrow> dispatch_attempt list) \<Rightarrow> unit ptx" where
  "write_dispatches f = tx_write (set_talk (\<lambda>k. k\<lparr>tk_dispatch := f (tk_dispatch k)\<rparr>))"

definition dispatch_of :: "db \<Rightarrow> string \<Rightarrow> string \<Rightarrow> dispatch_attempt option" where
  "dispatch_of s agent token = row_find (\<lambda>t. da_agent_id t = agent \<and> da_lease_token t = token) (dispatches s)"

definition dispatch_for_binding :: "agent_binding \<Rightarrow> dispatch_attempt \<Rightarrow> bool" where
  "dispatch_for_binding b t \<longleftrightarrow> da_consumer_binding_id t = ab_consumer_binding_id b
     \<and> da_binding_epoch t = ab_binding_epoch b"

record dispatch_status =
  ds_attempt :: "dispatch_attempt option"
  ds_consumer_binding_id :: string
  ds_binding_epoch :: int
  ds_mechanism :: mechanism
  ds_outbox :: "outbox_row option"
  ds_deliveries :: "recipient_row list"

definition dispatchStatus ::
    "string \<Rightarrow> conversation_authority \<Rightarrow> int \<Rightarrow> string option \<Rightarrow> dispatch_status ptx" where
  "dispatchStatus agent a now token = tx_bind (activeBinding agent a now True) (\<lambda>b.
     tx_bind (expireDeliveries now) (\<lambda>_.
     tx_bind (tx_read (\<lambda>s. if filled token then dispatch_of s agent (the token) else None)) (\<lambda>attempt.
     tx_seq (tx_guard (filled token \<longrightarrow> (case attempt of None \<Rightarrow> False | Some t \<Rightarrow> dispatch_for_binding b t))
       conversation_stale)
    (tx_read (\<lambda>s. \<lparr>ds_attempt = attempt, ds_consumer_binding_id = ab_consumer_binding_id b,
       ds_binding_epoch = ab_binding_epoch b, ds_mechanism = at_mechanism (ab_attachment b),
       ds_outbox = outbox_of s agent,
       ds_deliveries = take 100 (sort_key delivery_order (filter (\<lambda>d. mr_agent_id d = agent
         \<and> (case attempt of None \<Rightarrow> mr_state d = R_pending | Some t \<Rightarrow> mr_id d \<in> set (da_delivery_ids t)))
         (deliveries s)))\<rparr>)))))"

definition BACKOFF :: "int list" where
  "BACKOFF = [30000, 120000, 600000, 3600000, 21600000]"

definition backoff :: "int \<Rightarrow> int" where
  "backoff attempts = (let k = min (attempts - 1) (int (length BACKOFF) - 1) in
     if k < 0 then 21600000 else BACKOFF ! nat k)"

text \<open>The deliveries a wake would carry, each with its room.\<close>

definition wakeable :: "db \<Rightarrow> string \<Rightarrow> agent_binding \<Rightarrow> int \<Rightarrow> (recipient_row \<times> room_row) list" where
  "wakeable s agent b now = take 100 (concat (map (\<lambda>(d, m). case by_key ro_id (me_room_id m) (rooms s) of
       None \<Rightarrow> [] | Some r \<Rightarrow> if ro_archived r then [] else [(d, r)])
     (joined s (sort_key delivery_order
       (filter (\<lambda>d. pendingWhere agent b now d \<and> mr_wake_suppressed d = None) (deliveries s))))))"

text \<open>Why a wake is withheld: three wakes without an acknowledgement, or an hourly budget.\<close>

definition withheld :: "dispatch_attempt list \<Rightarrow> string \<Rightarrow> recipient_row \<times> room_row \<Rightarrow> suppression option" where
  "withheld recent agent p = (case p of (d, r) \<Rightarrow>
     if mr_fetched_at d \<noteq> None \<and> mr_rewakes d \<ge> 3 then Some S_stalled
     else if int (length (filter (\<lambda>t. da_agent_id t = agent) recent)) \<ge> rb_agent_wakes (ro_budgets r)
       then Some S_agent
     else if int (length (filter (\<lambda>t. ro_id r \<in> set (da_room_ids t)) recent)) \<ge> rb_room_wakes (ro_budgets r)
       then Some S_room
     else None)"

record dispatch_lease =
  dl_lease_token :: string
  dl_lease_until :: int
  dl_publish_gen :: int
  dl_binding :: agent_binding
  dl_pending :: nat

definition insert_dispatch :: "dispatch_attempt \<Rightarrow> unit ptx" where
  "insert_dispatch t = tx_bind (tx_read dispatches) (\<lambda>rows. tx_seq
     (tx_guard (\<not> list_ex (\<lambda>x. da_id x = da_id t \<or> da_lease_token x = da_lease_token t) rows)
       (SqliteError ''dispatch_attempts''))
     (write_dispatches (\<lambda>rows. rows @ [t])))"

definition outbox_due :: "int \<Rightarrow> outbox_row \<Rightarrow> bool" where
  "outbox_due now r \<longleftrightarrow> (case ob_lease_until r of None \<Rightarrow> 0 | Some t \<Rightarrow> t) \<le> now \<and> ob_next_attempt_at r \<le> now"

definition take_lease :: "string \<Rightarrow> agent_binding \<Rightarrow> int \<Rightarrow> outbox_row \<Rightarrow> outbox_row" where
  "take_lease token b now r = r\<lparr>ob_lease_token := Some token, ob_lease_until := Some (now + 30000),
     ob_lease_gen := Some (ob_publish_gen r), ob_lease_binding_id := Some (ab_consumer_binding_id b),
     ob_lease_epoch := Some (ab_binding_epoch b), ob_attempt_count := ob_attempt_count r + 1,
     ob_updated_at := now\<rparr>"

text \<open>\<open>ids 0\<close> is the lease token, \<open>ids 1\<close> the name of the attempt.\<close>

definition grant_lease ::
    "(nat \<Rightarrow> string) \<Rightarrow> string \<Rightarrow> agent_binding \<Rightarrow> outbox_row \<Rightarrow> (recipient_row \<times> room_row) list \<Rightarrow> int \<Rightarrow>
      dispatch_lease option ptx" where
  "grant_lease ids agent b ob eligible now =
     tx_seq (set_outbox agent (take_lease (ids 0) b now))
    (tx_seq (insert_dispatch \<lparr>da_room_ids = first_occurrences (map (ro_id \<circ> snd) eligible),
       da_delivery_ids = map (mr_id \<circ> fst) eligible, da_id = ids 1, da_agent_id = agent,
       da_lease_token = ids 0, da_consumer_binding_id = ab_consumer_binding_id b,
       da_binding_epoch = ab_binding_epoch b, da_publish_gen = ob_publish_gen ob, da_outcome = D_leased,
       da_created_at = now, da_reported_at = None\<rparr>)
    (tx_seq (write_deliveries (rows_set (\<lambda>d. mr_id d \<in> set (map (mr_id \<circ> fst) eligible) \<and> mr_fetched_at d \<noteq> None)
       (\<lambda>d. d\<lparr>mr_rewakes := mr_rewakes d + 1\<rparr>)))
    (tx_return (Some \<lparr>dl_lease_token = ids 0, dl_lease_until = now + 30000, dl_publish_gen = ob_publish_gen ob,
       dl_binding = b, dl_pending = length eligible\<rparr>))))"

definition leaseDispatch ::
    "(nat \<Rightarrow> string) \<Rightarrow> string \<Rightarrow> conversation_authority \<Rightarrow> int \<Rightarrow> dispatch_lease option ptx" where
  "leaseDispatch ids agent a now = tx_bind (activeBinding agent a now True) (\<lambda>b.
     tx_bind (expireDeliveries now) (\<lambda>_.
     tx_bind (tx_read (\<lambda>s. outbox_of s agent)) (\<lambda>row. case row of
        None \<Rightarrow> tx_return None
      | Some ob \<Rightarrow>
          if \<not> outbox_due now ob then tx_return None
          else if at_mechanism (ab_attachment b) = M_poll
            then tx_seq (quiet_outbox agent now) (tx_return None)
          else
            tx_bind (tx_read (\<lambda>s. (wakeable s agent b now,
               filter (\<lambda>t. da_created_at t \<ge> now - 3600000) (dispatches s)))) (\<lambda>(candidates, recent).
            tx_seq (tx_for (filter (\<lambda>p. withheld recent agent p \<noteq> None) candidates)
               (\<lambda>p. set_delivery (mr_id (fst p)) (\<lambda>d. d\<lparr>mr_wake_suppressed := withheld recent agent p\<rparr>)))
           (let eligible = filter (\<lambda>p. withheld recent agent p = None) candidates in
            if eligible = [] then tx_seq (quiet_outbox agent now) (tx_return None)
            else grant_lease ids agent b ob eligible now)))))"

record dispatch_report =
  dr_lease_token :: string
  dr_consumer_binding_id :: string
  dr_binding_epoch :: int
  dr_publish_gen :: int
  dr_outcome :: dispatch_outcome

definition lease_held :: "dispatch_report \<Rightarrow> agent_binding \<Rightarrow> int \<Rightarrow> outbox_row \<Rightarrow> bool" where
  "lease_held input b now ob \<longleftrightarrow> ob_lease_token ob = Some (dr_lease_token input)
     \<and> (case ob_lease_until ob of None \<Rightarrow> 0 | Some t \<Rightarrow> t) > now
     \<and> ob_lease_gen ob = Some (dr_publish_gen input) \<and> ob_lease_epoch ob = Some (ab_binding_epoch b)
     \<and> ob_lease_binding_id ob = Some (ab_consumer_binding_id b)"

definition settle_outbox :: "dispatch_report \<Rightarrow> int \<Rightarrow> outbox_row \<Rightarrow> outbox_row" where
  "settle_outbox input now ob = (let unchanged = ob_publish_gen ob = dr_publish_gen input in
     (clear_lease ob)\<lparr>ob_quiet := unchanged \<and> dr_outcome input = D_accepted,
       ob_next_attempt_at := (if unchanged then now + backoff (ob_attempt_count ob) else now),
       ob_updated_at := now\<rparr>)"

definition reportDispatch ::
    "string \<Rightarrow> dispatch_report \<Rightarrow> conversation_authority \<Rightarrow> int \<Rightarrow> bool ptx" where
  "reportDispatch agent input a now = tx_bind (activeBinding agent a now True) (\<lambda>b.
     tx_seq (tx_guard (dr_consumer_binding_id input = ab_consumer_binding_id b
        \<and> dr_binding_epoch input = ab_binding_epoch b) conversation_stale)
    (tx_bind (tx_read (\<lambda>s. dispatch_of s agent (dr_lease_token input))) (\<lambda>found. case found of
        None \<Rightarrow> tx_throw conversation_conflict
      | Some t \<Rightarrow>
          tx_seq (tx_guard (dispatch_for_binding b t \<and> da_publish_gen t = dr_publish_gen input)
            conversation_conflict)
         (if da_outcome t \<noteq> D_leased
          then tx_seq (tx_guard (da_outcome t = dr_outcome input) conversation_conflict) (tx_return True)
          else tx_bind (tx_read (\<lambda>s. outbox_of s agent)) (\<lambda>row. case row of
              None \<Rightarrow> tx_throw conversation_conflict
            | Some ob \<Rightarrow>
                tx_seq (tx_guard (lease_held input b now ob) conversation_conflict)
               (tx_seq (write_dispatches (rows_set (\<lambda>x. da_id x = da_id t)
                  (\<lambda>x. x\<lparr>da_outcome := dr_outcome input, da_reported_at := Some now\<rparr>)))
               (tx_seq (set_outbox agent (settle_outbox input now)) (tx_return False))))))))"

text \<open>A manager lets a suppressed delivery wake its agent again.\<close>

definition resumeDelivery :: "string \<Rightarrow> string \<Rightarrow> conversation_authority \<Rightarrow> int \<Rightarrow> unit ptx" where
  "resumeDelivery agent i a now = tx_seq (requireRoomManage a)
     (tx_bind (tx_read (\<lambda>s. delivery_for s agent i)) (\<lambda>found. case found of
        None \<Rightarrow> tx_throw conversation_missing
      | Some d \<Rightarrow>
          tx_seq (tx_guard (pending_at now d) (ConversationError ''delivery-expired'' 410))
         (tx_seq (set_delivery i (\<lambda>x. x\<lparr>mr_wake_suppressed := None, mr_rewakes := 0\<rparr>))
         (rearm agent now False))))"

end
