(* ===== verification/Traces.thy ===== *)
theory Traces
  imports Deliveries
begin

text \<open>
  What a manager sees of a delivery: \<open>explainDelivery\<close>, \<open>listDeliveries\<close> and \<open>messageDeliveries\<close> of
  \<^verbatim>\<open>packages/ops-sqlite/src/conversation-ops.ts\<close>. Reading never sweeps: a pending delivery past its
  expiry is reported as expired.
\<close>

section \<open>The trace of one delivery\<close>

definition effectiveState :: "int \<Rightarrow> recipient_row \<Rightarrow> recipient_state" where
  "effectiveState now d = (if mr_state d = R_pending \<and> mr_expires_at d \<le> now then R_expired else mr_state d)"

text \<open>Wake attempts that carried the delivery, oldest first.\<close>

definition attemptsFor :: "db \<Rightarrow> string \<Rightarrow> dispatch_attempt list" where
  "attemptsFor s i = concat (map (\<lambda>t. map (\<lambda>_. t) (filter (\<lambda>x. x = i) (da_delivery_ids t)))
     (sort_key (\<lambda>t. (da_created_at t, da_id t)) (dispatches s)))"

datatype holder_status = Holder_active | Holder_offline | Holder_ended binding_state | Holder_none

definition recipientStatus :: "db \<Rightarrow> recipient_row \<Rightarrow> int \<Rightarrow> holder_status \<times> int option" where
  "recipientStatus s d now = (case
      (if filled (mr_target_binding_id d)
       then by_key ab_consumer_binding_id (the (mr_target_binding_id d)) (bindings s)
       else current_binding s (mr_agent_id d)) of
      None \<Rightarrow> (Holder_none, None)
    | Some b \<Rightarrow> (if ab_state b = B_active
        then (if lease_live (ab_lease_expires_at b) now then Holder_active else Holder_offline)
        else Holder_ended (ab_state b), Some (ab_binding_epoch b)))"

datatype unlinked_reason = Attempt_not_found | Task_mismatch

datatype work_result =
    Not_reported
  | Work_unlinked string unlinked_reason
  | Work_hidden
  | Work_pending string string attempt_state
  | Work_reported string string lifecycle_outcome int bool

definition workResult :: "db \<Rightarrow> message option \<Rightarrow> (string \<Rightarrow> bool) \<Rightarrow> work_result" where
  "workResult s message access = (case message of
      None \<Rightarrow> Not_reported
    | Some m \<Rightarrow>
        if \<not> filled (me_attempt_id m) then Not_reported
        else let i = the (me_attempt_id m) in
          (case by_key wa_id i (db_work_attempts s) of
              None \<Rightarrow> Work_unlinked i Attempt_not_found
            | Some t \<Rightarrow>
                if \<not> access (wa_task_id t) then Work_hidden
                else if filled (me_task_id m) \<and> me_task_id m \<noteq> Some (wa_task_id t)
                  then Work_unlinked i Task_mismatch
                else (case (wa_outcome t, wa_finished_at t) of
                    (Some oc, Some at) \<Rightarrow>
                      if wa_state t \<noteq> Terminal then Work_pending i (wa_task_id t) (wa_state t)
                      else Work_reported i (wa_task_id t) (oc_status oc) at
                        (list_ex (\<lambda>c. ac_attempt_id c = i) (db_attempt_corrections s))
                  | _ \<Rightarrow> Work_pending i (wa_task_id t) (wa_state t))))"

datatype wake_status = Wake_requested | Wake_reported dispatch_outcome | Wake_suppressed | Wake_not_requested

record delivery_trace =
  tc_state :: recipient_state
  tc_stored_at :: int
  tc_wake :: wake_status
  tc_suppressed :: "suppression option"
  tc_attempts :: nat
  tc_rewakes :: int
  tc_last_at :: "int option"
  tc_fetched :: "(int \<times> int option) option"
  tc_acknowledged :: "(int \<times> int option \<times> disposition option) option"
  tc_work_result :: work_result
  tc_recipient :: "holder_status \<times> int option"

definition last_attempt :: "dispatch_attempt list \<Rightarrow> dispatch_attempt option" where
  "last_attempt ts = (if ts = [] then None else Some (last ts))"

definition wakeStatus :: "recipient_row \<Rightarrow> dispatch_attempt list \<Rightarrow> wake_status" where
  "wakeStatus d ts = (case last_attempt ts of
      Some t \<Rightarrow> (if da_outcome t = D_leased then Wake_requested else Wake_reported (da_outcome t))
    | None \<Rightarrow> (if mr_wake_suppressed d \<noteq> None then Wake_suppressed else Wake_not_requested))"

definition deliveryTrace ::
    "db \<Rightarrow> recipient_row \<Rightarrow> dispatch_attempt list \<Rightarrow> int \<Rightarrow> message option \<Rightarrow> (string \<Rightarrow> bool) \<Rightarrow> delivery_trace" where
  "deliveryTrace s d ts now message access = \<lparr>tc_state = effectiveState now d, tc_stored_at = mr_created_at d,
     tc_wake = wakeStatus d ts, tc_suppressed = mr_wake_suppressed d, tc_attempts = length ts,
     tc_rewakes = mr_rewakes d,
     tc_last_at = map_option (\<lambda>t. case da_reported_at t of None \<Rightarrow> da_created_at t | Some r \<Rightarrow> r) (last_attempt ts),
     tc_fetched = map_option (\<lambda>t. (t, mr_fetched_epoch d)) (mr_fetched_at d),
     tc_acknowledged = map_option (\<lambda>t. (t, mr_acked_epoch d, mr_disposition d)) (mr_acked_at d),
     tc_work_result = workResult s message access, tc_recipient = recipientStatus s d now\<rparr>"

text \<open>A reference names a message without its body.\<close>

record message_ref =
  mf_id :: string
  mf_room_id :: string
  mf_thread_id :: "string option"
  mf_seq :: int
  mf_task_id :: "string option"
  mf_attempt_id :: "string option"
  mf_correlation_id :: "string option"

definition truthy_field :: "string option \<Rightarrow> string option" where
  "truthy_field v = (if filled v then v else None)"

definition messageRef :: "message \<Rightarrow> message_ref" where
  "messageRef m = \<lparr>mf_id = me_id m, mf_room_id = me_room_id m, mf_thread_id = me_thread_id m,
     mf_seq = me_seq m, mf_task_id = truthy_field (me_task_id m),
     mf_attempt_id = truthy_field (me_attempt_id m), mf_correlation_id = truthy_field (me_correlation_id m)\<rparr>"

section \<open>Explaining a delivery\<close>

datatype delivery_reason =
    Acknowledged | Deferred_past_ttl | No_binding | Stale_epoch | Budget_suppressed
  | Fetched_not_acked | Session_ref_missing | Wake_rejected | Connector_not_polling

definition explain_reason ::
    "recipient_row \<Rightarrow> agent_binding option \<Rightarrow> dispatch_attempt list \<Rightarrow> int \<Rightarrow> delivery_reason" where
  "explain_reason d active ts now =
     (if mr_state d = R_acked then Acknowledged
      else if mr_state d = R_expired \<or> mr_expires_at d \<le> now then Deferred_past_ttl
      else case active of
        None \<Rightarrow> No_binding
      | Some b \<Rightarrow>
          if filled (mr_target_binding_id d)
            \<and> (mr_target_binding_id d \<noteq> Some (ab_consumer_binding_id b)
               \<or> mr_target_epoch d \<noteq> Some (ab_binding_epoch b)) then Stale_epoch
          else if mr_wake_suppressed d \<noteq> None then Budget_suppressed
          else if (case mr_fetched_at d of None \<Rightarrow> False | Some t \<Rightarrow> t \<noteq> 0) then Fetched_not_acked
          else if at_mechanism (ab_attachment b) \<noteq> M_poll \<and> at_native_session_ref (ab_attachment b) = None
            then Session_ref_missing
          else if map_option da_outcome (last_attempt ts) = Some D_rejected then Wake_rejected
          else Connector_not_polling)"

record delivery_explanation =
  dx_reason :: delivery_reason
  dx_delivery :: recipient_row
  dx_attempts :: "dispatch_attempt list"
  dx_message :: "message_ref option"
  dx_trace :: delivery_trace

definition explainDelivery ::
    "string \<Rightarrow> string \<Rightarrow> conversation_authority \<Rightarrow> int \<Rightarrow> (string \<Rightarrow> bool) \<Rightarrow> delivery_explanation ptx" where
  "explainDelivery agent i a now access = tx_seq (bodyAccess a)
     (tx_seq (if ca_can_manage a then tx_return ()
        else tx_bind (activeBinding agent a now False) (\<lambda>_. tx_return ()))
     (tx_bind (tx_read (\<lambda>s. delivery_for s agent i)) (\<lambda>found. case found of
        None \<Rightarrow> tx_throw conversation_missing
      | Some d \<Rightarrow> tx_read (\<lambda>s. let ts = attemptsFor s i; m = map_option mw_message (message_of s d) in
          \<lparr>dx_reason = explain_reason d (current_binding s agent) ts now, dx_delivery = d, dx_attempts = ts,
           dx_message = map_option messageRef m, dx_trace = deliveryTrace s d ts now m access\<rparr>))))"

section \<open>Listing deliveries\<close>

record trace_item =
  ti_delivery :: recipient_row
  ti_message :: message_ref
  ti_trace :: delivery_trace

definition traceItems ::
    "db \<Rightarrow> (recipient_row \<times> message) list \<Rightarrow> int \<Rightarrow> (string \<Rightarrow> bool) \<Rightarrow> trace_item list" where
  "traceItems s rows now access = map (\<lambda>(d, m). \<lparr>ti_delivery = d, ti_message = messageRef m,
     ti_trace = deliveryTrace s d (attemptsFor s (mr_id d)) now (Some m) access\<rparr>) rows"

record delivery_filters =
  df_agent :: "string option"
  df_room :: "string option"
  df_thread :: "string option"
  df_message :: "string option"
  df_id :: "string option"
  df_state :: "recipient_state option"
  df_wake_suppressed :: bool
  df_expires_after :: "int option"

definition stateWhere :: "recipient_state option \<Rightarrow> int \<Rightarrow> recipient_row \<Rightarrow> bool" where
  "stateWhere state now d = (case state of
      Some R_pending \<Rightarrow> mr_state d = R_pending \<and> mr_expires_at d > now
    | Some R_expired \<Rightarrow> mr_state d = R_expired \<or> (mr_state d = R_pending \<and> mr_expires_at d \<le> now)
    | Some R_acked \<Rightarrow> mr_state d = R_acked
    | None \<Rightarrow> True)"

definition given :: "string option \<Rightarrow> (string \<Rightarrow> bool) \<Rightarrow> bool" where
  "given v p \<longleftrightarrow> (filled v \<longrightarrow> p (the v))"

definition delivery_matches :: "delivery_filters \<Rightarrow> int \<Rightarrow> recipient_row \<times> message \<Rightarrow> bool" where
  "delivery_matches f now p = (case p of (d, m) \<Rightarrow>
     given (df_agent f) (\<lambda>x. mr_agent_id d = x) \<and> given (df_room f) (\<lambda>x. me_room_id m = x)
     \<and> given (df_thread f) (\<lambda>x. me_thread_id m = Some x) \<and> given (df_message f) (\<lambda>x. mr_message_id d = x)
     \<and> given (df_id f) (\<lambda>x. mr_id d = x \<or> mr_message_id d = x) \<and> stateWhere (df_state f) now d
     \<and> (df_wake_suppressed f \<longrightarrow> mr_wake_suppressed d \<noteq> None)
     \<and> (case df_expires_after f of None \<Rightarrow> True | Some t \<Rightarrow> mr_expires_at d > t))"

definition matching_deliveries :: "db \<Rightarrow> delivery_filters \<Rightarrow> int \<Rightarrow> (recipient_row \<times> message) list" where
  "matching_deliveries s f now =
     filter (delivery_matches f now) (joined s (rev (sort_key delivery_order (deliveries s))))"

definition listDeliveries ::
    "conversation_authority \<Rightarrow> delivery_filters \<Rightarrow> nat \<Rightarrow> (int \<times> string) option \<Rightarrow> int \<Rightarrow> (string \<Rightarrow> bool) \<Rightarrow>
      (trace_item list \<times> bool \<times> nat) ptx" where
  "listDeliveries a f limit before now access = tx_seq (requireRoomManage a) (tx_read (\<lambda>s. let
      size = min 100 (max 1 limit);
      rows = take (size + 1) (filter (\<lambda>p. case before of None \<Rightarrow> True
        | Some q \<Rightarrow> delivery_order (fst p) < q) (matching_deliveries s f now)) in
    (traceItems s (take size rows) now access, length rows > size, length (matching_deliveries s f now))))"

definition MESSAGE_DELIVERY_LIMIT :: nat where
  "MESSAGE_DELIVERY_LIMIT = 200"

record delivery_summary =
  dm_recipients :: nat
  dm_pending :: nat
  dm_acknowledged :: nat
  dm_expired :: nat

definition delivery_summary_of :: "recipient_state list \<Rightarrow> delivery_summary" where
  "delivery_summary_of sts = \<lparr>dm_recipients = length sts, dm_pending = length (filter (\<lambda>v. v = R_pending) sts),
     dm_acknowledged = length (filter (\<lambda>v. v = R_acked) sts),
     dm_expired = length (filter (\<lambda>v. v = R_expired) sts)\<rparr>"

text \<open>Who may read the room sees the counts, a manager the deliveries.\<close>

definition messageDeliveries ::
    "string \<Rightarrow> string \<Rightarrow> conversation_authority \<Rightarrow> int \<Rightarrow> (string \<Rightarrow> bool) \<Rightarrow>
      (delivery_summary \<times> (trace_item list \<times> bool) option) ptx" where
  "messageDeliveries room message a now access = tx_bind (roomAccess room a False) (\<lambda>_.
     tx_bind (tx_read (\<lambda>s. row_find (\<lambda>w. mw_id w = message \<and> me_room_id (mw_message w) = room) (messages s)))
     (\<lambda>row. case row of
        None \<Rightarrow> tx_throw conversation_missing
      | Some w \<Rightarrow> tx_read (\<lambda>s. let
            mine = filter (\<lambda>d. mr_message_id d = message) (deliveries s);
            found = take (MESSAGE_DELIVERY_LIMIT + 1) (sort_key (\<lambda>d. (mr_agent_id d, mr_id d)) mine) in
          (delivery_summary_of (map (effectiveState now) mine),
           if \<not> ca_can_manage a then None
           else Some (traceItems s (map (\<lambda>d. (d, mw_message w)) (take MESSAGE_DELIVERY_LIMIT found)) now access,
             length found > MESSAGE_DELIVERY_LIMIT)))))"

end
