(* ===== verification/Talk.thy ===== *)
theory Talk
  imports Traces
begin

text \<open>
  The system of agents and conversations: every operation of \<open>Agents\<close>, \<open>Conversations\<close> and
  \<open>Deliveries\<close> that writes, as one step relation, and what each step keeps: the holders of
  mailboxes, the numbering of messages, the messages already published and the deliveries already
  settled.
\<close>

section \<open>Frames\<close>

text \<open>What publications are about: the messages, the counters of the rooms and the deliveries.\<close>

type_synonym post = "message_row list \<times> (string \<times> int) list \<times> recipient_row list"

definition post :: "db \<Rightarrow> post" where
  "post s = (messages s, map (\<lambda>r. (ro_id r, ro_next_seq r)) (rooms s), deliveries s)"

lemma post_frame:
  assumes "\<And>P. tx_inv (\<lambda>s. P (db_talk s)) m"
  shows "tx_inv (\<lambda>s. P (post s)) m"
  using assms [of "\<lambda>k. P (tk_messages k, map (\<lambda>r. (ro_id r, ro_next_seq r)) (tk_rooms k), tk_recipients k)"]
  by (simp add: post_def)

lemma post_journal [tx_wp]: "tx_inv (\<lambda>s. P (post s)) (appendJournal h kind res orig fence data)"
  by (rule post_frame) (rule talk_journal)

lemma post_agent_journal [tx_wp]: "tx_inv (\<lambda>s. P (post s)) (agent_journal h kind i au data)"
  by (rule post_frame) (rule talk_agent_journal)

lemma post_roomEvent [tx_wp]: "tx_inv (\<lambda>s. P (post s)) (roomEvent h kind i a data)"
  unfolding roomEvent_def by (rule post_journal)

lemma post_invalidate [tx_wp]: "tx_inv (\<lambda>s. P (post s)) (invalidateAgentQuestions h i orig now why)"
  by (rule post_frame) (rule talk_invalidate_agent)

lemma post_nextRevision [tx_wp]: "tx_inv (\<lambda>s. P (post s)) nextRevision"
  unfolding nextRevision_def by (intro tx_wp tx_inv_write) (simp add: post_def)

lemma post_write_agents [tx_wp]: "tx_inv (\<lambda>s. P (post s)) (write_agents f)"
  unfolding write_agents_def by (intro tx_inv_write) (simp add: post_def)

lemma post_write_bindings [tx_wp]: "tx_inv (\<lambda>s. P (post s)) (write_bindings f)"
  unfolding write_bindings_def by (intro tx_inv_write) (simp add: post_def)

lemma post_write_outbox [tx_wp]: "tx_inv (\<lambda>s. P (post s)) (write_outbox f)"
  unfolding write_outbox_def by (intro tx_inv_write) (simp add: post_def)

lemma post_write_members [tx_wp]: "tx_inv (\<lambda>s. P (post s)) (write_members f)"
  unfolding write_members_def by (intro tx_inv_write) (simp add: post_def)

lemma post_write_dispatches [tx_wp]: "tx_inv (\<lambda>s. P (post s)) (write_dispatches f)"
  unfolding write_dispatches_def by (intro tx_inv_write) (simp add: post_def)

lemma post_insert_thread [tx_wp]: "tx_inv (\<lambda>s. P (post s)) (insert_thread t)"
  unfolding insert_thread_def by (intro tx_inv_write) (simp add: post_def)

lemma post_open_context [tx_wp]: "tx_inv (\<lambda>s. P (post s)) (open_context b d now)"
  unfolding open_context_def by (intro tx_inv_write) (simp add: post_def)

lemma post_generation [tx_wp]: "tx_inv (\<lambda>s. P (post s)) (cursorGeneration g)"
  unfolding cursorGeneration_def by (intro tx_wp tx_inv_write) (simp add: post_def)

lemma post_set_applying [tx_wp]: "tx_inv (\<lambda>s. P (post s)) (set_applying n)"
  unfolding set_applying_def by (intro tx_inv_write) (simp add: post_def)

lemma post_restored_talk [tx_wp]: "tx_inv (\<lambda>s. P (post s)) (invalidateRestoredConversations g now)"
  unfolding invalidateRestoredConversations_def by (intro tx_inv_write) (simp add: post_def)

lemma post_preserve [tx_wp]: "tx_inv (\<lambda>s. P (post s)) preserveRestoreEpochs"
  unfolding preserveRestoreEpochs_def by (intro tx_inv_write) (simp add: post_def split: option.split)

lemma post_set_room:
  assumes "\<And>r. ro_id (f r) = ro_id r \<and> ro_next_seq (f r) = ro_next_seq r"
  shows "tx_inv (\<lambda>s. P (post s)) (set_room i f)"
  unfolding set_room_def write_rooms_def using assms
  by (intro tx_inv_write) (simp add: post_def map_rows_set)

lemma post_room_revision [tx_wp]: "tx_inv (\<lambda>s. P (post s)) (tx_write (set_talk (\<lambda>k. k\<lparr>tk_rooms :=
    rows_set (\<lambda>x. ro_id x = i) (\<lambda>x. x\<lparr>ro_revision := r\<rparr>) (tk_rooms k)\<rparr>)))"
  by (intro tx_inv_write) (simp add: post_def map_rows_set)

lemma post_group_revision [tx_wp]: "tx_inv (\<lambda>s. P (post s)) (tx_write (set_talk (\<lambda>k. k\<lparr>tk_signal_groups :=
    f (tk_signal_groups k)\<rparr>)))"
  by (intro tx_inv_write) (simp add: post_def)

lemma post_do_once [tx_wp]: "tx_inv (\<lambda>s. P (post s)) m \<Longrightarrow> tx_inv (\<lambda>s. P (post s)) (do_once h idem m)"
  by (erule tx_inv_do_once) (simp add: post_def)

lemmas post_writes = set_agent_def set_binding_def set_outbox_def rearm_def quiet_outbox_def
  insert_agent_def insert_binding_def insert_member_def insert_dispatch_def

text \<open>The same for the holders of mailboxes.\<close>

lemma mailboxes_roomEvent [tx_wp]: "tx_inv (\<lambda>s. P (mailboxes s)) (roomEvent h kind i a data)"
  unfolding roomEvent_def by (rule mailboxes_journal)

lemma mailboxes_write_rooms [tx_wp]: "tx_inv (\<lambda>s. P (mailboxes s)) (write_rooms f)"
  unfolding write_rooms_def by (intro tx_inv_write) (simp add: mailboxes_def)

lemma mailboxes_write_members [tx_wp]: "tx_inv (\<lambda>s. P (mailboxes s)) (write_members f)"
  unfolding write_members_def by (intro tx_inv_write) (simp add: mailboxes_def)

lemma mailboxes_write_dispatches [tx_wp]: "tx_inv (\<lambda>s. P (mailboxes s)) (write_dispatches f)"
  unfolding write_dispatches_def by (intro tx_inv_write) (simp add: mailboxes_def)

lemma mailboxes_write_deliveries [tx_wp]: "tx_inv (\<lambda>s. P (mailboxes s)) (write_deliveries f)"
  unfolding write_deliveries_def by (intro tx_inv_write) (simp add: mailboxes_def)

lemma mailboxes_insert_thread [tx_wp]: "tx_inv (\<lambda>s. P (mailboxes s)) (insert_thread t)"
  unfolding insert_thread_def by (intro tx_inv_write) (simp add: mailboxes_def)

lemma mailboxes_insert_message [tx_wp]: "tx_inv (\<lambda>s. P (mailboxes s)) (insert_message w)"
  unfolding insert_message_def by (intro tx_wp tx_inv_write) (simp add: mailboxes_def)

lemma mailboxes_open_context [tx_wp]: "tx_inv (\<lambda>s. P (mailboxes s)) (open_context b d now)"
  unfolding open_context_def by (intro tx_inv_write) (simp add: mailboxes_def)

lemma mailboxes_generation [tx_wp]: "tx_inv (\<lambda>s. P (mailboxes s)) (cursorGeneration g)"
  unfolding cursorGeneration_def by (intro tx_wp tx_inv_write) (simp add: mailboxes_def)

lemma mailboxes_do_once [tx_wp]:
  "tx_inv (\<lambda>s. P (mailboxes s)) m \<Longrightarrow> tx_inv (\<lambda>s. P (mailboxes s)) (do_once h idem m)"
  by (erule tx_inv_do_once) (simp add: mailboxes_def)

text \<open>Reads.\<close>

lemma read_bodyAccess [tx_wp]: "tx_inv P (bodyAccess a)"
  unfolding bodyAccess_def by (intro tx_wp)

lemma read_requireRoomManage [tx_wp]: "tx_inv P (requireRoomManage a)"
  unfolding requireRoomManage_def by (intro tx_wp)

lemma read_activeBinding [tx_wp]: "tx_inv P (activeBinding agent a now relay)"
  unfolding activeBinding_def by (intro tx_wp)

lemma read_caller_binding [tx_wp]: "tx_inv P (caller_binding a now)"
  unfolding caller_binding_def by (intro tx_wp)

lemma read_roomAccess [tx_wp]: "tx_inv P (roomAccess i a writes)"
  unfolding roomAccess_def by (intro tx_wp)

lemma read_roomRow [tx_wp]: "tx_inv P (roomRow i)"
  unfolding roomRow_def by (intro tx_wp)

lemma read_member_admitted [tx_wp]: "tx_inv P (member_admitted m)"
  unfolding member_admitted_def by (intro tx_wp)

lemma read_thread_in_room [tx_wp]: "tx_inv P (thread_in_room r t)"
  unfolding thread_in_room_def by (intro tx_wp)

lemma read_artifact_present [tx_wp]: "tx_inv P (artifact_present k)"
  unfolding artifact_present_def by (intro tx_wp)

section \<open>Steps\<close>

text \<open>The last rule stands for everything else the project does: a step of another component, which
  writes none of these tables.\<close>

inductive talk_step :: "db \<Rightarrow> db \<Rightarrow> bool" where
  ts_register: "agent_register h reg au now s = Inr (x1, s') \<Longrightarrow> talk_step s s'"
| ts_update: "agent_update h i upd au ida now s = Inr (x1, s') \<Longrightarrow> talk_step s s'"
| ts_archive: "agent_archive h i rv ev au idx now s = Inr (x2, s') \<Longrightarrow> talk_step s s'"
| ts_unarchive: "agent_unarchive h i rv au ida now s = Inr (x1, s') \<Longrightarrow> talk_step s s'"
| ts_attach: "agent_attach h i att au now s = Inr (x3, s') \<Longrightarrow> talk_step s s'"
| ts_release: "agent_release i ep au now s = Inr (x4, s') \<Longrightarrow> talk_step s s'"
| ts_revoke: "agent_expire gone now s = Inr (x4, s') \<Longrightarrow> talk_step s s'"
| ts_preserve: "preserveRestoreEpochs s = Inr (x4, s') \<Longrightarrow> talk_step s s'"
| ts_restore: "invalidateRestoredBindings g now s = Inr (x4, s') \<Longrightarrow> talk_step s s'"
| ts_create_room: "createRoom h room a now s = Inr (x5, s') \<Longrightarrow> talk_step s s'"
| ts_member: "setMember h i mem wake a erv idr now s = Inr (x5, s') \<Longrightarrow> talk_step s s'"
| ts_update_room: "updateRoom h i updr a idr now s = Inr (x5, s') \<Longrightarrow> talk_step s s'"
| ts_archive_room: "setArchived h i arch rv a idr now s = Inr (x5, s') \<Longrightarrow> talk_step s s'"
| ts_thread: "createThread i t title a now s = Inr (x6, s') \<Longrightarrow> talk_step s s'"
| ts_generation: "cursorGeneration g s = Inr (x7, s') \<Longrightarrow> talk_step s s'"
| ts_publish: "publish h ids sha i msg a now s = Inr (x8, s') \<Longrightarrow> talk_step s s'"
| ts_expire: "expireDeliveries now s = Inr (x9, s') \<Longrightarrow> talk_step s s'"
| ts_fetch: "fetchInbox i a limit after now s = Inr (x10, s') \<Longrightarrow> talk_step s s'"
| ts_ack: "acknowledge h i d ack a now s = Inr (x11, s') \<Longrightarrow> talk_step s s'"
| ts_version: "inboxVersion g i a now s = Inr (x12, s') \<Longrightarrow> talk_step s s'"
| ts_status: "dispatchStatus i a now tok s = Inr (x13, s') \<Longrightarrow> talk_step s s'"
| ts_lease: "leaseDispatch ids i a now s = Inr (x14, s') \<Longrightarrow> talk_step s s'"
| ts_report: "reportDispatch i rep a now s = Inr (x15, s') \<Longrightarrow> talk_step s s'"
| ts_resume: "resumeDelivery i d a now s = Inr (x4, s') \<Longrightarrow> talk_step s s'"
| ts_elsewhere: "db_talk s' = db_talk s \<Longrightarrow> talk_step s s'"

section \<open>Mailboxes\<close>

lemma moved_frame:
  assumes "\<And>P. tx_inv (\<lambda>s. P (mailboxes s)) m" and "m s = Inr (a, s')"
  shows "moves s s'"
  by (simp add: moves_def mailboxes_frameD [OF assms])

lemmas mail_writes = set_room_def set_delivery_def set_outbox_def rearm_def quiet_outbox_def
  insert_room_def insert_member_def insert_dispatch_def insert_delivery_def take_seq_def

lemma mail_create: "createRoom h room a now s = Inr (x, s') \<Longrightarrow> moves s s'"
  by (erule moved_frame [rotated], unfold createRoom_def mail_writes) (intro tx_wp)

lemma mail_member: "setMember h i mem wake a erv idr now s = Inr (x, s') \<Longrightarrow> moves s s'"
  by (erule moved_frame [rotated], unfold setMember_def mail_writes) (intro tx_wp)

lemma mail_update: "updateRoom h i updr a idr now s = Inr (x, s') \<Longrightarrow> moves s s'"
  by (erule moved_frame [rotated], unfold updateRoom_def mail_writes) (intro tx_wp)

lemma mail_archived: "setArchived h i arch rv a idr now s = Inr (x, s') \<Longrightarrow> moves s s'"
  by (erule moved_frame [rotated], unfold setArchived_def mail_writes) (intro tx_wp)

lemma mail_thread: "createThread i t title a now s = Inr (x, s') \<Longrightarrow> moves s s'"
  by (erule moved_frame [rotated], unfold createThread_def mail_writes Let_def) (intro tx_wp)

lemma mail_generation: "cursorGeneration g s = Inr (x, s') \<Longrightarrow> moves s s'"
  by (erule moved_frame [rotated]) (rule mailboxes_generation)

lemma mailboxes_deliver_one [tx_wp]: "tx_inv (\<lambda>s. P (mailboxes s)) (deliver_one w room author now x)"
  unfolding deliver_one_def mail_writes
  by (intro tx_wp) (auto intro!: tx_wp)

lemma mail_publish: "publish h ids sha i msg a now s = Inr (x, s') \<Longrightarrow> moves s s'"
  by (erule moved_frame [rotated], unfold publish_def publish_new_def mail_writes Let_def) (intro tx_wp)

lemma mailboxes_expire_deliveries [tx_wp]: "tx_inv (\<lambda>s. P (mailboxes s)) (expireDeliveries now)"
  unfolding expireDeliveries_def by (intro tx_wp)

lemma mail_expire: "expireDeliveries now s = Inr (x, s') \<Longrightarrow> moves s s'"
  by (erule moved_frame [rotated]) (rule mailboxes_expire_deliveries)

lemma moved_renew_lease: "tx_inv (moved v) (renew_lease b a now)"
  unfolding renew_lease_def by (intro tx_wp moved_renew) simp_all

lemma mail_fetch: "fetchInbox i a limit after now s = Inr (x, s') \<Longrightarrow> moves s s'"
  by (erule movesI [rotated], unfold fetchInbox_def mail_writes Let_def)
    (intro tx_wp moved_renew_lease; auto split: list.split intro!: tx_wp)

lemma mail_ack: "acknowledge h i d ack a now s = Inr (x, s') \<Longrightarrow> moves s s'"
  by (erule moved_frame [rotated], unfold acknowledge_def mail_writes) (intro tx_wp)

lemma mail_version: "inboxVersion g i a now s = Inr (x, s') \<Longrightarrow> moves s s'"
  by (erule moved_frame [rotated], unfold inboxVersion_def) (intro tx_wp)

lemma mail_status: "dispatchStatus i a now tok s = Inr (x, s') \<Longrightarrow> moves s s'"
  by (erule moved_frame [rotated], unfold dispatchStatus_def) (intro tx_wp)

lemma mail_lease: "leaseDispatch ids i a now s = Inr (x, s') \<Longrightarrow> moves s s'"
  by (erule moved_frame [rotated], unfold leaseDispatch_def grant_lease_def mail_writes Let_def)
    (intro tx_wp; auto split: prod.split intro!: tx_wp)

lemma mail_report: "reportDispatch i rep a now s = Inr (x, s') \<Longrightarrow> moves s s'"
  by (erule moved_frame [rotated], unfold reportDispatch_def mail_writes) (intro tx_wp)

lemma mail_resume: "resumeDelivery i d a now s = Inr (x, s') \<Longrightarrow> moves s s'"
  by (erule moved_frame [rotated], unfold resumeDelivery_def mail_writes) (intro tx_wp)

lemma elsewhere_moves: "db_talk s' = db_talk s \<Longrightarrow> moves s s'"
  by (simp add: moves_def mailboxes_def)

lemmas mail_moves = elsewhere_moves register_moves update_moves archive_moves unarchive_moves attach_moves release_moves
  expire_moves preserve_moves restore_moves mail_create mail_member mail_update mail_archived mail_thread
  mail_generation mail_publish mail_expire mail_fetch mail_ack mail_version mail_status mail_lease mail_report
  mail_resume

theorem talk_refines_mailbox:
  assumes "talk_step s s'" and "mailbox_inv (mailboxes s)"
  shows "mailbox_step\<^sup>*\<^sup>* (mailboxes s) (mailboxes s')"
  using assms unfolding moves_def [symmetric] by cases (blast intro: mail_moves)+

section \<open>Operations that publish nothing\<close>

abbreviation silent :: "'a ptx \<Rightarrow> bool" where
  "silent m \<equiv> \<forall>P. tx_inv (\<lambda>s. P (post s)) m"

lemma silent_register: "silent (agent_register h reg au now)"
  unfolding agent_register_def post_writes by (intro allI tx_wp)

lemma silent_update: "silent (agent_update h i upd au ida now)"
  unfolding agent_update_def post_writes by (intro allI tx_wp)

lemma silent_archive: "silent (agent_archive h i rv ev au idx now)"
  unfolding agent_archive_def post_writes by (intro allI tx_wp)

lemma silent_unarchive: "silent (agent_unarchive h i rv au ida now)"
  unfolding agent_unarchive_def post_writes by (intro allI tx_wp)

lemma silent_attach: "silent (agent_attach h i att au now)"
  unfolding agent_attach_def replace_binding_def renew_binding_def post_writes Let_def by (intro allI tx_wp)

lemma silent_release: "silent (agent_release i ep au now)"
  unfolding agent_release_def post_writes by (intro allI tx_wp)

lemma silent_expire: "silent (agent_expire gone now)"
  unfolding agent_expire_def post_writes by (intro allI tx_wp)

lemma silent_restore: "silent (invalidateRestoredBindings g now)"
  unfolding invalidateRestoredBindings_def refreshRestoredRevisions_def post_writes
  by (intro allI tx_wp)

lemma silent_member: "silent (setMember h i mem wake a erv idr now)"
  unfolding setMember_def by (intro allI tx_wp post_set_room) simp_all

lemma silent_update_room: "silent (updateRoom h i updr a idr now)"
  unfolding updateRoom_def by (intro allI tx_wp post_set_room) (simp add: apply_settings_def)

lemma silent_archived: "silent (setArchived h i arch rv a idr now)"
  unfolding setArchived_def by (intro allI tx_wp post_set_room) simp_all

lemma silent_thread: "silent (createThread i t title a now)"
  unfolding createThread_def Let_def by (intro allI tx_wp)

lemma silent_version: "silent (inboxVersion g i a now)"
  unfolding inboxVersion_def by (intro allI tx_wp)

lemma silent_report: "silent (reportDispatch i rep a now)"
  unfolding reportDispatch_def post_writes by (intro allI tx_wp)

lemmas silent_operations = silent_register silent_update silent_archive silent_unarchive silent_attach
  silent_release silent_expire silent_restore silent_member silent_update_room silent_archived silent_thread
  silent_version silent_report

section \<open>Deliveries settle once\<close>

text \<open>What is settled about a delivery: its addressee, and how it ended.\<close>

type_synonym settlement = "string \<times> string \<times> recipient_state \<times> int option \<times> string option \<times> int option
  \<times> disposition option"

definition settlement :: "recipient_row \<Rightarrow> settlement" where
  "settlement d = (mr_message_id d, mr_agent_id d, mr_state d, mr_acked_at d, mr_acked_binding_id d,
     mr_acked_epoch d, mr_disposition d)"

definition settled_delivery :: "settlement \<Rightarrow> bool" where
  "settled_delivery r \<longleftrightarrow> fst (snd (snd r)) \<noteq> R_pending"

definition delivered :: "db \<Rightarrow> string \<Rightarrow> settlement option" where
  "delivered s k = map_option settlement (by_key mr_id k (deliveries s))"

lemma settlement_simps [simp]:
  "settlement (mark_fetched b now d) = settlement d" "mr_id (mark_fetched b now d) = mr_id d"
  "mr_id (mark_acked b v now d) = mr_id d"
  "settlement (d\<lparr>mr_wake_suppressed := x\<rparr>) = settlement d" "settlement (d\<lparr>mr_rewakes := y\<rparr>) = settlement d"
  by (simp_all add: settlement_def mark_fetched_def mark_acked_def)

text \<open>The interface between the table of deliveries and what is proved about it: a law is kept by
  updates that leave identities and settled rows alone, and by inserting a row with a new id.
  Every operation writes in these two ways only.\<close>

locale delivery_law =
  fixes law :: "recipient_row list \<Rightarrow> bool"
  assumes update: "law ds \<Longrightarrow> (\<And>d. mr_id (f d) = mr_id d)
      \<Longrightarrow> (\<And>d. P d \<Longrightarrow> mr_state d \<noteq> R_pending \<Longrightarrow> settlement (f d) = settlement d)
      \<Longrightarrow> law (rows_set P f ds)"
    and insert: "law ds \<Longrightarrow> mr_id d \<notin> mr_id ` set ds \<Longrightarrow> law (ds @ [d])"
begin

definition holds :: "db \<Rightarrow> bool" where
  "holds s \<longleftrightarrow> law (deliveries s)"

lemma holds_post: "holds s \<longleftrightarrow> law (snd (snd (post s)))"
  by (simp add: holds_def post_def)

lemma frame: "(\<And>P. tx_inv (\<lambda>s. P (post s)) m) \<Longrightarrow> tx_inv holds m"
  unfolding holds_post .

lemma silent: "silent m \<Longrightarrow> tx_inv holds m"
  unfolding holds_post by (erule allE)

lemma set_rows:
  assumes "\<And>d. mr_id (f d) = mr_id d" and "\<And>d. P d \<Longrightarrow> mr_state d \<noteq> R_pending \<Longrightarrow> settlement (f d) = settlement d"
  shows "tx_inv holds (write_deliveries (rows_set P f))"
  unfolding write_deliveries_def using assms by (intro tx_inv_write) (simp add: holds_def update)

lemma set_row:
  assumes "\<And>d. mr_id (f d) = mr_id d" and "\<And>d. settlement (f d) = settlement d"
  shows "tx_inv holds (set_delivery i f)"
  unfolding set_delivery_def by (rule set_rows) (simp_all add: assms)

lemma insert_row: "tx_inv holds (insert_delivery d)"
  unfolding insert_delivery_def write_deliveries_def tx_valid_def
  by (auto simp: tx_run holds_def list_ex_iff intro!: insert)

lemma rooms: "tx_inv holds (write_rooms f)"
  unfolding write_rooms_def by (intro tx_inv_write) (simp add: holds_def)

lemma message: "tx_inv holds (insert_message w)"
  unfolding insert_message_def by (intro tx_wp tx_inv_write) (simp add: holds_def)

lemmas frames = frame [OF post_open_context] frame [OF post_write_dispatches]
  frame [OF post_write_outbox] frame [OF post_journal]

lemma create: "tx_inv holds (createRoom h room a now)"
  unfolding createRoom_def insert_room_def insert_member_def
  by (intro tx_wp rooms frame; intro tx_wp)

lemma deliver: "tx_inv holds (deliver_one w room author now x)"
  unfolding deliver_one_def rearm_def by (intro tx_wp insert_row frame; intro tx_wp)

lemma publication: "tx_inv holds (publish h ids sha i msg a now)"
  unfolding publish_def publish_new_def take_seq_def set_room_def Let_def
  by (intro tx_wp rooms message deliver frame; intro tx_wp)

lemma expiry: "tx_inv holds (expireDeliveries now)"
  unfolding expireDeliveries_def by (intro tx_wp set_rows) (auto simp: lapsed_def)

lemma renewal: "tx_inv holds (renew_lease b a now)"
  unfolding renew_lease_def set_binding_def by (rule frame) (intro tx_wp)

lemma fetch: "tx_inv holds (fetchInbox i a limit after now)"
  unfolding fetchInbox_def Let_def
  by (intro tx_wp expiry renewal; auto split: list.split prod.split intro!: tx_wp set_row frames)

lemma ack: "tx_inv holds (acknowledge h i d ack a now)"
  unfolding acknowledge_def quiet_outbox_def set_outbox_def
  by (intro tx_wp set_rows frames) (auto simp: holds_def)

lemma status: "tx_inv holds (dispatchStatus i a now tok)"
  unfolding dispatchStatus_def by (intro tx_wp expiry)

lemma quiet: "tx_inv holds (quiet_outbox i now)"
  unfolding quiet_outbox_def set_outbox_def by (rule frame) (intro tx_wp)

lemma grant: "tx_inv holds (grant_lease ids i b ob eligible now)"
  unfolding grant_lease_def insert_dispatch_def set_outbox_def
  by (intro tx_wp set_rows frames) (auto simp: settlement_def)

lemma lease: "tx_inv holds (leaseDispatch ids i a now)"
  unfolding leaseDispatch_def Let_def
  by (intro tx_wp expiry quiet; auto split: prod.split intro!: tx_wp set_row quiet grant)

lemma resume: "tx_inv holds (resumeDelivery i d a now)"
  unfolding resumeDelivery_def rearm_def
  by (intro tx_wp set_row; auto simp: settlement_def intro!: tx_wp frames)

lemmas operations = silent_operations [THEN silent] create publication expiry fetch ack status lease resume
  frame [OF post_generation] frame [OF post_preserve]

lemma step:
  assumes "talk_step s s'" "law (deliveries s)"
  shows "law (deliveries s')"
proof -
  have "holds s" using assms(2) by (simp add: holds_def)
  with assms(1) have "holds s'"
  proof cases
    case ts_elsewhere
    with \<open>holds s\<close> show ?thesis by (simp add: holds_def)
  qed (erule tx_validD [of holds _ "\<lambda>_. holds", rotated -1]; blast intro: operations)+
  then show ?thesis by (simp add: holds_def)
qed

lemma steps: "talk_step\<^sup>*\<^sup>* s s' \<Longrightarrow> law (deliveries s) \<Longrightarrow> law (deliveries s')"
  by (induction rule: rtranclp_induct) (auto intro: step)

end

text \<open>Two laws: ids are unique, and a settled delivery stays as it is.\<close>

interpretation unique: delivery_law "\<lambda>ds. distinct (map mr_id ds)"
  by unfold_locales (simp_all add: map_rows_set)

lemma settled_law:
  assumes "settled_delivery r" "map_option settlement (by_key mr_id k ds) = Some r"
    and "\<And>d. mr_id (f d) = mr_id d" "\<And>d. P d \<Longrightarrow> mr_state d \<noteq> R_pending \<Longrightarrow> settlement (f d) = settlement d"
  shows "map_option settlement (by_key mr_id k (rows_set P f ds)) = Some r"
proof -
  from assms(2) obtain d where d: "by_key mr_id k ds = Some d" "settlement d = r" by auto
  with assms(1) have "mr_state d \<noteq> R_pending" by (auto simp: settled_delivery_def settlement_def)
  with d assms(3,4) show ?thesis by (simp add: by_key_set)
qed

interpretation settled: delivery_law
    "\<lambda>ds. settled_delivery r \<longrightarrow> map_option settlement (by_key mr_id k ds) = Some r" for r k
proof unfold_locales
  fix ds :: "recipient_row list" and f :: "recipient_row \<Rightarrow> recipient_row" and P
  assume law: "settled_delivery r \<longrightarrow> map_option settlement (by_key mr_id k ds) = Some r"
    and keep: "\<And>d. mr_id (f d) = mr_id d" "\<And>d. P d \<Longrightarrow> mr_state d \<noteq> R_pending \<Longrightarrow> settlement (f d) = settlement d"
  show "settled_delivery r \<longrightarrow> map_option settlement (by_key mr_id k (rows_set P f ds)) = Some r"
    using law by (intro impI settled_law keep) auto
qed (auto simp: by_key_append)

interpretation delivery: settled_records talk_step "\<lambda>_. True" delivered settled_delivery
  by unfold_locales (auto simp: delivered_def dest: settled.step)

section \<open>Messages are numbered without gaps and kept\<close>

type_synonym log = "message_row list \<times> (string \<times> int) list"

definition log_of :: "db \<Rightarrow> log" where
  "log_of s = (messages s, map (\<lambda>r. (ro_id r, ro_next_seq r)) (rooms s))"

lemma log_post: "log_of s = (fst (post s), fst (snd (post s)))"
  by (simp add: log_of_def post_def)

lemma log_frame: "(\<And>P. tx_inv (\<lambda>s. P (post s)) m) \<Longrightarrow> tx_inv (\<lambda>s. P (log_of s)) m"
  unfolding log_post .

lemma log_silent: "silent m \<Longrightarrow> tx_inv (\<lambda>s. P (log_of s)) m"
  unfolding log_post by (erule allE)

lemma log_deliveries: "tx_inv (\<lambda>s. P (log_of s)) (write_deliveries f)"
  unfolding write_deliveries_def by (intro tx_inv_write) (simp add: log_of_def)

lemma log_insert_delivery: "tx_inv (\<lambda>s. P (log_of s)) (insert_delivery d)"
  unfolding insert_delivery_def by (auto split: prod.split intro!: tx_wp log_deliveries)

lemmas log_frames = log_frame [OF post_open_context] log_frame [OF post_write_dispatches]
  log_frame [OF post_write_outbox] log_frame [OF post_journal] log_frame [OF post_write_bindings]
  log_deliveries log_insert_delivery

abbreviation unlogged :: "'a ptx \<Rightarrow> bool" where
  "unlogged m \<equiv> \<forall>P. tx_inv (\<lambda>s. P (log_of s)) m"

lemma log_deliver: "unlogged (deliver_one w room author now x)"
  unfolding deliver_one_def rearm_def by (intro allI tx_wp log_frames)

lemma log_expire: "unlogged (expireDeliveries now)"
  unfolding expireDeliveries_def by (intro allI tx_wp log_frames)

lemma log_quiet: "unlogged (quiet_outbox i now)"
  unfolding quiet_outbox_def set_outbox_def by (intro allI tx_wp log_frames)

lemma log_set_delivery: "unlogged (set_delivery i f)"
  unfolding set_delivery_def by (intro allI tx_wp log_frames)

lemma log_fetch: "unlogged (fetchInbox i a limit after now)"
  unfolding fetchInbox_def renew_lease_def set_binding_def Let_def
  by (intro allI tx_wp log_expire [THEN spec] log_frames; auto split: list.split prod.split
    intro!: tx_wp log_set_delivery [THEN spec] log_frames)

lemma log_ack: "unlogged (acknowledge h i d ack a now)"
  unfolding acknowledge_def
  by (intro allI tx_wp log_quiet [THEN spec] log_frames) (simp_all add: log_of_def)

lemma log_status: "unlogged (dispatchStatus i a now tok)"
  unfolding dispatchStatus_def by (intro allI tx_wp log_expire [THEN spec])

lemma log_lease: "unlogged (leaseDispatch ids i a now)"
  unfolding leaseDispatch_def grant_lease_def insert_dispatch_def set_outbox_def Let_def
  by (intro allI tx_wp log_expire [THEN spec] log_quiet [THEN spec]; auto split: prod.split
    intro!: tx_wp log_set_delivery [THEN spec] log_quiet [THEN spec] log_frames)

lemma log_resume: "unlogged (resumeDelivery i d a now)"
  unfolding resumeDelivery_def rearm_def by (intro allI tx_wp log_set_delivery [THEN spec] log_frames)

text \<open>What creating a room and publishing do to the log.\<close>

definition count_up :: "string \<Rightarrow> (string \<times> int) list \<Rightarrow> (string \<times> int) list" where
  "count_up i = map (\<lambda>p. if fst p = i then (i, snd p + 1) else p)"

lemma create_log:
  assumes "createRoom h room a now s = Inr (x, s')"
  shows "log_of s' = log_of s \<or> (cr_id room \<notin> ro_id ` set (rooms s)
    \<and> log_of s' = (messages s, snd (log_of s) @ [(cr_id room, 0)]))"
proof (cases "by_key ro_id (cr_id room) (rooms s)")
  case (Some r)
  with assms have "s' = s"
    by (auto simp: createRoom_def requireRoomManage_def bodyAccess_def tx_run split: if_splits)
  then show ?thesis by simp
next
  case None
  with assms obtain v s1 s2 s3 s4 row where
    1: "nextRevision s = Inr (v, s1)" and 2: "insert_room row s1 = Inr ((), s2)"
    and row: "ro_id row = cr_id room" "ro_next_seq row = 0"
    and 3: "roomEvent h ''room.created'' (cr_id room) a [(''revision'', JNum v)] s2 = Inr ((), s3)"
    and 4: "insert_member \<lparr>rk_room_id = cr_id room, rk_member = memberKey a, rk_wake = False,
      rk_joined_at = now\<rparr> s3 = Inr ((), s4)"
    and 5: "roomAccess (cr_id room) a False s4 = Inr (x, s')"
    by (auto simp: createRoom_def requireRoomManage_def bodyAccess_def tx_run)
  have l1: "log_of s1 = log_of s"
    using tx_validD [OF log_frame [OF post_nextRevision, of "\<lambda>l. l = log_of s"] refl 1] .
  have l2: "log_of s2 = (fst (log_of s1), snd (log_of s1) @ [(cr_id room, 0)])"
    using 2 row by (auto simp: insert_room_def write_rooms_def tx_run log_of_def)
  have l3: "log_of s3 = log_of s2"
    using tx_validD [OF log_frame [OF post_roomEvent, of "\<lambda>l. l = log_of s2"] refl 3] .
  have "tx_inv (\<lambda>s. log_of s = log_of s3) (insert_member m)" for m
    unfolding insert_member_def by (intro tx_wp log_frame [of _ "\<lambda>l. l = log_of s3", OF post_write_members])
  from tx_validD [OF this refl 4] have l4: "log_of s4 = log_of s3" .
  have l5: "log_of s' = log_of s4"
    using tx_validD [OF read_roomAccess [of "\<lambda>s. log_of s = log_of s4"] refl 5] .
  from None l1 l2 l3 l4 l5 show ?thesis by (simp add: by_key_None log_of_def)
qed

lemma take_seq_log:
  assumes "take_seq i now s = Inr (sq, s')"
  shows "log_of s' = (messages s, count_up i (snd (log_of s)))"
    and "\<exists>r. by_key ro_id i (rooms s) = Some r \<and> sq = ro_next_seq r + 1"
    and "deliveries s' = deliveries s" and "agents s' = agents s"
  using assms
  by (auto simp: take_seq_def set_room_def write_rooms_def tx_run log_of_def count_up_def rows_set_map
    by_key_map dest: by_key_Some split: option.splits)

lemma roomAccess_ok: "roomAccess i a writes s = Inr (r, s') \<Longrightarrow> s' = s \<and> by_key ro_id i (rooms s) = Some r
    \<and> \<not> (writes \<and> ro_archived r)"
  by (auto simp: roomAccess_def bodyAccess_def tx_run split: option.splits if_splits)

lemma publish_new_log:
  assumes "publish_new h ids hash i msg a now s = Inr (m, s')"
  obtains r w where "by_key ro_id i (rooms s) = Some r" "\<not> ro_archived r"
    "log_of s' = (messages s @ [w], count_up i (snd (log_of s)))"
    "mw_message w = m" "mw_author_key w = author_key a" "mw_request_hash w = hash"
    "me_room_id m = i" "me_seq m = ro_next_seq r + 1" "me_client_op_id m = pm_client_op_id msg"
    "me_id m = ids 0" "me_body m = pm_body msg"
proof -
  from assms obtain author s1 r s2 u s3 v s4 parent sq s5 w s6 xs s7 s8 where
    1: "caller_binding a now s = Inr (author, s1)" and 2: "roomAccess i a True s1 = Inr (r, s2)"
    and 3: "thread_in_room i (pm_thread_id msg) s2 = Inr (u, s3)"
    and 4: "tx_for (pm_artifact_refs msg) artifact_present s3 = Inr (v, s4)"
    and 5: "take_seq i now s4 = Inr (sq, s5)"
    and w: "w = \<lparr>mw_ordinal = next_ordinal s5, mw_author_key = author_key a, mw_request_hash = hash,
      mw_message = compose (ids 0) i sq msg a author parent now, mw_author_agent = map_option ab_agent_id author\<rparr>"
    and 6: "insert_message w s5 = Inr ((), s6)"
    and 7: "tx_for (zip (map (ids \<circ> Suc) [0..<length xs]) xs) (deliver_one w r author now) s6 = Inr ((), s7)"
    and 8: "appendJournal h ''conversation.published'' (''room:'' @ i) (conversation_origin a) None
       [(''message_id'', JStr (ids 0)), (''room_id'', JStr i), (''seq'', JNum sq)] s7 = Inr ((), s8)"
    and m: "m = mw_message w" "s' = s8"
    by (auto simp: publish_new_def tx_run Let_def)
  have s1: "s1 = s" using tx_validD [OF read_caller_binding [of "\<lambda>t. t = s"] refl 1] .
  from roomAccess_ok [OF 2] s1 have s2: "s2 = s" and r: "by_key ro_id i (rooms s) = Some r" "\<not> ro_archived r"
    by auto
  have s3: "s3 = s" using tx_validD [OF read_thread_in_room [of "\<lambda>t. t = s"] _ 3] s2 by simp
  have s4: "s4 = s"
    using tx_validD [OF tx_inv_for [of "\<lambda>t. t = s", OF read_artifact_present] _ 4] s3 by simp
  note 5 = take_seq_log [OF 5 [unfolded s4]]
  from 5(2) r have sq: "sq = ro_next_seq r + 1" by auto
  from 6 5(1) have l6: "log_of s6 = (messages s @ [w], count_up i (snd (log_of s)))"
    by (auto simp: insert_message_def tx_run log_of_def)
  have l7: "log_of s7 = log_of s6"
    using tx_validD [OF tx_inv_for [of "\<lambda>t. log_of t = log_of s6", OF spec [OF log_deliver]] refl 7] .
  have l8: "log_of s8 = log_of s7"
    using tx_validD [OF log_frame [OF post_journal, of "\<lambda>l. l = log_of s7"] refl 8] .
  show thesis
    by (rule that [of r w]) (use r l6 l7 l8 m sq in \<open>auto simp: w compose_def\<close>)
qed

lemma publish_cases:
  assumes "publish h ids sha i msg a now s = Inr ((m, replayed), s')"
  obtains w where "replayed" "s' = s" "published_by s (author_key a) (pm_client_op_id msg) = Some w"
    "mw_request_hash w = hashRequest sha i msg" "m = mw_message w"
  | "\<not> replayed" "published_by s (author_key a) (pm_client_op_id msg) = None"
    "publish_new h ids (hashRequest sha i msg) i msg a now s = Inr (m, s')"
proof (cases "published_by s (author_key a) (pm_client_op_id msg)")
  case (Some w)
  with assms obtain r s1 b where 1: "roomAccess i a True s = Inr (r, s1)" "caller_binding a now s1 = Inr (b, s')"
    and w: "mw_request_hash w = hashRequest sha i msg" "m = mw_message w" "replayed"
    by (auto simp: publish_def bodyAccess_def tx_run Let_def)
  have "s' = s1" using tx_validD [OF read_caller_binding [of "\<lambda>t. t = s1"] refl 1(2)] .
  with roomAccess_ok [OF 1(1)] Some w that(1) show ?thesis by simp
next
  case None
  with assms that(2) show ?thesis by (auto simp: publish_def bodyAccess_def tx_run Let_def)
qed

section \<open>The numbering invariant\<close>

definition room_messages :: "message_row list \<Rightarrow> string \<Rightarrow> message_row list" where
  "room_messages ms i = filter (\<lambda>w. me_room_id (mw_message w) = i) ms"

definition numbered :: "log \<Rightarrow> bool" where
  "numbered l \<longleftrightarrow> distinct (map fst (snd l))
     \<and> (\<forall>w \<in> set (fst l). me_room_id (mw_message w) \<in> fst ` set (snd l))
     \<and> (\<forall>p \<in> set (snd l). 0 \<le> snd p
          \<and> map (me_seq \<circ> mw_message) (room_messages (fst l) (fst p)) = [1..snd p])"

lemma count_up_fst: "map fst (count_up i rs) = map fst rs"
  by (auto simp: count_up_def)

lemma numbered_create:
  assumes "numbered (ms, rs)" and "i \<notin> fst ` set rs"
  shows "numbered (ms, rs @ [(i, 0)])"
proof -
  have "room_messages ms i = []"
    using assms by (auto simp: numbered_def room_messages_def filter_empty_conv)
  with assms show ?thesis by (auto simp: numbered_def)
qed

lemma numbered_publish:
  assumes inv: "numbered (ms, rs)" and room: "(i, n) \<in> set rs"
    and w: "me_room_id (mw_message w) = i" "me_seq (mw_message w) = n + 1"
  shows "numbered (ms @ [w], count_up i rs)"
proof -
  have d: "distinct (map fst rs)" using inv by (simp add: numbered_def)
  have "0 \<le> snd p \<and> map (me_seq \<circ> mw_message) (room_messages (ms @ [w]) (fst p)) = [1..snd p]"
    if p: "p \<in> set (count_up i rs)" for p
  proof -
    from p have "p \<in> (\<lambda>p. if fst p = i then (i, snd p + 1) else p) ` set rs" by (simp add: count_up_def)
    then obtain q where q: "q \<in> set rs" "p = (if fst q = i then (i, snd q + 1) else q)" by (rule imageE)
    have old: "0 \<le> snd q" "map (me_seq \<circ> mw_message) (room_messages ms (fst q)) = [1..snd q]"
      using inv q(1) by (auto simp: numbered_def)
    show ?thesis
    proof (cases "fst q = i")
      case True
      with distinct_map_eq [OF d q(1) room] have "q = (i, n)" by simp
      with old q(2) w show ?thesis by (simp add: room_messages_def upto_rec2)
    next
      case False
      with old q(2) w show ?thesis by (simp add: room_messages_def)
    qed
  qed
  moreover have "distinct (map fst (count_up i rs))" unfolding count_up_fst by (rule d)
  moreover have "fst ` set (count_up i rs) = fst ` set rs"
    using arg_cong [OF count_up_fst [of i rs], of set] by simp
  moreover have "i \<in> fst ` set rs" using room by force
  ultimately show ?thesis using inv w by (auto simp: numbered_def)
qed

text \<open>Every step keeps the numbering and every message already published.\<close>

definition extends :: "message_row list \<Rightarrow> db \<Rightarrow> bool" where
  "extends ms s \<longleftrightarrow> (\<exists>xs. messages s = ms @ xs)"

lemma log_unchanged:
  assumes "unlogged m" and "m s = Inr (x, s')"
  shows "log_of s' = log_of s"
  using tx_validD [OF assms(1) [THEN spec, of "\<lambda>l. l = log_of s"] refl assms(2)] .

lemma unlogged_silent: "silent m \<Longrightarrow> unlogged m"
  unfolding log_post by (rule allI) (erule allE)

lemma unlogged_generation: "unlogged (cursorGeneration g)"
  by (rule unlogged_silent) (rule allI, rule post_generation)

lemma unlogged_preserve: "unlogged preserveRestoreEpochs"
  by (rule unlogged_silent) (rule allI, rule post_preserve)

lemmas unlogged_operations = silent_operations [THEN unlogged_silent] unlogged_generation unlogged_preserve
  log_expire log_fetch log_ack log_status log_lease log_resume

lemma log_step:
  assumes "talk_step s s'"
  obtains "log_of s' = log_of s"
  | i where "i \<notin> fst ` set (snd (log_of s))" "log_of s' = (messages s, snd (log_of s) @ [(i, 0)])"
  | i n w where "(i, n) \<in> set (snd (log_of s))" "me_room_id (mw_message w) = i" "me_seq (mw_message w) = n + 1"
      "log_of s' = (messages s @ [w], count_up i (snd (log_of s)))"
  using assms
proof cases
  case (ts_create_room h room a now x5)
  then show ?thesis
    using create_log [OF ts_create_room] that(1,2) by (auto simp: log_of_def image_image)
next
  case ts_elsewhere
  then show ?thesis by (intro that(1)) (simp add: log_of_def)
next
  case (ts_publish h ids sha i msg a now x8)
  obtain m b where "x8 = (m, b)" by (cases x8)
  from ts_publish [unfolded this] show ?thesis
  proof (cases rule: publish_cases)
    case 1
    then show ?thesis by (intro that(1)) simp
  next
    case 2
    from 2(3) obtain r w where r: "by_key ro_id i (rooms s) = Some r"
      and w: "log_of s' = (messages s @ [w], count_up i (snd (log_of s)))" "mw_message w = m"
        "me_room_id m = i" "me_seq m = ro_next_seq r + 1"
      by (rule publish_new_log)
    have "(i, ro_next_seq r) \<in> set (snd (log_of s))" using by_key_Some [OF r] by (force simp: log_of_def)
    then show ?thesis by (rule that(3)) (use w in simp_all)
  qed
qed (rule that(1), erule log_unchanged [rotated], rule unlogged_operations)+

theorem numbered_step:
  assumes "talk_step s s'" and "numbered (log_of s)"
  shows "numbered (log_of s')"
  using assms(1)
proof (cases rule: log_step)
  case (2 i)
  with numbered_create [of "messages s" "snd (log_of s)" i] assms(2) show ?thesis by (simp add: log_of_def)
next
  case (3 i n w)
  with numbered_publish [of "messages s" "snd (log_of s)" i n w] assms(2) show ?thesis by (simp add: log_of_def)
qed (use assms(2) in simp)

lemma messages_kept:
  assumes "talk_step s s'" and "extends ms s"
  shows "extends ms s'"
  using assms(1)
  by (cases rule: log_step) (use assms(2) in \<open>auto simp: log_of_def extends_def\<close>)

lemma messages_kept_steps: "talk_step\<^sup>*\<^sup>* s s' \<Longrightarrow> extends ms s \<Longrightarrow> extends ms s'"
  by (induction rule: rtranclp_induct) (auto intro: messages_kept)

lemma mail_inv_steps: "talk_step\<^sup>*\<^sup>* s t \<Longrightarrow> mailbox_inv (mailboxes s) \<Longrightarrow>
    mailbox_step\<^sup>*\<^sup>* (mailboxes s) (mailboxes t) \<and> mailbox_inv (mailboxes t)"
proof (induction rule: rtranclp_induct)
  case (step t u)
  then have t: "mailbox_step\<^sup>*\<^sup>* (mailboxes s) (mailboxes t)" "mailbox_inv (mailboxes t)" by auto
  from talk_refines_mailbox [OF step.hyps(2) t(2)]
  have "mailbox_step\<^sup>*\<^sup>* (mailboxes t) (mailboxes u)" .
  with t mailbox.inv_steps [OF this t(2)] show ?case by (meson rtranclp_trans)
qed simp

end
