(* ===== verification/Talk_Samples.thy ===== *)
theory Talk_Samples
  imports Talk
begin

text \<open>
  A small project for concrete runs of \<open>Talk\<close>: two agents in one room, and the authorities that act
  on them. Runs are evaluated by the simplifier on the code equations.
\<close>

section \<open>Running an operation\<close>

definition result_of :: "'a ptx \<Rightarrow> db \<Rightarrow> 'a" where
  "result_of m s = fst (projr (m s))"

definition after :: "'a ptx \<Rightarrow> db \<Rightarrow> db" where
  "after m s = snd (projr (m s))"

definition ran :: "'a ptx \<Rightarrow> db \<Rightarrow> bool" where
  "ran m s \<longleftrightarrow> \<not> isl (m s)"

lemma runs: "ran m s \<Longrightarrow> m s = Inr (result_of m s, after m s)"
  by (cases "m s") (simp_all add: result_of_def after_def ran_def)

lemma runs2: "ran m s \<Longrightarrow> m s = Inr ((fst (result_of m s), snd (result_of m s)), after m s)"
  by (simp add: runs)

lemma runs3: "ran m s \<Longrightarrow> m s = Inr ((fst (result_of m s), fst (snd (result_of m s)), snd (snd (result_of m s))), after m s)"
  by (simp add: runs)

section \<open>The project\<close>

definition talk_agent :: "string \<Rightarrow> int \<Rightarrow> agent_row" where
  "talk_agent i epoch = \<lparr>ag_id = i, ag_name = i, ag_owner_principal_id = ''o'',
     ag_bind_policy = [\<lparr>bg_principal_id = ''p'', bg_agent_id = i\<rparr>], ag_binding_epoch = epoch,
     ag_archived = False, ag_revision = 2, ag_profile_selection = None, ag_created_at = 0, ag_updated_at = 0\<rparr>"

definition talk_attachment :: attachment where
  "talk_attachment = \<lparr>at_harness = ''h'', at_native_session_ref = None, at_profile = None,
     at_capability_report = \<lparr>cr_adapter_version = ''1'', cr_harness_version = None, cr_runtime_version = None,
       cr_capabilities = []\<rparr>, at_mechanism = M_native_queue, at_attended = True, at_allow_idle_start = True\<rparr>"

definition talk_run :: "string \<Rightarrow> string \<Rightarrow> run_role \<Rightarrow> runtime_identity" where
  "talk_run i run role = \<lparr>rt_run_id = run, rt_agent_id = Some i, rt_run_role = role, rt_principal_id = ''p'',
     rt_participant_id = ''p'', rt_enrollment_id = Some ''e'', rt_workload_binding_id = None,
     rt_lease_expires_at = 1000\<rparr>"

definition talk_binding :: "string \<Rightarrow> string \<Rightarrow> string \<Rightarrow> int \<Rightarrow> binding_state \<Rightarrow> agent_binding" where
  "talk_binding k i run epoch st = \<lparr>ab_consumer_binding_id = k, ab_agent_id = i, ab_run_id = run,
     ab_binding_epoch = epoch, ab_enrollment_id = Some ''e'', ab_workload_binding_id = None,
     ab_principal_id = ''p'', ab_participant_id = ''p'', ab_state = st, ab_attachment = talk_attachment,
     ab_lease_expires_at = 1000, ab_created_at = 0, ab_updated_at = 0\<rparr>"

definition talk_room :: room_row where
  "talk_room = \<lparr>ro_id = ''r'', ro_name = ''r'', ro_history_policy = H_members, ro_delivery_ttl_seconds = 60,
     ro_budgets = \<lparr>rb_max_hops = 8, rb_pair_exchanges = 10, rb_agent_wakes = 20, rb_room_wakes = 60\<rparr>,
     ro_archived = False, ro_revision = 3, ro_next_seq = 0, ro_created_at = 0, ro_updated_at = 0\<rparr>"

definition talk_member :: "string \<Rightarrow> room_member" where
  "talk_member i = \<lparr>rk_room_id = ''r'', rk_member = ''agent:'' @ i, rk_wake = True, rk_joined_at = 0\<rparr>"

text \<open>Two agents in a room: the first held by one run, the second lost by one and held by another.\<close>

definition talk_db :: db where
  "talk_db = empty_db\<lparr>db_talk := empty_talk\<lparr>tk_config_revision := Some 3,
     tk_agents := [talk_agent ''a'' 1, talk_agent ''b'' 2],
     tk_bindings := [talk_binding ''b1'' ''a'' ''r1'' 1 B_active, talk_binding ''c1'' ''b'' ''q1'' 1 B_replaced,
       talk_binding ''c2'' ''b'' ''q2'' 2 B_active],
     tk_rooms := [talk_room], tk_members := [talk_member ''a'', talk_member ''b'']\<rparr>\<rparr>"

definition talk_manager :: "string \<Rightarrow> string \<Rightarrow> agent_authority" where
  "talk_manager i run = \<lparr>au_principal_id = ''p'', au_participant_id = None, au_can_manage = True,
     au_runtime = Some (talk_run i run Acting), au_acting_runtime = None, au_terminal_run_id = None\<rparr>"

definition talk_attach :: attach_input where
  "talk_attach = \<lparr>ai_expected_epoch = 1, ai_acting_run_id = None, ai_details = talk_attachment\<rparr>"

definition talk_author :: "string \<Rightarrow> string \<Rightarrow> conversation_authority" where
  "talk_author i run = \<lparr>ca_principal_id = ''p'', ca_participant_id = ''p'', ca_can_manage = False,
     ca_runtime = Some (talk_run i run Acting)\<rparr>"

definition talk_relay :: "string \<Rightarrow> conversation_authority" where
  "talk_relay i = \<lparr>ca_principal_id = ''p'', ca_participant_id = ''p'', ca_can_manage = False,
     ca_runtime = Some (talk_run i ''relay'' Relay)\<rparr>"

definition talk_message :: publish_message where
  "talk_message = \<lparr>pm_client_op_id = ''op'', pm_thread_id = None, pm_body = ''hello'', pm_artifact_refs = [],
     pm_targets = [To_agent ''b''], pm_reply_expected = False, pm_task_id = None, pm_attempt_id = None,
     pm_correlation_id = None\<rparr>"

definition talk_ids :: "nat \<Rightarrow> string" where
  "talk_ids n = replicate (Suc n) (CHR ''x'')"

definition published_db :: db where
  "published_db = after (publish (sample_host 5 ''u'') talk_ids id ''r'' talk_message (talk_author ''a'' ''r1'') 5) talk_db"

definition talk_ack :: ack_delivery where
  "talk_ack = \<lparr>ak_consumer_binding_id = ''c2'', ak_binding_epoch = 2, ak_disposition = Accepted\<rparr>"

lemma talk_db_ok: "mailbox_inv (mailboxes talk_db)"
  by code_simp

lemma publish_runs: "ran (publish (sample_host 5 ''u'') talk_ids id ''r'' talk_message (talk_author ''a'' ''r1'') 5) talk_db"
  by code_simp

lemma publish_fresh: "snd (result_of (publish (sample_host 5 ''u'') talk_ids id ''r'' talk_message
    (talk_author ''a'' ''r1'') 5) talk_db) = False"
  by code_simp

end
