(* ===== verification/Messaging.thy ===== *)
theory Messaging
  imports Talk_Samples
begin

text \<open>
  The guarantees of agents and conversations, over every sequence of operations: one run holds a
  mailbox, a run that lost it never acts again, a message is published once and numbered without
  gaps, a delivery is acknowledged once, and a wake is leased once and within its budgets.
\<close>

section \<open>One holder\<close>

lemma active_is_current:
  assumes inv: "mailbox_inv (mailboxes t)" and b: "b \<in> set (bindings t)" "ab_state b = B_active"
  shows "current_binding t (ab_agent_id b) = Some b"
proof (cases "current_binding t (ab_agent_id b)")
  case None
  with b show ?thesis by (auto simp: current_binding_def row_find_None)
next
  case (Some c)
  with current_Some [OF Some] one_holder [OF inv [unfolded mailboxes_def] _ b(1)] b show ?thesis by auto
qed

text \<open>C19. At every point of every execution the active binding of an agent is the only active one, it
  carries the agent's current epoch, and the agent is not archived: whoever attaches, replaces,
  releases, archives, revokes or restores, in whatever order, two runs never hold one mailbox.\<close>

theorem one_mailbox_holder:
  assumes "mailbox_inv (mailboxes s)" and "talk_step\<^sup>*\<^sup>* s t"
    and "b \<in> set (bindings t)" "ab_state b = B_active" "c \<in> set (bindings t)" "ab_state c = B_active"
    and "ab_agent_id c = ab_agent_id b"
  shows "c = b \<and> (\<exists>a. by_key ag_id (ab_agent_id b) (agents t) = Some a
    \<and> ab_binding_epoch b = ag_binding_epoch a \<and> \<not> ag_archived a)"
proof -
  have inv: "mailbox_inv (agents t, bindings t)"
    using mail_inv_steps [OF assms(2,1)] by (simp add: mailboxes_def)
  show ?thesis
    using one_holder [OF inv assms(5,3)] mailbox_invD(5) [OF inv assms(3)] assms(4,6,7)
    by (auto simp: binding_ok_def split: option.splits)
qed

definition replaced_db :: db where
  "replaced_db = after (agent_attach (sample_host 5 ''u'') ''a'' talk_attach (talk_manager ''a'' ''r9'') 5) talk_db"

lemma attach_runs: "ran (agent_attach (sample_host 5 ''u'') ''a'' talk_attach (talk_manager ''a'' ''r9'') 5) talk_db"
  by code_simp

lemma replaced_step: "talk_step talk_db replaced_db"
  unfolding replaced_db_def by (rule ts_attach) (rule runs [OF attach_runs])

theorem one_mailbox_holder_witness:
  "\<exists>a. by_key ag_id ''a'' (agents replaced_db) = Some a \<and> ag_binding_epoch a = 2 \<and> \<not> ag_archived a"
proof -
  have new: "bindings replaced_db ! 3 \<in> set (bindings replaced_db)" "ab_state (bindings replaced_db ! 3) = B_active"
    "ab_agent_id (bindings replaced_db ! 3) = ''a''" "ab_binding_epoch (bindings replaced_db ! 3) = 2"
    by code_simp+
  from one_mailbox_holder [OF talk_db_ok r_into_rtranclp [of talk_step, OF replaced_step] new(1,2) new(1,2) refl] new(3,4)
  show ?thesis by auto
qed

lemma activeBinding_ok:
  assumes "activeBinding i a now relay s = Inr (b, s')"
  shows "s' = s \<and> current_binding s i = Some b \<and> (\<exists>r. ca_runtime a = Some r \<and> rt_agent_id r = Some i
    \<and> lease_live (rt_lease_expires_at r) now
    \<and> (if relay then rt_run_role r = Relay \<and> rt_enrollment_id r = ab_enrollment_id b
       else rt_run_role r = Acting \<and> rt_run_id r = ab_run_id b))"
  using assms
  by (auto simp: activeBinding_def tx_run authorizeRun_ok split: option.splits if_splits)

lemma ended_holder:
  assumes inv: "mailbox_inv (mailboxes s)" and steps: "talk_step\<^sup>*\<^sup>* s t"
    and b: "b \<in> set (bindings s)" "ab_state b \<noteq> B_active"
  obtains c where "c \<in> set (bindings t)" "ab_agent_id c = ab_agent_id b" "ab_run_id c = ab_run_id b"
    "ab_state c \<noteq> B_active" "mailbox_inv (agents t, bindings t)"
proof -
  note moved = mail_inv_steps [OF steps inv]
  have "by_key ab_consumer_binding_id (ab_consumer_binding_id b) (bindings s) = Some b"
    using mailbox_invD(2) [OF inv [unfolded mailboxes_def]] b(1) by (rule by_key_unique)
  with b have "holder_of (mailboxes s) (ab_consumer_binding_id b)
      = Some (ab_agent_id b, ab_run_id b, ab_binding_epoch b, False)"
    by (simp add: holder_of_def mailboxes_def)
  with mailbox.frozen [OF conjunct1 [OF moved] inv]
  have "holder_of (mailboxes t) (ab_consumer_binding_id b)
      = Some (ab_agent_id b, ab_run_id b, ab_binding_epoch b, False)" by simp
  then obtain c where "by_key ab_consumer_binding_id (ab_consumer_binding_id b) (bindings t) = Some c"
    "ab_agent_id c = ab_agent_id b" "ab_run_id c = ab_run_id b" "ab_state c \<noteq> B_active"
    by (auto simp: holder_of_def mailboxes_def)
  with moved show thesis by (intro that [of c]) (auto simp: mailboxes_def dest: by_key_Some)
qed

text \<open>C20. A run whose binding was replaced, released, expired or archived has lost the agent for good:
  in every later state it can neither act through the mailbox, so publish, fetch or acknowledge as
  the agent, nor attach again, whatever credentials and epoch it shows.\<close>

theorem ended_run_powerless:
  assumes "mailbox_inv (mailboxes s)" and "b \<in> set (bindings s)" and "ab_state b \<noteq> B_active"
    and "talk_step\<^sup>*\<^sup>* s t"
    and "map_option rt_run_id (ca_runtime a) = Some (ab_run_id b)"
    and "actingRun (ab_agent_id b) input au now' = Inr r" and "rt_run_id r = ab_run_id b"
  shows "activeBinding (ab_agent_id b) a now False t \<noteq> Inr x
    \<and> agent_attach h (ab_agent_id b) input au now' t \<noteq> Inr y"
proof -
  from ended_holder [OF assms(1,4,2,3)] obtain c where
    c: "c \<in> set (bindings t)" "ab_agent_id c = ab_agent_id b" "ab_run_id c = ab_run_id b"
      "ab_state c \<noteq> B_active" and inv: "mailbox_inv (agents t, bindings t)" .
  have only: "d = c" if "d \<in> set (bindings t)" "ab_agent_id d = ab_agent_id b" "ab_run_id d = ab_run_id b" for d
    by (rule distinct_map_eq [OF mailbox_invD(3) [OF inv] that(1) c(1)]) (use that c in simp)
  have "activeBinding (ab_agent_id b) a now False t \<noteq> Inr x"
  proof
    assume run: "activeBinding (ab_agent_id b) a now False t = Inr x"
    obtain d t' where x: "x = (d, t')" by (cases x)
    from activeBinding_ok [OF run [unfolded x]] assms(5)
    have "current_binding t (ab_agent_id b) = Some d" "ab_run_id d = ab_run_id b" by auto
    with current_Some [of t "ab_agent_id b" d] only [of d] c(4) show False by auto
  qed
  moreover have "agent_attach h (ab_agent_id b) input au now' t \<noteq> Inr y"
  proof
    assume run: "agent_attach h (ab_agent_id b) input au now' t = Inr y"
    obtain d t' where y: "y = (d, t')" by (cases y)
    from run [unfolded y] show False
    proof (cases rule: attach_cases)
      case (1 r' g)
      with assms(6,7) c show False by (auto simp: row_find_None)
    next
      case (2 r' g p)
      with assms(6,7) have p: "row_find (\<lambda>d. ab_agent_id d = ab_agent_id b \<and> ab_run_id d = ab_run_id b)
        (bindings t) = Some p" by simp
      from row_find_Some [OF p] only [of p] have "p = c" by simp
      with 2(7) c(4) show False by (auto simp: renew_binding_def tx_run)
    qed
  qed
  ultimately show ?thesis ..
qed

theorem ended_run_powerless_witness:
  "activeBinding ''b'' (talk_author ''b'' ''q1'') 6 False replaced_db \<noteq> Inr (undefined, replaced_db)
    \<and> agent_attach (sample_host 6 ''v'') ''b'' (talk_attach\<lparr>ai_expected_epoch := 2\<rparr>) (talk_manager ''b'' ''q1'') 6
        replaced_db \<noteq> Inr (undefined, replaced_db)"
proof -
  have b: "talk_binding ''c1'' ''b'' ''q1'' 1 B_replaced \<in> set (bindings talk_db)"
    "ab_state (talk_binding ''c1'' ''b'' ''q1'' 1 B_replaced) \<noteq> B_active"
    by (simp_all add: talk_db_def talk_binding_def)
  have agent: "ab_agent_id (talk_binding ''c1'' ''b'' ''q1'' 1 B_replaced) = ''b''" by (simp add: talk_binding_def)
  have run: "map_option rt_run_id (ca_runtime (talk_author ''b'' ''q1''))
    = Some (ab_run_id (talk_binding ''c1'' ''b'' ''q1'' 1 B_replaced))"
    by (simp add: talk_author_def talk_run_def talk_binding_def)
  have acting: "actingRun (ab_agent_id (talk_binding ''c1'' ''b'' ''q1'' 1 B_replaced))
      (talk_attach\<lparr>ai_expected_epoch := 2\<rparr>) (talk_manager ''b'' ''q1'') 6 = Inr (talk_run ''b'' ''q1'' Acting)"
    "rt_run_id (talk_run ''b'' ''q1'' Acting) = ab_run_id (talk_binding ''c1'' ''b'' ''q1'' 1 B_replaced)"
    by (simp_all add: agent talk_manager_def talk_run_def actingRun_def talk_attach_def filled_def lease_live_def
      talk_binding_def)
  show ?thesis
    using ended_run_powerless [OF talk_db_ok b r_into_rtranclp [of talk_step, OF replaced_step] run acting]
    by (simp add: agent)
qed

section \<open>Acknowledged once\<close>

lemma acknowledge_ok:
  assumes "acknowledge h i k input a now s = Inr ((d, n, replayed), s')"
  obtains b e where "activeBinding i a now False s = Inr (b, s)"
    "ak_consumer_binding_id input = ab_consumer_binding_id b" "ak_binding_epoch input = ab_binding_epoch b"
    "delivery_for s i k = Some e" "mr_state e = R_acked" "replayed" "s' = s" "d = e"
    "mr_acked_binding_id e = Some (ab_consumer_binding_id b)" "mr_acked_epoch e = Some (ab_binding_epoch b)"
    "mr_disposition e = Some (ak_disposition input)"
  | b e where "activeBinding i a now False s = Inr (b, s)"
    "ak_consumer_binding_id input = ab_consumer_binding_id b" "ak_binding_epoch input = ab_binding_epoch b"
    "delivery_for s i k = Some e" "mr_state e = R_pending" "mr_expires_at e > now" "\<not> replayed"
    "d = mark_acked b (ak_disposition input) now e"
    "deliveries s' = rows_set (\<lambda>x. mr_id x = k \<and> mr_state x = R_pending)
       (mark_acked b (ak_disposition input) now) (deliveries s)"
    "for_binding b e \<or> mr_target_binding_id e = Some ''''"
proof -
  from assms obtain b s1 e where act: "activeBinding i a now False s = Inr (b, s1)"
    and eq: "ak_consumer_binding_id input = ab_consumer_binding_id b" "ak_binding_epoch input = ab_binding_epoch b"
    and e: "delivery_for s1 i k = Some e"
    and target: "\<not> (filled (mr_target_binding_id e) \<and> (mr_target_binding_id e \<noteq> Some (ab_consumer_binding_id b)
                 \<or> mr_target_epoch e \<noteq> Some (ab_binding_epoch b)))"
    and rest: "(if mr_state e = R_acked then
            tx_seq (tx_guard (mr_acked_binding_id e = Some (ab_consumer_binding_id b)
                \<and> mr_acked_epoch e = Some (ab_binding_epoch b)
                \<and> mr_disposition e = Some (ak_disposition input)) conversation_conflict)
            (tx_read (\<lambda>s. (e, pendingCount s i b now, True)))
          else if mr_state e = R_expired \<or> mr_expires_at e \<le> now
            then tx_throw (ConversationError ''delivery-expired'' 410)
          else
            tx_seq (write_deliveries (rows_set (\<lambda>x. mr_id x = k \<and> mr_state x = R_pending)
              (mark_acked b (ak_disposition input) now)))
           (tx_seq (tx_when (ak_disposition input = Accepted)
              (open_context (ab_consumer_binding_id b) k now))
           (tx_bind (tx_read (\<lambda>s. pendingCount s i b now)) (\<lambda>n.
            tx_seq (tx_when (n = 0) (quiet_outbox i now))
           (tx_seq (appendJournal h ''conversation.acknowledged'' (''delivery:'' @ k) (conversation_origin a) None
              [(''delivery_id'', JStr k), (''disposition'', JStr (case ak_disposition input of
                 Accepted \<Rightarrow> ''accepted'' | Declined \<Rightarrow> ''declined''))])
           (tx_return (mark_acked b (ak_disposition input) now e, n, False))))))) s1
        = Inr ((d, n, replayed), s')"
    by (auto simp: acknowledge_def bodyAccess_def tx_seq_ok tx_bind_ok split: option.splits)
  have s1: "s1 = s" using activeBinding_ok [OF act] by simp
  show thesis
  proof (cases "mr_state e = R_acked")
    case True
    with rest s1 act eq e show thesis by (intro that(1) [of b e]) (auto simp: tx_run)
  next
    case False
    with rest have st: "mr_state e = R_pending" "mr_expires_at e > now"
      by (cases "mr_state e"; auto split: if_splits)+
    from rest False st s1 obtain s2 s3 s4 s5 where
      2: "write_deliveries (rows_set (\<lambda>x. mr_id x = k \<and> mr_state x = R_pending)
              (mark_acked b (ak_disposition input) now)) s = Inr ((), s2)"
      and 3: "tx_when (ak_disposition input = Accepted) (open_context (ab_consumer_binding_id b) k now) s2 = Inr ((), s3)"
      and 4: "tx_when (pendingCount s3 i b now = 0) (quiet_outbox i now) s3 = Inr ((), s4)"
      and 5: "appendJournal h ''conversation.acknowledged'' (''delivery:'' @ k) (conversation_origin a) None
              [(''delivery_id'', JStr k), (''disposition'', JStr (case ak_disposition input of
                 Accepted \<Rightarrow> ''accepted'' | Declined \<Rightarrow> ''declined''))] s4 = Inr ((), s5)"
      and d: "d = mark_acked b (ak_disposition input) now e" "\<not> replayed" "s' = s5"
      by (auto simp: tx_bind_ok tx_seq_ok)
    have "deliveries s3 = deliveries s2"
      using tx_validD [OF tx_inv_when [OF post_open_context [of "\<lambda>p. snd (snd p) = deliveries s2"]] _ 3]
      by (simp add: post_def)
    moreover have "tx_inv (\<lambda>s. snd (snd (post s)) = deliveries s3) (quiet_outbox i now)"
      unfolding quiet_outbox_def set_outbox_def by (rule post_write_outbox)
    then have "deliveries s4 = deliveries s3"
      using tx_validD [OF tx_inv_when _ 4, of "\<lambda>s. snd (snd (post s)) = deliveries s3"] by (simp add: post_def)
    moreover have "deliveries s5 = deliveries s4"
      using tx_validD [OF post_journal [of "\<lambda>p. snd (snd p) = deliveries s4"] _ 5] by (simp add: post_def)
    ultimately have "deliveries s' = rows_set (\<lambda>x. mr_id x = k \<and> mr_state x = R_pending)
       (mark_acked b (ak_disposition input) now) (deliveries s)"
      using 2 d by (simp add: write_deliveries_def)
    with st d act eq e s1 target show thesis
      by (intro that(2) [of b e]) (auto simp: for_binding_def filled_def split: option.splits)
  qed
qed

lemma delivery_for_id: "delivery_for s i k = Some e \<Longrightarrow> e \<in> set (deliveries s) \<and> mr_id e = k \<and> mr_agent_id e = i"
  by (auto simp: delivery_for_def dest: row_find_Some)

text \<open>A delivery is acknowledged once: after the first acknowledgement, in every later state, any
  acknowledgement of it that is answered at all is the recorded one again, by the same binding at the
  same epoch with the same disposition, and it changes nothing.\<close>

theorem acknowledged_once:
  assumes "distinct (map mr_id (deliveries s))"
    and "acknowledge h i k input a now s = Inr ((d, n, replayed), s')"
    and "talk_step\<^sup>*\<^sup>* s' t"
    and "acknowledge h' i k input' a' now' t = Inr ((d', n', replayed'), t')"
  shows "replayed' \<and> t' = t \<and> ak_consumer_binding_id input' = ak_consumer_binding_id input
    \<and> ak_binding_epoch input' = ak_binding_epoch input \<and> ak_disposition input' = ak_disposition input"
proof -
  have ids: "distinct (map mr_id (deliveries s'))"
    by (rule unique.step [OF ts_ack assms(1)]) (rule assms(2))
  have ids_t: "distinct (map mr_id (deliveries t))" by (rule unique.steps [OF assms(3) ids])
  define r where "r e = (mr_message_id e, i, R_acked, mr_acked_at e, Some (ak_consumer_binding_id input),
    Some (ak_binding_epoch input), Some (ak_disposition input))" for e :: recipient_row
  have "\<exists>e. delivered s' k = Some (r e)"
    using assms(2)
  proof (cases rule: acknowledge_ok)
    case (1 b e)
    with delivery_for_id [OF 1(4)] by_key_unique [OF ids, of e]
    have "delivered s' k = Some (r e)" by (auto simp: delivered_def settlement_def r_def)
    then show ?thesis ..
  next
    case (2 b e)
    note e = delivery_for_id [OF 2(4)]
    have "by_key mr_id k (deliveries s) = Some e" using by_key_unique [OF assms(1), of e] e by simp
    with 2 e have "by_key mr_id k (deliveries s') = Some (mark_acked b (ak_disposition input) now e)"
      by (simp add: by_key_set)
    with 2 e have "delivered s' k = Some (r (mark_acked b (ak_disposition input) now e))"
      by (simp add: delivered_def settlement_def r_def mark_acked_def)
    then show ?thesis ..
  qed
  then obtain e where e: "delivered s' k = Some (r e)" ..
  have "delivered t k = Some (r e)"
    by (rule delivery.frozen [OF assms(3) _ e]) (simp_all add: settled_delivery_def r_def)
  then obtain g where g: "by_key mr_id k (deliveries t) = Some g" "settlement g = r e"
    by (auto simp: delivered_def)
  from assms(4) show ?thesis
  proof (cases rule: acknowledge_ok)
    case (1 b f)
    from by_key_unique [OF ids_t, of f] delivery_for_id [OF 1(4)] g(1) have "f = g" by simp
    with 1 g(2) show ?thesis by (auto simp: settlement_def r_def)
  next
    case (2 b f)
    from by_key_unique [OF ids_t, of f] delivery_for_id [OF 2(4)] g(1) have "f = g" by simp
    with 2 g(2) show ?thesis by (auto simp: settlement_def r_def)
  qed
qed

lemma first_ack_runs: "ran (acknowledge (sample_host 6 ''u'') ''b'' ''xx'' talk_ack (talk_author ''b'' ''q2'') 6) published_db"
  by code_simp

lemma second_ack_runs: "ran (acknowledge (sample_host 7 ''u'') ''b'' ''xx'' talk_ack (talk_author ''b'' ''q2'') 7) (after (acknowledge (sample_host 6 ''u'') ''b'' ''xx'' talk_ack (talk_author ''b'' ''q2'') 6) published_db)"
  by code_simp

theorem acknowledged_once_witness:
  "snd (snd (result_of (acknowledge (sample_host 7 ''u'') ''b'' ''xx'' talk_ack (talk_author ''b'' ''q2'') 7)
    (after (acknowledge (sample_host 6 ''u'') ''b'' ''xx'' talk_ack (talk_author ''b'' ''q2'') 6) published_db)))"
proof -
  have ids: "distinct (map mr_id (deliveries published_db))" by code_simp
  show ?thesis
    using acknowledged_once [OF ids runs3 [OF first_ack_runs] rtranclp.rtrancl_refl
      runs3 [OF second_ack_runs]] by simp
qed

section \<open>Published once\<close>

lemma published_extends:
  assumes "published_by s key op = None" and "messages s' = messages s @ [w]"
    and "mw_author_key w = key" "me_client_op_id (mw_message w) = op" and "extends (messages s') t"
  shows "published_by t key op = Some w"
  using assms by (auto simp: extends_def published_by_def row_find_append row_find_Cons)

text \<open>C21. Publishing is exactly once per author and operation id: after a publication, in every later
  state, publishing again under the same id returns the same message and changes nothing, and a
  different request under that id is refused. A retry under fresh ids of the host changes nothing.\<close>

theorem published_once:
  assumes "publish h ids sha i msg a now s = Inr ((m, False), s')"
    and "talk_step\<^sup>*\<^sup>* s' t"
    and "publish h' ids' sha i' msg' a' now' t = Inr ((m', replayed), t')"
    and "author_key a' = author_key a" and "pm_client_op_id msg' = pm_client_op_id msg"
  shows "replayed \<and> m' = m \<and> t' = t \<and> hashRequest sha i' msg' = hashRequest sha i msg"
proof -
  from assms(1) obtain r w where none: "published_by s (author_key a) (pm_client_op_id msg) = None"
    and w: "messages s' = messages s @ [w]" "mw_message w = m" "mw_author_key w = author_key a"
      "mw_request_hash w = hashRequest sha i msg" "me_client_op_id m = pm_client_op_id msg"
  proof (cases rule: publish_cases)
    case 2
    from 2(3) show ?thesis
      by (rule publish_new_log) (rule that [OF 2(2)], auto simp: log_of_def)
  qed simp
  have "extends (messages s') t"
    by (rule messages_kept_steps [OF assms(2)]) (simp add: extends_def)
  with published_extends [OF none w(1) w(3)] w(2,5) assms(4,5)
  have found: "published_by t (author_key a') (pm_client_op_id msg') = Some w" by simp
  from assms(3) show ?thesis
    by (cases rule: publish_cases) (use found w in auto)
qed

lemma republish_runs: "ran (publish (sample_host 9 ''v'') (\<lambda>n. ''y'') id ''r'' talk_message (talk_author ''a'' ''r1'') 9) published_db"
  by code_simp

theorem published_once_witness:
  "after (publish (sample_host 9 ''v'') (\<lambda>n. ''y'') id ''r'' talk_message (talk_author ''a'' ''r1'') 9) published_db
    = published_db"
proof -
  have first: "publish (sample_host 5 ''u'') talk_ids id ''r'' talk_message (talk_author ''a'' ''r1'') 5 talk_db
      = Inr ((fst (result_of (publish (sample_host 5 ''u'') talk_ids id ''r'' talk_message
          (talk_author ''a'' ''r1'') 5) talk_db), False), published_db)"
    using runs2 [OF publish_runs] by (simp only: publish_fresh published_db_def)
  show ?thesis
    using published_once [OF first rtranclp.rtrancl_refl runs2 [OF republish_runs] refl refl]
    by simp
qed

text \<open>C22. In every reachable state the messages of a room are numbered one, two, three and so on up to
  the room's counter, in the order they were published: no number is skipped, reused or reordered.\<close>

theorem room_numbered:
  assumes "talk_step\<^sup>*\<^sup>* empty_db t" and "r \<in> set (rooms t)"
  shows "map (me_seq \<circ> mw_message) (room_messages (messages t) (ro_id r)) = [1..ro_next_seq r]"
proof -
  have "numbered (log_of empty_db)"
    by (simp add: numbered_def log_of_def empty_db_def empty_talk_def)
  with assms(1) have "numbered (log_of t)"
    by (induction rule: rtranclp_induct) (auto intro: numbered_step)
  with assms(2) show ?thesis by (force simp: numbered_def log_of_def)
qed

definition talk_person :: conversation_authority where
  "talk_person = \<lparr>ca_principal_id = ''p'', ca_participant_id = ''p'', ca_can_manage = True, ca_runtime = None\<rparr>"

definition created_db :: db where
  "created_db = after (createRoom (sample_host 1 ''u'') (room_settings talk_room) talk_person 1) empty_db"

definition posted_db :: db where
  "posted_db = after (publish (sample_host 5 ''u'') talk_ids id ''r'' (talk_message\<lparr>pm_targets := [To_room]\<rparr>)
     talk_person 5) created_db"

lemma create_runs: "ran (createRoom (sample_host 1 ''u'') (room_settings talk_room) talk_person 1) empty_db"
  by code_simp

lemma post_runs: "ran (publish (sample_host 5 ''u'') talk_ids id ''r'' (talk_message\<lparr>pm_targets := [To_room]\<rparr>)
    talk_person 5) created_db"
  by code_simp

theorem room_numbered_witness:
  "map (me_seq \<circ> mw_message) (room_messages (messages posted_db) (ro_id (rooms posted_db ! 0))) = [1..1]"
proof -
  have steps: "talk_step\<^sup>*\<^sup>* empty_db posted_db"
    using ts_create_room [OF runs [OF create_runs]] ts_publish [OF runs [OF post_runs]]
    unfolding created_db_def [symmetric] posted_db_def [symmetric]
    by (meson converse_rtranclp_into_rtranclp r_into_rtranclp)
  have row: "rooms posted_db ! 0 \<in> set (rooms posted_db)" "ro_next_seq (rooms posted_db ! 0) = 1"
    by code_simp+
  from room_numbered [OF steps row(1)] row(2) show ?thesis by simp
qed

section \<open>Leased once, and within the budgets\<close>

definition recent_wakes :: "db \<Rightarrow> int \<Rightarrow> dispatch_attempt list" where
  "recent_wakes s now = filter (\<lambda>t. da_created_at t \<ge> now - 3600000) (dispatches s)"

definition wakes_of :: "string \<Rightarrow> dispatch_attempt list \<Rightarrow> nat" where
  "wakes_of i ts = length (filter (\<lambda>t. da_agent_id t = i) ts)"

definition wakes_for_room :: "string \<Rightarrow> dispatch_attempt list \<Rightarrow> nat" where
  "wakes_for_room x ts = length (filter (\<lambda>t. x \<in> set (da_room_ids t)) ts)"

lemma expireDeliveries_ok: "expireDeliveries now s = Inr (n, s') \<Longrightarrow>
    s' = set_talk (\<lambda>k. k\<lparr>tk_recipients := rows_set (lapsed now) (\<lambda>d. d\<lparr>mr_state := R_expired\<rparr>) (tk_recipients k)\<rparr>) s"
  by (auto simp: expireDeliveries_def write_deliveries_def tx_run)

lemma suppress_all_keeps:
  "tx_for ps (\<lambda>p. set_delivery (f p) (g p)) s = Inr (u, s') \<Longrightarrow>
    tk_outbox (db_talk s') = tk_outbox (db_talk s) \<and> dispatches s' = dispatches s \<and> rooms s' = rooms s"
proof (induction ps arbitrary: s)
  case (Cons p ps)
  then show ?case by (force simp: tx_run set_delivery_def write_deliveries_def)
qed simp

lemma outbox_of_set: "set_outbox i f s = Inr (u, s') \<Longrightarrow> (\<And>r. ob_agent_id (f r) = ob_agent_id r) \<Longrightarrow>
    outbox_of s' j = map_option (\<lambda>r. if ob_agent_id r = i then f r else r) (outbox_of s j)"
  by (auto simp: set_outbox_def write_outbox_def outbox_of_def by_key_set)

lemma lease_ok:
  assumes "leaseDispatch ids i a now s = Inr (Some l, s')"
  obtains b ob s1 eligible where
    "activeBinding i a now True s = Inr (b, s)" "outbox_of s i = Some ob" "outbox_due now ob"
    "at_mechanism (ab_attachment b) \<noteq> M_poll"
    "rooms s1 = rooms s" "dispatches s1 = dispatches s"
    "eligible = filter (\<lambda>p. withheld (recent_wakes s now) i p = None) (wakeable s1 i b now)" "eligible \<noteq> []"
    "outbox_of s' i = Some (take_lease (ids 0) b now ob)"
    "dispatches s' = dispatches s @ [\<lparr>da_room_ids = first_occurrences (map (ro_id \<circ> snd) eligible),
       da_delivery_ids = map (mr_id \<circ> fst) eligible, da_id = ids 1, da_agent_id = i,
       da_lease_token = ids 0, da_consumer_binding_id = ab_consumer_binding_id b,
       da_binding_epoch = ab_binding_epoch b, da_publish_gen = ob_publish_gen ob, da_outcome = D_leased,
       da_created_at = now, da_reported_at = None\<rparr>]"
    "l = \<lparr>dl_lease_token = ids 0, dl_lease_until = now + 30000, dl_publish_gen = ob_publish_gen ob,
       dl_binding = b, dl_pending = length eligible\<rparr>"
proof -
  from assms obtain b s0 n s1 ob where act: "activeBinding i a now True s = Inr (b, s0)"
    and exp: "expireDeliveries now s0 = Inr (n, s1)"
    and ob: "outbox_of s1 i = Some ob" "outbox_due now ob" and mech: "at_mechanism (ab_attachment b) \<noteq> M_poll"
    and rest: "(case (wakeable s1 i b now, filter (\<lambda>t. da_created_at t \<ge> now - 3600000) (dispatches s1)) of
        (candidates, recent) \<Rightarrow>
            tx_seq (tx_for (filter (\<lambda>p. withheld recent i p \<noteq> None) candidates)
               (\<lambda>p. set_delivery (mr_id (fst p)) (\<lambda>d. d\<lparr>mr_wake_suppressed := withheld recent i p\<rparr>)))
           (let eligible = filter (\<lambda>p. withheld recent i p = None) candidates in
            if eligible = [] then tx_seq (quiet_outbox i now) (tx_return None)
            else grant_lease ids i b ob eligible now)) s1 = Inr (Some l, s')"
    by (auto simp: leaseDispatch_def tx_bind_ok tx_seq_ok split: option.splits if_splits)
  have s0: "s0 = s" using activeBinding_ok [OF act] by simp
  from expireDeliveries_ok [OF exp] s0
  have s1: "rooms s1 = rooms s" "dispatches s1 = dispatches s" "tk_outbox (db_talk s1) = tk_outbox (db_talk s)"
    by simp_all
  define eligible where "eligible = filter (\<lambda>p. withheld (recent_wakes s now) i p = None) (wakeable s1 i b now)"
  from rest obtain u s2 where 2: "tx_for (filter (\<lambda>p. withheld (recent_wakes s now) i p \<noteq> None) (wakeable s1 i b now))
      (\<lambda>p. set_delivery (mr_id (fst p)) (\<lambda>d. d\<lparr>mr_wake_suppressed := withheld (recent_wakes s now) i p\<rparr>)) s1
      = Inr (u, s2)"
    and grant: "eligible \<noteq> []" "grant_lease ids i b ob eligible now s2 = Inr (Some l, s')"
    by (auto simp: tx_seq_ok Let_def recent_wakes_def s1 eligible_def split: if_splits)
  note s2 = suppress_all_keeps [OF 2]
  from grant(2) obtain s3 s4 s5 where 3: "set_outbox i (take_lease (ids 0) b now) s2 = Inr ((), s3)"
    and 4: "insert_dispatch \<lparr>da_room_ids = first_occurrences (map (ro_id \<circ> snd) eligible),
       da_delivery_ids = map (mr_id \<circ> fst) eligible, da_id = ids 1, da_agent_id = i,
       da_lease_token = ids 0, da_consumer_binding_id = ab_consumer_binding_id b,
       da_binding_epoch = ab_binding_epoch b, da_publish_gen = ob_publish_gen ob, da_outcome = D_leased,
       da_created_at = now, da_reported_at = None\<rparr> s3 = Inr ((), s4)"
    and 5: "write_deliveries (rows_set (\<lambda>d. mr_id d \<in> set (map (mr_id \<circ> fst) eligible) \<and> mr_fetched_at d \<noteq> None)
       (\<lambda>d. d\<lparr>mr_rewakes := mr_rewakes d + 1\<rparr>)) s4 = Inr ((), s5)"
    and l: "s' = s5" "l = \<lparr>dl_lease_token = ids 0, dl_lease_until = now + 30000, dl_publish_gen = ob_publish_gen ob,
       dl_binding = b, dl_pending = length eligible\<rparr>"
    by (auto simp: grant_lease_def tx_seq_ok)
  have ob2: "outbox_of s2 i = Some ob" using ob(1) s1 s2 by (simp add: outbox_of_def)
  have "ob_agent_id ob = i" using ob(1) by (auto simp: outbox_of_def dest: by_key_Some)
  with outbox_of_set [OF 3, of i] ob2 have ob3: "outbox_of s3 i = Some (take_lease (ids 0) b now ob)"
    by (simp add: take_lease_def)
  have d3: "dispatches s3 = dispatches s" using 3 s1 s2 by (simp add: set_outbox_def write_outbox_def)
  from 4 have d4: "dispatches s4 = dispatches s3 @ [\<lparr>da_room_ids = first_occurrences (map (ro_id \<circ> snd) eligible),
       da_delivery_ids = map (mr_id \<circ> fst) eligible, da_id = ids 1, da_agent_id = i,
       da_lease_token = ids 0, da_consumer_binding_id = ab_consumer_binding_id b,
       da_binding_epoch = ab_binding_epoch b, da_publish_gen = ob_publish_gen ob, da_outcome = D_leased,
       da_created_at = now, da_reported_at = None\<rparr>]"
    and o4: "outbox_of s4 i = outbox_of s3 i"
    by (auto simp: insert_dispatch_def write_dispatches_def tx_run outbox_of_def)
  from 5 l have "dispatches s' = dispatches s4" "outbox_of s' i = outbox_of s4 i"
    by (simp_all add: write_deliveries_def outbox_of_def)
  with d4 o4 d3 ob3 act s0 ob s1 mech l grant(1) show thesis
    by (intro that [of b ob s1 eligible]) (simp_all add: eligible_def outbox_of_def)
qed

text \<open>C23. While a wake is leased nobody else gets it: until the lease runs out, as long as the agent's
  outbox is left as the lease put it, every other attempt to lease is answered with nothing.\<close>

theorem wake_lease_exclusive:
  assumes "leaseDispatch ids i a now s = Inr (Some l, s')"
    and "outbox_of t i = outbox_of s' i" and "now' < now + 30000"
    and "leaseDispatch ids' i a' now' t = Inr (r, t')"
  shows "r = None"
proof (rule ccontr)
  assume "r \<noteq> None"
  with assms(4) obtain k where "leaseDispatch ids' i a' now' t = Inr (Some k, t')" by auto
  then show False
  proof (cases rule: lease_ok)
    case (1 b ob s1 eligible)
    note second = 1(2,3)
    from assms(1) show False
    proof (cases rule: lease_ok)
      case (1 b ob s1 eligible)
      with second assms(2,3) show False by (auto simp: outbox_due_def take_lease_def)
    qed
  qed
qed

definition leased_db :: db where
  "leased_db = after (leaseDispatch talk_ids ''b'' (talk_relay ''b'') 6) published_db"

lemma lease_runs: "ran (leaseDispatch talk_ids ''b'' (talk_relay ''b'') 6) published_db"
  and lease_grants: "result_of (leaseDispatch talk_ids ''b'' (talk_relay ''b'') 6) published_db \<noteq> None"
  and release_runs: "ran (leaseDispatch (\<lambda>n. ''y'') ''b'' (talk_relay ''b'') 7) leased_db"
  by code_simp+

lemma lease_granted: "leaseDispatch talk_ids ''b'' (talk_relay ''b'') 6 published_db
    = Inr (Some (the (result_of (leaseDispatch talk_ids ''b'' (talk_relay ''b'') 6) published_db)), leased_db)"
  unfolding leased_db_def using runs [OF lease_runs] lease_grants by auto

theorem wake_lease_exclusive_witness:
  "result_of (leaseDispatch (\<lambda>n. ''y'') ''b'' (talk_relay ''b'') 7) leased_db = None"
  using wake_lease_exclusive [OF lease_granted refl _ runs [OF release_runs]] by simp

text \<open>A wake never exceeds the budgets of the rooms it is for: with the new wake counted, the agent
  was woken in the last hour at most as often as each of those rooms allows, each room caused at most
  as many wakes as it allows, and none of the rooms is archived.\<close>

theorem wake_within_budget:
  assumes "leaseDispatch ids i a now s = Inr (Some l, s')"
    and "x \<in> set (da_room_ids (last (dispatches s')))"
  shows "\<exists>r. by_key ro_id x (rooms s) = Some r \<and> \<not> ro_archived r
    \<and> int (wakes_of i (recent_wakes s' now)) \<le> rb_agent_wakes (ro_budgets r)
    \<and> int (wakes_for_room x (recent_wakes s' now)) \<le> rb_room_wakes (ro_budgets r)"
  using assms(1)
proof (cases rule: lease_ok)
  case (1 b ob s1 eligible)
  from assms(2) 1(10) obtain d r where dr: "(d, r) \<in> set eligible" "ro_id r = x"
    by auto
  with 1(7) have open_budget: "withheld (recent_wakes s now) i (d, r) = None" and "(d, r) \<in> set (wakeable s1 i b now)"
    by auto
  then obtain m :: message where m: "by_key ro_id (me_room_id m) (rooms s) = Some r" "\<not> ro_archived r"
    using 1(5) by (auto simp: wakeable_def dest!: in_set_takeD split: option.splits if_splits)
  from by_key_Some [OF m(1)] dr(2) m have row: "by_key ro_id x (rooms s) = Some r" "\<not> ro_archived r" by simp_all
  from open_budget have "int (wakes_of i (recent_wakes s now)) < rb_agent_wakes (ro_budgets r)"
    "int (wakes_for_room x (recent_wakes s now)) < rb_room_wakes (ro_budgets r)"
    using dr(2) by (auto simp: withheld_def wakes_of_def wakes_for_room_def not_le split: if_splits)
  moreover have "wakes_of i (recent_wakes s' now) = wakes_of i (recent_wakes s now) + 1"
    using 1(10) by (simp add: wakes_of_def recent_wakes_def)
  moreover have "wakes_for_room x (recent_wakes s' now) \<le> wakes_for_room x (recent_wakes s now) + 1"
    using 1(10) by (simp add: wakes_for_room_def recent_wakes_def)
  ultimately show ?thesis using row by auto
qed

theorem wake_within_budget_witness:
  "\<exists>r. by_key ro_id ''r'' (rooms published_db) = Some r \<and> \<not> ro_archived r
    \<and> int (wakes_of ''b'' (recent_wakes leased_db 6)) \<le> rb_agent_wakes (ro_budgets r)
    \<and> int (wakes_for_room ''r'' (recent_wakes leased_db 6)) \<le> rb_room_wakes (ro_budgets r)"
proof -
  have room: "''r'' \<in> set (da_room_ids (last (dispatches leased_db)))" by code_simp
  show ?thesis by (rule wake_within_budget [OF lease_granted room])
qed

end
