(* ===== verification/Questions.thy ===== *)
theory Questions
  imports Talk
begin

text \<open>
  Questions of a working session: \<^verbatim>\<open>packages/ops-sqlite/src/question-ops.ts\<close> with the commands of
  \<^verbatim>\<open>packages/schemas/src/question.ts\<close>. A session asks while it holds its attempt; the routed
  responder answers, escalates or cancels; everyone involved may link a discussion. The answer is
  applicable only to the grant that asked.
\<close>

section \<open>Commands\<close>

record ask_command = authority_command +
  cq_id :: string
  cq_attempt_id :: string
  cq_text :: string
  cq_responder_principal_id :: string
  cq_predecessor_id :: "string option"
  cq_discussion :: "question_discussion list"

record question_command = queue_command +
  ck_question_id :: string
  ck_expected_revision :: int
  ck_attempt_id :: string
  ck_attempt_revision :: int
  ck_attempt_fence :: int

text \<open>The four commands differ in what they carry.\<close>

datatype question_change =
    Answer_with string
  | Escalate_to string string
  | Cancel_for string
  | Link_to question_discussion

definition change_name :: "question_change \<Rightarrow> string" where
  "change_name c = (case c of Answer_with _ \<Rightarrow> ''answer'' | Escalate_to _ _ \<Rightarrow> ''escalate''
     | Cancel_for _ \<Rightarrow> ''cancel'' | Link_to _ \<Rightarrow> ''link-discussion'')"

definition change_event :: "question_change \<Rightarrow> string" where
  "change_event c = (case c of Answer_with _ \<Rightarrow> ''question.answered'' | Escalate_to _ _ \<Rightarrow> ''question.escalated''
     | Cancel_for _ \<Rightarrow> ''question.cancelled'' | Link_to _ \<Rightarrow> ''question.discussion_linked'')"

definition discussion_json :: "question_discussion \<Rightarrow> json" where
  "discussion_json d = JObj [(''room_id'', JStr (qd_room_id d)), (''message_id'', JStr (qd_message_id d))]"

definition ask_json :: "ask_command \<Rightarrow> json" where
  "ask_json c = authority_json c ([(''id'', JStr (cq_id c)), (''attempt_id'', JStr (cq_attempt_id c)),
     (''text'', JStr (cq_text c)), (''responder_principal_id'', JStr (cq_responder_principal_id c))]
     @ optional_field ''predecessor_id'' (cq_predecessor_id c)
     @ [(''discussion'', JArr (map discussion_json (cq_discussion c)))])"

definition change_json :: "question_change \<Rightarrow> jobj" where
  "change_json c = (case c of
      Answer_with t \<Rightarrow> [(''text'', JStr t)]
    | Escalate_to p t \<Rightarrow> [(''responder_principal_id'', JStr p), (''reason'', JStr t)]
    | Cancel_for t \<Rightarrow> [(''reason'', JStr t)]
    | Link_to d \<Rightarrow> [(''discussion'', discussion_json d)])"

definition question_command_json :: "question_command \<Rightarrow> question_change \<Rightarrow> json" where
  "question_command_json c chg = command_json c ([(''question_id'', JStr (ck_question_id c)),
     (''expected_revision'', JNum (ck_expected_revision c)), (''attempt_id'', JStr (ck_attempt_id c)),
     (''attempt_revision'', JNum (ck_attempt_revision c)), (''attempt_fence'', JNum (ck_attempt_fence c))]
     @ change_json chg)"

text \<open>What the schemas admit. \<open>uuid\<close> is the format check of the validation library.\<close>

definition discussion_ok :: "(string \<Rightarrow> bool) \<Rightarrow> question_discussion \<Rightarrow> bool" where
  "discussion_ok uuid d \<longleftrightarrow> length_between 1 256 (qd_room_id d) \<and> uuid (qd_message_id d)"

definition ask_ok :: "(string \<Rightarrow> bool) \<Rightarrow> ask_command \<Rightarrow> bool" where
  "ask_ok uuid c \<longleftrightarrow> authority_command_ok c \<and> uuid (cq_id c) \<and> length_between 1 256 (cq_attempt_id c)
     \<and> length_between 1 16384 (cq_text c) \<and> length_between 1 256 (cq_responder_principal_id c)
     \<and> (case cq_predecessor_id c of None \<Rightarrow> True | Some p \<Rightarrow> uuid p)
     \<and> length (cq_discussion c) \<le> 100 \<and> list_all (discussion_ok uuid) (cq_discussion c)"

definition change_ok :: "(string \<Rightarrow> bool) \<Rightarrow> question_command \<Rightarrow> question_change \<Rightarrow> bool" where
  "change_ok uuid c chg \<longleftrightarrow> queue_command_ok c \<and> uuid (ck_question_id c) \<and> 0 < ck_expected_revision c
     \<and> length_between 1 256 (ck_attempt_id c) \<and> 0 < ck_attempt_revision c \<and> 0 < ck_attempt_fence c
     \<and> (case chg of Answer_with t \<Rightarrow> length_between 1 16384 t
        | Escalate_to p t \<Rightarrow> length_between 1 256 p \<and> length_between 1 16384 t
        | Cancel_for t \<Rightarrow> length_between 1 16384 t
        | Link_to d \<Rightarrow> discussion_ok uuid d)"

section \<open>Reading\<close>

record question_authority =
  qy_origin :: request_origin
  qy_can_manage :: bool
  qy_is_owner :: bool
  qy_conversation :: conversation_authority

definition question_actor_of :: "question_authority \<Rightarrow> question_actor" where
  "question_actor_of a = \<lparr>qa_principal_id = or_principalId (qy_origin a),
     qa_participant_id = or_participantId (qy_origin a)\<rparr>"

definition question_denied :: error where
  "question_denied = QuestionError ''permission-denied'' 403"

definition question_get :: "string \<Rightarrow> question ptx" where
  "question_get i = tx_bind (tx_read (\<lambda>s. by_key wq_id i (db_work_questions s))) (\<lambda>row. case row of
      None \<Rightarrow> tx_throw (QuestionError ''question-not-found'' 404)
    | Some r \<Rightarrow> tx_return (wq_snapshot r))"

definition asked_by :: "question \<Rightarrow> question_authority \<Rightarrow> bool" where
  "asked_by q a \<longleftrightarrow> qa_principal_id (qu_requester q) = or_principalId (qy_origin a)
     \<and> qa_participant_id (qu_requester q) = or_participantId (qy_origin a)"

definition applicable :: "question \<Rightarrow> question_authority \<Rightarrow> int \<Rightarrow> bool ptx" where
  "applicable q a now = tx_bind (question_get (qu_id q)) (\<lambda>cur.
     tx_bind (get_attempt (qu_attempt_id q)) (\<lambda>t.
     tx_read (\<lambda>s. qu_state q = Q_answered \<and> qu_state cur = Q_answered \<and> \<not> invalidated cur
       \<and> \<not> wa_cancellation_requested t \<and> wa_fence t = qu_attempt_fence q \<and> asked_by q a
       \<and> grantValid s t (qy_origin a) now)))"

record question_shown =
  vq_question :: question
  vq_answer_applicable :: bool

definition with_applicable :: "question_authority \<Rightarrow> int \<Rightarrow> question \<Rightarrow> question_shown ptx" where
  "with_applicable a now q = tx_bind (applicable q a now) (\<lambda>b.
     tx_return \<lparr>vq_question = q, vq_answer_applicable = b\<rparr>)"

definition question_view :: "string \<Rightarrow> question_authority \<Rightarrow> int \<Rightarrow> question_shown ptx" where
  "question_view i a now = tx_bind (question_get i) (with_applicable a now)"

record question_query =
  qf_task_id :: "string option"
  qf_attempt_id :: "string option"
  qf_requester_principal_id :: "string option"
  qf_responder_principal_id :: "string option"
  qf_state :: "question_state option"
  qf_escalated :: "bool option"
  qf_after_id :: "string option"
  qf_limit :: nat

definition wanted :: "string option \<Rightarrow> string \<Rightarrow> bool" where
  "wanted v x \<longleftrightarrow> (filled v \<longrightarrow> v = Some x)"

text \<open>\<open>taskIdAccessCondition\<close>: without restricted task types every task id passes.\<close>

definition task_id_access :: "db \<Rightarrow> string list option \<Rightarrow> string \<Rightarrow> bool" where
  "task_id_access s types i = (case types of None \<Rightarrow> True
     | Some ts \<Rightarrow> list_ex (\<lambda>e. en_id e = i \<and> en_type e \<in> set ts) (db_entities s))"

definition question_matches :: "db \<Rightarrow> question_query \<Rightarrow> string list option \<Rightarrow> work_question_row \<Rightarrow> bool" where
  "question_matches s q types r \<longleftrightarrow> wanted (qf_task_id q) (wq_task_id r) \<and> wanted (qf_attempt_id q) (wq_attempt_id r)
     \<and> wanted (qf_requester_principal_id q) (wq_requester_principal_id r)
     \<and> wanted (qf_responder_principal_id q) (wq_responder_principal_id r)
     \<and> (case qf_state q of None \<Rightarrow> True | Some st \<Rightarrow> wq_state r = st)
     \<and> (case qf_escalated q of None \<Rightarrow> True | Some b \<Rightarrow> qu_escalated (wq_snapshot r) = b)
     \<and> task_id_access s types (wq_task_id r)"

record question_list_result =
  ql_questions :: "question_shown list"
  ql_next_after_id :: "string option"
  ql_total :: nat

definition question_query_ok :: "(string \<Rightarrow> bool) \<Rightarrow> question_query \<Rightarrow> bool" where
  "question_query_ok uuid q \<longleftrightarrow> 1 \<le> qf_limit q \<and> qf_limit q \<le> 200
     \<and> (case qf_after_id q of None \<Rightarrow> True | Some i \<Rightarrow> uuid i)
     \<and> list_all (\<lambda>v. case v of None \<Rightarrow> True | Some x \<Rightarrow> length_between 1 256 x)
         [qf_task_id q, qf_attempt_id q, qf_requester_principal_id q, qf_responder_principal_id q]"

definition question_list ::
    "(string \<Rightarrow> bool) \<Rightarrow> question_query \<Rightarrow> question_authority \<Rightarrow> string list option \<Rightarrow> int \<Rightarrow>
      question_list_result ptx" where
  "question_list uuid q a types now = tx_seq (tx_guard (question_query_ok uuid q) ZodError)
     (tx_bind (tx_read (\<lambda>s. filter (question_matches s q types) (db_work_questions s))) (\<lambda>matching.
      let rows = take (qf_limit q + 1) (sort (map wq_id
            (filter (\<lambda>r. filled (qf_after_id q) \<longrightarrow> the (qf_after_id q) < wq_id r) matching)));
          page = take (qf_limit q) rows in
      tx_bind (tx_map page (\<lambda>i. question_view i a now)) (\<lambda>vs.
      tx_return \<lparr>ql_questions = vs,
        ql_next_after_id = (if length rows > qf_limit q then (if page = [] then None else Some (last page)) else None),
        ql_total = length matching\<rparr>)))"

section \<open>Receipts\<close>

definition question_receipt_of :: "db \<Rightarrow> string \<Rightarrow> question_receipt option" where
  "question_receipt_of s key = by_key qc_key key (db_question_receipts s)"

definition question_conflict :: error where
  "question_conflict = QuestionError ''question-idempotency-conflict'' 409"

definition question_receipted :: "int \<Rightarrow> string \<Rightarrow> string \<Rightarrow> question ptx \<Rightarrow> question ptx" where
  "question_receipted now key request run =
     tx_bind (tx_read (\<lambda>s. question_receipt_of s key)) (\<lambda>prior. case prior of
        Some p \<Rightarrow> if qc_request p \<noteq> request then tx_throw question_conflict else tx_return (qc_result p)
      | None \<Rightarrow> tx_bind run (\<lambda>q.
          tx_bind (tx_read (\<lambda>s. rows_insert qc_key \<lparr>qc_key = key, qc_request = request,
             qc_question_id = qu_id q, qc_result = q, qc_created_at = now\<rparr> (db_question_receipts s)))
          (\<lambda>inserted. case inserted of
             None \<Rightarrow> tx_throw (SqliteError ''UNIQUE constraint failed: question_receipts.key'')
           | Some rows \<Rightarrow> tx_seq (tx_write (\<lambda>s. s\<lparr>db_question_receipts := rows\<rparr>)) (tx_return q))))"

definition with_receipt ::
    "string \<Rightarrow> string \<Rightarrow> json \<Rightarrow> question_authority \<Rightarrow> question ptx \<Rightarrow> int \<Rightarrow> question_shown ptx" where
  "with_receipt operation key input a run now =
     tx_bind (question_receipted now (receipt_key (qy_origin a) operation key) (canonicalJson input) run)
       (with_applicable a now)"

section \<open>Asking\<close>

definition discussion_valid :: "question \<Rightarrow> question_authority \<Rightarrow> question_discussion \<Rightarrow> unit ptx" where
  "discussion_valid q a ref = tx_bind (getRoom (qd_room_id ref) (qy_conversation a)) (\<lambda>_.
     tx_bind (tx_read (\<lambda>s. by_key mw_id (qd_message_id ref) (messages s))) (\<lambda>row.
     tx_guard (case row of None \<Rightarrow> False | Some w \<Rightarrow> me_room_id (mw_message w) = qd_room_id ref
        \<and> me_task_id (mw_message w) = Some (qu_task_id q) \<and> me_attempt_id (mw_message w) = Some (qu_attempt_id q)
        \<and> me_correlation_id (mw_message w) = Some (qu_id q))
       (QuestionError ''question-correlation-conflict'' 409)))"

definition new_question ::
    "ask_command \<Rightarrow> work_attempt \<Rightarrow> agent_binding option \<Rightarrow> question_authority \<Rightarrow> int \<Rightarrow> question" where
  "new_question input t b a now = \<lparr>qu_id = cq_id input, qu_text = cq_text input, qu_task_id = wa_task_id t,
     qu_attempt_id = wa_id t, qu_attempt_revision = wa_revision t, qu_attempt_fence = wa_fence t,
     qu_requester = question_actor_of a,
     qu_session = map_option (\<lambda>x. (se_provider x, se_id x)) (wa_session t),
     qu_requester_binding = map_option (\<lambda>x. \<lparr>qb_agent_id = ab_agent_id x,
       qb_consumer_binding_id = ab_consumer_binding_id x, qb_binding_epoch = ab_binding_epoch x\<rparr>) b,
     qu_responder_principal_id = cq_responder_principal_id input, qu_escalated = False, qu_state = Q_open,
     qu_revision = 1, qu_answer = None,
     qu_routing = [\<lparr>qt_responder_principal_id = cq_responder_principal_id input, qt_escalated = False,
       qt_reason = None, qt_actor = question_actor_of a, qt_revision = 1, qt_at = now\<rparr>],
     qu_discussion = cq_discussion input, qu_predecessor_id = cq_predecessor_id input,
     qu_invalidation_reason = None, qu_created_at = now, qu_updated_at = now\<rparr>"

definition question_row :: "question \<Rightarrow> work_question_row" where
  "question_row q = \<lparr>wq_id = qu_id q, wq_task_id = qu_task_id q, wq_attempt_id = qu_attempt_id q,
     wq_requester_principal_id = qa_principal_id (qu_requester q),
     wq_responder_principal_id = qu_responder_principal_id q, wq_state = qu_state q, wq_snapshot = q\<rparr>"

definition ask_new :: "host \<Rightarrow> ask_command \<Rightarrow> work_attempt \<Rightarrow> question_authority \<Rightarrow> int \<Rightarrow> question ptx" where
  "ask_new h input t a now =
     tx_seq (assertAuthority t input (qy_origin a) now)
    (tx_seq (tx_guard (wa_accepted_at t \<noteq> None \<and> \<not> wa_cancellation_requested t)
       (QuestionError ''question-invalid-state'' 409))
    (tx_bind (tx_read (\<lambda>s. by_key wq_id (cq_id input) (db_work_questions s))) (\<lambda>row.
     tx_seq (tx_guard (row = None) (QuestionError ''question-conflict'' 409))
    (tx_seq (if filled (cq_predecessor_id input)
       then tx_bind (question_get (the (cq_predecessor_id input))) (\<lambda>p.
         tx_guard (qu_task_id p = wa_task_id t \<and> qu_state p \<noteq> Q_open) (QuestionError ''question-conflict'' 409))
       else tx_return ())
    (tx_bind (caller_binding (qy_conversation a) now) (\<lambda>b.
     let q = new_question input t b a now in
     tx_seq (tx_for (qu_discussion q) (discussion_valid q a))
    (tx_seq (tx_write (\<lambda>s. s\<lparr>db_work_questions := db_work_questions s @ [question_row q]\<rparr>))
    (tx_seq (event h ''question.asked'' (wa_resource t) (qy_origin a) [(''question_id'', JStr (qu_id q)),
       (''attempt_id'', JStr (wa_id t)), (''revision'', JNum 1)] (Some (wa_fence t)))
    (tx_return q)))))))))"

definition ask ::
    "host \<Rightarrow> (string \<Rightarrow> bool) \<Rightarrow> ask_command \<Rightarrow> question_authority \<Rightarrow> int \<Rightarrow> question_shown ptx" where
  "ask h uuid input a now = tx_seq (tx_guard (ask_ok uuid input) ZodError)
     (tx_bind (get_attempt (cq_attempt_id input)) (\<lambda>t.
      tx_seq (tx_lift (assertOwner t (qy_origin a) (Some (cm_fence input))))
     (tx_bind (tx_read (\<lambda>s. grantValid s t (qy_origin a) now)) (\<lambda>valid.
      tx_seq (tx_guard valid question_denied)
     (with_receipt ''ask'' (cm_idempotency_key input) (ask_json input) a (ask_new h input t a now) now)))))"

section \<open>Answering, escalating, cancelling, linking\<close>

definition responder :: "question \<Rightarrow> question_authority \<Rightarrow> bool" where
  "responder q a \<longleftrightarrow> qu_responder_principal_id q = or_principalId (qy_origin a)
     \<and> (qu_escalated q \<longrightarrow> qy_is_owner a)"

definition requester :: "question \<Rightarrow> question_authority \<Rightarrow> int \<Rightarrow> bool ptx" where
  "requester q a now = tx_bind (get_attempt (qu_attempt_id q)) (\<lambda>t.
     tx_read (\<lambda>s. qu_attempt_fence q = wa_fence t \<and> asked_by q a \<and> grantValid s t (qy_origin a) now))"

text \<open>Who may change a question; the caller of an escalation may still collect its receipt.\<close>

definition permitted :: "question_change \<Rightarrow> question \<Rightarrow> question_authority \<Rightarrow> int \<Rightarrow> bool ptx" where
  "permitted chg q a now = (case chg of
      Answer_with _ \<Rightarrow> tx_return (responder q a)
    | Escalate_to _ _ \<Rightarrow> tx_return (responder q a \<or> qy_can_manage a)
    | _ \<Rightarrow> if responder q a \<or> qy_can_manage a then tx_return True else requester q a now)"

definition authorize_change ::
    "string \<Rightarrow> question_change \<Rightarrow> question_command \<Rightarrow> question \<Rightarrow> question_authority \<Rightarrow> int \<Rightarrow> unit ptx" where
  "authorize_change i chg input q a now = tx_bind (permitted chg q a now) (\<lambda>ok.
     if ok then tx_return ()
     else tx_bind (tx_read (\<lambda>s. case chg of
         Escalate_to _ _ \<Rightarrow> question_receipt_of s (receipt_key (qy_origin a) (change_name chg @ '':'' @ i)
           (cm_idempotency_key input))
       | _ \<Rightarrow> None)) (\<lambda>prior. case prior of
         None \<Rightarrow> tx_throw question_denied
       | Some p \<Rightarrow> tx_guard (qc_request p = canonicalJson (question_command_json input chg)) question_conflict))"

definition apply_change ::
    "question_change \<Rightarrow> question_authority \<Rightarrow> int \<Rightarrow> question \<Rightarrow> question ptx" where
  "apply_change chg a now q = (case chg of
      Answer_with t \<Rightarrow> tx_return (q\<lparr>qu_state := Q_answered, qu_answer := Some \<lparr>qw_text = t,
        qw_actor = question_actor_of a, qw_revision = qu_revision q, qw_at = now\<rparr>\<rparr>)
    | Escalate_to p t \<Rightarrow> tx_return (q\<lparr>qu_escalated := True, qu_responder_principal_id := p,
        qu_routing := qu_routing q @ [\<lparr>qt_responder_principal_id = p, qt_escalated = True, qt_reason = Some t,
          qt_actor = question_actor_of a, qt_revision = qu_revision q, qt_at = now\<rparr>]\<rparr>)
    | Cancel_for t \<Rightarrow> tx_return (q\<lparr>qu_state := Q_cancelled, qu_invalidation_reason := Some t\<rparr>)
    | Link_to d \<Rightarrow> tx_seq (discussion_valid q a d)
        (if list_ex (\<lambda>r. qd_message_id r = qd_message_id d) (qu_discussion q) then tx_return q
         else if length (qu_discussion q) \<ge> 100 then tx_throw (QuestionError ''question-conflict'' 409)
         else tx_return (q\<lparr>qu_discussion := qu_discussion q @ [d]\<rparr>)))"

definition is_link :: "question_change \<Rightarrow> bool" where
  "is_link c = (case c of Link_to _ \<Rightarrow> True | _ \<Rightarrow> False)"

definition change_new ::
    "host \<Rightarrow> string \<Rightarrow> question_change \<Rightarrow> question_command \<Rightarrow> question \<Rightarrow> question_authority \<Rightarrow> int \<Rightarrow>
      question ptx" where
  "change_new h i chg input q a now =
     tx_seq (tx_guard (qu_revision q = ck_expected_revision input) (QuestionError ''question-precondition'' 409))
    (tx_seq (tx_guard (is_link chg \<or> (qu_state q = Q_open \<and> \<not> invalidated q))
       (QuestionError ''question-invalid-state'' 409))
    (tx_bind (apply_change chg a now (q\<lparr>qu_revision := qu_revision q + 1, qu_updated_at := now\<rparr>)) (\<lambda>u.
     tx_seq (saveQuestion u)
    (tx_bind (get_attempt (qu_attempt_id q)) (\<lambda>t.
     tx_seq (event h (change_event chg) (wa_resource t) (qy_origin a) [(''question_id'', JStr i),
       (''attempt_id'', JStr (qu_attempt_id q)), (''revision'', JNum (qu_revision u))] (Some (qu_attempt_fence q)))
     (tx_return u))))))"

definition mutate ::
    "host \<Rightarrow> (string \<Rightarrow> bool) \<Rightarrow> string \<Rightarrow> question_change \<Rightarrow> question_command \<Rightarrow> question_authority \<Rightarrow> int \<Rightarrow>
      question_shown ptx" where
  "mutate h uuid i chg input a now = tx_seq (tx_guard (change_ok uuid input chg) ZodError)
     (tx_bind (question_get i) (\<lambda>q.
      tx_seq (authorize_change i chg input q a now)
     (tx_seq (tx_guard (qu_id q = ck_question_id input \<and> qu_attempt_id q = ck_attempt_id input
         \<and> qu_attempt_revision q = ck_attempt_revision input \<and> qu_attempt_fence q = ck_attempt_fence input)
        (QuestionError ''question-correlation-conflict'' 409))
     (with_receipt (change_name chg @ '':'' @ i) (cm_idempotency_key input)
        (question_command_json input chg) a (change_new h i chg input q a now) now))))"

text \<open>The exported operations.\<close>

definition answer_question ::
    "host \<Rightarrow> (string \<Rightarrow> bool) \<Rightarrow> string \<Rightarrow> string \<Rightarrow> question_command \<Rightarrow> question_authority \<Rightarrow> int \<Rightarrow> question_shown ptx" where
  "answer_question h uuid i t = mutate h uuid i (Answer_with t)"

definition escalate_question ::
    "host \<Rightarrow> (string \<Rightarrow> bool) \<Rightarrow> string \<Rightarrow> string \<Rightarrow> string \<Rightarrow> question_command \<Rightarrow> question_authority \<Rightarrow> int \<Rightarrow>
      question_shown ptx" where
  "escalate_question h uuid i p t = mutate h uuid i (Escalate_to p t)"

definition cancel_question ::
    "host \<Rightarrow> (string \<Rightarrow> bool) \<Rightarrow> string \<Rightarrow> string \<Rightarrow> question_command \<Rightarrow> question_authority \<Rightarrow> int \<Rightarrow> question_shown ptx" where
  "cancel_question h uuid i t = mutate h uuid i (Cancel_for t)"

definition linkDiscussion ::
    "host \<Rightarrow> (string \<Rightarrow> bool) \<Rightarrow> string \<Rightarrow> question_discussion \<Rightarrow> question_command \<Rightarrow> question_authority \<Rightarrow> int \<Rightarrow>
      question_shown ptx" where
  "linkDiscussion h uuid i d = mutate h uuid i (Link_to d)"

end
