(* ===== verification/Answers.thy ===== *)
theory Answers
  imports Questions
begin

text \<open>
  What holds of a question through its life: a closed question keeps its answer, an invalidated one
  stays invalidated, and the session that replaces the asker never inherits an answer. The machine
  of this theory is the table of questions; every operation that writes it is a sequence of its
  moves.
\<close>

section \<open>The table of questions\<close>

text \<open>How one snapshot may follow another.\<close>

definition evolves :: "question \<Rightarrow> question \<Rightarrow> bool" where
  "evolves q u \<longleftrightarrow> qu_id u = qu_id q \<and> qu_attempt_id u = qu_attempt_id q \<and> qu_attempt_fence u = qu_attempt_fence q
     \<and> qu_requester u = qu_requester q \<and> qu_requester_binding u = qu_requester_binding q
     \<and> (qu_state q \<noteq> Q_open \<longrightarrow> qu_state u = qu_state q \<and> qu_answer u = qu_answer q)
     \<and> (invalidated q \<longrightarrow> invalidated u) \<and> qu_revision u = qu_revision q + 1"

definition store_question :: "question \<Rightarrow> work_question_row \<Rightarrow> work_question_row" where
  "store_question u r = r\<lparr>wq_state := qu_state u, wq_responder_principal_id := qu_responder_principal_id u,
     wq_snapshot := u\<rparr>"

inductive question_move :: "work_question_row list \<Rightarrow> work_question_row list \<Rightarrow> bool" where
  Asked: "qu_id q \<notin> wq_id ` set qs \<Longrightarrow> question_move qs (qs @ [question_row q])"
| Saved: "by_key wq_id (qu_id u) qs = Some r \<Longrightarrow> evolves (wq_snapshot r) u
    \<Longrightarrow> question_move qs (rows_set (\<lambda>x. wq_id x = qu_id u) (store_question u) qs)"

definition questions_ok :: "work_question_row list \<Rightarrow> bool" where
  "questions_ok qs \<longleftrightarrow> distinct (map wq_id qs)
     \<and> list_all (\<lambda>r. wq_id r = qu_id (wq_snapshot r) \<and> wq_attempt_id r = qu_attempt_id (wq_snapshot r)) qs"

lemma question_move_ok:
  assumes "question_move qs qs'" and "questions_ok qs"
  shows "questions_ok qs'"
  using assms(1)
proof cases
  case (Asked q)
  with assms(2) show ?thesis by (auto simp: questions_ok_def question_row_def)
next
  case (Saved u r)
  have key: "wq_id (store_question u x) = wq_id x" for x by (simp add: store_question_def)
  have ok: "wq_attempt_id x = qu_attempt_id u" if "x \<in> set qs" "wq_id x = qu_id u" for x
  proof -
    have "x = r" using that by_key_Some [OF Saved(2)] assms(2)
      by (intro distinct_map_eq [of wq_id qs]) (auto simp: questions_ok_def)
    with that Saved(3) assms(2) show ?thesis by (auto simp: questions_ok_def list_all_iff evolves_def)
  qed
  show ?thesis
    unfolding Saved(1) using assms(2) ok
    by (auto simp: questions_ok_def map_rows_set key list_all_iff set_rows_set store_question_def)
qed

text \<open>What is final about a question: how it closed and its answer; and whether it was invalidated.\<close>

definition closed_as :: "work_question_row list \<Rightarrow> string \<Rightarrow> (question_state \<times> question_answer option) option" where
  "closed_as qs k = map_option (\<lambda>r. (qu_state (wq_snapshot r), qu_answer (wq_snapshot r))) (by_key wq_id k qs)"

definition withdrawn_at :: "work_question_row list \<Rightarrow> string \<Rightarrow> bool option" where
  "withdrawn_at qs k = map_option (\<lambda>r. invalidated (wq_snapshot r)) (by_key wq_id k qs)"

lemma move_row:
  assumes "question_move qs qs'" and "by_key wq_id k qs = Some r"
  shows "\<exists>r'. by_key wq_id k qs' = Some r'
    \<and> (wq_snapshot r' = wq_snapshot r \<or> evolves (wq_snapshot r) (wq_snapshot r'))"
  using assms(1)
proof cases
  case (Asked q)
  with assms(2) show ?thesis by (simp add: by_key_append)
next
  case (Saved u x)
  have key: "wq_id (store_question u r) = wq_id r" for r by (simp add: store_question_def)
  show ?thesis
  proof (cases "k = qu_id u")
    case True
    with Saved assms(2) have "x = r" by simp
    with True Saved assms(2) by_key_Some [OF assms(2)] show ?thesis
      by (simp add: by_key_set key store_question_def)
  next
    case False
    with Saved assms(2) by_key_Some [OF assms(2)] show ?thesis by (simp add: by_key_set key)
  qed
qed

interpretation answers: settled_records question_move questions_ok closed_as "\<lambda>p. fst p \<noteq> Q_open"
proof unfold_locales
  fix qs qs' k p
  assume m: "question_move qs qs'" and p: "closed_as qs k = Some p" "fst p \<noteq> Q_open"
  from p(1) obtain r where r: "by_key wq_id k qs = Some r" "p = (qu_state (wq_snapshot r), qu_answer (wq_snapshot r))"
    by (auto simp: closed_as_def)
  from move_row [OF m r(1)] r(2) p(2) show "closed_as qs' k = Some p"
    by (auto simp: closed_as_def evolves_def)
qed (rule question_move_ok)

interpretation withdrawals: settled_records question_move questions_ok withdrawn_at "\<lambda>b. b"
proof unfold_locales
  fix qs qs' k b
  assume m: "question_move qs qs'" and b: "withdrawn_at qs k = Some b" "b"
  from b obtain r where r: "by_key wq_id k qs = Some r" "invalidated (wq_snapshot r)"
    by (auto simp: withdrawn_at_def)
  from move_row [OF m r(1)] r(2) b(2) show "withdrawn_at qs' k = Some b"
    by (auto simp: withdrawn_at_def evolves_def)
qed (rule question_move_ok)

section \<open>The operations are moves of the table\<close>

abbreviation questions :: "db \<Rightarrow> work_question_row list" where
  "questions s \<equiv> db_work_questions s"

definition asks :: "db \<Rightarrow> db \<Rightarrow> bool" where
  "asks s s' \<longleftrightarrow> question_move\<^sup>*\<^sup>* (questions s) (questions s')"

lemma asks_trans: "asks s t \<Longrightarrow> asks t u \<Longrightarrow> asks s u"
  unfolding asks_def by (rule rtranclp_trans)

lemma asks_same [simp]: "questions s' = questions s \<Longrightarrow> asks s s'"
  by (simp add: asks_def)

lemma questions_journal [tx_wp]: "tx_inv (\<lambda>s. P (questions s)) (appendJournal h kind res orig fence data)"
  by (rule tx_inv_appendJournal) simp

lemma questions_event [tx_wp]: "tx_inv (\<lambda>s. P (questions s)) (event h kind res orig data fence)"
  unfolding event_def by (rule questions_journal)

lemma questions_frameD:
  assumes "\<And>P. tx_inv (\<lambda>s. P (questions s)) m" and "m s = Inr (a, s')"
  shows "questions s' = questions s"
  using tx_validD [OF assms(1) [of "\<lambda>x. x = questions s"] refl assms(2)] .

lemma saveQuestion_questions: "saveQuestion u s = Inr (x, s') \<Longrightarrow>
    questions s' = rows_set (\<lambda>r. wq_id r = qu_id u) (store_question u) (questions s)"
  by (auto simp: saveQuestion_def store_question_def [abs_def])

lemma question_get_ok: "question_get i s = Inr (q, s') \<longleftrightarrow>
    s' = s \<and> (\<exists>r. by_key wq_id i (questions s) = Some r \<and> q = wq_snapshot r)"
  by (auto simp: question_get_def tx_run split: option.splits)

lemma attempt_found: "get_attempt i s = Inr (t, s') \<Longrightarrow> s' = s"
  by (auto simp: get_attempt_def tx_run)

lemma read_question_get [tx_wp]: "tx_inv P (question_get i)"
  unfolding question_get_def by (intro tx_wp)

lemma reads_get_attempt [tx_wp]: "tx_inv P (get_attempt i)"
  unfolding get_attempt_def by (intro tx_wp)

lemma read_applicable [tx_wp]: "tx_inv P (applicable q a now)"
  unfolding applicable_def by (intro tx_wp)

lemma read_with_applicable [tx_wp]: "tx_inv P (with_applicable a now q)"
  unfolding with_applicable_def by (intro tx_wp)

lemma read_getRoom [tx_wp]: "tx_inv P (getRoom i a)"
  unfolding getRoom_def by (intro tx_wp)

lemma read_discussion_valid [tx_wp]: "tx_inv P (discussion_valid q a d)"
  unfolding discussion_valid_def by (intro tx_wp)

lemma read_assertAuthority [tx_wp]: "tx_inv P (assertAuthority t input orig now)"
  unfolding assertAuthority_def by (intro tx_wp)

lemma read_requester [tx_wp]: "tx_inv P (requester q a now)"
  unfolding requester_def by (intro tx_wp)

lemma read_permitted [tx_wp]: "tx_inv P (permitted chg q a now)"
  unfolding permitted_def by (cases chg) (auto intro!: tx_wp)

lemma read_authorize_change [tx_wp]: "tx_inv P (authorize_change i chg input q a now)"
  unfolding authorize_change_def by (intro tx_wp)

lemma read_apply_change [tx_wp]: "tx_inv P (apply_change chg a now q)"
  unfolding apply_change_def by (cases chg) (auto intro!: tx_wp)

lemma frozen_state: "(\<And>P. tx_inv P m) \<Longrightarrow> m s = Inr (a, s') \<Longrightarrow> s' = s"
  using tx_validD [of "\<lambda>t. t = s" m "\<lambda>_ t. t = s"] by blast

text \<open>The effect of a change on the question it is applied to.\<close>

lemma apply_change_evolves:
  assumes "apply_change chg a now (q\<lparr>qu_revision := qu_revision q + 1, qu_updated_at := now\<rparr>) s = Inr (u, s')"
    and "is_link chg \<or> (qu_state q = Q_open \<and> \<not> invalidated q)"
  shows "evolves q u"
  using assms
  by (cases chg) (auto simp: apply_change_def tx_run evolves_def is_link_def invalidated_def split: if_splits)

lemma change_new_run:
  assumes "change_new h i chg input q a now s = Inr (u, s')"
  shows "qu_revision q = ck_expected_revision input"
    and "is_link chg \<or> (qu_state q = Q_open \<and> \<not> invalidated q)"
    and "apply_change chg a now (q\<lparr>qu_revision := qu_revision q + 1, qu_updated_at := now\<rparr>) s = Inr (u, s)"
    and "evolves q u"
    and "questions s' = rows_set (\<lambda>r. wq_id r = qu_id u) (store_question u) (questions s)"
proof -
  from assms obtain s1 s2 t s3 where
    g: "qu_revision q = ck_expected_revision input" "is_link chg \<or> (qu_state q = Q_open \<and> \<not> invalidated q)"
    and 1: "apply_change chg a now (q\<lparr>qu_revision := qu_revision q + 1, qu_updated_at := now\<rparr>) s = Inr (u, s1)"
    and 2: "saveQuestion u s1 = Inr ((), s2)" and 3: "get_attempt (qu_attempt_id q) s2 = Inr (t, s3)"
    and 4: "event h (change_event chg) (wa_resource t) (qy_origin a) [(''question_id'', JStr i),
       (''attempt_id'', JStr (qu_attempt_id q)), (''revision'', JNum (qu_revision u))] (Some (qu_attempt_fence q)) s3
       = Inr ((), s')"
    by (auto simp: change_new_def tx_bind_ok tx_seq_ok)
  have s1: "s1 = s" by (rule frozen_state [OF read_apply_change 1])
  show "qu_revision q = ck_expected_revision input" "is_link chg \<or> (qu_state q = Q_open \<and> \<not> invalidated q)"
    by (rule g)+
  show "apply_change chg a now (q\<lparr>qu_revision := qu_revision q + 1, qu_updated_at := now\<rparr>) s = Inr (u, s)"
    using 1 s1 by simp
  show "evolves q u" by (rule apply_change_evolves [OF 1 g(2)])
  show "questions s' = rows_set (\<lambda>r. wq_id r = qu_id u) (store_question u) (questions s)"
    using saveQuestion_questions [OF 2] attempt_found [OF 3] questions_frameD [OF questions_event 4] s1 by simp
qed

text \<open>A receipted write: the recorded question, or the write and its receipt.\<close>

lemma question_receipted_cases:
  assumes "question_receipted now key request run s = Inr (q, s')"
  obtains p where "question_receipt_of s key = Some p" "qc_request p = request" "q = qc_result p" "s' = s"
  | t rows where "question_receipt_of s key = None" "run s = Inr (q, t)" "s' = t\<lparr>db_question_receipts := rows\<rparr>"
  using assms
  by (auto simp: question_receipted_def tx_run split: option.splits if_splits)

lemma with_receipt_cases:
  assumes "with_receipt operation key input a run now s = Inr (v, s')"
  obtains p where "question_receipt_of s (receipt_key (qy_origin a) operation key) = Some p"
      "qc_request p = canonicalJson input" "vq_question v = qc_result p" "s' = s"
  | t rows where "question_receipt_of s (receipt_key (qy_origin a) operation key) = None"
      "run s = Inr (vq_question v, t)" "s' = t\<lparr>db_question_receipts := rows\<rparr>"
proof -
  from assms obtain q s1 where 1: "question_receipted now (receipt_key (qy_origin a) operation key)
      (canonicalJson input) run s = Inr (q, s1)" and 2: "with_applicable a now q s1 = Inr (v, s')"
    by (auto simp: with_receipt_def tx_bind_ok)
  have s1: "s' = s1" by (rule frozen_state [OF read_with_applicable 2])
  from 2 have q: "vq_question v = q" by (auto simp: with_applicable_def tx_run)
  from 1 show thesis
    by (cases rule: question_receipted_cases) (use that s1 q in blast)+
qed

lemma ask_asks:
  assumes "ask h uuid input a now s = Inr (v, s')"
  shows "asks s s'"
proof -
  from assms obtain s1 t s2 where 1: "get_attempt (cq_attempt_id input) s = Inr (t, s1)"
    and 2: "with_receipt ''ask'' (cm_idempotency_key input) (ask_json input) a (ask_new h input t a now) now s1
      = Inr (v, s')"
    by (auto simp: ask_def tx_bind_ok tx_seq_ok)
  have s1: "s1 = s" by (rule attempt_found [OF 1])
  from 2 [unfolded s1] show ?thesis
  proof (cases rule: with_receipt_cases)
    case (2 t' rows)
    from 2(2) obtain u s3 s4 s5 b s6 w where
      g: "by_key wq_id (cq_id input) (questions s3) = None" and f: "s3 = s"
      and 4: "caller_binding (qy_conversation a) now s4 = Inr (b, s5)"
      and pre: "(if filled (cq_predecessor_id input)
       then tx_bind (question_get (the (cq_predecessor_id input))) (\<lambda>p.
         tx_guard (qu_task_id p = wa_task_id t \<and> qu_state p \<noteq> Q_open) (QuestionError ''question-conflict'' 409))
       else tx_return ()) s3 = Inr (u, s4)"
      and 5: "tx_for (qu_discussion (new_question input t b a now)) (discussion_valid (new_question input t b a now) a) s5
        = Inr (w, s6)"
      and 6: "event h ''question.asked'' (wa_resource t) (qy_origin a) [(''question_id'',
         JStr (qu_id (new_question input t b a now))), (''attempt_id'', JStr (wa_id t)), (''revision'', JNum 1)]
         (Some (wa_fence t)) (s6\<lparr>db_work_questions := questions s6 @ [question_row (new_question input t b a now)]\<rparr>)
         = Inr ((), t')"
      by (auto simp: ask_new_def tx_bind_ok tx_seq_ok Let_def dest: frozen_state [OF read_assertAuthority])
    have s4: "s4 = s3" using pre by (auto simp: tx_run question_get_ok split: if_splits)
    have s5: "s5 = s4" by (rule frozen_state [OF read_caller_binding 4])
    have s6: "s6 = s5" by (rule frozen_state [OF tx_inv_for [OF read_discussion_valid] 5])
    have "questions t' = questions s @ [question_row (new_question input t b a now)]"
      using questions_frameD [OF questions_event 6] s6 s5 s4 f by simp
    moreover have "qu_id (new_question input t b a now) \<notin> wq_id ` set (questions s)"
      using g f by (simp add: by_key_None new_question_def)
    ultimately have "question_move (questions s) (questions t')" using Asked by simp
    then show ?thesis using 2(3) by (auto simp: asks_def)
  qed simp
qed

lemma mutate_cases:
  assumes "mutate h uuid i chg input a now s = Inr (v, s')"
  obtains q p where "question_get i s = Inr (q, s)" "question_receipt_of s
      (receipt_key (qy_origin a) (change_name chg @ '':'' @ i) (cm_idempotency_key input)) = Some p"
      "vq_question v = qc_result p" "s' = s"
  | q t rows where "question_get i s = Inr (q, s)" "permitted chg q a now s = Inr (True, s)"
      "qu_id q = ck_question_id input" "qu_attempt_id q = ck_attempt_id input"
      "change_new h i chg input q a now s = Inr (vq_question v, t)" "s' = t\<lparr>db_question_receipts := rows\<rparr>"
proof -
  from assms obtain q s1 s2 where 1: "question_get i s = Inr (q, s1)"
    and 2: "authorize_change i chg input q a now s1 = Inr ((), s2)"
    and g: "qu_id q = ck_question_id input" "qu_attempt_id q = ck_attempt_id input"
    and 3: "with_receipt (change_name chg @ '':'' @ i) (cm_idempotency_key input) (question_command_json input chg) a
      (change_new h i chg input q a now) now s2 = Inr (v, s')"
    by (auto simp: mutate_def tx_bind_ok tx_seq_ok)
  have s1: "s1 = s" using 1 by (simp add: question_get_ok)
  have s2: "s2 = s" using frozen_state [OF read_authorize_change 2] s1 by simp
  from 3 [unfolded s2] show thesis
  proof (cases rule: with_receipt_cases)
    case (1 p)
    with \<open>question_get i s = Inr (q, s1)\<close> s1 show thesis by (intro that(1)) auto
  next
    case (2 t rows)
    have "permitted chg q a now s = Inr (True, s)"
    proof -
      from \<open>authorize_change i chg input q a now s1 = Inr ((), s2)\<close> s1 obtain ok s3
        where p: "permitted chg q a now s = Inr (ok, s3)"
          and r: "ok \<or> question_receipt_of s3 (receipt_key (qy_origin a) (change_name chg @ '':'' @ i)
            (cm_idempotency_key input)) \<noteq> None"
        by (cases chg) (auto simp: authorize_change_def tx_run split: if_splits option.splits)
      have "s3 = s" by (rule frozen_state [OF read_permitted p])
      with p r 2(1) show ?thesis by auto
    qed
    with 2 g \<open>question_get i s = Inr (q, s1)\<close> s1 show thesis by (intro that(2)) auto
  qed
qed

lemma mutate_asks:
  assumes "mutate h uuid i chg input a now s = Inr (v, s')" and "questions_ok (questions s)"
  shows "asks s s'"
  using assms(1)
proof (cases rule: mutate_cases)
  case (2 q t rows)
  from 2(1) obtain r where r: "by_key wq_id i (questions s) = Some r" "q = wq_snapshot r"
    by (auto simp: question_get_ok)
  from by_key_Some [OF r(1)] assms(2) have "qu_id q = i" by (auto simp: questions_ok_def list_all_iff r(2))
  note run = change_new_run [OF 2(5)]
  have id: "qu_id (vq_question v) = i" using run(4) \<open>qu_id q = i\<close> by (simp add: evolves_def)
  have "question_move (questions s) (questions t)"
    unfolding run(5) by (rule Saved) (use r run(4) id in simp_all)
  then show ?thesis using 2(6) by (auto simp: asks_def)
qed simp

text \<open>Invalidation: every question of the attempt that is not withdrawn yet is.\<close>

lemma invalidate_evolves: "\<not> invalidated q \<Longrightarrow> evolves q (invalidate_question why now q)"
  by (auto simp: evolves_def invalidate_question_def)

definition withdraw_row :: "host \<Rightarrow> string \<Rightarrow> string \<Rightarrow> request_origin \<Rightarrow> int \<Rightarrow> work_question_row \<Rightarrow> unit ptx" where
  "withdraw_row h resource why orig now r = (let q = wq_snapshot r; updated = invalidate_question why now q in
     if invalidated q then tx_return ()
     else tx_seq (saveQuestion updated)
       (event h (if qu_state q = Q_open then ''question.superseded'' else ''question.invalidated'')
         resource orig [(''question_id'', JStr (qu_id q)), (''attempt_id'', JStr (qu_attempt_id q)),
           (''revision'', JNum (qu_revision updated)), (''reason'', JStr why)]
         (Some (qu_attempt_fence q))))"

lemma withdraw_row_run:
  assumes "withdraw_row h res why orig now r s = Inr (u, s')" and "questions_ok (questions s)"
    and "by_key wq_id (wq_id r) (questions s) = Some r" and "why \<noteq> []"
  shows "asks s s'" and "withdrawn_at (questions s') (wq_id r) = Some True"
    and "k \<noteq> wq_id r \<Longrightarrow> by_key wq_id k (questions s') = by_key wq_id k (questions s)"
proof -
  have "asks s s' \<and> withdrawn_at (questions s') (wq_id r) = Some True
    \<and> (k \<noteq> wq_id r \<longrightarrow> by_key wq_id k (questions s') = by_key wq_id k (questions s))"
  proof (cases "invalidated (wq_snapshot r)")
    case True
    with assms show ?thesis by (simp add: withdraw_row_def withdrawn_at_def)
  next
    case False
    let ?u = "invalidate_question why now (wq_snapshot r)"
    have id: "qu_id ?u = wq_id r"
      using by_key_Some [OF assms(3)] assms(2) by (auto simp: questions_ok_def list_all_iff invalidate_question_def)
    from assms(1) False obtain s1 where 1: "saveQuestion ?u s = Inr ((), s1)"
      and 2: "questions s' = questions s1"
      by (auto simp: withdraw_row_def Let_def tx_seq_ok dest: questions_frameD [OF questions_event])
    have key: "wq_id (store_question ?u x) = wq_id x" for x by (simp add: store_question_def)
    note q' = saveQuestion_questions [OF 1, folded 2, unfolded id]
    have "question_move (questions s) (questions s')"
      unfolding q' id [symmetric] using assms(3) id invalidate_evolves [OF False] by (intro Saved) auto
    then have "asks s s'" by (simp add: asks_def)
    moreover have "withdrawn_at (questions s') (wq_id r) = Some True"
      using assms(3,4) by (simp add: q' withdrawn_at_def by_key_set key) 
        (simp add: store_question_def invalidate_question_def invalidated_def)
    moreover have "by_key wq_id k (questions s') = by_key wq_id k (questions s)" if "k \<noteq> wq_id r"
      using that by (cases "by_key wq_id k (questions s)") (auto simp: q' by_key_set key dest: by_key_Some)
    ultimately show ?thesis by simp
  qed
  then show "asks s s'" "withdrawn_at (questions s') (wq_id r) = Some True"
    "k \<noteq> wq_id r \<Longrightarrow> by_key wq_id k (questions s') = by_key wq_id k (questions s)" by auto
qed

lemma asks_ok: "asks s s' \<Longrightarrow> questions_ok (questions s) \<Longrightarrow> questions_ok (questions s')"
  unfolding asks_def by (rule answers.inv_steps)

lemma withdraw_rows_run:
  assumes "tx_for rs (withdraw_row h res why orig now) s = Inr (u, s')" and "questions_ok (questions s)"
    and "distinct (map wq_id rs)" and "\<And>r. r \<in> set rs \<Longrightarrow> by_key wq_id (wq_id r) (questions s) = Some r"
    and "why \<noteq> []"
  shows "asks s s' \<and> (\<forall>r \<in> set rs. withdrawn_at (questions s') (wq_id r) = Some True)"
  using assms
proof (induction rs arbitrary: s)
  case (Cons r rs)
  from Cons.prems(1) obtain s1 where 1: "withdraw_row h res why orig now r s = Inr ((), s1)"
    and 2: "tx_for rs (withdraw_row h res why orig now) s1 = Inr (u, s')" by (auto simp: tx_seq_ok)
  note first = withdraw_row_run [OF 1 Cons.prems(2) Cons.prems(4) Cons.prems(5)]
  have ok: "questions_ok (questions s1)" by (rule asks_ok [OF first(1) Cons.prems(2)]) simp
  have "by_key wq_id (wq_id x) (questions s1) = Some x" if "x \<in> set rs" for x
    using withdraw_row_run(3) [OF 1 Cons.prems(2) Cons.prems(4) Cons.prems(5), of "wq_id x"]
      Cons.prems(3,4) that by (auto simp: image_iff)
  with Cons.IH [OF 2 ok] Cons.prems(3,5)
  have rest: "asks s1 s'" "\<forall>x \<in> set rs. withdrawn_at (questions s') (wq_id x) = Some True" by auto
  have "withdrawn_at (questions s') (wq_id r) = Some True"
    by (rule withdrawals.frozen [OF rest(1) [unfolded asks_def] ok first(2)]) simp_all
  with first(1) rest asks_trans show ?case by auto
qed simp

text \<open>What a question keeps through any moves.\<close>

definition question_core :: "work_question_row \<Rightarrow> string \<times> int \<times> question_actor \<times> question_binding option" where
  "question_core r = (wq_attempt_id r, qu_attempt_fence (wq_snapshot r), qu_requester (wq_snapshot r),
     qu_requester_binding (wq_snapshot r))"

lemma asks_row:
  assumes "asks s s'" and "questions_ok (questions s)" and "by_key wq_id k (questions s) = Some r"
  shows "\<exists>r'. by_key wq_id k (questions s') = Some r' \<and> question_core r' = question_core r"
  using assms(1) unfolding asks_def
proof (induction rule: rtranclp_induct)
  case base
  with assms(3) show ?case by simp
next
  case (step qs qs')
  have ok: "questions_ok qs" by (rule answers.inv_steps [OF step.hyps(1) assms(2)])
  note ok' = question_move_ok [OF step.hyps(2) ok]
  from step.IH obtain r1 where r1: "by_key wq_id k qs = Some r1" "question_core r1 = question_core r" by auto
  from move_row [OF step.hyps(2) r1(1)] obtain r2 where r2: "by_key wq_id k qs' = Some r2"
    "wq_snapshot r2 = wq_snapshot r1 \<or> evolves (wq_snapshot r1) (wq_snapshot r2)" by auto
  with by_key_Some [OF r1(1)] by_key_Some [OF r2(1)] ok ok' have "question_core r2 = question_core r1"
    by (auto simp: questions_ok_def list_all_iff question_core_def evolves_def)
  with r1 r2 show ?case by auto
qed

lemma invalidateQuestions_rows:
  assumes "invalidateQuestions h i why orig now s = Inr (u, s')"
  obtains t :: work_attempt where "by_key wa_id i (db_work_attempts s) = Some t"
    and "tx_for (filter (\<lambda>r. wq_attempt_id r = i) (questions s)) (withdraw_row h (wa_resource t) why orig now) s = Inr (u, s')"
proof -
  have rows: "(\<lambda>r. let q = wq_snapshot r; updated = invalidate_question why now q in
       if invalidated q then tx_return () else tx_seq (saveQuestion updated)
        (event h (if qu_state q = Q_open then ''question.superseded'' else ''question.invalidated'')
          res orig [(''question_id'', JStr (qu_id q)), (''attempt_id'', JStr (qu_attempt_id q)),
           (''revision'', JNum (qu_revision updated)), (''reason'', JStr why)] (Some (qu_attempt_fence q))))
     = withdraw_row h res why orig now" for res
    by (rule ext) (simp add: withdraw_row_def Let_def)
  show thesis
  proof (cases "by_key wa_id i (db_work_attempts s)")
    case None
    with assms show thesis by (simp add: invalidateQuestions_def tx_run)
  next
    case (Some t)
    with assms rows show thesis by (intro that [OF Some]) (simp add: invalidateQuestions_def tx_run)
  qed
qed

lemma invalidate_run:
  assumes "invalidateQuestions h i why orig now s = Inr (u, s')" and ok: "questions_ok (questions s)" and "why \<noteq> []"
  shows "asks s s'"
    and "r \<in> set (questions s) \<Longrightarrow> wq_attempt_id r = i \<Longrightarrow> withdrawn_at (questions s') (wq_id r) = Some True"
proof -
  let ?rs = "filter (\<lambda>r. wq_attempt_id r = i) (questions s)"
  from invalidateQuestions_rows [OF assms(1)] obtain t :: work_attempt
    where run: "tx_for ?rs (withdraw_row h (wa_resource t) why orig now) s = Inr (u, s')" by blast
  have "distinct (map wq_id ?rs)" using ok by (simp add: questions_ok_def distinct_map_filter)
  moreover have "by_key wq_id (wq_id r) (questions s) = Some r" if "r \<in> set ?rs" for r
    using that ok by (intro by_key_unique) (auto simp: questions_ok_def)
  ultimately have "asks s s' \<and> (\<forall>r \<in> set ?rs. withdrawn_at (questions s') (wq_id r) = Some True)"
    by (intro withdraw_rows_run [OF run ok _ _ assms(3)])
  then show "asks s s'"
    "r \<in> set (questions s) \<Longrightarrow> wq_attempt_id r = i \<Longrightarrow> withdrawn_at (questions s') (wq_id r) = Some True" by auto
qed

lemma invalidate_all_run:
  assumes "tx_for is (\<lambda>i. invalidateQuestions h i why orig now) s = Inr (u, s')" and "questions_ok (questions s)"
    and "why \<noteq> []"
  shows "asks s s' \<and> (\<forall>r \<in> set (questions s). wq_attempt_id r \<in> set is
    \<longrightarrow> withdrawn_at (questions s') (wq_id r) = Some True)"
  using assms
proof (induction "is" arbitrary: s)
  case (Cons i "is")
  from Cons.prems(1) obtain s1 where 1: "invalidateQuestions h i why orig now s = Inr ((), s1)"
    and 2: "tx_for is (\<lambda>i. invalidateQuestions h i why orig now) s1 = Inr (u, s')" by (auto simp: tx_seq_ok)
  note first = invalidate_run [OF 1 Cons.prems(2,3)]
  have ok: "questions_ok (questions s1)" by (rule asks_ok [OF first(1) Cons.prems(2)])
  note rest = Cons.IH [OF 2 ok Cons.prems(3)]
  have "withdrawn_at (questions s') (wq_id r) = Some True"
    if r: "r \<in> set (questions s)" "wq_attempt_id r \<in> set (i # is)" for r
  proof (cases "wq_attempt_id r = i")
    case True
    show ?thesis
      by (rule withdrawals.frozen [OF _ ok first(2) [OF r(1) True]]) (use rest in \<open>simp_all add: asks_def\<close>)
  next
    case False
    have "by_key wq_id (wq_id r) (questions s) = Some r"
      using r(1) Cons.prems(2) by (intro by_key_unique) (auto simp: questions_ok_def)
    from asks_row [OF first(1) Cons.prems(2) this] obtain r' where
      r': "by_key wq_id (wq_id r) (questions s1) = Some r'" "wq_attempt_id r' = wq_attempt_id r"
      by (auto simp: question_core_def)
    with by_key_Some [OF r'(1)] rest r(2) False show ?thesis by fastforce
  qed
  with first(1) rest asks_trans show ?case by blast
qed simp

definition asked_for :: "string \<Rightarrow> work_question_row \<Rightarrow> bool" where
  "asked_for i r \<longleftrightarrow> (case qu_requester_binding (wq_snapshot r) of None \<Rightarrow> False | Some b \<Rightarrow> qb_agent_id b = i)"

lemma invalidate_agent_run:
  assumes "invalidateAgentQuestions h i orig now why s = Inr (u, s')" and ok: "questions_ok (questions s)" and "why \<noteq> []"
  shows "asks s s'"
    and "r \<in> set (questions s) \<Longrightarrow> asked_for i r \<Longrightarrow> withdrawn_at (questions s') (wq_id r) = Some True"
proof -
  let ?is = "first_occurrences (map wq_attempt_id (filter (\<lambda>r. asked_for i r \<and> \<not> invalidated (wq_snapshot r)) (questions s)))"
  from assms(1) have "tx_for ?is (\<lambda>i. invalidateQuestions h i why orig now) s = Inr (u, s')"
    by (simp add: invalidateAgentQuestions_def tx_bind_ok asked_for_def [abs_def])
  from invalidate_all_run [OF this ok assms(3)]
  have run: "asks s s'" "\<And>r. r \<in> set (questions s) \<Longrightarrow> wq_attempt_id r \<in> set ?is \<Longrightarrow>
    withdrawn_at (questions s') (wq_id r) = Some True" by auto
  then show "asks s s'" by simp
  assume r: "r \<in> set (questions s)" "asked_for i r"
  show "withdrawn_at (questions s') (wq_id r) = Some True"
  proof (cases "invalidated (wq_snapshot r)")
    case True
    have "by_key wq_id (wq_id r) (questions s) = Some r"
      using r(1) ok by (intro by_key_unique) (auto simp: questions_ok_def)
    with True have "withdrawn_at (questions s) (wq_id r) = Some True" by (simp add: withdrawn_at_def)
    from withdrawals.frozen [OF run(1) [unfolded asks_def] ok this] show ?thesis by simp
  next
    case False
    with r run(2) [OF r(1)] show ?thesis by (auto simp: first_occurrences_def)
  qed
qed

section \<open>Steps\<close>

text \<open>Every write of the table of questions: a question asked or changed, an attempt or an agent that
  withdraws its questions. The last rule stands for everything that leaves the table alone.\<close>

inductive question_step :: "db \<Rightarrow> db \<Rightarrow> bool" where
  qs_ask: "ask h uuid c_ask a now s = Inr (v, s') \<Longrightarrow> question_step s s'"
| qs_change: "mutate h uuid i chg input a now s = Inr (v, s') \<Longrightarrow> question_step s s'"
| qs_attempt: "invalidateQuestions h i why orig now s = Inr (u, s') \<Longrightarrow> why \<noteq> [] \<Longrightarrow> question_step s s'"
| qs_agent: "invalidateAgentQuestions h i orig now why s = Inr (u, s') \<Longrightarrow> why \<noteq> [] \<Longrightarrow> question_step s s'"
| qs_elsewhere: "questions s' = questions s \<Longrightarrow> question_step s s'"

lemma question_step_asks:
  assumes "question_step s s'" and "questions_ok (questions s)"
  shows "asks s s'"
  using assms(1)
  by cases (use assms(2) in \<open>auto intro: ask_asks mutate_asks invalidate_run invalidate_agent_run\<close>)

lemma question_steps_asks:
  assumes "question_step\<^sup>*\<^sup>* s s'" and "questions_ok (questions s)"
  shows "asks s s'" and "questions_ok (questions s')"
proof -
  have "asks s s' \<and> questions_ok (questions s')"
    using assms(1)
    by (induction rule: rtranclp_induct)
      (use assms(2) in \<open>auto dest: question_step_asks intro: asks_trans asks_ok\<close>)
  then show "asks s s'" "questions_ok (questions s')" by auto
qed

lemma questions_talk: "tx_inv (\<lambda>s. P (questions s)) (tx_write (set_talk f))"
  by (rule tx_inv_write) simp

lemma attach_withdraws:
  assumes "replace_binding h a request r au now s = Inr (b, s')" and "questions_ok (questions s)"
  shows "question_step\<^sup>*\<^sup>* s s'"
    and "q \<in> set (questions s) \<Longrightarrow> asked_for (ag_id a) q \<Longrightarrow> withdrawn_at (questions s') (wq_id q) = Some True"
proof -
  define prev where "prev = current_binding s (ag_id a)"
  from assms(1) obtain u s1 s2 s3 s4 where
    1: "(case prev of None \<Rightarrow> tx_return () | Some p \<Rightarrow> tx_seq (tx_guard (may_replace a p r au) agent_denied)
           (set_binding (ab_consumer_binding_id p) (end_binding B_replaced now))) s = Inr (u, s1)"
    and 2: "invalidateAgentQuestions h (ag_id a) (runtime_origin au r) now ''requesting agent binding replaced'' s1
           = Inr ((), s2)"
    and 3: "set_agent (ag_id a) (\<lambda>x. x\<lparr>ag_binding_epoch := ag_binding_epoch a + 1, ag_updated_at := now\<rparr>) s2
           = Inr ((), s3)"
    and 4: "insert_binding (new_binding h a request r now) s3 = Inr ((), s4)"
    and 5: "rearm (ag_id a) now False s4 = Inr ((), s')"
    by (auto simp: replace_binding_def tx_run prev_def)
  have q1: "questions s1 = questions s"
    using 1 by (cases prev) (auto simp: tx_run set_binding_def write_bindings_def)
  have "tx_inv (\<lambda>s. P (questions s)) (rearm (ag_id a) now False)" for P
    unfolding rearm_def write_outbox_def by (intro tx_wp questions_talk)
  from questions_frameD [OF this 5] have "questions s' = questions s4" .
  moreover have "questions s4 = questions s3" using 4 by (auto simp: insert_binding_ok)
  moreover have "questions s3 = questions s2" using 3 by (simp add: set_agent_def write_agents_def)
  ultimately have q2: "questions s' = questions s2" by simp
  have "question_step s s1" "question_step s2 s'" by (rule qs_elsewhere, rule q1) (rule qs_elsewhere, rule q2)
  moreover have "question_step s1 s2" by (rule qs_agent [OF 2]) simp
  ultimately show "question_step\<^sup>*\<^sup>* s s'" by (meson r_into_rtranclp rtranclp.rtrancl_into_rtrancl)
  show "q \<in> set (questions s) \<Longrightarrow> asked_for (ag_id a) q \<Longrightarrow> withdrawn_at (questions s') (wq_id q) = Some True"
    using invalidate_agent_run(2) [OF 2, of q] assms(2) q1 q2 by simp
qed

end
