(* ===== verification/Consultation.thy ===== *)
theory Consultation
  imports Answers Talk_Samples
begin

text \<open>
  The guarantees of questions: an answer is given once, by the routed responder, and stands; and the
  session that replaces the asker is never told that an answer applies to it.
\<close>

section \<open>A run\<close>

definition inquiry_attempt :: work_attempt where
  "inquiry_attempt = \<lparr>wa_id = ''t'', wa_entry_id = ''e'', wa_task_id = ''k'', wa_resource = ''task:k'',
     wa_principal_id = ''p'', wa_participant_id = ''p'', wa_state = Running, wa_revision = 2, wa_fence = 7,
     wa_lease_expires_at = Some 1000, wa_accepted_at = Some 1, wa_session = None, wa_checkpoint = None,
     wa_cancellation_requested = False, wa_suspension_requested = False, wa_predecessor_id = None,
     wa_outcome = None, wa_created_at = 0, wa_updated_at = 1, wa_finished_at = None, wa_revisions = None\<rparr>"

definition inquiry_db :: db where
  "inquiry_db = talk_db\<lparr>db_work_attempts := [inquiry_attempt],
     db_fences := [\<lparr>fe_resource = ''task:k'', fe_current_fence = 7\<rparr>],
     db_claims := [\<lparr>cl_resource = ''task:k'', cl_principal_id = ''p'', cl_participant_id = ''p'',
       cl_environment = [], cl_mode = Exclusive, cl_fence = 7, cl_acquired_at = 0, cl_expires_at = 1000,
       cl_metadata = []\<rparr>]\<rparr>"

definition inquiry_ask :: ask_command where
  "inquiry_ask = \<lparr>cm_idempotency_key = ''k1'', cm_expected_revision = 2, cm_fence = 7, cq_id = ''u'',
     cq_attempt_id = ''t'', cq_text = ''which?'', cq_responder_principal_id = ''o'', cq_predecessor_id = None,
     cq_discussion = []\<rparr>"

definition inquiry_change :: question_command where
  "inquiry_change = \<lparr>cm_idempotency_key = ''k2'', ck_question_id = ''u'', ck_expected_revision = 1,
     ck_attempt_id = ''t'', ck_attempt_revision = 2, ck_attempt_fence = 7\<rparr>"

definition inquirer :: question_authority where
  "inquirer = \<lparr>qy_origin = system_origin ''p'', qy_can_manage = False, qy_is_owner = False,
     qy_conversation = talk_author ''a'' ''r1''\<rparr>"

definition answerer :: question_authority where
  "answerer = \<lparr>qy_origin = system_origin ''o'', qy_can_manage = False, qy_is_owner = True,
     qy_conversation = talk_author ''b'' ''q2''\<rparr>"

definition any_id :: "string \<Rightarrow> bool" where
  "any_id i = True"

definition inquiry_question :: question where
  "inquiry_question = new_question inquiry_ask inquiry_attempt (Some (talk_binding ''b1'' ''a'' ''r1'' 1 B_active)) inquirer 5"

text \<open>The question was asked; it was answered.\<close>

definition asked_db :: db where
  "asked_db = inquiry_db\<lparr>db_work_questions := [question_row inquiry_question]\<rparr>"

definition answered_db :: db where
  "answered_db = inquiry_db\<lparr>db_work_questions := [question_row (inquiry_question\<lparr>qu_revision := 2, qu_state := Q_answered,
     qu_answer := Some \<lparr>qw_text = ''this'', qw_actor = question_actor_of answerer, qw_revision = 2, qw_at = 6\<rparr>\<rparr>)]\<rparr>"

definition after_answer :: db where
  "after_answer = after (answer_question (sample_host 6 ''u'') any_id ''u'' ''this'' inquiry_change answerer 6) asked_db"

definition reattached_db :: db where
  "reattached_db = after (agent_attach (sample_host 7 ''z'') ''a'' talk_attach (talk_manager ''a'' ''r9'') 7) answered_db"

lemma answer_runs: "ran (answer_question (sample_host 6 ''u'') any_id ''u'' ''this'' inquiry_change answerer 6) asked_db"
  by code_simp

lemma reattach_runs: "ran (agent_attach (sample_host 7 ''z'') ''a'' talk_attach (talk_manager ''a'' ''r9'') 7) answered_db"
  by code_simp

lemma applies_before: "vq_answer_applicable (result_of (question_view ''u'' inquirer 7) answered_db)"
  by code_simp

section \<open>An answer is given once\<close>

lemma question_get_some: "by_key wq_id i (questions s) = Some r \<Longrightarrow> question_get i s = Inr (wq_snapshot r, s)"
  by (simp add: question_get_ok)

lemma closed_question_kept:
  assumes "questions_ok (questions s)" and "question_step\<^sup>*\<^sup>* s t"
    and "question_get i s = Inr (q, s)" and "qu_state q \<noteq> Q_open"
  shows "\<exists>u. question_get i t = Inr (u, t) \<and> qu_state u = qu_state q \<and> qu_answer u = qu_answer q"
proof -
  from assms(3) have "closed_as (questions s) i = Some (qu_state q, qu_answer q)"
    by (auto simp: question_get_ok closed_as_def)
  from answers.frozen [OF question_steps_asks(1) [OF assms(2,1), unfolded asks_def] assms(1) this] assms(4)
  have "closed_as (questions t) i = Some (qu_state q, qu_answer q)" by simp
  then show ?thesis by (auto simp: closed_as_def dest: question_get_some)
qed

lemma answer_given:
  assumes run: "answer_question h uuid i txt input a now s = Inr (v, s')" and ok: "questions_ok (questions s)"
    and new: "question_receipt_of s (receipt_key (qy_origin a) (''answer:'' @ i) (cm_idempotency_key input)) = None"
  obtains q where "question_get i s = Inr (q, s)" "responder q a" "qu_state q = Q_open" "\<not> invalidated q"
    "qu_revision q = ck_expected_revision input" "question_get i s' = Inr (vq_question v, s')"
    "qu_state (vq_question v) = Q_answered"
    "qu_answer (vq_question v) = Some \<lparr>qw_text = txt, qw_actor = question_actor_of a,
       qw_revision = ck_expected_revision input + 1, qw_at = now\<rparr>"
proof -
  from run [unfolded answer_question_def] show thesis
  proof (cases rule: mutate_cases)
    case (1 q p)
    with new show thesis by (simp add: change_name_def)
  next
    case (2 q t rows)
    note c = change_new_run [OF 2(5)]
    from 2(1) obtain r where r: "by_key wq_id i (questions s) = Some r" "q = wq_snapshot r"
      by (auto simp: question_get_ok)
    have id: "qu_id (vq_question v) = i"
      using by_key_Some [OF r(1)] ok c(4) by (auto simp: questions_ok_def list_all_iff r(2) evolves_def)
    have key: "wq_id (store_question x y) = wq_id y" for x y by (simp add: store_question_def)
    have "question_get i s' = Inr (vq_question v, s')"
      using r(1) by_key_Some [OF r(1)]
      by (simp add: 2(6) question_get_ok c(5) id by_key_set key) (simp add: store_question_def)
    with 2(1,2) c(1,2,3) show thesis
      by (intro that) (auto simp: permitted_def tx_run apply_change_def is_link_def)
  qed
qed

text \<open>C24. An answer that is not a repetition of a recorded command comes from the principal the question is
  routed to (the owner once it was escalated), meets an open question that was not withdrawn at the
  revision the command names, and from then on, whatever is asked, answered, escalated, cancelled,
  linked, withdrawn or run elsewhere, the question reads as answered with that text by that actor.\<close>

theorem answer_stands:
  assumes "questions_ok (questions s)"
    and "answer_question h uuid i txt input a now s = Inr (v, s')"
    and "question_receipt_of s (receipt_key (qy_origin a) (''answer:'' @ i) (cm_idempotency_key input)) = None"
    and "question_step\<^sup>*\<^sup>* s' t"
  shows "\<exists>q u. question_get i s = Inr (q, s) \<and> responder q a \<and> qu_state q = Q_open \<and> \<not> invalidated q
    \<and> qu_revision q = ck_expected_revision input
    \<and> question_get i t = Inr (u, t) \<and> qu_state u = Q_answered
    \<and> qu_answer u = Some \<lparr>qw_text = txt, qw_actor = question_actor_of a,
        qw_revision = ck_expected_revision input + 1, qw_at = now\<rparr>"
proof -
  have ok': "questions_ok (questions s')"
    using asks_ok mutate_asks assms(1,2) unfolding answer_question_def by blast
  show ?thesis
    using answer_given [OF assms(2,1,3)] closed_question_kept [OF ok' assms(4)] by (metis question_state.distinct(1))
qed

lemma inquiry_ok: "questions_ok (questions asked_db)" "questions_ok (questions answered_db)"
  by code_simp+

lemma answer_fresh:
  "question_receipt_of asked_db (receipt_key (qy_origin answerer) (''answer:'' @ ''u'') (cm_idempotency_key inquiry_change)) = None"
  by code_simp

theorem answer_stands_witness:
  "\<exists>u. question_get ''u'' after_answer = Inr (u, after_answer) \<and> qu_state u = Q_answered
     \<and> map_option qw_text (qu_answer u) = Some ''this''"
  using answer_stands [OF inquiry_ok(1) runs [OF answer_runs, folded after_answer_def] answer_fresh rtranclp.rtrancl_refl]
  by auto

section \<open>A replaced session\<close>

lemma withdrawn_not_applicable:
  assumes "questions_ok (questions t)" and "withdrawn_at (questions t) i = Some True"
    and "question_view i a now t = Inr (v, t')"
  shows "\<not> vq_answer_applicable v"
proof -
  from assms(2) obtain r where r: "by_key wq_id i (questions t) = Some r" "invalidated (wq_snapshot r)"
    by (auto simp: withdrawn_at_def)
  with by_key_Some [OF r(1)] assms(1) have "qu_id (wq_snapshot r) = i" by (auto simp: questions_ok_def list_all_iff)
  with r assms(3) show ?thesis
    by (auto simp: question_view_def with_applicable_def applicable_def tx_run question_get_ok)
qed

text \<open>C25. A run that takes over an agent by a new attachment never collects what its predecessor asked:
  for every question asked on behalf of the agent before, no view of any caller in any later state says
  that its answer is applicable.\<close>

theorem replaced_session_answers_dead:
  assumes "questions_ok (questions s)" and "agent_attach h i input au now s = Inr (b, s')"
    and "ab_consumer_binding_id b \<notin> ab_consumer_binding_id ` set (bindings s)"
    and "r \<in> set (questions s)" and "asked_for i r"
    and "question_step\<^sup>*\<^sup>* s' t" and "question_view (wq_id r) a later t = Inr (v, t')"
  shows "\<not> vq_answer_applicable v"
  using assms(2)
proof (cases rule: attach_cases)
  case (1 run ag)
  have ag: "ag_id ag = i" using by_key_Some [OF 1(3)] by simp
  note w = attach_withdraws [OF 1(9) assms(1)]
  have "withdrawn_at (questions s') (wq_id r) = Some True" using w(2) assms(4,5) ag by simp
  moreover note ok' = question_steps_asks(2) [OF w(1) assms(1)]
  ultimately have "withdrawn_at (questions t) (wq_id r) = Some True"
    using withdrawals.frozen [OF question_steps_asks(1) [OF assms(6) ok', unfolded asks_def] ok'] by simp
  with question_steps_asks(2) [OF assms(6) ok'] assms(7) show ?thesis by (intro withdrawn_not_applicable)
next
  case (2 run ag p)
  then have "p \<in> set (bindings s)" by (auto dest: row_find_Some)
  with 2(7) assms(3) show ?thesis by (auto simp: renew_binding_def tx_run)
qed

lemma reattach_id: "ab_consumer_binding_id (result_of (agent_attach (sample_host 7 ''z'') ''a'' talk_attach
    (talk_manager ''a'' ''r9'') 7) answered_db) = ''z''"
  by code_simp

lemma answered_bindings: "map ab_consumer_binding_id (bindings answered_db) = [''b1'', ''c1'', ''c2'']"
  by code_simp

lemma reattach_new:
  "ab_consumer_binding_id (result_of (agent_attach (sample_host 7 ''z'') ''a'' talk_attach (talk_manager ''a'' ''r9'') 7)
     answered_db) \<notin> ab_consumer_binding_id ` set (bindings answered_db)"
  unfolding reattach_id set_map [symmetric] answered_bindings by simp

lemma answered_length: "length (questions answered_db) = 1"
  by code_simp

lemma answered_question: "hd (questions answered_db) \<in> set (questions answered_db)"
  using answered_length by (cases "questions answered_db") auto

lemma answered_for: "asked_for ''a'' (hd (questions answered_db))"
  by code_simp

lemma review_runs: "ran (question_view (wq_id (hd (questions answered_db))) inquirer 8) reattached_db"
  by code_simp

theorem replaced_session_answers_dead_witness:
  "vq_answer_applicable (result_of (question_view ''u'' inquirer 7) answered_db)
   \<and> \<not> vq_answer_applicable (result_of (question_view (wq_id (hd (questions answered_db))) inquirer 8) reattached_db)"
  by (rule conjI [OF applies_before replaced_session_answers_dead [OF inquiry_ok(2)
    runs [OF reattach_runs, folded reattached_db_def] reattach_new answered_question answered_for rtranclp.rtrancl_refl runs [OF review_runs]]])

end
