(* ===== verification/Signals.thy ===== *)
theory Signals
  imports Agents
begin

text \<open>
  Signals between participants: \<^verbatim>\<open>packages/ops-sqlite/src/signal-ops.ts\<close>. A signal is stored with one
  delivery for each recipient it had when it was sent; the recipient acknowledges its own delivery
  before the signal expires; groups are named audiences under the settings revision.
\<close>

section \<open>Tables\<close>

abbreviation signals :: "db \<Rightarrow> signal_row list" where
  "signals s \<equiv> tk_signals (db_talk s)"

abbreviation signal_deliveries :: "db \<Rightarrow> signal_delivery_row list" where
  "signal_deliveries s \<equiv> tk_signal_deliveries (db_talk s)"

abbreviation signal_groups :: "db \<Rightarrow> signal_group_row list" where
  "signal_groups s \<equiv> tk_signal_groups (db_talk s)"

abbreviation group_members :: "db \<Rightarrow> signal_group_member_row list" where
  "group_members s \<equiv> tk_signal_group_members (db_talk s)"

definition write_signals :: "(signal_row list \<Rightarrow> signal_row list) \<Rightarrow> unit ptx" where
  "write_signals f = tx_write (set_talk (\<lambda>k. k\<lparr>tk_signals := f (tk_signals k)\<rparr>))"

definition write_signal_deliveries :: "(signal_delivery_row list \<Rightarrow> signal_delivery_row list) \<Rightarrow> unit ptx" where
  "write_signal_deliveries f = tx_write (set_talk (\<lambda>k. k\<lparr>tk_signal_deliveries := f (tk_signal_deliveries k)\<rparr>))"

definition write_groups :: "(signal_group_row list \<Rightarrow> signal_group_row list) \<Rightarrow> unit ptx" where
  "write_groups f = tx_write (set_talk (\<lambda>k. k\<lparr>tk_signal_groups := f (tk_signal_groups k)\<rparr>))"

definition write_group_members :: "(signal_group_member_row list \<Rightarrow> signal_group_member_row list) \<Rightarrow> unit ptx" where
  "write_group_members f = tx_write (set_talk (\<lambda>k. k\<lparr>tk_signal_group_members := f (tk_signal_group_members k)\<rparr>))"

text \<open>The primary key of a delivery.\<close>

definition sd_key :: "signal_delivery_row \<Rightarrow> string \<times> string \<times> string" where
  "sd_key d = (sd_signal_id d, si_principal_id (sd_recipient d), si_participant_id (sd_recipient d))"

section \<open>Sending\<close>

definition DEFAULT_TTL_MS :: int where
  "DEFAULT_TTL_MS = 300000"

definition ACTIVE_PRESENCE_TTL_MS :: int where
  "ACTIVE_PRESENCE_TTL_MS = 60000"

record send_signal =
  ss_target :: signal_target
  ss_kind :: signal_kind
  ss_resource :: "string option"
  ss_payload :: "json option"
  ss_ttl_ms :: "int option"
  ss_sender :: signal_identity

text \<open>Participants seen within the last minute that \<open>who\<close> admits, without the sender. \<open>collate\<close> is the
  collation key of the locale: \<open>localeCompare\<close> orders texts by it.\<close>

definition active_recipients ::
    "(string \<Rightarrow> string) \<Rightarrow> (string \<Rightarrow> bool) \<Rightarrow> signal_identity \<Rightarrow> int \<Rightarrow> db \<Rightarrow> signal_identity list" where
  "active_recipients collate who sender now s =
     sort_key (\<lambda>i. collate (si_principal_id i @ CHR 0x00 # si_participant_id i))
      (map (\<lambda>p. \<lparr>si_principal_id = pr_principal_id p, si_participant_id = pr_participant_id p,
          si_display_name = None, si_environment = pr_environment p\<rparr>)
        (filter (\<lambda>p. who (pr_principal_id p) \<and> \<not> (pr_principal_id p = si_principal_id sender
            \<and> pr_participant_id p = si_participant_id sender))
          (filter (\<lambda>p. now - ACTIVE_PRESENCE_TTL_MS < pr_last_seen p) (db_presence s))))"

definition members_of :: "db \<Rightarrow> string \<Rightarrow> string list" where
  "members_of s g = map gm_principal_id (filter (\<lambda>m. gm_group_id m = g) (group_members s))"

definition resolveRecipients ::
    "(string \<Rightarrow> string) \<Rightarrow> signal_target \<Rightarrow> signal_identity \<Rightarrow> int \<Rightarrow> db \<Rightarrow> error + signal_identity list" where
  "resolveRecipients collate t sender now s = (case t of
      T_participant p q \<Rightarrow> Inr [\<lparr>si_principal_id = p, si_participant_id = q, si_display_name = None,
        si_environment = []\<rparr>]
    | T_principal p \<Rightarrow> Inr (active_recipients collate (\<lambda>x. x = p) sender now s)
    | T_group g \<Rightarrow> (case by_key gr_id g (signal_groups s) of
          None \<Rightarrow> Inl (SignalGroupNotFoundError g)
        | Some _ \<Rightarrow> Inr (active_recipients collate (\<lambda>x. x \<in> set (members_of s g)) sender now s))
    | T_broadcast \<Rightarrow> Inr (active_recipients collate (\<lambda>_. True) sender now s))"

definition insert_signal :: "signal_row \<Rightarrow> unit ptx" where
  "insert_signal r = tx_bind (tx_read (\<lambda>s. by_key sg_id (sg_id r) (signals s))) (\<lambda>row.
     tx_seq (tx_guard (row = None) (SqliteError ''signals'')) (write_signals (\<lambda>rs. rs @ [r])))"

definition insert_signal_deliveries :: "signal_delivery_row list \<Rightarrow> unit ptx" where
  "insert_signal_deliveries ds = tx_bind (tx_read signal_deliveries) (\<lambda>rows.
     tx_seq (tx_guard (distinct (map sd_key (rows @ ds))) (SqliteError ''signal_deliveries''))
       (write_signal_deliveries (\<lambda>rs. rs @ ds)))"

definition new_signal :: "string \<Rightarrow> send_signal \<Rightarrow> int \<Rightarrow> signal_row" where
  "new_signal i p now = \<lparr>sg_id = i, sg_target = ss_target p, sg_kind = ss_kind p, sg_resource = ss_resource p,
     sg_payload = (case ss_payload p of None \<Rightarrow> JObj [] | Some v \<Rightarrow> v), sg_sender = ss_sender p,
     sg_created_at = now,
     sg_expires_at = now + (case ss_ttl_ms p of None \<Rightarrow> DEFAULT_TTL_MS | Some t \<Rightarrow> t)\<rparr>"

definition new_signal_delivery :: "string \<Rightarrow> signal_identity \<Rightarrow> signal_delivery_row" where
  "new_signal_delivery i r = \<lparr>sd_signal_id = i, sd_recipient = r, sd_acknowledged_at = None,
     sd_acknowledged_by = None\<rparr>"

definition send ::
    "host \<Rightarrow> (string \<Rightarrow> string) \<Rightarrow> send_signal \<Rightarrow> int \<Rightarrow> (string \<times> nat) ptx" where
  "send h collate p now =
     tx_bind (tx_read (resolveRecipients collate (ss_target p) (ss_sender p) now)) (\<lambda>found.
     tx_bind (tx_lift found) (\<lambda>recipients.
     let i = ''sig_'' @ random_uuid h in
     tx_seq (tx_guard (recipients \<noteq> []) NoActiveRecipientsError)
    (tx_seq (insert_signal (new_signal i p now))
    (tx_seq (insert_signal_deliveries (map (new_signal_delivery i) recipients))
    (tx_return (i, length recipients))))))"

section \<open>Reading\<close>

record delivery_shown =
  ds_recipient :: signal_identity
  ds_acknowledged_at :: "int option"
  ds_acknowledged_by :: "signal_identity option"

record signal_shown =
  sv_signal :: signal_row
  sv_deliveries :: "delivery_shown list"

definition deliveriesFor :: "db \<Rightarrow> string \<Rightarrow> delivery_shown list" where
  "deliveriesFor s i = map (\<lambda>d. \<lparr>ds_recipient = sd_recipient d, ds_acknowledged_at = sd_acknowledged_at d,
      ds_acknowledged_by = (if sd_acknowledged_at d = None then None else sd_acknowledged_by d)\<rparr>)
    (filter (\<lambda>d. sd_signal_id d = i) (signal_deliveries s))"

definition toSignal :: "db \<Rightarrow> signal_row \<Rightarrow> signal_shown" where
  "toSignal s r = \<lparr>sv_signal = r, sv_deliveries = deliveriesFor s (sg_id r)\<rparr>"

text \<open>Newest first, by time and then by id.\<close>

definition newest_first :: "signal_row list \<Rightarrow> signal_row list" where
  "newest_first rs = rev (sort_key (\<lambda>r. (sg_created_at r, sg_id r)) rs)"

definition addressed :: "string \<Rightarrow> string \<Rightarrow> signal_identity \<Rightarrow> bool" where
  "addressed p q i \<longleftrightarrow> si_principal_id i = p \<and> si_participant_id i = q"

definition inbox :: "db \<Rightarrow> string \<Rightarrow> string \<Rightarrow> int \<Rightarrow> signal_shown list" where
  "inbox s p q now =
     map (\<lambda>g. (toSignal s g)\<lparr>sv_deliveries := filter (\<lambda>d. addressed p q (ds_recipient d)) (deliveriesFor s (sg_id g))\<rparr>)
      (newest_first (concat (map (\<lambda>g. map (\<lambda>_. g) (filter (\<lambda>d. sd_signal_id d = sg_id g
          \<and> addressed p q (sd_recipient d) \<and> sd_acknowledged_at d = None \<and> now < sg_expires_at g)
          (signal_deliveries s))) (signals s))))"

text \<open>A cursor is the time and the id of the last signal of a page. \<open>decimal\<close> reads the numerals the code
  writes itself; the other numerals \<open>Number\<close> reads, with blanks, fractions or exponents, count as
  malformed here.\<close>

definition decimal :: "string \<Rightarrow> int option" where
  "decimal t = (case t of
      [] \<Rightarrow> None
    | c # ds \<Rightarrow> if c = CHR ''-'' then (if ds \<noteq> [] \<and> list_all digit ds then Some (- int (digits_value ds)) else None)
        else if list_all digit t then Some (int (digits_value t)) else None)"

definition encode_position :: "signal_row \<Rightarrow> string" where
  "encode_position r = int_str (sg_created_at r) @ CHR '':'' # sg_id r"

definition decodeCursor :: "string \<Rightarrow> (int \<times> string) option" where
  "decodeCursor c = (let t = takeWhile (\<lambda>x. x \<noteq> CHR '':'') c; i = drop (length t + 1) c in
     if length t = length c \<or> t = [] then None
     else (case decimal t of None \<Rightarrow> None | Some n \<Rightarrow> if i = [] then None else Some (n, i)))"

definition before_cursor :: "(int \<times> string) option \<Rightarrow> signal_row \<Rightarrow> bool" where
  "before_cursor c r \<longleftrightarrow> (case c of None \<Rightarrow> True
     | Some (t, i) \<Rightarrow> sg_created_at r < t \<or> (sg_created_at r = t \<and> sg_id r < i))"

definition page_size :: "int option \<Rightarrow> nat" where
  "page_size limit = nat (min 100 (max 1 (case limit of None \<Rightarrow> 50 | Some l \<Rightarrow> l)))"

definition history_signals :: "db \<Rightarrow> int option \<Rightarrow> string option \<Rightarrow> int \<Rightarrow> signal_shown list \<times> string option" where
  "history_signals s limit cursor now =
    (let n = page_size limit;
         c = (if filled cursor then decodeCursor (the cursor) else None);
         rows = take (n + 1) (newest_first (filter (\<lambda>r. now < sg_expires_at r \<and> before_cursor c r) (signals s)));
         page = take n rows in
     (map (toSignal s) page,
      if length rows > n \<and> page \<noteq> [] then Some (encode_position (last page)) else None))"

section \<open>Acknowledging\<close>

record ack_result =
  ar_found :: bool
  ar_authorized :: bool
  ar_expired :: bool

definition ack_done :: "bool \<Rightarrow> bool \<Rightarrow> bool \<Rightarrow> ack_result" where
  "ack_done f a e = \<lparr>ar_found = f, ar_authorized = a, ar_expired = e\<rparr>"

definition delivered_to :: "string \<Rightarrow> signal_identity \<Rightarrow> signal_delivery_row \<Rightarrow> bool" where
  "delivered_to i who d \<longleftrightarrow> sd_signal_id d = i
     \<and> addressed (si_principal_id who) (si_participant_id who) (sd_recipient d)"

definition ack :: "string \<Rightarrow> signal_identity \<Rightarrow> int \<Rightarrow> ack_result ptx" where
  "ack i who now = tx_bind (tx_read (\<lambda>s. by_key sg_id i (signals s))) (\<lambda>row. case row of
      None \<Rightarrow> tx_return (ack_done False False False)
    | Some g \<Rightarrow>
        if sg_expires_at g \<le> now then tx_return (ack_done True False True)
        else tx_bind (tx_read (\<lambda>s. row_find (delivered_to i who) (signal_deliveries s))) (\<lambda>found. case found of
            None \<Rightarrow> tx_return (ack_done True False False)
          | Some d \<Rightarrow>
              if sd_acknowledged_at d \<noteq> None then tx_return (ack_done True True False)
              else tx_seq (write_signal_deliveries (rows_set
                     (\<lambda>x. delivered_to i who x \<and> sd_acknowledged_at x = None)
                     (\<lambda>x. x\<lparr>sd_acknowledged_at := Some now, sd_acknowledged_by := Some who\<rparr>)))
                   (tx_return (ack_done True True False))))"

section \<open>Groups\<close>

record group_shown =
  gv_id :: string
  gv_name :: string
  gv_principal_ids :: "string list"
  gv_revision :: int
  gv_created_at :: int
  gv_updated_at :: int

definition toGroup :: "db \<Rightarrow> signal_group_row \<Rightarrow> group_shown" where
  "toGroup s r = \<lparr>gv_id = gr_id r, gv_name = gr_name r, gv_principal_ids = sort (members_of s (gr_id r)),
     gv_revision = gr_revision r, gv_created_at = gr_created_at r, gv_updated_at = gr_updated_at r\<rparr>"

definition listGroups :: "db \<Rightarrow> group_shown list" where
  "listGroups s = map (toGroup s) (sort_key (\<lambda>r. (gr_name r, gr_id r)) (signal_groups s))"

definition getGroup :: "db \<Rightarrow> string \<Rightarrow> group_shown option" where
  "getGroup s i = map_option (toGroup s) (by_key gr_id i (signal_groups s))"

definition groupEvent :: "host \<Rightarrow> string \<Rightarrow> string \<Rightarrow> string \<Rightarrow> string \<Rightarrow> jobj \<Rightarrow> unit ptx" where
  "groupEvent h kind i p q data = appendJournal h kind (''signal-group:'' @ i)
     \<lparr>or_principalId = p, or_participantId = q, or_environment = [], or_actor = '''', or_tokenId = None,
      or_source = None, or_sourceVersion = None\<rparr> None data"

definition upsert_group ::
    "string \<Rightarrow> string \<Rightarrow> string \<Rightarrow> string \<Rightarrow> int \<Rightarrow> int \<Rightarrow> signal_group_row list \<Rightarrow> signal_group_row list" where
  "upsert_group i name p q revision now = rows_upsert gr_id
     \<lparr>gr_id = i, gr_name = name, gr_revision = revision, gr_created_at = now, gr_updated_at = now,
      gr_created_by_principal_id = p, gr_created_by_participant_id = q,
      gr_updated_by_principal_id = p, gr_updated_by_participant_id = q\<rparr>
     (\<lambda>r. r\<lparr>gr_name := name, gr_revision := revision, gr_updated_at := now,
        gr_updated_by_principal_id := p, gr_updated_by_participant_id := q\<rparr>)"

definition replace_members ::
    "string \<Rightarrow> string list \<Rightarrow> string \<Rightarrow> string \<Rightarrow> int \<Rightarrow> signal_group_member_row list \<Rightarrow> signal_group_member_row list" where
  "replace_members i ps p q now rows = rows_delete (\<lambda>m. gm_group_id m = i) rows @ map (\<lambda>x.
     \<lparr>gm_group_id = i, gm_principal_id = x, gm_added_at = now, gm_added_by_principal_id = p,
      gm_added_by_participant_id = q\<rparr>) ps"

definition setGroup ::
    "host \<Rightarrow> string \<Rightarrow> string \<Rightarrow> string list \<Rightarrow> string \<Rightarrow> string \<Rightarrow> int \<Rightarrow> int option \<Rightarrow>
      group_shown do_idempotency option \<Rightarrow> group_shown ptx" where
  "setGroup h i name ids p q now expected idem = (let ps = sort (first_occurrences ids) in
     do_once h idem
      (tx_bind (tx_read (\<lambda>s. getGroup s i)) (\<lambda>existing.
       tx_seq (case expected of None \<Rightarrow> tx_return ()
         | Some e \<Rightarrow> checkConfigRevision (''signal-group:'' @ i) (map_option gv_revision existing) e)
      (if (case existing of None \<Rightarrow> False
           | Some g \<Rightarrow> gv_name g = name \<and> join_with CHR 0x0A (gv_principal_ids g) = join_with CHR 0x0A ps)
       then tx_lift (case existing of None \<Rightarrow> Inl JsError | Some g \<Rightarrow> Inr g)
       else tx_bind nextRevision (\<lambda>revision.
         tx_seq (write_groups (upsert_group i name p q revision now))
        (tx_seq (write_group_members (replace_members i ps p q now))
        (tx_seq (groupEvent h (if existing = None then ''signal_group.created'' else ''signal_group.updated'') i p q
           [(''revision'', JNum revision), (''member_count'', JNum (int (length ps)))])
        (tx_bind (tx_read (\<lambda>s. getGroup s i)) (\<lambda>g. tx_lift (case g of None \<Rightarrow> Inl JsError | Some v \<Rightarrow> Inr v))))))))))"

definition deleteGroup ::
    "host \<Rightarrow> string \<Rightarrow> (string \<times> string) option \<Rightarrow> int option \<Rightarrow> bool ptx" where
  "deleteGroup h i actor expected = tx_bind (tx_read (\<lambda>s. by_key gr_id i (signal_groups s))) (\<lambda>row. case row of
      None \<Rightarrow> tx_return False
    | Some r \<Rightarrow>
        tx_seq (case expected of None \<Rightarrow> tx_return ()
          | Some e \<Rightarrow> checkConfigRevision (''signal-group:'' @ i) (Some (gr_revision r)) e)
       (tx_seq (write_group_members (rows_delete (\<lambda>m. gm_group_id m = i)))
       (tx_seq (write_groups (rows_delete (\<lambda>g. gr_id g = i)))
       (tx_seq (case actor of None \<Rightarrow> tx_return ()
          | Some (p, q) \<Rightarrow> groupEvent h ''signal_group.deleted'' i p q [(''revision'', JNum (gr_revision r))])
       (tx_return True)))))"

end
