(* ===== verification/Paging.thy ===== *)
theory Paging
  imports Prelude
begin

text \<open>
  Lists handed out page by page: a client asks again with the cursor of each answer. The locale states what a
  listing promises about its cursors; from that the walk ends and yields every row once, in order.
\<close>

text \<open>The client; the number bounds its requests and \<open>None\<close> is a request refused or one too many.\<close>

fun walk :: "nat \<Rightarrow> ('c option \<Rightarrow> ('v list \<times> 'c option) option) \<Rightarrow> 'c option \<Rightarrow> 'v list option" where
  "walk 0 request c = None"
| "walk (Suc k) request c = (case request c of
      None \<Rightarrow> None
    | Some (page, None) \<Rightarrow> Some page
    | Some (page, Some c') \<Rightarrow> map_option (\<lambda>rest. page @ rest) (walk k request (Some c')))"

text \<open>
  A query \<open>q\<close> has rows in an order. The rest from no cursor is all of them, the rest from the cursor of a row is
  what follows it, and a request returns the first rows of the rest with the cursor of the last if more remain.
\<close>

locale keyset =
  fixes good :: "'q \<Rightarrow> bool"
    and rows :: "'q \<Rightarrow> 'r list"
    and size :: "'q \<Rightarrow> nat"
    and view :: "'q \<Rightarrow> 'r \<Rightarrow> 'v"
    and cursor :: "'q \<Rightarrow> 'r \<Rightarrow> 'c"
    and rest :: "'q \<Rightarrow> 'c option \<Rightarrow> 'r list"
    and request :: "'q \<Rightarrow> 'c option \<Rightarrow> ('v list \<times> 'c option) option"
  assumes size_pos: "0 < size q"
    and rest_None: "good q \<Longrightarrow> rest q None = rows q"
    and rest_after: "good q \<Longrightarrow> rows q = us @ x # vs \<Longrightarrow> rest q (Some (cursor q x)) = vs"
    and request_page: "good q \<Longrightarrow> c = None \<or> (\<exists>x \<in> set (rows q). c = Some (cursor q x)) \<Longrightarrow>
      request q c = Some (map (view q) (take (size q) (rest q c)),
        if size q < length (rest q c) then Some (cursor q (rest q c ! (size q - 1))) else None)"
begin

lemma walk_rest:
  assumes "good q" and "rows q = us @ rest q c" and "c = None \<or> (\<exists>x \<in> set (rows q). c = Some (cursor q x))"
    and "length (rest q c) \<le> k * size q"
  shows "walk (Suc k) (request q) c = Some (map (view q) (rest q c))"
  using assms(2-4)
proof (induction k arbitrary: c us)
  case 0
  then show ?case using request_page [OF assms(1) "0.prems"(2)] by simp
next
  case (Suc k)
  let ?n = "size q" and ?rs = "rest q c"
  note page = request_page [OF assms(1) Suc.prems(2)]
  show ?case
  proof (cases "?n < length ?rs")
    case False
    with page show ?thesis by simp
  next
    case True
    define x where "x = ?rs ! (?n - 1)"
    have split: "?rs = take (?n - 1) ?rs @ x # drop ?n ?rs"
      using True size_pos [of q] id_take_nth_drop [of "?n - 1" ?rs] by (simp add: x_def)
    then have whole: "rows q = (us @ take (?n - 1) ?rs) @ x # drop ?n ?rs" using Suc.prems(1) by simp
    note after = rest_after [OF assms(1) whole]
    have "x \<in> set (rows q)" by (simp add: whole)
    moreover have "rows q = (us @ take (?n - 1) ?rs @ [x]) @ rest q (Some (cursor q x))" by (simp add: after whole)
    moreover have "length (rest q (Some (cursor q x))) \<le> k * ?n" using Suc.prems(3) by (simp add: after)
    ultimately have "walk (Suc k) (request q) (Some (cursor q x)) = Some (map (view q) (drop ?n ?rs))"
      using Suc.IH [of "us @ take (?n - 1) ?rs @ [x]" "Some (cursor q x)"] by (auto simp: after)
    moreover have "request q c = Some (map (view q) (take ?n ?rs), Some (cursor q x))"
      using page True by (simp add: x_def)
    ultimately show ?thesis
      by (simp only: walk.simps(2) [of "Suc k"] option.case prod.case option.map map_append [symmetric] append_take_drop_id)
  qed
qed

text \<open>At most one request for each row and one more.\<close>

lemma walk_all:
  assumes "good q" and "length (rows q) \<le> k"
  shows "walk (Suc k) (request q) None = Some (map (view q) (rows q))"
proof -
  have "k \<le> k * size q" using size_pos [of q] by (cases "size q") auto
  with assms(2) have "length (rows q) \<le> k * size q" by linarith
  with walk_rest [of q "[]" None k] assms(1) show ?thesis by (simp add: rest_None del: walk.simps)
qed

end

end
