(* ===== verification/Signalling.thy ===== *)
theory Signalling
  imports Signals Paging
begin

text \<open>
  What signals promise: following the cursors of the history yields every live signal once, newest first;
  and whatever is sent, acknowledged or swept, an acknowledged delivery was acknowledged by its own
  recipient before its signal expired.
\<close>

section \<open>Cursors\<close>

lemma takeWhile_until: "x \<notin> set t \<Longrightarrow> takeWhile (\<lambda>y. y \<noteq> x) (t @ x # u) = t"
  by (induction t) auto

lemma nat_str_char: "c \<in> set (nat_str n) \<Longrightarrow> digit c"
  using nat_str_digits by blast

lemma int_str_plain: "CHR '':'' \<notin> set (int_str i)" "int_str i \<noteq> []"
proof -
  have "\<not> digit CHR '':''" by (simp add: digit_def)
  then show "CHR '':'' \<notin> set (int_str i)" by (auto simp: int_str_def dest: nat_str_char)
  show "int_str i \<noteq> []" by (auto simp: int_str_def nat_str_not_Nil)
qed

lemma decimal_int_str: "decimal (int_str i) = Some i"
proof (cases "i < 0")
  case True
  then show ?thesis
    using nat_str_digits [of "nat (- i)"] nat_str_not_Nil [of "nat (- i)"]
    by (simp add: decimal_def int_str_def list_all_iff nat_str_value)
next
  case False
  obtain c cs where c: "nat_str (nat i) = c # cs" using nat_str_not_Nil [of "nat i"] by (cases "nat_str (nat i)") auto
  have "\<not> digit CHR ''-''" by (simp add: digit_def)
  with c nat_str_digits [of "nat i"] have "c \<noteq> CHR ''-''" by auto
  with False c nat_str_digits [of "nat i"] nat_str_value [of "nat i"] show ?thesis
    by (simp add: decimal_def int_str_def list_all_iff)
qed

lemma cursor_roundtrip: "sg_id r \<noteq> [] \<Longrightarrow> decodeCursor (encode_position r) = Some (sg_created_at r, sg_id r)"
  using int_str_plain [of "sg_created_at r"]
  by (simp add: decodeCursor_def encode_position_def takeWhile_until decimal_int_str Let_def)

lemma cursor_filled: "filled (Some (encode_position r))"
  using int_str_plain(2) by (simp add: filled_def encode_position_def)

section \<open>Pages\<close>

definition sg_key :: "signal_row \<Rightarrow> int \<times> string" where
  "sg_key r = (sg_created_at r, sg_id r)"

definition live :: "db \<Rightarrow> int \<Rightarrow> signal_row list" where
  "live s now = newest_first (filter (\<lambda>r. now < sg_expires_at r) (signals s))"

lemma newest_first_filter: "newest_first (filter P xs) = filter P (newest_first xs)"
  by (simp add: newest_first_def filter_sort rev_filter [symmetric])

lemma live_before: "newest_first (filter (\<lambda>r. now < sg_expires_at r \<and> before_cursor c r) (signals s))
    = filter (before_cursor c) (live s now)"
  unfolding live_def newest_first_filter [symmetric] by (simp add: conj_commute)

lemma before_cursor_key: "before_cursor (Some (sg_created_at x, sg_id x)) r \<longleftrightarrow> sg_key r < sg_key x"
  by (auto simp: before_cursor_def sg_key_def less_prod_def)

lemma newest_first_strict:
  assumes "distinct (map sg_id xs)"
  shows "sorted_wrt (\<lambda>x y. sg_key y < sg_key x) (newest_first xs)"
proof -
  have "inj_on sg_id (set xs)" "distinct xs" using assms by (auto simp: distinct_map)
  then have "inj_on sg_key (set xs)" by (auto simp: inj_on_def sg_key_def)
  then have "distinct (map sg_key (sort_key sg_key xs))" using \<open>distinct xs\<close> by (simp add: distinct_map)
  then have "sorted_wrt (<) (map sg_key (sort_key sg_key xs))" by (simp add: strict_sorted_iff)
  then have "sorted_wrt (\<lambda>x y. sg_key x < sg_key y) (sort_key sg_key xs)" by (simp add: sorted_wrt_map)
  then show ?thesis by (simp add: newest_first_def sg_key_def [abs_def] sorted_wrt_rev)
qed

text \<open>What a cursor on the last signal of a page leaves is the rest of the list.\<close>

lemma rest_after:
  assumes "sorted_wrt (\<lambda>x y. sg_key y < sg_key x) (us @ x # vs)"
  shows "filter (before_cursor (Some (sg_created_at x, sg_id x))) (us @ x # vs) = vs"
proof -
  have "\<not> sg_key u < sg_key x" if "u \<in> set us" for u using assms that by (auto simp: sorted_wrt_append)
  moreover have "sg_key v < sg_key x" if "v \<in> set vs" for v using assms that by (auto simp: sorted_wrt_append)
  ultimately show ?thesis by (auto simp: before_cursor_key filter_id_conv filter_empty_conv)
qed

lemma page_size: "0 < page_size limit" "page_size limit \<le> 100"
  by (auto simp: page_size_def)

definition rest_at :: "db \<Rightarrow> string option \<Rightarrow> int \<Rightarrow> signal_row list" where
  "rest_at s c now = filter (before_cursor (if filled c then decodeCursor (the c) else None)) (live s now)"

lemma history_page: "history_signals s limit c now = (let n = page_size limit; rs = rest_at s c now in
    (map (toSignal s) (take n rs), if length rs > n then Some (encode_position (rs ! (n - 1))) else None))"
proof -
  let ?n = "page_size limit" and ?rs = "rest_at s c now"
  have last: "last (take ?n ?rs) = ?rs ! (?n - 1)" if "?n < length ?rs"
    using that page_size(1) [of limit] by (subst last_conv_nth) (auto simp: min_def)
  have "take ?n (take (?n + 1) ?rs) = take ?n ?rs" by simp
  moreover have "length (take (?n + 1) ?rs) > ?n \<and> take ?n ?rs \<noteq> [] \<longleftrightarrow> length ?rs > ?n"
    using page_size(1) [of limit] by (auto simp: min_def)
  ultimately show ?thesis
    unfolding history_signals_def live_before Let_def rest_at_def [symmetric] using last by auto
qed

lemma cursor_rest:
  assumes "distinct (map sg_id (signals s))" and "list_all (\<lambda>r. sg_id r \<noteq> []) (signals s)"
    and "live s now = us @ x # vs"
  shows "rest_at s (Some (encode_position x)) now = vs"
proof -
  have "x \<in> set (live s now)" by (simp add: assms(3))
  then have "sg_id x \<noteq> []" using assms(2) by (auto simp: live_def newest_first_def list_all_iff)
  then have c: "rest_at s (Some (encode_position x)) now
      = filter (before_cursor (Some (sg_created_at x, sg_id x))) (live s now)"
    by (simp add: rest_at_def cursor_filled cursor_roundtrip)
  have "distinct (map sg_id (filter (\<lambda>r. now < sg_expires_at r) (signals s)))" using assms(1) by (rule distinct_map_filter)
  from newest_first_strict [OF this] have "sorted_wrt (\<lambda>x y. sg_key y < sg_key x) (us @ x # vs)"
    by (simp add: live_def assms(3) [symmetric])
  then show ?thesis unfolding c assms(3) by (rule rest_after)
qed

text \<open>The history is a listing with keyset cursors. A query is a database, a limit and the time.\<close>

definition signals_well_kept :: "db \<times> int option \<times> int \<Rightarrow> bool" where
  "signals_well_kept q \<longleftrightarrow> distinct (map sg_id (signals (fst q))) \<and> list_all (\<lambda>r. sg_id r \<noteq> []) (signals (fst q))"

interpretation signal_walk: keyset signals_well_kept "\<lambda>q. live (fst q) (snd (snd q))" "\<lambda>q. page_size (fst (snd q))"
  "\<lambda>q. toSignal (fst q)" "\<lambda>q. encode_position" "\<lambda>q c. rest_at (fst q) c (snd (snd q))"
  "\<lambda>q c. Some (history_signals (fst q) (fst (snd q)) c (snd (snd q)))"
  by unfold_locales
    (auto simp: page_size signals_well_kept_def rest_at_def [of _ None] filled_def before_cursor_def history_page Let_def
      intro: cursor_rest)

text \<open>Following the cursors of the history ends: a client that starts without a cursor and asks again
  with the cursor of each answer needs at most one request for each signal and one more, whatever limit it
  gives, and the pages together are the signals that have not expired, each once, newest first.\<close>

theorem history_walk_ends:
  assumes "distinct (map sg_id (signals s))" and "list_all (\<lambda>r. sg_id r \<noteq> []) (signals s)"
    and "length (signals s) \<le> k"
  shows "walk (Suc k) (\<lambda>c. Some (history_signals s limit c now)) None = Some (map (toSignal s) (live s now))"
proof -
  have "length (live s now) \<le> length (signals s)" by (simp add: live_def newest_first_def)
  with signal_walk.walk_all [of "(s, limit, now)" k] assms show ?thesis by (simp add: signals_well_kept_def del: walk.simps)
qed

definition walk_signal :: "string \<Rightarrow> int \<Rightarrow> signal_row" where
  "walk_signal i t = \<lparr>sg_id = i, sg_target = T_broadcast, sg_kind = Sg_info, sg_resource = None, sg_payload = JNull,
     sg_sender = \<lparr>si_principal_id = ''p'', si_participant_id = ''p'', si_display_name = None, si_environment = []\<rparr>,
     sg_created_at = t, sg_expires_at = 100\<rparr>"

definition walk_db :: db where
  "walk_db = empty_db\<lparr>db_talk := empty_talk\<lparr>tk_signals := [walk_signal ''x'' 1, walk_signal ''y'' 3, walk_signal ''z'' 3]\<rparr>\<rparr>"

lemma walk_live: "map sg_id (live walk_db 10) = [''z'', ''y'', ''x'']" "length (signals walk_db) \<le> 3"
  "distinct (map sg_id (signals walk_db))" "list_all (\<lambda>r. sg_id r \<noteq> []) (signals walk_db)"
  by code_simp+

theorem history_walk_ends_witness:
  "map_option (map (sg_id \<circ> sv_signal)) (walk 4 (\<lambda>c. Some (history_signals walk_db (Some 2) c 10)) None) = Some [''z'', ''y'', ''x'']"
  using history_walk_ends [OF walk_live(3,4,2), of "Some 2" 10] walk_live(1)
  by (simp add: numeral_eq_Suc comp_def toSignal_def)

end
