(* ===== verification/Sweep.thy ===== *)
theory Sweep
  imports Signals Deliveries
begin

text \<open>
  The periodic sweep: \<^verbatim>\<open>packages/ops-sqlite/src/sweep-ops.ts\<close>. One transaction journals and deletes
  lapsed claims, settles lapsed attempts, and removes stale presence, expired signals with their deliveries,
  old idempotency rows and lapsed deliveries of messages.
\<close>

section \<open>The operation\<close>

definition TOMBSTONE_GRACE_MS :: int where
  "TOMBSTONE_GRACE_MS = 604800000"

definition DO_IDEMPOTENCY_TTL_MS :: int where
  "DO_IDEMPOTENCY_TTL_MS = 604800000"

record sweep_result =
  sw_claims_deleted :: nat
  sw_presence_deleted :: nat
  sw_signals_deleted :: nat
  sw_tombstoned_pointers_deleted :: nat
  sw_do_idempotency_deleted :: nat

text \<open>Artifact pointers are audit records and are never deleted.\<close>

definition deleteTombstonedPointers :: "db \<Rightarrow> int \<Rightarrow> nat" where
  "deleteTombstonedPointers s cutoff = 0"

definition sweep_origin :: request_origin where
  "sweep_origin = system_origin ''system:sweep''"

definition claim_lapsed :: "int \<Rightarrow> claim_row \<Rightarrow> bool" where
  "claim_lapsed now c \<longleftrightarrow> cl_expires_at c \<le> now"

definition claim_mode_str :: "claim_mode \<Rightarrow> string" where
  "claim_mode_str m = (case m of Exclusive \<Rightarrow> ''exclusive'' | Owner \<Rightarrow> ''owner'' | Presence \<Rightarrow> ''presence'')"

definition journal_lapsed :: "host \<Rightarrow> claim_row \<Rightarrow> unit ptx" where
  "journal_lapsed h c = appendJournal h ''claim.expired'' (cl_resource c) sweep_origin (Some (cl_fence c))
     [(''mode'', JStr (claim_mode_str (cl_mode c))), (''expired_at'', JNum (cl_expires_at c)),
      (''principal_id'', JStr (cl_principal_id c)), (''participant_id'', JStr (cl_participant_id c))]"

definition delete_lapsed_claims :: "int \<Rightarrow> db \<Rightarrow> db" where
  "delete_lapsed_claims now s = s\<lparr>db_claims := rows_delete (claim_lapsed now) (db_claims s)\<rparr>"

definition delete_stale_presence :: "int \<Rightarrow> db \<Rightarrow> db" where
  "delete_stale_presence cutoff s =
     s\<lparr>db_presence := rows_delete (\<lambda>p. pr_last_seen p \<le> cutoff) (db_presence s)\<rparr>"

definition signal_expired :: "int \<Rightarrow> signal_row \<Rightarrow> bool" where
  "signal_expired now g \<longleftrightarrow> sg_expires_at g \<le> now"

definition delete_expired_signals :: "int \<Rightarrow> unit ptx" where
  "delete_expired_signals now = tx_bind (tx_read (\<lambda>s. map sg_id (filter (signal_expired now) (signals s)))) (\<lambda>gone.
     tx_seq (write_signal_deliveries (rows_delete (\<lambda>d. sd_signal_id d \<in> set gone)))
       (write_signals (rows_delete (signal_expired now))))"

definition delete_old_idempotency :: "int \<Rightarrow> db \<Rightarrow> db" where
  "delete_old_idempotency now s = s\<lparr>db_do_idempotency :=
     rows_delete (\<lambda>r. di_created_at r < now - DO_IDEMPOTENCY_TTL_MS) (db_do_idempotency s)\<rparr>"

definition sweep :: "host \<Rightarrow> int \<Rightarrow> int \<Rightarrow> sweep_result ptx" where
  "sweep h now presenceTtlMs =
     tx_bind (tx_read (\<lambda>s. deleteTombstonedPointers s (now - TOMBSTONE_GRACE_MS))) (\<lambda>pointers.
     tx_bind (tx_read (\<lambda>s. filter (claim_lapsed now) (db_claims s))) (\<lambda>lapsed.
     tx_seq (tx_for lapsed (journal_lapsed h))
    (tx_seq (tx_write (delete_lapsed_claims now))
    (tx_bind (expireInTransaction h now) (\<lambda>_.
     tx_bind (tx_read (\<lambda>s. length (filter (\<lambda>p. pr_last_seen p \<le> now - presenceTtlMs) (db_presence s)))) (\<lambda>n.
     tx_seq (tx_write (delete_stale_presence (now - presenceTtlMs)))
    (tx_bind (tx_read (\<lambda>s. length (filter (signal_expired now) (signals s)))) (\<lambda>g.
     tx_seq (delete_expired_signals now)
    (tx_bind (tx_read (\<lambda>s. length (filter (\<lambda>r. di_created_at r < now - DO_IDEMPOTENCY_TTL_MS)
        (db_do_idempotency s)))) (\<lambda>d.
     tx_seq (tx_write (delete_old_idempotency now))
    (tx_bind (expireDeliveries now) (\<lambda>_.
     tx_return \<lparr>sw_claims_deleted = length lapsed, sw_presence_deleted = n, sw_signals_deleted = g,
       sw_tombstoned_pointers_deleted = pointers, sw_do_idempotency_deleted = d\<rparr>))))))))))))"

lemma tx_inv_prod: "(\<And>a b. tx_inv I (f a b)) \<Longrightarrow> tx_inv I (case p of (a, b) \<Rightarrow> f a b)"
  by (cases p) simp

lemma tx_invD: "tx_inv I m \<Longrightarrow> m s = Inr r \<Longrightarrow> I s \<Longrightarrow> I (snd r)"
  by (cases r) (auto dest: tx_validD)

section \<open>What settling attempts keeps\<close>

text \<open>A condition on the database that the parts of an expiry keep is kept by the whole of it.\<close>

locale kept =
  fixes Q :: "db \<Rightarrow> bool" and now :: int
  assumes events: "tx_inv Q (event h kind res orig fs fence)"
    and revoking: "tx_inv Q (revoke a)"
    and questions: "tx_inv Q (invalidateQuestions h i why orig now)"
    and transitions: "tx_inv Q (transitionTask h a orig t now)"
    and refencing: "tx_inv Q (refence h a orig now orig f)"
    and attempts: "Q s \<Longrightarrow> Q (s\<lparr>db_work_attempts := x\<rparr>)"
    and entries: "Q s \<Longrightarrow> Q (s\<lparr>db_queue_entries := y\<rparr>)"
    and reservations: "Q s \<Longrightarrow> Q (s\<lparr>db_execution_reservations := z\<rparr>)"
begin

lemma changing: "tx_inv Q (change a f now)"
  unfolding change_def get_attempt_def by (intro tx_wp tx_inv_write attempts)

lemma queueing: "tx_inv Q (tx_write (set_entry i f))"
  unfolding set_entry_def by (intro tx_inv_write entries)

lemma freeing: "tx_inv Q (tx_write (delete_reservation t))"
  unfolding delete_reservation_def by (intro tx_inv_write reservations)

lemma retrying: "tx_inv Q (scheduleRetryInTransaction h a orig now at why)"
  unfolding scheduleRetryInTransaction_def by (intro tx_wp queueing events tx_inv_write reservations)

lemma finishing: "tx_inv Q (finishInTransaction h a o' orig now allow orig)"
  unfolding finishInTransaction_def
  by (intro tx_wp tx_inv_prod transitions questions changing revoking freeing queueing events retrying)

lemma abandoning: "tx_inv Q (abandon_reservation a now)"
  unfolding abandon_reservation_def
  by (intro tx_wp changing queueing; (rule tx_inv_write)?; auto intro: reservations simp: delete_reservation_def)

lemma expiring: "tx_inv Q (expireInTransaction h now)"
  unfolding expireInTransaction_def expire_attempt_def Let_def
  by (intro tx_wp revoking refencing finishing abandoning changing events)

end

text \<open>The tables that settling attempts never writes.\<close>

definition aside :: "db \<Rightarrow> presence_row list \<times> talk \<times> do_idempotency_row list \<times> artifact_pointer_row list" where
  "aside s = (db_presence s, db_talk s, db_do_idempotency s, db_artifact_pointers s)"

lemma aside_simps [simp]:
  "aside (s\<lparr>db_gates := g, db_journal_seq := n, db_journal := js\<rparr>) = aside s"
  "aside (s\<lparr>db_journal_seq := n, db_journal := js\<rparr>) = aside s"
  "aside (s\<lparr>db_claims := cs, db_fences := fs\<rparr>) = aside s"
  "aside (s\<lparr>db_claims := cs\<rparr>) = aside s"
  "aside (s\<lparr>db_work_questions := qs\<rparr>) = aside s"
  "aside (s\<lparr>db_work_attempts := x\<rparr>) = aside s"
  "aside (s\<lparr>db_queue_entries := y\<rparr>) = aside s"
  "aside (s\<lparr>db_execution_reservations := z\<rparr>) = aside s"
  "aside (s\<lparr>db_entity_tags := w\<rparr>) = aside s"
  "aside (set_expiry c t s) = aside s" "aside (bump_fence c s) = aside s" "aside (drop_claim c s) = aside s"
  "aside (add_claim k s) = aside s" "aside (set_entity i d t s) = aside s"
  by (simp_all add: aside_def set_expiry_def bump_fence_def drop_claim_def add_claim_def set_entity_def)

lemma aside_event: "tx_inv (\<lambda>s. aside s = v) (event h kind res orig fs fence)"
  unfolding event_def by (intro tx_inv_appendJournal) simp

lemma aside_revoke: "tx_inv (\<lambda>s. aside s = v) (revoke a)"
  unfolding revoke_def by (intro tx_inv_write) simp

lemma aside_questions: "tx_inv (\<lambda>s. aside s = v) (invalidateQuestions h i why orig now)"
  unfolding invalidateQuestions_def saveQuestion_def event_def Let_def by (intro tx_wp tx_inv_write; simp)

lemma aside_update: "tx_inv (\<lambda>s. aside s = v) (updateInTransaction h i data fence orig tags now internal)"
  unfolding updateInTransaction_def Let_def
  by (intro tx_wp tx_inv_write update_authority_frame tx_inv_replace_tags; simp add: put_search_doc_def aside_def set_entity_def)

lemma aside_acquire: "tx_inv (\<lambda>s. aside s = v) (acquireInTransaction h res orig mode ttl md now)"
  unfolding acquireInTransaction_def fresh_claim_def by (intro tx_wp tx_inv_write; simp)

interpretation aside: kept "\<lambda>s. aside s = v" now for v now
proof
  show "tx_inv (\<lambda>s. aside s = v) (transitionTask h a orig t now)" for h a orig t
    unfolding transitionTask_def by (intro tx_wp aside_update)
  show "tx_inv (\<lambda>s. aside s = v) (refence h a orig now orig f)" for h a orig f
    unfolding refence_def change_def get_attempt_def
    by (intro tx_wp tx_inv_write aside_questions aside_revoke aside_acquire) simp
qed (simp_all add: aside_event aside_revoke aside_questions)

text \<open>No claim has lapsed, under a positive lease.\<close>

definition fresh_claims :: "int \<Rightarrow> db \<Rightarrow> bool" where
  "fresh_claims now s \<longleftrightarrow> 0 < lease_of s \<and> list_all (\<lambda>c. \<not> claim_lapsed now c) (db_claims s)"

lemma fresh_claims_simps [simp]:
  "fresh_claims now (s\<lparr>db_gates := g, db_journal_seq := n, db_journal := js\<rparr>) = fresh_claims now s"
  "fresh_claims now (s\<lparr>db_journal_seq := n, db_journal := js\<rparr>) = fresh_claims now s"
  "fresh_claims now (s\<lparr>db_work_questions := qs\<rparr>) = fresh_claims now s"
  "fresh_claims now (s\<lparr>db_work_attempts := x\<rparr>) = fresh_claims now s"
  "fresh_claims now (s\<lparr>db_queue_entries := y\<rparr>) = fresh_claims now s"
  "fresh_claims now (s\<lparr>db_execution_reservations := z\<rparr>) = fresh_claims now s"
  "fresh_claims now (s\<lparr>db_entity_tags := w\<rparr>) = fresh_claims now s"
  "fresh_claims now (set_entity i d t s) = fresh_claims now s"
  "fresh_claims now (bump_fence r s) = fresh_claims now s"
  by (simp_all add: fresh_claims_def lease_of_def set_entity_def bump_fence_def)

lemma fresh_event: "tx_inv (fresh_claims now) (event h kind res orig fs fence)"
  unfolding event_def by (intro tx_inv_appendJournal) simp

lemma fresh_revoke: "tx_inv (fresh_claims now) (revoke a)"
  unfolding revoke_def by (intro tx_inv_write) (auto simp: fresh_claims_def lease_of_def list_all_iff)

lemma fresh_questions: "tx_inv (fresh_claims now) (invalidateQuestions h i why orig now)"
  unfolding invalidateQuestions_def saveQuestion_def event_def Let_def by (intro tx_wp tx_inv_write; simp)

lemma fresh_update: "tx_inv (fresh_claims now) (updateInTransaction h i data fence orig tags now internal)"
  unfolding updateInTransaction_def Let_def
  by (intro tx_wp tx_inv_write update_authority_frame tx_inv_replace_tags;
      simp add: put_search_doc_def fresh_claims_def lease_of_def set_entity_def)

lemma fresh_acquire: "0 < ttl \<Longrightarrow> tx_inv (fresh_claims now) (acquireInTransaction h res orig mode ttl md now)"
  unfolding acquireInTransaction_def fresh_claim_def
  by (intro tx_wp tx_inv_write; simp)
    (auto simp: fresh_claims_def lease_of_def set_expiry_def drop_claim_def add_claim_def claim_lapsed_def
      list_all_iff set_rows_set)

lemma fresh_refence: "tx_inv (fresh_claims now) (refence h a orig now orig f)"
proof (rule tx_validI)
  fix s :: db and b s' assume fresh: "fresh_claims now s" and run: "refence h a orig now orig f s = Inr (b, s')"
  from run obtain s1 s2 g s3 where 1: "invalidateQuestions h (wa_id a) ''execution authority replaced'' orig now s = Inr ((), s1)"
    and 2: "revoke a s1 = Inr ((), s2)"
    and 3: "acquireInTransaction h (wa_resource a) orig Exclusive (lease_of s2) [(''attempt_id'', JStr (wa_id a))] now s2
      = Inr (g, s3)"
    and 4: "change a (\<lambda>r. f (r\<lparr>wa_state := Running, wa_fence := aq_fence g,
       wa_lease_expires_at := Some (aq_expires_at g), wa_principal_id := or_principalId orig,
       wa_participant_id := or_participantId orig\<rparr>)) now s3 = Inr (b, s')"
    unfolding refence_def by (auto simp: tx_bind_ok tx_seq_ok)
  have keep: "tx_inv (fresh_claims now) (change a k now)" for k
    unfolding change_def get_attempt_def by (intro tx_wp tx_inv_write) simp
  have "fresh_claims now s2" using tx_invD [OF fresh_revoke 2] tx_invD [OF fresh_questions 1] fresh by simp
  then have "fresh_claims now s3" using tx_invD [OF fresh_acquire 3] by (simp add: fresh_claims_def)
  then show "fresh_claims now s'" using tx_invD [OF keep 4] by simp
qed

interpretation fresh: kept "fresh_claims now" now for now
proof
  show "tx_inv (fresh_claims now) (transitionTask h a orig t now)" for h a orig t
    unfolding transitionTask_def by (intro tx_wp fresh_update)
qed (simp_all add: fresh_event fresh_revoke fresh_questions fresh_refence)

section \<open>What a sweep leaves\<close>

lemma aside_cong:
  assumes "aside t = aside s"
  shows "db_presence t = db_presence s" "db_talk t = db_talk s" "db_do_idempotency t = db_do_idempotency s"
    "db_artifact_pointers t = db_artifact_pointers s"
  using assms by (simp_all add: aside_def)

lemma journal_lapsed_aside: "tx_inv (\<lambda>s. (aside s, lease_of s, db_claims s) = v) (tx_for cs (journal_lapsed h))"
  unfolding journal_lapsed_def by (intro tx_wp) (simp add: lease_of_def)

lemma sweep_run:
  assumes "sweep h now ttl s = Inr (r, s')"
  obtains s1 n s2 where
    "aside s1 = aside s" "lease_of s1 = lease_of s" "db_claims s1 = db_claims s"
    "expireInTransaction h now (delete_lapsed_claims now s1) = Inr (n, s2)"
    "r = \<lparr>sw_claims_deleted = length (filter (claim_lapsed now) (db_claims s)),
       sw_presence_deleted = length (filter (\<lambda>p. pr_last_seen p \<le> now - ttl) (db_presence s2)),
       sw_signals_deleted = length (filter (signal_expired now) (signals s2)), sw_tombstoned_pointers_deleted = 0,
       sw_do_idempotency_deleted = length (filter (\<lambda>r. di_created_at r < now - DO_IDEMPOTENCY_TTL_MS)
         (db_do_idempotency s2))\<rparr>"
    "s' = set_talk (\<lambda>k. k\<lparr>tk_recipients := rows_set (lapsed now) (\<lambda>d. d\<lparr>mr_state := R_expired\<rparr>) (tk_recipients k)\<rparr>)
       (delete_old_idempotency now (set_talk (\<lambda>k. k\<lparr>tk_signals := rows_delete (signal_expired now) (tk_signals k)\<rparr>)
         (set_talk (\<lambda>k. k\<lparr>tk_signal_deliveries := rows_delete (\<lambda>d. sd_signal_id d \<in> sg_id ` set (filter (signal_expired now)
            (signals s2))) (tk_signal_deliveries k)\<rparr>) (delete_stale_presence (now - ttl) s2))))"
proof -
  from assms obtain s1 n s2 where
    1: "tx_for (filter (claim_lapsed now) (db_claims s)) (journal_lapsed h) s = Inr ((), s1)"
    and 2: "expireInTransaction h now (delete_lapsed_claims now s1) = Inr (n, s2)"
    and r: "sweep h now ttl s = Inr (r, s')"
    by (auto simp: sweep_def tx_run)
  have "(aside s1, lease_of s1, db_claims s1) = (aside s, lease_of s, db_claims s)"
    using tx_invD [OF journal_lapsed_aside 1, of "(aside s, lease_of s, db_claims s)"] by simp
  then show thesis
    using 1 2 r by (intro that [of s1 n s2])
      (auto simp: sweep_def tx_run deleteTombstonedPointers_def delete_expired_signals_def write_signals_def
        write_signal_deliveries_def expireDeliveries_def write_deliveries_def set_talk_def delete_stale_presence_def)
qed

text \<open>C26. If the lease of attempts is positive, as the schema of the queue policy demands, a successful sweep leaves no
  lapsed claim, exactly the presence seen within its window, exactly the signals that have not expired and the
  deliveries of the others gone with them, exactly the idempotency rows of the last seven days, every lapsed
  pending delivery of a message expired and the rest as they were. It reports how many claims, presence rows,
  signals and idempotency rows it removed. As the code of \<open>deleteTombstonedPointers\<close> has it, and against the
  comment on the grace window, it leaves the artifact pointers as they are and reports none deleted.\<close>

theorem sweep_clears:
  assumes "sweep h now ttl s = Inr (r, s')" and "0 < lease_of s"
  shows "list_all (\<lambda>c. now < cl_expires_at c) (db_claims s')
    \<and> db_presence s' = filter (\<lambda>p. now - ttl < pr_last_seen p) (db_presence s)
    \<and> signals s' = filter (\<lambda>g. now < sg_expires_at g) (signals s)
    \<and> signal_deliveries s' = filter (\<lambda>d. sd_signal_id d \<notin> sg_id ` {g \<in> set (signals s). sg_expires_at g \<le> now})
        (signal_deliveries s)
    \<and> db_do_idempotency s' = filter (\<lambda>d. now - 604800000 \<le> di_created_at d) (db_do_idempotency s)
    \<and> deliveries s' = map (\<lambda>d. if lapsed now d then d\<lparr>mr_state := R_expired\<rparr> else d) (deliveries s)
    \<and> db_artifact_pointers s' = db_artifact_pointers s
    \<and> sw_claims_deleted r = length (filter (\<lambda>c. cl_expires_at c \<le> now) (db_claims s))
    \<and> sw_signals_deleted r + length (signals s') = length (signals s)
    \<and> sw_presence_deleted r + length (db_presence s') = length (db_presence s)
    \<and> sw_do_idempotency_deleted r + length (db_do_idempotency s') = length (db_do_idempotency s)
    \<and> sw_tombstoned_pointers_deleted r = 0"
proof -
  from assms(1) obtain s1 n s2 where
    a: "aside s1 = aside s" "lease_of s1 = lease_of s" "db_claims s1 = db_claims s"
    and run: "expireInTransaction h now (delete_lapsed_claims now s1) = Inr (n, s2)"
    and r: "r = \<lparr>sw_claims_deleted = length (filter (claim_lapsed now) (db_claims s)),
       sw_presence_deleted = length (filter (\<lambda>p. pr_last_seen p \<le> now - ttl) (db_presence s2)),
       sw_signals_deleted = length (filter (signal_expired now) (signals s2)), sw_tombstoned_pointers_deleted = 0,
       sw_do_idempotency_deleted = length (filter (\<lambda>r. di_created_at r < now - DO_IDEMPOTENCY_TTL_MS)
         (db_do_idempotency s2))\<rparr>"
    and s': "s' = set_talk (\<lambda>k. k\<lparr>tk_recipients := rows_set (lapsed now) (\<lambda>d. d\<lparr>mr_state := R_expired\<rparr>) (tk_recipients k)\<rparr>)
       (delete_old_idempotency now (set_talk (\<lambda>k. k\<lparr>tk_signals := rows_delete (signal_expired now) (tk_signals k)\<rparr>)
         (set_talk (\<lambda>k. k\<lparr>tk_signal_deliveries := rows_delete (\<lambda>d. sd_signal_id d \<in> sg_id ` set (filter (signal_expired now)
            (signals s2))) (tk_signal_deliveries k)\<rparr>) (delete_stale_presence (now - ttl) s2))))"
    by (rule sweep_run)
  have "aside (delete_lapsed_claims now s1) = aside s" using a(1) by (simp add: delete_lapsed_claims_def)
  then have "aside s2 = aside s" using tx_invD [OF aside.expiring run, of "aside s"] by simp
  note kept = aside_cong [OF this]
  have "fresh_claims now (delete_lapsed_claims now s1)"
    using assms(2) a(2) by (simp add: fresh_claims_def delete_lapsed_claims_def lease_of_def list_all_iff)
  then have fresh: "list_all (\<lambda>c. now < cl_expires_at c) (db_claims s2)"
    using tx_invD [OF fresh.expiring run] by (simp add: fresh_claims_def claim_lapsed_def not_le)
  have split: "length (filter P xs) + length (filter (\<lambda>x. \<not> P x) xs) = length xs" for P and xs :: "'x list"
    by (rule sum_length_filter_compl)
  show ?thesis
    using fresh kept split [of "signal_expired now" "signals s"] split [of "\<lambda>p. pr_last_seen p \<le> now - ttl" "db_presence s"]
      split [of "\<lambda>r. di_created_at r < now - DO_IDEMPOTENCY_TTL_MS" "db_do_idempotency s"]
    by (simp add: s' r set_talk_def delete_old_idempotency_def delete_stale_presence_def rows_delete_def rows_set_def
        signal_expired_def [abs_def] claim_lapsed_def [abs_def] DO_IDEMPOTENCY_TTL_MS_def not_le not_less)
qed

definition sweep_claim :: "string \<Rightarrow> int \<Rightarrow> claim_row" where
  "sweep_claim i t = \<lparr>cl_resource = i, cl_principal_id = ''p'', cl_participant_id = ''p'', cl_environment = [],
     cl_mode = Exclusive, cl_fence = 1, cl_acquired_at = 0, cl_expires_at = t, cl_metadata = []\<rparr>"

definition swept_db :: db where
  "swept_db = empty_db\<lparr>db_claims := [sweep_claim ''x'' 5, sweep_claim ''y'' 50],
     db_presence := [\<lparr>pr_principal_id = ''p'', pr_participant_id = ''p'', pr_environment = [], pr_last_seen = 7,
       pr_info = []\<rparr>]\<rparr>"

lemma sweep_runs: "\<not> isl (sweep (sample_host 10 ''u'') 10 2 swept_db)" "0 < lease_of swept_db"
  by code_simp+

theorem sweep_clears_witness:
  "\<exists>r s'. sweep (sample_host 10 ''u'') 10 2 swept_db = Inr (r, s') \<and> list_all (\<lambda>c. 10 < cl_expires_at c) (db_claims s')
     \<and> db_presence s' = [] \<and> sw_claims_deleted r = 1"
proof -
  obtain r s' where run: "sweep (sample_host 10 ''u'') 10 2 swept_db = Inr (r, s')"
    using sweep_runs(1) by (cases "sweep (sample_host 10 ''u'') 10 2 swept_db") auto
  from sweep_clears [OF run sweep_runs(2)] run show ?thesis
    by (simp add: swept_db_def sweep_claim_def)
qed

end
