(* ===== verification/Oidc.thy ===== *)
theory Oidc
  imports Prelude "HOL-Library.While_Combinator"
begin

text \<open>
  Admission of workload identities: \<^verbatim>\<open>packages/core/src/github-oidc-policy.ts\<close>. The subject of a token
  is matched against a pattern in which only the star is special, by a loop that keeps one place to
  come back to; the policy then checks repository, event, context and workflow in order.
\<close>

section \<open>The matcher\<close>

text \<open>The two indices of the loop, and where the last star was seen with the subject index to retry from.\<close>

record scan =
  sc_pattern :: nat
  sc_subject :: nat
  sc_star :: "(nat \<times> nat) option"

definition scan_start :: scan where
  "scan_start = \<lparr>sc_pattern = 0, sc_subject = 0, sc_star = None\<rparr>"

definition at :: "string \<Rightarrow> nat \<Rightarrow> char \<Rightarrow> bool" where
  "at xs i c \<longleftrightarrow> i < length xs \<and> xs ! i = c"

text \<open>One turn of the loop; \<open>None\<close> is the early \<open>return false\<close>.\<close>

definition scan_step :: "string \<Rightarrow> string \<Rightarrow> scan \<Rightarrow> scan option" where
  "scan_step pat sub s =
    (if at pat (sc_pattern s) (sub ! sc_subject s)
     then Some (s\<lparr>sc_pattern := sc_pattern s + 1, sc_subject := sc_subject s + 1\<rparr>)
     else if at pat (sc_pattern s) CHR ''*''
     then Some (s\<lparr>sc_star := Some (sc_pattern s, sc_subject s), sc_pattern := sc_pattern s + 1\<rparr>)
     else (case sc_star s of
         Some (p, r) \<Rightarrow> Some \<lparr>sc_pattern = p + 1, sc_subject = r + 1, sc_star = Some (p, r + 1)\<rparr>
       | None \<Rightarrow> None))"

definition scanning :: "string \<Rightarrow> string \<Rightarrow> (scan \<times> bool) \<Rightarrow> bool" where
  "scanning pat sub x \<longleftrightarrow> snd x \<and> sc_subject (fst x) < length sub"

definition turn :: "string \<Rightarrow> string \<Rightarrow> (scan \<times> bool) \<Rightarrow> scan \<times> bool" where
  "turn pat sub x = (case scan_step pat sub (fst x) of None \<Rightarrow> (fst x, False) | Some s \<Rightarrow> (s, True))"

text \<open>The closing loop skips the stars that are left of the pattern.\<close>

fun skip_stars :: "string \<Rightarrow> string" where
  "skip_stars [] = []"
| "skip_stars (c # cs) = (if c = CHR ''*'' then skip_stars cs else c # cs)"

definition matchesSubjectPattern :: "string \<Rightarrow> string \<Rightarrow> bool option" where
  "matchesSubjectPattern pat sub =
     (case while_option (scanning pat sub) (turn pat sub) (scan_start, True) of
        None \<Rightarrow> None
      | Some (s, ok) \<Rightarrow> Some (ok \<and> skip_stars (drop (sc_pattern s) pat) = []))"

section \<open>Meaning of a pattern\<close>

inductive matches :: "string \<Rightarrow> string \<Rightarrow> bool" where
  nothing: "matches [] []"
| same: "matches p s \<Longrightarrow> matches (c # p) (c # s)"
| star_none: "matches p s \<Longrightarrow> matches (CHR ''*'' # p) s"
| star_more: "matches (CHR ''*'' # p) s \<Longrightarrow> matches (CHR ''*'' # p) (c # s)"

inductive_cases matches_NilE: "matches p []"
inductive_cases matches_ConsE: "matches (c # p) s"

lemma matches_nil_pattern [simp]: "matches [] s \<longleftrightarrow> s = []"
  by (auto intro: matches.nothing elim: matches.cases)

lemma matches_literal [simp]: "c \<noteq> CHR ''*'' \<Longrightarrow> matches (c # p) s \<longleftrightarrow> (\<exists>t. s = c # t \<and> matches p t)"
  by (auto intro: matches.same elim: matches_ConsE)

lemma matches_star: "matches (CHR ''*'' # p) s \<longleftrightarrow> (\<exists>u v. s = u @ v \<and> matches p v)"
proof
  assume "matches (CHR ''*'' # p) s"
  then show "\<exists>u v. s = u @ v \<and> matches p v"
  proof (induction "CHR ''*'' # p" s rule: matches.induct)
    case (same s)
    then show ?case by (intro exI [of _ "[CHR ''*'']"] exI [of _ s]) simp
  next
    case (star_none s)
    then show ?case by (intro exI [of _ "[]"] exI [of _ s]) simp
  next
    case (star_more s c)
    then obtain u v where "s = u @ v" "matches p v" by blast
    then show ?case by (intro exI [of _ "c # u"] exI [of _ v]) simp
  qed
next
  assume "\<exists>u v. s = u @ v \<and> matches p v"
  then obtain u v where s: "s = u @ v" "matches p v" by blast
  have "matches (CHR ''*'' # p) (u @ v)"
    by (induction u) (auto intro: matches.intros s(2))
  with s show "matches (CHR ''*'' # p) s" by simp
qed

lemma matches_nil_subject: "matches p [] \<longleftrightarrow> skip_stars p = []"
proof (induction p)
  case (Cons c p)
  then show ?case by (cases "c = CHR ''*''") (auto simp: matches_star)
qed simp

lemma matches_literals: "CHR ''*'' \<notin> set w \<Longrightarrow> matches (w @ p) s \<longleftrightarrow> (\<exists>t. s = w @ t \<and> matches p t)"
  by (induction w arbitrary: s) auto

definition literals :: "string \<Rightarrow> nat" where
  "literals p = length (filter (\<lambda>c. c \<noteq> CHR ''*'') p)"

lemma matches_length: "matches p s \<Longrightarrow> literals p \<le> length s"
  by (induction rule: matches.induct) (auto simp: literals_def)

lemma literals_skip: "literals p = 0 \<longleftrightarrow> skip_stars p = []"
  by (induction p) (auto simp: literals_def)

section \<open>The loop ends\<close>

definition scan_ok :: "string \<Rightarrow> string \<Rightarrow> scan \<Rightarrow> bool" where
  "scan_ok pat sub s \<longleftrightarrow> sc_pattern s \<le> length pat \<and> sc_subject s \<le> length sub
     \<and> (case sc_star s of None \<Rightarrow> True | Some (p, r) \<Rightarrow> p < sc_pattern s \<and> r \<le> sc_subject s)"

lemma scan_step_ok: "scan_step pat sub s = Some t \<Longrightarrow> sc_subject s < length sub \<Longrightarrow> scan_ok pat sub s \<Longrightarrow> scan_ok pat sub t"
  by (auto simp: scan_step_def scan_ok_def at_def split: if_splits option.splits)

text \<open>Every turn moves the place to come back to, or the star, or the subject index forward.\<close>

definition remaining :: "string \<Rightarrow> string \<Rightarrow> scan \<times> bool \<Rightarrow> nat \<times> nat \<times> nat \<times> nat" where
  "remaining pat sub x = (case x of (s, ok) \<Rightarrow>
     (if ok then 1 else 0,
      case sc_star s of None \<Rightarrow> length sub + 1 | Some (p, r) \<Rightarrow> length sub - r,
      case sc_star s of None \<Rightarrow> length pat + 1 | Some (p, r) \<Rightarrow> length pat - p,
      length sub - sc_subject s))"

lemma turn_progress:
  assumes "scanning pat sub x" and "scan_ok pat sub (fst x)"
  shows "scan_ok pat sub (fst (turn pat sub x))"
    and "(remaining pat sub (turn pat sub x), remaining pat sub x)
      \<in> less_than <*lex*> less_than <*lex*> less_than <*lex*> less_than"
proof -
  obtain s where x: "x = (s, True)" "sc_subject s < length sub" "scan_ok pat sub s"
    using assms by (cases x) (auto simp: scanning_def)
  show "scan_ok pat sub (fst (turn pat sub x))"
    using x scan_step_ok by (auto simp: turn_def split: option.splits)
  show "(remaining pat sub (turn pat sub x), remaining pat sub x)
      \<in> less_than <*lex*> less_than <*lex*> less_than <*lex*> less_than"
    using x by (auto simp: turn_def scan_step_def remaining_def scan_ok_def at_def split: option.splits if_splits)
qed

lemma scan_ends: "\<exists>t. while_option (scanning pat sub) (turn pat sub) (scan_start, True) = Some t"
proof (rule wf_while_option_Some [where P = "\<lambda>x. scan_ok pat sub (fst x)"])
  let ?R = "inv_image (less_than <*lex*> less_than <*lex*> less_than <*lex*> less_than) (remaining pat sub)"
  have "wf ?R" by (intro wf_inv_image wf_lex_prod wf_less_than)
  then show "wf {(t, s). (scan_ok pat sub (fst s) \<and> scanning pat sub s) \<and> t = turn pat sub s}"
    by (rule wf_subset) (use turn_progress(2) in \<open>auto simp: inv_image_def\<close>)
  show "scan_ok pat sub (fst (turn pat sub s))" if "scan_ok pat sub (fst s)" "scanning pat sub s" for s
    using that by (intro turn_progress)
  show "scan_ok pat sub (fst (scan_start, True))" by (simp add: scan_ok_def scan_start_def)
qed

section \<open>The loop finds a match\<close>

text \<open>With no star seen the rest of the pattern decides; with one seen, the pattern from that star does,
  and the subject since the retry place is what the pattern has after the star.\<close>

definition scan_inv :: "string \<Rightarrow> string \<Rightarrow> scan \<times> bool \<Rightarrow> bool" where
  "scan_inv pat sub x = (case x of (s, ok) \<Rightarrow>
     if ok then sc_pattern s \<le> length pat \<and> sc_subject s \<le> length sub
       \<and> (case sc_star s of
           None \<Rightarrow> matches pat sub \<longleftrightarrow> matches (drop (sc_pattern s) pat) (drop (sc_subject s) sub)
         | Some (p, r) \<Rightarrow> (\<exists>w. CHR ''*'' \<notin> set w \<and> drop p pat = CHR ''*'' # w @ drop (sc_pattern s) pat
             \<and> drop r sub = w @ drop (sc_subject s) sub \<and> r \<le> length sub
             \<and> (matches pat sub \<longleftrightarrow> matches (drop p pat) (drop r sub))))
     else \<not> matches pat sub)"

lemma at_drop: "at xs i c \<longleftrightarrow> (\<exists>ys. drop i xs = c # ys)"
  by (cases "i < length xs") (auto simp: at_def Cons_nth_drop_Suc [symmetric])

text \<open>A second star need not come back to the first.\<close>

lemma star_commits:
  assumes "CHR ''*'' \<notin> set w"
  shows "matches (CHR ''*'' # w @ CHR ''*'' # p) (w @ s) \<longleftrightarrow> matches (CHR ''*'' # p) s"
proof
  assume "matches (CHR ''*'' # w @ CHR ''*'' # p) (w @ s)"
  then obtain u v where "w @ s = u @ v" "matches (w @ CHR ''*'' # p) v" by (auto simp: matches_star)
  then obtain t where t: "w @ s = u @ w @ t" "matches (CHR ''*'' # p) t" by (auto simp: matches_literals [OF assms])
  then have "\<exists>z. s = z @ t" 
    by (metis append.assoc append_eq_append_conv_if append_take_drop_id drop_append length_append le_add2 nat_le_linear
      append_eq_append_conv2 add.commute length_drop)
  then obtain z where "s = z @ t" by blast
  with t(2) show "matches (CHR ''*'' # p) s" by (auto simp: matches_star) (metis append.assoc)
next
  assume "matches (CHR ''*'' # p) s"
  then have "matches (w @ CHR ''*'' # p) (w @ s)" by (auto simp: matches_literals [OF assms])
  then show "matches (CHR ''*'' # w @ CHR ''*'' # p) (w @ s)" by (rule matches.star_none)
qed

lemma star_skips: "matches (CHR ''*'' # p) (c # t) \<longleftrightarrow> matches p (c # t) \<or> matches (CHR ''*'' # p) t"
  by (auto simp: matches_star Cons_eq_append_conv)

text \<open>After literals that fit, what follows decides.\<close>

lemma star_mismatch:
  assumes "CHR ''*'' \<notin> set w" and "\<not> matches p (c # s)"
  shows "matches (CHR ''*'' # w @ p) (w @ c # s) \<longleftrightarrow> matches (CHR ''*'' # w @ p) (tl (w @ c # s))"
proof -
  have "\<not> matches (w @ p) (w @ c # s)" using assms by (simp add: matches_literals)
  then show ?thesis by (cases w) (simp_all add: star_skips)
qed

lemma mismatch: "c \<noteq> d \<Longrightarrow> d \<noteq> CHR ''*'' \<Longrightarrow> \<not> matches (d # p) (c # s)"
  by simp

lemma drop_ConsD: "drop i xs = y # ys \<Longrightarrow> drop (Suc i) xs = ys \<and> i < length xs"
  by (cases "i < length xs") (auto simp: Cons_nth_drop_Suc [symmetric])

lemma turn_inv:
  assumes inv: "scan_inv pat sub x" and go: "scanning pat sub x" and plain: "CHR ''*'' \<notin> set sub"
  shows "scan_inv pat sub (turn pat sub x)"
proof -
  obtain s where x: "x = (s, True)" and si: "sc_subject s < length sub" using go by (cases x) (auto simp: scanning_def)
  define P S c where "P = drop (sc_pattern s) pat" and "S = drop (Suc (sc_subject s)) sub" and "c = sub ! sc_subject s"
  have sub: "drop (sc_subject s) sub = c # S" using si by (simp add: S_def c_def Cons_nth_drop_Suc)
  have c: "c \<noteq> CHR ''*''" using plain si by (auto simp: c_def dest: nth_mem)
  have le: "sc_pattern s \<le> length pat" using inv by (simp add: scan_inv_def x)
  have nextP: "at pat (sc_pattern s) d \<longleftrightarrow> (\<exists>Q. P = d # Q)" for d by (simp add: at_drop P_def)
  have drop_next: "drop (Suc (sc_pattern s)) pat = Q" "sc_pattern s < length pat" if "P = d # Q" for d Q
    using that drop_ConsD [of "sc_pattern s" pat] by (simp_all add: P_def)
  consider (same) Q where "P = c # Q" | (star) Q where "P = CHR ''*'' # Q" 
    | (bad) "\<not> at pat (sc_pattern s) c" "\<not> at pat (sc_pattern s) CHR ''*''" "\<not> matches P (c # S)"
    by (cases P) (auto simp: nextP)
  then show ?thesis
  proof cases
    case same
    with drop_next [OF same] inv si c show ?thesis
      by (auto simp: scan_inv_def x turn_def scan_step_def nextP [folded c_def] c_def [symmetric] sub P_def [symmetric]
          S_def [symmetric] split: option.splits) 
  next
    case star
    with drop_next [OF star] inv si c show ?thesis
      by (auto simp: scan_inv_def x turn_def scan_step_def nextP c_def [symmetric] sub P_def [symmetric]
          star_commits split: option.splits) 
  next
    case bad
    show ?thesis
    proof (cases "sc_star s")
      case None
      with bad inv show ?thesis
        by (auto simp: scan_inv_def x turn_def scan_step_def c_def [symmetric] sub P_def [symmetric])
    next
      case (Some pr)
      obtain p r where pr: "pr = (p, r)" by (cases pr)
      with inv Some obtain w where w: "CHR ''*'' \<notin> set w" "drop p pat = CHR ''*'' # w @ P" "drop r sub = w @ c # S"
        "matches pat sub \<longleftrightarrow> matches (drop p pat) (drop r sub)" by (auto simp: scan_inv_def x sub P_def [symmetric])
      have p: "drop (Suc p) pat = w @ P" "p < length pat" using drop_ConsD [OF w(2)] by auto
      have r: "drop (Suc r) sub = tl (w @ c # S)" "r < length sub"
        using w(3) by (metis drop_Suc tl_drop) (metis drop_eq_Nil leI append_is_Nil_conv list.distinct(1) w(3))
      have "matches pat sub \<longleftrightarrow> matches (drop p pat) (drop (Suc r) sub)"
        unfolding w(4) w(3) r(1) unfolding w(2) by (rule star_mismatch [OF w(1) bad(3)])
      with bad Some pr p r w(2) show ?thesis
        by (auto simp: scan_inv_def x turn_def scan_step_def c_def [symmetric])
    qed
  qed
qed

lemma scan_result:
  assumes inv: "scan_inv pat sub (s, ok)" and stop: "\<not> scanning pat sub (s, ok)"
  shows "ok \<and> skip_stars (drop (sc_pattern s) pat) = [] \<longleftrightarrow> matches pat sub"
proof (cases ok)
  case False
  with inv show ?thesis by (simp add: scan_inv_def)
next
  case True
  with inv stop have ended: "drop (sc_subject s) sub = []" by (auto simp: scan_inv_def scanning_def)
  show ?thesis
  proof (cases "sc_star s")
    case None
    with inv True ended show ?thesis by (simp add: scan_inv_def matches_nil_subject)
  next
    case (Some pr)
    define P where "P = drop (sc_pattern s) pat"
    from inv True Some ended obtain w where w: "CHR ''*'' \<notin> set w"
      "matches pat sub \<longleftrightarrow> matches (CHR ''*'' # w @ P) w" by (cases pr) (auto simp: scan_inv_def P_def)
    have "matches (CHR ''*'' # w @ P) w \<longleftrightarrow> skip_stars P = []"
    proof
      assume "matches (CHR ''*'' # w @ P) w"
      moreover from w(1) have "filter (\<lambda>c. c \<noteq> CHR ''*'') w = w" by (intro filter_True) auto
      ultimately have "literals P = 0" using matches_length by (fastforce simp: literals_def)
      then show "skip_stars P = []" by (simp add: literals_skip)
    next
      assume "skip_stars P = []"
      with w(1) have "matches (w @ P) (w @ [])" by (subst matches_literals) (auto simp: matches_nil_subject)
      then show "matches (CHR ''*'' # w @ P) w" by (auto intro: matches.star_none)
    qed
    with True w(2) show ?thesis by (simp add: P_def)
  qed
qed

lemma matchesSubjectPattern_exact:
  assumes "CHR ''*'' \<notin> set sub"
  shows "matchesSubjectPattern pat sub = Some (matches pat sub)"
proof -
  obtain s ok where run: "while_option (scanning pat sub) (turn pat sub) (scan_start, True) = Some (s, ok)"
    using scan_ends [of pat sub] by auto
  have "scan_inv pat sub (scan_start, True)" by (simp add: scan_inv_def scan_start_def)
  then have "scan_inv pat sub (s, ok)"
    using while_option_rule [where P = "scan_inv pat sub", OF _ run] turn_inv assms by blast
  from scan_result [OF this while_option_stop [OF run]] show ?thesis by (simp add: matchesSubjectPattern_def run)
qed

section \<open>The policy\<close>

record repo_oidc_policy =
  op_enabled :: bool
  op_subject_pattern :: "string option"
  op_allowed_events :: "string list"
  op_allowed_refs :: "string list"
  op_allowed_environments :: "string list"
  op_allowed_workflows :: "string list"

record actions_claims =
  gc_repository_id :: int
  gc_sub :: string
  gc_event_name :: string
  gc_ref :: "string option"
  gc_environment :: "string option"
  gc_job_workflow_ref :: "string option"

datatype oidc_denial =
    Repository_mismatch | Policy_disabled | Event_mismatch | Subject_mismatch | Context_mismatch | Workflow_mismatch

datatype oidc_decision = Admitted_by_policy | Denied_by_policy oidc_denial

definition among :: "string option \<Rightarrow> string list \<Rightarrow> bool" where
  "among v xs = (case v of None \<Rightarrow> False | Some x \<Rightarrow> x \<in> set xs)"

text \<open>\<open>None\<close> if the matcher did not return.\<close>

definition evaluateGitHubOidcPolicy :: "int \<Rightarrow> repo_oidc_policy \<Rightarrow> actions_claims \<Rightarrow> oidc_decision option" where
  "evaluateGitHubOidcPolicy expected p g =
    (if gc_repository_id g \<noteq> expected then Some (Denied_by_policy Repository_mismatch)
     else if \<not> op_enabled p then Some (Denied_by_policy Policy_disabled)
     else if gc_event_name g \<notin> set (op_allowed_events p) then Some (Denied_by_policy Event_mismatch)
     else (case (case op_subject_pattern p of None \<Rightarrow> Some True | Some pat \<Rightarrow> matchesSubjectPattern pat (gc_sub g)) of
         None \<Rightarrow> None
       | Some False \<Rightarrow> Some (Denied_by_policy Subject_mismatch)
       | Some True \<Rightarrow>
           if (op_allowed_refs p \<noteq> [] \<or> op_allowed_environments p \<noteq> [])
               \<and> \<not> (among (gc_ref g) (op_allowed_refs p) \<or> among (gc_environment g) (op_allowed_environments p))
             then Some (Denied_by_policy Context_mismatch)
           else if op_allowed_workflows p \<noteq> [] \<and> \<not> among (gc_job_workflow_ref g) (op_allowed_workflows p)
             then Some (Denied_by_policy Workflow_mismatch)
           else Some Admitted_by_policy))"

text \<open>What a policy means to admit.\<close>

definition satisfies_policy :: "int \<Rightarrow> repo_oidc_policy \<Rightarrow> actions_claims \<Rightarrow> bool" where
  "satisfies_policy expected p g \<longleftrightarrow> gc_repository_id g = expected \<and> op_enabled p
     \<and> gc_event_name g \<in> set (op_allowed_events p)
     \<and> (\<exists>pat \<in> set_option (op_subject_pattern p). matches pat (gc_sub g)) = (op_subject_pattern p \<noteq> None)
     \<and> ((op_allowed_refs p = [] \<and> op_allowed_environments p = [])
        \<or> among (gc_ref g) (op_allowed_refs p) \<or> among (gc_environment g) (op_allowed_environments p))
     \<and> (op_allowed_workflows p = [] \<or> among (gc_job_workflow_ref g) (op_allowed_workflows p))"

text \<open>C27. The subject matcher returns for every pattern and every subject, and so does the policy: each turn
  of the loop moves the place to come back to, the star or the subject index forward.\<close>

theorem matchesSubjectPattern_returns:
  "(\<exists>b. matchesSubjectPattern pat sub = Some b) \<and> (\<exists>d. evaluateGitHubOidcPolicy n p g = Some d)"
proof -
  have ends: "\<exists>b. matchesSubjectPattern pat sub = Some b" for pat sub
    using scan_ends [of pat sub] by (auto simp: matchesSubjectPattern_def)
  moreover have "\<exists>d. evaluateGitHubOidcPolicy n p g = Some d"
  proof (cases "op_subject_pattern p")
    case None
    then show ?thesis by (simp add: evaluateGitHubOidcPolicy_def)
  next
    case (Some pat)
    obtain b where "matchesSubjectPattern pat (gc_sub g) = Some b" using ends by blast
    with Some show ?thesis by (cases b) (simp_all add: evaluateGitHubOidcPolicy_def)
  qed
  ultimately show ?thesis by blast
qed

text \<open>C28. For a token whose subject has no star, the policy admits exactly the tokens of the expected
  repository, while it is enabled, whose event is listed, whose subject matches the pattern in the declarative
  sense, whose ref or environment is listed if any is, and whose workflow is listed if any is.\<close>

theorem oidc_policy_exact:
  assumes "CHR ''*'' \<notin> set (gc_sub g)"
  shows "evaluateGitHubOidcPolicy n p g = Some Admitted_by_policy \<longleftrightarrow> satisfies_policy n p g"
proof (cases "op_subject_pattern p")
  case None
  then show ?thesis by (auto simp: evaluateGitHubOidcPolicy_def satisfies_policy_def)
next
  case (Some pat)
  with matchesSubjectPattern_exact [OF assms, of pat] show ?thesis
    by (cases "matches pat (gc_sub g)") (auto simp: evaluateGitHubOidcPolicy_def satisfies_policy_def)
qed

definition sample_policy :: repo_oidc_policy where
  "sample_policy = \<lparr>op_enabled = True, op_subject_pattern = Some ''repo:o/*:*/main'', op_allowed_events = [''push''],
     op_allowed_refs = [''refs/heads/main''], op_allowed_environments = [], op_allowed_workflows = []\<rparr>"

definition sample_token :: actions_claims where
  "sample_token = \<lparr>gc_repository_id = 7, gc_sub = ''repo:o/r:ref:refs/heads/main'', gc_event_name = ''push'',
     gc_ref = Some ''refs/heads/main'', gc_environment = None, gc_job_workflow_ref = None\<rparr>"

theorem oidc_policy_exact_witness:
  "evaluateGitHubOidcPolicy 7 sample_policy sample_token = Some Admitted_by_policy
   \<and> satisfies_policy 7 sample_policy sample_token"
proof -
  have "evaluateGitHubOidcPolicy 7 sample_policy sample_token = Some Admitted_by_policy" by code_simp
  with oidc_policy_exact [of sample_token 7 sample_policy] show ?thesis by (simp add: sample_token_def)
qed

text \<open>A subject that contains a star can be refused by the pattern that admits everything: the comparison of
  the two characters comes before the test for the star, so the star of the pattern is used up as a
  literal.\<close>

theorem star_in_subject_refused:
  "matchesSubjectPattern ''*'' ''*x'' = Some False \<and> matches ''*'' ''*x''"
proof
  show "matchesSubjectPattern ''*'' ''*x'' = Some False" by code_simp
  have "matches ''x'' ''x''" by (simp add: matches.nothing)
  then show "matches ''*'' ''*x''" by (auto simp: matches_star)
qed

end
