(* ===== verification/Grep.thy ===== *)
theory Grep
  imports Json "HOL-Library.Sublist"
begin

text \<open>
  Text search in artifacts: \<^verbatim>\<open>packages/core/src/grep.ts\<close>. Patterns are validated by scanners that look for
  repetition that backtracks without bound; text arrives in chunks and is split into lines; a line is
  reported with the column of its first match. The loops over an index are recursions on the text that
  is left at that index. Strings are lists of UTF-16 code units here, as the lengths and columns count them;
  only units below 256 are represented.
\<close>

section \<open>Scanning a pattern\<close>

datatype grep_query_error =
    Pattern_too_long | Backreference | Lookaround | Nested_quantifiers | Ambiguous_alternation

text \<open>What is left after a character class whose bracket was just passed.\<close>

fun skip_class :: "string \<Rightarrow> string" where
  "skip_class [] = []"
| "skip_class [c] = []"
| "skip_class (c # d # cs) = (if c = CHR '']'' then d # cs
     else if c = CHR 0x5C then skip_class cs else skip_class (d # cs))"

lemma skip_class_length: "length (skip_class cs) \<le> length cs"
  by (induction cs rule: skip_class.induct) auto

text \<open>The content of a brace just passed, and whether it has no upper bound.\<close>

definition extractBraceContent :: "string \<Rightarrow> string option" where
  "extractBraceContent cs = (if CHR ''}'' \<in> set cs then Some (takeWhile (\<lambda>c. c \<noteq> CHR ''}'') cs) else None)"

definition isUnboundedBrace :: "string \<Rightarrow> bool" where
  "isUnboundedBrace cs \<longleftrightarrow> cs \<noteq> [] \<and> last cs = CHR '','' \<and> butlast cs \<noteq> [] \<and> list_all digit (butlast cs)"

text \<open>An unbounded quantifier at the start of a text.\<close>

fun unbounded_at :: "string \<Rightarrow> bool" where
  "unbounded_at [] = False"
| "unbounded_at (c # cs) = (c = CHR ''*'' \<or> c = CHR ''+''
     \<or> (c = CHR ''{'' \<and> (case extractBraceContent cs of None \<Rightarrow> False | Some b \<Rightarrow> isUnboundedBrace b)))"

text \<open>The body of a group: whether it has an unbounded quantifier at any depth, and the text after it.\<close>

function group_body :: "nat \<Rightarrow> bool \<Rightarrow> string \<Rightarrow> bool \<times> string" where
  "group_body d u [] = (u, [])"
| "group_body d u (c # cs) =
    (if c = CHR 0x5C then group_body d u (drop 1 cs)
     else if c = CHR ''['' then group_body d u (skip_class cs)
     else if c = CHR ''('' then group_body (d + 1) u cs
     else if c = CHR '')'' then (if d \<le> 1 then (u, cs) else group_body (d - 1) u cs)
     else group_body d (u \<or> unbounded_at (c # cs)) cs)"
  by pat_completeness auto
termination
  by (relation "measure (\<lambda>(d, u, cs). length cs)") (auto simp: le_imp_less_Suc skip_class_length)

lemma group_body_length: "length (snd (group_body d u cs)) \<le> length cs"
proof (induction d u cs rule: group_body.induct)
  case (2 d u c cs)
  have "length (skip_class cs) \<le> length cs" by (rule skip_class_length)
  with 2 show ?case by (auto split: if_splits)
qed simp

lemma group_body_rest: "(v, rest) = group_body d u cs \<Longrightarrow> length rest < Suc (length cs)"
  using group_body_length [of d u cs] by (metis le_imp_less_Suc snd_conv)

function detectNestedUnboundedQuantifiers :: "string \<Rightarrow> bool" where
  "detectNestedUnboundedQuantifiers [] = False"
| "detectNestedUnboundedQuantifiers (c # cs) =
    (if c = CHR 0x5C then detectNestedUnboundedQuantifiers (drop 1 cs)
     else if c = CHR ''['' then detectNestedUnboundedQuantifiers (skip_class cs)
     else if c = CHR ''('' then (case group_body 1 False cs of (u, rest) \<Rightarrow>
        u \<and> unbounded_at rest \<or> detectNestedUnboundedQuantifiers rest)
     else detectNestedUnboundedQuantifiers cs)"
  by pat_completeness auto
termination
  by (relation "measure length")
    (auto simp: le_imp_less_Suc skip_class_length dest: group_body_rest)

text \<open>The text of a group up to its closing bracket, and the text after it.\<close>

function group_split :: "nat \<Rightarrow> string \<Rightarrow> string \<times> string" where
  "group_split d [] = ([], [])"
| "group_split d (c # cs) =
    (if c = CHR 0x5C then apfst (\<lambda>b. c # take 1 cs @ b) (group_split d (drop 1 cs))
     else if c = CHR ''['' then
       apfst (\<lambda>b. c # take (length cs - length (skip_class cs)) cs @ b) (group_split d (skip_class cs))
     else if c = CHR ''('' then apfst (\<lambda>b. c # b) (group_split (d + 1) cs)
     else if c = CHR '')'' then (if d \<le> 1 then ([], cs) else apfst (\<lambda>b. c # b) (group_split (d - 1) cs))
     else apfst (\<lambda>b. c # b) (group_split d cs))"
  by pat_completeness auto
termination
  by (relation "measure (\<lambda>(d, cs). length cs)") (auto simp: le_imp_less_Suc skip_class_length)

lemma group_split_length: "length (snd (group_split d cs)) \<le> length cs"
proof (induction d cs rule: group_split.induct)
  case (2 d c cs)
  have "length (skip_class cs) \<le> length cs" by (rule skip_class_length)
  with 2 show ?case by (auto split: if_splits)
qed simp

lemma group_split_rest: "(b, rest) = group_split d cs \<Longrightarrow> length rest < Suc (length cs)"
  using group_split_length [of d cs] by (metis le_imp_less_Suc snd_conv)

text \<open>The alternatives between the bars that are outside every inner group; \<open>cur\<close> is the part so far.\<close>

function alternatives :: "int \<Rightarrow> string \<Rightarrow> string \<Rightarrow> string list" where
  "alternatives d cur [] = [cur]"
| "alternatives d cur (c # cs) =
    (if c = CHR 0x5C then alternatives d (cur @ c # take 1 cs) (drop 1 cs)
     else if c = CHR ''['' then
       alternatives d (cur @ c # take (length cs - length (skip_class cs)) cs) (skip_class cs)
     else if c = CHR ''|'' \<and> d = 0 then cur # alternatives d [] cs
     else alternatives (if c = CHR ''('' then d + 1 else if c = CHR '')'' then d - 1 else d) (cur @ [c]) cs)"
  by pat_completeness auto
termination
  by (relation "measure (\<lambda>(d, cur, cs). length cs)") (auto simp: le_imp_less_Suc skip_class_length)

definition splitTopLevelAlternatives :: "string \<Rightarrow> string list" where
  "splitTopLevelAlternatives body = alternatives 0 [] body"

text \<open>The literal that an alternative stands for, if it is one.\<close>

fun normalizeSimpleLiteralAlternative :: "string \<Rightarrow> string option" where
  "normalizeSimpleLiteralAlternative [] = Some []"
| "normalizeSimpleLiteralAlternative [c] =
    (if c = CHR 0x5C \<or> c \<in> set ''()[]{}*+?.^$|'' then None else Some [c])"
| "normalizeSimpleLiteralAlternative (c # d # cs) =
    (if c = CHR 0x5C then map_option (\<lambda>r. d # r) (normalizeSimpleLiteralAlternative cs)
     else if c \<in> set ''()[]{}*+?.^$|'' then None
     else map_option (\<lambda>r. c # r) (normalizeSimpleLiteralAlternative (d # cs)))"

text \<open>Two alternatives of which one starts with the other.\<close>

fun ambiguous :: "string list \<Rightarrow> bool" where
  "ambiguous [] = False"
| "ambiguous (a # as) = (list_ex (\<lambda>b. prefix b a \<or> prefix a b) as \<or> ambiguous as)"

definition group_ambiguous :: "string \<Rightarrow> string \<Rightarrow> bool" where
  "group_ambiguous body rest \<longleftrightarrow> unbounded_at rest \<and> CHR ''|'' \<in> set body
     \<and> ambiguous (List.map_filter normalizeSimpleLiteralAlternative (splitTopLevelAlternatives body))"

function detectAmbiguousAlternation :: "string \<Rightarrow> bool" where
  "detectAmbiguousAlternation [] = False"
| "detectAmbiguousAlternation (c # cs) =
    (if c = CHR 0x5C then detectAmbiguousAlternation (drop 1 cs)
     else if c = CHR ''['' then detectAmbiguousAlternation (skip_class cs)
     else if c = CHR ''('' then (case group_split 1 cs of (body, rest) \<Rightarrow>
        group_ambiguous body rest \<or> detectAmbiguousAlternation rest)
     else detectAmbiguousAlternation cs)"
  by pat_completeness auto
termination
  by (relation "measure length")
    (auto simp: le_imp_less_Suc skip_class_length dest: group_split_rest)

text \<open>The checks of a pattern in the order of the code.\<close>

definition backreference :: "string \<Rightarrow> bool" where
  "backreference p \<longleftrightarrow> list_ex (\<lambda>d. sublist [CHR 0x5C, d] p) ''123456789''"

definition lookaround :: "string \<Rightarrow> bool" where
  "lookaround p \<longleftrightarrow> list_ex (\<lambda>w. sublist w p) [''(?='', ''(?!'', ''(?<='', ''(?<!'']"

definition validateGrepPattern :: "string \<Rightarrow> bool \<Rightarrow> grep_query_error + unit" where
  "validateGrepPattern p regex =
    (if length p > 200 then Inl Pattern_too_long
     else if \<not> regex then Inr ()
     else if backreference p then Inl Backreference
     else if lookaround p then Inl Lookaround
     else if detectNestedUnboundedQuantifiers p then Inl Nested_quantifiers
     else if detectAmbiguousAlternation p then Inl Ambiguous_alternation
     else Inr ())"

text \<open>A group inside a group is skipped with it, so repetition of a repetition passes one level down.\<close>

lemma nested_group_missed:
  "validateGrepPattern ''(a+)+'' True = Inl Nested_quantifiers"
  "validateGrepPattern ''((a+)+)'' True = Inr ()"
  "validateGrepPattern ''((a|a)+)'' True = Inr ()"
  by code_simp+

section \<open>Matching a line\<close>

definition GREP_MAX_LINE_TEXT :: nat where
  "GREP_MAX_LINE_TEXT = 512"

definition GREP_REGEX_LINE_INPUT_CAP :: nat where
  "GREP_REGEX_LINE_INPUT_CAP = 2048"

fun indexOf :: "string \<Rightarrow> string \<Rightarrow> nat option" where
  "indexOf p [] = (if p = [] then Some 0 else None)"
| "indexOf p (c # cs) = (if prefix p (c # cs) then Some 0 else map_option Suc (indexOf p cs))"

text \<open>The column of the first match in a line, from one. \<open>exec\<close> is the regular expression engine: the
  index of the first match of a pattern in a text.\<close>

definition compileGrepMatcher :: "(string \<Rightarrow> string \<Rightarrow> nat option) \<Rightarrow> string \<Rightarrow> bool \<Rightarrow> string \<Rightarrow> nat option" where
  "compileGrepMatcher exec p regex line =
    (if \<not> regex then map_option Suc (indexOf p line)
     else map_option Suc (exec p (take GREP_REGEX_LINE_INPUT_CAP line)))"

record line_match =
  lm_line :: nat
  lm_text :: string
  lm_col :: nat

definition matchLine :: "(string \<Rightarrow> nat option) \<Rightarrow> string \<Rightarrow> nat \<Rightarrow> line_match option" where
  "matchLine m text line = map_option (\<lambda>col. \<lparr>lm_line = line, lm_text = take GREP_MAX_LINE_TEXT text,
     lm_col = col\<rparr>) (m text)"

lemma indexOf_None: "indexOf p xs = None \<longleftrightarrow> \<not> sublist p xs"
  by (induction xs) (auto simp: sublist_Cons_right)

lemma indexOf_Some: "indexOf p xs = Some i \<longleftrightarrow> i \<le> length xs \<and> prefix p (drop i xs) \<and> (\<forall>j < i. \<not> prefix p (drop j xs))"
proof (induction xs arbitrary: i)
  case (Cons c cs)
  show ?case
  proof (cases "prefix p (c # cs)")
    case True
    then show ?thesis by (cases i) auto
  next
    case False
    with Cons show ?thesis by (cases i) (auto simp: All_less_Suc2)
  qed
qed auto

section \<open>Splitting text into lines\<close>

definition newline :: char where
  "newline = CHR 0x0A"

fun split_lines :: "string \<Rightarrow> string list" where
  "split_lines [] = [[]]"
| "split_lines (c # cs) = (if c = newline then [] # split_lines cs
     else (c # hd (split_lines cs)) # tl (split_lines cs))"

definition strip_return :: "string \<Rightarrow> string" where
  "strip_return l = (if l \<noteq> [] \<and> last l = CHR 0x0D then butlast l else l)"

definition splitChunkIntoLines :: "string \<Rightarrow> string \<Rightarrow> string list \<times> string" where
  "splitChunkIntoLines pending chunk = (let parts = split_lines (pending @ chunk) in
     (map strip_return (butlast parts), last parts))"

text \<open>A reader that is fed the chunks one after the other.\<close>

fun feed :: "string \<Rightarrow> string list \<Rightarrow> string list \<times> string" where
  "feed pending [] = ([], pending)"
| "feed pending (c # cs) = (case splitChunkIntoLines pending c of (ls, p) \<Rightarrow>
     (case feed p cs of (ls', p') \<Rightarrow> (ls @ ls', p')))"

lemma split_lines_not_Nil [simp]: "split_lines cs \<noteq> []"
  by (induction cs) auto

lemma split_lines_append: "split_lines (xs @ ys) = butlast (split_lines xs) @ split_lines (last (split_lines xs) @ ys)"
proof (induction xs)
  case (Cons c xs)
  obtain l ls where "split_lines xs = l # ls" by (cases "split_lines xs") auto
  with Cons show ?case by (cases ls) auto
qed simp

lemma split_lines_line: "newline \<notin> set xs \<Longrightarrow> split_lines xs = [xs]"
  by (induction xs) auto

lemma no_newline: "l \<in> set (split_lines xs) \<Longrightarrow> newline \<notin> set l"
proof (induction xs arbitrary: l)
  case (Cons c xs)
  have "hd (split_lines xs) \<in> set (split_lines xs)" by simp
  moreover have "x \<in> set (split_lines xs)" if "x \<in> set (tl (split_lines xs))" for x
    using that by (rule list.set_sel(2) [OF split_lines_not_Nil])
  ultimately show ?case using Cons by (auto split: if_splits)
qed simp

lemma feed_splits:
  assumes "newline \<notin> set pending"
  shows "feed pending chunks = splitChunkIntoLines pending (concat chunks)"
  using assms
proof (induction chunks arbitrary: pending)
  case Nil
  then show ?case by (simp add: splitChunkIntoLines_def split_lines_line)
next
  case (Cons c cs)
  have "newline \<notin> set (last (split_lines (pending @ c)))" by (rule no_newline [OF last_in_set]) simp
  then have "feed (last (split_lines (pending @ c))) cs
      = splitChunkIntoLines (last (split_lines (pending @ c))) (concat cs)" by (rule Cons.IH)
  then show ?case
    using split_lines_append [of "pending @ c" "concat cs"]
    by (simp add: splitChunkIntoLines_def Let_def butlast_append)
qed

text \<open>How a text is cut into chunks does not matter: whatever the chunk boundaries, in the middle of a
  line or between a carriage return and its newline, the reader completes the same lines in the same
  order and is left with the same pending text as when it is given the whole text at once; no line it
  reports holds a newline; and the column reported for a literal is where the text occurs first.\<close>

theorem chunks_do_not_matter:
  "feed [] chunks = splitChunkIntoLines [] (concat chunks)
   \<and> list_all (\<lambda>l. newline \<notin> set l) (fst (feed [] chunks))
   \<and> (matchLine (compileGrepMatcher exec p False) text n = None \<longleftrightarrow> \<not> sublist p text)
   \<and> (matchLine (compileGrepMatcher exec p False) text n = Some \<lparr>lm_line = n, lm_text = take 512 text, lm_col = Suc i\<rparr>
      \<longleftrightarrow> i \<le> length text \<and> prefix p (drop i text) \<and> \<not> (\<exists>j < i. prefix p (drop j text)))"
proof (intro conjI)
  show feed: "feed [] chunks = splitChunkIntoLines [] (concat chunks)" by (rule feed_splits) simp
  have "newline \<notin> set (strip_return l)" if "l \<in> set (butlast (split_lines (concat chunks)))" for l
    using no_newline [OF in_set_butlastD [OF that]] by (auto simp: strip_return_def dest: in_set_butlastD)
  then show "list_all (\<lambda>l. newline \<notin> set l) (fst (feed [] chunks))"
    by (auto simp: feed splitChunkIntoLines_def Let_def list_all_iff)
qed (auto simp: matchLine_def compileGrepMatcher_def indexOf_None indexOf_Some GREP_MAX_LINE_TEXT_def)

end
