(* ===== verification/Access.thy ===== *)
theory Access
  imports Questions "HOL-Library.Sublist"
begin

text \<open>
  What a credential may do: \<^verbatim>\<open>packages/schemas/src/capability.ts\<close> and
  \<^verbatim>\<open>packages/ops-sqlite/src/credential-policy.ts\<close>. A policy has a role, capabilities, and restrictions to task
  types and to parts of the record namespace, which are judged for reading and for writing. Policies are
  compared when one is delegated and intersected when a session acts under several; a request is judged
  before any operation runs. A JavaScript property that may be missing is an option.
\<close>

section \<open>Policies\<close>

datatype project_role = Viewer | Participant | Maintainer | Project_owner

fun role_rank :: "project_role \<Rightarrow> nat" where
  "role_rank Viewer = 1"
| "role_rank Participant = 2"
| "role_rank Maintainer = 3"
| "role_rank Project_owner = 4"

lemma role_rank_inject: "role_rank r = role_rank q \<Longrightarrow> r = q"
  by (cases r; cases q) simp_all

text \<open>Roles are compared by their rank.\<close>

instantiation project_role :: linorder
begin

definition less_eq_project_role :: "project_role \<Rightarrow> project_role \<Rightarrow> bool" where
  "r \<le> q \<longleftrightarrow> role_rank r \<le> role_rank q"

definition less_project_role :: "project_role \<Rightarrow> project_role \<Rightarrow> bool" where
  "r < q \<longleftrightarrow> role_rank r < role_rank q"

instance
  by standard (auto simp: less_eq_project_role_def less_project_role_def dest: role_rank_inject)

end

record record_rule =
  rr_type :: string
  rr_key_prefixes :: "string list option"

record namespace_restrictions =
  ns_task_types :: "string list option"
  ns_records :: "record_rule list option"
  ns_records_read :: "record_rule list option"
  ns_records_write :: "record_rule list option"

record credential_policy =
  cp_role :: project_role
  cp_capabilities :: "string list"
  cp_restrictions :: "namespace_restrictions option"

text \<open>The refinement of the schema: the two forms of record restrictions exclude each other.\<close>

definition restrictions_ok :: "namespace_restrictions \<Rightarrow> bool" where
  "restrictions_ok r \<longleftrightarrow> ns_records r = None \<or> (ns_records_read r = None \<and> ns_records_write r = None)"

definition CAPABILITIES :: "string list" where
  "CAPABILITIES = [''conversations:read'', ''conversations:publish'', ''conversations:manage'', ''inbox:consume'',
     ''dispatch:relay'', ''agents:read'', ''agents:manage'', ''agent-bindings:attach'', ''tasks:read'',
     ''tasks:write'', ''tasks:delete'', ''records:read'', ''records:write'', ''records:delete'',
     ''artifacts:read'', ''artifacts:write'', ''artifacts:delete'', ''claims:read'', ''claims:acquire'',
     ''claims:renew'', ''claims:release'', ''signals:read'', ''signals:send'', ''signals:ack'',
     ''signals:manage'', ''presence:read'', ''presence:heartbeat'', ''gates:read'', ''gates:create'',
     ''gates:resolve'', ''gates:delete'', ''schema:read'', ''schema:preview'', ''schema:write'',
     ''search:read'', ''search:reindex'', ''journal:read'', ''journal:append'', ''journal:archive'',
     ''summary:read'', ''templates:instantiate'', ''tokens:read'', ''tokens:issue'', ''tokens:rotate'',
     ''tokens:revoke'', ''service-accounts:read'', ''service-accounts:manage'', ''workload-bindings:read'',
     ''workload-bindings:manage'', ''memberships:read'', ''memberships:manage'', ''repository-policy:read'',
     ''repository-policy:manage'', ''project:inspect'', ''project:configure'', ''project:restart'',
     ''project:export'', ''project:import'', ''project:archive'', ''project:destroy'',
     ''project:sessions-revoke'', ''project:principals-revoke'']"

definition ROOT_CAPABILITIES :: "string list" where
  "ROOT_CAPABILITIES = [''journal:archive'', ''project:export'', ''project:import'', ''project:archive'',
     ''project:destroy'', ''project:sessions-revoke'']"

definition hasRootCapabilities :: "credential_policy \<Rightarrow> bool" where
  "hasRootCapabilities p = list_ex (\<lambda>c. c \<in> set ROOT_CAPABILITIES) (cp_capabilities p)"

definition delegablePolicy :: "credential_policy \<Rightarrow> credential_policy" where
  "delegablePolicy p = p\<lparr>cp_capabilities := filter (\<lambda>c. c \<notin> set ROOT_CAPABILITIES) (cp_capabilities p)\<rparr>"

text \<open>A stored policy is read without the capabilities that this version does not know.\<close>

definition read_capabilities :: "string list \<Rightarrow> string list" where
  "read_capabilities cs = filter (\<lambda>c. c \<in> set CAPABILITIES) cs"

definition permissionToRole :: "string \<Rightarrow> project_role" where
  "permissionToRole p = (if p = ''read'' then Viewer else if p = ''write'' then Participant else Maintainer)"

text \<open>\<open>text.split(c)\<close>: the parts between the separators.\<close>

fun split_parts :: "char \<Rightarrow> string \<Rightarrow> string list" where
  "split_parts c [] = [[]]"
| "split_parts c (d # ds) = (if d = c then [] # split_parts c ds else (d # hd (split_parts c ds)) # tl (split_parts c ds))"

lemma split_parts_not_Nil [simp]: "split_parts c ds \<noteq> []"
  by (induction ds) auto

definition capabilityRole :: "string \<Rightarrow> project_role" where
  "capabilityRole capability =
    (let parts = split_parts CHR '':'' capability; resource = hd parts;
         action = (if 2 \<le> length parts then Some (parts ! 1) else None) in
     if resource \<in> set [''tokens'', ''service-accounts'', ''workload-bindings'', ''memberships'', ''repository-policy'']
     then Project_owner
     else if resource = ''project''
     then if action \<in> Some ` set [''inspect'', ''restart'', ''sessions-revoke''] then Maintainer else Project_owner
     else if capability \<in> set [''schema:write'', ''signals:manage'', ''agents:manage'', ''conversations:manage'',
        ''search:reindex'', ''journal:archive''] then Maintainer
     else if action = Some ''read'' then Viewer else Participant)"

definition effectiveCredentialPolicy :: "credential_policy \<Rightarrow> project_role \<Rightarrow> credential_policy" where
  "effectiveCredentialPolicy p membership =
    (let role = (if cp_role p \<le> membership then cp_role p else membership) in
     p\<lparr>cp_role := role, cp_capabilities := filter (\<lambda>c. capabilityRole c \<le> role) (cp_capabilities p)\<rparr>)"

text \<open>The presets and the most that a runtime may be given.\<close>

definition worker_preset :: credential_policy where
  "worker_preset = \<lparr>cp_role = Participant, cp_capabilities = [''tasks:read'', ''tasks:write'', ''records:read'',
     ''records:write'', ''artifacts:read'', ''artifacts:write'', ''claims:read'', ''claims:acquire'', ''claims:renew'',
     ''claims:release'', ''signals:read'', ''signals:send'', ''signals:ack'', ''presence:read'',
     ''presence:heartbeat'', ''gates:read'', ''schema:read'', ''search:read'', ''journal:read'', ''journal:append'',
     ''summary:read''], cp_restrictions = None\<rparr>"

definition read_only_preset :: credential_policy where
  "read_only_preset = \<lparr>cp_role = Viewer,
     cp_capabilities = filter (\<lambda>c. suffix '':read'' c \<and> capabilityRole c = Viewer) CAPABILITIES, cp_restrictions = None\<rparr>"

definition coordination_preset :: credential_policy where
  "coordination_preset = \<lparr>cp_role = Participant, cp_capabilities = [''claims:read'', ''claims:acquire'',
     ''claims:renew'', ''claims:release'', ''signals:read'', ''signals:send'', ''signals:ack'', ''presence:read'',
     ''presence:heartbeat'', ''gates:read'', ''gates:create'', ''gates:resolve''], cp_restrictions = None\<rparr>"

definition artifact_writer_preset :: credential_policy where
  "artifact_writer_preset = \<lparr>cp_role = Participant, cp_capabilities = [''artifacts:read'', ''artifacts:write''],
     cp_restrictions = None\<rparr>"

definition RUNTIME_RUN_CEILING :: credential_policy where
  "RUNTIME_RUN_CEILING = \<lparr>cp_role = Participant, cp_capabilities = cp_capabilities worker_preset
     @ [''conversations:read'', ''conversations:publish'', ''inbox:consume'', ''dispatch:relay'', ''agents:read'',
        ''agent-bindings:attach''], cp_restrictions = None\<rparr>"

section \<open>What a policy permits\<close>

text \<open>\<open>restrictions?.field\<close>.\<close>

definition restricted_types :: "namespace_restrictions option \<Rightarrow> string list option" where
  "restricted_types r = (case r of None \<Rightarrow> None | Some n \<Rightarrow> ns_task_types n)"

definition permitsTask :: "namespace_restrictions option \<Rightarrow> string \<Rightarrow> bool" where
  "permitsTask r ty = (case restricted_types r of None \<Rightarrow> True | Some tys \<Rightarrow> ty \<in> set tys)"

datatype record_side = Read_side | Write_side

definition isReadMethod :: "string \<Rightarrow> bool" where
  "isReadMethod m \<longleftrightarrow> m = ''GET'' \<or> m = ''HEAD''"

definition recordRulesForSide :: "namespace_restrictions option \<Rightarrow> record_side \<Rightarrow> record_rule list option" where
  "recordRulesForSide r side = (case r of None \<Rightarrow> None
     | Some n \<Rightarrow>
         if ns_records_read n = None \<and> ns_records_write n = None then ns_records n
         else if ns_records n \<noteq> None then Some []
         else (case (case side of Read_side \<Rightarrow> ns_records_read n | Write_side \<Rightarrow> ns_records_write n) of
             None \<Rightarrow> Some [] | Some rules \<Rightarrow> Some rules))"

definition within_prefix :: "string \<Rightarrow> string \<Rightarrow> bool" where
  "within_prefix p key \<longleftrightarrow> key = p \<or> prefix (p @ ''/'') key"

definition rule_permits :: "record_rule \<Rightarrow> string \<Rightarrow> string \<Rightarrow> bool" where
  "rule_permits rule ty key \<longleftrightarrow> rr_type rule = ty
     \<and> (case rr_key_prefixes rule of None \<Rightarrow> True | Some ps \<Rightarrow> list_ex (\<lambda>p. within_prefix p key) ps)"

definition recordRulesPermit :: "record_rule list option \<Rightarrow> string \<Rightarrow> string \<Rightarrow> bool" where
  "recordRulesPermit rules ty key =
     (case rules of None \<Rightarrow> True | Some rs \<Rightarrow> list_ex (\<lambda>rule. rule_permits rule ty key) rs)"

definition permitsRecordSide :: "namespace_restrictions option \<Rightarrow> record_side \<Rightarrow> string \<Rightarrow> string \<Rightarrow> bool" where
  "permitsRecordSide r side ty key = recordRulesPermit (recordRulesForSide r side) ty key"

definition permitsRecordRead :: "namespace_restrictions option \<Rightarrow> string \<Rightarrow> string \<Rightarrow> bool" where
  "permitsRecordRead r ty key = permitsRecordSide r Read_side ty key"

definition permitsRecordWrite :: "namespace_restrictions option \<Rightarrow> string \<Rightarrow> string \<Rightarrow> bool" where
  "permitsRecordWrite r ty key = permitsRecordSide r Write_side ty key"

definition rule_nonempty :: "record_rule \<Rightarrow> bool" where
  "rule_nonempty rule = (case rr_key_prefixes rule of None \<Rightarrow> True | Some ps \<Rightarrow> ps \<noteq> [])"

definition permitsRecordTypeSide :: "namespace_restrictions option \<Rightarrow> record_side \<Rightarrow> string \<Rightarrow> bool" where
  "permitsRecordTypeSide r side ty = (case recordRulesForSide r side of None \<Rightarrow> True
     | Some rs \<Rightarrow> list_ex (\<lambda>rule. rr_type rule = ty \<and> rule_nonempty rule) rs)"

definition permitsAnyRecordSide :: "namespace_restrictions option \<Rightarrow> record_side \<Rightarrow> bool" where
  "permitsAnyRecordSide r side = (case recordRulesForSide r side of None \<Rightarrow> True
     | Some rs \<Rightarrow> list_ex rule_nonempty rs)"

definition permitsRecord :: "namespace_restrictions option \<Rightarrow> string \<Rightarrow> string \<Rightarrow> bool" where
  "permitsRecord r ty key \<longleftrightarrow> permitsRecordRead r ty key \<and> permitsRecordWrite r ty key"

text \<open>The record that a claim resource names: the type ends at the first slash.\<close>

definition recordResourceTarget :: "string \<Rightarrow> (string \<times> string) option" where
  "recordResourceTarget resource =
    (if \<not> prefix ''record:'' resource then None
     else let rest = drop 7 resource; ty = takeWhile (\<lambda>c. c \<noteq> CHR ''/'') rest in
       if ty = [] \<or> ty = rest then None else Some (ty, drop (length ty + 1) rest))"

definition hasRecordRestrictions :: "namespace_restrictions option \<Rightarrow> bool" where
  "hasRecordRestrictions r = (case r of None \<Rightarrow> False
     | Some n \<Rightarrow> ns_records n \<noteq> None \<or> ns_records_read n \<noteq> None \<or> ns_records_write n \<noteq> None)"

definition hasSplitRecordRestrictions :: "namespace_restrictions option \<Rightarrow> bool" where
  "hasSplitRecordRestrictions r = (case r of None \<Rightarrow> False
     | Some n \<Rightarrow> ns_records_read n \<noteq> None \<or> ns_records_write n \<noteq> None)"

definition canEchoStoredRecord :: "credential_policy \<Rightarrow> string \<Rightarrow> string \<Rightarrow> bool" where
  "canEchoStoredRecord p ty key = (if \<not> hasSplitRecordRestrictions (cp_restrictions p) then True
     else ''records:read'' \<in> set (cp_capabilities p) \<and> permitsRecordRead (cp_restrictions p) ty key)"

definition hasNamespaceRestrictions :: "credential_policy \<Rightarrow> bool" where
  "hasNamespaceRestrictions p \<longleftrightarrow> restricted_types (cp_restrictions p) \<noteq> None \<or> hasRecordRestrictions (cp_restrictions p)"

section \<open>Delegation and intersection\<close>

definition rule_contained :: "record_rule list \<Rightarrow> record_rule \<Rightarrow> bool" where
  "rule_contained parent rule = (case rr_key_prefixes rule of
       None \<Rightarrow> list_ex (\<lambda>allowed. rr_type allowed = rr_type rule \<and> rr_key_prefixes allowed = None) parent
     | Some ps \<Rightarrow> list_all (\<lambda>p. recordRulesPermit (Some parent) (rr_type rule) p) ps)"

definition recordRulesContain :: "record_rule list option \<Rightarrow> record_rule list option \<Rightarrow> bool" where
  "recordRulesContain parent child = (case parent of None \<Rightarrow> True
     | Some ps \<Rightarrow> (case child of None \<Rightarrow> False | Some cs \<Rightarrow> list_all (rule_contained ps) cs))"

definition policyContains :: "credential_policy \<Rightarrow> credential_policy \<Rightarrow> bool" where
  "policyContains parent child =
    (let p = cp_restrictions parent; c = cp_restrictions child in
     if cp_role parent < cp_role child \<or> list_ex (\<lambda>x. x \<notin> set (cp_capabilities parent)) (cp_capabilities child) then False
     else if (case restricted_types p of None \<Rightarrow> False
         | Some ts \<Rightarrow> (case restricted_types c of None \<Rightarrow> True | Some us \<Rightarrow> list_ex (\<lambda>ty. ty \<notin> set ts) us)) then False
     else list_all (\<lambda>side. recordRulesContain (recordRulesForSide p side) (recordRulesForSide c side))
       [Read_side, Write_side])"

definition prefix_meet :: "string \<Rightarrow> string \<Rightarrow> string list" where
  "prefix_meet x y = (if x = y \<or> prefix (y @ ''/'') x then [x] else if prefix (x @ ''/'') y then [y] else [])"

definition common_prefixes :: "string list option \<Rightarrow> string list option \<Rightarrow> string list option" where
  "common_prefixes l r = (case l of None \<Rightarrow> r
     | Some xs \<Rightarrow> (case r of None \<Rightarrow> Some xs
         | Some ys \<Rightarrow> Some (concat (map (\<lambda>x. concat (map (prefix_meet x) ys)) xs))))"

definition intersect_rule :: "record_rule \<Rightarrow> record_rule \<Rightarrow> record_rule" where
  "intersect_rule left right = \<lparr>rr_type = rr_type left,
     rr_key_prefixes = map_option first_occurrences (common_prefixes (rr_key_prefixes left) (rr_key_prefixes right))\<rparr>"

definition intersectRecordRules :: "record_rule list option \<Rightarrow> record_rule list option \<Rightarrow> record_rule list option" where
  "intersectRecordRules a b = (case a of None \<Rightarrow> b
     | Some ls \<Rightarrow> (case b of None \<Rightarrow> Some ls
         | Some rs \<Rightarrow> Some (concat (map (\<lambda>left.
             map (intersect_rule left) (filter (\<lambda>right. rr_type right = rr_type left) rs)) ls))))"

text \<open>Equal sides are emitted as one list. The two lists have the same JSON text exactly if they are equal.\<close>

definition intersect_restrictions ::
    "namespace_restrictions option \<Rightarrow> namespace_restrictions option \<Rightarrow> namespace_restrictions" where
  "intersect_restrictions a b =
    (let r = intersectRecordRules (recordRulesForSide a Read_side) (recordRulesForSide b Read_side);
         w = intersectRecordRules (recordRulesForSide a Write_side) (recordRulesForSide b Write_side);
         tys = (case restricted_types a of None \<Rightarrow> restricted_types b
           | Some ts \<Rightarrow> (case restricted_types b of None \<Rightarrow> Some ts | Some us \<Rightarrow> Some (filter (\<lambda>ty. ty \<in> set us) ts))) in
     if r = None \<and> w = None then \<lparr>ns_task_types = tys, ns_records = None, ns_records_read = None, ns_records_write = None\<rparr>
     else if r \<noteq> None \<and> w \<noteq> None \<and> r = w
     then \<lparr>ns_task_types = tys, ns_records = r, ns_records_read = None, ns_records_write = None\<rparr>
     else \<lparr>ns_task_types = tys, ns_records = None, ns_records_read = r, ns_records_write = w\<rparr>)"

definition intersectCredentialPolicies :: "credential_policy \<Rightarrow> credential_policy \<Rightarrow> credential_policy" where
  "intersectCredentialPolicies a b =
    (effectiveCredentialPolicy (a\<lparr>cp_capabilities := filter (\<lambda>c. c \<in> set (cp_capabilities b)) (cp_capabilities a)\<rparr>)
       (cp_role b))\<lparr>cp_restrictions := Some (intersect_restrictions (cp_restrictions a) (cp_restrictions b))\<rparr>"

section \<open>The same rules in SQL\<close>

text \<open>\<open>json_extract\<close> of a field: objects and arrays are their JSON text, booleans are numbers. Compared with a
  text column, a number is its text.\<close>

definition json_extract :: "json option \<Rightarrow> json" where
  "json_extract v = (case v of None \<Rightarrow> JNull | Some (JBool b) \<Rightarrow> JNum (if b then 1 else 0)
     | Some (JArr xs) \<Rightarrow> JStr (stringify (JArr xs)) | Some (JObj kvs) \<Rightarrow> JStr (stringify (JObj kvs)) | Some j \<Rightarrow> j)"

definition extracted_text :: "json option \<Rightarrow> string option" where
  "extracted_text v = (case json_extract v of JStr x \<Rightarrow> Some x | JNum i \<Rightarrow> Some (int_str i) | _ \<Rightarrow> None)"

text \<open>The condition on a row of records; without rules there is none.\<close>

definition rule_condition :: "record_rule \<Rightarrow> string \<Rightarrow> string \<Rightarrow> bool" where
  "rule_condition rule ty key \<longleftrightarrow> ty = rr_type rule
     \<and> (case rr_key_prefixes rule of None \<Rightarrow> True
        | Some ps \<Rightarrow> list_ex (\<lambda>p. key = p \<or> take (length p + 1) key = p @ ''/'') ps)"

definition recordRestrictionCondition :: "namespace_restrictions option \<Rightarrow> record_side \<Rightarrow> string \<Rightarrow> string \<Rightarrow> bool" where
  "recordRestrictionCondition r side ty key = (case recordRulesForSide r side of None \<Rightarrow> True
     | Some rules \<Rightarrow> list_ex (\<lambda>rule. rule_condition rule ty key) rules)"

text \<open>The condition on a task, with its parent looked up among the tasks of permitted types.\<close>

definition taskRestrictionCondition :: "db \<Rightarrow> namespace_restrictions option \<Rightarrow> entity_row \<Rightarrow> bool" where
  "taskRestrictionCondition s r e = (case restricted_types r of None \<Rightarrow> True
     | Some ts \<Rightarrow> en_type e \<in> set ts
         \<and> (case extracted_text (obj_get ''parent_id'' (en_data e)) of None \<Rightarrow> True
            | Some i \<Rightarrow> list_ex (\<lambda>p. en_id p = i \<and> en_type p \<in> set ts) (db_entities s)))"

section \<open>Requests\<close>

datatype access_error = CredentialPolicyDenied | URIError

definition assertTaskAccess :: "db \<Rightarrow> credential_policy \<Rightarrow> json option \<Rightarrow> access_error + entity_row" where
  "assertTaskAccess s p i = (case as_string i of None \<Rightarrow> Inl CredentialPolicyDenied
     | Some i \<Rightarrow> (case by_key en_id i (db_entities s) of None \<Rightarrow> Inl CredentialPolicyDenied
         | Some e \<Rightarrow> if permitsTask (cp_restrictions p) (en_type e) then Inr e else Inl CredentialPolicyDenied))"

definition assertResourceAccess :: "db \<Rightarrow> credential_policy \<Rightarrow> json option \<Rightarrow> record_side \<Rightarrow> access_error + unit" where
  "assertResourceAccess s p resource side = (case as_string resource of None \<Rightarrow> Inl CredentialPolicyDenied
     | Some res \<Rightarrow>
         if prefix ''record:'' res
         then (case recordResourceTarget res of None \<Rightarrow> Inl CredentialPolicyDenied
           | Some (ty, key) \<Rightarrow> if permitsRecordSide (cp_restrictions p) side ty key then Inr () else Inl CredentialPolicyDenied)
         else let ty = takeWhile (\<lambda>c. c \<noteq> CHR '':'') res; colon = (CHR '':'' \<in> set res) in
           (case assertTaskAccess s p (Some (JStr (if colon then drop (length ty + 1) res else res))) of
              Inl e \<Rightarrow> Inl e
            | Inr e \<Rightarrow> if colon \<and> en_type e \<noteq> ty then Inl CredentialPolicyDenied else Inr ()))"

text \<open>\<open>decodeURIComponent\<close>: escapes are bytes, and a byte that is not ASCII starts a UTF-8 sequence of
  escapes; anything else throws.\<close>

fun hex_value :: "char \<Rightarrow> nat option" where
  "hex_value c = (let n = (of_char c :: nat) in
     if 48 \<le> n \<and> n \<le> 57 then Some (n - 48)
     else if 65 \<le> n \<and> n \<le> 70 then Some (n - 55)
     else if 97 \<le> n \<and> n \<le> 102 then Some (n - 87) else None)"

fun escaped_byte :: "string \<Rightarrow> (nat \<times> string) option" where
  "escaped_byte (p # a # b # cs) = (if p = CHR ''%'' then (case (hex_value a, hex_value b) of
       (Some x, Some y) \<Rightarrow> Some (16 * x + y, cs) | _ \<Rightarrow> None) else None)"
| "escaped_byte _ = None"

text \<open>The bytes that continue a sequence after its first byte, or \<open>None\<close> if that byte starts none.\<close>

definition utf8_tail :: "nat \<Rightarrow> nat option" where
  "utf8_tail n = (if n < 128 then Some 0 else if 194 \<le> n \<and> n \<le> 223 then Some 1
     else if 224 \<le> n \<and> n \<le> 239 then Some 2 else if 240 \<le> n \<and> n \<le> 244 then Some 3 else None)"

text \<open>The second byte is bounded further: no overlong forms, no surrogates, nothing above the last code point.\<close>

definition utf8_second :: "nat \<Rightarrow> nat \<Rightarrow> bool" where
  "utf8_second n m \<longleftrightarrow> 128 \<le> m \<and> m \<le> 191 \<and> (n = 224 \<longrightarrow> 160 \<le> m) \<and> (n = 237 \<longrightarrow> m \<le> 159)
     \<and> (n = 240 \<longrightarrow> 144 \<le> m) \<and> (n = 244 \<longrightarrow> m \<le> 143)"

fun escaped_tail :: "nat \<Rightarrow> (nat \<Rightarrow> bool) \<Rightarrow> string \<Rightarrow> (string \<times> string) option" where
  "escaped_tail 0 ok cs = Some ([], cs)"
| "escaped_tail (Suc k) ok cs = (case escaped_byte cs of None \<Rightarrow> None
     | Some (m, rest) \<Rightarrow> if ok m then map_option (apfst (\<lambda>ys. char_of m # ys))
          (escaped_tail k (\<lambda>b. 128 \<le> b \<and> b \<le> 191) rest) else None)"

lemma escaped_byte_length: "escaped_byte cs = Some (n, rest) \<Longrightarrow> length rest < length cs"
  by (induction cs rule: escaped_byte.induct) (auto split: if_splits option.splits)

lemma escaped_tail_length: "escaped_tail k ok cs = Some (ys, rest) \<Longrightarrow> length rest \<le> length cs"
  by (induction k ok cs arbitrary: ys rule: escaped_tail.induct)
    (fastforce split: if_splits option.splits dest: escaped_byte_length)+

function decodeURIComponent :: "string \<Rightarrow> (access_error + string)" where
  "decodeURIComponent [] = Inr []"
| "decodeURIComponent (c # cs) = (if c \<noteq> CHR ''%'' then map_sum id (\<lambda>ys. c # ys) (decodeURIComponent cs)
     else (case escaped_byte (c # cs) of None \<Rightarrow> Inl URIError
       | Some (n, rest) \<Rightarrow> (case utf8_tail n of None \<Rightarrow> Inl URIError
           | Some k \<Rightarrow> (case escaped_tail k (utf8_second n) rest of None \<Rightarrow> Inl URIError
               | Some (ys, rest') \<Rightarrow> map_sum id (\<lambda>zs. char_of n # ys @ zs) (decodeURIComponent rest')))))"
  by pat_completeness auto
termination
  by (relation "measure length") (auto dest!: escaped_byte_length escaped_tail_length)

fun decode_all :: "string list \<Rightarrow> access_error + string list" where
  "decode_all [] = Inr []"
| "decode_all (x # xs) = (case decodeURIComponent x of Inl e \<Rightarrow> Inl e
     | Inr y \<Rightarrow> map_sum id (\<lambda>ys. y # ys) (decode_all xs))"

record record_request_target =
  rt_type :: string
  rt_key :: "json option"
  rt_side :: record_side
  rt_echoes_stored :: bool

definition ECHOING_OPERATIONS :: "string list" where
  "ECHOING_OPERATIONS = [''patch'', ''archive'', ''unarchive'']"

definition JOURNAL_READ_PATHS :: "string list" where
  "JOURNAL_READ_PATHS = [''/journal/list'', ''/journal/replay'', ''/journal/cursor'']"

text \<open>The record that a request addresses; \<open>None\<close> for the routes that filter rows themselves.\<close>

definition recordRequestTarget ::
    "string \<Rightarrow> string \<Rightarrow> jobj \<Rightarrow> access_error + record_request_target option" where
  "recordRequestTarget meth path body =
    (if \<not> prefix ''/record/'' path \<or> path = ''/record/types-in-use'' then Inr None
     else (case decode_all (drop 2 (split_parts CHR ''/'' path)) of
         Inl e \<Rightarrow> Inl e
       | Inr [] \<Rightarrow> Inr None
       | Inr (ty # segs) \<Rightarrow> Inr
          (if segs = [''list''] then None
           else if isReadMethod meth
           then Some \<lparr>rt_type = ty, rt_key = Some (JStr (join_with CHR ''/''
               (if segs \<noteq> [] \<and> last segs = ''history'' then butlast segs else segs))),
             rt_side = Read_side, rt_echoes_stored = False\<rparr>
           else if segs = [''create'']
           then Some \<lparr>rt_type = ty, rt_key = obj_get ''key'' body, rt_side = Write_side, rt_echoes_stored = False\<rparr>
           else Some \<lparr>rt_type = ty, rt_key = Some (JStr (join_with CHR ''/'' (butlast segs))), rt_side = Write_side,
             rt_echoes_stored = (segs \<noteq> [] \<and> last segs \<in> set ECHOING_OPERATIONS)\<rparr>)))"

definition withholdsStoredRecordDetail ::
    "credential_policy \<Rightarrow> string \<Rightarrow> string \<Rightarrow> jobj \<Rightarrow> access_error + bool" where
  "withholdsStoredRecordDetail p meth path body = map_sum id (\<lambda>target. case target of None \<Rightarrow> False
     | Some t \<Rightarrow> rt_side t = Write_side
         \<and> (case as_string (rt_key t) of None \<Rightarrow> False | Some key \<Rightarrow> \<not> canEchoStoredRecord p (rt_type t) key))
     (recordRequestTarget meth path body)"

text \<open>The values that JavaScript takes as true.\<close>

definition truthy :: "json option \<Rightarrow> bool" where
  "truthy v = (case v of None \<Rightarrow> False | Some JNull \<Rightarrow> False | Some (JBool b) \<Rightarrow> b | Some (JNum i) \<Rightarrow> i \<noteq> 0
     | Some (JStr x) \<Rightarrow> x \<noteq> [] | Some _ \<Rightarrow> True)"

definition property :: "string \<Rightarrow> json option \<Rightarrow> json option" where
  "property k v = (case v of Some (JObj ob) \<Rightarrow> obj_get k ob | _ \<Rightarrow> None)"

type_synonym query_params = "(string \<times> string) list"

definition query_get :: "query_params \<Rightarrow> string \<Rightarrow> json option" where
  "query_get q k = map_option JStr (map_of q k)"

text \<open>The checks of a request in the order of the code. An access that is only checked drops its entity.\<close>

definition allow_task :: "db \<Rightarrow> credential_policy \<Rightarrow> json option \<Rightarrow> access_error + unit" where
  "allow_task s p i = map_sum id (\<lambda>_. ()) (assertTaskAccess s p i)"

definition allow_if :: "bool \<Rightarrow> access_error + unit \<Rightarrow> access_error + unit" where
  "allow_if b m = (if b then m else Inr ())"

definition allow_seq :: "access_error + unit \<Rightarrow> access_error + unit \<Rightarrow> access_error + unit" where
  "allow_seq m n = (case m of Inl e \<Rightarrow> Inl e | Inr _ \<Rightarrow> n)"

definition require :: "bool \<Rightarrow> access_error + unit" where
  "require b = (if b then Inr () else Inl CredentialPolicyDenied)"

definition record_request ::
    "credential_policy \<Rightarrow> string \<Rightarrow> string \<Rightarrow> jobj \<Rightarrow> access_error + unit" where
  "record_request p meth path body = (case recordRequestTarget meth path body of
       Inl e \<Rightarrow> Inl e
     | Inr None \<Rightarrow> Inr ()
     | Inr (Some t) \<Rightarrow> (case as_string (rt_key t) of
         None \<Rightarrow> Inl CredentialPolicyDenied
       | Some key \<Rightarrow>
          allow_seq (require (permitsRecordSide (cp_restrictions p) (rt_side t) (rt_type t) key))
         (allow_seq (require (\<not> (rt_echoes_stored t \<and> \<not> canEchoStoredRecord p (rt_type t) key)))
                    (require (\<not> truthy (obj_get ''source_artifact_key'' body))))))"

definition entity_path :: "string \<Rightarrow> bool" where
  "entity_path path \<longleftrightarrow> list_ex (\<lambda>op. prefix (''/entity/'' @ op @ ''/'') path) [''get'', ''update'', ''archive'']"

definition entity_request :: "db \<Rightarrow> credential_policy \<Rightarrow> string \<Rightarrow> query_params \<Rightarrow> access_error + unit" where
  "entity_request s p path query =
    (case decodeURIComponent (join_with CHR ''/'' (drop 3 (split_parts CHR ''/'' path))) of
       Inl e \<Rightarrow> Inl e
     | Inr i \<Rightarrow> (case assertTaskAccess s p (Some (JStr i)) of
         Inl e \<Rightarrow> Inl e
       | Inr e \<Rightarrow> allow_seq (require (map_of query ''compact'' \<noteq> Some ''true''))
           (allow_if (truthy (obj_get ''parent_id'' (en_data e)))
             (allow_task s p (obj_get ''parent_id'' (en_data e))))))"

definition restricted_request ::
    "db \<Rightarrow> credential_policy \<Rightarrow> string \<Rightarrow> string \<Rightarrow> query_params \<Rightarrow> jobj \<Rightarrow> access_error + unit" where
  "restricted_request s p meth path query body =
    (let parent = property ''parent_id'' (obj_get ''data'' body);
         placed = allow_if (truthy parent) (allow_task s p parent) in
     if path = ''/schema/current'' \<or> path = ''/admin/transfer/status'' then Inr ()
     else if prefix ''/record/'' path then record_request p meth path body
     else if path = ''/entity/type-counts'' then Inr ()
     else if path = ''/search'' then Inr ()
     else if path \<in> set JOURNAL_READ_PATHS
     then require (isReadMethod meth \<and> ''journal:read'' \<in> set (cp_capabilities p))
     else if path = ''/entity/list''
     then allow_seq (require (map_of query ''compact'' \<noteq> Some ''true''))
        (allow_if (map_of query ''parent'' \<noteq> None) (allow_task s p (query_get query ''parent'')))
     else if path = ''/entity/create''
     then allow_seq (case as_string (obj_get ''type'' body) of None \<Rightarrow> Inl CredentialPolicyDenied
         | Some ty \<Rightarrow> require (permitsTask (cp_restrictions p) ty)) placed
     else if entity_path path then allow_seq (entity_request s p path query) placed
     else if prefix ''/entity/relationship/'' path
     then (if suffix ''/list'' path
        then allow_seq (allow_if (map_of query ''from_id'' \<noteq> None) (allow_task s p (query_get query ''from_id'')))
                       (allow_if (map_of query ''to_id'' \<noteq> None) (allow_task s p (query_get query ''to_id'')))
        else allow_seq (allow_task s p (obj_get ''from_id'' body)) (allow_task s p (obj_get ''to_id'' body)))
     else if prefix ''/coord/'' path
     then (if path = ''/coord/claims'' then Inr ()
        else assertResourceAccess s p (if isReadMethod meth then query_get query ''resource'' else obj_get ''resource'' body)
          (if isReadMethod meth then Read_side else Write_side))
     else Inl CredentialPolicyDenied)"

definition assertCredentialRequest ::
    "db \<Rightarrow> credential_policy \<Rightarrow> string \<Rightarrow> string \<Rightarrow> query_params \<Rightarrow> jobj \<Rightarrow> access_error + unit" where
  "assertCredentialRequest s p meth path query body =
    (if path = ''/template/instantiate'' then require (''tasks:write'' \<in> set (cp_capabilities p))
     else if truthy (obj_get ''source_artifact_key'' body) \<and> ''artifacts:read'' \<notin> set (cp_capabilities p)
     then Inl CredentialPolicyDenied
     else if (path = ''/entity/artifact-ref'' \<or> path = ''/entity/artifact-refs'')
        \<and> ''artifacts:read'' \<notin> set (cp_capabilities p)
     then Inl CredentialPolicyDenied
     else if prefix ''/queue/'' path \<or> prefix ''/attempts/'' path \<or> prefix ''/questions/'' path then Inr ()
     else if \<not> hasNamespaceRestrictions p then Inr ()
     else restricted_request s p meth path query body)"

definition filterRelationships :: "db \<Rightarrow> credential_policy option \<Rightarrow> entity_relationship_row list \<Rightarrow> entity_relationship_row list" where
  "filterRelationships s p rows = (case p of None \<Rightarrow> rows
     | Some p \<Rightarrow> if \<not> hasNamespaceRestrictions p then rows
         else filter (\<lambda>r. \<not> isl (assertTaskAccess s p (Some (JStr (er_from_id r))))
                        \<and> \<not> isl (assertTaskAccess s p (Some (JStr (er_to_id r))))) rows)"

end
