(* ===== verification/Visibility.thy ===== *)
theory Visibility
  imports Access
begin

text \<open>
  The journal as a restricted credential reads it: \<^verbatim>\<open>packages/ops-sqlite/src/journal-visibility.ts\<close> with the
  filters and the event shape of \<^verbatim>\<open>journal-ops.ts\<close>. Events are admitted by kind, payload and the resource they
  name; a listing examines the sequence in windows, under a bound on the sequences of one request.
\<close>

section \<open>Events and filters\<close>

record journal_event =
  je_seq :: int
  je_t :: int
  je_kind :: string
  je_resource :: string
  je_principal_id :: "string option"
  je_participant_id :: "string option"
  je_environment :: jobj
  je_token_id :: "string option"
  je_fence :: "int option"
  je_data :: json

definition journalRowToEvent :: "journal_row \<Rightarrow> journal_event" where
  "journalRowToEvent r = \<lparr>je_seq = jo_seq r, je_t = jo_t r, je_kind = jo_kind r, je_resource = jo_resource r,
     je_principal_id = jo_principal_id r, je_participant_id = jo_participant_id r,
     je_environment = jo_environment r, je_token_id = jo_token_id r, je_fence = jo_fence r,
     je_data = JObj (jo_data r)\<rparr>"

text \<open>A filter is one value or several; an empty single value is no filter.\<close>

datatype one_or_many = One string | Many "string list"

record journal_query =
  jq_resource :: "one_or_many option"
  jq_kind :: "one_or_many option"
  jq_client_name :: "one_or_many option"
  jq_event_name :: "string option"
  jq_correlation_id :: "string option"
  jq_after_seq :: "int option"
  jq_limit :: "int option"

definition selects :: "one_or_many option \<Rightarrow> string option \<Rightarrow> bool" where
  "selects f v = (case f of None \<Rightarrow> True
     | Some (One x) \<Rightarrow> x = [] \<or> v = Some x
     | Some (Many xs) \<Rightarrow> (case v of None \<Rightarrow> False | Some y \<Rightarrow> y \<in> set xs))"

text \<open>\<open>json_extract\<close> compared with a text parameter.\<close>

definition extracted_string :: "string \<Rightarrow> jobj \<Rightarrow> string option" where
  "extracted_string k ob = as_string (Some (json_extract (obj_get k ob)))"

definition journalFilterConditions :: "journal_query \<Rightarrow> journal_row \<Rightarrow> bool" where
  "journalFilterConditions q r \<longleftrightarrow>
     (filled (jq_event_name q) \<or> filled (jq_correlation_id q) \<longrightarrow> jo_kind r = ''custom.reported'')
   \<and> (filled (jq_event_name q) \<longrightarrow> extracted_string ''event_name'' (jo_data r) = jq_event_name q)
   \<and> (filled (jq_correlation_id q) \<longrightarrow> extracted_string ''correlation_id'' (jo_data r) = jq_correlation_id q)
   \<and> selects (jq_resource q) (Some (jo_resource r))
   \<and> selects (jq_kind q) (Some (jo_kind r))
   \<and> selects (jq_client_name q) (extracted_string ''client_name'' (jo_environment r))
   \<and> (case jq_after_seq q of None \<Rightarrow> True | Some n \<Rightarrow> n < jo_seq r)"

text \<open>\<open>listJournal\<close>: forward from a cursor, or the tail. \<open>None\<close> as watermark is \<open>undefined\<close>.\<close>

definition behind_watermark :: "int option \<Rightarrow> int option \<Rightarrow> bool" where
  "behind_watermark after watermark = (case (after, watermark) of (Some a, Some w) \<Rightarrow> a < w | _ \<Rightarrow> False)"

definition listJournal :: "db \<Rightarrow> journal_query \<Rightarrow> int option \<Rightarrow> journal_event list" where
  "listJournal s q watermark =
    (if behind_watermark (jq_after_seq q) watermark then []
     else let rows = sort_key jo_seq (filter (journalFilterConditions q) (db_journal s)) in
       map journalRowToEvent (take (nat (case jq_limit q of None \<Rightarrow> 100 | Some l \<Rightarrow> l))
         (if jq_after_seq q = None then rev rows else rows)))"

definition journalArchiveState :: "int option \<Rightarrow> int option \<Rightarrow> bool \<times> int option" where
  "journalArchiveState after watermark = (behind_watermark after watermark, watermark)"

definition journalStats :: "db \<Rightarrow> nat \<times> int" where
  "journalStats s = (length (db_journal s),
     if db_journal s = [] then 0 else Max (set (map jo_seq (db_journal s))))"

section \<open>What an event names\<close>

definition ENTITY_KINDS :: "string list" where
  "ENTITY_KINDS = [''entity.created'', ''entity.updated'', ''entity.archived'']"

definition CLAIM_KINDS :: "string list" where
  "CLAIM_KINDS = [''claim.acquired'', ''claim.renewed'', ''claim.released'', ''claim.expired'']"

definition RECORD_KINDS :: "string list" where
  "RECORD_KINDS = [''record.created'', ''record.updated'', ''record.archived'', ''record.unarchived'']"

definition SCOPED_JOURNAL_KINDS :: "string list" where
  "SCOPED_JOURNAL_KINDS = ENTITY_KINDS @ CLAIM_KINDS @ RECORD_KINDS"

datatype payload_type = P_string | P_number

definition payload_shape :: "string \<Rightarrow> (string \<times> payload_type) list" where
  "payload_shape kind = (if kind = ''claim.expired''
     then [(''mode'', P_string), (''expired_at'', P_number), (''principal_id'', P_string), (''participant_id'', P_string)]
     else [])"

fun hasPayloadType :: "json \<Rightarrow> payload_type \<Rightarrow> bool" where
  "hasPayloadType JNull ty = True"
| "hasPayloadType (JStr x) ty = (ty = P_string)"
| "hasPayloadType (JNum i) ty = (ty = P_number)"
| "hasPayloadType v ty = False"

definition payloadAllowed :: "string \<Rightarrow> json \<Rightarrow> bool" where
  "payloadAllowed kind data = (case data of
       JObj entries \<Rightarrow> list_all (\<lambda>(k, v). case map_of (payload_shape kind) k of None \<Rightarrow> False
           | Some ty \<Rightarrow> hasPayloadType v ty) entries
     | _ \<Rightarrow> False)"

datatype event_subject =
    Task_subject string "string option"
  | Record_subject string string "string option"

definition subjectOf :: "credential_policy \<Rightarrow> journal_event \<Rightarrow> event_subject option" where
  "subjectOf p e =
    (let kind = je_kind e; resource = je_resource e; has = (\<lambda>c. c \<in> set (cp_capabilities p)) in
     if kind \<in> set ENTITY_KINDS
     then (if \<not> has ''tasks:read'' \<or> resource = [] then None
        else if payloadAllowed kind (je_data e) then Some (Task_subject resource None) else None)
     else if kind \<in> set CLAIM_KINDS
     then (if \<not> has ''claims:read'' \<or> \<not> payloadAllowed kind (je_data e) then None
        else if prefix ''record:'' resource
        then (case recordResourceTarget resource of None \<Rightarrow> None
          | Some (ty, key) \<Rightarrow> Some (Record_subject ty key (Some (drop 7 resource))))
        else let ty = takeWhile (\<lambda>c. c \<noteq> CHR '':'') resource in
          if ty = [] \<or> ty = resource \<or> length ty + 1 = length resource then None
          else Some (Task_subject (drop (length ty + 1) resource) (Some ty)))
     else if kind \<in> set RECORD_KINDS
     then (if \<not> has ''records:read'' \<or> \<not> payloadAllowed kind (je_data e) then None
        else map_option (\<lambda>(ty, key). Record_subject ty key None) (recordResourceTarget resource))
     else None)"

section \<open>Judging events against the current tasks\<close>

definition LOOKUP_CHUNK :: nat where
  "LOOKUP_CHUNK = 500"

record task_row =
  tr_type :: string
  tr_parent_id :: json

definition task_row_of :: "entity_row \<Rightarrow> task_row" where
  "task_row_of e = \<lparr>tr_type = en_type e, tr_parent_id = json_extract (obj_get ''parent_id'' (en_data e))\<rparr>"

definition load_chunk :: "db \<Rightarrow> string list \<Rightarrow> string \<rightharpoonup> task_row" where
  "load_chunk s chunk = fold (\<lambda>e found. found(en_id e \<mapsto> task_row_of e))
     (filter (\<lambda>e. en_id e \<in> set chunk) (db_entities s)) Map.empty"

function loadTasks :: "db \<Rightarrow> string list \<Rightarrow> string \<rightharpoonup> task_row" where
  "loadTasks s ids = (if ids = [] then Map.empty
     else load_chunk s (take LOOKUP_CHUNK ids) ++ loadTasks s (drop LOOKUP_CHUNK ids))"
  by pat_completeness auto
termination
  by (relation "measure (\<lambda>(s, ids). length ids)") (auto simp: LOOKUP_CHUNK_def)

declare loadTasks.simps [simp del]

definition subject_task_ids :: "event_subject option \<Rightarrow> string list" where
  "subject_task_ids x = (case x of None \<Rightarrow> [] | Some (Task_subject i _) \<Rightarrow> [i]
     | Some (Record_subject _ _ None) \<Rightarrow> [] | Some (Record_subject _ _ (Some i)) \<Rightarrow> [i])"

definition parent_ids :: "string list option \<Rightarrow> (string \<rightharpoonup> task_row) \<Rightarrow> string list \<Rightarrow> string list" where
  "parent_ids types tasks ids = (case types of None \<Rightarrow> []
     | Some ts \<Rightarrow> first_occurrences (List.map_filter (\<lambda>i. case tasks i of None \<Rightarrow> None
         | Some t \<Rightarrow> if tr_type t \<in> set ts then as_string (Some (tr_parent_id t)) else None) ids))"

definition taskReadable ::
    "namespace_restrictions option \<Rightarrow> (string \<rightharpoonup> task_row) \<Rightarrow> task_row option \<Rightarrow> string option \<Rightarrow> bool" where
  "taskReadable r parents task ty = (case task of None \<Rightarrow> False
     | Some t \<Rightarrow>
         if \<not> permitsTask r (tr_type t) then False
         else if ty \<noteq> None \<and> ty \<noteq> Some (tr_type t) then False
         else (case restricted_types r of None \<Rightarrow> True
           | Some ts \<Rightarrow> (case tr_parent_id t of
               JNull \<Rightarrow> True
             | JStr i \<Rightarrow> (case parents i of None \<Rightarrow> False | Some q \<Rightarrow> tr_type q \<in> set ts)
             | _ \<Rightarrow> False)))"

definition subject_visible ::
    "namespace_restrictions option \<Rightarrow> (string \<rightharpoonup> task_row) \<Rightarrow> (string \<rightharpoonup> task_row) \<Rightarrow> event_subject option \<Rightarrow> bool" where
  "subject_visible r tasks parents x = (case x of None \<Rightarrow> False
     | Some (Task_subject i ty) \<Rightarrow> taskReadable r parents (tasks i) ty
     | Some (Record_subject ty key shadow) \<Rightarrow>
         (if (case shadow of None \<Rightarrow> False | Some i \<Rightarrow> map_option tr_type (tasks i) = Some ''record'') then False
          else permitsRecordSide r Read_side ty key))"

definition visibleJournalEvents :: "db \<Rightarrow> credential_policy \<Rightarrow> journal_event list \<Rightarrow> journal_event list" where
  "visibleJournalEvents s p events =
    (let r = cp_restrictions p;
         ids = first_occurrences (concat (map (\<lambda>e. subject_task_ids (subjectOf p e)) events));
         tasks = loadTasks s ids;
         parents = loadTasks s (parent_ids (restricted_types r) tasks ids) in
     filter (\<lambda>e. subject_visible r tasks parents (subjectOf p e)) events)"

section \<open>Bounded scans\<close>

definition SCOPED_SCAN_FIRST_SPAN :: int where
  "SCOPED_SCAN_FIRST_SPAN = 1000"

definition SCOPED_SCAN_MAX_SPAN :: int where
  "SCOPED_SCAN_MAX_SPAN = 8000"

definition SCOPED_SCAN_LIMIT :: int where
  "SCOPED_SCAN_LIMIT = 20000"

record scan_state =
  jw_page :: "journal_event list"
  jw_cursor :: int
  jw_span :: int
  jw_examined :: int

definition startScan :: "int \<Rightarrow> scan_state" where
  "startScan after = \<lparr>jw_page = [], jw_cursor = after, jw_span = SCOPED_SCAN_FIRST_SPAN, jw_examined = 0\<rparr>"

definition nextWindowEnd :: "scan_state \<Rightarrow> int \<Rightarrow> int" where
  "nextWindowEnd st through = jw_cursor st
     + max 1 (min (jw_span st) (min (through - jw_cursor st) (SCOPED_SCAN_LIMIT - jw_examined st)))"

text \<open>Pushing visible events until the page is full; the flag tells that one more was seen.\<close>

fun fill_page :: "int \<Rightarrow> journal_event list \<Rightarrow> journal_event list \<Rightarrow> journal_event list \<times> bool" where
  "fill_page limit page [] = (page, False)"
| "fill_page limit page (e # es) = (if limit \<le> int (length page) then (page, True)
     else fill_page limit (page @ [e]) es)"

text \<open>A step ends with a page, its cursor and whether more may remain, goes on, or throws a \<open>TypeError\<close>: it
  reads the last event of a full page, and a page with no room is full and empty.\<close>

datatype fold_step = Scan_done "journal_event list" int bool | Scan_more scan_state | Scan_type_error

definition foldWindow :: "scan_state \<Rightarrow> int \<Rightarrow> journal_event list \<Rightarrow> int \<Rightarrow> int \<Rightarrow> fold_step" where
  "foldWindow st end visible limit through =
    (case fill_page limit (jw_page st) visible of
       (page, True) \<Rightarrow> (if page = [] then Scan_type_error else Scan_done page (je_seq (last page)) True)
     | (page, False) \<Rightarrow>
        (let examined = jw_examined st + (end - jw_cursor st) in
         if through \<le> end then Scan_done page through False
         else if SCOPED_SCAN_LIMIT \<le> examined then Scan_done page end True
         else Scan_more \<lparr>jw_page = page, jw_cursor = end, jw_span = min (jw_span st * 2) SCOPED_SCAN_MAX_SPAN,
           jw_examined = examined\<rparr>))"

record scoped_list =
  sl_events :: "journal_event list"
  sl_has_more :: bool
  sl_next_after_seq :: "int option"

text \<open>The rows of a window in the order asked for, as the credential sees them.\<close>

definition readWindow :: "db \<Rightarrow> credential_policy \<Rightarrow> journal_query \<Rightarrow> string list \<Rightarrow> int \<Rightarrow> int \<Rightarrow> bool \<Rightarrow> journal_event list" where
  "readWindow s p q kinds after end newestFirst =
    (let rows = sort_key jo_seq (filter (\<lambda>r. journalFilterConditions (q\<lparr>jq_kind := Some (Many kinds), jq_after_seq := None\<rparr>) r
        \<and> after < jo_seq r \<and> jo_seq r \<le> end) (db_journal s)) in
     visibleJournalEvents s p (map journalRowToEvent (if newestFirst then rev rows else rows)))"

lemma fold_more_moves:
  "foldWindow st (nextWindowEnd st through) v limit through = Scan_more st' \<Longrightarrow>
   jw_cursor st < jw_cursor st' \<and> jw_cursor st' < through"
  by (auto simp: foldWindow_def nextWindowEnd_def Let_def split: prod.splits bool.splits if_splits)

datatype js_error = TypeError

function forward_scan ::
    "(int \<Rightarrow> int \<Rightarrow> journal_event list) \<Rightarrow> int \<Rightarrow> int \<Rightarrow> scan_state \<Rightarrow> js_error + scoped_list" where
  "forward_scan window limit high st =
    (case foldWindow st (nextWindowEnd st high) (window (jw_cursor st) (nextWindowEnd st high)) limit high of
       Scan_done page n has_more \<Rightarrow> Inr \<lparr>sl_events = page, sl_has_more = has_more, sl_next_after_seq = Some n\<rparr>
     | Scan_type_error \<Rightarrow> Inl TypeError
     | Scan_more st' \<Rightarrow> forward_scan window limit high st')"
  by pat_completeness auto
termination
  by (relation "measure (\<lambda>(window, limit, high, st). nat (high - jw_cursor st))") (auto dest: fold_more_moves)

declare forward_scan.simps [simp del]

text \<open>The newest events: walking down from the top. The loop returns as soon as an event fills the page.\<close>

fun push_until :: "int \<Rightarrow> journal_event list \<Rightarrow> journal_event list \<Rightarrow> journal_event list \<times> bool" where
  "push_until limit events [] = (events, False)"
| "push_until limit events (e # es) = (if limit \<le> int (length events) + 1 then (events @ [e], True)
     else push_until limit (events @ [e]) es)"

definition window_bottom :: "int \<Rightarrow> int \<Rightarrow> int \<Rightarrow> int \<Rightarrow> int" where
  "window_bottom low upper span examined = max (low - 1) (upper - min span (SCOPED_SCAN_LIMIT - examined))"

partial_function (option) tail_scan ::
    "(int \<Rightarrow> int \<Rightarrow> journal_event list) \<Rightarrow> int \<Rightarrow> int \<Rightarrow> journal_event list \<Rightarrow> int \<Rightarrow> int \<Rightarrow> int \<Rightarrow> scoped_list option" where
  "tail_scan window limit low events upper span examined =
    (if upper < low then Some \<lparr>sl_events = events, sl_has_more = False, sl_next_after_seq = None\<rparr>
     else let lower = window_bottom low upper span examined; examined' = examined + (upper - lower);
         pushed = push_until limit events (window lower upper) in
       if snd pushed then Some \<lparr>sl_events = fst pushed, sl_has_more = False, sl_next_after_seq = None\<rparr>
       else if low \<le> lower \<and> SCOPED_SCAN_LIMIT \<le> examined'
       then Some \<lparr>sl_events = fst pushed, sl_has_more = True, sl_next_after_seq = None\<rparr>
       else tail_scan window limit low (fst pushed) lower (min (span * 2) SCOPED_SCAN_MAX_SPAN) examined')"

text \<open>The listing: \<open>None\<close> would be a tail walk that does not end.\<close>

definition scoped_kinds :: "journal_query \<Rightarrow> string list" where
  "scoped_kinds q = filter (\<lambda>k. case jq_kind q of None \<Rightarrow> True | Some (One x) \<Rightarrow> k = x | Some (Many xs) \<Rightarrow> k \<in> set xs)
     SCOPED_JOURNAL_KINDS"

definition listScopedJournal ::
    "db \<Rightarrow> credential_policy \<Rightarrow> journal_query \<Rightarrow> int option \<Rightarrow> (js_error + scoped_list) option" where
  "listScopedJournal s p q watermark =
    (if behind_watermark (jq_after_seq q) watermark
     then Some (Inr \<lparr>sl_events = [], sl_has_more = True, sl_next_after_seq = jq_after_seq q\<rparr>)
     else let kinds = scoped_kinds q; limit = (case jq_limit q of None \<Rightarrow> 100 | Some l \<Rightarrow> l);
         seqs = map jo_seq (db_journal s) in
       if seqs = [] \<or> kinds = []
       then Some (Inr \<lparr>sl_events = [], sl_has_more = False, sl_next_after_seq = jq_after_seq q\<rparr>)
       else let low = Min (set seqs); high = Max (set seqs) in
         (case jq_after_seq q of
            Some after \<Rightarrow>
              if high \<le> after then Some (Inr \<lparr>sl_events = [], sl_has_more = False, sl_next_after_seq = Some after\<rparr>)
              else Some (forward_scan (\<lambda>a b. readWindow s p q kinds a b False) limit high (startScan (max after (low - 1))))
          | None \<Rightarrow> map_option Inr (tail_scan (\<lambda>a b. readWindow s p q kinds a b True) limit low [] high
              SCOPED_SCAN_FIRST_SPAN 0)))"

end
