(* ===== verification/Authority.thy ===== *)
theory Authority
  imports Access
begin

text \<open>
  What the comparison and the intersection of policies promise, as an interface of authorities that
  the model of \<^verbatim>\<open>Access\<close> provides; and the agreement of the request guard, the conditions of the
  listings and the predicates.
\<close>

section \<open>Authorities\<close>

text \<open>Authorities admit questions; one may contain another, and two have a meet.\<close>

locale authority =
  fixes admits :: "'p \<Rightarrow> 'q \<Rightarrow> bool" and contains :: "'p \<Rightarrow> 'p \<Rightarrow> bool" and meet :: "'p \<Rightarrow> 'p \<Rightarrow> 'p"
  assumes sound: "contains a b \<Longrightarrow> admits b q \<Longrightarrow> admits a q"
    and contains_refl: "contains a a"
    and contains_trans: "contains a b \<Longrightarrow> contains b c \<Longrightarrow> contains a c"
    and meet_admits: "admits (meet a b) q \<longleftrightarrow> admits a q \<and> admits b q"
    and meet_left: "contains a (meet a b)"
    and meet_right: "contains b (meet a b)"
begin

text \<open>A chain of delegations never exceeds its first authority.\<close>

lemma chain_contained: "successively contains (a # as) \<Longrightarrow> contains a (last (a # as))"
proof (induction as arbitrary: a)
  case Nil
  then show ?case by (simp add: contains_refl)
next
  case (Cons b as)
  then have "contains a b" "contains b (last (b # as))" by simp_all
  then show ?case by (auto intro: contains_trans)
qed

lemma chain_sound: "successively contains (a # as) \<Longrightarrow> admits (last (a # as)) q \<Longrightarrow> admits a q"
  using chain_contained sound by blast

text \<open>A session under several authorities admits what all of them admit.\<close>

lemma fold_admits: "admits (foldl meet a as) q \<longleftrightarrow> admits a q \<and> list_all (\<lambda>b. admits b q) as"
  by (induction as arbitrary: a) (auto simp: meet_admits)

lemma fold_contained: "b \<in> set (a # as) \<Longrightarrow> contains b (foldl meet a as)"
proof (induction as arbitrary: a b)
  case Nil
  then show ?case by (simp add: contains_refl)
next
  case (Cons c as)
  show ?case
  proof (cases "b = a \<or> b = c")
    case True
    have "contains (meet a c) (foldl meet (meet a c) as)" by (rule Cons.IH) simp
    moreover have "contains b (meet a c)" using True meet_left meet_right by blast
    ultimately show ?thesis by (auto intro: contains_trans)
  next
    case False
    then show ?thesis using Cons by simp
  qed
qed

end

section \<open>Record rules\<close>

lemma within_prefix_trans: "within_prefix p q \<Longrightarrow> within_prefix q k \<Longrightarrow> within_prefix p k"
  by (auto simp: within_prefix_def prefix_def)

lemma within_prefix_refl: "within_prefix p p"
  by (simp add: within_prefix_def)

lemma within_prefix_prefix: "within_prefix p k \<Longrightarrow> prefix p k"
  by (auto simp: within_prefix_def dest: append_prefixD)

lemma within_prefix_longer: "within_prefix p k \<Longrightarrow> within_prefix q k \<Longrightarrow> length p \<le> length q \<Longrightarrow> within_prefix p q"
proof -
  assume p: "within_prefix p k" and q: "within_prefix q k" and le: "length p \<le> length q"
  have qk: "prefix q k" using q by (rule within_prefix_prefix)
  show ?thesis
  proof (cases "length p = length q")
    case True
    then have "p = q" using within_prefix_prefix [OF p] qk by (auto simp: prefix_def)
    then show ?thesis by (simp add: within_prefix_refl)
  next
    case False
    then have "k \<noteq> p" using le qk prefix_length_le [OF qk] by auto
    then have "prefix (p @ ''/'') k" using p by (simp add: within_prefix_def)
    then have "prefix (p @ ''/'') q" using False le by (intro prefix_length_prefix [OF _ qk]) simp_all
    then show ?thesis by (simp add: within_prefix_def)
  qed
qed

lemma meet_within: "list_ex (\<lambda>z. within_prefix z key) (prefix_meet x y) \<longleftrightarrow> within_prefix x key \<and> within_prefix y key"
proof -
  have meet: "prefix_meet x y = (if within_prefix y x then [x] else if within_prefix x y then [y] else [])"
    by (auto simp: prefix_meet_def within_prefix_def)
  consider "within_prefix y x" | "\<not> within_prefix y x" "within_prefix x y"
    | "\<not> within_prefix y x" "\<not> within_prefix x y" by blast
  then show ?thesis
  proof cases
    case 1
    then show ?thesis using within_prefix_trans [OF 1, of key] by (simp add: meet) blast
  next
    case 2
    then show ?thesis using within_prefix_trans [OF 2(2), of key] by (simp add: meet) blast
  next
    case 3
    then show ?thesis
      using within_prefix_longer [of x key y] within_prefix_longer [of y key x] le_cases [of "length x" "length y"]
      by (auto simp: meet)
  qed
qed

lemma common_prefixes_within:
  "list_ex (\<lambda>z. within_prefix z key) (concat (map (\<lambda>x. concat (map (prefix_meet x) ys)) xs))
     \<longleftrightarrow> list_ex (\<lambda>x. within_prefix x key) xs \<and> list_ex (\<lambda>y. within_prefix y key) ys"
proof -
  have concat: "list_ex P (concat zss) \<longleftrightarrow> list_ex (list_ex P) zss" for P :: "string \<Rightarrow> bool" and zss
    by (auto simp: list_ex_iff)
  have map: "list_ex P (map f zs) \<longleftrightarrow> list_ex (\<lambda>z. P (f z)) zs" for P and f :: "string \<Rightarrow> string list" and zs
    by (auto simp: list_ex_iff)
  show ?thesis by (auto simp: concat map meet_within) (auto simp: list_ex_iff)
qed

lemma list_ex_first_occurrences: "list_ex P (first_occurrences xs) = list_ex P xs"
  by (simp add: list_ex_iff)

lemma rule_permits_intersect:
  assumes ty: "rr_type left = rr_type right"
  shows "rule_permits (intersect_rule left right) ty key \<longleftrightarrow> rule_permits left ty key \<and> rule_permits right ty key"
proof (cases "rr_key_prefixes left")
  case None
  then show ?thesis using ty
    by (cases "rr_key_prefixes right") (auto simp: rule_permits_def intersect_rule_def common_prefixes_def list_ex_iff)
next
  case (Some xs)
  show ?thesis
  proof (cases "rr_key_prefixes right")
    case None
    then show ?thesis using ty Some
      by (auto simp: rule_permits_def intersect_rule_def common_prefixes_def list_ex_iff)
  next
    case right: (Some ys)
    show ?thesis using ty
      by (simp add: rule_permits_def intersect_rule_def Some right common_prefixes_def list_ex_first_occurrences
          common_prefixes_within) blast
  qed
qed

lemma permits_intersect:
  "recordRulesPermit (intersectRecordRules a b) ty key \<longleftrightarrow> recordRulesPermit a ty key \<and> recordRulesPermit b ty key"
proof (cases a)
  case (Some ls)
  show ?thesis
  proof (cases b)
    case (Some rs)
    have "(\<exists>l \<in> set ls. \<exists>r \<in> set rs. rr_type r = rr_type l \<and> rule_permits (intersect_rule l r) ty key) \<longleftrightarrow>
      (\<exists>l \<in> set ls. rule_permits l ty key) \<and> (\<exists>r \<in> set rs. rule_permits r ty key)"
      (is "?meet \<longleftrightarrow> ?both")
    proof
      assume ?both
      then obtain l r where lr: "l \<in> set ls" "r \<in> set rs" "rule_permits l ty key" "rule_permits r ty key" by blast
      then have same: "rr_type l = rr_type r" by (simp add: rule_permits_def)
      then have "rule_permits (intersect_rule l r) ty key" using lr rule_permits_intersect [OF same] by simp
      then show ?meet using lr same by (intro bexI [of _ l] bexI [of _ r]) simp_all
    qed (metis rule_permits_intersect)
    with \<open>a = Some ls\<close> Some show ?thesis
      by (auto simp: recordRulesPermit_def intersectRecordRules_def list_ex_iff)
  qed (use Some in \<open>simp add: recordRulesPermit_def intersectRecordRules_def\<close>)
qed (simp add: recordRulesPermit_def intersectRecordRules_def)

lemma rules_for_side_None: "recordRulesForSide r Read_side = None \<longleftrightarrow> recordRulesForSide r Write_side = None"
  by (auto simp: recordRulesForSide_def split: option.splits if_splits)

lemma intersect_None: "intersectRecordRules a b = None \<longleftrightarrow> a = None \<and> b = None"
  by (auto simp: intersectRecordRules_def split: option.splits)

lemma intersect_side:
  "recordRulesForSide (Some (intersect_restrictions a b)) side
     = intersectRecordRules (recordRulesForSide a side) (recordRulesForSide b side)"
proof -
  define r w where "r = intersectRecordRules (recordRulesForSide a Read_side) (recordRulesForSide b Read_side)"
    and "w = intersectRecordRules (recordRulesForSide a Write_side) (recordRulesForSide b Write_side)"
  have "r = None \<longleftrightarrow> w = None" by (simp add: r_def w_def intersect_None rules_for_side_None)
  then have "recordRulesForSide (Some (intersect_restrictions a b)) side = (case side of Read_side \<Rightarrow> r | Write_side \<Rightarrow> w)"
    unfolding intersect_restrictions_def Let_def r_def [symmetric] w_def [symmetric]
    by (cases side; cases r; cases w) (simp_all add: recordRulesForSide_def)
  then show ?thesis by (cases side) (simp_all add: r_def w_def)
qed

lemma rule_contained_permits:
  assumes contained: "rule_contained ps rule" and permits: "rule_permits rule ty key"
  shows "recordRulesPermit (Some ps) ty key"
proof (cases "rr_key_prefixes rule")
  case None
  then show ?thesis using assms
    by (auto simp: rule_contained_def rule_permits_def recordRulesPermit_def list_ex_iff)
next
  case (Some qs)
  then obtain q where q: "q \<in> set qs" "within_prefix q key" and ty: "rr_type rule = ty"
    using permits by (auto simp: rule_permits_def list_ex_iff)
  then obtain r where r: "r \<in> set ps" "rule_permits r ty q"
    using contained Some by (auto simp: rule_contained_def recordRulesPermit_def list_ex_iff list_all_iff)
  then have "rule_permits r ty key"
    using within_prefix_trans [OF _ q(2)] by (auto simp: rule_permits_def list_ex_iff split: option.splits)
  with r(1) show ?thesis by (auto simp: recordRulesPermit_def list_ex_iff)
qed

lemma rules_contain_sound:
  assumes contain: "recordRulesContain p c" and permits: "recordRulesPermit c ty key"
  shows "recordRulesPermit p ty key"
proof (cases p)
  case (Some ps)
  then obtain cs where c: "c = Some cs" "list_all (rule_contained ps) cs"
    using contain by (auto simp: recordRulesContain_def split: option.splits)
  with permits obtain rule where "rule \<in> set cs" "rule_permits rule ty key"
    by (auto simp: recordRulesPermit_def list_ex_iff)
  then show ?thesis using rule_contained_permits [of ps rule] c Some by (simp add: list_all_iff)
qed (simp add: recordRulesPermit_def)

lemma rule_in_permits: "rule \<in> set rs \<Longrightarrow> rule_permits rule ty key \<Longrightarrow> recordRulesPermit (Some rs) ty key"
  by (auto simp: recordRulesPermit_def list_ex_iff)

lemma rule_permits_own: "rr_key_prefixes rule = Some zs \<Longrightarrow> z \<in> set zs \<Longrightarrow> rule_permits rule (rr_type rule) z"
  by (auto simp: rule_permits_def list_ex_iff intro: within_prefix_refl)

text \<open>Containment of a list of rules follows from its rules without prefixes and from what it permits.\<close>

lemma rules_containI:
  assumes "\<And>rule. rule \<in> set cs \<Longrightarrow> rr_key_prefixes rule = None \<Longrightarrow>
      \<exists>allowed \<in> set ps. rr_type allowed = rr_type rule \<and> rr_key_prefixes allowed = None"
    and "\<And>ty key. recordRulesPermit (Some cs) ty key \<Longrightarrow> recordRulesPermit (Some ps) ty key"
  shows "recordRulesContain (Some ps) (Some cs)"
proof -
  have "rule_contained ps rule" if rule: "rule \<in> set cs" for rule
  proof (cases "rr_key_prefixes rule")
    case None
    then show ?thesis using assms(1) [OF rule] by (simp add: rule_contained_def list_ex_iff)
  next
    case (Some zs)
    then show ?thesis
      using assms(2) [OF rule_in_permits [OF rule rule_permits_own [OF Some]]]
      by (simp add: rule_contained_def list_all_iff)
  qed
  then show ?thesis by (simp add: recordRulesContain_def list_all_iff)
qed

lemma rules_contain_refl: "recordRulesContain a a"
  by (cases a) (simp add: recordRulesContain_def, auto intro: rules_containI)

lemma rules_contain_unrestricted:
  assumes "recordRulesContain (Some ps) (Some cs)" and "rule \<in> set cs" and "rr_key_prefixes rule = None"
  shows "\<exists>allowed \<in> set ps. rr_type allowed = rr_type rule \<and> rr_key_prefixes allowed = None"
proof -
  have "rule_contained ps rule" using assms(1,2) by (simp add: recordRulesContain_def list_all_iff)
  with assms(3) show ?thesis by (simp add: rule_contained_def list_ex_iff)
qed

lemma rules_contain_trans:
  assumes ab: "recordRulesContain a b" and bc: "recordRulesContain b c"
  shows "recordRulesContain a c"
proof (cases a)
  case (Some ps)
  obtain qs where qs: "b = Some qs" using ab Some by (auto simp: recordRulesContain_def split: option.splits)
  obtain rs where rs: "c = Some rs" using bc qs by (auto simp: recordRulesContain_def split: option.splits)
  show ?thesis unfolding Some rs
  proof (rule rules_containI)
    fix rule assume "rule \<in> set rs" "rr_key_prefixes rule = None"
    then obtain r where r: "r \<in> set qs" "rr_type r = rr_type rule" "rr_key_prefixes r = None"
      using rules_contain_unrestricted bc qs rs by blast
    then obtain l where "l \<in> set ps" "rr_type l = rr_type r" "rr_key_prefixes l = None"
      using rules_contain_unrestricted ab Some qs by blast
    with r show "\<exists>allowed \<in> set ps. rr_type allowed = rr_type rule \<and> rr_key_prefixes allowed = None" by metis
  qed (use rules_contain_sound ab bc Some rs in blast)
qed (simp add: recordRulesContain_def)

lemma intersect_rule_unrestricted:
  "rr_key_prefixes (intersect_rule l r) = None \<longleftrightarrow> rr_key_prefixes l = None \<and> rr_key_prefixes r = None"
  by (auto simp: intersect_rule_def common_prefixes_def split: option.splits)

lemma intersect_contained:
  "recordRulesContain a (intersectRecordRules a b)" "recordRulesContain b (intersectRecordRules a b)"
proof -
  have both: "recordRulesContain (Some ls) (intersectRecordRules (Some ls) (Some rs))
      \<and> recordRulesContain (Some rs) (intersectRecordRules (Some ls) (Some rs))" for ls rs
  proof -
    define ms where "ms = concat (map (\<lambda>l. map (intersect_rule l) (filter (\<lambda>r. rr_type r = rr_type l) rs)) ls)"
    have ms: "intersectRecordRules (Some ls) (Some rs) = Some ms" by (simp add: intersectRecordRules_def ms_def)
    have permit: "recordRulesPermit (Some ms) ty key \<longleftrightarrow>
        recordRulesPermit (Some ls) ty key \<and> recordRulesPermit (Some rs) ty key" for ty key
      unfolding ms [symmetric] by (rule permits_intersect)
    have bare: "\<exists>l \<in> set ls. \<exists>r \<in> set rs. rr_type l = rr_type m \<and> rr_type r = rr_type m
        \<and> rr_key_prefixes l = None \<and> rr_key_prefixes r = None"
      if "m \<in> set ms" "rr_key_prefixes m = None" for m
      using that by (auto simp: ms_def intersect_rule_unrestricted) (auto simp: intersect_rule_def)
    show ?thesis unfolding ms
      by (intro conjI rules_containI) (use bare permit in blast)+
  qed
  show "recordRulesContain a (intersectRecordRules a b)" "recordRulesContain b (intersectRecordRules a b)"
    using both by (cases a; cases b; simp add: intersectRecordRules_def rules_contain_refl;
      simp add: recordRulesContain_def)+
qed

section \<open>Policies as authorities\<close>

datatype access_query = Q_capability string | Q_task string | Q_record record_side string string

fun admits :: "credential_policy \<Rightarrow> access_query \<Rightarrow> bool" where
  "admits p (Q_capability c) \<longleftrightarrow> c \<in> set (cp_capabilities p) \<and> capabilityRole c \<le> cp_role p"
| "admits p (Q_task ty) \<longleftrightarrow> permitsTask (cp_restrictions p) ty"
| "admits p (Q_record side ty key) \<longleftrightarrow> permitsRecordSide (cp_restrictions p) side ty key"

lemma policyContains_iff:
  "policyContains p c \<longleftrightarrow> cp_role c \<le> cp_role p \<and> set (cp_capabilities c) \<subseteq> set (cp_capabilities p)
     \<and> (\<forall>ts. restricted_types (cp_restrictions p) = Some ts \<longrightarrow>
          (\<exists>us. restricted_types (cp_restrictions c) = Some us \<and> set us \<subseteq> set ts))
     \<and> (\<forall>side. recordRulesContain (recordRulesForSide (cp_restrictions p) side) (recordRulesForSide (cp_restrictions c) side))"
proof -
  have sides: "(\<forall>side. P side) \<longleftrightarrow> P Read_side \<and> P Write_side" for P
    using record_side.exhaust by metis
  show ?thesis
    by (auto simp: policyContains_def Let_def sides not_le list_ex_iff split: option.splits)
qed

lemma intersect_fields:
  "cp_role (intersectCredentialPolicies a b) = min (cp_role a) (cp_role b)"
  "cp_capabilities (intersectCredentialPolicies a b) = filter (\<lambda>c. capabilityRole c \<le> min (cp_role a) (cp_role b))
     (filter (\<lambda>c. c \<in> set (cp_capabilities b)) (cp_capabilities a))"
  "cp_restrictions (intersectCredentialPolicies a b)
     = Some (intersect_restrictions (cp_restrictions a) (cp_restrictions b))"
  by (simp_all add: intersectCredentialPolicies_def effectiveCredentialPolicy_def Let_def min_def)

lemma intersect_types: "restricted_types (Some (intersect_restrictions a b)) = (case restricted_types a of
     None \<Rightarrow> restricted_types b
   | Some ts \<Rightarrow> (case restricted_types b of None \<Rightarrow> Some ts | Some us \<Rightarrow> Some (filter (\<lambda>ty. ty \<in> set us) ts)))"
  by (simp add: intersect_restrictions_def restricted_types_def Let_def)

interpretation policy: authority admits policyContains intersectCredentialPolicies
proof
  fix a b c :: credential_policy and q
  show "policyContains a b \<Longrightarrow> admits b q \<Longrightarrow> admits a q"
    by (cases q) (auto simp: policyContains_iff permitsTask_def permitsRecordSide_def split: option.splits
        intro: rules_contain_sound)
  show "policyContains a a" by (auto simp: policyContains_iff rules_contain_refl)
  show "policyContains a b \<Longrightarrow> policyContains b c \<Longrightarrow> policyContains a c"
    unfolding policyContains_iff by (auto intro: rules_contain_trans dest: order_trans) blast
  show "admits (intersectCredentialPolicies a b) q \<longleftrightarrow> admits a q \<and> admits b q"
    by (cases q) (auto simp: intersect_fields permitsTask_def intersect_types permitsRecordSide_def intersect_side
        permits_intersect split: option.splits)
  show "policyContains a (intersectCredentialPolicies a b)" "policyContains b (intersectCredentialPolicies a b)"
    by (auto simp: policyContains_iff intersect_fields intersect_types intersect_side intersect_contained
        split: option.splits)
qed

text \<open>C29. A session that acts under several policies may do exactly what each of them permits: every
  capability, task type and record side, and nothing beyond; and every one of the policies contains the
  result in the sense that the delegation of credentials checks.\<close>

theorem session_under_all_policies:
  "(admits (foldl intersectCredentialPolicies p ps) q \<longleftrightarrow> list_all (\<lambda>a. admits a q) (p # ps))
   \<and> list_all (\<lambda>a. policyContains a (foldl intersectCredentialPolicies p ps)) (p # ps)"
  using policy.fold_admits [of p ps q] policy.fold_contained [of _ p ps]
  by (simp add: list_all_iff)

text \<open>C30. A credential at the end of a chain of delegations, each checked by containment in the one before,
  may do nothing that the first credential of the chain may not do.\<close>

theorem delegation_never_exceeds:
  "successively policyContains (p # ps) \<Longrightarrow> admits (last (p # ps)) q \<Longrightarrow> admits p q"
  by (rule policy.chain_sound)

definition scoped_run :: credential_policy where
  "scoped_run = worker_preset\<lparr>cp_restrictions := Some \<lparr>ns_task_types = Some [''bug''], ns_records = None,
     ns_records_read = Some [\<lparr>rr_type = ''note'', rr_key_prefixes = Some [''a'', ''b'']\<rparr>],
     ns_records_write = Some [\<lparr>rr_type = ''note'', rr_key_prefixes = Some [''a/x'']\<rparr>]\<rparr>\<rparr>"

theorem delegation_never_exceeds_witness:
  "successively policyContains [RUNTIME_RUN_CEILING, worker_preset, scoped_run]
   \<and> admits scoped_run (Q_record Write_side ''note'' ''a/x/1'')
   \<and> \<not> admits scoped_run (Q_record Write_side ''note'' ''a/xy'')
   \<and> admits RUNTIME_RUN_CEILING (Q_record Write_side ''note'' ''a/x/1'')"
proof -
  have chain: "successively policyContains [RUNTIME_RUN_CEILING, worker_preset, scoped_run]" by code_simp
  have "admits (last [RUNTIME_RUN_CEILING, worker_preset, scoped_run]) (Q_record Write_side ''note'' ''a/x/1'')"
    by code_simp
  with delegation_never_exceeds [OF chain this] chain show ?thesis by code_simp
qed

section \<open>Requests and listings\<close>

lemma join_split [simp]: "join_with c (split_parts c xs) = xs"
proof (induction xs)
  case (Cons x xs)
  obtain y ys where y: "split_parts c xs = y # ys" by (cases "split_parts c xs") auto
  with Cons show ?case by (cases ys) auto
qed simp

lemma split_parts_append: "c \<notin> set xs \<Longrightarrow> split_parts c (xs @ c # ys) = xs # split_parts c ys"
  by (induction xs) auto

lemma decode_plain: "CHR ''%'' \<notin> set xs \<Longrightarrow> decodeURIComponent xs = Inr xs"
  by (induction xs) auto

lemma entity_path_id:
  assumes "op \<in> set [''get'', ''update'', ''archive'']"
  shows "join_with CHR ''/'' (drop 3 (split_parts CHR ''/'' (''/entity/'' @ op @ CHR ''/'' # i))) = i"
proof -
  have "CHR ''/'' \<notin> set op" using assms by auto
  from split_parts_append [OF this, of i] show ?thesis by (simp add: numeral_3_eq_3)
qed

lemma prefix_take: "prefix xs ys \<longleftrightarrow> take (length xs) ys = xs"
  by (metis append_eq_conv_conj prefixE take_is_prefix)

lemma rule_condition_permits: "rule_condition rule ty key \<longleftrightarrow> rule_permits rule ty key"
proof -
  have "take (length p + 1) key = p @ ''/'' \<longleftrightarrow> prefix (p @ ''/'') key" for p by (simp add: prefix_take)
  then show ?thesis by (auto simp: rule_condition_def rule_permits_def within_prefix_def split: option.splits)
qed

lemma record_condition: "recordRestrictionCondition r side ty key \<longleftrightarrow> permitsRecordSide r side ty key"
  by (simp add: recordRestrictionCondition_def permitsRecordSide_def recordRulesPermit_def rule_condition_permits
      split: option.splits)

text \<open>A parent reference that the guard and the listing read alike: none, null, or the text of an id.\<close>

definition plain_parent :: "entity_row \<Rightarrow> bool" where
  "plain_parent e \<longleftrightarrow> (case obj_get ''parent_id'' (en_data e) of None \<Rightarrow> True | Some JNull \<Rightarrow> True
     | Some (JStr i) \<Rightarrow> i \<noteq> [] | Some _ \<Rightarrow> False)"

lemma by_key_list_ex:
  "distinct (map k t) \<Longrightarrow> list_ex (\<lambda>r. k r = x \<and> P r) t \<longleftrightarrow> (case by_key k x t of None \<Rightarrow> False | Some r \<Rightarrow> P r)"
proof (induction t)
  case (Cons r t)
  then have "k r \<notin> k ` set t" by simp
  then have "\<not> list_ex (\<lambda>q. k q = k r \<and> P q) t" unfolding list_ex_iff by (metis image_eqI)
  with Cons show ?case by (cases "k r = x") (auto simp: by_key_Cons)
qed simp

lemma task_access: "\<not> isl (assertTaskAccess s p (Some (JStr i))) \<longleftrightarrow>
    (case by_key en_id i (db_entities s) of None \<Rightarrow> False | Some e \<Rightarrow> permitsTask (cp_restrictions p) (en_type e))"
  by (simp add: assertTaskAccess_def as_string_def split: option.splits)

lemma allow_simps [simp]:
  "isl (allow_seq m n) \<longleftrightarrow> isl m \<or> isl n" "isl (allow_if b m) \<longleftrightarrow> b \<and> isl m" "isl (require b) \<longleftrightarrow> \<not> b"
  "isl (allow_task s p i) \<longleftrightarrow> isl (assertTaskAccess s p i)"
  by (auto simp: allow_seq_def allow_if_def require_def allow_task_def isl_map_sum split: sum.splits)

lemma task_id_access_iff: "restricted_types (cp_restrictions p) = Some ts \<Longrightarrow> distinct (map en_id (db_entities s)) \<Longrightarrow>
    \<not> isl (assertTaskAccess s p (Some (JStr i))) \<longleftrightarrow> task_id_access s (Some ts) i"
  by (simp add: task_access task_id_access_def by_key_list_ex permitsTask_def split: option.splits)

text \<open>What a request for one task must satisfy beside the task itself: no compact form, the right to a source
  artifact that the body names, and access to the parent that the body names.\<close>

definition extras_allowed :: "(json option \<Rightarrow> bool) \<Rightarrow> credential_policy \<Rightarrow> query_params \<Rightarrow> jobj \<Rightarrow> bool" where
  "extras_allowed visible p query body \<longleftrightarrow> map_of query ''compact'' \<noteq> Some ''true''
     \<and> (truthy (obj_get ''source_artifact_key'' body) \<longrightarrow> ''artifacts:read'' \<in> set (cp_capabilities p))
     \<and> (truthy (property ''parent_id'' (obj_get ''data'' body)) \<longrightarrow> visible (property ''parent_id'' (obj_get ''data'' body)))"

lemma allow_isl:
  "isl (allow_seq m n) \<longleftrightarrow> isl m \<or> isl n" "isl (allow_if b m) \<longleftrightarrow> b \<and> isl m" "isl (require b) \<longleftrightarrow> \<not> b"
  "isl (allow_task s p v) \<longleftrightarrow> isl (assertTaskAccess s p v)"
  by (auto simp: allow_seq_def allow_if_def require_def allow_task_def split: sum.splits)
    (cases "assertTaskAccess s p v"; simp)+

lemma entity_guard:
  assumes "hasNamespaceRestrictions p" and op: "op \<in> set [''get'', ''update'', ''archive'']" and i: "decodeURIComponent x = Inr i"
  shows "\<not> isl (assertCredentialRequest s p meth (''/entity/'' @ op @ CHR ''/'' # x) query body) \<longleftrightarrow>
    (\<exists>e. assertTaskAccess s p (Some (JStr i)) = Inr e
       \<and> (truthy (obj_get ''parent_id'' (en_data e)) \<longrightarrow> \<not> isl (assertTaskAccess s p (obj_get ''parent_id'' (en_data e)))))
    \<and> extras_allowed (\<lambda>v. \<not> isl (assertTaskAccess s p v)) p query body"
proof -
  define path where "path = ''/entity/'' @ op @ CHR ''/'' # x"
  have id: "join_with CHR ''/'' (drop 3 (split_parts CHR ''/'' path)) = x"
    unfolding path_def by (rule entity_path_id [OF op])
  have shape: "prefix ''/entity/'' path" "entity_path path" "path \<notin> set JOURNAL_READ_PATHS"
    "path \<noteq> ''/template/instantiate''" "path \<noteq> ''/schema/current''" "path \<noteq> ''/admin/transfer/status''"
    "path \<noteq> ''/entity/type-counts''" "path \<noteq> ''/search''" "path \<noteq> ''/entity/list''" "path \<noteq> ''/entity/create''"
    "path \<noteq> ''/entity/artifact-ref''" "path \<noteq> ''/entity/artifact-refs''"
    "\<not> prefix ''/queue/'' path" "\<not> prefix ''/attempts/'' path" "\<not> prefix ''/questions/'' path" "\<not> prefix ''/record/'' path"
    using op by (auto simp: path_def entity_path_def JOURNAL_READ_PATHS_def)
  let ?parent = "property ''parent_id'' (obj_get ''data'' body)"
  have "assertCredentialRequest s p meth path query body =
      (if truthy (obj_get ''source_artifact_key'' body) \<and> ''artifacts:read'' \<notin> set (cp_capabilities p)
       then Inl CredentialPolicyDenied
       else allow_seq (entity_request s p path query) (allow_if (truthy ?parent) (allow_task s p ?parent)))"
    using shape assms(1) by (simp add: assertCredentialRequest_def restricted_request_def Let_def)
  then show ?thesis unfolding path_def [symmetric]
    by (cases "assertTaskAccess s p (Some (JStr i))") (auto simp: entity_request_def id i extras_allowed_def allow_isl)
qed

text \<open>C31. The ways in which the code judges the same access agree. The SQL condition on records admits the records
  that the predicate permits. Under restricted task types, a request to read, update or archive the task whose
  encoded id its path ends with, with any query and body, is allowed exactly if the task exists, the condition of the task list keeps it, and what else the request
  asks for is allowed: not the compact form, a source artifact only with the right to read artifacts, and a
  parent in the body only if it names a task that the SQL condition on task ids keeps. So the guard does not let
  through what a listing hides, nor the reverse. The relationships that are shown are those whose two ends pass
  that condition. Ids are distinct and the stored parents are missing, null or the text of an id.\<close>

theorem guard_agrees_with_listing:
  assumes "restricted_types (cp_restrictions p) = Some ts" and "distinct (map en_id (db_entities s))"
    and "op \<in> set [''get'', ''update'', ''archive'']" and "decodeURIComponent x = Inr i"
    and "list_all plain_parent (db_entities s)"
  shows "recordRestrictionCondition (cp_restrictions p) side ty key = permitsRecordSide (cp_restrictions p) side ty key
    \<and> (\<not> isl (assertCredentialRequest s p meth (''/entity/'' @ op @ CHR ''/'' # x) query body) \<longleftrightarrow>
        (\<exists>e. by_key en_id i (db_entities s) = Some e \<and> taskRestrictionCondition s (cp_restrictions p) e)
        \<and> extras_allowed (\<lambda>v. \<exists>j. v = Some (JStr j) \<and> task_id_access s (Some ts) j) p query body)
    \<and> filterRelationships s (Some p) rows
        = filter (\<lambda>r. task_id_access s (Some ts) (er_from_id r) \<and> task_id_access s (Some ts) (er_to_id r)) rows"
proof (intro conjI)
  have restricted: "hasNamespaceRestrictions p" using assms(1) by (simp add: hasNamespaceRestrictions_def)
  have parent: "(\<lambda>v. \<not> isl (assertTaskAccess s p v)) = (\<lambda>v. \<exists>j. v = Some (JStr j) \<and> task_id_access s (Some ts) j)"
  proof
    fix v show "(\<not> isl (assertTaskAccess s p v)) = (\<exists>j. v = Some (JStr j) \<and> task_id_access s (Some ts) j)"
    proof (cases "as_string v")
      case None
      then show ?thesis by (auto simp: assertTaskAccess_def as_string_def)
    next
      case (Some j)
      then have "v = Some (JStr j)" by (auto simp: as_string_def split: option.splits json.splits)
      then show ?thesis using task_id_access_iff [OF assms(1,2)] by simp
    qed
  qed
  have "(\<exists>e. assertTaskAccess s p (Some (JStr i)) = Inr e
       \<and> (truthy (obj_get ''parent_id'' (en_data e)) \<longrightarrow> \<not> isl (assertTaskAccess s p (obj_get ''parent_id'' (en_data e)))))
    \<longleftrightarrow> (\<exists>e. by_key en_id i (db_entities s) = Some e \<and> taskRestrictionCondition s (cp_restrictions p) e)"
  proof (cases "by_key en_id i (db_entities s)")
    case None
    then show ?thesis by (simp add: assertTaskAccess_def as_string_def)
  next
    case (Some e)
    then have "plain_parent e" using assms(5) by (auto simp: list_all_iff dest: by_key_Some)
    then show ?thesis using Some assms(1)
      by (auto simp: assertTaskAccess_def as_string_def permitsTask_def
          taskRestrictionCondition_def plain_parent_def extracted_text_def json_extract_def truthy_def by_key_list_ex [OF assms(2)]
          split: option.splits json.splits)
  qed
  then show "\<not> isl (assertCredentialRequest s p meth (''/entity/'' @ op @ CHR ''/'' # x) query body) \<longleftrightarrow>
      (\<exists>e. by_key en_id i (db_entities s) = Some e \<and> taskRestrictionCondition s (cp_restrictions p) e)
      \<and> extras_allowed (\<lambda>v. \<exists>j. v = Some (JStr j) \<and> task_id_access s (Some ts) j) p query body"
    unfolding entity_guard [OF restricted assms(3,4)] parent [symmetric] by simp
  show "filterRelationships s (Some p) rows
      = filter (\<lambda>r. task_id_access s (Some ts) (er_from_id r) \<and> task_id_access s (Some ts) (er_to_id r)) rows"
    by (simp add: filterRelationships_def restricted task_id_access_iff [OF assms(1,2)])
qed (rule record_condition)

definition access_task :: "string \<Rightarrow> string \<Rightarrow> jobj \<Rightarrow> entity_row" where
  "access_task i ty data = \<lparr>en_id = i, en_type = ty, en_schema_version = 1, en_data = data, en_archived = False,
     en_created_at = 0, en_updated_at = 0, en_created_by = ''p''\<rparr>"

definition access_db :: db where
  "access_db = empty_db\<lparr>db_entities := [access_task ''e'' ''epic'' [], access_task ''b'' ''bug'' [(''parent_id'', JStr ''e'')],
     access_task ''c'' ''bug'' [(''parent_id'', JNull)]]\<rparr>"

definition under_hidden :: jobj where
  "under_hidden = [(''data'', JObj [(''parent_id'', JStr ''e'')])]"

theorem guard_agrees_with_listing_witness:
  "isl (assertCredentialRequest access_db scoped_run ''GET'' ''/entity/get/b'' [] [])
   \<and> \<not> isl (assertCredentialRequest access_db scoped_run ''PATCH'' ''/entity/update/c'' [] [])
   \<and> isl (assertCredentialRequest access_db scoped_run ''PATCH'' ''/entity/update/c'' [] under_hidden)"
proof -
  have hyps: "restricted_types (cp_restrictions scoped_run) = Some [''bug'']"
    "distinct (map en_id (db_entities access_db))" "list_all plain_parent (db_entities access_db)" by code_simp+
  have op: "''get'' \<in> set [''get'', ''update'', ''archive'']" "''update'' \<in> set [''get'', ''update'', ''archive'']" by simp_all
  have ids: "decodeURIComponent ''b'' = Inr ''b''" "decodeURIComponent ''c'' = Inr ''c''" by (simp_all add: decode_plain)
  have "by_key en_id ''b'' (db_entities access_db) = Some (access_task ''b'' ''bug'' [(''parent_id'', JStr ''e'')])"
    "by_key en_id ''c'' (db_entities access_db) = Some (access_task ''c'' ''bug'' [(''parent_id'', JNull)])"
    "\<not> taskRestrictionCondition access_db (cp_restrictions scoped_run) (access_task ''b'' ''bug'' [(''parent_id'', JStr ''e'')])"
    "taskRestrictionCondition access_db (cp_restrictions scoped_run) (access_task ''c'' ''bug'' [(''parent_id'', JNull)])"
    "\<not> task_id_access access_db (Some [''bug'']) ''e''" "property ''parent_id'' (obj_get ''data'' under_hidden) = Some (JStr ''e'')"
    by code_simp+
  then show ?thesis
    using guard_agrees_with_listing [OF hyps(1,2) op(1) ids(1) hyps(3), of Read_side "[]" "[]" "''GET''" "[]" "[]" "[]"]
      guard_agrees_with_listing [OF hyps(1,2) op(2) ids(2) hyps(3), of Read_side "[]" "[]" "''PATCH''" "[]" "[]" "[]"]
      guard_agrees_with_listing [OF hyps(1,2) op(2) ids(2) hyps(3), of Read_side "[]" "[]" "''PATCH''" "[]" under_hidden "[]"]
    by (simp add: extras_allowed_def property_def truthy_def under_hidden_def)
qed

text \<open>A parent reference of the empty text is ignored by the guard and looked up by the listing.\<close>

lemma empty_parent_diverges:
  "\<not> isl (assertCredentialRequest (access_db\<lparr>db_entities := [access_task ''d'' ''bug'' [(''parent_id'', JStr [])]]\<rparr>)
     scoped_run ''GET'' ''/entity/get/d'' [] [])
   \<and> \<not> taskRestrictionCondition (access_db\<lparr>db_entities := [access_task ''d'' ''bug'' [(''parent_id'', JStr [])]]\<rparr>)
     (cp_restrictions scoped_run) (access_task ''d'' ''bug'' [(''parent_id'', JStr [])])"
  by code_simp

end
