(* ===== verification/Disclosure.thy ===== *)
theory Disclosure
  imports Visibility Authority
begin

text \<open>
  What the restricted journal discloses: the batched judgement equals a predicate on single events, which
  follows the conditions of the other listings; a listing depends on hidden events only through the ends of
  the sequence; following its cursors yields every readable event once and ends.
\<close>

section \<open>Batched lookups\<close>

definition task_lookup :: "db \<Rightarrow> string \<Rightarrow> task_row option" where
  "task_lookup s i = map_option task_row_of (by_key en_id i (db_entities s))"

lemma fold_update_other:
  "i \<notin> k ` set es \<Longrightarrow> fold (\<lambda>e m. m(k e \<mapsto> f e)) es m i = m i"
  by (induction es arbitrary: m) auto

lemma fold_update_lookup:
  "distinct (map k es) \<Longrightarrow> fold (\<lambda>e m. m(k e \<mapsto> f e)) es m i
     = (case by_key k i es of None \<Rightarrow> m i | Some e \<Rightarrow> Some (f e))"
proof (induction es arbitrary: m)
  case (Cons e es)
  show ?case
  proof (cases "k e = i")
    case True
    then have "i \<notin> k ` set es" using Cons.prems by auto
    then show ?thesis using True fold_update_other [of i k es f "m(k e \<mapsto> f e)"]
      by (simp add: by_key_Cons fun_upd_same del: fun_upd_apply)
  next
    case False
    then show ?thesis using Cons by (simp add: by_key_Cons split: option.splits)
  qed
qed simp

lemma by_key_filter_key: "by_key k i (filter (\<lambda>e. P (k e)) es) = (if P i then by_key k i es else None)"
  by (induction es) (auto simp: by_key_Cons)

lemma load_chunk_lookup:
  assumes "distinct (map en_id (db_entities s))"
  shows "load_chunk s chunk i = (if i \<in> set chunk then task_lookup s i else None)"
proof -
  have "distinct (map en_id (filter (\<lambda>e. en_id e \<in> set chunk) (db_entities s)))"
    using assms by (rule distinct_map_filter)
  from fold_update_lookup [OF this, of task_row_of Map.empty i]
    by_key_filter_key [of en_id i "\<lambda>x. x \<in> set chunk" "db_entities s"]
  show ?thesis by (simp add: load_chunk_def task_lookup_def split: option.splits)
qed

lemma loadTasks_lookup:
  assumes ids: "distinct (map en_id (db_entities s))"
  shows "loadTasks s xs i = (if i \<in> set xs then task_lookup s i else None)"
  using ids
proof (induction s xs rule: loadTasks.induct)
  case (1 s xs)
  show ?case
  proof (cases "xs = []")
    case True
    then show ?thesis by (simp add: loadTasks.simps)
  next
    case False
    have "set xs = set (take LOOKUP_CHUNK xs) \<union> set (drop LOOKUP_CHUNK xs)"
      by (metis append_take_drop_id set_append)
    then show ?thesis
      using False "1.IH" [OF False "1.prems"] load_chunk_lookup [OF "1.prems", of "take LOOKUP_CHUNK xs" i]
      by (auto simp: loadTasks.simps [of s xs] map_add_def split: option.splits)
  qed
qed

text \<open>A single event, judged by single lookups.\<close>

definition event_readable :: "db \<Rightarrow> credential_policy \<Rightarrow> journal_event \<Rightarrow> bool" where
  "event_readable s p e = subject_visible (cp_restrictions p) (task_lookup s) (task_lookup s) (subjectOf p e)"

lemma taskReadable_cong:
  assumes "\<And>t i. task = Some t \<Longrightarrow> tr_parent_id t = JStr i \<Longrightarrow> tr_type t \<in> set (case restricted_types r of None \<Rightarrow> [] | Some ts \<Rightarrow> ts)
      \<Longrightarrow> parents i = parents' i"
  shows "taskReadable r parents task ty = taskReadable r parents' task ty"
proof (cases task)
  case (Some t)
  show ?thesis
  proof (cases "restricted_types r")
    case rt: (Some ts)
    then show ?thesis using Some assms [OF Some]
      by (cases "tr_parent_id t") (auto simp: taskReadable_def permitsTask_def)
  qed (simp add: Some taskReadable_def)
qed (simp add: taskReadable_def)

lemma visible_is_filter:
  assumes ids: "distinct (map en_id (db_entities s))"
  shows "visibleJournalEvents s p events = filter (event_readable s p) events"
proof -
  define xs where "xs = first_occurrences (concat (map (\<lambda>e. subject_task_ids (subjectOf p e)) events))"
  define tasks where "tasks = loadTasks s xs"
  define ps where "ps = parent_ids (restricted_types (cp_restrictions p)) tasks xs"
  have look: "tasks i = task_lookup s i" if "i \<in> set xs" for i
    using that by (simp add: tasks_def loadTasks_lookup [OF ids])
  have parents: "loadTasks s ps i = task_lookup s i"
    if "x \<in> set xs" "tasks x = Some t" "tr_parent_id t = JStr i"
      "tr_type t \<in> set (case restricted_types (cp_restrictions p) of None \<Rightarrow> [] | Some ts \<Rightarrow> ts)" for x t i
  proof -
    have "i \<in> set ps" using that
      by (force simp: ps_def parent_ids_def as_string_def List.map_filter_def split: option.splits)
    then show ?thesis by (simp add: loadTasks_lookup [OF ids])
  qed
  have "subject_visible (cp_restrictions p) tasks (loadTasks s ps) (subjectOf p e) = event_readable s p e"
    if e: "e \<in> set events" for e
  proof -
    have own: "set (subject_task_ids (subjectOf p e)) \<subseteq> set xs" using e by (auto simp: xs_def)
    show ?thesis
    proof (cases "subjectOf p e")
      case (Some x)
      show ?thesis
      proof (cases x)
        case (Task_subject i ty)
        then have i: "i \<in> set xs" using own Some by (simp add: subject_task_ids_def)
        have "taskReadable (cp_restrictions p) (loadTasks s ps) (tasks i) ty
            = taskReadable (cp_restrictions p) (task_lookup s) (tasks i) ty"
          by (rule taskReadable_cong) (rule parents [OF i])
        then show ?thesis using Some Task_subject by (simp add: event_readable_def subject_visible_def look [OF i])
      next
        case (Record_subject ty key shadow)
        then have "tasks i = task_lookup s i" if "shadow = Some i" for i
          using own Some that look by (simp add: subject_task_ids_def)
        then show ?thesis using Some Record_subject
          by (auto simp: event_readable_def subject_visible_def split: option.splits)
      qed
    qed (simp add: event_readable_def subject_visible_def)
  qed
  then show ?thesis
    unfolding visibleJournalEvents_def Let_def xs_def [symmetric] tasks_def [symmetric] ps_def [symmetric]
    by (intro filter_cong) simp_all
qed

text \<open>What may be read of a task: the conditions of the listings and of the guard hold for it.\<close>

lemma task_condition:
  assumes ids: "distinct (map en_id (db_entities s))"
    and readable: "taskReadable (cp_restrictions p) (task_lookup s) (task_lookup s i) ty"
  shows "\<exists>e. by_key en_id i (db_entities s) = Some e \<and> taskRestrictionCondition s (cp_restrictions p) e
    \<and> permitsTask (cp_restrictions p) (en_type e)"
proof -
  obtain e where e: "by_key en_id i (db_entities s) = Some e"
    using readable by (auto simp: taskReadable_def task_lookup_def split: option.splits)
  then have permits: "permitsTask (cp_restrictions p) (en_type e)"
    using readable by (auto simp: taskReadable_def task_lookup_def task_row_of_def split: if_splits)
  have "taskRestrictionCondition s (cp_restrictions p) e"
  proof (cases "restricted_types (cp_restrictions p)")
    case (Some ts)
    have "list_ex (\<lambda>q. en_id q = x \<and> en_type q \<in> set ts) (db_entities s)"
      if "json_extract (obj_get ''parent_id'' (en_data e)) = JStr x" for x
      using readable e Some that
      by (auto simp: taskReadable_def task_lookup_def task_row_of_def by_key_list_ex [OF ids] split: if_splits option.splits)
    then show ?thesis using readable e Some permits
      by (auto simp: taskRestrictionCondition_def permitsTask_def extracted_text_def taskReadable_def task_lookup_def
          task_row_of_def split: if_splits json.splits)
  qed (simp add: taskRestrictionCondition_def)
  with e permits show ?thesis by blast
qed

section \<open>Windows\<close>

text \<open>The readable events that match a query, oldest first.\<close>

definition readable :: "db \<Rightarrow> credential_policy \<Rightarrow> journal_query \<Rightarrow> journal_event list" where
  "readable s p q = filter (event_readable s p) (map journalRowToEvent (sort_key jo_seq (filter
     (journalFilterConditions (q\<lparr>jq_kind := Some (Many (scoped_kinds q)), jq_after_seq := None\<rparr>)) (db_journal s))))"

definition between :: "int \<Rightarrow> int \<Rightarrow> journal_event list \<Rightarrow> journal_event list" where
  "between a b es = filter (\<lambda>e. a < je_seq e \<and> je_seq e \<le> b) es"

lemma seq_of_row [simp]: "je_seq (journalRowToEvent r) = jo_seq r"
  by (simp add: journalRowToEvent_def)

lemma window_readable:
  assumes "distinct (map en_id (db_entities s))"
  shows "readWindow s p q (scoped_kinds q) a b False = between a b (readable s p q)"
    and "readWindow s p q (scoped_kinds q) a b True = rev (between a b (readable s p q))"
proof -
  let ?c = "journalFilterConditions (q\<lparr>jq_kind := Some (Many (scoped_kinds q)), jq_after_seq := None\<rparr>)"
  have "sort_key jo_seq (filter (\<lambda>r. ?c r \<and> a < jo_seq r \<and> jo_seq r \<le> b) (db_journal s))
      = filter (\<lambda>r. a < jo_seq r \<and> jo_seq r \<le> b) (sort_key jo_seq (filter ?c (db_journal s)))"
    by (simp add: filter_sort conj_commute)
  then show "readWindow s p q (scoped_kinds q) a b False = between a b (readable s p q)"
    "readWindow s p q (scoped_kinds q) a b True = rev (between a b (readable s p q))"
    by (simp_all add: readWindow_def Let_def visible_is_filter [OF assms] between_def readable_def filter_map
        comp_def conj_commute rev_map rev_filter [symmetric])
qed

definition ascending :: "journal_event list \<Rightarrow> bool" where
  "ascending es = sorted_wrt (\<lambda>x y. je_seq x < je_seq y) es"

lemma readable_ascending:
  assumes "distinct (map jo_seq (db_journal s))"
  shows "ascending (readable s p q)"
proof -
  let ?rows = "filter (journalFilterConditions (q\<lparr>jq_kind := Some (Many (scoped_kinds q)), jq_after_seq := None\<rparr>)) (db_journal s)"
  have "distinct (map jo_seq ?rows)" using assms by (rule distinct_map_filter)
  then have "distinct (map jo_seq (sort_key jo_seq ?rows))" by (simp add: distinct_map)
  then have "sorted_wrt (<) (map jo_seq (sort_key jo_seq ?rows))" by (simp add: strict_sorted_iff)
  then show ?thesis
    by (simp add: ascending_def readable_def sorted_wrt_map sorted_wrt_filter)
qed

lemma between_append:
  "ascending es \<Longrightarrow> a \<le> b \<Longrightarrow> b \<le> c \<Longrightarrow> between a c es = between a b es @ between b c es"
proof (induction es)
  case (Cons e es)
  then have IH: "between a c es = between a b es @ between b c es" by (simp add: ascending_def)
  show ?case
  proof (cases "je_seq e \<le> b")
    case False
    then have "between a b es = []"
      using Cons.prems(1) by (auto simp: between_def ascending_def filter_empty_conv)
    then show ?thesis using IH False Cons.prems by (auto simp: between_def)
  qed (use IH Cons.prems in \<open>auto simp: between_def\<close>)
qed (simp add: between_def)

lemma ascending_between: "ascending es \<Longrightarrow> ascending (between a b es)"
  by (simp add: ascending_def between_def sorted_wrt_filter)

text \<open>Cutting an ascending list after some of its events is cutting it at the sequence of the last of them.\<close>

lemma take_between:
  assumes asc: "ascending es" and n: "0 < n" "n \<le> length (between a b es)"
  shows "take n (between a b es) = between a (je_seq (last (take n (between a b es)))) es"
proof -
  let ?w = "between a b es"
  define x where "x = last (take n ?w)"
  have ne: "take n ?w \<noteq> []" using n by auto
  have x: "x \<in> set ?w" unfolding x_def using last_in_set [OF ne] by (rule in_set_takeD)
  have asc_w: "ascending (take n ?w @ drop n ?w)" using ascending_between [OF asc] by simp
  have le: "je_seq y \<le> je_seq x" if "y \<in> set (take n ?w)" for y
  proof -
    have split: "take n ?w = butlast (take n ?w) @ [x]" unfolding x_def using ne by simp
    have "ascending (take n ?w)" using asc_w by (simp add: ascending_def sorted_wrt_append)
    then have "ascending (butlast (take n ?w) @ [x])" using split by metis
    then have "\<forall>z \<in> set (butlast (take n ?w)). je_seq z < je_seq x" by (simp add: ascending_def sorted_wrt_append)
    moreover have "y \<in> set (butlast (take n ?w) @ [x])" using that split by metis
    ultimately show ?thesis by auto
  qed
  have gt: "je_seq x < je_seq y" if "y \<in> set (drop n ?w)" for y
    using asc_w last_in_set [OF ne] that unfolding ascending_def sorted_wrt_append x_def by blast
  have "between a (je_seq x) es = filter (\<lambda>e. je_seq e \<le> je_seq x) ?w"
    using x by (auto simp: between_def intro!: filter_cong)
  also have "\<dots> = filter (\<lambda>e. je_seq e \<le> je_seq x) (take n ?w) @ filter (\<lambda>e. je_seq e \<le> je_seq x) (drop n ?w)"
    by (metis append_take_drop_id filter_append)
  also have "\<dots> = take n ?w"
    using le gt by (auto simp: filter_id_conv filter_empty_conv not_le)
  finally show ?thesis by (simp add: x_def)
qed

section \<open>Forward scans\<close>

lemma fill_page_eq:
  assumes "int (length page) \<le> limit"
  shows "fill_page limit page es = (take (nat limit) (page @ es), limit < int (length page + length es))"
  using assms
proof (induction limit page es rule: fill_page.induct)
  case (2 limit page e es)
  then show ?case by (cases "limit = int (length page)") auto
qed auto

text \<open>A page of a window, in full or with more to come, is the readable events up to its cursor.\<close>

lemma forward_scan_page:
  assumes asc: "ascending es" and limit: "1 \<le> limit"
    and page: "jw_page st = between after (jw_cursor st) es" "int (length (jw_page st)) \<le> limit"
    and st: "after \<le> jw_cursor st" "jw_cursor st < high"
  shows "\<exists>n more. forward_scan (\<lambda>a b. between a b es) limit high st
      = Inr \<lparr>sl_events = between after n es, sl_has_more = more, sl_next_after_seq = Some n\<rparr>
    \<and> after < n \<and> (\<not> more \<longrightarrow> n = high) \<and> n \<le> high"
  using limit page st
proof (induction "(\<lambda>a b. between a b es)" limit high st rule: forward_scan.induct)
  case (1 limit high st)
  define end' where "end' = nextWindowEnd st high"
  define w where "w = between (jw_cursor st) end' es"
  have e: "jw_cursor st < end'" "end' \<le> high"
    using "1.prems"(5) by (auto simp: end'_def nextWindowEnd_def)
  have cat: "jw_page st @ w = between after end' es"
    unfolding w_def "1.prems"(2) using e by (intro between_append [OF asc "1.prems"(4), symmetric]) simp
  have fill: "fill_page limit (jw_page st) w = (take (nat limit) (between after end' es),
      limit < int (length (between after end' es)))"
    unfolding fill_page_eq [OF "1.prems"(3), of w] cat [symmetric] by simp
  show ?case
  proof (cases "limit < int (length (between after end' es))")
    case True
    let ?page = "take (nat limit) (between after end' es)"
    have n: "0 < nat limit" "nat limit \<le> length (between after end' es)" using True "1.prems"(1) by auto
    then have ne: "?page \<noteq> []" by auto
    then have "last ?page \<in> set (between after end' es)" using last_in_set in_set_takeD by metis
    then have last: "after < je_seq (last ?page)" "je_seq (last ?page) \<le> high" using e by (auto simp: between_def)
    have "forward_scan (\<lambda>a b. between a b es) limit high st
        = Inr \<lparr>sl_events = ?page, sl_has_more = True, sl_next_after_seq = Some (je_seq (last ?page))\<rparr>"
      using ne True by (subst forward_scan.simps) (simp add: foldWindow_def end'_def [symmetric] w_def [symmetric] fill)
    then show ?thesis using take_between [OF asc n] last
      by (intro exI [of _ "je_seq (last ?page)"] exI [of _ True]) simp
  next
    case False
    then have full: "fill_page limit (jw_page st) w = (between after end' es, False)" using fill by simp
    consider "high \<le> end'" | "end' < high" "SCOPED_SCAN_LIMIT \<le> jw_examined st + (end' - jw_cursor st)"
      | "end' < high" "jw_examined st + (end' - jw_cursor st) < SCOPED_SCAN_LIMIT" by linarith
    then show ?thesis
    proof cases
      case 1
      then have eq: "end' = high" using e by simp
      have step: "foldWindow st (nextWindowEnd st high) (between (jw_cursor st) (nextWindowEnd st high) es) limit high
          = Scan_done (between after end' es) high False"
        using 1 by (simp add: foldWindow_def end'_def [symmetric] w_def [symmetric] full)
      have "forward_scan (\<lambda>a b. between a b es) limit high st
          = Inr \<lparr>sl_events = between after high es, sl_has_more = False, sl_next_after_seq = Some high\<rparr>"
        by (subst forward_scan.simps) (simp add: step eq)
      then show ?thesis using "1.prems"(4,5) by (intro exI [of _ high] exI [of _ False]) simp
    next
      case 2
      then show ?thesis using e "1.prems"(4)
        by (intro exI [of _ end'] exI [of _ True], subst forward_scan.simps)
          (simp add: foldWindow_def end'_def [symmetric] w_def [symmetric] full Let_def)
    next
      case 3
      define st' where "st' = \<lparr>jw_page = between after end' es, jw_cursor = end',
        jw_span = min (jw_span st * 2) SCOPED_SCAN_MAX_SPAN, jw_examined = jw_examined st + (end' - jw_cursor st)\<rparr>"
      have step: "foldWindow st (nextWindowEnd st high) (between (jw_cursor st) (nextWindowEnd st high) es) limit high
          = Scan_more st'"
        using 3 by (simp add: foldWindow_def end'_def [symmetric] w_def [symmetric] full Let_def st'_def)
      have "forward_scan (\<lambda>a b. between a b es) limit high st = forward_scan (\<lambda>a b. between a b es) limit high st'"
        by (subst forward_scan.simps) (simp add: step)
      moreover have "\<exists>n more. forward_scan (\<lambda>a b. between a b es) limit high st'
          = Inr \<lparr>sl_events = between after n es, sl_has_more = more, sl_next_after_seq = Some n\<rparr>
        \<and> after < n \<and> (\<not> more \<longrightarrow> n = high) \<and> n \<le> high"
        by (rule "1.hyps" [OF step]) (use 3 False e "1.prems"(1,4) in \<open>simp_all add: st'_def\<close>)
      ultimately show ?thesis by simp
    qed
  qed
qed

section \<open>Tail walks\<close>

lemma push_until_eq:
  assumes "int (length events) < limit"
  shows "push_until limit events es = (take (nat limit) (events @ es), limit \<le> int (length events + length es))"
  using assms
proof (induction limit events es rule: push_until.induct)
  case (2 limit events e es)
  then show ?case by (cases "limit = int (length events) + 1") (auto simp: nat_add_distrib)
qed auto

text \<open>The walk returns, with the newest events up to the limit unless it says that older ones may remain.\<close>

lemma tail_scan_newest:
  assumes asc: "ascending es" and range: "\<And>e. e \<in> set es \<Longrightarrow> low \<le> je_seq e \<and> je_seq e \<le> high"
    and events: "events = rev (between upper high es)" "int (length events) < limit"
    and st: "upper \<le> high" "1 \<le> span" "examined < SCOPED_SCAN_LIMIT"
  shows "\<exists>b. tail_scan (\<lambda>a b. rev (between a b es)) limit low events upper span examined
        = Some \<lparr>sl_events = take (nat limit) (rev es), sl_has_more = False, sl_next_after_seq = None\<rparr>
    \<or> tail_scan (\<lambda>a b. rev (between a b es)) limit low events upper span examined
        = Some \<lparr>sl_events = rev (between b high es), sl_has_more = True, sl_next_after_seq = None\<rparr>
      \<and> int (length (between b high es)) < limit \<and> low \<le> b"
  using events st
proof (induction "nat (upper - low + 1)" arbitrary: events upper span examined rule: less_induct)
  case less
  let ?scan = "tail_scan (\<lambda>a b. rev (between a b es)) limit low"
  have all: "between (low - 1) high es = es" using range by (force simp: between_def filter_id_conv)
  show ?case
  proof (cases "upper < low")
    case True
    then have "between upper high es = es" using range by (force simp: between_def filter_id_conv)
    then show ?thesis using less.prems(1,2) True by (subst (1) tail_scan.simps) simp
  next
    case False
    define l where "l = window_bottom low upper span examined"
    have l: "low - 1 \<le> l" "l < upper" using less.prems(4,5) False by (auto simp: l_def window_bottom_def)
    have cat: "events @ rev (between l upper es) = rev (between l high es)"
      unfolding less.prems(1) using l less.prems(3) between_append [OF asc, of l upper high] by simp
    have push: "push_until limit events (rev (between l upper es))
        = (take (nat limit) (rev (between l high es)), limit \<le> int (length (between l high es)))"
      unfolding push_until_eq [OF less.prems(2)] cat using arg_cong [OF cat, of length] by simp
    have scan: "?scan events upper span examined =
       (if limit \<le> int (length (between l high es))
        then Some \<lparr>sl_events = take (nat limit) (rev (between l high es)), sl_has_more = False, sl_next_after_seq = None\<rparr>
        else if low \<le> l \<and> SCOPED_SCAN_LIMIT \<le> examined + (upper - l)
        then Some \<lparr>sl_events = rev (between l high es), sl_has_more = True, sl_next_after_seq = None\<rparr>
        else ?scan (rev (between l high es)) l (min (span * 2) SCOPED_SCAN_MAX_SPAN) (examined + (upper - l)))"
      using False by (subst tail_scan.simps) (simp add: Let_def l_def [symmetric] push)
    consider "limit \<le> int (length (between l high es))"
      | "int (length (between l high es)) < limit" "low \<le> l" "SCOPED_SCAN_LIMIT \<le> examined + (upper - l)"
      | "int (length (between l high es)) < limit" "l < low"
      | "int (length (between l high es)) < limit" "low \<le> l" "examined + (upper - l) < SCOPED_SCAN_LIMIT" by linarith
    then show ?thesis
    proof cases
      case 1
      have "es = between (low - 1) l es @ between l high es"
        using between_append [OF asc, of "low - 1" l high] l less.prems(3) all by simp
      then have "rev es = rev (between l high es) @ rev (between (low - 1) l es)" by (metis rev_append)
      then have "take (nat limit) (rev es) = take (nat limit) (rev (between l high es))" using 1 by simp
      then show ?thesis using scan 1 by simp
    next
      case 2
      then show ?thesis using scan by (intro exI [of _ l]) simp
    next
      case 3
      then have "between l high es = es" using range by (force simp: between_def filter_id_conv)
      then show ?thesis using scan 3 by (subst scan, subst tail_scan.simps) simp
    next
      case 4
      have "nat (l - low + 1) < nat (upper - low + 1)" using l False by simp
      from less.hyps [OF this refl] 4 l less.prems(3,4) scan show ?thesis
        by (simp add: SCOPED_SCAN_MAX_SPAN_def)
    qed
  qed
qed

section \<open>What the restricted journal promises\<close>

lemma target_format: "recordResourceTarget r = Some (ty, key) \<Longrightarrow> r = formatRecordResource ty key"
proof -
  assume a: "recordResourceTarget r = Some (ty, key)"
  define rest where "rest = drop 7 r"
  have pre: "prefix ''record:'' r" and ty: "ty = takeWhile (\<lambda>c. c \<noteq> CHR ''/'') rest" "ty \<noteq> rest"
    and key: "key = drop (length ty + 1) rest"
    using a by (auto simp: recordResourceTarget_def rest_def Let_def split: if_splits)
  have "r = ''record:'' @ rest" using pre by (auto simp: prefix_def rest_def)
  moreover obtain c cs where cs: "dropWhile (\<lambda>c. c \<noteq> CHR ''/'') rest = c # cs"
    using ty takeWhile_dropWhile_id [of "\<lambda>c. c \<noteq> CHR ''/''" rest]
    by (cases "dropWhile (\<lambda>c. c \<noteq> CHR ''/'') rest") auto
  moreover have "c = CHR ''/''" using hd_dropWhile [of "\<lambda>c. c \<noteq> CHR ''/''" rest] cs by simp
  moreover have rest: "rest = ty @ c # cs" using takeWhile_dropWhile_id [of "\<lambda>c. c \<noteq> CHR ''/''" rest] cs ty(1) by simp
  moreover have "key = cs" using key rest by simp
  ultimately show ?thesis by (simp add: formatRecordResource_def)
qed

lemma sorted_rows_filter: "sort_key k (filter P xs) = filter P (sort_key k xs)"
  by (rule filter_sort [symmetric])

text \<open>The rows of the journal that a credential may read, oldest first.\<close>

definition readable_rows :: "db \<Rightarrow> credential_policy \<Rightarrow> journal_row list" where
  "readable_rows s p = sort_key jo_seq (filter (\<lambda>r. event_readable s p (journalRowToEvent r)) (db_journal s))"

lemma readable_of_rows: "readable s p q = map journalRowToEvent (filter (journalFilterConditions
    (q\<lparr>jq_kind := Some (Many (scoped_kinds q)), jq_after_seq := None\<rparr>)) (readable_rows s p))"
  by (simp add: readable_def readable_rows_def filter_map sorted_rows_filter comp_def conj_commute)

lemma readable_after [simp]: "readable s p (q\<lparr>jq_after_seq := n\<rparr>) = readable s p q"
  by (simp add: readable_def scoped_kinds_def)

text \<open>Every event that the filter lets through was judged by the rules of the other listings against the
  current tasks: an event about a task needs \<open>tasks:read\<close> and a task that exists and that the task listing
  keeps; an event about a record needs \<open>records:read\<close> and a record that the read side admits; an event about a
  claim needs \<open>claims:read\<close>; a payload holds nothing but the fields of its kind. Events of any other
  kind are never shown, and the result is a sublist in the given order.\<close>

theorem disclosed_events_judged:
  assumes "distinct (map en_id (db_entities s))" and "e \<in> set (visibleJournalEvents s p events)"
  shows "je_kind e \<in> set SCOPED_JOURNAL_KINDS
    \<and> payloadAllowed (je_kind e) (je_data e)
    \<and> (je_kind e \<in> set ENTITY_KINDS \<longrightarrow> ''tasks:read'' \<in> set (cp_capabilities p)
        \<and> (\<exists>x. by_key en_id (je_resource e) (db_entities s) = Some x \<and> taskRestrictionCondition s (cp_restrictions p) x))
    \<and> (je_kind e \<in> set RECORD_KINDS \<longrightarrow> ''records:read'' \<in> set (cp_capabilities p)
        \<and> (\<exists>ty key. je_resource e = formatRecordResource ty key \<and> permitsRecordRead (cp_restrictions p) ty key))
    \<and> (je_kind e \<in> set CLAIM_KINDS \<longrightarrow> ''claims:read'' \<in> set (cp_capabilities p))
    \<and> subseq (visibleJournalEvents s p events) events"
proof -
  have e: "event_readable s p e" using assms(2) by (simp add: visible_is_filter [OF assms(1)])
  obtain x where x: "subjectOf p e = Some x" using e by (auto simp: event_readable_def subject_visible_def split: option.splits)
  have judged: "payloadAllowed (je_kind e) (je_data e)" "je_kind e \<in> set SCOPED_JOURNAL_KINDS"
    "je_kind e \<in> set ENTITY_KINDS \<Longrightarrow> ''tasks:read'' \<in> set (cp_capabilities p) \<and> x = Task_subject (je_resource e) None"
    "je_kind e \<in> set CLAIM_KINDS \<Longrightarrow> ''claims:read'' \<in> set (cp_capabilities p)"
    "je_kind e \<in> set RECORD_KINDS \<Longrightarrow> ''records:read'' \<in> set (cp_capabilities p)
       \<and> (\<exists>ty key. recordResourceTarget (je_resource e) = Some (ty, key) \<and> x = Record_subject ty key None)"
    using x by (auto simp: subjectOf_def Let_def SCOPED_JOURNAL_KINDS_def ENTITY_KINDS_def CLAIM_KINDS_def RECORD_KINDS_def
        split: if_splits option.splits)
  have "\<exists>y. by_key en_id (je_resource e) (db_entities s) = Some y \<and> taskRestrictionCondition s (cp_restrictions p) y"
    if "je_kind e \<in> set ENTITY_KINDS"
    using e x judged(3) [OF that] task_condition [OF assms(1)]
    by (fastforce simp: event_readable_def subject_visible_def)
  moreover have "\<exists>ty key. je_resource e = formatRecordResource ty key \<and> permitsRecordRead (cp_restrictions p) ty key"
    if rk: "je_kind e \<in> set RECORD_KINDS"
  proof -
    obtain ty key where t: "recordResourceTarget (je_resource e) = Some (ty, key)" "x = Record_subject ty key None"
      using judged(5) [OF rk] by blast
    then have "je_resource e = formatRecordResource ty key" by (intro target_format)
    moreover have "permitsRecordRead (cp_restrictions p) ty key"
      using e x t(2) by (simp add: event_readable_def subject_visible_def permitsRecordRead_def)
    ultimately show ?thesis by blast
  qed
  moreover have "subseq (visibleJournalEvents s p events) events"
    by (simp add: visible_is_filter [OF assms(1)])
  ultimately show ?thesis using judged by blast
qed

text \<open>C32. Hidden events do not show: two projects with the same ends of the sequence and the same readable
  rows answer every restricted listing alike, forward and backward, with the same page, cursor and
  flag, whatever the hidden rows between are and however many they are.\<close>

theorem hidden_events_do_not_show:
  assumes "distinct (map en_id (db_entities s))" and "distinct (map en_id (db_entities t))"
    and "readable_rows s p = readable_rows t p"
    and "db_journal s \<noteq> [] \<and> db_journal t \<noteq> []"
    and "Min (jo_seq ` set (db_journal s)) = Min (jo_seq ` set (db_journal t))"
    and "Max (jo_seq ` set (db_journal s)) = Max (jo_seq ` set (db_journal t))"
  shows "listScopedJournal s p q watermark = listScopedJournal t p q watermark"
proof -
  have "readWindow s p q (scoped_kinds q) a b newest = readWindow t p q (scoped_kinds q) a b newest" for a b newest
    using assms(3) by (cases newest) (simp_all add: window_readable assms(1,2) readable_of_rows)
  then have "readWindow s p q (scoped_kinds q) = readWindow t p q (scoped_kinds q)" by blast
  then show ?thesis using assms(4-6) by (simp add: listScopedJournal_def Let_def split: option.split)
qed

text \<open>A client that follows the cursors, with the watermark of the archive; the number bounds its requests.\<close>

fun follow_journal :: "nat \<Rightarrow> db \<Rightarrow> credential_policy \<Rightarrow> journal_query \<Rightarrow> int option \<Rightarrow> int \<Rightarrow> journal_event list option" where
  "follow_journal 0 s p q w n = None"
| "follow_journal (Suc k) s p q w n = (case listScopedJournal s p (q\<lparr>jq_after_seq := Some n\<rparr>) w of
      Some (Inr l) \<Rightarrow> (if sl_has_more l
        then (case sl_next_after_seq l of None \<Rightarrow> None
          | Some m \<Rightarrow> map_option (\<lambda>rest. sl_events l @ rest) (follow_journal k s p q w m))
        else Some (sl_events l))
    | _ \<Rightarrow> None)"

lemma readable_rows_seq: "e \<in> set (readable s p q) \<Longrightarrow> je_seq e \<in> jo_seq ` set (db_journal s)"
  by (auto simp: readable_def)

lemma readable_no_kinds: "scoped_kinds q = [] \<Longrightarrow> readable s p q = []"
  by (auto simp: readable_def journalFilterConditions_def selects_def)

lemma readable_range:
  "e \<in> set (readable s p q) \<Longrightarrow> Min (jo_seq ` set (db_journal s)) \<le> je_seq e \<and> je_seq e \<le> Max (jo_seq ` set (db_journal s))"
  using readable_rows_seq [of e s p q] by simp

lemma scoped_request:
  assumes ids: "distinct (map en_id (db_entities s))" "distinct (map jo_seq (db_journal s))"
    and limit: "case jq_limit q of None \<Rightarrow> True | Some l \<Rightarrow> 1 \<le> l" and ahead: "\<not> behind_watermark (Some n) w"
  obtains m more where "listScopedJournal s p (q\<lparr>jq_after_seq := Some n\<rparr>) w
      = Some (Inr \<lparr>sl_events = between n m (readable s p q), sl_has_more = more, sl_next_after_seq = Some m\<rparr>)"
    and "more \<Longrightarrow> n < m \<and> m \<le> Max (jo_seq ` set (db_journal s))"
    and "\<not> more \<Longrightarrow> between n m (readable s p q) = filter (\<lambda>e. n < je_seq e) (readable s p q)"
proof -
  note request = that
  let ?q = "q\<lparr>jq_after_seq := Some n\<rparr>" and ?es = "readable s p q"
  let ?low = "Min (jo_seq ` set (db_journal s))" and ?high = "Max (jo_seq ` set (db_journal s))"
  have kinds: "scoped_kinds ?q = scoped_kinds q" by (simp add: scoped_kinds_def)
  have none: thesis if "listScopedJournal s p ?q w = Some (Inr \<lparr>sl_events = [], sl_has_more = False, sl_next_after_seq = Some n\<rparr>)"
    "\<And>e. e \<in> set ?es \<Longrightarrow> je_seq e \<le> n"
  proof (rule request [of n False])
    have "between n n ?es = []" "filter (\<lambda>e. n < je_seq e) ?es = []" using that(2) by (auto simp: between_def filter_empty_conv not_less)
    then show "listScopedJournal s p ?q w
        = Some (Inr \<lparr>sl_events = between n n ?es, sl_has_more = False, sl_next_after_seq = Some n\<rparr>)"
      "between n n ?es = filter (\<lambda>e. n < je_seq e) ?es" using that(1) by simp_all
  qed simp
  show thesis
  proof (cases "db_journal s = [] \<or> scoped_kinds q = [] \<or> ?high \<le> n")
    case True
    then show thesis
    proof (elim disjE, goal_cases)
      case 1
      then show ?case using none by (simp add: listScopedJournal_def ahead readable_def Let_def)
    next
      case 2
      then show ?case using none by (simp add: listScopedJournal_def ahead kinds readable_no_kinds Let_def)
    next
      case 3
      then have "je_seq e \<le> n" if "e \<in> set ?es" for e using readable_range [OF that] by simp
      then show ?case using none 3 by (simp add: listScopedJournal_def ahead Let_def)
    qed
  next
    case False
    let ?st = "startScan (max n (?low - 1))"
    have "?low \<le> ?high" using False by (intro Min.coboundedI Max_in) auto
    then have low: "?low - 1 < ?high" by simp
    have empty: "between n (max n (?low - 1)) ?es = []"
      using readable_range [of _ s p q] by (fastforce simp: between_def filter_empty_conv)
    have "\<exists>m more. forward_scan (\<lambda>a b. between a b ?es) (case jq_limit q of None \<Rightarrow> 100 | Some l \<Rightarrow> l) ?high ?st
        = Inr \<lparr>sl_events = between n m ?es, sl_has_more = more, sl_next_after_seq = Some m\<rparr>
      \<and> n < m \<and> (\<not> more \<longrightarrow> m = ?high) \<and> m \<le> ?high"
      using limit False low
      by (intro forward_scan_page readable_ascending ids(2)) (simp_all add: startScan_def empty split: option.splits)
    then obtain m more where scan: "forward_scan (\<lambda>a b. between a b ?es) (case jq_limit q of None \<Rightarrow> 100 | Some l \<Rightarrow> l) ?high ?st
        = Inr \<lparr>sl_events = between n m ?es, sl_has_more = more, sl_next_after_seq = Some m\<rparr>"
      and m: "n < m" "\<not> more \<Longrightarrow> m = ?high" "m \<le> ?high" by blast
    have "listScopedJournal s p ?q w
        = Some (Inr \<lparr>sl_events = between n m ?es, sl_has_more = more, sl_next_after_seq = Some m\<rparr>)"
      using False window_readable(1) [OF ids(1), of p ?q]
      by (simp add: listScopedJournal_def ahead Let_def kinds scan)
    moreover have "between n m ?es = filter (\<lambda>e. n < je_seq e) ?es" if "\<not> more"
      using m(2) [OF that] readable_range [of _ s p q] by (auto simp: between_def intro!: filter_cong)
    ultimately show thesis using m request by blast
  qed
qed

text \<open>C33. Following the cursors of a restricted listing ends and misses nothing. A client that starts after any
  sequence not below the watermark of the archive, and asks for pages of at least one event, gets, after at most
  one request for each sequence between its start and the newest and one more, exactly the readable events after
  its start that match its query, each once and in order; no request throws. A start below the watermark is
  answered with no events, more to come, the cursor unmoved and the indicator of the archive, however often it
  asks. A listing without a cursor returns too, with the newest readable events up to the limit unless it says
  that older ones may remain.\<close>

theorem journal_walk_complete:
  assumes "distinct (map en_id (db_entities s))" and "distinct (map jo_seq (db_journal s))"
    and "case jq_limit q of None \<Rightarrow> True | Some l \<Rightarrow> 1 \<le> l"
  shows "(if behind_watermark (Some n) w
      then listScopedJournal s p (q\<lparr>jq_after_seq := Some n\<rparr>) w
          = Some (Inr \<lparr>sl_events = [], sl_has_more = True, sl_next_after_seq = Some n\<rparr>)
        \<and> fst (journalArchiveState (Some n) w)
      else follow_journal (Suc (nat (Max (jo_seq ` set (db_journal s)) - n))) s p q w n
        = Some (filter (\<lambda>e. n < je_seq e) (readable s p q)))
    \<and> (\<exists>l. listScopedJournal s p (q\<lparr>jq_after_seq := None\<rparr>) w = Some (Inr l)
        \<and> (\<not> sl_has_more l \<longrightarrow> sl_events l
            = take (nat (case jq_limit q of None \<Rightarrow> 100 | Some l \<Rightarrow> l)) (rev (readable s p q))))"
proof
  let ?high = "Max (jo_seq ` set (db_journal s))" and ?es = "readable s p q"
  have walk: "follow_journal (Suc k) s p q w n = Some (filter (\<lambda>e. n < je_seq e) ?es)"
    if "nat (?high - n) \<le> k" "\<not> behind_watermark (Some n) w" for k
    using that
  proof (induction k arbitrary: n)
    case (0 n)
    obtain m more where m: "listScopedJournal s p (q\<lparr>jq_after_seq := Some n\<rparr>) w
        = Some (Inr \<lparr>sl_events = between n m ?es, sl_has_more = more, sl_next_after_seq = Some m\<rparr>)"
      "more \<Longrightarrow> n < m \<and> m \<le> ?high" "\<not> more \<Longrightarrow> between n m ?es = filter (\<lambda>e. n < je_seq e) ?es"
      using scoped_request [OF assms 0(2)] by blast
    with 0 show ?case by auto
  next
    case (Suc k n)
    obtain m more where m: "listScopedJournal s p (q\<lparr>jq_after_seq := Some n\<rparr>) w
        = Some (Inr \<lparr>sl_events = between n m ?es, sl_has_more = more, sl_next_after_seq = Some m\<rparr>)"
      "more \<Longrightarrow> n < m \<and> m \<le> ?high" "\<not> more \<Longrightarrow> between n m ?es = filter (\<lambda>e. n < je_seq e) ?es"
      using scoped_request [OF assms Suc.prems(2)] by blast
    show ?case
    proof (cases more)
      case True
      with m(2) have nm: "n < m" by blast
      with Suc.prems have "nat (?high - m) \<le> k" "\<not> behind_watermark (Some m) w"
        by (auto simp: behind_watermark_def split: option.splits)
      then have rest: "follow_journal (Suc k) s p q w m = Some (filter (\<lambda>e. m < je_seq e) ?es)" by (rule Suc.IH)
      obtain h where h: "\<And>e. e \<in> set ?es \<Longrightarrow> je_seq e \<le> h" "m \<le> h"
        using readable_range [of _ s p q] m(2) [OF True] by blast
      have tail: "filter (\<lambda>e. x < je_seq e) ?es = between x h ?es" for x
        using h(1) by (auto simp: between_def intro!: filter_cong)
      have "between n m ?es @ filter (\<lambda>e. m < je_seq e) ?es = filter (\<lambda>e. n < je_seq e) ?es"
        unfolding tail using between_append [OF readable_ascending [OF assms(2)], of n m h] nm h(2) by simp
      then show ?thesis using True rest m(1)
        by (subst follow_journal.simps(2)) (simp del: follow_journal.simps)
    next
      case False
      then show ?thesis using m by simp
    qed
  qed
  then show "if behind_watermark (Some n) w
      then listScopedJournal s p (q\<lparr>jq_after_seq := Some n\<rparr>) w
          = Some (Inr \<lparr>sl_events = [], sl_has_more = True, sl_next_after_seq = Some n\<rparr>)
        \<and> fst (journalArchiveState (Some n) w)
      else follow_journal (Suc (nat (?high - n))) s p q w n = Some (filter (\<lambda>e. n < je_seq e) ?es)"
    by (simp add: listScopedJournal_def journalArchiveState_def del: follow_journal.simps)
  let ?q = "q\<lparr>jq_after_seq := None\<rparr>" and ?limit = "case jq_limit q of None \<Rightarrow> 100 | Some l \<Rightarrow> l"
  have kinds: "scoped_kinds ?q = scoped_kinds q" by (simp add: scoped_kinds_def)
  show "\<exists>l. listScopedJournal s p ?q w = Some (Inr l)
      \<and> (\<not> sl_has_more l \<longrightarrow> sl_events l = take (nat ?limit) (rev ?es))"
  proof (cases "db_journal s = [] \<or> scoped_kinds q = []")
    case True
    then have "?es = []" using readable_no_kinds [of q s p] by (auto simp: readable_def)
    with True show ?thesis by (auto simp: listScopedJournal_def behind_watermark_def kinds Let_def)
  next
    case False
    have start: "[] = rev (between ?high ?high ?es)" by (simp add: between_def)
    have "0 < ?limit" using assms(3) by (simp split: option.splits)
    then have "\<exists>b. tail_scan (\<lambda>a b. rev (between a b ?es)) ?limit (Min (jo_seq ` set (db_journal s))) [] ?high SCOPED_SCAN_FIRST_SPAN 0
          = Some \<lparr>sl_events = take (nat ?limit) (rev ?es), sl_has_more = False, sl_next_after_seq = None\<rparr>
        \<or> tail_scan (\<lambda>a b. rev (between a b ?es)) ?limit (Min (jo_seq ` set (db_journal s))) [] ?high SCOPED_SCAN_FIRST_SPAN 0
          = Some \<lparr>sl_events = rev (between b ?high ?es), sl_has_more = True, sl_next_after_seq = None\<rparr>
        \<and> int (length (between b ?high ?es)) < ?limit \<and> Min (jo_seq ` set (db_journal s)) \<le> b"
      by (intro tail_scan_newest readable_ascending assms(2) readable_range start)
        (simp_all add: SCOPED_SCAN_FIRST_SPAN_def SCOPED_SCAN_LIMIT_def)
    then show ?thesis
      using False window_readable(2) [OF assms(1), of p ?q]
      by (auto simp: listScopedJournal_def behind_watermark_def Let_def kinds)
  qed
qed

definition journal_query_all :: journal_query where
  "journal_query_all = \<lparr>jq_resource = None, jq_kind = None, jq_client_name = None, jq_event_name = None,
     jq_correlation_id = None, jq_after_seq = None, jq_limit = Some 1\<rparr>"

definition journal_sample :: "int \<Rightarrow> string \<Rightarrow> string \<Rightarrow> journal_row" where
  "journal_sample n k r = \<lparr>jo_seq = n, jo_t = n, jo_kind = k, jo_resource = r, jo_principal_id = Some ''p'',
     jo_participant_id = Some ''p'', jo_environment = [], jo_actor = [], jo_token_id = None, jo_fence = None, jo_data = [],
     jo_source = None, jo_source_version = None\<rparr>"

text \<open>A journal with two readable events, and one that differs in what is hidden.\<close>

definition journal_db :: "journal_row list \<Rightarrow> db" where
  "journal_db hidden = access_db\<lparr>db_journal := [journal_sample 1 ''gate.created'' ''g'',
     journal_sample 2 ''entity.created'' ''c''] @ hidden @ [journal_sample 9 ''record.created'' ''record:note/a/1'']\<rparr>"

lemma journal_db_facts:
  "distinct (map en_id (db_entities (journal_db [])))"
  "distinct (map en_id (db_entities (journal_db [journal_sample 5 ''entity.updated'' ''e''])))"
  "distinct (map jo_seq (db_journal (journal_db [])))"
  "map je_seq (visibleJournalEvents (journal_db []) scoped_run (map journalRowToEvent (db_journal (journal_db [])))) = [2, 9]"
  by code_simp+

lemma journal_db_rows:
  "readable_rows (journal_db []) scoped_run = readable_rows (journal_db [journal_sample 5 ''entity.updated'' ''e'']) scoped_run"
  by code_simp

theorem disclosed_events_judged_witness:
  "\<exists>e \<in> set (visibleJournalEvents (journal_db []) scoped_run (map journalRowToEvent (db_journal (journal_db [])))).
     je_seq e = 2 \<and> je_kind e \<in> set SCOPED_JOURNAL_KINDS"
proof -
  have "2 \<in> set (map je_seq (visibleJournalEvents (journal_db []) scoped_run
      (map journalRowToEvent (db_journal (journal_db [])))))"
    by (simp add: journal_db_facts(4))
  then obtain e where "e \<in> set (visibleJournalEvents (journal_db []) scoped_run
      (map journalRowToEvent (db_journal (journal_db []))))" "je_seq e = 2" by auto
  then show ?thesis using disclosed_events_judged [OF journal_db_facts(1)] by blast
qed

theorem hidden_events_do_not_show_witness:
  "listScopedJournal (journal_db []) scoped_run journal_query_all None
   = listScopedJournal (journal_db [journal_sample 5 ''entity.updated'' ''e'']) scoped_run journal_query_all None"
  by (rule hidden_events_do_not_show [OF journal_db_facts(1,2) journal_db_rows])
    (simp_all add: journal_db_def journal_sample_def)

theorem journal_walk_complete_witness:
  "map_option (map je_seq) (follow_journal 10 (journal_db []) scoped_run journal_query_all (Some 0) 0)
     = Some (map je_seq (readable (journal_db []) scoped_run journal_query_all))
   \<and> map je_seq (readable (journal_db []) scoped_run journal_query_all) = [2, 9]
   \<and> fst (journalArchiveState (Some 0) (Some 1))"
proof -
  have limit: "case jq_limit journal_query_all of None \<Rightarrow> True | Some l \<Rightarrow> 1 \<le> l" by code_simp
  have bound: "Suc (nat (Max (jo_seq ` set (db_journal (journal_db []))) - 0)) = 10"
    by (simp add: journal_db_def journal_sample_def)
  have "filter (\<lambda>e. 0 < je_seq e) (readable (journal_db []) scoped_run journal_query_all)
      = readable (journal_db []) scoped_run journal_query_all"
    "map je_seq (readable (journal_db []) scoped_run journal_query_all) = [2, 9]" by code_simp+
  moreover have at: "\<not> behind_watermark (Some 0) (Some 0)" "behind_watermark (Some 0) (Some 1)" by (simp_all add: behind_watermark_def)
  moreover have "follow_journal 10 (journal_db []) scoped_run journal_query_all (Some 0) 0
      = Some (filter (\<lambda>e. 0 < je_seq e) (readable (journal_db []) scoped_run journal_query_all))"
    using conjunct1 [OF journal_walk_complete [OF journal_db_facts(1,3) limit, of 0 "Some 0" scoped_run]] at(1)
    unfolding bound by (simp del: follow_journal.simps)
  moreover have "fst (journalArchiveState (Some 0) (Some 1))"
    using conjunct1 [OF journal_walk_complete [OF journal_db_facts(1,3) limit, of 0 "Some 1" scoped_run]] at(2)
    by (simp del: follow_journal.simps)
  ultimately show ?thesis by (simp del: follow_journal.simps)
qed

end
