(* ===== verification/Records.thy ===== *)
theory Records
  imports Access Coordination
begin

text \<open>
  Records: \<^verbatim>\<open>packages/ops-sqlite/src/record-ops.ts\<close>, with the names of \<^verbatim>\<open>schemas/src/record.ts\<close> and the part of
  \<^verbatim>\<open>artifact-ops.ts\<close> that stores a snapshot. A record is a JSON object under a type and a key; every write
  bumps its revision and the fence of its resource and leaves a revision row. \<open>sha256\<close> is the digest of a text.
  Merge patches, the text for the search index and the JSON values are functions of the value alone. A member
  named \<^verbatim>\<open>__proto__\<close> is an ordinary one here.
\<close>

section \<open>Names\<close>

definition lower_letter :: "char \<Rightarrow> bool" where
  "lower_letter c \<longleftrightarrow> 97 \<le> (of_char c :: nat) \<and> (of_char c :: nat) \<le> 122"

definition letter :: "char \<Rightarrow> bool" where
  "letter c \<longleftrightarrow> lower_letter c \<or> (65 \<le> (of_char c :: nat) \<and> (of_char c :: nat) \<le> 90)"

definition record_type_ok :: "string \<Rightarrow> bool" where
  "record_type_ok ty \<longleftrightarrow> ty \<noteq> [] \<and> lower_letter (hd ty)
     \<and> list_all (\<lambda>c. lower_letter c \<or> digit c \<or> c \<in> set ''_-'') (tl ty)"

definition record_segment_ok :: "string \<Rightarrow> bool" where
  "record_segment_ok seg \<longleftrightarrow> length seg \<le> 64 \<and> seg \<noteq> ''.'' \<and> seg \<noteq> ''..''
     \<and> \<not> (prefix ''.'' seg \<or> prefix ''_'' seg) \<and> CHR ''~'' \<notin> set seg \<and> CHR '':'' \<notin> set seg
     \<and> seg \<noteq> [] \<and> (letter (hd seg) \<or> digit (hd seg))
     \<and> list_all (\<lambda>c. letter c \<or> digit c \<or> c \<in> set ''_.-'') (tl seg)"

definition record_key_ok :: "string \<Rightarrow> bool" where
  "record_key_ok key \<longleftrightarrow> key \<noteq> [] \<and> length key \<le> 256
     \<and> list_all (\<lambda>seg. seg \<noteq> []) (split_parts CHR ''/'' key) \<and> length (split_parts CHR ''/'' key) \<le> 8
     \<and> list_all record_segment_ok (split_parts CHR ''/'' key)"

section \<open>Values\<close>

text \<open>The strings of a value in document order, joined by newlines and capped.\<close>

fun collect_strings :: "json \<Rightarrow> string list" where
  "collect_strings (JStr x) = [x]"
| "collect_strings (JArr xs) = concat (map collect_strings xs)"
| "collect_strings (JObj kvs) = concat (map (\<lambda>(k, v). collect_strings v) kvs)"
| "collect_strings v = []"

definition extractSearchText :: "jobj \<Rightarrow> string" where
  "extractSearchText value = take 65536 (join_with (char_of (10::nat)) (collect_strings (JObj value)))"

lemma extractSearchText_code [code]:
  "extractSearchText value = (let t = join_with (char_of (10::nat)) (collect_strings (JObj value)) in
     if int (length t) \<le> 65536 then t else take 65536 t)"
  by (simp add: extractSearchText_def Let_def)

text \<open>\<open>delete result[key]\<close> and the merge of a patch.\<close>

definition obj_delete :: "string \<Rightarrow> jobj \<Rightarrow> jobj" where
  "obj_delete k ob = filter (\<lambda>(k', v). k' \<noteq> k) ob"

fun is_object :: "json \<Rightarrow> bool" where
  "is_object (JObj kvs) = True"
| "is_object v = False"

fun entries :: "json \<Rightarrow> jobj" where
  "entries (JObj kvs) = kvs"
| "entries v = []"

lemma entries_size: "is_object v \<Longrightarrow> size_list (size_prod (\<lambda>x. 0) size) (entries v) < size v"
  by (cases v) auto

function mergePatch :: "jobj \<Rightarrow> jobj \<Rightarrow> jobj" where
  "mergePatch result [] = result"
| "mergePatch result ((k, v) # rest) = mergePatch
    (if v = JNull then obj_delete k result
     else case obj_get k result of
         None \<Rightarrow> obj_set k v result
       | Some old \<Rightarrow> if is_object v \<and> is_object old then obj_set k (JObj (mergePatch (entries old) (entries v))) result
           else obj_set k v result) rest"
  by pat_completeness auto
termination
  by (relation "measure (\<lambda>(result, patch). size_list (size_prod (\<lambda>x. 0) size) patch)")
    (auto dest: entries_size)

text \<open>\<open>name in value\<close> also finds what every object inherits.\<close>

definition OBJECT_PROTOTYPE :: "string list" where
  "OBJECT_PROTOTYPE = [''constructor'', ''__defineGetter__'', ''__defineSetter__'', ''hasOwnProperty'',
     ''__lookupGetter__'', ''__lookupSetter__'', ''isPrototypeOf'', ''propertyIsEnumerable'', ''toString'',
     ''valueOf'', ''__proto__'', ''toLocaleString'']"

definition js_in :: "string \<Rightarrow> jobj \<Rightarrow> bool" where
  "js_in name value \<longleftrightarrow> obj_has name value \<or> name \<in> set OBJECT_PROTOTYPE"

text \<open>The missing required fields; the value is valid if there is none. A field is its name and whether it is
  required.\<close>

definition validateRecordValue :: "jobj \<Rightarrow> (string \<times> bool) list \<Rightarrow> string list" where
  "validateRecordValue value decls = map fst (filter (\<lambda>(name, required). required \<and> \<not> js_in name value) decls)"

text \<open>The value whose text is the canonical JSON.\<close>

definition canonical_value :: "jobj \<Rightarrow> jobj" where
  "canonical_value value = entries (sortKeysDeep (JObj value))"

section \<open>Tables\<close>

definition records :: "db \<Rightarrow> record_row list" where
  "records s = lb_records (db_library s)"

definition record_revisions :: "db \<Rightarrow> record_revision_row list" where
  "record_revisions s = lb_revisions (db_library s)"

definition record_tags :: "db \<Rightarrow> record_tag_row list" where
  "record_tags s = lb_tags (db_library s)"

definition search_docs :: "db \<Rightarrow> record_search_doc_row list" where
  "search_docs s = lb_search_docs (db_library s)"

definition rd_id :: "record_row \<Rightarrow> string \<times> string" where
  "rd_id r = (rd_type r, rd_key r)"

definition rv_id :: "record_revision_row \<Rightarrow> (string \<times> string) \<times> int" where
  "rv_id r = ((rv_type r, rv_key r), rv_revision r)"

definition rsd_id :: "record_search_doc_row \<Rightarrow> string \<times> string" where
  "rsd_id d = (rsd_type d, rsd_key d)"

definition find_record :: "db \<Rightarrow> string \<Rightarrow> string \<Rightarrow> record_row option" where
  "find_record s ty key = by_key rd_id (ty, key) (records s)"

definition insert_record :: "record_row \<Rightarrow> unit ptx" where
  "insert_record r = tx_bind (tx_read (\<lambda>s. rows_insert rd_id r (records s))) (\<lambda>t. case t of
      None \<Rightarrow> tx_throw (RecordAlreadyExistsError (rd_type r) (rd_key r))
    | Some rows \<Rightarrow> tx_write (set_library (\<lambda>l. l\<lparr>lb_records := rows\<rparr>)))"

definition update_record :: "string \<Rightarrow> string \<Rightarrow> (record_row \<Rightarrow> record_row) \<Rightarrow> unit ptx" where
  "update_record ty key f = tx_write (set_library (\<lambda>l. l\<lparr>lb_records := rows_set (\<lambda>r. rd_id r = (ty, key)) f (lb_records l)\<rparr>))"

section \<open>Shared steps of a write\<close>

definition bumpFence :: "string \<Rightarrow> int ptx" where
  "bumpFence resource = tx_seq (tx_write (bump_fence resource))
     (tx_read (\<lambda>s. case lookupFence s resource of Some f \<Rightarrow> fe_current_fence f | None \<Rightarrow> 1))"

text \<open>Artifact pointers of snapshots. The resource must name an existing record under valid names; a pointer that
  exists is kept and no event is journalled again.\<close>

definition resolve_snapshot_resource :: "db \<Rightarrow> string \<Rightarrow> error + string" where
  "resolve_snapshot_resource s resource = (case parseRecordResource resource of
       None \<Rightarrow> Inl ArtifactResourceError
     | Some (ty, key) \<Rightarrow>
         if record_type_ok ty \<and> record_key_ok key \<and> find_record s ty key \<noteq> None then Inr resource
         else Inl ArtifactResourceError)"

definition provenanceFromOrigin :: "request_origin \<Rightarrow> int \<Rightarrow> json" where
  "provenanceFromOrigin orig now = JObj
    [(''principal_id'', JStr (or_principalId orig)), (''participant_id'', JStr (or_participantId orig)),
     (''created_at'', JNum now), (''environment'', JObj (or_environment orig)),
     (''client_name'', case obj_get ''client_name'' (or_environment orig) of Some v \<Rightarrow> (if v = JNull then jnullable JStr (or_source orig) else v)
        | None \<Rightarrow> jnullable JStr (or_source orig)),
     (''client_version'', case obj_get ''client_version'' (or_environment orig) of
          Some v \<Rightarrow> (if v = JNull then jnullable JStr (or_sourceVersion orig) else v)
        | None \<Rightarrow> jnullable JStr (or_sourceVersion orig))]"

definition upsertRecordSnapshot ::
    "host \<Rightarrow> string \<Rightarrow> string \<Rightarrow> jobj \<Rightarrow> string \<Rightarrow> int \<Rightarrow> string \<Rightarrow> request_origin \<Rightarrow> unit ptx" where
  "upsertRecordSnapshot h ty key value digest createdAt artifactKey orig =
     tx_bind (tx_bind (tx_read (\<lambda>s. resolve_snapshot_resource s (formatRecordResource ty key))) tx_lift) (\<lambda>resource.
     tx_bind (tx_read (\<lambda>s. by_key ap_r2_key artifactKey (db_artifact_pointers s))) (\<lambda>existing. case existing of
        Some p \<Rightarrow> tx_return ()
      | None \<Rightarrow> let provenance = provenanceFromOrigin orig createdAt in
          tx_seq (tx_write (\<lambda>s. s\<lparr>db_artifact_pointers := db_artifact_pointers s @
            [\<lparr>ap_r2_key = artifactKey, ap_resource = Some resource, ap_kind = ''record-snapshot-canonical'',
              ap_sha256 = digest, ap_bytes = int (length (stringify (JObj value))), ap_fence = None,
              ap_mime_type = ''application/json'', ap_produced_at = createdAt, ap_produced_by = or_principalId orig,
              ap_expires_at = None, ap_tombstoned = False, ap_tombstoned_at = None, ap_blob_deleted_at = None,
              ap_content_inline = None, ap_lineage_id = None, ap_revision = None, ap_restored_from = None,
              ap_provenance = Some provenance, ap_revision_creation = Some provenance\<rparr>]\<rparr>))
          (appendJournal h ''artifact.produced'' resource orig None
            [(''r2_key'', JStr artifactKey), (''sha256'', JStr digest)])))"

definition insert_revision :: "record_revision_row \<Rightarrow> unit ptx" where
  "insert_revision r = tx_bind (tx_read (\<lambda>s. rows_insert rv_id r (record_revisions s))) (\<lambda>t. case t of
      None \<Rightarrow> tx_throw (SqliteError ''record_revisions'')
    | Some rows \<Rightarrow> tx_write (set_library (\<lambda>l. l\<lparr>lb_revisions := rows\<rparr>)))"

definition insertRevisionRow :: "host \<Rightarrow> record_revision_row \<Rightarrow> request_origin \<Rightarrow> unit ptx" where
  "insertRevisionRow h r orig = tx_seq (insert_revision r)
     (case rv_canonical_artifact_key r of
        None \<Rightarrow> tx_return ()
      | Some k \<Rightarrow> tx_when (k \<noteq> [])
          (upsertRecordSnapshot h (rv_type r) (rv_key r) (rv_value r) (rv_value_sha256 r) (rv_created_at r) k orig))"

definition insert_tag :: "string \<Rightarrow> string \<Rightarrow> string \<Rightarrow> unit ptx" where
  "insert_tag ty key tag =
     tx_bind (tx_read (\<lambda>s. rows_insert id \<lparr>rg_type = ty, rg_key = key, rg_tag = tag\<rparr> (record_tags s))) (\<lambda>t. case t of
      None \<Rightarrow> tx_throw (SqliteError ''record_tags'')
    | Some rows \<Rightarrow> tx_write (set_library (\<lambda>l. l\<lparr>lb_tags := rows\<rparr>)))"

definition replaceTags :: "string \<Rightarrow> string \<Rightarrow> string list \<Rightarrow> unit ptx" where
  "replaceTags ty key tags = tx_seq
     (tx_write (set_library (\<lambda>l. l\<lparr>lb_tags := rows_delete (\<lambda>g. rg_type g = ty \<and> rg_key g = key) (lb_tags l)\<rparr>)))
     (tx_for tags (insert_tag ty key))"

definition readTags :: "db \<Rightarrow> string \<Rightarrow> string \<Rightarrow> string list" where
  "readTags s ty key = map rg_tag (filter (\<lambda>g. rg_type g = ty \<and> rg_key g = key) (record_tags s))"

definition put_doc :: "record_search_doc_row \<Rightarrow> record_search_doc_row list \<Rightarrow> record_search_doc_row list" where
  "put_doc d ds = rows_delete (\<lambda>x. rsd_id x = rsd_id d) ds @ [d]"

definition writeSearchDoc :: "host \<Rightarrow> string \<Rightarrow> string \<Rightarrow> string \<Rightarrow> string \<Rightarrow> bool \<Rightarrow> unit ptx" where
  "writeSearchDoc h ty key bodyText digest tombstoned =
     tx_bind (tx_read (\<lambda>s. by_key rsd_id (ty, key) (search_docs s))) (\<lambda>existing.
     if map_option rsd_value_sha256 existing = Some digest then tx_return ()
     else tx_write (set_library (\<lambda>l. l\<lparr>lb_search_docs := put_doc \<lparr>rsd_type = ty, rsd_key = key,
       rsd_body_text = bodyText, rsd_indexed_at = date_now h, rsd_value_sha256 = digest, rsd_tombstoned = tombstoned\<rparr>
       (lb_search_docs l)\<rparr>)))"

definition set_tombstone :: "string \<Rightarrow> string \<Rightarrow> bool \<Rightarrow> unit ptx" where
  "set_tombstone ty key b = tx_write (set_library (\<lambda>l. l\<lparr>lb_search_docs :=
     rows_set (\<lambda>d. rsd_id d = (ty, key)) (\<lambda>d. d\<lparr>rsd_tombstoned := b\<rparr>) (lb_search_docs l)\<rparr>))"

section \<open>Writes\<close>

record record_shown =
  rs_type :: string
  rs_key :: string
  rs_schema_version :: int
  rs_value :: jobj
  rs_value_sha256 :: string
  rs_revision :: int
  rs_archived :: bool
  rs_created_at :: int
  rs_updated_at :: int
  rs_updated_by :: string
  rs_tags :: "string list"
  rs_fence :: int

record record_write =
  rw_type :: string
  rw_key :: string
  rw_value :: jobj
  rw_fence :: int
  rw_tags :: "string list option"
  rw_message :: "string option"
  rw_source_artifact_key :: "string option"
  rw_canonical_artifact_key :: "string option"
  rw_schema_version :: int
  rw_actor :: string

definition show_record :: "record_row \<Rightarrow> jobj \<Rightarrow> string list \<Rightarrow> int \<Rightarrow> record_shown" where
  "show_record r value tags fence = \<lparr>rs_type = rd_type r, rs_key = rd_key r, rs_schema_version = rd_schema_version r,
     rs_value = value, rs_value_sha256 = rd_value_sha256 r, rs_revision = rd_revision r, rs_archived = rd_archived r,
     rs_created_at = rd_created_at r, rs_updated_at = rd_updated_at r, rs_updated_by = rd_updated_by r,
     rs_tags = tags, rs_fence = fence\<rparr>"

text \<open>The revision row of a record as it is written.\<close>

definition revision_of ::
    "record_row \<Rightarrow> record_operation \<Rightarrow> string option \<Rightarrow> string option \<Rightarrow> string option \<Rightarrow> request_origin \<Rightarrow> record_revision_row" where
  "revision_of r operation canonicalKey sourceKey message orig = \<lparr>rv_type = rd_type r, rv_key = rd_key r,
     rv_revision = rd_revision r, rv_operation = operation, rv_schema_version = rd_schema_version r,
     rv_value = rd_value r, rv_value_sha256 = rd_value_sha256 r, rv_canonical_artifact_key = canonicalKey,
     rv_source_artifact_key = sourceKey, rv_actor = rd_updated_by r, rv_created_at = rd_updated_at r,
     rv_message = message, rv_token_id = or_tokenId orig, rv_source = or_source orig,
     rv_source_version = or_sourceVersion orig, rv_principal_id = Some (or_principalId orig)\<rparr>"

definition record_event :: "host \<Rightarrow> string \<Rightarrow> string \<Rightarrow> request_origin \<Rightarrow> string \<Rightarrow> int \<Rightarrow> unit ptx" where
  "record_event h kind resource orig actor fence = appendJournal h kind resource (orig\<lparr>or_actor := actor\<rparr>) (Some fence) []"

definition new_record :: "(string \<Rightarrow> string) \<Rightarrow> record_write \<Rightarrow> int \<Rightarrow> record_row" where
  "new_record sha256 w now = \<lparr>rd_type = rw_type w, rd_key = rw_key w, rd_schema_version = rw_schema_version w,
     rd_value = canonical_value (rw_value w), rd_value_sha256 = sha256 (canonicalJson (JObj (rw_value w))),
     rd_revision = 1, rd_archived = False, rd_created_at = now, rd_updated_at = now, rd_updated_by = rw_actor w\<rparr>"

definition createRecord :: "host \<Rightarrow> (string \<Rightarrow> string) \<Rightarrow> record_write \<Rightarrow> request_origin \<Rightarrow> record_shown ptx" where
  "createRecord h sha256 w orig =
    (let now = date_now h; r = new_record sha256 w now; resource = formatRecordResource (rw_type w) (rw_key w);
         tags = (case rw_tags w of None \<Rightarrow> [] | Some ts \<Rightarrow> ts) in
     tx_seq (insert_record r)
    (tx_bind (bumpFence resource) (\<lambda>fence.
     tx_seq (insertRevisionRow h
       (revision_of r RO_created (rw_canonical_artifact_key w) (rw_source_artifact_key w) (rw_message w) orig) orig)
    (tx_seq (tx_for tags (insert_tag (rw_type w) (rw_key w)))
    (tx_seq (record_event h ''record.created'' resource orig (rw_actor w) fence)
    (tx_seq (writeSearchDoc h (rw_type w) (rw_key w) (extractSearchText (rw_value w)) (rd_value_sha256 r) False)
    (tx_return (show_record r (rw_value w) tags fence))))))))"

definition replaced :: "(string \<Rightarrow> string) \<Rightarrow> record_write \<Rightarrow> int \<Rightarrow> record_row \<Rightarrow> record_row" where
  "replaced sha256 w now r = r\<lparr>rd_schema_version := rw_schema_version w, rd_value := canonical_value (rw_value w),
     rd_value_sha256 := sha256 (canonicalJson (JObj (rw_value w))), rd_revision := rd_revision r + 1,
     rd_updated_at := now, rd_updated_by := rw_actor w\<rparr>"

text \<open>Replacing an existing record, with the visibility its search document gets.\<close>

definition replace_record ::
    "host \<Rightarrow> (string \<Rightarrow> string) \<Rightarrow> record_write \<Rightarrow> request_origin \<Rightarrow> record_row \<Rightarrow> bool \<Rightarrow> record_shown ptx" where
  "replace_record h sha256 w orig existing tombstoned =
    (let now = date_now h; r = replaced sha256 w now existing; resource = formatRecordResource (rw_type w) (rw_key w) in
     tx_seq (update_record (rw_type w) (rw_key w) (\<lambda>x. (replaced sha256 w now x)\<lparr>rd_revision := rd_revision r\<rparr>))
    (tx_bind (bumpFence resource) (\<lambda>fence.
     tx_seq (insertRevisionRow h
       (revision_of r RO_set (rw_canonical_artifact_key w) (rw_source_artifact_key w) (rw_message w) orig) orig)
    (tx_seq (case rw_tags w of None \<Rightarrow> tx_return () | Some ts \<Rightarrow> replaceTags (rw_type w) (rw_key w) ts)
    (tx_bind (case rw_tags w of Some ts \<Rightarrow> tx_return ts | None \<Rightarrow> tx_read (\<lambda>s. readTags s (rw_type w) (rw_key w))) (\<lambda>tags.
     tx_seq (record_event h ''record.updated'' resource orig (rw_actor w) fence)
    (tx_seq (writeSearchDoc h (rw_type w) (rw_key w) (extractSearchText (rw_value w)) (rd_value_sha256 r) tombstoned)
    (tx_return (show_record r (rw_value w) tags fence)))))))))"

definition fence_check :: "host \<Rightarrow> string \<Rightarrow> string \<Rightarrow> int \<Rightarrow> unit ptx" where
  "fence_check h ty key fence =
     tx_bind (tx_read (\<lambda>s. assertResourceFence s (formatRecordResource ty key) fence (date_now h) False)) tx_lift"

definition set_body :: "host \<Rightarrow> (string \<Rightarrow> string) \<Rightarrow> record_write \<Rightarrow> request_origin \<Rightarrow> record_shown ptx" where
  "set_body h sha256 w orig =
     tx_bind (tx_read (\<lambda>s. find_record s (rw_type w) (rw_key w))) (\<lambda>existing. case existing of
       None \<Rightarrow> tx_throw (RecordNotFoundError (rw_type w) (rw_key w))
     | Some r \<Rightarrow>
         tx_bind (fence_check h (rw_type w) (rw_key w) (rw_fence w))
           (\<lambda>_. replace_record h sha256 w orig r False))"

definition setRecord :: "host \<Rightarrow> (string \<Rightarrow> string) \<Rightarrow> record_write \<Rightarrow> request_origin
    \<Rightarrow> record_shown do_idempotency option \<Rightarrow> record_shown ptx" where
  "setRecord h sha256 w orig idem = do_once h idem (set_body h sha256 w orig)"

definition putRecord :: "host \<Rightarrow> (string \<Rightarrow> string) \<Rightarrow> record_write \<Rightarrow> request_origin \<Rightarrow> record_shown ptx" where
  "putRecord h sha256 w orig =
     tx_bind (tx_read (\<lambda>s. find_record s (rw_type w) (rw_key w))) (\<lambda>existing. case existing of
       None \<Rightarrow> createRecord h sha256 w orig
     | Some r \<Rightarrow> replace_record h sha256 w orig r (rd_archived r))"

text \<open>A patch: what is prepared from a read outside the transaction, then the transaction that writes it.\<close>

record record_patch =
  rp_type :: string
  rp_key :: string
  rp_patch :: jobj
  rp_fence :: int
  rp_message :: "string option"
  rp_schema_version :: int
  rp_actor :: string

definition patch_prepare :: "db \<Rightarrow> record_patch \<Rightarrow> error + jobj" where
  "patch_prepare s q = (case find_record s (rp_type q) (rp_key q) of
       None \<Rightarrow> Inl (RecordNotFoundError (rp_type q) (rp_key q))
     | Some r \<Rightarrow> if rd_archived r then Inl (RecordInvalidStateError (rp_type q) (rp_key q) ''cannot patch archived record'')
         else Inr (mergePatch (rd_value r) (rp_patch q)))"

definition patched :: "(string \<Rightarrow> string) \<Rightarrow> record_patch \<Rightarrow> jobj \<Rightarrow> int \<Rightarrow> record_row \<Rightarrow> record_row" where
  "patched sha256 q merged now r = r\<lparr>rd_schema_version := rp_schema_version q, rd_value := canonical_value merged,
     rd_value_sha256 := sha256 (canonicalJson (JObj merged)), rd_revision := rd_revision r + 1,
     rd_updated_at := now, rd_updated_by := rp_actor q\<rparr>"

definition patch_body ::
    "host \<Rightarrow> (string \<Rightarrow> string) \<Rightarrow> record_patch \<Rightarrow> jobj \<Rightarrow> request_origin \<Rightarrow> record_shown ptx" where
  "patch_body h sha256 q merged orig =
    (let ty = rp_type q; key = rp_key q; resource = formatRecordResource ty key; now = date_now h in
     tx_bind (tx_read (\<lambda>s. find_record s ty key)) (\<lambda>existing. case existing of
       None \<Rightarrow> tx_throw (RecordNotFoundError ty key)
     | Some e \<Rightarrow> if rd_archived e then tx_throw (RecordInvalidStateError ty key ''cannot patch archived record'')
         else let r = patched sha256 q merged now e in
          tx_seq (fence_check h ty key (rp_fence q))
         (tx_seq (update_record ty key (\<lambda>x. (patched sha256 q merged now x)\<lparr>rd_revision := rd_revision r\<rparr>))
         (tx_bind (bumpFence resource) (\<lambda>fence.
          tx_seq (insert_revision (revision_of r RO_patch None None (rp_message q) orig))
         (tx_bind (tx_read (\<lambda>s. readTags s ty key)) (\<lambda>tags.
          tx_seq (record_event h ''record.updated'' resource orig (rp_actor q) fence)
         (tx_seq (writeSearchDoc h ty key (extractSearchText merged) (rd_value_sha256 r) False)
         (tx_return (show_record r merged tags fence))))))))))"

text \<open>The whole operation, with the database at the read and at the transaction: other writes may come between.\<close>

definition patchRecord :: "host \<Rightarrow> (string \<Rightarrow> string) \<Rightarrow> db \<Rightarrow> record_patch \<Rightarrow> request_origin
    \<Rightarrow> record_shown do_idempotency option \<Rightarrow> record_shown ptx" where
  "patchRecord h sha256 before q orig idem =
     tx_bind (tx_lift (patch_prepare before q)) (\<lambda>merged. do_once h idem (patch_body h sha256 q merged orig))"

text \<open>Archiving and its reverse copy the value to a new revision.\<close>

record record_lifecycle =
  rlc_type :: string
  rlc_key :: string
  rlc_fence :: int
  rlc_message :: "string option"
  rlc_actor :: string

definition lifecycled :: "bool \<Rightarrow> record_lifecycle \<Rightarrow> int \<Rightarrow> record_row \<Rightarrow> record_row" where
  "lifecycled b q now r = r\<lparr>rd_archived := b, rd_revision := rd_revision r + 1, rd_updated_at := now,
     rd_updated_by := rlc_actor q\<rparr>"

definition lifecycle_body :: "host \<Rightarrow> bool \<Rightarrow> record_lifecycle \<Rightarrow> request_origin \<Rightarrow> record_shown ptx" where
  "lifecycle_body h b q orig =
    (let ty = rlc_type q; key = rlc_key q; resource = formatRecordResource ty key; now = date_now h in
     tx_bind (tx_read (\<lambda>s. find_record s ty key)) (\<lambda>existing. case existing of
       None \<Rightarrow> tx_throw (RecordNotFoundError ty key)
     | Some e \<Rightarrow>
         if rd_archived e = b then tx_throw (RecordInvalidStateError ty key (if b then ''already archived'' else ''not archived''))
         else let r = lifecycled b q now e in
          tx_seq (fence_check h ty key (rlc_fence q))
         (tx_seq (update_record ty key (\<lambda>x. (lifecycled b q now x)\<lparr>rd_revision := rd_revision r\<rparr>))
         (tx_bind (bumpFence resource) (\<lambda>fence.
          tx_seq (insert_revision (revision_of r (if b then RO_archived else RO_unarchived) None None (rlc_message q) orig))
         (tx_bind (tx_read (\<lambda>s. readTags s ty key)) (\<lambda>tags.
          tx_seq (record_event h (if b then ''record.archived'' else ''record.unarchived'') resource orig (rlc_actor q) fence)
         (tx_seq (set_tombstone ty key b)
         (tx_return (show_record r (rd_value e) tags fence))))))))))"

definition archiveRecord :: "host \<Rightarrow> record_lifecycle \<Rightarrow> request_origin \<Rightarrow> record_shown do_idempotency option \<Rightarrow> record_shown ptx" where
  "archiveRecord h q orig idem = do_once h idem (lifecycle_body h True q orig)"

definition unarchiveRecord :: "host \<Rightarrow> record_lifecycle \<Rightarrow> request_origin \<Rightarrow> record_shown do_idempotency option \<Rightarrow> record_shown ptx" where
  "unarchiveRecord h q orig idem = do_once h idem (lifecycle_body h False q orig)"

text \<open>Stamping the artifacts of a revision after the fact.\<close>

definition stampArtifacts :: "host \<Rightarrow> string \<Rightarrow> string \<Rightarrow> int \<Rightarrow> string \<Rightarrow> string option \<Rightarrow> request_origin \<Rightarrow> unit ptx" where
  "stampArtifacts h ty key n canonicalKey sourceKey orig =
     tx_bind (tx_read (\<lambda>s. by_key rv_id ((ty, key), n) (record_revisions s))) (\<lambda>existing. case existing of
       None \<Rightarrow> tx_throw (RevisionNotFoundError ty key n)
     | Some r \<Rightarrow>
         tx_seq (upsertRecordSnapshot h ty key (rv_value r) (rv_value_sha256 r) (rv_created_at r) canonicalKey orig)
           (tx_write (set_library (\<lambda>l. l\<lparr>lb_revisions := rows_set (\<lambda>r. rv_id r = ((ty, key), n))
             (\<lambda>r. r\<lparr>rv_canonical_artifact_key := Some canonicalKey, rv_source_artifact_key := sourceKey\<rparr>)
             (lb_revisions l)\<rparr>))))"

section \<open>Reads\<close>

definition getRecord :: "db \<Rightarrow> string \<Rightarrow> string \<Rightarrow> record_shown option" where
  "getRecord s ty key = (case find_record s ty key of None \<Rightarrow> None
     | Some r \<Rightarrow> Some (show_record r (rd_value r) (readTags s ty key)
         (case lookupFence s (formatRecordResource ty key) of Some f \<Rightarrow> fe_current_fence f | None \<Rightarrow> 0)))"

record record_meta =
  rm_type :: string
  rm_key :: string
  rm_revision :: int
  rm_fence :: int
  rm_value_sha256 :: string
  rm_updated_at :: int
  rm_archived :: bool

definition getRecordMeta :: "db \<Rightarrow> string \<Rightarrow> string \<Rightarrow> record_meta option" where
  "getRecordMeta s ty key = map_option (\<lambda>r. \<lparr>rm_type = rd_type r, rm_key = rd_key r, rm_revision = rd_revision r,
     rm_fence = (case lookupFence s (formatRecordResource ty key) of Some f \<Rightarrow> fe_current_fence f | None \<Rightarrow> 0),
     rm_value_sha256 = rd_value_sha256 r, rm_updated_at = rd_updated_at r, rm_archived = rd_archived r\<rparr>)
     (find_record s ty key)"

end
