(* ===== verification/Cursor.thy ===== *)
theory Cursor
  imports Json Store "HOL-Library.Word" "HOL-Library.Sublist"
begin

text \<open>
  \<^verbatim>\<open>packages/ops-sqlite/src/list-cursor.ts\<close>: opaque cursors. A cursor is the base64url text of an object with a
  version, the fingerprint of the query it was issued for and a position. \<open>parse\<close> stands for the fatal UTF-8
  decoder and \<open>JSON.parse\<close>, \<open>None\<close> where either throws. Strings are their UTF-8 bytes.
\<close>

unbundle bit_operations_syntax

section \<open>Fingerprints\<close>

definition FNV_OFFSET :: "64 word" where
  "FNV_OFFSET = 0xcbf29ce484222325"

definition FNV_PRIME :: "64 word" where
  "FNV_PRIME = 0x100000001b3"

definition fnv_step :: "64 word \<Rightarrow> char \<Rightarrow> 64 word" where
  "fnv_step hash byte = (hash XOR of_nat (of_char byte)) * FNV_PRIME"

definition fnv1a :: "string \<Rightarrow> 64 word" where
  "fnv1a bytes = foldl fnv_step FNV_OFFSET bytes"

definition HEX :: string where
  "HEX = ''0123456789abcdef''"

text \<open>\<open>hash.toString(16).padStart(16, "0")\<close>.\<close>

fun hex_str :: "nat \<Rightarrow> string" where
  "hex_str n = (if n < 16 then [HEX ! n] else hex_str (n div 16) @ [HEX ! (n mod 16)])"

declare hex_str.simps [simp del]

definition padStart :: "nat \<Rightarrow> char \<Rightarrow> string \<Rightarrow> string" where
  "padStart n c text = replicate (n - length text) c @ text"

definition fingerprint :: "json \<Rightarrow> string" where
  "fingerprint value = padStart 16 CHR ''0'' (hex_str (unat (fnv1a (canonicalJson value))))"

section \<open>Base64url\<close>

definition BASE64 :: string where
  "BASE64 = ''ABCDEFGHIJKLMNOPQRSTUVWXYZabcdefghijklmnopqrstuvwxyz0123456789+/''"

definition byte :: "nat \<Rightarrow> char" where
  "byte n = char_of n"

definition sextet :: "nat \<Rightarrow> char" where
  "sextet n = BASE64 ! n"

fun btoa :: "string \<Rightarrow> string" where
  "btoa [] = []"
| "btoa [a] = [sextet (of_char a div 4), sextet (of_char a mod 4 * 16), CHR ''='', CHR ''='']"
| "btoa [a, b] = [sextet (of_char a div 4), sextet (of_char a mod 4 * 16 + of_char b div 16),
     sextet (of_char b mod 16 * 4), CHR ''='']"
| "btoa (a # b # c # rest) = sextet (of_char a div 4) # sextet (of_char a mod 4 * 16 + of_char b div 16)
     # sextet (of_char b mod 16 * 4 + of_char c div 64) # sextet (of_char c mod 64) # btoa rest"

fun position_of :: "char \<Rightarrow> string \<Rightarrow> nat option" where
  "position_of c [] = None"
| "position_of c (x # xs) = (if c = x then Some 0 else map_option Suc (position_of c xs))"

fun sextets :: "string \<Rightarrow> nat list option" where
  "sextets [] = Some []"
| "sextets (c # cs) = (case position_of c BASE64 of None \<Rightarrow> None | Some n \<Rightarrow> map_option (\<lambda>ns. n # ns) (sextets cs))"

fun unpack :: "nat list \<Rightarrow> string" where
  "unpack (a # b # c # d # rest) =
     byte (a * 4 + b div 16) # byte (b mod 16 * 16 + c div 4) # byte (c mod 4 * 64 + d) # unpack rest"
| "unpack [a, b, c] = [byte (a * 4 + b div 16), byte (b mod 16 * 16 + c div 4)]"
| "unpack [a, b] = [byte (a * 4 + b div 16)]"
| "unpack ns = []"

text \<open>\<open>atob\<close>: white space is dropped, then up to two equals signs of a text of full groups.\<close>

definition unpadded :: "string \<Rightarrow> string" where
  "unpadded t = (if length t mod 4 \<noteq> 0 then t
     else if suffix ''=='' t then take (length t - 2) t else if suffix ''='' t then take (length t - 1) t else t)"

definition atob :: "string \<Rightarrow> string option" where
  "atob raw = (let t = unpadded (filter (\<lambda>c. of_char c \<notin> {9, 10, 12, 13, 32 :: nat}) raw) in
     if length t mod 4 = 1 then None else map_option unpack (sextets t))"

definition to_url :: "char \<Rightarrow> char" where
  "to_url c = (if c = CHR ''+'' then CHR ''-'' else if c = CHR ''/'' then CHR ''_'' else c)"

definition from_url :: "char \<Rightarrow> char" where
  "from_url c = (if c = CHR ''-'' then CHR ''+'' else if c = CHR ''_'' then CHR ''/'' else c)"

definition toBase64Url :: "string \<Rightarrow> string" where
  "toBase64Url text = rev (dropWhile (\<lambda>c. c = CHR ''='') (rev (map to_url (btoa text))))"

definition fromBase64Url :: "string \<Rightarrow> string option" where
  "fromBase64Url raw = atob (map from_url raw @ replicate ((4 - length raw mod 4) mod 4) CHR ''='')"

section \<open>Cursors\<close>

definition encodeCursor :: "string \<Rightarrow> jobj \<Rightarrow> string" where
  "encodeCursor f position = toBase64Url (stringify (JObj (obj_merge [(''v'', JNum 1), (''f'', JStr f)] position)))"

definition decodeCursor :: "(string \<Rightarrow> json option) \<Rightarrow> string \<Rightarrow> string \<Rightarrow> error + jobj" where
  "decodeCursor parse raw expected = (case Option.bind (fromBase64Url raw) parse of
       Some (JObj payload) \<Rightarrow>
         if obj_get ''v'' payload = Some (JNum 1) \<and> obj_get ''f'' payload = Some (JStr expected)
         then Inr (filter (\<lambda>(k, v). k \<noteq> ''v'' \<and> k \<noteq> ''f'') payload) else Inl InvalidCursorError
     | _ \<Rightarrow> Inl InvalidCursorError)"

section \<open>Base64url is undone\<close>

lemma byte_of_char [simp]: "byte (of_char c) = c"
  by (simp add: byte_def)

lemma position_of_sextet: "n < 64 \<Longrightarrow> position_of (sextet n) BASE64 = Some n"
proof -
  have "list_all (\<lambda>n. position_of (sextet n) BASE64 = Some n) [0..<64]" by code_simp
  then show "n < 64 \<Longrightarrow> ?thesis" by (simp add: list_all_iff)
qed

definition plain :: "char \<Rightarrow> bool" where
  "plain c \<longleftrightarrow> c \<noteq> CHR ''='' \<and> c \<noteq> CHR ''-'' \<and> c \<noteq> CHR ''_'' \<and> of_char c \<notin> {9, 10, 12, 13, 32 :: nat}"

lemma sextet_plain: "n < 64 \<Longrightarrow> plain (sextet n)"
proof -
  have "list_all (\<lambda>n. plain (sextet n)) [0..<64]" by code_simp
  then show "n < 64 \<Longrightarrow> ?thesis" by (simp add: list_all_iff)
qed

text \<open>The groups of six bits of a text.\<close>

fun pack :: "string \<Rightarrow> nat list" where
  "pack [] = []"
| "pack [a] = [of_char a div 4, of_char a mod 4 * 16]"
| "pack [a, b] = [of_char a div 4, of_char a mod 4 * 16 + of_char b div 16, of_char b mod 16 * 4]"
| "pack (a # b # c # rest) = (of_char a div 4) # (of_char a mod 4 * 16 + of_char b div 16)
     # (of_char b mod 16 * 4 + of_char c div 64) # (of_char c mod 64) # pack rest"

lemma low_bits:
  fixes x y :: nat
  assumes "x < 256" and "y < 256"
  shows "x mod 4 * 16 + y div 16 < 64" "x mod 16 * 4 + y div 64 < 64" "x mod 4 * 16 < 64" "x mod 16 * 4 < 64" "x div 4 < 64"
proof -
  have "x mod 4 < 4" "x mod 16 < 16" "y div 16 < 16" "y div 64 < 4" "x div 4 < 64" using assms by auto
  then show "x mod 4 * 16 + y div 16 < 64" "x mod 16 * 4 + y div 64 < 64" "x mod 4 * 16 < 64" "x mod 16 * 4 < 64" "x div 4 < 64"
    by linarith+
qed

lemma high_bits: "(of_char c :: nat) div 4 < 64"
  using nat_of_char_less_256 [of c] by linarith

lemma pack_bound: "n \<in> set (pack t) \<Longrightarrow> n < 64"
  by (induction t rule: pack.induct) (auto simp: low_bits high_bits simp del: div_less)

lemma pack_length: "length (pack t) mod 4 \<noteq> Suc 0"
proof (induction t rule: pack.induct)
  case (4 a b c rest)
  have "length (pack (a # b # c # rest)) = length (pack rest) + 4" by simp
  then have "length (pack (a # b # c # rest)) mod 4 = length (pack rest) mod 4" by (simp only: mod_add_self2)
  then show ?case using 4 by simp
qed simp_all

lemma carry: "b < n \<Longrightarrow> (a * n + b) div n = a" "b < n \<Longrightarrow> (a * n + b) mod n = b" for a b n :: nat
  by simp_all

lemma regroup:
  fixes x y z :: nat
  shows "y < 256 \<Longrightarrow> x div 4 * 4 + (x mod 4 * 16 + y div 16) div 16 = x"
    and "y < 256 \<Longrightarrow> z < 256 \<Longrightarrow> (x mod 4 * 16 + y div 16) mod 16 * 16 + (y mod 16 * 4 + z div 64) div 4 = y"
    and "z < 256 \<Longrightarrow> (y mod 16 * 4 + z div 64) mod 4 * 64 + z mod 64 = z"
proof -
  have y: "y div 16 < 16" if "y < 256" using that by linarith
  have z: "z div 64 < 4" if "z < 256" using that by linarith
  show "x div 4 * 4 + (x mod 4 * 16 + y div 16) div 16 = x" if "y < 256"
    unfolding carry(1) [OF y [OF that]] by simp
  show "(x mod 4 * 16 + y div 16) mod 16 * 16 + (y mod 16 * 4 + z div 64) div 4 = y" if "y < 256" "z < 256"
    unfolding carry(1) [OF z [OF that(2)]] carry(2) [OF y [OF that(1)]] by simp
  show "(y mod 16 * 4 + z div 64) mod 4 * 64 + z mod 64 = z" if "z < 256"
    unfolding carry(2) [OF z [OF that]] by simp
qed

lemma unpack_pack: "unpack (pack t) = t"
proof (induction t rule: pack.induct)
  case (2 a)
  show ?case using regroup(1) [of 0 "of_char a"] by simp
next
  case (3 a b)
  show ?case using regroup(1) [of "of_char b" "of_char a"] regroup(2) [of "of_char b" 0 "of_char a"]
    by (simp only: pack.simps unpack.simps nat_of_char_less_256 byte_of_char) simp
next
  case (4 a b c rest)
  then show ?case by (simp only: pack.simps unpack.simps regroup nat_of_char_less_256 byte_of_char)
qed simp

lemma two: "replicate 2 x = [x, x]" "replicate (Suc (Suc 0)) x = [x, x]"
  by (simp_all add: numeral_2_eq_2)

lemma btoa_pack: "btoa t = map sextet (pack t) @ replicate ((4 - length (pack t) mod 4) mod 4) CHR ''=''"
proof (induction t rule: pack.induct)
  case (4 a b c rest)
  have "length (pack (a # b # c # rest)) = length (pack rest) + 4" by simp
  then have "length (pack (a # b # c # rest)) mod 4 = length (pack rest) mod 4" by (simp only: mod_add_self2)
  with 4 show ?case by (simp only: btoa.simps pack.simps list.map append.simps)
qed (simp_all add: two)

lemma sextets_map: "(\<And>n. n \<in> set ns \<Longrightarrow> n < 64) \<Longrightarrow> sextets (map sextet ns) = Some ns"
  by (induction ns) (simp_all add: position_of_sextet)

lemma url_plain: "plain c \<Longrightarrow> from_url (to_url c) = c \<and> to_url c \<noteq> CHR ''=''"
  by (auto simp: plain_def from_url_def to_url_def)

lemma toBase64Url_pack: "toBase64Url t = map (to_url \<circ> sextet) (pack t)"
proof -
  have "to_url (sextet n) \<noteq> CHR ''=''" if "n \<in> set (pack t)" for n
    using url_plain sextet_plain pack_bound that by blast
  then have "dropWhile (\<lambda>c. c = CHR ''='') (rev (map (to_url \<circ> sextet) (pack t))) = rev (map (to_url \<circ> sextet) (pack t))"
    by (cases "rev (pack t)") (auto simp: rev_map [symmetric] dest!: arg_cong [of "rev (pack t)" _ set])
  moreover have "dropWhile (\<lambda>c. c = CHR ''='') (replicate n CHR ''='' @ u) = dropWhile (\<lambda>c. c = CHR ''='') u" for n u
    by (induction n) auto
  moreover have "to_url CHR ''='' = CHR ''=''" by (simp add: to_url_def)
  ultimately show ?thesis by (simp add: toBase64Url_def btoa_pack)
qed

lemma unpadded_pack:
  assumes "length t mod 4 \<noteq> Suc 0" and "\<And>c. c \<in> set t \<Longrightarrow> plain c"
  shows "unpadded (t @ replicate ((4 - length t mod 4) mod 4) CHR ''='') = t"
proof -
  have fin: "t \<noteq> [] \<Longrightarrow> last t \<noteq> CHR ''=''" using assms(2) by (auto simp: plain_def)
  have "length t mod 4 < 4" by simp
  then consider "length t mod 4 = 0" | "length t mod 4 = 2" | "length t mod 4 = 3" using assms(1) by linarith
  then show ?thesis
  proof cases
    case 1
    have "\<not> suffix ''='' t" "\<not> suffix ''=='' t" using fin by (auto simp: suffix_def)
    with 1 show ?thesis by (simp add: unpadded_def)
  next
    case 2
    then have "(length t + 2) mod 4 = 0" by presburger
    with 2 show ?thesis by (simp add: unpadded_def two suffix_def)
  next
    case 3
    then have "(length t + 1) mod 4 = 0" by presburger
    moreover have "\<not> suffix ''=='' (t @ ''='')" using fin by (auto simp: suffix_def append_eq_append_conv2 Cons_eq_append_conv)
    ultimately show ?thesis using 3 by (simp add: unpadded_def suffix_def)
  qed
qed

lemma base64url_roundtrip: "fromBase64Url (toBase64Url t) = Some t"
proof -
  let ?u = "map sextet (pack t)"
  have plain: "plain c" if "c \<in> set ?u" for c using that sextet_plain pack_bound by auto
  have undone: "map from_url (toBase64Url t) = ?u"
    using url_plain sextet_plain pack_bound by (auto simp: toBase64Url_pack)
  have len: "length (toBase64Url t) = length ?u" by (simp add: toBase64Url_pack)
  have keep: "filter (\<lambda>c. of_char c \<notin> {9, 10, 12, 13, 32 :: nat}) (?u @ replicate n CHR ''='') = ?u @ replicate n CHR ''=''" for n
    using plain by (auto simp: filter_id_conv plain_def)
  have "atob (?u @ replicate ((4 - length ?u mod 4) mod 4) CHR ''='') = Some t"
    unfolding atob_def Let_def keep
    using unpadded_pack [of ?u] plain pack_length [of t] sextets_map [of "pack t"] pack_bound
    by (simp add: unpack_pack)
  then show ?thesis by (simp add: fromBase64Url_def undone len)
qed

section \<open>A cursor belongs to its query\<close>

lemma obj_merge_fresh: "distinct (map fst (ob @ kvs)) \<Longrightarrow> obj_merge ob kvs = ob @ kvs"
  by (induction ob kvs rule: obj_merge.induct) (auto simp: obj_set_fresh)

definition payload :: "string \<Rightarrow> jobj \<Rightarrow> json" where
  "payload f position = JObj ([(''v'', JNum 1), (''f'', JStr f)] @ position)"

lemma cursor_judged:
  assumes "parse (stringify (payload f position)) = Some (payload f position)"
    and "distinct (map fst position)" and "obj_get ''v'' position = None" and "obj_get ''f'' position = None"
  shows "decodeCursor parse (encodeCursor f position) g = (if g = f then Inr position else Inl InvalidCursorError)"
proof -
  have fresh: "''v'' \<notin> fst ` set position" "''f'' \<notin> fst ` set position" using assms(3,4) by (simp_all add: obj_get_None)
  then have "obj_merge [(''v'', JNum 1), (''f'', JStr f)] position = [(''v'', JNum 1), (''f'', JStr f)] @ position"
    using assms(2) by (intro obj_merge_fresh) auto
  then have "Option.bind (fromBase64Url (encodeCursor f position)) parse = Some (payload f position)"
    using assms(1) by (simp add: encodeCursor_def base64url_roundtrip payload_def)
  moreover have "filter (\<lambda>(k, v). k \<noteq> ''v'' \<and> k \<noteq> ''f'') position = position"
    using fresh by (force simp: filter_id_conv)
  ultimately show ?thesis by (auto simp: decodeCursor_def payload_def)
qed

lemma cursor_read:
  assumes "parse (stringify (payload f position)) = Some (payload f position)"
    and "distinct (map fst position)" and "obj_get ''v'' position = None" and "obj_get ''f'' position = None"
  shows "decodeCursor parse (encodeCursor f position) f = Inr position"
  using cursor_judged [where parse = parse and f = f and position = position and g = f, OF assms] by simp

text \<open>C39. A cursor is accepted by the query it was issued for, which gets back the position as it was stored, and
  refused by every query with another fingerprint.\<close>

theorem cursor_of_its_query:
  assumes "parse (stringify (payload f position)) = Some (payload f position)"
    and "distinct (map fst position)" and "obj_get ''v'' position = None" and "obj_get ''f'' position = None"
  shows "decodeCursor parse (encodeCursor f position) g = (if g = f then Inr position else Inl InvalidCursorError)"
  by (rule cursor_judged; fact assms)

definition sample_position :: jobj where
  "sample_position = [(''key'', JStr ''a''), (''k'', JNum 7)]"

theorem cursor_of_its_query_witness:
  "decodeCursor (\<lambda>t. if t = stringify (payload ''ff'' sample_position) then Some (payload ''ff'' sample_position) else None)
     (encodeCursor ''ff'' sample_position) ''fe'' = Inl InvalidCursorError"
  by (subst cursor_of_its_query) (simp_all add: sample_position_def)

section \<open>Fingerprints differ\<close>

definition FNV_INVERSE :: "64 word" where
  "FNV_INVERSE = 0xce965057aff6957b"

lemma prime_unit: "FNV_PRIME * FNV_INVERSE = 1"
  by (simp add: FNV_PRIME_def FNV_INVERSE_def)

lemma prime_cancel: "a * FNV_PRIME = b * FNV_PRIME \<longleftrightarrow> a = b"
proof
  assume "a * FNV_PRIME = b * FNV_PRIME"
  then have "a * FNV_PRIME * FNV_INVERSE = b * FNV_PRIME * FNV_INVERSE" by simp
  then show "a = b" by (simp add: mult.assoc prime_unit)
qed simp

lemma xor_cancel: "a XOR c = b XOR c \<longleftrightarrow> a = b" for a b c :: "64 word"
proof
  assume "a XOR c = b XOR c"
  then have "(a XOR c) XOR c = (b XOR c) XOR c" by simp
  then show "a = b" by (simp add: xor.assoc)
qed simp

lemma byte_word: "(of_nat (of_char c) :: 64 word) = of_nat (of_char d) \<longleftrightarrow> c = d"
proof
  assume "(of_nat (of_char c) :: 64 word) = of_nat (of_char d)"
  then have "unat (of_nat (of_char c) :: 64 word) = unat (of_nat (of_char d) :: 64 word)" by simp
  then have "(of_char c :: nat) = of_char d"
    using nat_of_char_less_256 [of c] nat_of_char_less_256 [of d] by (simp add: unat_of_nat take_bit_nat_eq_self)
  then show "c = d" by simp
qed simp

lemma step_hash: "fnv_step a c = fnv_step b c \<longleftrightarrow> a = b"
  by (simp add: fnv_step_def prime_cancel xor_cancel)

lemma step_byte: "fnv_step a c = fnv_step a d \<longleftrightarrow> c = d"
proof -
  have "a XOR x = a XOR y \<longleftrightarrow> x = y" for x y :: "64 word" using xor_cancel [of x a y] by (simp add: xor.commute)
  then show ?thesis by (simp add: fnv_step_def prime_cancel byte_word)
qed

lemma steps_hash: "foldl fnv_step a t = foldl fnv_step b t \<longleftrightarrow> a = b"
  by (induction t arbitrary: a b) (simp_all add: step_hash)

fun hex_value :: "nat \<Rightarrow> string \<Rightarrow> nat" where
  "hex_value acc [] = acc"
| "hex_value acc (c # cs) = hex_value (acc * 16 + the (position_of c HEX)) cs"

lemma position_of_hex: "n < 16 \<Longrightarrow> position_of (HEX ! n) HEX = Some n"
proof -
  have "list_all (\<lambda>n. position_of (HEX ! n) HEX = Some n) [0..<16]" by code_simp
  then show "n < 16 \<Longrightarrow> ?thesis" by (simp add: list_all_iff)
qed

lemma hex_value_append: "hex_value acc (s @ t) = hex_value (hex_value acc s) t"
  by (induction s arbitrary: acc) simp_all

lemma hex_value_str: "hex_value 0 (hex_str n) = n"
proof (induction n rule: hex_str.induct)
  case (1 n)
  show ?case
  proof (cases "n < 16")
    case True
    then show ?thesis by (simp add: hex_str.simps [of n] position_of_hex)
  next
    case False
    then show ?thesis using 1 by (simp add: hex_str.simps [of n] hex_value_append position_of_hex)
  qed
qed

lemma hex_value_pad: "hex_value 0 (padStart k CHR ''0'' t) = hex_value 0 t"
proof -
  have "hex_value 0 (replicate n CHR ''0'' @ t) = hex_value 0 t" for n
    by (induction n) (simp_all add: HEX_def)
  then show ?thesis by (simp add: padStart_def)
qed

text \<open>C40. The fingerprint wraps at 64 bits and still never confuses two queries whose canonical texts differ in one
  byte: a cursor of one is refused by the other.\<close>

theorem one_byte_changes_fingerprint:
  assumes "canonicalJson v = t @ c # u" and "canonicalJson w = t @ d # u" and "c \<noteq> d"
  shows "fingerprint v \<noteq> fingerprint w"
proof
  assume "fingerprint v = fingerprint w"
  then have "hex_value 0 (fingerprint v) = hex_value 0 (fingerprint w)" by simp
  then have "unat (fnv1a (canonicalJson v)) = unat (fnv1a (canonicalJson w))"
    by (simp add: fingerprint_def hex_value_pad hex_value_str)
  then have "fnv1a (t @ c # u) = fnv1a (t @ d # u)" unfolding assms(1,2) by (rule iffD2 [OF word_unat_eq_iff])
  with assms(3) show False by (simp add: fnv1a_def steps_hash step_byte)
qed

lemma flag_texts: "canonicalJson (JNum 1) = [] @ CHR ''1'' # []" "canonicalJson (JNum 2) = [] @ CHR ''2'' # []"
  by code_simp+

theorem one_byte_changes_fingerprint_witness: "fingerprint (JNum 1) \<noteq> fingerprint (JNum 2)"
  by (rule one_byte_changes_fingerprint [OF flag_texts]) simp

end
