(* ===== verification/Listings.thy ===== *)
theory Listings
  imports Records Cursor "HOL-Library.Product_Lexorder"
begin

text \<open>
  The listings of \<^verbatim>\<open>packages/ops-sqlite/src/record-ops.ts\<close>: records of a type with filters, orders and cursors, the
  history of one record, the types in use. SQLite's part in a data filter is a parameter, \<open>json_sql\<close>; \<open>parse\<close> is that of
  \<^verbatim>\<open>Cursor\<close>.
\<close>

section \<open>What SQLite does with a data filter\<close>

text \<open>\<open>js_member ob k v\<close> is the condition that the member of a value at the path \<^verbatim>\<open>$.k\<close> equals the bound \<open>v\<close>, as
  \<open>json_extract\<close> reads paths; \<open>None\<close> is the error of a path that is not well-formed, such as that of an empty name
  or of one that begins with a quote. \<open>js_binds v\<close> says that the driver can bind the value at all. The order of
  the conditions of a query is SQLite's: \<open>js_visits\<close> says on which rows of the type the plan gets to the path of a
  name; on every row that meets the other conditions it does.\<close>

record json_sql =
  js_member :: "jobj \<Rightarrow> string \<Rightarrow> json \<Rightarrow> bool option"
  js_binds :: "json \<Rightarrow> bool"
  js_visits :: "record_row \<Rightarrow> string \<Rightarrow> bool"

section \<open>Filters\<close>

datatype record_sort = By_key | By_updated_at | By_revision

record record_filter =
  rf_type :: string
  rf_restrictions :: "namespace_restrictions option"
  rf_includeArchived :: "bool option"
  rf_tag :: "string option"
  rf_tagFilter :: "string list option"
  rf_dataFilter :: "jobj option"
  rf_limit :: "int option"
  rf_sort :: "record_sort option"
  rf_descending :: bool
  rf_keyContains :: "string option"
  rf_cursor :: "string option"
  rf_titleField :: "string option"

text \<open>A text that is there and not empty.\<close>

definition given :: "string option \<Rightarrow> bool" where
  "given v \<longleftrightarrow> v \<noteq> None \<and> v \<noteq> Some []"

definition clamp_limit :: "int \<Rightarrow> int option \<Rightarrow> nat" where
  "clamp_limit fallback limit = nat (min (max (case limit of None \<Rightarrow> fallback | Some n \<Rightarrow> n) 1) 200)"

fun scalar :: "json \<Rightarrow> bool" where
  "scalar (JArr xs) = False"
| "scalar (JObj kvs) = False"
| "scalar v = True"

fun instr :: "string \<Rightarrow> string \<Rightarrow> bool" where
  "instr [] needle = (needle = [])"
| "instr (c # t) needle = (prefix needle (c # t) \<or> instr t needle)"

definition has_tag :: "db \<Rightarrow> record_row \<Rightarrow> string \<Rightarrow> bool" where
  "has_tag s r tag \<longleftrightarrow> list_ex (\<lambda>g. rg_type g = rd_type r \<and> rg_key g = rd_key r \<and> rg_tag g = tag) (record_tags s)"

text \<open>The conditions of the query. Nothing equals \<open>NULL\<close> in SQL.\<close>

definition record_listed :: "json_sql \<Rightarrow> db \<Rightarrow> record_filter \<Rightarrow> record_row \<Rightarrow> bool" where
  "record_listed sql s f r \<longleftrightarrow> rd_type r = rf_type f
     \<and> recordRestrictionCondition (rf_restrictions f) Read_side (rd_type r) (rd_key r)
     \<and> (rf_includeArchived f = Some True \<or> \<not> rd_archived r)
     \<and> (given (rf_tag f) \<longrightarrow> has_tag s r (the (rf_tag f)))
     \<and> (case rf_tagFilter f of None \<Rightarrow> True | Some tags \<Rightarrow> list_all (has_tag s r) (map toLowerCase tags))
     \<and> (case rf_dataFilter f of None \<Rightarrow> True
        | Some kvs \<Rightarrow> list_all (\<lambda>(k, v). v \<noteq> JNull \<and> js_member sql (rd_value r) k v = Some True) kvs)
     \<and> (given (rf_keyContains f) \<longrightarrow> instr (rd_key r) (the (rf_keyContains f)))"

definition data_filter :: "record_filter \<Rightarrow> jobj" where
  "data_filter f = (case rf_dataFilter f of None \<Rightarrow> [] | Some kvs \<Rightarrow> kvs)"

text \<open>The query throws: a value cannot be bound, or a path fails on a row on which it is evaluated.\<close>

definition filter_fails :: "json_sql \<Rightarrow> db \<Rightarrow> record_filter \<Rightarrow> bool" where
  "filter_fails sql s f \<longleftrightarrow> list_ex (\<lambda>(k, v). \<not> js_binds sql v
     \<or> list_ex (\<lambda>r. rd_type r = rf_type f \<and> js_visits sql r k \<and> js_member sql (rd_value r) k v = None) (records s)) (data_filter f)"

section \<open>Orders and positions\<close>

definition sort_of :: "record_filter \<Rightarrow> record_sort" where
  "sort_of f = (case rf_sort f of None \<Rightarrow> By_key | Some x \<Rightarrow> x)"

definition sort_text :: "record_sort \<Rightarrow> string" where
  "sort_text x = (case x of By_key \<Rightarrow> ''key'' | By_updated_at \<Rightarrow> ''updated_at'' | By_revision \<Rightarrow> ''revision'')"

text \<open>The value of the sort column; the key alone orders if there is none.\<close>

definition sort_column :: "record_sort \<Rightarrow> record_row \<Rightarrow> int" where
  "sort_column x r = (case x of By_key \<Rightarrow> 0 | By_updated_at \<Rightarrow> rd_updated_at r | By_revision \<Rightarrow> rd_revision r)"

definition ordered :: "record_filter \<Rightarrow> record_row list \<Rightarrow> record_row list" where
  "ordered f rs = (let asc = sort_key (\<lambda>r. (sort_column (sort_of f) r, rd_key r)) rs in if rf_descending f then rev asc else asc)"

definition list_binding :: "record_filter \<Rightarrow> json" where
  "list_binding f = JObj
    [(''type'', JStr (rf_type f)), (''includeArchived'', JBool (rf_includeArchived f = Some True)),
     (''tag'', jnullable JStr (rf_tag f)),
     (''tagFilter'', jnullable (\<lambda>tags. JArr (map JStr (sort (map toLowerCase tags)))) (rf_tagFilter f)),
     (''dataFilter'', jnullable JObj (rf_dataFilter f)), (''keyContains'', jnullable JStr (rf_keyContains f)),
     (''sort'', JStr (sort_text (sort_of f))), (''order'', JStr (if rf_descending f then ''desc'' else ''asc''))]"

definition SAFE_INTEGER :: int where
  "SAFE_INTEGER = 9007199254740991"

definition safe_integer :: "json option \<Rightarrow> int option" where
  "safe_integer v = (case v of Some (JNum n) \<Rightarrow> if \<bar>n\<bar> \<le> SAFE_INTEGER then Some n else None | _ \<Rightarrow> None)"

definition position_at :: "record_sort \<Rightarrow> record_row \<Rightarrow> jobj" where
  "position_at x r = (''key'', JStr (rd_key r)) # (if x = By_key then [] else [(''k'', JNum (sort_column x r))])"

definition read_position :: "record_sort \<Rightarrow> jobj \<Rightarrow> error + (int \<times> string)" where
  "read_position x position = (case obj_get ''key'' position of
       Some (JStr key) \<Rightarrow> if x = By_key then Inr (0, key)
         else (case safe_integer (obj_get ''k'' position) of None \<Rightarrow> Inl InvalidCursorError | Some k \<Rightarrow> Inr (k, key))
     | _ \<Rightarrow> Inl InvalidCursorError)"

definition key_after :: "bool \<Rightarrow> string \<Rightarrow> record_row \<Rightarrow> bool" where
  "key_after descending key r \<longleftrightarrow> (if descending then rd_key r < key else key < rd_key r)"

definition row_after :: "record_sort \<Rightarrow> bool \<Rightarrow> int \<times> string \<Rightarrow> record_row \<Rightarrow> bool" where
  "row_after x descending p r \<longleftrightarrow> (case p of (k, key) \<Rightarrow>
     if x = By_key then key_after descending key r
     else (if descending then sort_column x r < k else k < sort_column x r)
       \<or> (sort_column x r = k \<and> key_after descending key r))"

text \<open>The condition a cursor adds to a page.\<close>

definition page_condition :: "(string \<Rightarrow> json option) \<Rightarrow> record_filter \<Rightarrow> error + (record_row \<Rightarrow> bool)" where
  "page_condition parse f = (if \<not> given (rf_cursor f) then Inr (\<lambda>r. True)
     else case decodeCursor parse (the (rf_cursor f)) (fingerprint (list_binding f)) of
         Inl e \<Rightarrow> Inl e
       | Inr position \<Rightarrow> (case read_position (sort_of f) position of
             Inl e \<Rightarrow> Inl e
           | Inr p \<Rightarrow> Inr (row_after (sort_of f) (rf_descending f) p)))"

section \<open>Listing records\<close>

record record_item =
  ri_type :: string
  ri_key :: string
  ri_revision :: int
  ri_updated_at :: int
  ri_updated_by :: string
  ri_archived :: bool
  ri_tags :: "string list"
  ri_title :: "string option option"

text \<open>\<open>json_extract\<close> with a quoted label: the text of a string member, or that of an array or object.\<close>

definition extracted_title :: "jobj \<Rightarrow> string \<Rightarrow> string option" where
  "extracted_title value field = (case obj_get field value of
       Some (JStr t) \<Rightarrow> Some t
     | Some (JArr xs) \<Rightarrow> Some (stringify (JArr xs))
     | Some (JObj kvs) \<Rightarrow> Some (stringify (JObj kvs))
     | _ \<Rightarrow> None)"

definition title_shown :: "record_filter \<Rightarrow> record_row \<Rightarrow> string option option" where
  "title_shown f r = (if given (rf_titleField f) \<and> CHR 34 \<notin> set (the (rf_titleField f))
     then Some (case extracted_title (rd_value r) (the (rf_titleField f)) of None \<Rightarrow> None
       | Some t \<Rightarrow> if list_ex (\<lambda>c. \<not> is_space c) t then Some t else None)
     else None)"

definition list_item :: "db \<Rightarrow> record_filter \<Rightarrow> record_row \<Rightarrow> record_item" where
  "list_item s f r = \<lparr>ri_type = rd_type r, ri_key = rd_key r, ri_revision = rd_revision r, ri_updated_at = rd_updated_at r,
     ri_updated_by = rd_updated_by r, ri_archived = rd_archived r, ri_tags = readTags s (rd_type r) (rd_key r),
     ri_title = title_shown f r\<rparr>"

record 'a listed_page =
  lp_items :: "'a list"
  lp_total :: nat
  lp_next_cursor :: "string option"

text \<open>The total is counted before the cursor is read.\<close>

definition listRecords :: "(string \<Rightarrow> json option) \<Rightarrow> json_sql \<Rightarrow> db \<Rightarrow> record_filter
    \<Rightarrow> error + record_item listed_page" where
  "listRecords parse sql s f =
    (if list_ex (\<lambda>(k, v). \<not> scalar v) (data_filter f) then Inl JsError
     else if filter_fails sql s f then Inl (SqliteError ''records'')
     else case page_condition parse f of
       Inl e \<Rightarrow> Inl e
     | Inr after \<Rightarrow>
         (let limit = clamp_limit 200 (rf_limit f); listed = filter (record_listed sql s f) (records s);
              rows = take (limit + 1) (ordered f (filter after listed)); page = take limit rows in
          Inr \<lparr>lp_items = map (list_item s f) page, lp_total = length listed,
            lp_next_cursor = (if length rows > limit
              then Some (encodeCursor (fingerprint (list_binding f)) (position_at (sort_of f) (last page))) else None)\<rparr>))"

section \<open>The history of a record\<close>

record history_item =
  hi_type :: string
  hi_key :: string
  hi_revision :: int
  hi_operation :: record_operation
  hi_schema_version :: int
  hi_value_sha256 :: string
  hi_canonical_artifact_key :: "string option"
  hi_source_artifact_key :: "string option"
  hi_actor :: string
  hi_principal_id :: "string option"
  hi_token_id :: "string option"
  hi_created_at :: int
  hi_message :: "string option"
  hi_value :: "jobj option"

definition history_item_of :: "bool \<Rightarrow> record_revision_row \<Rightarrow> history_item" where
  "history_item_of includeValues v = \<lparr>hi_type = rv_type v, hi_key = rv_key v, hi_revision = rv_revision v,
     hi_operation = rv_operation v, hi_schema_version = rv_schema_version v, hi_value_sha256 = rv_value_sha256 v,
     hi_canonical_artifact_key = rv_canonical_artifact_key v, hi_source_artifact_key = rv_source_artifact_key v,
     hi_actor = rv_actor v, hi_principal_id = record_revision_row.rv_principal_id v, hi_token_id = rv_token_id v,
     hi_created_at = rv_created_at v, hi_message = rv_message v,
     hi_value = (if includeValues then Some (rv_value v) else None)\<rparr>"

definition history_binding :: "string \<Rightarrow> string \<Rightarrow> json" where
  "history_binding ty key = JObj [(''history'', JBool True), (''type'', JStr ty), (''key'', JStr key)]"

definition history_before :: "(string \<Rightarrow> json option) \<Rightarrow> string \<Rightarrow> string \<Rightarrow> string option \<Rightarrow> error + int option" where
  "history_before parse ty key cursor = (if \<not> given cursor then Inr None
     else case decodeCursor parse (the cursor) (fingerprint (history_binding ty key)) of
         Inl e \<Rightarrow> Inl e
       | Inr position \<Rightarrow> (case safe_integer (obj_get ''before'' position) of
             None \<Rightarrow> Inl InvalidCursorError | Some n \<Rightarrow> Inr (Some n)))"

definition listRecordHistory :: "(string \<Rightarrow> json option) \<Rightarrow> db \<Rightarrow> string \<Rightarrow> string \<Rightarrow> int option \<Rightarrow> bool \<Rightarrow> string option
    \<Rightarrow> error + history_item listed_page" where
  "listRecordHistory parse s ty key limit includeValues cursor = (case history_before parse ty key cursor of
       Inl e \<Rightarrow> Inl e
     | Inr before \<Rightarrow>
         (let n = clamp_limit 20 limit;
              own = filter (\<lambda>v. (rv_type v, rv_key v) = (ty, key)) (record_revisions s);
              rows = take (n + 1) (rev (sort_key rv_revision
                (filter (\<lambda>v. case before of None \<Rightarrow> True | Some b \<Rightarrow> rv_revision v < b) own)));
              page = take n rows in
          Inr \<lparr>lp_items = map (history_item_of includeValues) page, lp_total = length own,
            lp_next_cursor = (if length rows > n
              then Some (encodeCursor (fingerprint (history_binding ty key)) [(''before'', JNum (rv_revision (last page)))])
              else None)\<rparr>))"

section \<open>Types in use\<close>

definition listRecordTypesInUse :: "db \<Rightarrow> namespace_restrictions option \<Rightarrow> string list" where
  "listRecordTypesInUse s restrictions = sort (remdups (map rd_type (filter (\<lambda>r. \<not> rd_archived r
     \<and> recordRestrictionCondition restrictions Read_side (rd_type r) (rd_key r)) (records s))))"

record type_count =
  tc_type :: string
  tc_count :: nat
  tc_archived_count :: nat

definition countRecordTypes :: "db \<Rightarrow> namespace_restrictions option \<Rightarrow> type_count list" where
  "countRecordTypes s restrictions =
    (let readable = filter (\<lambda>r. recordRestrictionCondition restrictions Read_side (rd_type r) (rd_key r)) (records s) in
     map (\<lambda>ty. \<lparr>tc_type = ty, tc_count = length (filter (\<lambda>r. rd_type r = ty \<and> \<not> rd_archived r) readable),
       tc_archived_count = length (filter (\<lambda>r. rd_type r = ty \<and> rd_archived r) readable)\<rparr>)
       (sort (remdups (map rd_type readable))))"

end
