(* ===== verification/Writing.thy ===== *)
theory Writing
  imports Records
begin

section \<open>What a write leaves\<close>

definition core :: "db \<Rightarrow> record_row list \<times> record_revision_row list \<times> (string \<Rightarrow> int)" where
  "core s = (records s, record_revisions s, fence_of s)"

lemma fence_of_table: "fence_of s = (\<lambda>r. case by_key fe_resource r (db_fences s) of None \<Rightarrow> 0 | Some f \<Rightarrow> fe_current_fence f)"
  by (rule ext) (simp add: fence_of_def lookupFence_def)

lemmas core_tables = core_def records_def record_revisions_def fence_of_table

lemma core_after:
  assumes "m s = Inr (a, s')" and "\<And>P. tx_inv (\<lambda>s. P (core s)) m"
  shows "core s' = core s"
  by (rule tx_validD [OF assms(2) [of "\<lambda>c. c = core s"] refl assms(1)])

lemma core_set_library:
  "core (set_library f s) = (lb_records (f (db_library s)), lb_revisions (f (db_library s)), fence_of s)"
  by (simp add: core_tables set_library_def)

lemma core_library: "(lb_records (db_library s), lb_revisions (db_library s), fence_of s) = core s"
  by (simp add: core_def records_def record_revisions_def)

lemma core_journal [tx_wp]: "tx_inv (\<lambda>s. P (core s)) (appendJournal h kind res orig fence data)"
  unfolding appendJournal_def
  by (intro tx_inv_write) (simp add: core_tables)

lemma core_insert_tag [tx_wp]: "tx_inv (\<lambda>s. P (core s)) (insert_tag ty key tag)"
  unfolding insert_tag_def by (intro tx_wp tx_inv_write) (simp add: core_set_library core_library)

lemma core_replaceTags [tx_wp]: "tx_inv (\<lambda>s. P (core s)) (replaceTags ty key tags)"
  unfolding replaceTags_def by (intro tx_wp tx_inv_write) (simp add: core_set_library core_library)

lemma core_writeSearchDoc [tx_wp]: "tx_inv (\<lambda>s. P (core s)) (writeSearchDoc h ty key body digest b)"
  unfolding writeSearchDoc_def by (intro tx_wp tx_inv_write) (simp add: core_set_library core_library)

lemma core_set_tombstone [tx_wp]: "tx_inv (\<lambda>s. P (core s)) (set_tombstone ty key b)"
  unfolding set_tombstone_def by (intro tx_wp tx_inv_write) (simp add: core_set_library core_library)

lemma core_fence_check [tx_wp]: "tx_inv (\<lambda>s. P (core s)) (fence_check h ty key f)"
  unfolding fence_check_def by (intro tx_wp)

lemma core_event [tx_wp]: "tx_inv (\<lambda>s. P (core s)) (record_event h kind res orig actor fence)"
  unfolding record_event_def by (intro tx_wp)

lemma core_snapshot [tx_wp]: "tx_inv (\<lambda>s. P (core s)) (upsertRecordSnapshot h ty key value digest t k orig)"
  unfolding upsertRecordSnapshot_def Let_def
  by (intro tx_wp tx_inv_write) (simp add: core_tables)

lemma core_receipt: "core (di_insert h k q j s) = core s"
  by (simp add: di_insert_def core_tables split: option.split)

text \<open>A deduplicated write leaves what its body leaves, or nothing new.\<close>

lemma do_once_core:
  assumes "do_once h idem m s = Inr (x, s')"
  shows "core s' = core s \<or> (\<exists>y s1. m s = Inr (y, s1) \<and> core s' = core s1)"
  using assms
  by (cases idem) (auto simp: do_once_def withDoIdempotency_def tx_run core_receipt split: option.splits if_splits)

lemma core_bump: "core (bump_fence res s) = (records s, record_revisions s, (fence_of s)(res := fence_of s res + 1))"
  by (auto simp: core_def records_def record_revisions_def bump_fence_def fence_of_bump [unfolded bump_fence_def] fun_eq_iff)

lemma bumpFence_run: "bumpFence res s = Inr (f, s') \<Longrightarrow>
    core s' = (records s, record_revisions s, (fence_of s)(res := fence_of s res + 1)) \<and> f = fence_of s' res"
  by (auto simp: bumpFence_def tx_run core_bump fence_of_def lookupFence_bump split: option.splits)

lemma insert_revision_run: "insert_revision r s = Inr (u, s') \<Longrightarrow>
    core s' = (records s, record_revisions s @ [r], fence_of s) \<and> rv_id r \<notin> rv_id ` set (record_revisions s)"
  by (auto simp: insert_revision_def tx_run core_tables set_library_def rows_insert_Some split: option.splits)

lemma insertRevisionRow_run: "insertRevisionRow h r orig s = Inr (u, s') \<Longrightarrow>
    core s' = (records s, record_revisions s @ [r], fence_of s)"
proof -
  assume "insertRevisionRow h r orig s = Inr (u, s')"
  then obtain v s1 where ins: "insert_revision r s = Inr (v, s1)"
    and rest: "(case rv_canonical_artifact_key r of
        None \<Rightarrow> tx_return ()
      | Some k \<Rightarrow> tx_when (k \<noteq> [])
          (upsertRecordSnapshot h (rv_type r) (rv_key r) (rv_value r) (rv_value_sha256 r) (rv_created_at r) k orig)) s1
      = Inr (u, s')"
    by (auto simp: insertRevisionRow_def tx_run)
  have "core s' = core s1" by (rule core_after, rule rest, intro tx_wp)
  with insert_revision_run [OF ins] show ?thesis by simp
qed

lemma update_record_run: "update_record ty key f s = Inr (u, s') \<Longrightarrow>
    core s' = (rows_set (\<lambda>r. rd_id r = (ty, key)) f (records s), record_revisions s, fence_of s)"
  by (auto simp: update_record_def core_tables set_library_def)

lemma insert_record_run: "insert_record r s = Inr (u, s') \<Longrightarrow>
    core s' = (records s @ [r], record_revisions s, fence_of s) \<and> rd_id r \<notin> rd_id ` set (records s)"
  by (auto simp: insert_record_def tx_run core_tables set_library_def rows_insert_Some split: option.splits)

lemma rows_set_unique:
  assumes "distinct (map k t)" and "by_key k x t = Some e"
  shows "rows_set (\<lambda>r. k r = x) f t = rows_set (\<lambda>r. k r = x) (\<lambda>_. f e) t"
  unfolding rows_set_def
proof (rule map_cong [OF refl])
  fix r assume r: "r \<in> set t"
  show "(if k r = x then f r else r) = (if k r = x then f e else r)"
    using by_key_unique [OF assms(1) r] assms(2) by auto
qed

text \<open>The change a write makes to one record: its new row, and the revision that records it.\<close>

definition matches :: "record_row \<Rightarrow> record_operation \<Rightarrow> record_revision_row \<Rightarrow> bool" where
  "matches r operation v \<longleftrightarrow> (rv_type v, rv_key v) = rd_id r \<and> rv_revision v = rd_revision r \<and> rv_operation v = operation
     \<and> rv_schema_version v = rd_schema_version r \<and> rv_value v = rd_value r \<and> rv_value_sha256 v = rd_value_sha256 r"

definition archives :: "record_operation \<Rightarrow> bool \<Rightarrow> bool" where
  "archives operation b = (case operation of RO_archived \<Rightarrow> True | RO_unarchived \<Rightarrow> False | _ \<Rightarrow> b)"

definition bumped :: "db \<Rightarrow> string \<times> string \<Rightarrow> string \<Rightarrow> int" where
  "bumped s i = (fence_of s)(formatRecordResource (fst i) (snd i) := fence_of s (formatRecordResource (fst i) (snd i)) + 1)"

definition created :: "db \<Rightarrow> db \<Rightarrow> record_row \<Rightarrow> record_revision_row \<Rightarrow> bool" where
  "created s s' r v \<longleftrightarrow> rd_id r \<notin> rd_id ` set (records s) \<and> rd_revision r = 1 \<and> \<not> rd_archived r \<and> matches r RO_created v
     \<and> core s' = (records s @ [r], record_revisions s @ [v], bumped s (rd_id r))"

definition revised :: "db \<Rightarrow> db \<Rightarrow> record_row \<Rightarrow> record_row \<Rightarrow> record_operation \<Rightarrow> record_revision_row \<Rightarrow> bool" where
  "revised s s' e r operation v \<longleftrightarrow> by_key rd_id (rd_id r) (records s) = Some e \<and> rd_revision r = rd_revision e + 1
     \<and> rd_archived r = archives operation (rd_archived e) \<and> matches r operation v
     \<and> core s' = (rows_set (\<lambda>x. rd_id x = rd_id r) (\<lambda>_. r) (records s), record_revisions s @ [v], bumped s (rd_id r))"

lemma matches_revision_of [simp]: "matches r operation (revision_of r operation ck sk msg orig)"
  by (simp add: matches_def revision_of_def rd_id_def)

lemma core_eq: "core s' = (rs, vs, f) \<longleftrightarrow> records s' = rs \<and> record_revisions s' = vs \<and> fence_of s' = f"
  by (auto simp: core_def)

text \<open>A write is three writes and what follows them.\<close>

lemma write_run:
  assumes "tx_seq m (tx_bind b (\<lambda>f. tx_seq (n f) (k f))) s = Inr (x, s')"
  obtains u1 s1 f s2 u3 s3 where "m s = Inr (u1, s1)" "b s1 = Inr (f, s2)" "n f s2 = Inr (u3, s3)" "k f s3 = Inr (x, s')"
  using assms unfolding tx_seq_ok tx_bind_ok by blast

lemma guarded_run:
  assumes "tx_bind (tx_read look) (\<lambda>existing. case existing of None \<Rightarrow> tx_throw err | Some e \<Rightarrow>
      if c e then tx_throw err' else tx_seq chk (tx_seq (m e) (tx_bind b (\<lambda>f. tx_seq (n e f) (k e f))))) s = Inr (x, s')"
  obtains e u0 s0 u1 s1 f s2 u3 s3 where "look s = Some e" "\<not> c e" "chk s = Inr (u0, s0)" "m e s0 = Inr (u1, s1)"
    "b s1 = Inr (f, s2)" "n e f s2 = Inr (u3, s3)" "k e f s3 = Inr (x, s')"
proof -
  from assms obtain e where e: "look s = Some e" "\<not> c e"
    and rest: "tx_seq chk (tx_seq (m e) (tx_bind b (\<lambda>f. tx_seq (n e f) (k e f)))) s = Inr (x, s')"
    by (auto simp: tx_bind_def tx_read_def split: option.splits if_splits)
  from rest obtain u0 s0 where chk: "chk s = Inr (u0, s0)"
    and w: "tx_seq (m e) (tx_bind b (\<lambda>f. tx_seq (n e f) (k e f))) s0 = Inr (x, s')"
    unfolding tx_seq_ok [of chk] by blast
  from w show thesis by (rule write_run) (rule that [OF e chk])
qed

lemma create_created:
  assumes "createRecord h sha256 w orig s = Inr (x, s')"
  shows "\<exists>v. created s s' (new_record sha256 w (date_now h)) v"
proof -
  let ?r = "new_record sha256 w (date_now h)"
  let ?v = "revision_of ?r RO_created (rw_canonical_artifact_key w) (rw_source_artifact_key w) (rw_message w) orig"
  let ?res = "formatRecordResource (rw_type w) (rw_key w)"
  obtain u1 s1 f s2 u3 s3 where
      a: "insert_record ?r s = Inr (u1, s1)" "bumpFence ?res s1 = Inr (f, s2)"
         "insertRevisionRow h ?v orig s2 = Inr (u3, s3)"
    and rest: "tx_seq (tx_for (case rw_tags w of None \<Rightarrow> [] | Some ts \<Rightarrow> ts) (insert_tag (rw_type w) (rw_key w)))
      (tx_seq (record_event h ''record.created'' ?res orig (rw_actor w) f)
      (tx_seq (writeSearchDoc h (rw_type w) (rw_key w) (extractSearchText (rw_value w)) (rd_value_sha256 ?r) False)
      (tx_return (show_record ?r (rw_value w) (case rw_tags w of None \<Rightarrow> [] | Some ts \<Rightarrow> ts) f)))) s3 = Inr (x, s')"
    by (rule write_run [OF assms [unfolded createRecord_def Let_def]])
  have "core s' = core s3" by (rule core_after, rule rest, intro tx_wp)
  with insert_record_run [OF a(1)] bumpFence_run [OF a(2)] insertRevisionRow_run [OF a(3)]
  have "created s s' ?r ?v"
    by (auto simp: created_def core_eq bumped_def Let_def rd_id_def new_record_def)
  then show ?thesis ..
qed

lemma replace_revised:
  assumes uniq: "distinct (map rd_id (records s))" and e: "find_record s (rw_type w) (rw_key w) = Some e"
    and run: "replace_record h sha256 w orig e b s = Inr (x, s')"
  shows "\<exists>v. revised s s' e (replaced sha256 w (date_now h) e) RO_set v"
proof -
  let ?r = "replaced sha256 w (date_now h) e"
  let ?v = "revision_of ?r RO_set (rw_canonical_artifact_key w) (rw_source_artifact_key w) (rw_message w) orig"
  let ?res = "formatRecordResource (rw_type w) (rw_key w)"
  obtain u1 s1 f s2 u3 s3 where
      a: "update_record (rw_type w) (rw_key w) (\<lambda>x. (replaced sha256 w (date_now h) x)\<lparr>rd_revision := rd_revision ?r\<rparr>) s = Inr (u1, s1)"
         "bumpFence ?res s1 = Inr (f, s2)" "insertRevisionRow h ?v orig s2 = Inr (u3, s3)"
    and rest: "tx_seq (case rw_tags w of None \<Rightarrow> tx_return () | Some ts \<Rightarrow> replaceTags (rw_type w) (rw_key w) ts)
    (tx_bind (case rw_tags w of Some ts \<Rightarrow> tx_return ts | None \<Rightarrow> tx_read (\<lambda>s. readTags s (rw_type w) (rw_key w))) (\<lambda>tags.
     tx_seq (record_event h ''record.updated'' ?res orig (rw_actor w) f)
    (tx_seq (writeSearchDoc h (rw_type w) (rw_key w) (extractSearchText (rw_value w)) (rd_value_sha256 ?r) b)
    (tx_return (show_record ?r (rw_value w) tags f))))) s3 = Inr (x, s')"
    by (rule write_run [OF run [unfolded replace_record_def Let_def]])
  have tail: "core s' = core s3" by (rule core_after, rule rest, intro tx_wp)
  have id: "rd_id e = (rw_type w, rw_key w)" "rd_id ?r = (rw_type w, rw_key w)"
    using by_key_Some [OF e [unfolded find_record_def]] by (auto simp: replaced_def rd_id_def)
  have row: "(replaced sha256 w (date_now h) e)\<lparr>rd_revision := rd_revision ?r\<rparr> = ?r" by simp
  have "revised s s' e ?r RO_set ?v"
    using update_record_run [OF a(1)] bumpFence_run [OF a(2)] insertRevisionRow_run [OF a(3)] tail
      rows_set_unique [OF uniq e [unfolded find_record_def], of "\<lambda>x. (replaced sha256 w (date_now h) x)\<lparr>rd_revision := rd_revision ?r\<rparr>"] e
    by (simp add: revised_def core_eq bumped_def Let_def id row archives_def find_record_def) (simp add: replaced_def)
  then show ?thesis ..
qed

lemma patch_revised:
  assumes uniq: "distinct (map rd_id (records s))" and run: "patch_body h sha256 q merged orig s = Inr (x, s')"
  shows "\<exists>e v. find_record s (rp_type q) (rp_key q) = Some e \<and> \<not> rd_archived e
    \<and> assertResourceFence s (formatRecordResource (rp_type q) (rp_key q)) (rp_fence q) (date_now h) False = Inr ()
    \<and> revised s s' e (patched sha256 q merged (date_now h) e) RO_patch v"
proof -
  let ?res = "formatRecordResource (rp_type q) (rp_key q)"
  obtain e u0 s0 u1 s1 f s2 u3 s3 where e: "find_record s (rp_type q) (rp_key q) = Some e" and live: "\<not> rd_archived e"
    and chk: "fence_check h (rp_type q) (rp_key q) (rp_fence q) s = Inr (u0, s0)"
    and a: "update_record (rp_type q) (rp_key q) (\<lambda>x. (patched sha256 q merged (date_now h) x)
           \<lparr>rd_revision := rd_revision (patched sha256 q merged (date_now h) e)\<rparr>) s0 = Inr (u1, s1)"
         "bumpFence ?res s1 = Inr (f, s2)"
         "insert_revision (revision_of (patched sha256 q merged (date_now h) e) RO_patch None None (rp_message q) orig) s2 = Inr (u3, s3)"
    and rest: "tx_bind (tx_read (\<lambda>s. readTags s (rp_type q) (rp_key q))) (\<lambda>tags.
          tx_seq (record_event h ''record.updated'' ?res orig (rp_actor q) f)
         (tx_seq (writeSearchDoc h (rp_type q) (rp_key q) (extractSearchText merged)
             (rd_value_sha256 (patched sha256 q merged (date_now h) e)) False)
         (tx_return (show_record (patched sha256 q merged (date_now h) e) merged tags f)))) s3 = Inr (x, s')"
    by (rule guarded_run [OF run [unfolded patch_body_def Let_def]])
  let ?r = "patched sha256 q merged (date_now h) e"
  let ?v = "revision_of ?r RO_patch None None (rp_message q) orig"
  have chk: "s0 = s" "assertResourceFence s ?res (rp_fence q) (date_now h) False = Inr ()"
    using chk by (auto simp: fence_check_def tx_run)
  have tail: "core s' = core s3" by (rule core_after, rule rest, intro tx_wp)
  have id: "rd_id e = (rp_type q, rp_key q)" "rd_id ?r = (rp_type q, rp_key q)"
    using by_key_Some [OF e [unfolded find_record_def]] by (auto simp: patched_def rd_id_def)
  have row: "(patched sha256 q merged (date_now h) e)\<lparr>rd_revision := rd_revision ?r\<rparr> = ?r" by simp
  have "revised s s' e ?r RO_patch ?v"
    using update_record_run [OF a(1)] bumpFence_run [OF a(2)] insert_revision_run [OF a(3)] tail chk(1)
      rows_set_unique [OF uniq e [unfolded find_record_def], of "\<lambda>x. (patched sha256 q merged (date_now h) x)\<lparr>rd_revision := rd_revision ?r\<rparr>"] e
    by (simp add: revised_def core_eq bumped_def Let_def id row archives_def find_record_def) (simp add: patched_def)
  with e live chk(2) show ?thesis by blast
qed

lemma lifecycle_revised:
  assumes uniq: "distinct (map rd_id (records s))" and run: "lifecycle_body h b q orig s = Inr (x, s')"
  shows "\<exists>e v. find_record s (rlc_type q) (rlc_key q) = Some e
    \<and> assertResourceFence s (formatRecordResource (rlc_type q) (rlc_key q)) (rlc_fence q) (date_now h) False = Inr ()
    \<and> revised s s' e (lifecycled b q (date_now h) e) (if b then RO_archived else RO_unarchived) v"
proof -
  let ?res = "formatRecordResource (rlc_type q) (rlc_key q)"
  let ?op = "if b then RO_archived else RO_unarchived"
  obtain e u0 s0 u1 s1 f s2 u3 s3 where e: "find_record s (rlc_type q) (rlc_key q) = Some e" and live: "rd_archived e \<noteq> b"
    and chk: "fence_check h (rlc_type q) (rlc_key q) (rlc_fence q) s = Inr (u0, s0)"
    and a: "update_record (rlc_type q) (rlc_key q) (\<lambda>x. (lifecycled b q (date_now h) x)
           \<lparr>rd_revision := rd_revision (lifecycled b q (date_now h) e)\<rparr>) s0 = Inr (u1, s1)"
         "bumpFence ?res s1 = Inr (f, s2)"
         "insert_revision (revision_of (lifecycled b q (date_now h) e) ?op None None (rlc_message q) orig) s2 = Inr (u3, s3)"
    and rest: "tx_bind (tx_read (\<lambda>s. readTags s (rlc_type q) (rlc_key q))) (\<lambda>tags.
          tx_seq (record_event h (if b then ''record.archived'' else ''record.unarchived'') ?res orig (rlc_actor q) f)
         (tx_seq (set_tombstone (rlc_type q) (rlc_key q) b)
         (tx_return (show_record (lifecycled b q (date_now h) e) (rd_value e) tags f)))) s3 = Inr (x, s')"
    by (rule guarded_run [OF run [unfolded lifecycle_body_def Let_def]])
  let ?r = "lifecycled b q (date_now h) e"
  let ?v = "revision_of ?r ?op None None (rlc_message q) orig"
  have chk: "s0 = s" "assertResourceFence s ?res (rlc_fence q) (date_now h) False = Inr ()"
    using chk by (auto simp: fence_check_def tx_run)
  have tail: "core s' = core s3" by (rule core_after, rule rest, intro tx_wp)
  have id: "rd_id e = (rlc_type q, rlc_key q)" "rd_id ?r = (rlc_type q, rlc_key q)"
    using by_key_Some [OF e [unfolded find_record_def]] by (auto simp: lifecycled_def rd_id_def)
  have row: "(lifecycled b q (date_now h) e)\<lparr>rd_revision := rd_revision ?r\<rparr> = ?r" by simp
  have "revised s s' e ?r ?op ?v"
    using update_record_run [OF a(1)] bumpFence_run [OF a(2)] insert_revision_run [OF a(3)] tail chk(1)
      rows_set_unique [OF uniq e [unfolded find_record_def], of "\<lambda>x. (lifecycled b q (date_now h) x)\<lparr>rd_revision := rd_revision ?r\<rparr>"] e
    by (simp add: revised_def core_eq bumped_def Let_def id row archives_def find_record_def) (simp add: lifecycled_def)
  with e chk(2) show ?thesis by blast
qed

lemma set_revised:
  assumes uniq: "distinct (map rd_id (records s))" and run: "set_body h sha256 w orig s = Inr (x, s')"
  shows "\<exists>e v. find_record s (rw_type w) (rw_key w) = Some e
    \<and> assertResourceFence s (formatRecordResource (rw_type w) (rw_key w)) (rw_fence w) (date_now h) False = Inr ()
    \<and> revised s s' e (replaced sha256 w (date_now h) e) RO_set v"
proof -
  obtain e where e: "find_record s (rw_type w) (rw_key w) = Some e"
    and chk: "assertResourceFence s (formatRecordResource (rw_type w) (rw_key w)) (rw_fence w) (date_now h) False = Inr ()"
    and rest: "replace_record h sha256 w orig e False s = Inr (x, s')"
    using run by (auto simp: set_body_def fence_check_def tx_run split: option.splits)
  from replace_revised [OF uniq e rest] e chk show ?thesis by blast
qed

text \<open>Stamping changes the artifact keys of a revision only.\<close>

definition revision_core :: "record_revision_row \<Rightarrow> ((string \<times> string) \<times> int) \<times> record_operation \<times> int \<times> jobj \<times> string" where
  "revision_core v = (rv_id v, rv_operation v, rv_schema_version v, rv_value v, rv_value_sha256 v)"

lemma stamp_stamped:
  assumes "stampArtifacts h ty key n ck sk orig s = Inr (x, s')"
  shows "records s' = records s \<and> map revision_core (record_revisions s') = map revision_core (record_revisions s)
    \<and> fence_of s' = fence_of s"
proof -
  let ?stamp = "\<lambda>l. l\<lparr>lb_revisions := rows_set (\<lambda>r. rv_id r = ((ty, key), n))
             (\<lambda>r. r\<lparr>rv_canonical_artifact_key := Some ck, rv_source_artifact_key := sk\<rparr>) (lb_revisions l)\<rparr>"
  obtain r :: record_revision_row where "tx_seq (upsertRecordSnapshot h ty key (rv_value r) (rv_value_sha256 r) (rv_created_at r) ck orig)
      (tx_write (set_library ?stamp)) s = Inr (x, s')"
    using assms by (auto simp: stampArtifacts_def tx_bind_def tx_read_def split: option.splits)
  then obtain u1 s1 where snap: "upsertRecordSnapshot h ty key (rv_value r) (rv_value_sha256 r) (rv_created_at r) ck orig s = Inr (u1, s1)"
    and rest: "s' = set_library ?stamp s1"
    unfolding tx_seq_ok tx_write_ok by blast
  have "core s1 = core s" by (rule core_after, rule snap, intro tx_wp)
  then show ?thesis
    by (simp add: rest core_tables set_library_def rows_set_def revision_core_def rv_id_def)
qed

section \<open>Steps\<close>

text \<open>
  The writes of records in any order, with those of the rest of the program between them: these leave the
  records alone and never take a fence back.
\<close>

inductive record_step :: "db \<Rightarrow> db \<Rightarrow> bool" where
  rst_create: "createRecord h sha w orig s = Inr (x1, s') \<Longrightarrow> record_step s s'"
| rst_set: "setRecord h sha w orig idem s = Inr (x2, s') \<Longrightarrow> record_step s s'"
| rst_put: "putRecord h sha w orig s = Inr (x3, s') \<Longrightarrow> record_step s s'"
| rst_patch: "patchRecord h sha before q orig idem s = Inr (x4, s') \<Longrightarrow> record_step s s'"
| rst_archive: "archiveRecord h l orig idem s = Inr (x5, s') \<Longrightarrow> record_step s s'"
| rst_unarchive: "unarchiveRecord h l orig idem s = Inr (x6, s') \<Longrightarrow> record_step s s'"
| rst_stamp: "stampArtifacts h ty key n ck sk orig s = Inr (x7, s') \<Longrightarrow> record_step s s'"
| rst_elsewhere: "db_library s' = db_library s \<Longrightarrow> (\<And>res. fence_of s res \<le> fence_of s' res) \<Longrightarrow> record_step s s'"

text \<open>What any step is: a new record, a new revision of one, or neither.\<close>

definition library_move :: "db \<Rightarrow> db \<Rightarrow> bool" where
  "library_move s s' \<longleftrightarrow> (\<exists>r v. created s s' r v) \<or> (\<exists>e r operation v. revised s s' e r operation v \<and> operation \<noteq> RO_created)
     \<or> (records s' = records s \<and> map revision_core (record_revisions s') = map revision_core (record_revisions s)
        \<and> (\<forall>res. fence_of s res \<le> fence_of s' res))"

lemma still_move: "core s' = core s \<Longrightarrow> library_move s s'"
  by (simp add: library_move_def core_def)

lemma revised_move: "revised s s' e r operation v \<Longrightarrow> operation \<noteq> RO_created \<Longrightarrow> library_move s s'"
  unfolding library_move_def by blast

lemma move_core: "library_move s t \<Longrightarrow> core u = core t \<Longrightarrow> library_move s u"
  by (simp add: library_move_def created_def revised_def) (simp add: core_def)

lemma once_move:
  assumes run: "do_once h idem m s = Inr (x, s')" and body: "\<And>y s1. m s = Inr (y, s1) \<Longrightarrow> library_move s s1"
  shows "library_move s s'"
  using do_once_core [OF run] body still_move move_core by metis

lemma lifecycle_move:
  "distinct (map rd_id (records s)) \<Longrightarrow> lifecycle_body h b q orig s = Inr (x, s') \<Longrightarrow> library_move s s'"
  by (drule (1) lifecycle_revised) (elim exE conjE, erule revised_move, simp)

lemma step_move:
  assumes "record_step s s'" and uniq: "distinct (map rd_id (records s))"
  shows "library_move s s'"
  using assms
proof cases
  case (rst_create h sha w orig x1)
  then show ?thesis using create_created unfolding library_move_def by blast
next
  case (rst_set h sha w orig idem x2)
  from rst_set [unfolded setRecord_def] show ?thesis
    by (rule once_move) (use set_revised [OF uniq] in \<open>blast intro: revised_move\<close>)
next
  case (rst_put h sha w orig x3)
  show ?thesis
  proof (cases "find_record s (rw_type w) (rw_key w)")
    case None
    with rst_put have "createRecord h sha w orig s = Inr (x3, s')" by (simp add: putRecord_def tx_bind_def tx_read_def)
    then show ?thesis using create_created unfolding library_move_def by blast
  next
    case (Some e)
    with rst_put have "replace_record h sha w orig e (rd_archived e) s = Inr (x3, s')"
      by (simp add: putRecord_def tx_bind_def tx_read_def)
    from replace_revised [OF uniq Some this] show ?thesis by (blast intro: revised_move)
  qed
next
  case (rst_patch h sha before q orig idem x4)
  then obtain merged where "do_once h idem (patch_body h sha q merged orig) s = Inr (x4, s')"
    by (auto simp: patchRecord_def tx_run)
  then show ?thesis
    by (rule once_move) (use patch_revised [OF uniq] in \<open>blast intro: revised_move\<close>)
next
  case (rst_archive h l orig idem x5)
  from rst_archive [unfolded archiveRecord_def] show ?thesis
    by (rule once_move) (rule lifecycle_move [OF uniq])
next
  case (rst_unarchive h l orig idem x6)
  from rst_unarchive [unfolded unarchiveRecord_def] show ?thesis
    by (rule once_move) (rule lifecycle_move [OF uniq])
next
  case (rst_stamp h ty key n ck sk orig x7)
  from stamp_stamped [OF this] show ?thesis by (simp add: library_move_def)
next
  case rst_elsewhere
  then show ?thesis by (simp add: library_move_def records_def record_revisions_def)
qed

section \<open>History\<close>

definition history :: "db \<Rightarrow> string \<times> string \<Rightarrow> record_revision_row list" where
  "history s i = filter (\<lambda>v. (rv_type v, rv_key v) = i) (record_revisions s)"

text \<open>A record is archived as the last archiving or its reverse left it.\<close>

definition archived_after :: "record_operation list \<Rightarrow> bool" where
  "archived_after = foldl (\<lambda>b operation. archives operation b) False"

definition faithful :: "record_row \<Rightarrow> record_revision_row list \<Rightarrow> bool" where
  "faithful r vs \<longleftrightarrow> vs \<noteq> [] \<and> map rv_revision vs = map int [1..<Suc (length vs)] \<and> rd_revision r = int (length vs)
     \<and> rv_operation (hd vs) = RO_created \<and> RO_created \<notin> rv_operation ` set (tl vs)
     \<and> rd_archived r = archived_after (map rv_operation vs)
     \<and> rv_value (last vs) = rd_value r \<and> rv_value_sha256 (last vs) = rd_value_sha256 r
     \<and> rv_schema_version (last vs) = rd_schema_version r"

definition library_wf :: "db \<Rightarrow> bool" where
  "library_wf s \<longleftrightarrow> distinct (map rd_id (records s)) \<and> (\<forall>r \<in> set (records s). faithful r (history s (rd_id r)))
     \<and> (\<forall>v \<in> set (record_revisions s). (rv_type v, rv_key v) \<in> rd_id ` set (records s))"

lemma faithful_first: "matches r RO_created v \<Longrightarrow> rd_revision r = 1 \<Longrightarrow> \<not> rd_archived r \<Longrightarrow> faithful r [v]"
  by (simp add: faithful_def matches_def archived_after_def archives_def)

lemma faithful_next:
  assumes "faithful e vs" and "matches r operation v" and "rd_revision r = rd_revision e + 1"
    and "rd_archived r = archives operation (rd_archived e)" and "operation \<noteq> RO_created"
  shows "faithful r (vs @ [v])"
  using assms by (auto simp: faithful_def matches_def archived_after_def)

lemma created_wf:
  assumes wf: "library_wf s" and new: "created s s' r v"
  shows "library_wf s'"
proof -
  from new have r: "rd_id r \<notin> rd_id ` set (records s)" "records s' = records s @ [r]" "record_revisions s' = record_revisions s @ [v]"
    and v: "matches r RO_created v" and first: "faithful r [v]"
    using faithful_first by (auto simp: created_def core_eq)
  have "\<forall>u \<in> set (record_revisions s). (rv_type u, rv_key u) \<noteq> rd_id r" using wf r(1) unfolding library_wf_def by metis
  then have "history s (rd_id r) = []" by (simp add: history_def filter_empty_conv)
  then have own: "history s' (rd_id r) = [v]" using r(3) v by (simp add: history_def matches_def)
  have other: "history s' (rd_id x) = history s (rd_id x)" if "x \<in> set (records s)" for x
  proof -
    have "rd_id x \<noteq> rd_id r" using r(1) that by (metis image_eqI)
    then show ?thesis using r(3) v by (auto simp: history_def matches_def)
  qed
  show ?thesis using wf r v first own other by (auto simp: library_wf_def matches_def)
qed

lemma revised_wf:
  assumes wf: "library_wf s" and new: "revised s s' e r operation v" and proper: "operation \<noteq> RO_created"
  shows "library_wf s'"
proof -
  from new have e: "by_key rd_id (rd_id r) (records s) = Some e" and v: "matches r operation v"
    and rows: "records s' = rows_set (\<lambda>x. rd_id x = rd_id r) (\<lambda>_. r) (records s)" "record_revisions s' = record_revisions s @ [v]"
    and chg: "rd_revision r = rd_revision e + 1" "rd_archived r = archives operation (rd_archived e)"
    by (auto simp: revised_def core_eq)
  have es: "e \<in> set (records s)" "rd_id e = rd_id r" using by_key_Some [OF e] by auto
  have ids: "map rd_id (records s') = map rd_id (records s)" by (simp add: rows(1) rows_set_def)
  have "faithful e (history s (rd_id e))" using wf es(1) by (simp add: library_wf_def)
  moreover have "history s' (rd_id r) = history s (rd_id e) @ [v]"
    using rows(2) v es(2) by (simp add: history_def matches_def)
  ultimately have own: "faithful r (history s' (rd_id r))" using faithful_next [OF _ v chg proper] by simp
  have other: "history s' (rd_id x) = history s (rd_id x)" if "rd_id x \<noteq> rd_id r" for x
    using rows(2) v that by (auto simp: history_def matches_def)
  have "rd_id ` set (records s') = rd_id ` set (records s)" using ids by (metis set_map)
  moreover have "(rv_type v, rv_key v) \<in> rd_id ` set (records s)" using v es by (metis image_eqI matches_def)
  ultimately have "\<forall>v \<in> set (record_revisions s'). (rv_type v, rv_key v) \<in> rd_id ` set (records s')"
    using wf rows(2) by (auto simp: library_wf_def)
  moreover have "faithful x (history s' (rd_id x))" if "x \<in> set (records s')" for x
    using that wf own other by (auto simp: rows(1) set_rows_set library_wf_def split: if_splits)
  ultimately show ?thesis using wf ids by (simp add: library_wf_def)
qed

lemma faithful_core: "map revision_core us = map revision_core vs \<Longrightarrow> faithful r us = faithful r vs"
proof -
  assume eq: "map revision_core us = map revision_core vs"
  have get: "map f us = map f vs" if "\<And>v. f v = g (revision_core v)" for f :: "record_revision_row \<Rightarrow> 'b" and g
  proof -
    have "map f us = map g (map revision_core us)" "map f vs = map g (map revision_core vs)" using that by simp_all
    then show ?thesis using eq by simp
  qed
  have ops: "map rv_operation us = map rv_operation vs" by (rule get [of _ "\<lambda>(i, x, sv, va, d). x"]) (simp add: revision_core_def)
  have nums: "map rv_revision us = map rv_revision vs"
    by (rule get [of _ "\<lambda>(i, x, sv, va, d). snd i"]) (simp add: revision_core_def rv_id_def)
  have vals: "map (\<lambda>v. (rv_value v, rv_value_sha256 v, rv_schema_version v)) us = map (\<lambda>v. (rv_value v, rv_value_sha256 v, rv_schema_version v)) vs"
    by (rule get [of _ "\<lambda>(i, x, sv, va, d). (va, d, sv)"]) (simp add: revision_core_def)
  have len: "length us = length vs" using eq by (metis length_map)
  show ?thesis
  proof (cases "us = []")
    case False
    then have "vs \<noteq> []" using len by auto
    have "rv_operation (hd us) = rv_operation (hd vs)" using ops False \<open>vs \<noteq> []\<close> by (metis hd_map)
    moreover have "rv_operation ` set (tl us) = rv_operation ` set (tl vs)" using ops by (metis map_tl set_map)
    moreover have "(\<lambda>v. (rv_value v, rv_value_sha256 v, rv_schema_version v)) (last us) = (\<lambda>v. (rv_value v, rv_value_sha256 v, rv_schema_version v)) (last vs)"
      using vals False \<open>vs \<noteq> []\<close> by (metis (no_types, lifting) last_map)
    ultimately show ?thesis using ops nums len False \<open>vs \<noteq> []\<close> by (simp add: faithful_def)
  next
    case True
    with len have "vs = []" by auto
    with True show ?thesis by simp
  qed
qed

lemma history_core:
  "map revision_core us = map revision_core vs \<Longrightarrow>
    map revision_core (filter (\<lambda>v. (rv_type v, rv_key v) = i) us) = map revision_core (filter (\<lambda>v. (rv_type v, rv_key v) = i) vs)"
proof (induction us arbitrary: vs)
  case (Cons u us)
  then obtain v vs' where "vs = v # vs'" "revision_core u = revision_core v" "map revision_core us = map revision_core vs'" by auto
  with Cons.IH [OF this(3)] show ?case by (auto simp: revision_core_def rv_id_def)
qed simp

lemma move_wf:
  assumes wf: "library_wf s" and "library_move s s'"
  shows "library_wf s'"
proof -
  consider (new) r v where "created s s' r v" | (revision) e r operation v where "revised s s' e r operation v" "operation \<noteq> RO_created"
    | (same) "records s' = records s" "map revision_core (record_revisions s') = map revision_core (record_revisions s)"
    using assms(2) unfolding library_move_def by blast
  then show ?thesis
  proof cases
    case same
    have hist: "faithful r (history s' i) = faithful r (history s i)" for r i
      unfolding history_def by (rule faithful_core) (rule history_core [OF same(2)])
    have known: "(rv_type v, rv_key v) \<in> rd_id ` set (records s)" if "v \<in> set (record_revisions s')" for v
    proof -
      from that have "revision_core v \<in> set (map revision_core (record_revisions s'))" by simp
      then obtain u where u: "u \<in> set (record_revisions s)" "revision_core u = revision_core v" unfolding same(2) by auto
      then have "(rv_type u, rv_key u) = (rv_type v, rv_key v)" by (simp add: revision_core_def rv_id_def)
      with wf u(1) show ?thesis unfolding library_wf_def by metis
    qed
    show ?thesis using wf known by (simp add: library_wf_def same(1) hist)
  qed (use created_wf revised_wf wf in blast)+
qed

lemma step_wf: "record_step s s' \<Longrightarrow> library_wf s \<Longrightarrow> library_wf s'"
  by (rule move_wf, assumption, rule step_move) (simp_all add: library_wf_def)

lemma steps_wf: "record_step\<^sup>*\<^sup>* s t \<Longrightarrow> library_wf s \<Longrightarrow> library_wf t"
  by (induction rule: rtranclp_induct) (auto intro: step_wf)

section \<open>Fences\<close>

text \<open>No step takes a fence back, and one that changes a record advances the fence of its name.\<close>

lemma bumped_ge: "fence_of s res \<le> bumped s i res"
  by (simp add: bumped_def)

lemma move_fence:
  fixes s s' :: db and res ty key :: string
  assumes "library_move s s'"
  shows "fence_of s res \<le> fence_of s' res"
    and "find_record s' ty key = find_record s ty key
      \<or> fence_of s (formatRecordResource ty key) < fence_of s' (formatRecordResource ty key)"
proof -
  have touched: "bumped s i res = fence_of s res + 1" if "i = (ty, key)" "res = formatRecordResource ty key" for i res
    using that by (simp add: bumped_def)
  have "fence_of s res \<le> fence_of s' res \<and> (find_record s' ty key = find_record s ty key
      \<or> fence_of s (formatRecordResource ty key) < fence_of s' (formatRecordResource ty key))"
  proof -
    consider (new) r v where "created s s' r v" | (revision) e r operation v where "revised s s' e r operation v"
      | (same) "records s' = records s" "\<forall>res. fence_of s res \<le> fence_of s' res"
      using assms unfolding library_move_def by blast
    then show ?thesis
    proof cases
      case new
      then have s': "records s' = records s @ [r]" "fence_of s' = bumped s (rd_id r)" by (auto simp: created_def core_eq)
      show ?thesis
      proof (cases "rd_id r = (ty, key)")
        case True
        then show ?thesis using touched by (simp add: s' bumped_ge)
      next
        case False
        then have "find_record s' ty key = find_record s ty key"
          by (simp add: find_record_def s' by_key_append by_key_Cons split: option.split)
        then show ?thesis by (simp add: s' bumped_ge)
      qed
    next
      case revision
      then have s': "records s' = rows_set (\<lambda>x. rd_id x = rd_id r) (\<lambda>_. r) (records s)" "fence_of s' = bumped s (rd_id r)"
        by (auto simp: revised_def core_eq)
      show ?thesis
      proof (cases "rd_id r = (ty, key)")
        case True
        then show ?thesis using touched by (simp add: s' bumped_ge)
      next
        case False
        have "by_key rd_id x (rows_set (\<lambda>x. rd_id x = rd_id r) (\<lambda>_. r) t) = by_key rd_id x t" if "x \<noteq> rd_id r" for x t
          using that by (induction t) (auto simp: rows_set_def by_key_Cons)
        with False have "find_record s' ty key = find_record s ty key" by (simp add: find_record_def s')
        then show ?thesis by (simp add: s' bumped_ge)
      qed
    next
      case same
      then show ?thesis by (simp add: find_record_def)
    qed
  qed
  then show "fence_of s res \<le> fence_of s' res" and "find_record s' ty key = find_record s ty key
      \<or> fence_of s (formatRecordResource ty key) < fence_of s' (formatRecordResource ty key)" by auto
qed

lemma steps_fence:
  assumes "record_step\<^sup>*\<^sup>* s t" and "library_wf s"
  shows "fence_of s (formatRecordResource ty key) \<le> fence_of t (formatRecordResource ty key)
    \<and> (fence_of t (formatRecordResource ty key) = fence_of s (formatRecordResource ty key)
        \<longrightarrow> find_record t ty key = find_record s ty key)"
  using assms
proof (induction rule: rtranclp_induct)
  case (step t u)
  have "distinct (map rd_id (records t))" using steps_wf [OF step(1,4)] by (simp add: library_wf_def)
  note move = step_move [OF step(2) this]
  from move_fence(1) [OF move, of "formatRecordResource ty key"] move_fence(2) [OF move, of ty key] step(3) step(4)
  show ?case by auto
qed simp

text \<open>A fence known before the steps and accepted after them: the record is what it was.\<close>

lemma fence_guards:
  assumes "record_step\<^sup>*\<^sup>* s t" and "library_wf s" and "f \<le> fence_of s (formatRecordResource ty key)"
    and "assertResourceFence t (formatRecordResource ty key) f now False = Inr ()"
    and "resolveEntityResource t (formatRecordResource ty key) = None"
  shows "find_record t ty key = find_record s ty key"
proof -
  have "f = fence_of t (formatRecordResource ty key)"
    using assms(4,5) by (auto simp: assertResourceFence_def assertFence_def validateFence_def fence_of_def split: option.splits if_splits)
  with steps_fence [OF assms(1,2), of ty key] assms(3) show ?thesis by simp
qed

lemma revised_find:
  assumes "revised s s' e r operation v" and "rd_id r = (ty, key)"
  shows "find_record s' ty key = Some r"
proof -
  have "by_key rd_id x (rows_set (\<lambda>y. rd_id y = x) (\<lambda>_. r) t) = map_option (\<lambda>_. r) (by_key rd_id x t)" if "rd_id r = x" for x t
    using that by (induction t) (auto simp: rows_set_def by_key_Cons)
  with assms show ?thesis by (auto simp: revised_def core_eq find_record_def)
qed

end
