(* ===== verification/Recording.thy ===== *)
theory Recording
  imports Writing
begin

text \<open>
  What records promise: a patch is a merge patch of RFC 7396 where it is meant to be; the revisions of a record
  are its complete history; and a write with a fence that was current when its caller read the record never
  overwrites what the caller has not seen.
\<close>

section \<open>Merge patches\<close>

text \<open>The algorithm of the RFC: what is not an object is replaced by an empty object before it is merged.\<close>

definition object_at :: "string \<Rightarrow> jobj \<Rightarrow> jobj" where
  "object_at k target = (case obj_get k target of Some (JObj ob) \<Rightarrow> ob | _ \<Rightarrow> [])"

function rfc7396 :: "jobj \<Rightarrow> jobj \<Rightarrow> jobj" where
  "rfc7396 target [] = target"
| "rfc7396 target ((k, v) # rest) = rfc7396
    (if v = JNull then obj_delete k target
     else obj_set k (if is_object v then JObj (rfc7396 (object_at k target) (entries v)) else v) target) rest"
  by pat_completeness auto
termination
  by (relation "measure (\<lambda>(target, patch). size_list (size_prod (\<lambda>x. 0) size) patch)")
    (auto dest: entries_size)

lemma entries_small: "size_list (size_prod (\<lambda>x. 0) size) (entries v) < Suc (Suc (size v + n))"
  by (cases v) auto

text \<open>An object without null members at any depth of objects, with distinct keys.\<close>

fun complete :: "json \<Rightarrow> bool" where
  "complete (JObj kvs) = (distinct (map fst kvs) \<and> list_all (\<lambda>(k, v). v \<noteq> JNull \<and> complete v) kvs)"
| "complete v = True"

text \<open>A patch that removes members only from objects that are there.\<close>

function fits :: "jobj \<Rightarrow> jobj \<Rightarrow> bool" where
  "fits target [] = True"
| "fits target ((k, v) # rest) =
    ((v = JNull \<or> \<not> is_object v
      \<or> (case obj_get k target of Some (JObj ob) \<Rightarrow> fits ob (entries v) | _ \<Rightarrow> complete v))
     \<and> fits (if v = JNull then obj_delete k target
        else obj_set k (if is_object v then JObj (rfc7396 (object_at k target) (entries v)) else v) target) rest)"
  by pat_completeness auto
termination
  by (relation "measure (\<lambda>(target, patch). size_list (size_prod (\<lambda>x. 0) size) patch)")
    (auto simp: entries_small)

lemma rfc7396_complete:
  "complete (JObj kvs) \<Longrightarrow> fst ` set target \<inter> fst ` set kvs = {} \<Longrightarrow> rfc7396 target kvs = target @ kvs"
proof (induction target kvs rule: rfc7396.induct)
  case (2 target k v rest)
  then have v: "v \<noteq> JNull" "complete v" and rest: "complete (JObj rest)" and k: "k \<notin> fst ` set target" "k \<notin> fst ` set rest"
    by auto
  have none: "obj_get k target = None" using k(1) by (simp add: obj_get_None)
  have inner: "(if is_object v then JObj (rfc7396 (object_at k target) (entries v)) else v) = v"
  proof (cases v)
    case (JObj ob)
    then have "rfc7396 (object_at k target) (entries v) = object_at k target @ ob"
      using "2.IH"(1) [OF v(1)] v(2) none by (simp add: object_at_def)
    then show ?thesis using JObj none by (simp add: object_at_def)
  qed simp_all
  have "rfc7396 (obj_set k v target) rest = obj_set k v target @ rest"
    using "2.IH"(2) v(1) inner rest k "2.prems"(2) by (auto simp: obj_set_fresh)
  then show ?case using v(1) inner k(1) by (simp add: obj_set_fresh)
qed simp

text \<open>C36. A patch that removes members only from objects that are there is applied exactly as RFC 7396
  prescribes, at every depth.\<close>

theorem merge_patch_rfc7396:
  "fits target patch \<Longrightarrow> mergePatch target patch = rfc7396 target patch"
proof (induction target patch rule: mergePatch.induct)
  case (2 target k v rest)
  have merged: "(if v = JNull then obj_delete k target
     else case obj_get k target of
         None \<Rightarrow> obj_set k v target
       | Some old \<Rightarrow> if is_object v \<and> is_object old then obj_set k (JObj (mergePatch (entries old) (entries v))) target
           else obj_set k v target)
    = (if v = JNull then obj_delete k target
       else obj_set k (if is_object v then JObj (rfc7396 (object_at k target) (entries v)) else v) target)"
    (is "?m = ?r")
  proof (cases "v = JNull \<or> \<not> is_object v")
    case True
    then show ?thesis by (auto split: option.split)
  next
    case False
    then obtain kvs where kvs: "v = JObj kvs" by (cases v) auto
    show ?thesis
    proof (cases "\<exists>ob. obj_get k target = Some (JObj ob)")
      case True
      then obtain ob where ob: "obj_get k target = Some (JObj ob)" by blast
      then have "fits ob kvs" using "2.prems" kvs by simp
      then have "mergePatch ob kvs = rfc7396 ob kvs" using "2.IH"(1) [of "JObj ob"] kvs ob by simp
      then show ?thesis using kvs ob by (simp add: object_at_def)
    next
      case False
      then have "complete v" "object_at k target = []" using "2.prems" kvs
        by (auto simp: object_at_def split: option.splits json.splits)
      then have "rfc7396 (object_at k target) (entries v) = kvs" using rfc7396_complete [of kvs "[]"] kvs by simp
      moreover have "\<not> is_object old" if "obj_get k target = Some old" for old using False that by (cases old) auto
      ultimately show ?thesis using kvs by (auto split: option.split)
    qed
  qed
  then have "mergePatch ?m rest = rfc7396 ?r rest"
    using "2.IH"(2) "2.prems" by simp
  then show ?case by simp
qed simp

theorem merge_patch_rfc7396_witness:
  "mergePatch [(''a'', JObj [(''x'', JNum 1), (''y'', JNum 2)])] [(''a'', JObj [(''x'', JNull), (''z'', JNum 3)])]
   = [(''a'', JObj [(''y'', JNum 2), (''z'', JNum 3)])]
   \<and> mergePatch [(''a'', JObj [(''x'', JNum 1), (''y'', JNum 2)])] [(''a'', JObj [(''x'', JNull), (''z'', JNum 3)])]
   = rfc7396 [(''a'', JObj [(''x'', JNum 1), (''y'', JNum 2)])] [(''a'', JObj [(''x'', JNull), (''z'', JNum 3)])]"
proof -
  have fit: "fits [(''a'', JObj [(''x'', JNum 1), (''y'', JNum 2)])] [(''a'', JObj [(''x'', JNull), (''z'', JNum 3)])]"
    by code_simp
  have "mergePatch [(''a'', JObj [(''x'', JNum 1), (''y'', JNum 2)])] [(''a'', JObj [(''x'', JNull), (''z'', JNum 3)])]
    = [(''a'', JObj [(''y'', JNum 2), (''z'', JNum 3)])]" by code_simp
  with merge_patch_rfc7396 [OF fit] show ?thesis by simp
qed

text \<open>A null inside an object that is new to the record is stored, where the RFC drops it.\<close>

lemma nested_null_kept:
  "mergePatch [] [(''a'', JObj [(''b'', JNull)])] = [(''a'', JObj [(''b'', JNull)])]"
  "rfc7396 [] [(''a'', JObj [(''b'', JNull)])] = [(''a'', JObj [])]"
  by code_simp+

text \<open>A required field with the name of something every object inherits is never missing.\<close>

lemma inherited_field_passes: "validateRecordValue [] [(''constructor'', True), (''title'', True)] = [''title'']"
  by code_simp

section \<open>History\<close>

text \<open>C34. The revisions of a record are its history: they are numbered from one without a gap, the first creates it
  and no other does, their archivings and unarchivings lead to its flag, the last one holds its value, digest and
  schema version, and its revision is their number. Every order of writes keeps this.\<close>

theorem record_history_faithful:
  assumes "record_step\<^sup>*\<^sup>* s t" and "records s = []" and "record_revisions s = []" and "find_record t ty key = Some r"
  shows "map rv_revision (history t (ty, key)) = map int [1..<Suc (nat (rd_revision r))]
    \<and> rv_operation (hd (history t (ty, key))) = RO_created
    \<and> RO_created \<notin> rv_operation ` set (tl (history t (ty, key)))
    \<and> rd_archived r = archived_after (map rv_operation (history t (ty, key)))
    \<and> rv_value (last (history t (ty, key))) = rd_value r
    \<and> rv_value_sha256 (last (history t (ty, key))) = rd_value_sha256 r
    \<and> rv_schema_version (last (history t (ty, key))) = rd_schema_version r"
proof -
  have "library_wf s" using assms(2,3) by (simp add: library_wf_def)
  from steps_wf [OF assms(1) this] have wf: "library_wf t" .
  have r: "r \<in> set (records t)" "rd_id r = (ty, key)" using by_key_Some [OF assms(4) [unfolded find_record_def]] by auto
  then have "faithful r (history t (ty, key))" using wf by (auto simp: library_wf_def)
  then show ?thesis by (simp add: faithful_def)
qed

definition sample_write :: record_write where
  "sample_write = \<lparr>rw_type = ''doc'', rw_key = ''k'', rw_value = [(''a'', JNum 1)], rw_fence = 0, rw_tags = Some [''x''],
     rw_message = None, rw_source_artifact_key = None, rw_canonical_artifact_key = None, rw_schema_version = 1,
     rw_actor = ''p''\<rparr>"

definition sample_patch :: "int \<Rightarrow> record_patch" where
  "sample_patch f = \<lparr>rp_type = ''doc'', rp_key = ''k'', rp_patch = [(''b'', JNum 2)], rp_fence = f, rp_message = None,
     rp_schema_version = 1, rp_actor = ''q''\<rparr>"

definition sample_archive :: record_lifecycle where
  "sample_archive = \<lparr>rlc_type = ''doc'', rlc_key = ''k'', rlc_fence = 2, rlc_message = None, rlc_actor = ''q''\<rparr>"

definition recorded_db :: db where
  "recorded_db = snd (projr (createRecord (sample_host 5 ''u'') (\<lambda>t. ''d'') sample_write (system_origin ''p'') empty_db))"

definition patched_db :: db where
  "patched_db = snd (projr (patchRecord (sample_host 6 ''u'') (\<lambda>t. ''e'') recorded_db (sample_patch 1) (system_origin ''q'') None
     recorded_db))"

definition archived_db :: db where
  "archived_db = snd (projr (archiveRecord (sample_host 7 ''u'') sample_archive (system_origin ''q'') None patched_db))"

lemma sample_runs:
  "\<not> isl (createRecord (sample_host 5 ''u'') (\<lambda>t. ''d'') sample_write (system_origin ''p'') empty_db)"
  "\<not> isl (patchRecord (sample_host 6 ''u'') (\<lambda>t. ''e'') recorded_db (sample_patch 1) (system_origin ''q'') None recorded_db)"
  "\<not> isl (archiveRecord (sample_host 7 ''u'') sample_archive (system_origin ''q'') None patched_db)"
  by code_simp+

lemma ran_to: "\<not> isl y \<Longrightarrow> y = Inr (fst (projr y), snd (projr y))"
  by (cases y) auto

lemma sample_steps: "record_step\<^sup>*\<^sup>* empty_db archived_db"
proof -
  have a: "record_step empty_db recorded_db" unfolding recorded_db_def by (rule rst_create [OF ran_to [OF sample_runs(1)]])
  have b: "record_step recorded_db patched_db" unfolding patched_db_def by (rule rst_patch [OF ran_to [OF sample_runs(2)]])
  have c: "record_step patched_db archived_db" unfolding archived_db_def by (rule rst_archive [OF ran_to [OF sample_runs(3)]])
  from a b c show ?thesis by (meson converse_rtranclp_into_rtranclp rtranclp.rtrancl_refl)
qed

lemma sample_found: "\<not> Option.is_none (find_record archived_db ''doc'' ''k'')"
  "map rv_operation (history archived_db (''doc'', ''k'')) = [RO_created, RO_patch, RO_archived]"
  "rv_value (last (history archived_db (''doc'', ''k''))) = [(''a'', JNum 1), (''b'', JNum 2)]"
  "records empty_db = []" "record_revisions empty_db = []"
  by code_simp+

theorem record_history_faithful_witness:
  "\<exists>r. find_record archived_db ''doc'' ''k'' = Some r \<and> rd_archived r \<and> rd_value r = [(''a'', JNum 1), (''b'', JNum 2)]
    \<and> map rv_revision (history archived_db (''doc'', ''k'')) = map int [1..<Suc (nat (rd_revision r))]"
proof -
  from sample_found(1) obtain r where r: "find_record archived_db ''doc'' ''k'' = Some r" by (auto simp: Option.is_none_def)
  from record_history_faithful [OF sample_steps sample_found(4,5) r] r sample_found(2,3) show ?thesis
    by (simp add: archived_after_def archives_def)
qed

section \<open>No update is lost\<close>

lemma patch_of_read:
  assumes "library_wf s" and "record_step\<^sup>*\<^sup>* s t"
    and "rp_fence q \<le> fence_of s (formatRecordResource (rp_type q) (rp_key q))"
    and "resolveEntityResource t (formatRecordResource (rp_type q) (rp_key q)) = None"
    and "patch_prepare s q = Inr merged" and "patch_body h sha256 q merged orig t = Inr (x, t1)"
  shows "\<exists>e. find_record t (rp_type q) (rp_key q) = Some e \<and> \<not> rd_archived e
    \<and> find_record t1 (rp_type q) (rp_key q)
      = Some (patched sha256 q (mergePatch (rd_value e) (rp_patch q)) (date_now h) e)"
proof -
  have "distinct (map rd_id (records t))" using steps_wf [OF assms(2,1)] by (simp add: library_wf_def)
  from patch_revised [OF this assms(6)] obtain e v where e: "find_record t (rp_type q) (rp_key q) = Some e" "\<not> rd_archived e"
    and fence: "assertResourceFence t (formatRecordResource (rp_type q) (rp_key q)) (rp_fence q) (date_now h) False = Inr ()"
    and rev: "revised t t1 e (patched sha256 q merged (date_now h) e) RO_patch v" by blast
  have "find_record s (rp_type q) (rp_key q) = Some e" using fence_guards [OF assms(2,1,3) fence assms(4)] e by simp
  then have "merged = mergePatch (rd_value e) (rp_patch q)" using assms(5) by (auto simp: patch_prepare_def split: if_splits)
  moreover have "rd_id (patched sha256 q merged (date_now h) e) = (rp_type q, rp_key q)"
    using by_key_Some [OF e(1) [unfolded find_record_def]] by (auto simp: patched_def rd_id_def)
  ultimately show ?thesis using revised_find [OF rev] e by auto
qed

text \<open>C35. A patch is merged before its transaction begins, and other record writes may come in between, in a library
  whose rows and histories agree. If the caller learned its fence no later than that read, and no task's id or
  typed name is the resource name of the record, then a patch that succeeds, and is not the retry of a request
  that was answered before, was merged with the very record it replaces: what it leaves is the patch of the record
  as it then is. A retry under the idempotency key of an earlier request writes nothing and gives the earlier
  answer again.\<close>

theorem patch_no_lost_update:
  assumes "library_wf s" and "record_step\<^sup>*\<^sup>* s t"
    and "rp_fence q \<le> fence_of s (formatRecordResource (rp_type q) (rp_key q))"
    and "resolveEntityResource t (formatRecordResource (rp_type q) (rp_key q)) = None"
    and "patchRecord h sha256 s q orig idem t = Inr (x, t')"
  shows "if answered_before idem t then t' = t \<and> replays idem t x
    else \<exists>e. find_record t (rp_type q) (rp_key q) = Some e \<and> \<not> rd_archived e
      \<and> find_record t' (rp_type q) (rp_key q)
        = Some (patched sha256 q (mergePatch (rd_value e) (rp_patch q)) (date_now h) e)"
proof -
  from assms(5) obtain merged where pre: "patch_prepare s q = Inr merged"
    and "do_once h idem (patch_body h sha256 q merged orig) t = Inr (x, t')"
    by (auto simp: patchRecord_def tx_run)
  from this(2) show ?thesis
  proof (cases rule: do_once_once)
    case (fresh t1 u)
    have "find_record t' ty key = find_record t1 ty key" for ty key
      by (simp add: fresh(3) find_record_def records_def)
    with patch_of_read [OF assms(1-4) pre fresh(2)] fresh(1) show ?thesis by simp
  qed simp
qed

definition other_write :: record_write where
  "other_write = sample_write\<lparr>rw_key := ''other''\<rparr>"

definition crowded_db :: db where
  "crowded_db = snd (projr (createRecord (sample_host 6 ''u'') (\<lambda>t. ''d'') other_write (system_origin ''p'') recorded_db))"

lemma crowded_runs:
  "\<not> isl (createRecord (sample_host 6 ''u'') (\<lambda>t. ''d'') other_write (system_origin ''p'') recorded_db)"
  "\<not> isl (patchRecord (sample_host 7 ''u'') (\<lambda>t. ''e'') recorded_db (sample_patch 1) (system_origin ''q'') None crowded_db)"
  "fence_of recorded_db (formatRecordResource ''doc'' ''k'') = 1"
  "resolveEntityResource crowded_db (formatRecordResource ''doc'' ''k'') = None"
  "map_option rd_value (find_record crowded_db ''doc'' ''k'') = Some [(''a'', JNum 1)]"
  "canonical_value (mergePatch [(''a'', JNum 1)] [(''b'', JNum 2)]) = [(''a'', JNum 1), (''b'', JNum 2)]"
  by code_simp+

theorem patch_no_lost_update_witness:
  "\<exists>x t' r. patchRecord (sample_host 7 ''u'') (\<lambda>t. ''e'') recorded_db (sample_patch 1) (system_origin ''q'') None crowded_db = Inr (x, t')
    \<and> find_record t' ''doc'' ''k'' = Some r \<and> rd_value r = [(''a'', JNum 1), (''b'', JNum 2)]"
proof -
  have start: "record_step empty_db recorded_db" unfolding recorded_db_def by (rule rst_create [OF ran_to [OF sample_runs(1)]])
  have wf: "library_wf recorded_db" by (rule step_wf [OF start]) (simp add: library_wf_def sample_found)
  have move: "record_step\<^sup>*\<^sup>* recorded_db crowded_db"
    unfolding crowded_db_def by (intro r_into_rtranclp rst_create [OF ran_to [OF crowded_runs(1)]])
  note run = ran_to [OF crowded_runs(2)]
  have q: "rp_type (sample_patch 1) = ''doc''" "rp_key (sample_patch 1) = ''k''" "rp_fence (sample_patch 1) = 1"
    "rp_patch (sample_patch 1) = [(''b'', JNum 2)]" by (simp_all add: sample_patch_def)
  have "\<not> answered_before (None :: record_shown do_idempotency option) crowded_db" by (simp add: answered_before_def)
  with patch_no_lost_update [OF wf move _ _ run] crowded_runs(3,4)
  obtain e where "find_record crowded_db ''doc'' ''k'' = Some e"
    and "find_record (snd (projr (patchRecord (sample_host 7 ''u'') (\<lambda>t. ''e'') recorded_db (sample_patch 1) (system_origin ''q'') None crowded_db)))
       ''doc'' ''k'' = Some (patched (\<lambda>t. ''e'') (sample_patch 1) (mergePatch (rd_value e) [(''b'', JNum 2)]) (date_now (sample_host 7 ''u'')) e)"
    unfolding q by auto
  moreover from this(1) crowded_runs(5) have "rd_value e = [(''a'', JNum 1)]" by simp
  ultimately have "\<exists>r. find_record (snd (projr (patchRecord (sample_host 7 ''u'') (\<lambda>t. ''e'') recorded_db (sample_patch 1) (system_origin ''q'') None crowded_db)))
       ''doc'' ''k'' = Some r \<and> rd_value r = [(''a'', JNum 1), (''b'', JNum 2)]"
    using crowded_runs(6) by (simp add: patched_def)
  with run show ?thesis by blast
qed

text \<open>Setting an archived record leaves it archived and makes it visible to the search.\<close>

lemma archived_set_shown:
  "case setRecord (sample_host 8 ''u'') (\<lambda>t. ''f'') (sample_write\<lparr>rw_fence := 3\<rparr>) (system_origin ''p'') None archived_db of
     Inl e \<Rightarrow> False
   | Inr (x, s') \<Rightarrow> map rd_archived (records s') = [True] \<and> map rsd_tombstoned (search_docs s') = [False]"
  by code_simp

end
