(* ===== verification/Browsing.thy ===== *)
theory Browsing
  imports Listings Recording Paging
begin

text \<open>
  What the listings of records promise: following the cursors yields every record that the filter admits once, in
  the order asked for, and the whole history of a record from its last revision to its first.
\<close>

section \<open>Positions\<close>

definition position_key :: "record_sort \<Rightarrow> record_row \<Rightarrow> int \<times> string" where
  "position_key x r = (sort_column x r, rd_key r)"

lemma row_after_key: "row_after x d p r \<longleftrightarrow>
    (if d then position_key x r < p else p < position_key x r)" if "x = By_key \<longrightarrow> fst p = 0"
  using that by (cases p) (auto simp: row_after_def key_after_def position_key_def sort_column_def less_prod_def)

definition catalogue :: "json_sql \<Rightarrow> db \<Rightarrow> record_filter \<Rightarrow> record_row list" where
  "catalogue sql s f = ordered f (filter (record_listed sql s f) (records s))"

lemma ordered_filter: "ordered f (filter P rs) = filter P (ordered f rs)"
  by (simp add: ordered_def Let_def filter_sort rev_filter [symmetric])

lemma catalogue_strict:
  assumes "distinct (map rd_id (records s))"
  shows "sorted_wrt (\<lambda>a b. if rf_descending f then position_key (sort_of f) b < position_key (sort_of f) a
    else position_key (sort_of f) a < position_key (sort_of f) b) (catalogue sql s f)"
proof -
  let ?rs = "filter (record_listed sql s f) (records s)" and ?k = "position_key (sort_of f)"
  have dist: "distinct (map rd_id ?rs)" using assms by (rule distinct_map_filter)
  have "inj_on ?k (set ?rs)"
  proof (rule inj_onI)
    fix a b assume a: "a \<in> set ?rs" and b: "b \<in> set ?rs" and eq: "?k a = ?k b"
    then have "rd_id a = rd_id b" by (auto simp: record_listed_def rd_id_def position_key_def)
    then show "a = b" using a b dist by (meson distinct_map inj_onD)
  qed
  then have "distinct (map ?k ?rs)" using dist by (simp add: distinct_map)
  then have "distinct (map ?k (sort_key ?k ?rs))" by (simp add: distinct_map)
  then have "sorted_wrt (<) (map ?k (sort_key ?k ?rs))" by (simp add: strict_sorted_iff)
  then have "sorted_wrt (\<lambda>a b. ?k a < ?k b) (sort_key ?k ?rs)" by (simp add: sorted_wrt_map)
  then show ?thesis
    by (simp add: catalogue_def ordered_def Let_def position_key_def [abs_def] sorted_wrt_rev)
qed

lemma catalogue_rest:
  assumes "distinct (map rd_id (records s))" and "catalogue sql s f = us @ x # vs"
  shows "filter (row_after (sort_of f) (rf_descending f) (position_key (sort_of f) x)) (catalogue sql s f) = vs"
proof -
  have first: "sort_of f = By_key \<longrightarrow> fst (position_key (sort_of f) x) = 0" by (simp add: position_key_def sort_column_def)
  note rows = catalogue_strict [OF assms(1), of f sql, unfolded assms(2)]
  have "\<not> row_after (sort_of f) (rf_descending f) (position_key (sort_of f) x) u" if "u \<in> set (us @ [x])" for u
    using rows that by (auto simp: row_after_key [OF first] sorted_wrt_append split: if_splits)
  moreover have "row_after (sort_of f) (rf_descending f) (position_key (sort_of f) x) v" if "v \<in> set vs" for v
    using rows that by (auto simp: row_after_key [OF first] sorted_wrt_append split: if_splits)
  ultimately show ?thesis by (simp add: assms(2) filter_id_conv filter_empty_conv)
qed

section \<open>Cursors\<close>

text \<open>A query of the record list, and what is asked of it: unique ids, a filter of scalars that the driver binds and of
  paths that SQLite can read on every record of the type, sort columns that are safe integers, and a parser that
  reads the cursors issued.\<close>

record record_query =
  rq_parse :: "string \<Rightarrow> json option"
  rq_sql :: json_sql
  rq_db :: db
  rq_filter :: record_filter

definition issued :: "record_query \<Rightarrow> record_row \<Rightarrow> string" where
  "issued q r = encodeCursor (fingerprint (list_binding (rq_filter q))) (position_at (sort_of (rq_filter q)) r)"

definition reads_back :: "(string \<Rightarrow> json option) \<Rightarrow> json \<Rightarrow> bool" where
  "reads_back parse v \<longleftrightarrow> parse (stringify v) = Some v"

definition answerable :: "record_query \<Rightarrow> bool" where
  "answerable q \<longleftrightarrow> distinct (map rd_id (records (rq_db q)))
     \<and> list_all (\<lambda>(k, v). scalar v \<and> js_binds (rq_sql q) v
         \<and> list_all (\<lambda>r. rd_type r = rf_type (rq_filter q) \<longrightarrow> js_member (rq_sql q) (rd_value r) k v \<noteq> None) (records (rq_db q)))
       (data_filter (rq_filter q))
     \<and> list_all (\<lambda>r. \<bar>sort_column (sort_of (rq_filter q)) r\<bar> \<le> SAFE_INTEGER
         \<and> reads_back (rq_parse q) (payload (fingerprint (list_binding (rq_filter q))) (position_at (sort_of (rq_filter q)) r)))
       (catalogue (rq_sql q) (rq_db q) (rq_filter q))"

lemma data_filter_cursor [simp]: "data_filter (f\<lparr>rf_cursor := c\<rparr>) = data_filter f" "filter_fails sql s (f\<lparr>rf_cursor := c\<rparr>) = filter_fails sql s f"
  by (simp_all add: data_filter_def filter_fails_def)

lemma answerable_runs:
  assumes "answerable q"
  shows "\<not> list_ex (\<lambda>(k, v). \<not> scalar v) (data_filter (rq_filter q))" "\<not> filter_fails (rq_sql q) (rq_db q) (rq_filter q)"
  using assms by (fastforce simp: answerable_def filter_fails_def list_all_iff list_ex_iff)+

lemma binding_cursor [simp]: "list_binding (f\<lparr>rf_cursor := c\<rparr>) = list_binding f"
  by (simp add: list_binding_def sort_of_def)

lemma listed_cursor [simp]: "record_listed sql s (f\<lparr>rf_cursor := c\<rparr>) = record_listed sql s f"
  by (rule ext) (simp add: record_listed_def)

lemma ordered_cursor [simp]: "ordered (f\<lparr>rf_cursor := c\<rparr>) = ordered f" "sort_of (f\<lparr>rf_cursor := c\<rparr>) = sort_of f"
  by (rule ext) (simp_all add: ordered_def sort_of_def)

lemma item_cursor [simp]: "list_item s (f\<lparr>rf_cursor := c\<rparr>) = list_item s f"
  by (rule ext) (simp add: list_item_def title_shown_def)

lemma pack_Nil: "pack t = [] \<longleftrightarrow> t = []"
  by (cases t rule: pack.cases) auto

lemma encodeCursor_given: "given (Some (encodeCursor f position))"
  by (simp add: given_def encodeCursor_def toBase64Url_pack pack_Nil)

lemma position_read: "\<bar>sort_column x r\<bar> \<le> SAFE_INTEGER \<Longrightarrow> read_position x (position_at x r) = Inr (position_key x r)"
  by (simp add: read_position_def position_at_def safe_integer_def position_key_def sort_column_def)

lemma position_fields: "distinct (map fst (position_at x r))" "obj_get ''v'' (position_at x r) = None" "obj_get ''f'' (position_at x r) = None"
  by (simp_all add: position_at_def)

lemma issued_condition:
  assumes "answerable q" and "r \<in> set (catalogue (rq_sql q) (rq_db q) (rq_filter q))"
  shows "page_condition (rq_parse q) ((rq_filter q)\<lparr>rf_cursor := Some (issued q r)\<rparr>)
    = Inr (row_after (sort_of (rq_filter q)) (rf_descending (rq_filter q)) (position_key (sort_of (rq_filter q)) r))"
proof -
  have ok: "\<bar>sort_column (sort_of (rq_filter q)) r\<bar> \<le> SAFE_INTEGER"
    "rq_parse q (stringify (payload (fingerprint (list_binding (rq_filter q))) (position_at (sort_of (rq_filter q)) r)))
      = Some (payload (fingerprint (list_binding (rq_filter q))) (position_at (sort_of (rq_filter q)) r))"
    using assms by (auto simp: answerable_def list_all_iff reads_back_def)
  then show ?thesis
    using cursor_read [where parse = "rq_parse q", OF ok(2) position_fields]
    by (simp add: page_condition_def issued_def encodeCursor_given position_read)
qed

section \<open>Walking the records\<close>

definition record_rest :: "record_query \<Rightarrow> string option \<Rightarrow> record_row list" where
  "record_rest q c = (case page_condition (rq_parse q) ((rq_filter q)\<lparr>rf_cursor := c\<rparr>) of
      Inl e \<Rightarrow> []
    | Inr after \<Rightarrow> filter after (catalogue (rq_sql q) (rq_db q) (rq_filter q)))"

definition record_request :: "record_query \<Rightarrow> string option \<Rightarrow> (record_item list \<times> string option) option" where
  "record_request q c = (case listRecords (rq_parse q) (rq_sql q) (rq_db q) ((rq_filter q)\<lparr>rf_cursor := c\<rparr>) of
      Inl e \<Rightarrow> None | Inr p \<Rightarrow> Some (lp_items p, lp_next_cursor p))"

lemma clamp_pos: "0 < clamp_limit d l"
  by (simp add: clamp_limit_def)

lemma page_take: "0 < n \<Longrightarrow> n < length xs \<Longrightarrow> last (take n xs) = xs ! (n - 1)"
  by (subst last_conv_nth) (auto simp: min_def)

interpretation record_walk: keyset answerable "\<lambda>q. catalogue (rq_sql q) (rq_db q) (rq_filter q)"
  "\<lambda>q. clamp_limit 200 (rf_limit (rq_filter q))" "\<lambda>q. list_item (rq_db q) (rq_filter q)" issued record_rest record_request
proof
  fix q :: record_query
  show "0 < clamp_limit 200 (rf_limit (rq_filter q))" by (rule clamp_pos)
  assume ok: "answerable q"
  show "record_rest q None = catalogue (rq_sql q) (rq_db q) (rq_filter q)"
    by (simp add: record_rest_def page_condition_def given_def)
  show "record_rest q (Some (issued q x)) = vs" if "catalogue (rq_sql q) (rq_db q) (rq_filter q) = us @ x # vs" for us x vs
  proof -
    have "x \<in> set (catalogue (rq_sql q) (rq_db q) (rq_filter q))" by (simp add: that)
    note cond = issued_condition [OF ok this]
    have "distinct (map rd_id (records (rq_db q)))" using ok by (simp add: answerable_def)
    from catalogue_rest [OF this that] cond show ?thesis by (simp add: record_rest_def)
  qed
  fix c assume c: "c = None \<or> (\<exists>x \<in> set (catalogue (rq_sql q) (rq_db q) (rq_filter q)). c = Some (issued q x))"
  then obtain after where after: "page_condition (rq_parse q) ((rq_filter q)\<lparr>rf_cursor := c\<rparr>) = Inr after"
    using issued_condition [OF ok] by (auto simp: page_condition_def given_def)
  have rows: "ordered (rq_filter q) (filter after (filter (record_listed (rq_sql q) (rq_db q) (rq_filter q)) (records (rq_db q))))
      = record_rest q c"
    unfolding record_rest_def after catalogue_def by (simp only: ordered_filter sum.case)
  note plain = answerable_runs [OF ok]
  let ?n = "clamp_limit 200 (rf_limit (rq_filter q))" and ?rs = "record_rest q c"
  have "take ?n (take (?n + 1) ?rs) = take ?n ?rs" "?n < length (take (?n + 1) ?rs) \<longleftrightarrow> ?n < length ?rs" by auto
  with plain show "record_request q c = Some (map (list_item (rq_db q) (rq_filter q)) (take ?n ?rs),
      if ?n < length ?rs then Some (issued q (?rs ! (?n - 1))) else None)"
    using page_take [OF clamp_pos [of 200 "rf_limit (rq_filter q)"], of ?rs]
    by (simp add: record_request_def listRecords_def after rows Let_def issued_def del: filter_filter length_take take_take)
qed

section \<open>Walking a history\<close>

record history_query =
  hq_parse :: "string \<Rightarrow> json option"
  hq_db :: db
  hq_type :: string
  hq_key :: string
  hq_limit :: "int option"
  hq_values :: bool

definition revisions_down :: "history_query \<Rightarrow> record_revision_row list" where
  "revisions_down q = rev (sort_key rv_revision (history (hq_db q) (hq_type q, hq_key q)))"

definition before_payload :: "history_query \<Rightarrow> int \<Rightarrow> json" where
  "before_payload q n = payload (fingerprint (history_binding (hq_type q) (hq_key q))) [(''before'', JNum n)]"

definition history_issued :: "history_query \<Rightarrow> record_revision_row \<Rightarrow> string" where
  "history_issued q v = encodeCursor (fingerprint (history_binding (hq_type q) (hq_key q))) [(''before'', JNum (rv_revision v))]"

definition history_answerable :: "history_query \<Rightarrow> bool" where
  "history_answerable q \<longleftrightarrow> distinct (map rv_revision (history (hq_db q) (hq_type q, hq_key q)))
     \<and> list_all (\<lambda>v. \<bar>rv_revision v\<bar> \<le> SAFE_INTEGER \<and> reads_back (hq_parse q) (before_payload q (rv_revision v)))
         (history (hq_db q) (hq_type q, hq_key q))"

definition history_rest :: "history_query \<Rightarrow> string option \<Rightarrow> record_revision_row list" where
  "history_rest q c = (case history_before (hq_parse q) (hq_type q) (hq_key q) c of
      Inl e \<Rightarrow> []
    | Inr before \<Rightarrow> filter (\<lambda>v. case before of None \<Rightarrow> True | Some b \<Rightarrow> rv_revision v < b) (revisions_down q))"

definition history_request :: "history_query \<Rightarrow> string option \<Rightarrow> (history_item list \<times> string option) option" where
  "history_request q c = (case listRecordHistory (hq_parse q) (hq_db q) (hq_type q) (hq_key q) (hq_limit q) (hq_values q) c of
      Inl e \<Rightarrow> None | Inr p \<Rightarrow> Some (lp_items p, lp_next_cursor p))"

lemma revisions_filter: "rev (sort_key rv_revision (filter P vs)) = filter P (rev (sort_key rv_revision vs))"
  by (simp add: filter_sort rev_filter [symmetric])

lemma history_issued_before:
  assumes "history_answerable q" and "v \<in> set (revisions_down q)"
  shows "history_before (hq_parse q) (hq_type q) (hq_key q) (Some (history_issued q v)) = Inr (Some (rv_revision v))"
proof -
  have ok: "\<bar>rv_revision v\<bar> \<le> SAFE_INTEGER"
    "hq_parse q (stringify (payload (fingerprint (history_binding (hq_type q) (hq_key q))) [(''before'', JNum (rv_revision v))]))
      = Some (payload (fingerprint (history_binding (hq_type q) (hq_key q))) [(''before'', JNum (rv_revision v))])"
    using assms by (auto simp: history_answerable_def revisions_down_def list_all_iff reads_back_def before_payload_def)
  then show ?thesis
    using cursor_read [where parse = "hq_parse q", OF ok(2)]
    by (simp add: history_before_def history_issued_def encodeCursor_given safe_integer_def)
qed

lemma revisions_rest:
  assumes "distinct (map rv_revision (history (hq_db q) (hq_type q, hq_key q)))" and "revisions_down q = us @ x # vs"
  shows "filter (\<lambda>v. rv_revision v < rv_revision x) (revisions_down q) = vs"
proof -
  let ?h = "history (hq_db q) (hq_type q, hq_key q)"
  have "distinct (map rv_revision (sort_key rv_revision ?h))" using assms(1) by (simp add: distinct_map)
  then have "sorted_wrt (<) (map rv_revision (sort_key rv_revision ?h))" by (simp add: strict_sorted_iff)
  then have down: "sorted_wrt (\<lambda>a b. rv_revision b < rv_revision a) (us @ x # vs)"
    by (simp add: sorted_wrt_map assms(2) [symmetric] revisions_down_def sorted_wrt_rev)
  then have "\<not> rv_revision u < rv_revision x" if "u \<in> set us" for u using that by (auto simp: sorted_wrt_append)
  moreover have "rv_revision v < rv_revision x" if "v \<in> set vs" for v using that down by (auto simp: sorted_wrt_append)
  ultimately show ?thesis by (simp add: assms(2) filter_id_conv filter_empty_conv)
qed

interpretation history_walk: keyset history_answerable revisions_down "\<lambda>q. clamp_limit 20 (hq_limit q)"
  "\<lambda>q. history_item_of (hq_values q)" history_issued history_rest history_request
proof
  fix q :: history_query
  show "0 < clamp_limit 20 (hq_limit q)" by (rule clamp_pos)
  assume ok: "history_answerable q"
  show "history_rest q None = revisions_down q"
    by (simp add: history_rest_def history_before_def given_def)
  show "history_rest q (Some (history_issued q x)) = vs" if "revisions_down q = us @ x # vs" for us x vs
  proof -
    have "x \<in> set (revisions_down q)" by (simp add: that)
    note b = history_issued_before [OF ok this]
    have "distinct (map rv_revision (history (hq_db q) (hq_type q, hq_key q)))" using ok by (simp add: history_answerable_def)
    from revisions_rest [OF this that] b show ?thesis by (simp add: history_rest_def)
  qed
  fix c assume c: "c = None \<or> (\<exists>x \<in> set (revisions_down q). c = Some (history_issued q x))"
  then obtain b where b: "history_before (hq_parse q) (hq_type q) (hq_key q) c = Inr b"
    using history_issued_before [OF ok] by (auto simp: history_before_def given_def)
  have rows: "rev (sort_key rv_revision (filter (\<lambda>v. case b of None \<Rightarrow> True | Some b \<Rightarrow> rv_revision v < b)
      (filter (\<lambda>v. (rv_type v, rv_key v) = (hq_type q, hq_key q)) (record_revisions (hq_db q))))) = history_rest q c"
    unfolding history_rest_def b revisions_down_def history_def by (simp only: revisions_filter sum.case)
  let ?n = "clamp_limit 20 (hq_limit q)" and ?rs = "history_rest q c"
  have "take ?n (take (?n + 1) ?rs) = take ?n ?rs" "?n < length (take (?n + 1) ?rs) \<longleftrightarrow> ?n < length ?rs" by auto
  then show "history_request q c = Some (map (history_item_of (hq_values q)) (take ?n ?rs),
      if ?n < length ?rs then Some (history_issued q (?rs ! (?n - 1))) else None)"
    using page_take [OF clamp_pos [of 20 "hq_limit q"], of ?rs]
    unfolding history_request_def listRecordHistory_def b sum.case Let_def rows
    by (simp add: history_issued_def del: length_take take_take)
qed

section \<open>The walks end\<close>

text \<open>C37. Following the cursors of a record list ends. Take a query whose data filter has only scalars that the driver
  binds and paths that SQLite can read on every record of the type, whose sort values are safe integers, and
  whose cursors \<open>JSON.parse\<close> reads back. A client that starts without a cursor and asks again with the cursor of each
  answer needs at most one request for each record the filter admits and one more, whatever the limit, the
  order and the other filters, and the pages together are those records, each once, in the order asked for.\<close>

theorem record_walk_complete:
  assumes "answerable q" and "length (catalogue (rq_sql q) (rq_db q) (rq_filter q)) \<le> k"
  shows "walk (Suc k) (record_request q) None
    = Some (map (list_item (rq_db q) (rq_filter q)) (catalogue (rq_sql q) (rq_db q) (rq_filter q)))"
  by (rule record_walk.walk_all [OF assms])

definition shelf_row :: "string \<Rightarrow> int \<Rightarrow> int \<Rightarrow> record_row" where
  "shelf_row key n t = \<lparr>rd_type = ''doc'', rd_key = key, rd_schema_version = 1, rd_value = [(''n'', JNum n)], rd_value_sha256 = ''d'',
     rd_revision = 1, rd_archived = False, rd_created_at = t, rd_updated_at = t, rd_updated_by = ''p''\<rparr>"

definition shelf_db :: db where
  "shelf_db = set_library (\<lambda>l. l\<lparr>lb_records := [shelf_row ''a'' 1 5, shelf_row ''b'' 1 9, shelf_row ''x'' 2 7, shelf_row ''c'' 1 5]\<rparr>) empty_db"

text \<open>SQLite on simple names: a member is compared, an empty name and one that begins with a quote are refused, and
  every row is visited.\<close>

definition plain_sql :: json_sql where
  "plain_sql = \<lparr>js_member = (\<lambda>ob k v. if k = [] \<or> hd k = CHR 34 then None else Some (obj_get k ob = Some v)),
     js_binds = (\<lambda>v. v \<notin> {JBool True, JBool False}), js_visits = (\<lambda>r k. True)\<rparr>"

definition shelf_filter :: record_filter where
  "shelf_filter = \<lparr>rf_type = ''doc'', rf_restrictions = None, rf_includeArchived = None, rf_tag = None, rf_tagFilter = None,
     rf_dataFilter = Some [(''n'', JNum 1)], rf_limit = Some 1, rf_sort = Some By_updated_at, rf_descending = True,
     rf_keyContains = None, rf_cursor = None, rf_titleField = None\<rparr>"

text \<open>A filter for a member with the empty name passes the check of scalars and fails in SQLite.\<close>

lemma empty_name_fails:
  "listRecords parse plain_sql shelf_db (shelf_filter\<lparr>rf_dataFilter := Some [([], JNum 1)]\<rparr>) = Inl (SqliteError ''records'')"
  by (simp add: listRecords_def filter_fails_def data_filter_def plain_sql_def shelf_filter_def shelf_db_def shelf_row_def
      records_def set_library_def empty_db_def)

text \<open>A parser for the texts of some values.\<close>

definition parser_of :: "json list \<Rightarrow> string \<Rightarrow> json option" where
  "parser_of vs t = List.find (\<lambda>v. stringify v = t) vs"

lemma parser_of_reads: "v \<in> set vs \<Longrightarrow> reads_back (parser_of vs) v"
proof -
  assume "v \<in> set vs"
  then obtain w where "List.find (\<lambda>w. stringify w = stringify v) vs = Some w"
    by (cases "List.find (\<lambda>w. stringify w = stringify v) vs") (auto simp: find_None_iff)
  moreover then have "stringify w = stringify v" by (auto simp: find_Some_iff)
  ultimately show ?thesis by (auto simp: reads_back_def parser_of_def dest: stringify_inj)
qed

definition shelf_query :: record_query where
  "shelf_query = \<lparr>rq_parse = parser_of (map (\<lambda>r. payload (fingerprint (list_binding shelf_filter)) (position_at By_updated_at r))
       (catalogue plain_sql shelf_db shelf_filter)),
     rq_sql = plain_sql, rq_db = shelf_db, rq_filter = shelf_filter\<rparr>"

lemma shelf_listed: "map rd_key (catalogue plain_sql shelf_db shelf_filter) = [''b'', ''c'', ''a'']"
  "map rd_updated_at (catalogue plain_sql shelf_db shelf_filter) = [9, 5, 5]"
  "distinct (map rd_id (records shelf_db))"
  by code_simp+

theorem record_walk_complete_witness:
  "map_option (map ri_key) (walk 4 (record_request shelf_query) None) = Some [''b'', ''c'', ''a'']"
proof -
  let ?c = "catalogue plain_sql shelf_db shelf_filter"
  have kind: "sort_of shelf_filter = By_updated_at" by (simp_all add: sort_of_def shelf_filter_def)
  have "\<bar>rd_updated_at r\<bar> \<le> SAFE_INTEGER" if "r \<in> set ?c" for r
  proof -
    have "rd_updated_at r \<in> set (map rd_updated_at ?c)" using that by simp
    then show ?thesis unfolding shelf_listed(2) SAFE_INTEGER_def by auto
  qed
  moreover have "list_all (\<lambda>(k, v). scalar v \<and> js_binds plain_sql v
      \<and> list_all (\<lambda>r. rd_type r = rf_type shelf_filter \<longrightarrow> js_member plain_sql (rd_value r) k v \<noteq> None) (records shelf_db))
      (data_filter shelf_filter)" by code_simp
  ultimately have "answerable shelf_query"
    using shelf_listed(3) by (auto simp: answerable_def shelf_query_def kind list_all_iff sort_column_def intro!: parser_of_reads)
  moreover have "length (catalogue (rq_sql shelf_query) (rq_db shelf_query) (rq_filter shelf_query)) \<le> 3"
    using arg_cong [OF shelf_listed(1), of length] by (simp add: shelf_query_def)
  ultimately have "walk (Suc 3) (record_request shelf_query) None = Some (map (list_item shelf_db shelf_filter) ?c)"
    using record_walk_complete [of shelf_query 3] by (simp add: shelf_query_def)
  then show ?thesis using shelf_listed(1) by (simp add: numeral_eq_Suc list_item_def comp_def)
qed

text \<open>C38. The history of a record, read page by page from its newest revision under cursors, is every revision it ever
  had, down to the one that created it, whatever the limit.\<close>

theorem record_history_walk:
  assumes "record_step\<^sup>*\<^sup>* s t" and "records s = []" and "record_revisions s = []"
    and "find_record t (hq_type q) (hq_key q) = Some r" and "hq_db q = t" and "rd_revision r \<le> SAFE_INTEGER"
    and "\<forall>n \<in> {1..rd_revision r}. reads_back (hq_parse q) (before_payload q n)"
  shows "map_option (map hi_revision) (walk (Suc (nat (rd_revision r))) (history_request q) None)
    = Some (rev (map int [1..<Suc (nat (rd_revision r))]))"
proof -
  let ?h = "history t (hq_type q, hq_key q)"
  have "library_wf s" using assms(2,3) by (simp add: library_wf_def)
  from steps_wf [OF assms(1) this] have wf: "library_wf t" .
  have "r \<in> set (records t)" "rd_id r = (hq_type q, hq_key q)" using by_key_Some [OF assms(4) [unfolded find_record_def]] by auto
  then have "faithful r ?h" using wf by (auto simp: library_wf_def)
  then have nums: "map rv_revision ?h = map int [1..<Suc (nat (rd_revision r))]" and len: "length ?h = nat (rd_revision r)"
    by (auto simp: faithful_def)
  have up: "sorted (map rv_revision ?h)" "distinct (map rv_revision ?h)" unfolding nums by (simp_all add: sorted_map distinct_map del: upt_Suc)
  then have down: "revisions_down q = rev ?h" by (simp add: revisions_down_def assms(5) sort_key_id_if_sorted)
  have "1 \<le> rv_revision v \<and> rv_revision v \<le> rd_revision r" if "v \<in> set ?h" for v
  proof -
    have "rv_revision v \<in> set (map int [1..<Suc (nat (rd_revision r))])" using that nums by (metis image_eqI list.set_map)
    then show ?thesis by auto
  qed
  then have "history_answerable q" using assms(5-7) up(2) by (force simp: history_answerable_def list_all_iff)
  from history_walk.walk_all [OF this, of "nat (rd_revision r)"]
  have "walk (Suc (nat (rd_revision r))) (history_request q) None = Some (map (history_item_of (hq_values q)) (rev ?h))"
    by (simp add: down len)
  moreover have "map hi_revision (map (history_item_of b) vs) = map rv_revision vs" for b vs
    by (simp add: history_item_of_def)
  ultimately show ?thesis by (simp only: option.map rev_map [symmetric] nums)
qed

definition past_query :: history_query where
  "past_query = \<lparr>hq_parse = parser_of (map (\<lambda>n. payload (fingerprint (history_binding ''doc'' ''k'')) [(''before'', JNum n)]) [1, 2, 3]),
     hq_db = archived_db, hq_type = ''doc'', hq_key = ''k'', hq_limit = Some 1, hq_values = False\<rparr>"

lemma past_revision: "map_option rd_revision (find_record archived_db ''doc'' ''k'') = Some 3"
  by code_simp

theorem record_history_walk_witness:
  "map_option (map hi_revision) (walk 4 (history_request past_query) None) = Some [3, 2, 1]"
proof -
  obtain r where r: "find_record archived_db (hq_type past_query) (hq_key past_query) = Some r" "rd_revision r = 3"
    using past_revision by (auto simp: past_query_def)
  have three: "n = 1 \<or> n = 2 \<or> n = 3" if "n \<in> {1..rd_revision r}" for n using that r(2) by auto
  have "reads_back (hq_parse past_query) (before_payload past_query n)" if "n \<in> {1..rd_revision r}" for n
    using three [OF that] by (auto simp: past_query_def before_payload_def intro!: parser_of_reads)
  moreover have "hq_db past_query = archived_db" "rd_revision r \<le> SAFE_INTEGER" using r(2) by (simp_all add: past_query_def SAFE_INTEGER_def)
  ultimately show ?thesis
    using record_history_walk [OF sample_steps sample_found(4,5) r(1)] r(2) by (simp add: numeral_eq_Suc)
qed

text \<open>A filter for a null member admits no record, though the listing accepts it.\<close>

lemma null_filter_empty: "obj_get k kvs = Some JNull \<Longrightarrow> rf_dataFilter f = Some kvs \<Longrightarrow> catalogue sql s f = []"
proof -
  assume k: "obj_get k kvs = Some JNull" and f: "rf_dataFilter f = Some kvs"
  have "(k, JNull) \<in> set kvs" using k by (auto simp: obj_get_def dest: map_of_SomeD)
  then have "\<not> record_listed sql s f r" for r using f by (auto simp: record_listed_def list_all_iff)
  then show ?thesis by (simp add: catalogue_def ordered_def)
qed

lemma filter_split: "length (filter P xs) = length (filter (\<lambda>r. P r \<and> \<not> Q r) xs) + length (filter (\<lambda>r. P r \<and> Q r) xs)"
  by (induction xs) auto

text \<open>The counts by type are the totals of the listings.\<close>

lemma counts_are_totals:
  assumes "c \<in> set (countRecordTypes s restrictions)"
    and "f = \<lparr>rf_type = tc_type c, rf_restrictions = restrictions, rf_includeArchived = Some b, rf_tag = None, rf_tagFilter = None,
       rf_dataFilter = None, rf_limit = l, rf_sort = x, rf_descending = d, rf_keyContains = None, rf_cursor = None, rf_titleField = t\<rparr>"
  shows "map_sum id lp_total (listRecords parse sql s f) = Inr (tc_count c + (if b then tc_archived_count c else 0))"
proof -
  let ?ok = "\<lambda>r. recordRestrictionCondition restrictions Read_side (rd_type r) (rd_key r)"
  have c: "tc_count c = length (filter (\<lambda>r. rd_type r = tc_type c \<and> \<not> rd_archived r) (filter ?ok (records s)))"
    "tc_archived_count c = length (filter (\<lambda>r. rd_type r = tc_type c \<and> rd_archived r) (filter ?ok (records s)))"
    using assms(1) by (auto simp: countRecordTypes_def Let_def)
  have listed: "record_listed sql s f = (\<lambda>r. rd_type r = tc_type c \<and> ?ok r \<and> (b \<or> \<not> rd_archived r))"
    by (rule ext) (auto simp: record_listed_def assms(2) given_def)
  have "lp_total (projr (listRecords parse sql s f)) = length (filter (record_listed sql s f) (records s))"
    "\<not> isl (listRecords parse sql s f)"
    by (simp_all add: listRecords_def assms(2) page_condition_def given_def Let_def data_filter_def filter_fails_def)
  moreover have "length (filter (record_listed sql s f) (records s)) = tc_count c + (if b then tc_archived_count c else 0)"
    unfolding listed c using filter_split [of "\<lambda>r. rd_type r = tc_type c \<and> ?ok r" "records s" rd_archived]
    by (auto simp: conj_ac)
  ultimately show ?thesis by (cases "listRecords parse sql s f") auto
qed

end
