(* ===== verification/Spec2Isabelle.thy ===== *)
theory Spec2Isabelle
  imports Execution Messaging Consultation Traces Signalling Sweep Oidc Grep Disclosure Browsing
begin

text \<open>
  A development for tila, a coordination service for agents that work on shared tasks. A project is
  one SQLite database; every operation of \<^verbatim>\<open>packages/ops-sqlite/src\<close> is a function of that database
  which reads it, may throw, and writes it inside a transaction. The HTTP worker, the command line
  tool, the SDK and the MCP server are clients of those operations.

  \<^bold>\<open>The parts and how they interact.\<close> Tasks (entities) have a type, data with a lifecycle field, tags
  and relationships, under a versioned project definition. A participant that works on a task holds
  a claim: a lease on the resource of the task with a fence, a counter that only grows, so that writes
  of a holder that lost its lease are refused. Gates block a task until somebody resolves them or they
  time out; artifact reviews block entry into some statuses until the referenced artifacts are trusted.
  Managed work puts tasks into a queue: an entry is enrolled, dispatched to a worker as an attempt with an
  exclusive claim and a reservation of execution capacity, accepted, started, kept alive by heartbeats,
  suspended, resumed, reconciled, retried and finished. While a task is enrolled the direct operations
  on its claim and its lifecycle field are refused.

  \<^bold>\<open>The model.\<close> The state is the record \<open>db\<close> (\<^verbatim>\<open>Store\<close>), one list of rows per table in insertion order. An
  operation inside a transaction is a \<open>ptx\<close>, a function from the database to an error or a result and a new
  database; \<open>commit\<close> is \<^verbatim>\<open>db.transaction\<close>: an error leaves the database as it was (\<^verbatim>\<open>Prelude\<close>). Reads that
  the code does through an index or a unique key are \<open>by_key\<close>, updates and deletes by a condition are
  \<open>rows_set\<close> and \<open>rows_delete\<close>, and an insert that violates a key throws a \<open>SqliteError\<close>. The clock, fresh
  identifiers and the parser of a definition text are fields of a \<open>host\<close>. JavaScript numbers that the
  code uses as revisions, fences, times and counts are integers. Strings are lists of characters. How SQLite
  evaluates the JSON paths of a data filter, errors included, is a parameter of the listings.

  \<^bold>\<open>Theories and sources.\<close>
  \<^item> \<^verbatim>\<open>Prelude\<close>: transactions, tables, proof rules. \<^verbatim>\<open>Json\<close>: JSON values, \<open>JSON.stringify\<close> and the
    canonical form (\<^verbatim>\<open>schemas/src/record.ts\<close>, \<^verbatim>\<open>task-data.ts\<close>, \<^verbatim>\<open>tags.ts\<close>). \<^verbatim>\<open>Definitions\<close>: project definitions,
    constraint checks, tolerant reads (\<^verbatim>\<open>schemas/src/config.ts\<close>, \<^verbatim>\<open>core/src/schema-evolution.ts\<close>,
    \<^verbatim>\<open>constraint-ops.ts\<close>, \<^verbatim>\<open>schema-ops.ts\<close>). \<^verbatim>\<open>Store\<close>: the rows and the database (\<^verbatim>\<open>schema.ts\<close>,
    \<^verbatim>\<open>journal-ops.ts\<close>).
  \<^item> \<^verbatim>\<open>Fences\<close> (\<^verbatim>\<open>fence-ops.ts\<close>, \<^verbatim>\<open>core/src/fence.ts\<close>), \<^verbatim>\<open>Idempotency\<close> (\<^verbatim>\<open>do-idempotency-ops.ts\<close>),
    \<^verbatim>\<open>Managed_Work\<close> (\<^verbatim>\<open>managed-work.ts\<close>), \<^verbatim>\<open>Coordination\<close> (\<^verbatim>\<open>coordination-ops.ts\<close>), \<^verbatim>\<open>Gates\<close>
    (\<^verbatim>\<open>gate-ops.ts\<close>), \<^verbatim>\<open>Reviews\<close> (\<^verbatim>\<open>artifact-review-ops.ts\<close>), \<^verbatim>\<open>Entities\<close> (\<^verbatim>\<open>entity-ops.ts\<close>,
    \<^verbatim>\<open>relationship-ops.ts\<close>), \<^verbatim>\<open>Readiness\<close> (\<^verbatim>\<open>ready-ops.ts\<close>).
  \<^item> \<^verbatim>\<open>Queue_Internals\<close> (\<^verbatim>\<open>queue-internals.ts\<close>, \<^verbatim>\<open>question-state-ops.ts\<close>), \<^verbatim>\<open>Attempts\<close> (\<^verbatim>\<open>attempt-ops.ts\<close>),
    \<^verbatim>\<open>Queue\<close> and \<^verbatim>\<open>Inspection\<close> (\<^verbatim>\<open>queue-ops.ts\<close>), \<^verbatim>\<open>Recovery\<close> (\<^verbatim>\<open>attempt-recovery-ops.ts\<close>,
    \<^verbatim>\<open>attempt-correction-ops.ts\<close>).
  \<^item> \<^verbatim>\<open>Ledger\<close>: the abstract machine of managed work with its invariant. \<^verbatim>\<open>Work\<close>, \<^verbatim>\<open>Refinement\<close>: every operation
    body is a sequence of ledger steps. \<^verbatim>\<open>Managed_System\<close>: reachable databases and the invariants on them.
    \<^verbatim>\<open>Samples\<close>: a concrete run for the witnesses. \<^verbatim>\<open>Dispatch\<close>, \<^verbatim>\<open>Execution\<close>: what a claim, an acceptance, a
    finish, an expiry and the listings promise.
  \<^item> \<^verbatim>\<open>Agents\<close> (\<^verbatim>\<open>agent-binding-ops.ts\<close>): agents and the bindings of runs to their mailboxes.
    \<^verbatim>\<open>Conversations\<close>, \<^verbatim>\<open>Deliveries\<close>, \<^verbatim>\<open>Traces\<close> (\<^verbatim>\<open>conversation-ops.ts\<close>): rooms and publication,
    inboxes and wake leases, delivery traces and listings. \<^verbatim>\<open>Mailbox\<close>, \<^verbatim>\<open>Talk\<close>, \<^verbatim>\<open>Messaging\<close>: the mailbox as a
    locale, reachable conversation states, the properties; \<^verbatim>\<open>Talk_Samples\<close> their concrete databases.
  \<^item> \<^verbatim>\<open>Questions\<close> (\<^verbatim>\<open>question-ops.ts\<close>), \<^verbatim>\<open>Answers\<close>, \<^verbatim>\<open>Consultation\<close>: questions of attempts, who may answer them
    and what an answer still counts for after the session that asked is replaced.
  \<^item> \<^verbatim>\<open>Signals\<close> (\<^verbatim>\<open>signal-ops.ts\<close>), \<^verbatim>\<open>Signalling\<close>: signals, their history and its cursor. \<^verbatim>\<open>Sweep\<close>
    (\<^verbatim>\<open>sweep-ops.ts\<close>): the periodic expiry across the components above.
  \<^item> \<^verbatim>\<open>Oidc\<close> (\<^verbatim>\<open>core/src/github-oidc-policy.ts\<close>): the policy on workload tokens with its wildcard matcher.
    \<^verbatim>\<open>Grep\<close> (\<^verbatim>\<open>core/src/grep.ts\<close>): validation of search patterns, line splitting and matching.
  \<^item> \<^verbatim>\<open>Access\<close> (\<^verbatim>\<open>schemas/src/capability.ts\<close>, \<^verbatim>\<open>credential-policy.ts\<close>), \<^verbatim>\<open>Authority\<close>: credential policies, their
    delegation and intersection as a locale of authorities, the guard on requests. \<^verbatim>\<open>Visibility\<close>
    (\<^verbatim>\<open>journal-ops.ts\<close>, \<^verbatim>\<open>journal-visibility.ts\<close>), \<^verbatim>\<open>Disclosure\<close>: the journal as a restricted credential
    reads it, in windows under a bound on the sequences of one request.
  \<^item> \<^verbatim>\<open>Records\<close> (\<^verbatim>\<open>record-ops.ts\<close>, names from \<^verbatim>\<open>schemas/src/record.ts\<close>): versioned records. \<^verbatim>\<open>Writing\<close>: what a write
    leaves, steps of records among those of the rest of the program. \<^verbatim>\<open>Recording\<close>: merge patches, histories, fences.
    \<^verbatim>\<open>Cursor\<close> (\<^verbatim>\<open>list-cursor.ts\<close>): fingerprints and opaque cursors. \<^verbatim>\<open>Listings\<close> (the lists of \<^verbatim>\<open>record-ops.ts\<close>),
    \<^verbatim>\<open>Browsing\<close>: records and histories page by page. \<^verbatim>\<open>Paging\<close>: what cursors promise, as a locale that
    the lists of records, of their histories and of signals interpret.

  \<^bold>\<open>What the lemmas show.\<close> A new exclusive claim passes the fence, so older holders are refused; a repeated
  request acts once; gates settle once and a terminal transition waits for them; reviews of an artifact are
  numbered without gaps; readiness equals its declarative reading, with the depth-first search shown
  complete and its reasons genuine; managed work refines the ledger, so at every reachable database
  capacity is exactly the number of executing attempts and a task has at most one live attempt; dispatch
  respects the limit, picks the first eligible entry and makes progress; the execution protocol needs the
  current grant at every step. A mailbox has one holder and a run that lost it can do nothing; a message is
  published once, numbered without gaps in its room, acknowledged once, and a wake is leased to one listener
  within the budgets; an answer comes from the responder of the question and dies with the session that asked.
  Walking the history by its cursors ends with every live signal once; a sweep removes exactly what lapsed; the
  token policy equals its declarative reading; chunk boundaries do not change the lines of a text. A session
  under several policies may do what all of them permit; a chain of delegations never widens; the guard, the SQL
  conditions and the predicates agree; a restricted listing of the journal is complete under its cursors from the watermark
  of the archive on and does not depend on what it hides. A merge patch is that of RFC 7396 where no null is new to the record; the revisions of a
  record are its whole history; a patch with a fence known before its read never overwrites what it has not seen;
  walking a list by its cursors ends with every row once, and a cursor serves only the query it was issued for.

  \<^bold>\<open>Termination and bounds.\<close> The depth-first search of readiness is a function with a
  lexicographic measure over the colours and the stack; the batched listing of attempts by the rows left; the
  scanners of search patterns by the text left. The wildcard matcher is a \<^verbatim>\<open>While_Combinator\<close> loop whose result is
  an option; it is shown to return, as is the tail walk of the restricted journal, a \<^verbatim>\<open>partial_function\<close>; its
  forward scan ends because every window moves the cursor. The clients that follow the cursors of lists and of the journal
  have a bound on their requests, which is shown to be enough. Loops over rows are structural.

  \<^bold>\<open>Not modelled.\<close> Messages of errors, unless they carry an identifier the callers use; full text search,
  which is an SQLite extension; regular expressions, SHA-256 and the check of token signatures, which are libraries;
  migrations, which are SQL texts; transport, rendering and storage bindings. The storage of artifacts, handoffs and
  transfer are components of their own and are left out; foreign keys are not enforced by the model, as the
  driver does not enforce them for every database.
\<close>

end
